(* ===== verification/Prelude.thy ===== *)
theory Prelude
  imports Main "HOL-Library.Word"
begin

text \<open>
  Shared vocabulary of the development: the byte type, fallible computations as sums
  (the left summand is the error, as in Rust's \<^verbatim>\<open>Result\<close> or a rejected JavaScript
  promise), association lists written by the code's keyed tables, and the interface that every
  closed string enumeration of the code (\<^verbatim>\<open>as_str\<close> / \<^verbatim>\<open>parse\<close>) promises.
  Rust strings are the list of their UTF-8 bytes, one \<^typ>\<open>char\<close> per byte.
\<close>

type_synonym byte = "8 word"

named_theorems res_simps \<open>rewriting of chained fallible computations\<close>
named_theorems table_simps \<open>what a statement does to each table of the database\<close>

section \<open>Fallible computations\<close>

text \<open>The \<^verbatim>\<open>?\<close> operator: go on with the value, or return the error at once.\<close>

definition res_bind :: "'e + 'a \<Rightarrow> ('a \<Rightarrow> 'e + 'b) \<Rightarrow> 'e + 'b" where
  "res_bind r f = (case r of Inl e \<Rightarrow> Inl e | Inr a \<Rightarrow> f a)"

text \<open>\<^verbatim>\<open>map_err\<close> / the \<^verbatim>\<open>#[from]\<close> conversions of the error enumerations.\<close>

definition res_map_err :: "('e \<Rightarrow> 'f) \<Rightarrow> 'e + 'a \<Rightarrow> 'f + 'a" where
  "res_map_err g r = (case r of Inl e \<Rightarrow> Inl (g e) | Inr a \<Rightarrow> Inr a)"

text \<open>\<^verbatim>\<open>Option::ok_or_else\<close>.\<close>

definition ok_or :: "'e \<Rightarrow> 'a option \<Rightarrow> 'e + 'a" where
  "ok_or e x = (case x of None \<Rightarrow> Inl e | Some a \<Rightarrow> Inr a)"

text \<open>\<^verbatim>\<open>Option<Result>::transpose\<close>.\<close>

definition transpose_opt :: "('e + 'a) option \<Rightarrow> 'e + 'a option" where
  "transpose_opt x = (case x of None \<Rightarrow> Inr None | Some (Inl e) \<Rightarrow> Inl e | Some (Inr a) \<Rightarrow> Inr (Some a))"

lemma res_bind_simps [simp, res_simps]:
  "res_bind (Inl e) f = Inl e"
  "res_bind (Inr a) f = f a"
  by (simp_all add: res_bind_def)

lemma res_bind_Inr_iff [res_simps]:
  "res_bind r f = Inr b \<longleftrightarrow> (\<exists>a. r = Inr a \<and> f a = Inr b)"
  by (cases r) auto

lemma res_bind_InrE [elim!]:
  assumes "res_bind r f = Inr b"
  obtains a where "r = Inr a" and "f a = Inr b"
  using assms by (cases r) auto

lemma res_bind_assoc: "res_bind (res_bind r f) g = res_bind r (\<lambda>a. res_bind (f a) g)"
  by (cases r) auto

lemma res_map_err_simps [simp, res_simps]:
  "res_map_err g (Inl e) = Inl (g e)"
  "res_map_err g (Inr a) = Inr a"
  by (simp_all add: res_map_err_def)

lemma res_map_err_Inr_iff [simp]: "res_map_err g r = Inr a \<longleftrightarrow> r = Inr a"
  by (cases r) auto

lemma ok_or_simps [simp, res_simps]:
  "ok_or e None = Inl e"
  "ok_or e (Some a) = Inr a"
  by (simp_all add: ok_or_def)

lemma ok_or_Inr_iff [simp]: "ok_or e x = Inr a \<longleftrightarrow> x = Some a"
  by (cases x) auto

lemma transpose_opt_simps [simp, res_simps]:
  "transpose_opt None = Inr None"
  "transpose_opt (Some (Inl e)) = Inl e"
  "transpose_opt (Some (Inr a)) = Inr (Some a)"
  by (simp_all add: transpose_opt_def)

text \<open>\<^verbatim>\<open>collect::<Result<Vec<_>, _>>\<close>: the values, or the first error.\<close>

fun collect_results :: "('e + 'a) list \<Rightarrow> 'e + 'a list" where
  "collect_results [] = Inr []"
| "collect_results (r # rs) = res_bind r (\<lambda>a. res_bind (collect_results rs) (\<lambda>as. Inr (a # as)))"

lemma collect_results_parse:
  "(\<And>r. r \<in> set rows \<Longrightarrow> f r = Inr (g r)) \<Longrightarrow> collect_results (map f rows) = Inr (map g rows)"
  by (induction rows) simp_all

lemma length_collect: "collect_results rs = Inr xs \<Longrightarrow> length xs = length rs"
  by (induction rs arbitrary: xs) auto

lemma collect_results_Inr_iff:
  "collect_results (map f xs) = Inr ys \<longleftrightarrow> list_all2 (\<lambda>x y. f x = Inr y) xs ys"
  by (induction xs arbitrary: ys) (auto simp: res_bind_Inr_iff list_all2_Cons1)

section \<open>Lists\<close>

lemma set_map_filter: "set (List.map_filter f xs) = {y. \<exists>x\<in>set xs. f x = Some y}"
  by (force simp: List.map_filter_def)

lemma find_append: "find P (xs @ ys) = (case find P xs of None \<Rightarrow> find P ys | Some x \<Rightarrow> Some x)"
  by (induction xs) simp_all

section \<open>Strings and bytes\<close>

definition str_bytes :: "string \<Rightarrow> byte list" where
  "str_bytes s = map of_char s"

lemma str_bytes_simps [simp]:
  "str_bytes [] = []"
  "str_bytes (c # s) = of_char c # str_bytes s"
  "str_bytes (s @ t) = str_bytes s @ str_bytes t"
  by (simp_all add: str_bytes_def)

lemma length_str_bytes [simp]: "length (str_bytes s) = length s"
  by (simp add: str_bytes_def)

lemma of_char_word8_inj: "(of_char c :: byte) = of_char d \<longleftrightarrow> c = d"
proof
  assume eq: "(of_char c :: byte) = of_char d"
  have small: "of_char x < (2 :: nat) ^ LENGTH(8)" for x
    using of_char_mod_256 [of x, where ?'a = nat] mod_less_divisor [of 256 "of_char x :: nat"]
    by simp
  have "unat (of_nat (of_char x :: nat) :: byte) = of_char x" for x
    using small [of x] by (simp add: unat_of_nat)
  moreover have "(of_nat (of_char x :: nat) :: byte) = of_char x" for x
    by (simp add: of_nat_of_char)
  ultimately have "(of_char c :: nat) = of_char d"
    using eq by metis
  then show "c = d" by simp
qed simp

lemma inj_str_bytes: "str_bytes s = str_bytes t \<longleftrightarrow> s = t"
proof
  assume "str_bytes s = str_bytes t"
  then show "s = t"
    by (induction s arbitrary: t) (auto simp: str_bytes_def of_char_word8_inj)
qed simp

section \<open>Closed string enumerations\<close>

text \<open>
  The interface the projector and the row decoders rely on: an enumeration written out with
  \<^verbatim>\<open>as_str\<close> is read back by \<^verbatim>\<open>parse\<close>, and \<^verbatim>\<open>parse\<close> accepts nothing but the
  names \<^verbatim>\<open>as_str\<close> writes.
\<close>

locale str_enum =
  fixes as_str :: "'a \<Rightarrow> string"
    and parse :: "string \<Rightarrow> 'a option"
  assumes parse_as_str: "parse (as_str x) = Some x"
    and parse_sound: "parse s = Some x \<Longrightarrow> as_str x = s"
begin

lemma as_str_inject: "as_str x = as_str y \<longleftrightarrow> x = y"
  by (metis parse_as_str option.inject)

lemma parse_Some_iff: "parse s = Some x \<longleftrightarrow> s = as_str x"
  using parse_as_str parse_sound by auto

lemma parse_None_iff: "parse s = None \<longleftrightarrow> s \<notin> range as_str"
  by (cases "parse s") (auto simp: parse_as_str dest: parse_sound)

text \<open>Reading a list of stored names and dropping the unknown ones loses nothing that was written.\<close>

lemma filter_map_as_str: "List.map_filter parse (map as_str xs) = xs"
  by (induction xs) (auto simp: parse_as_str)

end

end
