(* ===== verification/SiteBundle.thy ===== *)
theory SiteBundle
  imports Prelude
begin

text \<open>
  The browser side of static-site hosting,
  \<^verbatim>\<open>crates/oag-api/assets/ipfs-site-bundle.src.js\<close>: the gateway-free Helia node, the
  directory walk, the blob URLs and the rewriting of \<^verbatim>\<open>index.html\<close>.

  The bundle's imports (Helia, libp2p, UnixFS, CID, multiaddr) and the browser's DOM, Blob and
  URL interfaces are not code of the repository. They are the fields of the record
  \<^verbatim>\<open>platform\<close>, an argument of every definition that uses them. A promise that may reject is a
  sum, an async iterator is the list of what it yields together with the error that ends it, if
  any. The page (root element, written document, dialled addresses, created object URLs) is an
  explicit state. JavaScript strings are modelled on the code units 0 to 255, one
  \<^typ>\<open>char\<close> each. The walk follows whatever directory graph the peer serves, so it takes
  fuel: \<^term>\<open>None\<close> is a walk that has not ended. The lemma \<open>collectEntries_walk\<close> gives
  the fuel that is enough for every finite site.
\<close>

section \<open>Data\<close>

datatype js_error = Thrown (message: string)

record 'cid fs_entry =
  entry_cid :: 'cid
  entry_name :: string

record 'cid unixfs_api =
  fs_ls :: "'cid \<Rightarrow> 'cid fs_entry list \<times> js_error option"
  fs_stat :: "'cid \<Rightarrow> js_error + string"
  fs_cat :: "'cid \<Rightarrow> byte list list \<times> js_error option"

text \<open>
  What \<^verbatim>\<open>MIME_TYPES[ext] ?? \<dots>\<close> can be: a string of the table, or one of the two lower-case
  properties every object literal inherits from \<^verbatim>\<open>Object.prototype\<close>.
\<close>

datatype mime_value = MimeString string | ObjectConstructor | ObjectPrototype

record blob =
  blob_chunks :: "byte list list"
  blob_type :: mime_value

datatype libp2p_service = Identify | KadDHT | Ping

datatype libp2p_transport = WebSockets

record 'ma libp2p_options =
  listen :: "string list"
  transports :: "libp2p_transport list"
  denyDialMultiaddr :: "'ma \<Rightarrow> bool"
  services :: "(string \<times> libp2p_service) list"

record dom_element =
  attrs :: "string \<rightharpoonup> string"

text \<open>A parsed document: the elements \<^verbatim>\<open>querySelectorAll\<close> ranges over, in document order, and
  the rest of the tree.\<close>

record 'sk dom =
  dom_skeleton :: 'sk
  dom_elements :: "dom_element list"

record root_element =
  textContent :: string
  cssText :: string

record 'ma page =
  oag_ipfs_root :: "root_element option"
  written :: "string option"
  dialed :: "'ma list"
  object_urls :: "blob list"

record ('h, 'ma, 'cid, 'sk) platform =
  createHeliaLight :: "js_error + 'h"
  withLibp2p :: "'h \<Rightarrow> 'ma libp2p_options \<Rightarrow> 'h"
  withBitswap :: "'h \<Rightarrow> 'h"
  helia_start :: "'h \<Rightarrow> js_error + 'h"
  toMultiaddr :: "string \<Rightarrow> js_error + 'ma"
  libp2p_dial :: "'h \<Rightarrow> 'ma \<Rightarrow> js_error + unit"
  unixfs :: "'h \<Rightarrow> 'cid unixfs_api"
  CID_parse :: "string \<Rightarrow> js_error + 'cid"
  createObjectURL :: "nat \<Rightarrow> string"
  blob_text :: "blob \<Rightarrow> string"
  parseFromString :: "string \<Rightarrow> 'sk dom"
  outerHTML :: "'sk dom \<Rightarrow> string"
  written_root :: "string \<Rightarrow> root_element option"
  null_access :: js_error

section \<open>Rendering an error\<close>

definition error_css :: string where
  "error_css = ''font-family: monospace; color: #b00020; padding: 1rem;''"

definition renderError ::
  "('h, 'ma, 'cid, 'sk) platform \<Rightarrow> string \<Rightarrow> 'ma page \<Rightarrow> (js_error + unit) \<times> 'ma page" where
  "renderError P m pg =
     (case oag_ipfs_root pg of
        None \<Rightarrow> (Inl (null_access P), pg)
      | Some r \<Rightarrow>
          (Inr (), pg\<lparr>oag_ipfs_root :=
             Some (r\<lparr>textContent := ''oag ipfs site: '' @ m, cssText := error_css\<rparr>)\<rparr>))"

section \<open>The Helia node\<close>

definition gateway_free_options :: "'ma libp2p_options" where
  "gateway_free_options =
     \<lparr>listen = [],
      transports = [WebSockets],
      denyDialMultiaddr = (\<lambda>_. False),
      services = [(''identify'', Identify), (''dht'', KadDHT), (''ping'', Ping)]\<rparr>"

text \<open>
  \<^verbatim>\<open>if (directDialMultiaddr)\<close>: a null or empty address is falsy. A failure to parse or to
  dial the address is rendered and swallowed; only a failure of the rendering itself escapes.
\<close>

definition dial_failed ::
  "('h, 'ma, 'cid, 'sk) platform \<Rightarrow> string \<Rightarrow> js_error \<Rightarrow> 'ma page \<Rightarrow> (js_error + unit) \<times> 'ma page" where
  "dial_failed P ma err pg =
     renderError P
       (''could not dial the configured local IPFS node ('' @ ma @ ''): '' @ message err) pg"

definition direct_dial ::
  "('h, 'ma, 'cid, 'sk) platform \<Rightarrow> 'h \<Rightarrow> string option \<Rightarrow> 'ma page \<Rightarrow> (js_error + unit) \<times> 'ma page" where
  "direct_dial P helia directDialMultiaddr pg =
     (case directDialMultiaddr of
        None \<Rightarrow> (Inr (), pg)
      | Some ma \<Rightarrow>
          if ma = [] then (Inr (), pg)
          else (case toMultiaddr P ma of
                  Inl err \<Rightarrow> dial_failed P ma err pg
                | Inr target \<Rightarrow>
                    (let pg' = pg\<lparr>dialed := dialed pg @ [target]\<rparr>
                     in case libp2p_dial P helia target of
                          Inl err \<Rightarrow> dial_failed P ma err pg'
                        | Inr _ \<Rightarrow> (Inr (), pg'))))"

definition buildGatewayFreeHelia ::
  "('h, 'ma, 'cid, 'sk) platform \<Rightarrow> string option \<Rightarrow> 'ma page \<Rightarrow> (js_error + 'h) \<times> 'ma page" where
  "buildGatewayFreeHelia P directDialMultiaddr pg =
     (case createHeliaLight P of
        Inl err \<Rightarrow> (Inl err, pg)
      | Inr light \<Rightarrow>
          (case helia_start P (withBitswap P (withLibp2p P light gateway_free_options)) of
             Inl err \<Rightarrow> (Inl err, pg)
           | Inr helia \<Rightarrow>
               (case direct_dial P helia directDialMultiaddr pg of
                  (Inl err, pg') \<Rightarrow> (Inl err, pg')
                | (Inr _, pg') \<Rightarrow> (Inr helia, pg'))))"

section \<open>MIME types\<close>

definition MIME_TYPES :: "(string \<times> string) list" where
  "MIME_TYPES =
     [(''html'', ''text/html''),
      (''css'', ''text/css''),
      (''js'', ''application/javascript''),
      (''json'', ''application/json''),
      (''png'', ''image/png''),
      (''jpg'', ''image/jpeg''),
      (''jpeg'', ''image/jpeg''),
      (''svg'', ''image/svg+xml''),
      (''gif'', ''image/gif'')]"

text \<open>\<^verbatim>\<open>s.split('.').pop()\<close>: what follows the last dot, or the whole string. It is never
  undefined: \<^verbatim>\<open>split\<close> gives at least one piece.\<close>

definition last_dot_piece :: "string \<Rightarrow> string" where
  "last_dot_piece s = rev (takeWhile (\<lambda>c. c \<noteq> CHR ''.'') (rev s))"

text \<open>\<^verbatim>\<open>toLowerCase\<close> on the code units 0 to 255: A-Z, and the Latin-1 capitals.\<close>

definition lower_unit :: "char \<Rightarrow> char" where
  "lower_unit c =
     (let n = of_char c :: nat
      in if (65 \<le> n \<and> n \<le> 90) \<or> (192 \<le> n \<and> n \<le> 222 \<and> n \<noteq> 215) then char_of (n + 32) else c)"

definition toLowerCase :: "string \<Rightarrow> string" where
  "toLowerCase s = map lower_unit s"

text \<open>A property read on the object literal \<^verbatim>\<open>MIME_TYPES\<close>: an own property, else an inherited
  one. \<^verbatim>\<open>constructor\<close> and \<^verbatim>\<open>__proto__\<close> are the only inherited names without capitals.\<close>

definition mime_property :: "string \<Rightarrow> mime_value option" where
  "mime_property k =
     (case map_of MIME_TYPES k of
        Some v \<Rightarrow> Some (MimeString v)
      | None \<Rightarrow>
          if k = ''constructor'' then Some ObjectConstructor
          else if k = ''__proto__'' then Some ObjectPrototype
          else None)"

definition guessMimeType :: "string \<Rightarrow> mime_value" where
  "guessMimeType path =
     (case mime_property (toLowerCase (last_dot_piece path)) of
        Some v \<Rightarrow> v
      | None \<Rightarrow> MimeString ''application/octet-stream'')"

section \<open>Reading a file\<close>

definition catToBlob :: "'cid unixfs_api \<Rightarrow> 'cid \<Rightarrow> mime_value \<Rightarrow> js_error + blob" where
  "catToBlob fs cid mimeType =
     (case fs_cat fs cid of
        (chunks, None) \<Rightarrow> Inr \<lparr>blob_chunks = chunks, blob_type = mimeType\<rparr>
      | (chunks, Some err) \<Rightarrow> Inl err)"

section \<open>The directory walk\<close>

definition join_path :: "string \<Rightarrow> string \<Rightarrow> string" where
  "join_path prefix name = (if prefix \<noteq> [] then prefix @ ''/'' @ name else name)"

function (sequential)
  collectEntries :: "nat \<Rightarrow> 'cid unixfs_api \<Rightarrow> 'cid fs_entry \<Rightarrow> string \<Rightarrow> (string \<times> 'cid) list
     \<Rightarrow> (js_error + (string \<times> 'cid) list) option"
  and collectChildren :: "nat \<Rightarrow> 'cid unixfs_api \<Rightarrow> 'cid fs_entry list \<Rightarrow> js_error option \<Rightarrow> string
     \<Rightarrow> (string \<times> 'cid) list \<Rightarrow> (js_error + (string \<times> 'cid) list) option"
where
  "collectEntries 0 fs entry prefix out = None"
| "collectEntries (Suc fuel) fs entry prefix out =
     (let relative = join_path prefix (entry_name entry)
      in case fs_stat fs (entry_cid entry) of
           Inl err \<Rightarrow> Some (Inl err)
         | Inr type \<Rightarrow>
             if type = ''directory'' then
               (case fs_ls fs (entry_cid entry) of
                  (children, end) \<Rightarrow> collectChildren fuel fs children end relative out)
             else Some (Inr (out @ [(relative, entry_cid entry)])))"
| "collectChildren fuel fs [] end prefix out =
     (case end of None \<Rightarrow> Some (Inr out) | Some err \<Rightarrow> Some (Inl err))"
| "collectChildren fuel fs (child # children) end prefix out =
     (case collectEntries fuel fs child prefix out of
        None \<Rightarrow> None
      | Some (Inl err) \<Rightarrow> Some (Inl err)
      | Some (Inr out') \<Rightarrow> collectChildren fuel fs children end prefix out')"
  by pat_completeness auto
termination
  by (relation "measures
        [\<lambda>x. case x of Inl (n, fs, e, p, out) \<Rightarrow> n | Inr (n, fs, es, end, p, out) \<Rightarrow> n,
         \<lambda>x. case x of Inl (n, fs, e, p, out) \<Rightarrow> 0 | Inr (n, fs, es, end, p, out) \<Rightarrow> Suc (length es)]") auto

section \<open>Blob URLs and the rewritten page\<close>

text \<open>The loop over the collected entries: \<^verbatim>\<open>index.html\<close> is kept as a blob, every other file
  gets a URL (the n-th call of \<^verbatim>\<open>createObjectURL\<close> gives the n-th URL).\<close>

fun loadBlobs :: "('h, 'ma, 'cid, 'sk) platform \<Rightarrow> 'cid unixfs_api \<Rightarrow> (string \<times> 'cid) list
    \<Rightarrow> (string \<rightharpoonup> string) \<Rightarrow> blob option \<Rightarrow> 'ma page
    \<Rightarrow> (js_error + ((string \<rightharpoonup> string) \<times> blob option)) \<times> 'ma page" where
  "loadBlobs P fs [] blobUrls indexBlob pg = (Inr (blobUrls, indexBlob), pg)"
| "loadBlobs P fs ((path, cid) # entries) blobUrls indexBlob pg =
     (case catToBlob fs cid (guessMimeType path) of
        Inl err \<Rightarrow> (Inl err, pg)
      | Inr blob \<Rightarrow>
          if path = ''index.html'' then loadBlobs P fs entries blobUrls (Some blob) pg
          else loadBlobs P fs entries
                 (blobUrls(path \<mapsto> createObjectURL P (length (object_urls pg)))) indexBlob
                 (pg\<lparr>object_urls := object_urls pg @ [blob]\<rparr>))"

text \<open>\<^verbatim>\<open>value.replace(/^\.?\/+/, '')\<close>.\<close>

definition strip_reference :: "string \<Rightarrow> string" where
  "strip_reference v =
     (let w = (case v of c # cs \<Rightarrow> if c = CHR ''.'' then cs else v | [] \<Rightarrow> [])
      in if take 1 w = ''/'' then dropWhile (\<lambda>c. c = CHR ''/'') w else v)"

definition selected :: "dom_element \<Rightarrow> bool" where
  "selected el \<longleftrightarrow> attrs el ''src'' \<noteq> None \<or> attrs el ''href'' \<noteq> None"

definition rewritten_attr :: "dom_element \<Rightarrow> string" where
  "rewritten_attr el = (if attrs el ''src'' \<noteq> None then ''src'' else ''href'')"

definition rewriteElement :: "(string \<rightharpoonup> string) \<Rightarrow> dom_element \<Rightarrow> dom_element" where
  "rewriteElement blobUrls el =
     (case attrs el (rewritten_attr el) of
        None \<Rightarrow> el
      | Some value \<Rightarrow>
          (case blobUrls (strip_reference value) of
             None \<Rightarrow> el
           | Some url \<Rightarrow> el\<lparr>attrs := (attrs el)(rewritten_attr el \<mapsto> url)\<rparr>))"

definition rewriteDocument :: "(string \<rightharpoonup> string) \<Rightarrow> 'sk dom \<Rightarrow> 'sk dom" where
  "rewriteDocument blobUrls doc =
     doc\<lparr>dom_elements := map (\<lambda>el. if selected el then rewriteElement blobUrls el else el) (dom_elements doc)\<rparr>"

text \<open>\<^verbatim>\<open>document.open/write/close\<close> replaces the page, its root element included.\<close>

definition writeDocument ::
  "('h, 'ma, 'cid, 'sk) platform \<Rightarrow> string \<Rightarrow> 'ma page \<Rightarrow> 'ma page" where
  "writeDocument P html pg = pg\<lparr>oag_ipfs_root := written_root P html, written := Some html\<rparr>"

definition renderSite ::
  "('h, 'ma, 'cid, 'sk) platform \<Rightarrow> string \<Rightarrow> (string \<rightharpoonup> string) \<Rightarrow> blob option \<Rightarrow> 'ma page
     \<Rightarrow> (js_error + unit) \<times> 'ma page" where
  "renderSite P rootCid blobUrls indexBlob pg =
     (case indexBlob of
        None \<Rightarrow> renderError P (''index.html not found under '' @ rootCid) pg
      | Some blob \<Rightarrow>
          (let doc = parseFromString P (blob_text P blob)
           in (Inr (), writeDocument P (outerHTML P (rewriteDocument blobUrls doc)) pg)))"

definition loadSite ::
  "nat \<Rightarrow> ('h, 'ma, 'cid, 'sk) platform \<Rightarrow> string \<Rightarrow> string option \<Rightarrow> 'ma page
     \<Rightarrow> ((js_error + unit) \<times> 'ma page) option" where
  "loadSite fuel P rootCid directDialMultiaddr pg =
     (case buildGatewayFreeHelia P directDialMultiaddr pg of
        (Inl err, pg1) \<Rightarrow> Some (Inl err, pg1)
      | (Inr helia, pg1) \<Rightarrow>
          (let fs = unixfs P helia
           in case CID_parse P rootCid of
                Inl err \<Rightarrow> Some (Inl err, pg1)
              | Inr cid \<Rightarrow>
                  (case fs_ls fs cid of
                     (entries, end) \<Rightarrow>
                       (case collectChildren fuel fs entries end [] [] of
                          None \<Rightarrow> None
                        | Some (Inl err) \<Rightarrow> Some (Inl err, pg1)
                        | Some (Inr out) \<Rightarrow>
                            (case loadBlobs P fs out Map.empty None pg1 of
                               (Inl err, pg2) \<Rightarrow> Some (Inl err, pg2)
                             | (Inr (blobUrls, indexBlob), pg2) \<Rightarrow>
                                 Some (renderSite P rootCid blobUrls indexBlob pg2))))))"

text \<open>The script's top level. A missing or empty \<^verbatim>\<open>window.__OAG_IPFS_CID__\<close> is falsy.\<close>

definition bundle_main ::
  "nat \<Rightarrow> ('h, 'ma, 'cid, 'sk) platform \<Rightarrow> string option \<Rightarrow> string option \<Rightarrow> 'ma page
     \<Rightarrow> ((js_error + unit) \<times> 'ma page) option" where
  "bundle_main fuel P window_cid window_multiaddr pg =
     (let multiaddr = (case window_multiaddr of Some m \<Rightarrow> if m = [] then None else Some m | None \<Rightarrow> None)
      in case window_cid of
           None \<Rightarrow> Some (renderError P ''no CID configured on this page'' pg)
         | Some cid \<Rightarrow>
             if cid = [] then Some (renderError P ''no CID configured on this page'' pg)
             else (case loadSite fuel P cid multiaddr pg of
                     None \<Rightarrow> None
                   | Some (Inl err, pg') \<Rightarrow> Some (renderError P (message err) pg')
                   | Some (Inr _, pg') \<Rightarrow> Some (Inr (), pg')))"

section \<open>What a site is\<close>

text \<open>The reference: a finite tree of named files. \<open>represents fs c s\<close> says that the UnixFS
  interface serves the tree \<open>s\<close> under the CID \<open>c\<close>.\<close>

datatype site = SFile "byte list list" | SDir "(string \<times> site) list"

fun site_height :: "site \<Rightarrow> nat" where
  "site_height (SFile chunks) = 0"
| "site_height (SDir kids) = Suc (fold max (map (\<lambda>k. site_height (snd k)) kids) 0)"

fun site_files :: "string \<Rightarrow> string \<Rightarrow> site \<Rightarrow> (string \<times> byte list list) list" where
  "site_files prefix name (SFile chunks) = [(join_path prefix name, chunks)]"
| "site_files prefix name (SDir kids) =
     concat (map (\<lambda>k. site_files (join_path prefix name) (fst k) (snd k)) kids)"

fun represents :: "'cid unixfs_api \<Rightarrow> 'cid \<Rightarrow> site \<Rightarrow> bool" where
  "represents fs c (SFile chunks) \<longleftrightarrow>
     (case fs_stat fs c of Inl _ \<Rightarrow> False | Inr type \<Rightarrow> type \<noteq> ''directory'') \<and> fs_cat fs c = (chunks, None)"
| "represents fs c (SDir kids) \<longleftrightarrow>
     fs_stat fs c = Inr ''directory'' \<and> snd (fs_ls fs c) = None \<and>
     list_all2 (\<lambda>e k. entry_name e = fst k \<and> represents fs (entry_cid e) (snd k)) (fst (fs_ls fs c)) kids"

definition listed :: "'cid unixfs_api \<Rightarrow> 'cid fs_entry list \<Rightarrow> (string \<times> site) list \<Rightarrow> bool" where
  "listed fs es kids \<longleftrightarrow>
     list_all2 (\<lambda>e k. entry_name e = fst k \<and> represents fs (entry_cid e) (snd k)) es kids"

definition tree_files :: "string \<Rightarrow> (string \<times> site) list \<Rightarrow> (string \<times> byte list list) list" where
  "tree_files prefix kids = concat (map (\<lambda>k. site_files prefix (fst k) (snd k)) kids)"

definition kids_height :: "(string \<times> site) list \<Rightarrow> nat" where
  "kids_height kids = fold max (map (\<lambda>k. site_height (snd k)) kids) 0"

text \<open>The collected entries name exactly the files of the tree, each with a CID whose content is
  the file's.\<close>

definition walked :: "'cid unixfs_api \<Rightarrow> (string \<times> 'cid) list \<Rightarrow> (string \<times> byte list list) list \<Rightarrow> bool" where
  "walked fs out files \<longleftrightarrow>
     list_all2 (\<lambda>e f. fst e = fst f \<and> fs_cat fs (snd e) = (snd f, None)) out files"

lemma walked_Nil [simp]: "walked fs [] []"
  by (simp add: walked_def)

lemma walked_append: "walked fs a x \<Longrightarrow> walked fs b y \<Longrightarrow> walked fs (a @ b) (x @ y)"
  by (simp add: walked_def list_all2_appendI)

lemma kids_height_Nil [simp]: "kids_height [] = 0"
  by (simp add: kids_height_def)

lemma fold_max_acc: "fold max xs (a :: nat) = max a (fold max xs 0)"
proof (induction xs arbitrary: a)
  case (Cons x xs)
  show ?case using Cons.IH [of "max x a"] Cons.IH [of x] by simp
qed simp

lemma kids_height_Cons [simp]: "kids_height (k # kids) = max (site_height (snd k)) (kids_height kids)"
  using fold_max_acc [of _ "site_height (snd k)"] by (simp add: kids_height_def)

lemma site_height_SDir: "site_height (SDir kids) = Suc (kids_height kids)"
  by (simp add: kids_height_def)

lemma site_files_SDir: "site_files prefix name (SDir kids) = tree_files (join_path prefix name) kids"
  by (simp add: tree_files_def)

lemma represents_SDir:
  "represents fs c (SDir kids) \<longleftrightarrow>
     fs_stat fs c = Inr ''directory'' \<and> (\<exists>es. fs_ls fs c = (es, None) \<and> listed fs es kids)"
  by (cases "fs_ls fs c") (auto simp: listed_def)

lemma tree_files_simps [simp]:
  "tree_files prefix [] = []"
  "tree_files prefix (k # kids) = site_files prefix (fst k) (snd k) @ tree_files prefix kids"
  by (simp_all add: tree_files_def)

declare site_height.simps(2) [simp del] site_files.simps(2) [simp del] represents.simps(2) [simp del]

lemma collect_walk:
  "\<And>s. represents fs (entry_cid e) s \<Longrightarrow> site_height s < fuel \<Longrightarrow>
     \<exists>new. collectEntries fuel fs e prefix out = Some (Inr (out @ new)) \<and>
           walked fs new (site_files prefix (entry_name e) s)"
  "\<And>kids. listed fs es kids \<Longrightarrow> end = None \<Longrightarrow> kids_height kids < fuel \<Longrightarrow>
     \<exists>new. collectChildren fuel fs es end prefix out = Some (Inr (out @ new)) \<and>
           walked fs new (tree_files prefix kids)"
proof (induction fuel fs e prefix out and fuel fs es "end" prefix out
    rule: collectEntries_collectChildren.induct)
  case (2 fuel fs e prefix out)
  show ?case
  proof (cases s)
    case (SFile chunks)
    with 2(2) show ?thesis
      by (auto simp: walked_def split: sum.splits)
  next
    case (SDir kids)
    with 2(2) obtain es where st: "fs_stat fs (entry_cid e) = Inr ''directory''"
      and ls: "fs_ls fs (entry_cid e) = (es, None)" and kids: "listed fs es kids"
      by (auto simp: represents_SDir)
    have "kids_height kids < fuel" using 2(3) SDir by (simp add: site_height_SDir)
    from 2(1) [OF refl st refl ls [symmetric] kids refl this] st ls SDir show ?thesis
      by (simp add: site_files_SDir)
  qed
next
  case (4 fuel fs c cs "end" prefix out)
  from 4(3) obtain k ks where kids: "kids = k # ks" and name: "entry_name c = fst k"
    and rep: "represents fs (entry_cid c) (snd k)" and rest: "listed fs cs ks"
    by (auto simp: listed_def list_all2_Cons1)
  have "site_height (snd k) < fuel" "kids_height ks < fuel" using 4(5) kids by auto
  from 4(1) [OF rep this(1)] name obtain new where
    new: "collectEntries fuel fs c prefix out = Some (Inr (out @ new))"
      "walked fs new (site_files prefix (fst k) (snd k))" by auto
  from 4(2) [OF new(1) refl rest 4(4) \<open>kids_height ks < fuel\<close>] obtain new' where
    "collectChildren fuel fs cs end prefix (out @ new) = Some (Inr ((out @ new) @ new'))"
    "walked fs new' (tree_files prefix ks)" by blast
  with new kids show ?case by (auto intro: walked_append)
qed (auto simp: listed_def)

section \<open>What the loaded page holds\<close>

definition file_blob :: "string \<times> byte list list \<Rightarrow> blob" where
  "file_blob f = \<lparr>blob_chunks = snd f, blob_type = guessMimeType (fst f)\<rparr>"

definition asset_files :: "(string \<times> byte list list) list \<Rightarrow> (string \<times> byte list list) list" where
  "asset_files files = filter (\<lambda>f. fst f \<noteq> ''index.html'') files"

definition site_index :: "(string \<times> byte list list) list \<Rightarrow> blob option" where
  "site_index files = map_option (\<lambda>c. file_blob (''index.html'', c)) (map_of (rev files) ''index.html'')"

text \<open>The URL of every asset, the n-th object URL of the page being the next one created.\<close>

definition site_urls ::
  "('h, 'ma, 'cid, 'sk) platform \<Rightarrow> nat \<Rightarrow> (string \<times> byte list list) list \<Rightarrow> (string \<rightharpoonup> string)" where
  "site_urls P n files =
     map_of (rev (zip (map fst (asset_files files))
                      (map (\<lambda>i. createObjectURL P (n + i)) [0..<length (asset_files files)])))"

lemma asset_files_simps [simp]:
  "asset_files [] = []"
  "asset_files (f # fs) = (if fst f \<noteq> ''index.html'' then f # asset_files fs else asset_files fs)"
  by (simp_all add: asset_files_def)

lemma site_urls_Nil [simp]: "site_urls P n [] = Map.empty"
  by (simp add: site_urls_def)

lemma site_urls_index [simp]: "site_urls P n ((''index.html'', c) # files) = site_urls P n files"
  by (simp add: site_urls_def)

lemma site_urls_asset:
  assumes "p \<noteq> ''index.html''"
  shows "site_urls P n ((p, c) # files) = [p \<mapsto> createObjectURL P n] ++ site_urls P (Suc n) files"
proof -
  have shift: "[0..<Suc k] = 0 # map Suc [0..<k]" for k
    by (simp add: upt_conv_Cons map_Suc_upt del: upt_Suc)
  show ?thesis
    using assms by (simp add: site_urls_def shift comp_def map_of_append del: upt_Suc)
qed

lemma add_site_urls_asset:
  assumes "p \<noteq> ''index.html''"
  shows "urls ++ site_urls P n ((p, c) # files) = urls(p \<mapsto> createObjectURL P n) ++ site_urls P (Suc n) files"
  using assms by (simp only: site_urls_asset not_False_eq_True map_add_assoc map_add_upd map_add_empty)

lemma site_index_asset: "p \<noteq> ''index.html'' \<Longrightarrow> site_index ((p, c) # files) = site_index files"
  by (simp add: site_index_def map_add_def split: option.splits)

lemma loadBlobs_walked:
  "walked fs out files \<Longrightarrow>
   loadBlobs P fs out urls idx pg =
     (Inr (urls ++ site_urls P (length (object_urls pg)) files,
           case site_index files of None \<Rightarrow> idx | Some b \<Rightarrow> Some b),
      pg\<lparr>object_urls := object_urls pg @ map file_blob (asset_files files)\<rparr>)"
proof (induction out arbitrary: files urls idx pg)
  case Nil
  then show ?case by (simp add: walked_def site_index_def)
next
  case (Cons e out)
  from Cons.prems obtain f fls where files: "files = f # fls" and path: "fst e = fst f"
    and cat: "fs_cat fs (snd e) = (snd f, None)" and rest: "walked fs out fls"
    by (auto simp: walked_def list_all2_Cons1)
  obtain p c where e: "e = (p, c)" by (cases e)
  obtain chunks where f: "f = (p, chunks)" using path e by (cases f) simp
  have blob: "catToBlob fs c (guessMimeType p) = Inr (file_blob f)"
    using cat e f by (simp add: catToBlob_def file_blob_def)
  show ?case
  proof (cases "p = ''index.html''")
    case True
    with blob e f files show ?thesis
      by (simp add: Cons.IH [OF rest] site_index_def map_add_def split: option.splits)
  next
    case False
    let ?pg = "pg\<lparr>object_urls := object_urls pg @ [file_blob f]\<rparr>"
    have "loadBlobs P fs (e # out) urls idx pg =
        loadBlobs P fs out (urls(p \<mapsto> createObjectURL P (length (object_urls pg)))) idx ?pg"
      using False blob e by simp
    then show ?thesis
      unfolding files f add_site_urls_asset [OF False] site_index_asset [OF False] Cons.IH [OF rest]
      using False by simp
  qed
qed

lemma site_urls_nth:
  assumes "distinct (map fst (asset_files files))" and "i < length (asset_files files)"
  shows "site_urls P n files (fst (asset_files files ! i)) = Some (createObjectURL P (n + i))"
proof -
  let ?a = "asset_files files"
  let ?z = "zip (map fst ?a) (map (\<lambda>i. createObjectURL P (n + i)) [0..<length ?a])"
  have "distinct (map fst (rev ?z))" using assms(1) by (simp add: rev_map [symmetric])
  moreover have "(fst (?a ! i), createObjectURL P (n + i)) \<in> set (rev ?z)"
    using assms(2) by (auto simp: set_zip intro!: exI [of _ i])
  ultimately show ?thesis
    unfolding site_urls_def by (rule map_of_is_SomeI)
qed

lemma site_urls_None_iff: "site_urls P n files p = None \<longleftrightarrow> p \<notin> fst ` set (asset_files files)"
  by (auto simp: site_urls_def map_of_eq_None_iff set_zip in_set_conv_nth image_iff) force+

section \<open>Branches of the page's operations\<close>

lemma renderError_root:
  "oag_ipfs_root pg = Some r \<Longrightarrow>
   renderError P m pg =
     (Inr (), pg\<lparr>oag_ipfs_root := Some (r\<lparr>textContent := ''oag ipfs site: '' @ m, cssText := error_css\<rparr>)\<rparr>)"
  by (simp add: renderError_def)

definition shows_error :: "'ma page \<Rightarrow> bool" where
  "shows_error pg \<longleftrightarrow>
     (case oag_ipfs_root pg of None \<Rightarrow> False | Some r \<Rightarrow> take 15 (textContent r) = ''oag ipfs site: '')"

lemma renderError_shows:
  assumes "oag_ipfs_root pg \<noteq> None"
  shows "\<exists>pg'. renderError P m pg = (Inr (), pg') \<and> shows_error pg' \<and> oag_ipfs_root pg' \<noteq> None \<and>
           written pg' = written pg \<and> dialed pg' = dialed pg \<and> object_urls pg' = object_urls pg"
  using assms by (auto simp: renderError_root shows_error_def)

text \<open>The dial keeps the page's root, writes no document and goes to the configured address only.\<close>

lemma direct_dial_page:
  assumes "oag_ipfs_root pg \<noteq> None" and "direct_dial P helia ma pg = (r, pg')"
  shows "r = Inr () \<and> oag_ipfs_root pg' \<noteq> None \<and> written pg' = written pg \<and>
         object_urls pg' = object_urls pg"
proof -
  from assms(1) obtain r0 where "oag_ipfs_root pg = Some r0" by blast
  with assms(2) show ?thesis
    by (auto simp: direct_dial_def dial_failed_def renderError_root Let_def
        split: option.splits if_splits sum.splits)
qed

lemma direct_dial_dialed:
  assumes "direct_dial P helia ma pg = (r, pg')"
  shows "dialed pg' = dialed pg \<or>
         (\<exists>a t. ma = Some a \<and> toMultiaddr P a = Inr t \<and> dialed pg' = dialed pg @ [t])"
  using assms
  by (auto simp: direct_dial_def dial_failed_def renderError_def Let_def
      split: option.splits if_splits sum.splits)

lemma buildGatewayFreeHelia_page:
  assumes "oag_ipfs_root pg \<noteq> None" and "buildGatewayFreeHelia P ma pg = (r, pg')"
  shows "oag_ipfs_root pg' \<noteq> None \<and> written pg' = written pg \<and> object_urls pg' = object_urls pg"
  using assms direct_dial_page
  by (fastforce simp: buildGatewayFreeHelia_def split: sum.splits prod.splits)

lemma loadBlobs_page:
  "loadBlobs P fs out urls idx pg = (r, pg') \<Longrightarrow>
   oag_ipfs_root pg' = oag_ipfs_root pg \<and> written pg' = written pg"
  by (induction P fs out urls idx pg rule: loadBlobs.induct) (auto split: sum.splits if_splits)

lemma renderSite_page:
  assumes "oag_ipfs_root pg \<noteq> None" and "renderSite P c urls idx pg = (r, pg')"
  shows "r = Inr () \<and> ((\<exists>html. written pg' = Some html) \<or>
         (written pg' = written pg \<and> oag_ipfs_root pg' \<noteq> None \<and> shows_error pg'))"
proof -
  from assms(1) obtain r0 where "oag_ipfs_root pg = Some r0" by blast
  with assms(2) show ?thesis
    by (auto simp: renderSite_def writeDocument_def renderError_root shows_error_def Let_def
        split: option.splits)
qed

lemma loadSite_page:
  assumes "oag_ipfs_root pg \<noteq> None" and "loadSite fuel P c ma pg = Some (r, pg')"
  shows "(\<exists>html. r = Inr () \<and> written pg' = Some html) \<or>
         (written pg' = written pg \<and> oag_ipfs_root pg' \<noteq> None \<and> (r = Inr () \<longrightarrow> shows_error pg'))"
proof -
  obtain h pg1 where b: "buildGatewayFreeHelia P ma pg = (h, pg1)" by fastforce
  note keep = buildGatewayFreeHelia_page [OF assms(1) b]
  have site: "(\<exists>html. r = Inr () \<and> written pg' = Some html) \<or>
         (written pg' = written pg \<and> oag_ipfs_root pg' \<noteq> None \<and> (r = Inr () \<longrightarrow> shows_error pg'))"
    if "loadBlobs P fs out urls0 idx0 pg1 = (Inr (urls, idx), pg2)"
      and "renderSite P c urls idx pg2 = (r, pg')" for fs out urls0 idx0 urls idx pg2
    using loadBlobs_page [OF that(1)] keep renderSite_page [OF _ that(2)] by auto
  show ?thesis
    using assms(2) b keep site
    by (auto simp: loadSite_def Let_def split: sum.splits prod.splits option.splits
        dest: loadBlobs_page)
qed

section \<open>References\<close>

lemma strip_reference_spellings:
  assumes "p \<noteq> []" and "hd p \<noteq> CHR ''/''" and "hd p \<noteq> CHR ''.''"
  shows "strip_reference p = p" and "strip_reference (''/'' @ p) = p" and "strip_reference (''./'' @ p) = p"
  using assms by (cases p; simp add: strip_reference_def)+

lemma rewriteElement_hit:
  assumes "attrs el (rewritten_attr el) = Some v" and "urls (strip_reference v) = Some u"
  shows "rewriteElement urls el = el\<lparr>attrs := (attrs el)(rewritten_attr el \<mapsto> u)\<rparr>"
  using assms by (simp add: rewriteElement_def)

lemma rewriteElement_miss:
  assumes "attrs el (rewritten_attr el) = Some v" and "urls (strip_reference v) = None"
  shows "rewriteElement urls el = el"
  using assms by (simp add: rewriteElement_def)

lemma rewriteElement_frame: "a \<noteq> rewritten_attr el \<Longrightarrow> attrs (rewriteElement urls el) a = attrs el a"
  by (simp add: rewriteElement_def split: option.splits)

lemma loadSite_walks:
  assumes "buildGatewayFreeHelia P ma pg = (Inr helia, pg1)"
    and "CID_parse P rootCid = Inr cid"
    and "fs_ls (unixfs P helia) cid = (es, None)"
    and "listed (unixfs P helia) es kids"
    and "kids_height kids < fuel"
    and "files = tree_files [] kids"
  shows "loadSite fuel P rootCid ma pg =
     Some (renderSite P rootCid (site_urls P (length (object_urls pg1)) files) (site_index files)
             (pg1\<lparr>object_urls := object_urls pg1 @ map file_blob (asset_files files)\<rparr>))"
proof -
  obtain out where out: "collectChildren fuel (unixfs P helia) es None [] [] = Some (Inr out)"
    and walked: "walked (unixfs P helia) out files"
    using collect_walk(2) [OF assms(4) refl assms(5), of "[]" "[]"] assms(6) by auto
  have "(case site_index files of None \<Rightarrow> None | Some b \<Rightarrow> Some b) = site_index files"
    by (simp split: option.splits)
  then show ?thesis
    using assms out loadBlobs_walked [OF walked, of P Map.empty None pg1]
    by (simp add: loadSite_def Let_def)
qed

lemma bundle_main_cases:
  assumes "bundle_main fuel P window_cid window_multiaddr pg = Some (r, pg')"
  shows "(\<exists>m. renderError P m pg = (r, pg')) \<or>
     (\<exists>c ma e q. loadSite fuel P c ma pg = Some (Inl e, q) \<and> renderError P (message e) q = (r, pg')) \<or>
     (\<exists>c ma. loadSite fuel P c ma pg = Some (Inr (), pg') \<and> r = Inr ())"
proof (cases "window_cid = None \<or> window_cid = Some []")
  case True
  with assms show ?thesis by (auto simp: bundle_main_def)
next
  case False
  let ?ma = "case window_multiaddr of Some m \<Rightarrow> if m = [] then None else Some m | None \<Rightarrow> None"
  from False obtain c where c: "window_cid = Some c" "c \<noteq> []" by auto
  show ?thesis
  proof (cases "loadSite fuel P c ?ma pg")
    case None
    with assms c show ?thesis by (simp add: bundle_main_def Let_def)
  next
    case (Some res)
    obtain o1 q where res: "res = (o1, q)" by (cases res)
    show ?thesis
    proof (cases o1)
      case (Inl e)
      with Some assms c res have "renderError P (message e) q = (r, pg')"
        by (simp add: bundle_main_def Let_def)
      with Some res Inl show ?thesis by blast
    next
      case (Inr u)
      with Some assms c res have "r = Inr () \<and> q = pg'" by (simp add: bundle_main_def Let_def)
      with Some res Inr have "loadSite fuel P c ?ma pg = Some (Inr (), pg') \<and> r = Inr ()" by simp
      then show ?thesis by blast
    qed
  qed
qed

section \<open>A concrete site, for the witnesses\<close>

definition demo_fs :: "nat unixfs_api" where
  "demo_fs =
     \<lparr>fs_ls = (\<lambda>c. if c = 0 then ([\<lparr>entry_cid = 1, entry_name = ''index.html''\<rparr>, \<lparr>entry_cid = 2, entry_name = ''css''\<rparr>], None)
                  else if c = 2 then ([\<lparr>entry_cid = 3, entry_name = ''a.css''\<rparr>], None)
                  else ([], Some (Thrown ''not a directory''))),
      fs_stat = (\<lambda>c. Inr (if c = 0 \<or> c = 2 then ''directory'' else ''file'')),
      fs_cat = (\<lambda>c. ([[of_nat c]], None))\<rparr>"

definition demo_kids :: "(string \<times> site) list" where
  "demo_kids = [(''index.html'', SFile [[1]]), (''css'', SDir [(''a.css'', SFile [[3]])])]"

definition demo_element :: dom_element where
  "demo_element = \<lparr>attrs = [''href'' \<mapsto> ''./css/a.css'', ''rel'' \<mapsto> ''stylesheet'']\<rparr>"

definition demo_platform :: "(unit, string, nat, unit) platform" where
  "demo_platform =
     \<lparr>createHeliaLight = Inr (),
      withLibp2p = (\<lambda>h _. h),
      withBitswap = (\<lambda>h. h),
      helia_start = (\<lambda>h. Inr h),
      toMultiaddr = (\<lambda>s. if take 1 s = ''/'' then Inr s else Inl (Thrown ''invalid multiaddr'')),
      libp2p_dial = (\<lambda>_ _. Inl (Thrown ''refused'')),
      unixfs = (\<lambda>_. demo_fs),
      CID_parse = (\<lambda>s. if s = ''bafy'' then Inr 0 else if s = ''bafycss'' then Inr 2 else Inl (Thrown ''invalid CID'')),
      createObjectURL = (\<lambda>n. ''blob:'' @ replicate n (CHR ''x'')),
      blob_text = (\<lambda>_. ''<link>''),
      parseFromString = (\<lambda>_. \<lparr>dom_skeleton = (), dom_elements = [demo_element]\<rparr>),
      outerHTML = (\<lambda>d. concat (map (\<lambda>el. case attrs el ''href'' of None \<Rightarrow> [] | Some v \<Rightarrow> v) (dom_elements d))),
      written_root = (\<lambda>_. None),
      null_access = Thrown ''null''\<rparr>"

definition demo_page :: "string page" where
  "demo_page =
     \<lparr>oag_ipfs_root = Some \<lparr>textContent = ''loading'', cssText = []\<rparr>, written = None, dialed = [], object_urls = []\<rparr>"

lemma demo_listed: "listed demo_fs (fst (fs_ls demo_fs 0)) demo_kids"
  by (simp add: listed_def demo_fs_def demo_kids_def represents.simps)

lemma demo_build: "buildGatewayFreeHelia demo_platform None demo_page = (Inr (), demo_page)"
  by (simp add: buildGatewayFreeHelia_def demo_platform_def direct_dial_def)

section \<open>Properties\<close>

text \<open>
  C1. Whole-site loading: when the node comes up, the CID parses and the peer serves a finite
  tree that has an index.html, then loadSite ends without an error, and the page it writes is
  index.html rewritten against a URL for every other file of the tree, each URL standing for a blob
  with exactly that file's chunks and guessed type.
\<close>

theorem loadSite_serves_site:
  assumes "buildGatewayFreeHelia P ma pg = (Inr helia, pg1)"
    and "CID_parse P rootCid = Inr cid"
    and "fs_ls (unixfs P helia) cid = (es, None)"
    and "listed (unixfs P helia) es kids"
    and "kids_height kids < fuel"
    and "files = tree_files [] kids"
    and "site_index files = Some idx"
  shows "loadSite fuel P rootCid ma pg =
     Some (Inr (),
       writeDocument P
         (outerHTML P (rewriteDocument (site_urls P (length (object_urls pg1)) files)
                         (parseFromString P (blob_text P idx))))
         (pg1\<lparr>object_urls := object_urls pg1 @ map file_blob (asset_files files)\<rparr>))"
  using loadSite_walks [OF assms(1-6)] assms(7) by (simp add: renderSite_def Let_def)

theorem loadSite_serves_site_witness:
  "loadSite 5 demo_platform ''bafy'' None demo_page =
     Some (Inr (),
       writeDocument demo_platform ''blob:''
         (demo_page\<lparr>object_urls := [\<lparr>blob_chunks = [[3]], blob_type = MimeString ''text/css''\<rparr>]\<rparr>))"
proof -
  let ?files = "[(''index.html'', [[1]]), (''css/a.css'', [[3 :: byte]])]"
  have files: "?files = tree_files [] demo_kids"
    by (simp add: demo_kids_def site_files.simps join_path_def)
  have ls: "fs_ls (unixfs demo_platform ()) 0 = (fst (fs_ls demo_fs 0), None)"
    by (simp add: demo_platform_def demo_fs_def)
  have idx: "site_index ?files = Some (file_blob (''index.html'', [[1]]))"
    by (simp add: site_index_def)
  have h: "kids_height demo_kids < 5"
    by (simp add: demo_kids_def site_height_SDir)
  have cid: "CID_parse demo_platform ''bafy'' = Inr 0" by (simp add: demo_platform_def)
  have l: "listed (unixfs demo_platform ()) (fst (fs_ls demo_fs 0)) demo_kids"
    using demo_listed by (simp add: demo_platform_def)
  have css: "guessMimeType ''css/a.css'' = MimeString ''text/css''"
    by (simp add: guessMimeType_def mime_property_def MIME_TYPES_def last_dot_piece_def toLowerCase_def lower_unit_def)
  have sel: "site_urls demo_platform 0 ?files = [''css/a.css'' \<mapsto> ''blob:'']"
    by (simp add: site_urls_asset) (simp add: demo_platform_def)
  have doc: "outerHTML demo_platform (rewriteDocument (site_urls demo_platform 0 ?files)
      (parseFromString demo_platform t)) = ''blob:''" for t
    unfolding sel
    by (simp add: demo_platform_def rewriteDocument_def demo_element_def selected_def rewriteElement_def
        rewritten_attr_def strip_reference_def)
  show ?thesis
    using loadSite_serves_site [OF demo_build cid ls l h files idx] doc css
    by (simp add: demo_page_def file_blob_def)
qed

text \<open>
  C2. The directory walk: for every finite tree served under an entry's CID, enough fuel (more
  than the tree's height) makes collectEntries return, and what it appends to the output is, in
  order, exactly the tree's files under their joined paths, each with a CID that reads back as that
  file's chunks.
\<close>

theorem collectEntries_walks_tree:
  assumes "represents fs (entry_cid e) s" and "site_height s < fuel"
  shows "\<exists>new. collectEntries fuel fs e prefix out = Some (Inr (out @ new)) \<and>
           map fst new = map fst (site_files prefix (entry_name e) s) \<and>
           map (\<lambda>f. fs_cat fs (snd f)) new = map (\<lambda>f. (snd f, None)) (site_files prefix (entry_name e) s)"
proof -
  obtain new where "collectEntries fuel fs e prefix out = Some (Inr (out @ new))"
    and w: "walked fs new (site_files prefix (entry_name e) s)"
    using collect_walk(1) [OF assms, of prefix out] by blast
  moreover from w have "map fst new = map fst (site_files prefix (entry_name e) s) \<and>
      map (\<lambda>f. fs_cat fs (snd f)) new = map (\<lambda>f. (snd f, None)) (site_files prefix (entry_name e) s)"
    unfolding walked_def by (induction rule: list_all2_induct) auto
  ultimately show ?thesis by blast
qed

theorem collectEntries_walks_tree_witness:
  "\<exists>new. collectEntries 3 demo_fs \<lparr>entry_cid = 2, entry_name = ''css''\<rparr> [] [] = Some (Inr new) \<and>
     map fst new = [''css/a.css'']"
  using collectEntries_walks_tree [of demo_fs "\<lparr>entry_cid = 2, entry_name = ''css''\<rparr>" "SDir [(''a.css'', SFile [[3]])]" 3 "[]" "[]"]
  by (auto simp: demo_fs_def represents.simps site_height_SDir site_files_SDir join_path_def)

text \<open>No chain of directories below \<open>c\<close> is longer than \<open>n\<close>; listings and lookups may fail anywhere.\<close>

fun depth_within :: "'cid unixfs_api \<Rightarrow> nat \<Rightarrow> 'cid \<Rightarrow> bool" where
  "depth_within fs 0 c \<longleftrightarrow> fs_stat fs c \<noteq> Inr ''directory''"
| "depth_within fs (Suc n) c \<longleftrightarrow>
     (fs_stat fs c = Inr ''directory'' \<longrightarrow> list_all (\<lambda>child. depth_within fs n (entry_cid child)) (fst (fs_ls fs c)))"

definition shallow :: "('h, 'ma, 'cid, 'sk) platform \<Rightarrow> string option \<Rightarrow> nat \<Rightarrow> bool" where
  "shallow P window_cid n \<longleftrightarrow>
     (\<forall>c cid helia. window_cid = Some c \<longrightarrow> CID_parse P c = Inr cid \<longrightarrow>
        list_all (\<lambda>child. depth_within (unixfs P helia) n (entry_cid child)) (fst (fs_ls (unixfs P helia) cid)))"

lemma walk_ends:
  "depth_within fs n (entry_cid e) \<Longrightarrow> n < fuel \<Longrightarrow> collectEntries fuel fs e prefix out \<noteq> None"
  "list_all (\<lambda>child. depth_within fs n (entry_cid child)) es \<Longrightarrow> n < fuel \<Longrightarrow> collectChildren fuel fs es err prefix out \<noteq> None"
proof (induction fuel fs e prefix out and fuel fs es err prefix out arbitrary: n and n rule: collectEntries_collectChildren.induct)
  case (2 fuel fs e prefix out)
  show ?case
  proof (cases "fs_stat fs (entry_cid e) = Inr ''directory''")
    case True
    with 2(2) obtain m where m: "n = Suc m" by (cases n) auto
    with 2 True show ?thesis by (cases "fs_ls fs (entry_cid e)") auto
  qed (auto simp: Let_def split: sum.splits)
qed (auto split: option.splits sum.splits)

lemma bundle_main_ends:
  assumes "shallow P window_cid n" and "n < fuel"
  obtains r pg' where "bundle_main fuel P window_cid window_multiaddr pg = Some (r, pg')"
proof -
  have walk: "collectChildren fuel (unixfs P helia) es err prefix out \<noteq> None"
    if "window_cid = Some c" "CID_parse P c = Inr cid" "fs_ls (unixfs P helia) cid = (es, err)" for c cid helia es err prefix out
  proof (rule walk_ends(2))
    show "list_all (\<lambda>child. depth_within (unixfs P helia) n (entry_cid child)) es"
      using assms(1) that by (metis shallow_def fst_conv)
  qed (rule assms(2))
  have "bundle_main fuel P window_cid window_multiaddr pg \<noteq> None"
    by (auto simp: bundle_main_def loadSite_def Let_def split: option.splits sum.splits prod.splits) (metis walk)+
  then show thesis using that by auto
qed

text \<open>
  C3. No silent failure: run on a page that has the root element, for a site whose directories are at most \<open>n\<close> levels
  deep, the script ends, and never in an unhandled rejection; it either writes a document, or leaves the page's document
  alone and shows an error in the root element.  Every lookup, listing, read, dial and start may fail on the way.
\<close>

theorem bundle_main_settles:
  assumes "oag_ipfs_root pg \<noteq> None" and "written pg = None" and "shallow P window_cid n" and "n < fuel"
  shows "\<exists>pg'. bundle_main fuel P window_cid window_multiaddr pg = Some (Inr (), pg') \<and>
    ((\<exists>html. written pg' = Some html) \<or> (written pg' = None \<and> shows_error pg'))"
proof -
  obtain r pg' where run: "bundle_main fuel P window_cid window_multiaddr pg = Some (r, pg')"
    using bundle_main_ends [OF assms(3,4)] by blast
  consider (no) m where "renderError P m pg = (r, pg')"
    | (failed) c ma e q where "loadSite fuel P c ma pg = Some (Inl e, q)" "renderError P (message e) q = (r, pg')"
    | (loaded) c ma where "loadSite fuel P c ma pg = Some (Inr (), pg')" "r = Inr ()"
    using bundle_main_cases [OF run] by metis
  then have "r = Inr () \<and> ((\<exists>html. written pg' = Some html) \<or> (written pg' = None \<and> shows_error pg'))"
  proof cases
    case no
    then show ?thesis using renderError_shows [OF assms(1)] assms(2) by (metis prod.inject)
  next
    case failed
    from loadSite_page [OF assms(1) failed(1)] have "oag_ipfs_root q \<noteq> None" "written q = None"
      using assms(2) by auto
    then show ?thesis using renderError_shows failed(2) by (metis prod.inject)
  next
    case loaded
    then show ?thesis using loadSite_page [OF assms(1) loaded(1)] assms(2) by auto
  qed
  with run show ?thesis by blast
qed

theorem bundle_main_settles_witness:
  "\<exists>pg'. bundle_main 5 demo_platform (Some ''bafy'') None demo_page = Some (Inr (), pg') \<and>
     ((\<exists>html. written pg' = Some html) \<or> (written pg' = None \<and> shows_error pg'))"
proof -
  have "oag_ipfs_root demo_page \<noteq> None" "written demo_page = None" by (simp_all add: demo_page_def)
  moreover have "shallow demo_platform (Some ''bafy'') 2"
    by (simp add: shallow_def demo_platform_def demo_fs_def numeral_2_eq_2)
  ultimately show ?thesis by (rule bundle_main_settles) simp
qed

text \<open>
  C4. Asset references: in a page whose assets have distinct paths, a reference to the i-th asset
  written as a plain relative path, with a leading slash or with a leading dot and slash is
  replaced by that asset's own object URL.
\<close>

theorem rewrite_pinned_reference:
  assumes "distinct (map fst (asset_files files))" and "i < length (asset_files files)"
    and "p = fst (asset_files files ! i)"
    and "p \<noteq> []" and "hd p \<noteq> CHR ''/''" and "hd p \<noteq> CHR ''.''"
    and "v \<in> {p, ''/'' @ p, ''./'' @ p}"
    and "attrs el (rewritten_attr el) = Some v"
  shows "rewriteElement (site_urls P n files) el =
           el\<lparr>attrs := (attrs el)(rewritten_attr el \<mapsto> createObjectURL P (n + i))\<rparr>"
proof -
  have "strip_reference v = p"
    using assms(7) strip_reference_spellings [OF assms(4-6)] by auto
  then show ?thesis
    using site_urls_nth [OF assms(1,2), of P n] assms(3,8) by (simp add: rewriteElement_hit)
qed

theorem rewrite_pinned_reference_witness:
  "rewriteElement (site_urls demo_platform 1 [(''css/a.css'', [[3]])]) demo_element =
     demo_element\<lparr>attrs := (attrs demo_element)(''href'' \<mapsto> ''blob:x'')\<rparr>"
  using rewrite_pinned_reference [of "[(''css/a.css'', [[3]])]" 0 "''css/a.css''" "''./css/a.css''" demo_element demo_platform 1]
  by (simp add: demo_element_def rewritten_attr_def demo_platform_def)

text \<open>
  C5. Everything else on the page is left alone: the rewriting keeps the number and order of the
  elements and the rest of the tree, changes no attribute other than the one chosen for the element
  (src when it has one, else href), and changes that one only when the stripped value names an asset.
\<close>

theorem rewriteDocument_frame:
  assumes "i < length (dom_elements doc)"
    and "el = dom_elements doc ! i" and "el' = dom_elements (rewriteDocument (site_urls P n files) doc) ! i"
  shows "length (dom_elements (rewriteDocument (site_urls P n files) doc)) = length (dom_elements doc) \<and>
     dom_skeleton (rewriteDocument (site_urls P n files) doc) = dom_skeleton doc \<and>
     (\<forall>a. attrs el' a \<noteq> attrs el a \<longrightarrow>
        a = rewritten_attr el \<and>
        (\<exists>v. attrs el a = Some v \<and> strip_reference v \<in> fst ` set (asset_files files)))"
proof -
  have "attrs el a \<noteq> None \<Longrightarrow> strip_reference (the (attrs el a)) \<in> fst ` set (asset_files files)"
    if "attrs (rewriteElement (site_urls P n files) el) a \<noteq> attrs el a" "a = rewritten_attr el" for a
    using that rewriteElement_miss [of el _ "site_urls P n files"] site_urls_None_iff [of P n files]
    by fastforce
  moreover have "attrs el a \<noteq> None"
    if "attrs (rewriteElement (site_urls P n files) el) a \<noteq> attrs el a" "a = rewritten_attr el" for a
    using that by (auto simp: rewriteElement_def split: option.splits)
  ultimately show ?thesis
    using assms rewriteElement_frame [of _ el "site_urls P n files"]
    by (auto simp: rewriteDocument_def) (metis option.sel)+
qed

theorem rewriteDocument_frame_witness:
  "attrs (dom_elements (rewriteDocument (site_urls demo_platform 0 [(''css/a.css'', [[3]])])
      \<lparr>dom_skeleton = (), dom_elements = [demo_element]\<rparr>) ! 0) ''rel'' = Some ''stylesheet''"
proof -
  let ?doc = "\<lparr>dom_skeleton = (), dom_elements = [demo_element]\<rparr>"
  let ?el' = "dom_elements (rewriteDocument (site_urls demo_platform 0 [(''css/a.css'', [[3]])]) ?doc) ! 0"
  have "rewritten_attr demo_element \<noteq> ''rel''" and rel: "attrs demo_element ''rel'' = Some ''stylesheet''"
    by (simp_all add: demo_element_def rewritten_attr_def)
  then have "attrs ?el' ''rel'' = attrs demo_element ''rel''"
    using rewriteDocument_frame [of 0 ?doc demo_element ?el' demo_platform 0 "[(''css/a.css'', [[3]])]"]
    by fastforce
  with rel show ?thesis by simp
qed

text \<open>
  The direct dial: with the root element in place, a configured address that cannot be parsed
  or dialled does not stop the node (the started node is returned and the failure is on the page),
  and in every case the node dials at most one address, the configured one.
\<close>

theorem direct_dial_is_optional:
  assumes "createHeliaLight P = Inr light"
    and "helia_start P (withBitswap P (withLibp2p P light gateway_free_options)) = Inr helia"
    and "oag_ipfs_root pg \<noteq> None"
  shows "\<exists>pg'. buildGatewayFreeHelia P ma pg = (Inr helia, pg') \<and>
     (dialed pg' = dialed pg \<or> (\<exists>a t. ma = Some a \<and> toMultiaddr P a = Inr t \<and> dialed pg' = dialed pg @ [t])) \<and>
     (\<forall>a t err. ma = Some a \<longrightarrow> a \<noteq> [] \<longrightarrow>
        (toMultiaddr P a = Inl err \<or> (toMultiaddr P a = Inr t \<and> libp2p_dial P helia t = Inl err)) \<longrightarrow>
        shows_error pg')"
proof -
  obtain r pg' where d: "direct_dial P helia ma pg = (r, pg')" by fastforce
  from direct_dial_page [OF assms(3) d] have "r = Inr ()" by simp
  with d assms have "buildGatewayFreeHelia P ma pg = (Inr helia, pg')"
    by (simp add: buildGatewayFreeHelia_def)
  moreover have "shows_error pg'"
    if "ma = Some a" "a \<noteq> []"
      "toMultiaddr P a = Inl err \<or> (toMultiaddr P a = Inr t \<and> libp2p_dial P helia t = Inl err)" for a t err
    using d assms(3) that
    by (auto simp: direct_dial_def dial_failed_def renderError_def shows_error_def Let_def
        split: option.splits)
  ultimately show ?thesis using direct_dial_dialed [OF d] by blast
qed

theorem direct_dial_is_optional_witness:
  "\<exists>pg'. buildGatewayFreeHelia demo_platform (Some ''/ip4/127.0.0.1'') demo_page = (Inr (), pg') \<and>
     shows_error pg'"
proof -
  have "\<exists>pg'. buildGatewayFreeHelia demo_platform (Some ''/ip4/127.0.0.1'') demo_page = (Inr (), pg') \<and>
     (dialed pg' = dialed demo_page \<or> (\<exists>a t. Some ''/ip4/127.0.0.1'' = Some a \<and> toMultiaddr demo_platform a = Inr t \<and> dialed pg' = dialed demo_page @ [t])) \<and>
     (\<forall>a t err. Some ''/ip4/127.0.0.1'' = Some a \<longrightarrow> a \<noteq> [] \<longrightarrow>
        (toMultiaddr demo_platform a = Inl err \<or> (toMultiaddr demo_platform a = Inr t \<and> libp2p_dial demo_platform () t = Inl err)) \<longrightarrow>
        shows_error pg')"
    by (rule direct_dial_is_optional) (simp_all add: demo_platform_def demo_page_def)
  then show ?thesis by (fastforce simp: demo_platform_def)
qed

text \<open>
  MIME guessing: a path whose last dot is followed by a listed extension, in any letter case
  and after any directory part, gets the listed type; every other path gets
  application/octet-stream, except that the extensions constructor and __proto__ read properties
  inherited by the table object.
\<close>

theorem guessMimeType_listed:
  assumes "CHR ''.'' \<notin> set ext"
  shows "guessMimeType (base @ ''.'' @ ext) =
     (case map_of MIME_TYPES (toLowerCase ext) of
        Some t \<Rightarrow> MimeString t
      | None \<Rightarrow>
          if toLowerCase ext = ''constructor'' then ObjectConstructor
          else if toLowerCase ext = ''__proto__'' then ObjectPrototype
          else MimeString ''application/octet-stream'')"
proof -
  have "takeWhile (\<lambda>c. c \<noteq> CHR ''.'') (rev ext @ [CHR ''.''] @ rev base) = rev ext"
    using assms by (subst takeWhile_append2) auto
  then have "last_dot_piece (base @ ''.'' @ ext) = ext"
    by (simp add: last_dot_piece_def)
  then show ?thesis
    by (simp add: guessMimeType_def mime_property_def split: option.splits)
qed

theorem guessMimeType_listed_witness:
  "guessMimeType ''img/Logo.PNG'' = MimeString ''image/png''"
proof -
  have "toLowerCase ''PNG'' = ''png''" by code_simp
  then show ?thesis
    using guessMimeType_listed [of "''PNG''" "''img/Logo''"] by (simp add: MIME_TYPES_def)
qed

text \<open>
  A tree without index.html: loadSite ends, nothing is written to the page, and the root
  element says that index.html was not found under the CID.
\<close>

theorem loadSite_without_index:
  assumes "buildGatewayFreeHelia P ma pg = (Inr helia, pg1)"
    and "CID_parse P rootCid = Inr cid"
    and "fs_ls (unixfs P helia) cid = (es, None)"
    and "listed (unixfs P helia) es kids"
    and "kids_height kids < fuel"
    and "''index.html'' \<notin> fst ` set (tree_files [] kids)"
    and "oag_ipfs_root pg \<noteq> None"
  shows "\<exists>pg' r. loadSite fuel P rootCid ma pg = Some (Inr (), pg') \<and> written pg' = written pg \<and>
     oag_ipfs_root pg' = Some r \<and> textContent r = ''oag ipfs site: index.html not found under '' @ rootCid"
proof -
  have "map_of (rev (tree_files [] kids)) ''index.html'' = None"
    using assms(6) by (simp add: map_of_eq_None_iff)
  then have "site_index (tree_files [] kids) = None" by (simp add: site_index_def)
  moreover obtain r1 where "oag_ipfs_root pg1 = Some r1" and "written pg1 = written pg"
    using buildGatewayFreeHelia_page [OF assms(7,1)] by auto
  ultimately show ?thesis
    using loadSite_walks [OF assms(1-5) refl] by (simp add: renderSite_def renderError_def)
qed

theorem loadSite_without_index_witness:
  "\<exists>pg' r. loadSite 3 demo_platform ''bafycss'' None demo_page = Some (Inr (), pg') \<and>
     written pg' = None \<and> oag_ipfs_root pg' = Some r \<and>
     textContent r = ''oag ipfs site: index.html not found under bafycss''"
proof -
  let ?es = "[\<lparr>entry_cid = 3, entry_name = ''a.css''\<rparr>]" and ?kids = "[(''a.css'', SFile [[3]])]"
  have "listed demo_fs ?es ?kids" by (simp add: listed_def demo_fs_def)
  then have l: "listed (unixfs demo_platform ()) ?es ?kids" by (simp add: demo_platform_def)
  have ls: "fs_ls (unixfs demo_platform ()) 2 = (?es, None)" by (simp add: demo_platform_def demo_fs_def)
  have cid: "CID_parse demo_platform ''bafycss'' = Inr 2" by (simp add: demo_platform_def)
  show ?thesis
    using loadSite_without_index [OF demo_build cid ls l, of 3]
    by (simp add: join_path_def demo_page_def)
qed

text \<open>What the guess is not: an extension that names an inherited property is not sent as
  \<^verbatim>\<open>application/octet-stream\<close>, and a scheme-relative reference to another host is rewritten
  when the pinned tree has a directory named like that host.\<close>

lemma guessMimeType_inherited:
  "guessMimeType ''notes.constructor'' = ObjectConstructor"
  by (simp add: guessMimeType_def mime_property_def MIME_TYPES_def last_dot_piece_def toLowerCase_def lower_unit_def)

lemma strip_reference_scheme_relative:
  "p \<noteq> [] \<Longrightarrow> hd p \<noteq> CHR ''/'' \<Longrightarrow> strip_reference (''//'' @ p) = p"
  by (cases p) (auto simp: strip_reference_def)

end
