(* ===== verification/Core.thy ===== *)
theory Core
  imports Prelude
begin

text \<open>
  The vocabulary crate \<^verbatim>\<open>oag-core\<close> and the identity part of \<^verbatim>\<open>oag-crypto\<close>: identifiers, the
  closed string enumerations, nodes, edges, assertions, evidence and actors, peer ids and
  domain-separated signatures.

  BLAKE3, Ed25519, hexadecimal and Base32 coding are crates outside the repository: they are the
  fields of the record \<^verbatim>\<open>crypto\<close>, an argument of the definitions that use them. The facts about
  them that a theorem needs are the named predicates \<open>hex_codec\<close>, \<open>base32_codec\<close>,
  \<open>blake3_digest\<close> and \<open>sign_verify\<close>. A Rust array \<^verbatim>\<open>[u8; 32]\<close> is a byte list that
  a length check has accepted. The string operations of the standard library
  (\<^verbatim>\<open>trim\<close>, \<^verbatim>\<open>to_lowercase\<close>, \<^verbatim>\<open>split_whitespace\<close>) are modelled on ASCII text; bytes from 128
  up pass through unchanged.
\<close>

section \<open>Third-party primitives\<close>

datatype hex_error = FromHexError string

datatype base32_error = DecodeError string

record ('sk, 'vk) crypto =
  blake3 :: "byte list \<Rightarrow> byte list"
  ed_sign :: "'sk \<Rightarrow> byte list \<Rightarrow> byte list"
  ed_verify :: "'vk \<Rightarrow> byte list \<Rightarrow> byte list \<Rightarrow> bool"
  verifying_key :: "'sk \<Rightarrow> 'vk"
  key_bytes :: "'vk \<Rightarrow> byte list"
  hex_encode :: "byte list \<Rightarrow> string"
  hex_decode :: "string \<Rightarrow> hex_error + byte list"
  base32_encode :: "byte list \<Rightarrow> string"
  base32_decode :: "string \<Rightarrow> base32_error + byte list"

text \<open>Documented behaviour the code relies on.\<close>

definition hex_codec :: "('sk, 'vk, 'z) crypto_scheme \<Rightarrow> bool" where
  "hex_codec C \<longleftrightarrow> (\<forall>b. hex_decode C (hex_encode C b) = Inr b)"

definition blake3_digest :: "('sk, 'vk, 'z) crypto_scheme \<Rightarrow> bool" where
  "blake3_digest C \<longleftrightarrow> (\<forall>b. length (blake3 C b) = 32)"

definition sign_verify :: "('sk, 'vk, 'z) crypto_scheme \<Rightarrow> bool" where
  "sign_verify C \<longleftrightarrow>
     (\<forall>k m. ed_verify C (verifying_key C k) m (ed_sign C k m) \<and> length (ed_sign C k m) = 64)"

section \<open>ASCII text\<close>

definition is_whitespace :: "char \<Rightarrow> bool" where
  "is_whitespace c \<longleftrightarrow> (let n = of_char c :: nat in (9 \<le> n \<and> n \<le> 13) \<or> n = 32)"

definition ascii_lower :: "char \<Rightarrow> char" where
  "ascii_lower c = (let n = of_char c :: nat in if 65 \<le> n \<and> n \<le> 90 then char_of (n + 32) else c)"

definition ascii_upper :: "char \<Rightarrow> char" where
  "ascii_upper c = (let n = of_char c :: nat in if 97 \<le> n \<and> n \<le> 122 then char_of (n - 32) else c)"

definition trim :: "string \<Rightarrow> string" where
  "trim s = rev (dropWhile is_whitespace (rev (dropWhile is_whitespace s)))"

definition to_lowercase :: "string \<Rightarrow> string" where
  "to_lowercase s = map ascii_lower s"

definition to_uppercase :: "string \<Rightarrow> string" where
  "to_uppercase s = map ascii_upper s"

text \<open>\<^verbatim>\<open>split_whitespace\<close>: the maximal runs without whitespace, in order.\<close>

fun split_whitespace_aux :: "string \<Rightarrow> string \<Rightarrow> string list" where
  "split_whitespace_aux acc [] = (if acc = [] then [] else [rev acc])"
| "split_whitespace_aux acc (c # cs) =
     (if is_whitespace c then (if acc = [] then [] else [rev acc]) @ split_whitespace_aux [] cs
      else split_whitespace_aux (c # acc) cs)"

definition split_whitespace :: "string \<Rightarrow> string list" where
  "split_whitespace s = split_whitespace_aux [] s"

fun join_with :: "string \<Rightarrow> string list \<Rightarrow> string" where
  "join_with sep [] = []"
| "join_with sep [x] = x"
| "join_with sep (x # y # xs) = x @ sep @ join_with sep (y # xs)"

section \<open>Identifiers (ids.rs)\<close>

type_synonym hash32 = "byte list"

datatype hash32_parse_error = HashHex hex_error | HashWrongLength nat

datatype node_id = NodeId (node_hash: hash32)
datatype edge_id = EdgeId (edge_hash: hash32)
datatype event_id = EventId (event_hash: hash32)
datatype actor_id = ActorId (actor_hash: hash32)

type_synonym assertion_id = event_id

definition hash32_derive :: "('sk, 'vk, 'z) crypto_scheme \<Rightarrow> string \<Rightarrow> byte list \<Rightarrow> hash32" where
  "hash32_derive C domain_prefix input = blake3 C (str_bytes domain_prefix @ input)"

definition hash32_to_hex :: "('sk, 'vk, 'z) crypto_scheme \<Rightarrow> hash32 \<Rightarrow> string" where
  "hash32_to_hex C h = hex_encode C h"

definition hash32_from_str :: "('sk, 'vk, 'z) crypto_scheme \<Rightarrow> string \<Rightarrow> hash32_parse_error + hash32" where
  "hash32_from_str C s =
     (case hex_decode C s of
        Inl e \<Rightarrow> Inl (HashHex e)
      | Inr bytes \<Rightarrow> if length bytes = 32 then Inr bytes else Inl (HashWrongLength (length bytes)))"

definition NODE_PREFIX :: string where "NODE_PREFIX = ''OAG:NODE:v1:''"
definition EDGE_PREFIX :: string where "EDGE_PREFIX = ''OAG:EDGE:v1:''"
definition EVENT_PREFIX :: string where "EVENT_PREFIX = ''OAG:EVENT:v1:''"
definition ACTOR_PREFIX :: string where "ACTOR_PREFIX = ''OAG:ACTOR:v1:''"

lemmas id_prefix_defs = NODE_PREFIX_def EDGE_PREFIX_def EVENT_PREFIX_def ACTOR_PREFIX_def

definition event_id_derive :: "('sk, 'vk, 'z) crypto_scheme \<Rightarrow> byte list \<Rightarrow> event_id" where
  "event_id_derive C input = EventId (hash32_derive C EVENT_PREFIX input)"

definition actor_id_derive :: "('sk, 'vk, 'z) crypto_scheme \<Rightarrow> byte list \<Rightarrow> actor_id" where
  "actor_id_derive C input = ActorId (hash32_derive C ACTOR_PREFIX input)"

definition node_id_from_canonical_identifier :: "('sk, 'vk, 'z) crypto_scheme \<Rightarrow> string \<Rightarrow> node_id" where
  "node_id_from_canonical_identifier C identifier =
     NodeId (hash32_derive C NODE_PREFIX (str_bytes identifier))"

definition edge_id_from_triple ::
  "('sk, 'vk, 'z) crypto_scheme \<Rightarrow> node_id \<Rightarrow> string \<Rightarrow> node_id \<Rightarrow> edge_id" where
  "edge_id_from_triple C subject predicate object =
     EdgeId (hash32_derive C EDGE_PREFIX
       (str_bytes (hash32_to_hex C (node_hash subject)) @ str_bytes '':'' @ str_bytes predicate @
        str_bytes '':'' @ str_bytes (hash32_to_hex C (node_hash object))))"

definition event_id_from_str :: "('sk, 'vk, 'z) crypto_scheme \<Rightarrow> string \<Rightarrow> hash32_parse_error + event_id" where
  "event_id_from_str C s = res_bind (hash32_from_str C s) (\<lambda>h. Inr (EventId h))"

definition actor_id_from_str :: "('sk, 'vk, 'z) crypto_scheme \<Rightarrow> string \<Rightarrow> hash32_parse_error + actor_id" where
  "actor_id_from_str C s = res_bind (hash32_from_str C s) (\<lambda>h. Inr (ActorId h))"

definition node_id_from_str :: "('sk, 'vk, 'z) crypto_scheme \<Rightarrow> string \<Rightarrow> hash32_parse_error + node_id" where
  "node_id_from_str C s = res_bind (hash32_from_str C s) (\<lambda>h. Inr (NodeId h))"

definition event_id_to_hex :: "('sk, 'vk, 'z) crypto_scheme \<Rightarrow> event_id \<Rightarrow> string" where
  "event_id_to_hex C i = hash32_to_hex C (event_hash i)"

lemma hash32_round_trip:
  "hex_codec C \<Longrightarrow> length h = 32 \<Longrightarrow> hash32_from_str C (hash32_to_hex C h) = Inr h"
  by (simp add: hash32_from_str_def hash32_to_hex_def hex_codec_def)

lemma event_id_round_trip:
  "hex_codec C \<Longrightarrow> length (event_hash i) = 32 \<Longrightarrow> event_id_from_str C (event_id_to_hex C i) = Inr i"
  by (simp add: event_id_from_str_def event_id_to_hex_def hash32_round_trip)

lemma hash32_from_str_length: "hash32_from_str C s = Inr h \<Longrightarrow> length h = 32"
  by (auto simp: hash32_from_str_def split: sum.splits if_splits)

lemma hex_encode_inject: "hex_codec C \<Longrightarrow> hex_encode C a = hex_encode C b \<longleftrightarrow> a = b"
  by (metis hex_codec_def sum.inject(2))

section \<open>Peer identities (peer_id.rs, identity.rs, signing.rs)\<close>

type_synonym peer_id = "byte list"

datatype peer_id_parse_error = MissingPrefix | Base32 base32_error | PeerIdWrongLength nat

definition peer_id_from_public_key :: "('sk, 'vk, 'z) crypto_scheme \<Rightarrow> 'vk \<Rightarrow> peer_id" where
  "peer_id_from_public_key C key = blake3 C (key_bytes C key)"

definition peer_id_to_string :: "('sk, 'vk, 'z) crypto_scheme \<Rightarrow> peer_id \<Rightarrow> string" where
  "peer_id_to_string C p = ''oagp_'' @ to_lowercase (base32_encode C p)"

definition strip_prefix :: "string \<Rightarrow> string \<Rightarrow> string option" where
  "strip_prefix prefix s = (if take (length prefix) s = prefix then Some (drop (length prefix) s) else None)"

definition peer_id_from_str :: "('sk, 'vk, 'z) crypto_scheme \<Rightarrow> string \<Rightarrow> peer_id_parse_error + peer_id" where
  "peer_id_from_str C s =
     res_bind (ok_or MissingPrefix (strip_prefix ''oagp_'' s)) (\<lambda>rest.
     res_bind (res_map_err Base32 (base32_decode C (to_uppercase rest))) (\<lambda>bytes.
       if length bytes = 32 then Inr bytes else Inl (PeerIdWrongLength (length bytes))))"

text \<open>\<^verbatim>\<open>BASE32_NOPAD\<close>: decoding inverts encoding, and the alphabet is A-Z and 2-7.\<close>

definition base32_char :: "char \<Rightarrow> bool" where
  "base32_char c \<longleftrightarrow> (let n = of_char c :: nat in (65 \<le> n \<and> n \<le> 90) \<or> (50 \<le> n \<and> n \<le> 55))"

definition base32_codec :: "('sk, 'vk, 'z) crypto_scheme \<Rightarrow> bool" where
  "base32_codec C \<longleftrightarrow>
     (\<forall>b. base32_decode C (base32_encode C b) = Inr b \<and>
          list_all base32_char (base32_encode C b))"

definition identity_peer_id :: "('sk, 'vk, 'z) crypto_scheme \<Rightarrow> 'sk \<Rightarrow> peer_id" where
  "identity_peer_id C sk = peer_id_from_public_key C (verifying_key C sk)"

definition sign_with_domain :: "('sk, 'vk, 'z) crypto_scheme \<Rightarrow> 'sk \<Rightarrow> string \<Rightarrow> byte list \<Rightarrow> byte list" where
  "sign_with_domain C sk domain_prefix canonical_bytes = ed_sign C sk (str_bytes domain_prefix @ canonical_bytes)"

definition verify_with_domain ::
  "('sk, 'vk, 'z) crypto_scheme \<Rightarrow> 'vk \<Rightarrow> string \<Rightarrow> byte list \<Rightarrow> byte list \<Rightarrow> bool" where
  "verify_with_domain C vk domain_prefix canonical_bytes signature =
     ed_verify C vk (str_bytes domain_prefix @ canonical_bytes) signature"

definition mutual_receipt_hash ::
  "('sk, 'vk, 'z) crypto_scheme \<Rightarrow> byte list \<Rightarrow> byte list \<Rightarrow> string \<Rightarrow> string" where
  "mutual_receipt_hash C client_nonce server_nonce content_hash =
     ''blake3:'' @ hex_encode C
       (blake3 C (str_bytes ''OAG:RECEIPT:v1:'' @ client_nonce @ server_nonce @ str_bytes content_hash))"

definition blake3_content_hash :: "('sk, 'vk, 'z) crypto_scheme \<Rightarrow> byte list \<Rightarrow> string" where
  "blake3_content_hash C bytes = ''blake3:'' @ hex_encode C (blake3 C bytes)"

lemma sign_verify_round_trip:
  "sign_verify C \<Longrightarrow> verify_with_domain C (verifying_key C sk) d b (sign_with_domain C sk d b)"
  by (simp add: sign_verify_def verify_with_domain_def sign_with_domain_def)

lemma strip_prefix_append [simp]: "strip_prefix p (p @ s) = Some s"
  by (simp add: strip_prefix_def)

lemma upper_lower_base32: "base32_char c \<Longrightarrow> ascii_upper (ascii_lower c) = c"
  by (auto simp: base32_char_def ascii_upper_def ascii_lower_def Let_def)

lemma peer_id_round_trip:
  assumes "base32_codec C" and "length p = 32"
  shows "peer_id_from_str C (peer_id_to_string C p) = Inr p"
proof -
  have "to_uppercase (to_lowercase (base32_encode C p)) = base32_encode C p"
    using assms(1)
    by (auto simp: to_uppercase_def to_lowercase_def base32_codec_def list_all_iff upper_lower_base32
        intro!: map_idI)
  then have "peer_id_from_str C (''oagp_'' @ to_lowercase (base32_encode C p)) = Inr p"
    using assms unfolding peer_id_from_str_def strip_prefix_append by (simp add: base32_codec_def)
  then show ?thesis by (simp only: peer_id_to_string_def)
qed

end
