(* ===== verification/Vocabulary.thy ===== *)
theory Vocabulary
  imports Core
begin

text \<open>
  The closed enumerations of \<^verbatim>\<open>oag-core\<close> with their \<^verbatim>\<open>as_str\<close> and \<^verbatim>\<open>parse\<close>, each an instance of
  the interface \<open>str_enum\<close>, and the records of the graph: nodes, aliases, edges, assertions,
  evidence, actors. A JSON value is what \<^verbatim>\<open>serde_json::Value\<close> holds, an object being the map
  from its keys.
\<close>

section \<open>Enumerations\<close>

datatype extraction_method = Direct | StructuredExtraction | LlmExtraction | Verification

fun extraction_method_as_str :: "extraction_method \<Rightarrow> string" where
  "extraction_method_as_str Direct = ''direct''"
| "extraction_method_as_str StructuredExtraction = ''structured_extraction''"
| "extraction_method_as_str LlmExtraction = ''llm_extraction''"
| "extraction_method_as_str Verification = ''verification''"

definition extraction_method_parse :: "string \<Rightarrow> extraction_method option" where
  "extraction_method_parse s =
     (if s = ''direct'' then Some Direct
      else if s = ''structured_extraction'' then Some StructuredExtraction
      else if s = ''llm_extraction'' then Some LlmExtraction
      else if s = ''verification'' then Some Verification
      else None)"

interpretation extraction: str_enum extraction_method_as_str extraction_method_parse
proof unfold_locales
  show "extraction_method_parse (extraction_method_as_str x) = Some x" for x
    by (cases x) (simp_all add: extraction_method_parse_def)
  show "extraction_method_parse s = Some x \<Longrightarrow> extraction_method_as_str x = s" for s x
    by (auto simp: extraction_method_parse_def split: if_splits)
qed

datatype assertion_status = Active | Disputed | Retracted | Superseded

fun assertion_status_as_str :: "assertion_status \<Rightarrow> string" where
  "assertion_status_as_str Active = ''active''"
| "assertion_status_as_str Disputed = ''disputed''"
| "assertion_status_as_str Retracted = ''retracted''"
| "assertion_status_as_str Superseded = ''superseded''"

definition assertion_status_parse :: "string \<Rightarrow> assertion_status option" where
  "assertion_status_parse s =
     (if s = ''active'' then Some Active
      else if s = ''disputed'' then Some Disputed
      else if s = ''retracted'' then Some Retracted
      else if s = ''superseded'' then Some Superseded
      else None)"

interpretation status: str_enum assertion_status_as_str assertion_status_parse
proof unfold_locales
  show "assertion_status_parse (assertion_status_as_str x) = Some x" for x
    by (cases x) (simp_all add: assertion_status_parse_def)
  show "assertion_status_parse s = Some x \<Longrightarrow> assertion_status_as_str x = s" for s x
    by (auto simp: assertion_status_parse_def split: if_splits)
qed

datatype verify_result = Confirmed | NotConfirmed | Changed | Contradicted | Unreachable | UnknownResult

fun verify_result_as_str :: "verify_result \<Rightarrow> string" where
  "verify_result_as_str Confirmed = ''confirmed''"
| "verify_result_as_str NotConfirmed = ''not_confirmed''"
| "verify_result_as_str Changed = ''changed''"
| "verify_result_as_str Contradicted = ''contradicted''"
| "verify_result_as_str Unreachable = ''unreachable''"
| "verify_result_as_str UnknownResult = ''unknown''"

definition verify_result_parse :: "string \<Rightarrow> verify_result option" where
  "verify_result_parse s =
     (if s = ''confirmed'' then Some Confirmed
      else if s = ''not_confirmed'' then Some NotConfirmed
      else if s = ''changed'' then Some Changed
      else if s = ''contradicted'' then Some Contradicted
      else if s = ''unreachable'' then Some Unreachable
      else if s = ''unknown'' then Some UnknownResult
      else None)"

interpretation verdict: str_enum verify_result_as_str verify_result_parse
proof unfold_locales
  show "verify_result_parse (verify_result_as_str x) = Some x" for x
    by (cases x) (simp_all add: verify_result_parse_def)
  show "verify_result_parse s = Some x \<Longrightarrow> verify_result_as_str x = s" for s x
    by (auto simp: verify_result_parse_def split: if_splits)
qed

datatype evidence_type = WebPage | Documentation | SourceCode | Repository | ApiResponse | Dataset | File | Manual | Specification | UserObservation | AgentObservation | ServiceReceipt | Other

fun evidence_type_as_str :: "evidence_type \<Rightarrow> string" where
  "evidence_type_as_str WebPage = ''web_page''"
| "evidence_type_as_str Documentation = ''documentation''"
| "evidence_type_as_str SourceCode = ''source_code''"
| "evidence_type_as_str Repository = ''repository''"
| "evidence_type_as_str ApiResponse = ''api_response''"
| "evidence_type_as_str Dataset = ''dataset''"
| "evidence_type_as_str File = ''file''"
| "evidence_type_as_str Manual = ''manual''"
| "evidence_type_as_str Specification = ''specification''"
| "evidence_type_as_str UserObservation = ''user_observation''"
| "evidence_type_as_str AgentObservation = ''agent_observation''"
| "evidence_type_as_str ServiceReceipt = ''service_receipt''"
| "evidence_type_as_str Other = ''other''"

definition evidence_type_parse :: "string \<Rightarrow> evidence_type option" where
  "evidence_type_parse s =
     (if s = ''web_page'' then Some WebPage
      else if s = ''documentation'' then Some Documentation
      else if s = ''source_code'' then Some SourceCode
      else if s = ''repository'' then Some Repository
      else if s = ''api_response'' then Some ApiResponse
      else if s = ''dataset'' then Some Dataset
      else if s = ''file'' then Some File
      else if s = ''manual'' then Some Manual
      else if s = ''specification'' then Some Specification
      else if s = ''user_observation'' then Some UserObservation
      else if s = ''agent_observation'' then Some AgentObservation
      else if s = ''service_receipt'' then Some ServiceReceipt
      else if s = ''other'' then Some Other
      else None)"

interpretation evidence_kind: str_enum evidence_type_as_str evidence_type_parse
proof unfold_locales
  show "evidence_type_parse (evidence_type_as_str x) = Some x" for x
    by (cases x) (simp_all add: evidence_type_parse_def)
  show "evidence_type_parse s = Some x \<Longrightarrow> evidence_type_as_str x = s" for s x
    by (auto simp: evidence_type_parse_def split: if_splits)
qed

datatype actor_type = Human | Agent | Model | Crawler | Organization | Domain | Service | Peer | Anonymous

fun actor_type_as_str :: "actor_type \<Rightarrow> string" where
  "actor_type_as_str Human = ''human''"
| "actor_type_as_str Agent = ''agent''"
| "actor_type_as_str Model = ''model''"
| "actor_type_as_str Crawler = ''crawler''"
| "actor_type_as_str Organization = ''organization''"
| "actor_type_as_str Domain = ''domain''"
| "actor_type_as_str Service = ''service''"
| "actor_type_as_str Peer = ''peer''"
| "actor_type_as_str Anonymous = ''anonymous''"

definition actor_type_parse :: "string \<Rightarrow> actor_type option" where
  "actor_type_parse s =
     (if s = ''human'' then Some Human
      else if s = ''agent'' then Some Agent
      else if s = ''model'' then Some Model
      else if s = ''crawler'' then Some Crawler
      else if s = ''organization'' then Some Organization
      else if s = ''domain'' then Some Domain
      else if s = ''service'' then Some Service
      else if s = ''peer'' then Some Peer
      else if s = ''anonymous'' then Some Anonymous
      else None)"

interpretation actor_kind: str_enum actor_type_as_str actor_type_parse
proof unfold_locales
  show "actor_type_parse (actor_type_as_str x) = Some x" for x
    by (cases x) (simp_all add: actor_type_parse_def)
  show "actor_type_parse s = Some x \<Longrightarrow> actor_type_as_str x = s" for s x
    by (auto simp: actor_type_parse_def split: if_splits)
qed

datatype permission = GraphRead | GraphAssert | GraphVerify | GraphRetractOwn | GraphCrawl | Admin

fun permission_as_str :: "permission \<Rightarrow> string" where
  "permission_as_str GraphRead = ''graph:read''"
| "permission_as_str GraphAssert = ''graph:assert''"
| "permission_as_str GraphVerify = ''graph:verify''"
| "permission_as_str GraphRetractOwn = ''graph:retract-own''"
| "permission_as_str GraphCrawl = ''graph:crawl''"
| "permission_as_str Admin = ''admin''"

definition permission_parse :: "string \<Rightarrow> permission option" where
  "permission_parse s =
     (if s = ''graph:read'' then Some GraphRead
      else if s = ''graph:assert'' then Some GraphAssert
      else if s = ''graph:verify'' then Some GraphVerify
      else if s = ''graph:retract-own'' then Some GraphRetractOwn
      else if s = ''graph:crawl'' then Some GraphCrawl
      else if s = ''admin'' then Some Admin
      else None)"

interpretation grant: str_enum permission_as_str permission_parse
proof unfold_locales
  show "permission_parse (permission_as_str x) = Some x" for x
    by (cases x) (simp_all add: permission_parse_def)
  show "permission_parse s = Some x \<Longrightarrow> permission_as_str x = s" for s x
    by (auto simp: permission_parse_def split: if_splits)
qed

datatype alias_type = Name | Url | Urn | Package | ExternalId | Acronym

fun alias_type_as_str :: "alias_type \<Rightarrow> string" where
  "alias_type_as_str Name = ''name''"
| "alias_type_as_str Url = ''url''"
| "alias_type_as_str Urn = ''urn''"
| "alias_type_as_str Package = ''package''"
| "alias_type_as_str ExternalId = ''external_id''"
| "alias_type_as_str Acronym = ''acronym''"

definition alias_type_parse :: "string \<Rightarrow> alias_type option" where
  "alias_type_parse s =
     (if s = ''name'' then Some Name
      else if s = ''url'' then Some Url
      else if s = ''urn'' then Some Urn
      else if s = ''package'' then Some Package
      else if s = ''external_id'' then Some ExternalId
      else if s = ''acronym'' then Some Acronym
      else None)"

interpretation alias_kind: str_enum alias_type_as_str alias_type_parse
proof unfold_locales
  show "alias_type_parse (alias_type_as_str x) = Some x" for x
    by (cases x) (simp_all add: alias_type_parse_def)
  show "alias_type_parse s = Some x \<Longrightarrow> alias_type_as_str x = s" for s x
    by (auto simp: alias_type_parse_def split: if_splits)
qed

section \<open>JSON values\<close>

datatype json =
    JNull
  | JBool bool
  | JNumber string
  | JString string
  | JArray "json list"
  | JObject "string \<rightharpoonup> json"

definition default_metadata :: json where
  "default_metadata = JObject Map.empty"

section \<open>Nodes, predicates and edges\<close>

definition node_type_new :: "string \<Rightarrow> string" where
  "node_type_new raw = to_lowercase (trim raw)"

definition predicate_new :: "string \<Rightarrow> string" where
  "predicate_new raw = join_with ''_'' (split_whitespace (to_lowercase (trim raw)))"

definition canonical_identifier :: "string \<Rightarrow> string \<Rightarrow> string" where
  "canonical_identifier kind value = to_lowercase (trim kind) @ '':'' @ trim value"

record node =
  node_id :: node_id
  node_type :: string
  node_canonical_identifier :: string
  node_canonical_uri :: "string option"
  node_name :: "string option"
  node_description :: "string option"
  node_metadata :: json
  node_created_at :: int

definition node_new :: "('sk, 'vk, 'z) crypto_scheme \<Rightarrow> string \<Rightarrow> string \<Rightarrow> int \<Rightarrow> node" where
  "node_new C ntype identifier created_at =
     \<lparr>node_id = node_id_from_canonical_identifier C identifier,
      node_type = ntype,
      node_canonical_identifier = identifier,
      node_canonical_uri = None,
      node_name = None,
      node_description = None,
      node_metadata = default_metadata,
      node_created_at = created_at\<rparr>"

record node_alias =
  alias_node_id :: node_id
  alias_text :: string
  alias_kind :: alias_type
  alias_source_assertion :: "assertion_id option"

record edge =
  edge_id :: edge_id
  edge_subject :: node_id
  edge_predicate :: string
  edge_object :: node_id
  edge_created_at :: int

definition edge_new ::
  "('sk, 'vk, 'z) crypto_scheme \<Rightarrow> node_id \<Rightarrow> string \<Rightarrow> node_id \<Rightarrow> int \<Rightarrow> edge" where
  "edge_new C subject predicate object created_at =
     \<lparr>edge_id = edge_id_from_triple C subject predicate object,
      edge_subject = subject,
      edge_predicate = predicate,
      edge_object = object,
      edge_created_at = created_at\<rparr>"

section \<open>Assertions, evidence, actors\<close>

text \<open>A confidence is an \<^verbatim>\<open>f32\<close> that the code only stores: its bit pattern.\<close>

record assertion =
  assertion_id :: assertion_id
  assertion_edge_id :: edge_id
  assertion_actor_id :: actor_id
  assertion_confidence :: "32 word option"
  assertion_observed_at :: "int option"
  assertion_asserted_at :: int
  assertion_method :: extraction_method
  assertion_status :: assertion_status

record evidence =
  evidence_id :: event_id
  evidence_assertion_id :: assertion_id
  evidence_type :: evidence_type
  evidence_uri :: "string option"
  evidence_title :: "string option"
  evidence_excerpt :: "string option"
  evidence_content_hash :: "string option"
  evidence_observed_at :: "int option"
  evidence_retrieved_at :: "int option"
  evidence_metadata :: json

record actor =
  actor_id :: actor_id
  actor_type :: actor_type
  actor_name :: "string option"
  actor_public_key :: "byte list option"
  actor_identity_uri :: "string option"
  actor_metadata :: json
  actor_created_at :: int

section \<open>Normalisation\<close>

lemma ascii_lower_idem [simp]: "ascii_lower (ascii_lower c) = ascii_lower c"
  by (auto simp: ascii_lower_def Let_def)

lemma is_whitespace_lower [simp]: "is_whitespace (ascii_lower c) \<longleftrightarrow> is_whitespace c"
  by (auto simp: ascii_lower_def is_whitespace_def Let_def)

lemma split_aux_plain:
  "list_all (\<lambda>c. \<not> is_whitespace c) s \<Longrightarrow>
   split_whitespace_aux acc s = (if acc = [] \<and> s = [] then [] else [rev acc @ s])"
  by (induction s arbitrary: acc) auto

lemma split_aux_pieces:
  "list_all (\<lambda>c. \<not> is_whitespace c) acc \<Longrightarrow> w \<in> set (split_whitespace_aux acc s) \<Longrightarrow>
   w \<noteq> [] \<and> list_all (\<lambda>c. \<not> is_whitespace c) w"
  by (induction acc s rule: split_whitespace_aux.induct) (auto split: if_splits)

lemma set_join_with: "set (join_with sep ws) \<subseteq> set sep \<union> (\<Union>w \<in> set ws. set w)"
  by (induction sep ws rule: join_with.induct) auto

lemma set_split_aux: "w \<in> set (split_whitespace_aux acc s) \<Longrightarrow> set w \<subseteq> set acc \<union> set s"
  by (induction acc s rule: split_whitespace_aux.induct) (auto split: if_splits)

lemma set_trim: "set (trim s) \<subseteq> set s"
  by (auto simp: trim_def dest!: set_dropWhileD)

lemma predicate_new_chars:
  assumes "c \<in> set (predicate_new raw)"
  shows "\<not> is_whitespace c \<and> ascii_lower c = c"
proof -
  have us: "\<not> is_whitespace (CHR ''_'') \<and> ascii_lower (CHR ''_'') = CHR ''_''"
    by (simp add: is_whitespace_def ascii_lower_def)
  from assms set_join_with [of "''_''"] consider "c = CHR ''_''"
    | w where "w \<in> set (split_whitespace (to_lowercase (trim raw)))" "c \<in> set w"
    unfolding predicate_new_def by fastforce
  then show ?thesis
  proof cases
    case 2
    have "\<not> is_whitespace c"
      using split_aux_pieces [of "[]" w "to_lowercase (trim raw)"] 2
      by (auto simp: split_whitespace_def list_all_iff)
    moreover have "c \<in> set (to_lowercase (trim raw))"
      using set_split_aux [of w "[]"] 2 by (auto simp: split_whitespace_def)
    then have "ascii_lower c = c" by (auto simp: to_lowercase_def)
    ultimately show ?thesis by simp
  qed (use us in simp)
qed

lemma trim_plain: "list_all (\<lambda>c. \<not> is_whitespace c) s \<Longrightarrow> trim s = s"
proof -
  assume plain: "list_all (\<lambda>c. \<not> is_whitespace c) s"
  have drop: "dropWhile is_whitespace t = t" if "list_all (\<lambda>c. \<not> is_whitespace c) t" for t
    using that by (cases t) auto
  from plain have "list_all (\<lambda>c. \<not> is_whitespace c) (rev s)" by (simp add: list_all_iff)
  with plain show ?thesis by (simp add: trim_def drop)
qed

text \<open>Normalising a predicate twice changes nothing, so the decoder's second
  \<^verbatim>\<open>Predicate::new\<close> reads back what was stored.\<close>

lemma predicate_new_idem: "predicate_new (predicate_new raw) = predicate_new raw"
proof -
  let ?p = "predicate_new raw"
  have plain: "list_all (\<lambda>c. \<not> is_whitespace c) ?p" and low: "to_lowercase ?p = ?p"
    using predicate_new_chars by (auto simp: list_all_iff to_lowercase_def intro!: map_idI)
  have "split_whitespace ?p = (if ?p = [] then [] else [?p])"
    using split_aux_plain [OF plain, of "[]"] by (simp add: split_whitespace_def)
  then have "join_with ''_'' (split_whitespace ?p) = ?p" by simp
  then show ?thesis
    unfolding predicate_new_def [of ?p] by (simp add: trim_plain [OF plain] low)
qed

lemma trim_idem: "trim (trim s) = trim s"
proof -
  have "dropWhile is_whitespace (trim s) = trim s"
  proof (cases "trim s")
    case (Cons c cs)
    let ?t = "dropWhile is_whitespace s"
    have ne: "?t \<noteq> []"
      using Cons unfolding trim_def by (metis dropWhile.simps(1) list.distinct(1) rev.simps(1))
    have "\<exists>u. ?t = trim s @ u"
      unfolding trim_def
      by (metis rev_append rev_rev_ident takeWhile_dropWhile_id)
    then have "hd ?t = c" using Cons by auto
    with hd_dropWhile [OF ne] Cons show ?thesis by simp
  qed simp
  moreover have "dropWhile is_whitespace (rev (trim s)) = rev (trim s)"
    by (simp add: trim_def)
  ultimately show ?thesis unfolding trim_def [of "trim s"] by simp
qed

lemma trim_map_lower: "trim (to_lowercase s) = to_lowercase (trim s)"
  by (simp add: trim_def to_lowercase_def dropWhile_map comp_def rev_map)

lemma node_type_new_idem: "node_type_new (node_type_new raw) = node_type_new raw"
  by (simp add: node_type_new_def trim_map_lower trim_idem) (simp add: to_lowercase_def)

end
