(* ===== verification/Storage.thy ===== *)
theory Storage
  imports Vocabulary
begin

text \<open>
  The SQLite tables and the statements of \<^verbatim>\<open>oag-storage\<close>'s repository modules. A table is the
  list of its rows in \<^verbatim>\<open>rowid\<close> order; an \<^verbatim>\<open>INSERT\<close> appends, \<^verbatim>\<open>INSERT OR IGNORE\<close> leaves the
  table alone when a primary key or unique column is taken, \<^verbatim>\<open>UPDATE\<close> maps over the rows. The
  constraints are those of \<^verbatim>\<open>migrations/*.sql\<close>: primary keys, unique columns and foreign keys,
  which the pool enforces (\<^verbatim>\<open>foreign_keys(true)\<close>) also for \<^verbatim>\<open>INSERT OR IGNORE\<close>. A violated
  constraint is an \<^verbatim>\<open>Sqlx\<close> error; failures of the disk or of the connection are not modelled.
  Enumeration columns hold their names and are read back by the decoders
  (\<^verbatim>\<open>row_to_*\<close>), which reject unknown names. Identifier columns hold 32-byte ids, JSON columns
  hold the value.

  The projection tables form the record \<open>graph\<close>; the event log, its bookkeeping and the
  peer tables form the record \<open>db\<close>.
\<close>

section \<open>Tables\<close>

definition lookup_by :: "('r \<Rightarrow> 'k) \<Rightarrow> 'r list \<Rightarrow> 'k \<Rightarrow> 'r option" where
  "lookup_by key rows k = find (\<lambda>r. key r = k) rows"

definition has_key :: "('r \<Rightarrow> 'k) \<Rightarrow> 'r list \<Rightarrow> 'k \<Rightarrow> bool" where
  "has_key key rows k \<longleftrightarrow> k \<in> key ` set rows"

definition update_where :: "('r \<Rightarrow> bool) \<Rightarrow> ('r \<Rightarrow> 'r) \<Rightarrow> 'r list \<Rightarrow> 'r list" where
  "update_where P f rows = map (\<lambda>r. if P r then f r else r) rows"

lemma has_key_simps [table_simps, simp]:
  "has_key key [] k \<longleftrightarrow> False"
  "has_key key (rows @ [r]) k \<longleftrightarrow> has_key key rows k \<or> key r = k"
  by (auto simp: has_key_def)

lemma lookup_by_None_iff: "lookup_by key rows k = None \<longleftrightarrow> \<not> has_key key rows k"
  by (auto simp: lookup_by_def has_key_def find_None_iff)

lemma lookup_by_SomeD: "lookup_by key rows k = Some r \<Longrightarrow> r \<in> set rows \<and> key r = k"
  unfolding lookup_by_def by (induction rows) (auto split: if_splits)

lemma lookup_by_append: "lookup_by key (rows @ [r]) k =
    (case lookup_by key rows k of Some x \<Rightarrow> Some x | None \<Rightarrow> if key r = k then Some r else None)"
  unfolding lookup_by_def by (induction rows) auto

lemma map_key_update [simp]:
  "(\<And>r. key (f r) = key r) \<Longrightarrow> map key (update_where P f rows) = map key rows"
  by (simp add: update_where_def)

lemma list_all_update_where:
  "(\<And>r. r \<in> set rows \<Longrightarrow> Q r \<Longrightarrow> Q (f r)) \<Longrightarrow> list_all Q rows \<Longrightarrow> list_all Q (update_where P f rows)"
  by (auto simp: update_where_def list_all_iff)

lemma has_key_update [simp]:
  "(\<And>r. key (f r) = key r) \<Longrightarrow> has_key key (update_where P f rows) k \<longleftrightarrow> has_key key rows k"
  by (metis has_key_def list.set_map map_key_update)

lemma lookup_by_update:
  assumes "\<And>r. key (f r) = key r"
  shows "lookup_by key (update_where P f rows) k =
     map_option (\<lambda>r. if P r then f r else r) (lookup_by key rows k)"
  using assms by (induction rows) (simp_all add: lookup_by_def update_where_def)

section \<open>Errors\<close>

datatype sqlx_error = UniqueViolation | ForeignKeyViolation

datatype storage_error =
    Sqlx sqlx_error
  | UnknownEnumValue string string
  | RowNotFound

section \<open>Rows\<close>

record alias_row =
  ar_node_id :: node_id
  ar_alias :: string
  ar_alias_type :: string
  ar_source_assertion :: "assertion_id option"

record assertion_row =
  as_id :: assertion_id
  as_edge_id :: edge_id
  as_actor_id :: actor_id
  as_confidence :: "32 word option"
  as_observed_at :: "int option"
  as_asserted_at :: int
  as_extraction_method :: string
  as_status :: string

record evidence_row =
  ev_id :: event_id
  ev_assertion_id :: assertion_id
  ev_evidence_type :: string
  ev_uri :: "string option"
  ev_title :: "string option"
  ev_excerpt :: "string option"
  ev_content_hash :: "string option"
  ev_observed_at :: "int option"
  ev_retrieved_at :: "int option"
  ev_metadata :: json

record actor_row =
  ac_id :: actor_id
  ac_actor_type :: string
  ac_name :: "string option"
  ac_public_key :: "byte list option"
  ac_identity_uri :: "string option"
  ac_metadata :: json
  ac_created_at :: int

record actor_key_row =
  ak_key_hash :: "byte list"
  ak_actor_id :: actor_id
  ak_permissions :: "string list"
  ak_created_at :: int
  ak_revoked_at :: "int option"

record dispute =
  dp_id :: event_id
  dp_assertion_id :: assertion_id
  dp_actor_id :: actor_id
  dp_reason :: "string option"
  dp_created_at :: int

record retraction =
  rt_id :: event_id
  rt_assertion_id :: assertion_id
  rt_actor_id :: actor_id
  rt_reason :: "string option"
  rt_created_at :: int

record supersession =
  su_id :: event_id
  su_old_assertion_id :: assertion_id
  su_new_assertion_id :: assertion_id
  su_actor_id :: actor_id
  su_created_at :: int

record observation =
  ob_id :: event_id
  ob_assertion_id :: assertion_id
  ob_actor_id :: actor_id
  ob_result :: string
  ob_observed_at :: int
  ob_created_at :: int

record graph =
  nodes :: "node list"
  node_aliases :: "alias_row list"
  edges :: "edge list"
  actors :: "actor_row list"
  actor_keys :: "actor_key_row list"
  assertions :: "assertion_row list"
  evidences :: "evidence_row list"
  observations :: "observation list"
  disputes :: "dispute list"
  retractions :: "retraction list"
  supersessions :: "supersession list"

definition empty_graph :: graph where
  "empty_graph =
     \<lparr>nodes = [], node_aliases = [], edges = [], actors = [], actor_keys = [], assertions = [],
      evidences = [], observations = [], disputes = [], retractions = [], supersessions = []\<rparr>"

section \<open>nodes.rs\<close>

definition nodes_get_by_id :: "graph \<Rightarrow> node_id \<Rightarrow> node option" where
  "nodes_get_by_id g i = lookup_by node_id (nodes g) i"

definition nodes_insert_if_missing :: "node \<Rightarrow> graph \<Rightarrow> graph" where
  "nodes_insert_if_missing n g =
     (if has_key node_id (nodes g) (node_id n) \<or>
         has_key node_canonical_identifier (nodes g) (node_canonical_identifier n)
      then g else g\<lparr>nodes := nodes g @ [n]\<rparr>)"

definition nodes_insert_alias :: "node_alias \<Rightarrow> graph \<Rightarrow> storage_error + graph" where
  "nodes_insert_alias a g =
     (if has_key (\<lambda>r. (ar_node_id r, ar_alias r)) (node_aliases g) (alias_node_id a, alias_text a) then Inr g
      else if \<not> has_key node_id (nodes g) (alias_node_id a) then Inl (Sqlx ForeignKeyViolation)
      else Inr (g\<lparr>node_aliases := node_aliases g @
             [\<lparr>ar_node_id = alias_node_id a, ar_alias = alias_text a,
               ar_alias_type = alias_type_as_str (alias_kind a),
               ar_source_assertion = alias_source_assertion a\<rparr>]\<rparr>))"

section \<open>edges.rs\<close>

definition edges_insert_if_missing :: "edge \<Rightarrow> graph \<Rightarrow> storage_error + graph" where
  "edges_insert_if_missing e g =
     (if has_key edge_id (edges g) (edge_id e) then Inr g
      else if \<not> has_key node_id (nodes g) (edge_subject e) \<or> \<not> has_key node_id (nodes g) (edge_object e)
      then Inl (Sqlx ForeignKeyViolation)
      else Inr (g\<lparr>edges := edges g @ [e]\<rparr>))"

section \<open>assertions.rs\<close>

definition row_to_assertion :: "assertion_row \<Rightarrow> storage_error + assertion" where
  "row_to_assertion row =
     res_bind (ok_or (UnknownEnumValue ''extraction_method'' (as_extraction_method row))
                 (extraction_method_parse (as_extraction_method row))) (\<lambda>m.
     res_bind (ok_or (UnknownEnumValue ''status'' (as_status row)) (assertion_status_parse (as_status row))) (\<lambda>st.
       Inr \<lparr>assertion_id = as_id row, assertion_edge_id = as_edge_id row,
            assertion_actor_id = as_actor_id row, assertion_confidence = as_confidence row,
            assertion_observed_at = as_observed_at row, assertion_asserted_at = as_asserted_at row,
            assertion_method = m, assertion_status = st\<rparr>))"

definition assertion_to_row :: "assertion \<Rightarrow> assertion_row" where
  "assertion_to_row a =
     \<lparr>as_id = assertion_id a, as_edge_id = assertion_edge_id a, as_actor_id = assertion_actor_id a,
      as_confidence = assertion_confidence a, as_observed_at = assertion_observed_at a,
      as_asserted_at = assertion_asserted_at a,
      as_extraction_method = extraction_method_as_str (assertion_method a),
      as_status = assertion_status_as_str (assertion_status a)\<rparr>"

definition assertions_insert :: "assertion \<Rightarrow> graph \<Rightarrow> storage_error + graph" where
  "assertions_insert a g =
     (if has_key as_id (assertions g) (assertion_id a) then Inl (Sqlx UniqueViolation)
      else if \<not> has_key edge_id (edges g) (assertion_edge_id a) \<or>
              \<not> has_key ac_id (actors g) (assertion_actor_id a)
      then Inl (Sqlx ForeignKeyViolation)
      else Inr (g\<lparr>assertions := assertions g @ [assertion_to_row a]\<rparr>))"

definition assertions_get_by_id :: "graph \<Rightarrow> assertion_id \<Rightarrow> storage_error + assertion option" where
  "assertions_get_by_id g i =
     transpose_opt (map_option row_to_assertion (lookup_by as_id (assertions g) i))"

definition assertions_set_status :: "assertion_id \<Rightarrow> assertion_status \<Rightarrow> graph \<Rightarrow> graph" where
  "assertions_set_status i st g =
     g\<lparr>assertions := update_where (\<lambda>r. as_id r = i)
        (\<lambda>r. r\<lparr>as_status := assertion_status_as_str st\<rparr>) (assertions g)\<rparr>"

definition insert_evidence :: "evidence \<Rightarrow> graph \<Rightarrow> storage_error + graph" where
  "insert_evidence e g =
     (if has_key ev_id (evidences g) (evidence_id e) then Inl (Sqlx UniqueViolation)
      else if \<not> has_key as_id (assertions g) (evidence_assertion_id e) then Inl (Sqlx ForeignKeyViolation)
      else Inr (g\<lparr>evidences := evidences g @
             [\<lparr>ev_id = evidence_id e, ev_assertion_id = evidence_assertion_id e,
               ev_evidence_type = evidence_type_as_str (evidence_type e), ev_uri = evidence_uri e,
               ev_title = evidence_title e, ev_excerpt = evidence_excerpt e,
               ev_content_hash = evidence_content_hash e, ev_observed_at = evidence_observed_at e,
               ev_retrieved_at = evidence_retrieved_at e, ev_metadata = evidence_metadata e\<rparr>]\<rparr>))"

definition redact_evidence_row :: "event_id \<Rightarrow> graph \<Rightarrow> bool \<times> graph" where
  "redact_evidence_row i g =
     (has_key ev_id (evidences g) i,
      g\<lparr>evidences := update_where (\<lambda>r. ev_id r = i)
         (\<lambda>r. r\<lparr>ev_title := None, ev_excerpt := None\<rparr>) (evidences g)\<rparr>)"

definition insert_dispute :: "dispute \<Rightarrow> graph \<Rightarrow> storage_error + graph" where
  "insert_dispute x g =
     (if has_key dp_id (disputes g) (dp_id x) then Inl (Sqlx UniqueViolation)
      else if \<not> has_key as_id (assertions g) (dp_assertion_id x) \<or> \<not> has_key ac_id (actors g) (dp_actor_id x)
      then Inl (Sqlx ForeignKeyViolation)
      else Inr (g\<lparr>disputes := disputes g @ [x]\<rparr>))"

definition insert_retraction :: "retraction \<Rightarrow> graph \<Rightarrow> storage_error + graph" where
  "insert_retraction x g =
     (if has_key rt_id (retractions g) (rt_id x) then Inl (Sqlx UniqueViolation)
      else if \<not> has_key as_id (assertions g) (rt_assertion_id x) \<or> \<not> has_key ac_id (actors g) (rt_actor_id x)
      then Inl (Sqlx ForeignKeyViolation)
      else Inr (g\<lparr>retractions := retractions g @ [x]\<rparr>))"

definition insert_supersession :: "supersession \<Rightarrow> graph \<Rightarrow> storage_error + graph" where
  "insert_supersession x g =
     (if has_key su_id (supersessions g) (su_id x) then Inl (Sqlx UniqueViolation)
      else if \<not> has_key as_id (assertions g) (su_old_assertion_id x) \<or>
              \<not> has_key as_id (assertions g) (su_new_assertion_id x) \<or>
              \<not> has_key ac_id (actors g) (su_actor_id x)
      then Inl (Sqlx ForeignKeyViolation)
      else Inr (g\<lparr>supersessions := supersessions g @ [x]\<rparr>))"

definition insert_observation :: "observation \<Rightarrow> graph \<Rightarrow> storage_error + graph" where
  "insert_observation x g =
     (if has_key ob_id (observations g) (ob_id x) then Inl (Sqlx UniqueViolation)
      else if \<not> has_key as_id (assertions g) (ob_assertion_id x) \<or> \<not> has_key ac_id (actors g) (ob_actor_id x)
      then Inl (Sqlx ForeignKeyViolation)
      else Inr (g\<lparr>observations := observations g @ [x]\<rparr>))"

section \<open>actors.rs\<close>

definition actors_insert :: "actor \<Rightarrow> graph \<Rightarrow> graph" where
  "actors_insert a g =
     (if has_key ac_id (actors g) (actor_id a) then g
      else g\<lparr>actors := actors g @
        [\<lparr>ac_id = actor_id a, ac_actor_type = actor_type_as_str (actor_type a), ac_name = actor_name a,
          ac_public_key = actor_public_key a, ac_identity_uri = actor_identity_uri a,
          ac_metadata = actor_metadata a, ac_created_at = actor_created_at a\<rparr>]\<rparr>)"

definition redact_identity_uri :: "actor_id \<Rightarrow> graph \<Rightarrow> bool \<times> graph" where
  "redact_identity_uri i g =
     (has_key ac_id (actors g) i,
      g\<lparr>actors := update_where (\<lambda>r. ac_id r = i) (\<lambda>r. r\<lparr>ac_identity_uri := None\<rparr>) (actors g)\<rparr>)"

definition create_key ::
  "byte list \<Rightarrow> actor_id \<Rightarrow> permission list \<Rightarrow> int \<Rightarrow> graph \<Rightarrow> storage_error + graph" where
  "create_key key_hash a permissions created_at g =
     (if has_key ak_key_hash (actor_keys g) key_hash then Inl (Sqlx UniqueViolation)
      else if \<not> has_key ac_id (actors g) a then Inl (Sqlx ForeignKeyViolation)
      else Inr (g\<lparr>actor_keys := actor_keys g @
        [\<lparr>ak_key_hash = key_hash, ak_actor_id = a, ak_permissions = map permission_as_str permissions,
          ak_created_at = created_at, ak_revoked_at = None\<rparr>]\<rparr>))"

definition find_active_key :: "graph \<Rightarrow> byte list \<Rightarrow> (actor_id \<times> permission list) option" where
  "find_active_key g key_hash =
     (case find (\<lambda>r. ak_key_hash r = key_hash \<and> ak_revoked_at r = None) (actor_keys g) of
        None \<Rightarrow> None
      | Some row \<Rightarrow> Some (ak_actor_id row, List.map_filter permission_parse (ak_permissions row)))"

definition revoke_key :: "byte list \<Rightarrow> int \<Rightarrow> graph \<Rightarrow> bool \<times> graph" where
  "revoke_key key_hash revoked_at g =
     (let P = (\<lambda>r. ak_key_hash r = key_hash \<and> ak_revoked_at r = None)
      in (list_ex P (actor_keys g),
          g\<lparr>actor_keys := update_where P (\<lambda>r. r\<lparr>ak_revoked_at := Some revoked_at\<rparr>) (actor_keys g)\<rparr>))"

end
