(* ===== verification/EventLog.thy ===== *)
theory EventLog
  imports Storage
begin

text \<open>
  The event log and its bookkeeping (\<^verbatim>\<open>repo/events.rs\<close>), the peer tables (\<^verbatim>\<open>repo/peers.rs\<close>),
  and the whole database \<open>db\<close>. A sequence number is a 64-bit word: the code's casts between
  \<^verbatim>\<open>u64\<close> and the \<^verbatim>\<open>i64\<close> column keep the bits, and comparisons on the column are signed.
\<close>

type_synonym u64 = "64 word"

section \<open>Rows\<close>

record event_row =
  er_event_id :: event_id
  er_origin :: peer_id
  er_sequence :: u64
  er_previous :: "event_id option"
  er_event_type :: string
  er_payload :: "byte list"
  er_created_at :: int
  er_signature :: "byte list"
  er_received_at :: int

record origin_row =
  or_origin :: peer_id
  or_highest_contiguous :: u64
  or_highest_seen :: u64
  or_head :: "event_id option"

record peer_row =
  pe_id :: peer_id
  pe_public_key :: "byte list"
  pe_name :: "string option"
  pe_first_seen :: int
  pe_last_seen :: "int option"
  pe_forked :: bool

record fork_row =
  fk_peer :: peer_id
  fk_sequence :: u64
  fk_event_a :: hash32
  fk_event_b :: hash32
  fk_detected_at :: int
  fk_signed_json :: string

record redaction =
  rd_event_id :: event_id
  rd_redacted_at :: int
  rd_reason :: "string option"

record actor_redaction =
  ard_actor_id :: actor_id
  ard_redacted_at :: int
  ard_reason :: "string option"

record db =
  events :: "event_row list"
  event_refs :: "(event_id \<times> string \<times> hash32) list"
  event_origins :: "origin_row list"
  graph :: graph
  peers :: "peer_row list"
  peer_addresses :: "(peer_id \<times> string) list"
  peer_forks :: "fork_row list"
  redactions :: "redaction list"
  actor_redactions :: "actor_redaction list"

definition empty_db :: db where
  "empty_db =
     \<lparr>events = [], event_refs = [], event_origins = [], graph = empty_graph, peers = [],
      peer_addresses = [], peer_forks = [], redactions = [], actor_redactions = []\<rparr>"

section \<open>repo/events.rs\<close>

definition insert_event :: "event_row \<Rightarrow> db \<Rightarrow> bool \<times> db" where
  "insert_event e d =
     (if has_key er_event_id (events d) (er_event_id e) \<or>
         has_key (\<lambda>r. (er_origin r, er_sequence r)) (events d) (er_origin e, er_sequence e)
      then (False, d) else (True, d\<lparr>events := events d @ [e]\<rparr>))"

definition events_get_by_id :: "db \<Rightarrow> event_id \<Rightarrow> event_row option" where
  "events_get_by_id d i = lookup_by er_event_id (events d) i"

definition get_origin :: "db \<Rightarrow> peer_id \<Rightarrow> origin_row option" where
  "get_origin d p = lookup_by or_origin (event_origins d) p"

definition advance_origin :: "peer_id \<Rightarrow> u64 \<Rightarrow> event_id \<Rightarrow> db \<Rightarrow> db" where
  "advance_origin p new_sequence new_head d =
     (let row = \<lparr>or_origin = p, or_highest_contiguous = new_sequence, or_highest_seen = new_sequence,
                 or_head = Some new_head\<rparr>
      in if has_key or_origin (event_origins d) p
         then d\<lparr>event_origins := update_where (\<lambda>r. or_origin r = p) (\<lambda>_. row) (event_origins d)\<rparr>
         else d\<lparr>event_origins := event_origins d @ [row]\<rparr>)"

definition add_ref :: "event_id \<Rightarrow> string \<times> hash32 \<Rightarrow> db \<Rightarrow> storage_error + db" where
  "add_ref i ref d =
     (if (i, ref) \<in> set (event_refs d) then Inr d
      else if \<not> has_key er_event_id (events d) i then Inl (Sqlx ForeignKeyViolation)
      else Inr (d\<lparr>event_refs := event_refs d @ [(i, ref)]\<rparr>))"

fun add_refs :: "event_id \<Rightarrow> (string \<times> hash32) list \<Rightarrow> db \<Rightarrow> storage_error + db" where
  "add_refs i [] d = Inr d"
| "add_refs i (r # rs) d = res_bind (add_ref i r d) (add_refs i rs)"

definition find_event_id_at :: "db \<Rightarrow> peer_id \<Rightarrow> u64 \<Rightarrow> event_id option" where
  "find_event_id_at d p s =
     map_option er_event_id (lookup_by (\<lambda>r. (er_origin r, er_sequence r)) (events d) (p, s))"

definition list_all_in_insertion_order :: "db \<Rightarrow> event_row list" where
  "list_all_in_insertion_order d = events d"

definition list_range :: "db \<Rightarrow> peer_id \<Rightarrow> u64 \<Rightarrow> u64 \<Rightarrow> event_row list" where
  "list_range d p from to =
     sort_key (\<lambda>r. sint (er_sequence r))
       (filter (\<lambda>r. er_origin r = p \<and> sint from \<le> sint (er_sequence r) \<and> sint (er_sequence r) \<le> sint to)
          (events d))"

section \<open>repo/redactions.rs and repo/actor_redactions.rs\<close>

definition redactions_insert :: "event_id \<Rightarrow> int \<Rightarrow> string option \<Rightarrow> db \<Rightarrow> storage_error + db" where
  "redactions_insert i redacted_at reason d =
     (if has_key rd_event_id (redactions d) i then Inl (Sqlx UniqueViolation)
      else if \<not> has_key er_event_id (events d) i then Inl (Sqlx ForeignKeyViolation)
      else Inr (d\<lparr>redactions := redactions d @
             [\<lparr>rd_event_id = i, rd_redacted_at = redacted_at, rd_reason = reason\<rparr>]\<rparr>))"

definition redactions_exists :: "db \<Rightarrow> event_id \<Rightarrow> bool" where
  "redactions_exists d i \<longleftrightarrow> has_key rd_event_id (redactions d) i"

definition actor_redactions_insert :: "actor_id \<Rightarrow> int \<Rightarrow> string option \<Rightarrow> db \<Rightarrow> storage_error + db" where
  "actor_redactions_insert i redacted_at reason d =
     (if has_key ard_actor_id (actor_redactions d) i then Inl (Sqlx UniqueViolation)
      else Inr (d\<lparr>actor_redactions := actor_redactions d @
             [\<lparr>ard_actor_id = i, ard_redacted_at = redacted_at, ard_reason = reason\<rparr>]\<rparr>))"

definition actor_redactions_exists :: "db \<Rightarrow> actor_id \<Rightarrow> bool" where
  "actor_redactions_exists d i \<longleftrightarrow> has_key ard_actor_id (actor_redactions d) i"

section \<open>repo/peers.rs\<close>

definition coalesce :: "'a option \<Rightarrow> 'a option \<Rightarrow> 'a option" where
  "coalesce x y = (case x of None \<Rightarrow> y | Some v \<Rightarrow> Some v)"

definition upsert_peer :: "peer_id \<Rightarrow> byte list \<Rightarrow> string option \<Rightarrow> int \<Rightarrow> db \<Rightarrow> db" where
  "upsert_peer p public_key name seen_at d =
     (if has_key pe_id (peers d) p
      then d\<lparr>peers := update_where (\<lambda>r. pe_id r = p)
               (\<lambda>r. r\<lparr>pe_last_seen := Some seen_at, pe_name := coalesce name (pe_name r)\<rparr>) (peers d)\<rparr>
      else d\<lparr>peers := peers d @
               [\<lparr>pe_id = p, pe_public_key = public_key, pe_name = name, pe_first_seen = seen_at,
                 pe_last_seen = Some seen_at, pe_forked = False\<rparr>]\<rparr>)"

definition get_peer :: "db \<Rightarrow> peer_id \<Rightarrow> peer_row option" where
  "get_peer d p = lookup_by pe_id (peers d) p"

definition mark_forked :: "peer_id \<Rightarrow> db \<Rightarrow> db" where
  "mark_forked p d =
     d\<lparr>peers := update_where (\<lambda>r. pe_id r = p) (\<lambda>r. r\<lparr>pe_forked := True\<rparr>) (peers d)\<rparr>"

definition record_fork :: "peer_id \<Rightarrow> u64 \<Rightarrow> hash32 \<Rightarrow> hash32 \<Rightarrow> int \<Rightarrow> string \<Rightarrow> db \<Rightarrow> db" where
  "record_fork p s a b detected_at json d =
     (if has_key (\<lambda>r. (fk_peer r, fk_sequence r)) (peer_forks d) (p, s) then d
      else d\<lparr>peer_forks := peer_forks d @
             [\<lparr>fk_peer = p, fk_sequence = s, fk_event_a = a, fk_event_b = b,
               fk_detected_at = detected_at, fk_signed_json = json\<rparr>]\<rparr>)"

definition add_address :: "peer_id \<Rightarrow> string \<Rightarrow> db \<Rightarrow> storage_error + db" where
  "add_address p addr d =
     (if (p, addr) \<in> set (peer_addresses d) then Inr d
      else if \<not> has_key pe_id (peers d) p then Inl (Sqlx ForeignKeyViolation)
      else Inr (d\<lparr>peer_addresses := peer_addresses d @ [(p, addr)]\<rparr>))"

definition remove_peer :: "peer_id \<Rightarrow> db \<Rightarrow> db" where
  "remove_peer p d =
     d\<lparr>peer_addresses := filter (\<lambda>a. fst a \<noteq> p) (peer_addresses d),
       peers := filter (\<lambda>r. pe_id r \<noteq> p) (peers d)\<rparr>"

section \<open>What a statement leaves alone\<close>

lemma add_ref_frame:
  assumes "add_ref i r d = Inr d'"
  shows "\<exists>new. d' = d\<lparr>event_refs := event_refs d @ new\<rparr> \<and> set new \<subseteq> {(i, r)}"
proof (cases "(i, r) \<in> set (event_refs d)")
  case True
  with assms show ?thesis by (intro exI [of _ "[]"]) (simp add: add_ref_def)
next
  case False
  with assms show ?thesis by (intro exI [of _ "[(i, r)]"]) (simp add: add_ref_def split: if_splits)
qed

lemma add_refs_frame:
  "add_refs i rs d = Inr d' \<Longrightarrow> \<exists>new. d' = d\<lparr>event_refs := event_refs d @ new\<rparr> \<and> set new \<subseteq> Pair i ` set rs"
proof (induction rs arbitrary: d)
  case (Cons r rs)
  from Cons.prems obtain d1 where d1: "add_ref i r d = Inr d1" and rest: "add_refs i rs d1 = Inr d'"
    by auto
  from d1 obtain n1 where n1: "d1 = d\<lparr>event_refs := event_refs d @ n1\<rparr>" "set n1 \<subseteq> {(i, r)}"
    using add_ref_frame by blast
  from Cons.IH [OF rest] obtain n2 where
    "d' = d1\<lparr>event_refs := event_refs d1 @ n2\<rparr>" "set n2 \<subseteq> Pair i ` set rs" by blast
  with n1 show ?case by (intro exI [of _ "n1 @ n2"]) auto
qed simp

lemma add_refs_logged:
  "has_key er_event_id (events d) i \<Longrightarrow> \<exists>d'. add_refs i rs d = Inr d'"
proof (induction rs arbitrary: d)
  case (Cons r rs)
  obtain d1 where d1: "add_ref i r d = Inr d1" "events d1 = events d"
    using Cons.prems by (cases "(i, r) \<in> set (event_refs d)") (simp_all add: add_ref_def)
  with Cons.IH [of d1] Cons.prems show ?case by auto
qed simp

lemma add_refs_present: "Pair i ` set rs \<subseteq> set (event_refs d) \<Longrightarrow> add_refs i rs d = Inr d"
  by (induction rs) (auto simp: add_ref_def)

lemma add_refs_contains: "add_refs i rs d = Inr d' \<Longrightarrow> Pair i ` set rs \<subseteq> set (event_refs d')"
proof (induction rs arbitrary: d)
  case (Cons r rs)
  from Cons.prems obtain d1 where d1: "add_ref i r d = Inr d1" and rest: "add_refs i rs d1 = Inr d'"
    by auto
  have "(i, r) \<in> set (event_refs d1)" using d1 by (auto simp: add_ref_def split: if_splits)
  with add_refs_frame [OF rest] Cons.IH [OF rest] show ?case by auto
qed simp

lemma advance_origin_frame [simp]:
  "events (advance_origin p s h d) = events d"
  "event_refs (advance_origin p s h d) = event_refs d"
  "graph (advance_origin p s h d) = graph d"
  "peers (advance_origin p s h d) = peers d"
  "peer_forks (advance_origin p s h d) = peer_forks d"
  "redactions (advance_origin p s h d) = redactions d"
  "actor_redactions (advance_origin p s h d) = actor_redactions d"
  by (simp_all add: advance_origin_def Let_def)

lemma get_origin_advance:
  "get_origin (advance_origin p s h d) q =
     (if q = p then Some \<lparr>or_origin = p, or_highest_contiguous = s, or_highest_seen = s, or_head = Some h\<rparr>
      else get_origin d q)"
proof (cases "has_key or_origin (event_origins d) p")
  case True
  let ?row = "\<lparr>or_origin = p, or_highest_contiguous = s, or_highest_seen = s, or_head = Some h\<rparr>"
  have "lookup_by or_origin (update_where (\<lambda>r. or_origin r = p) (\<lambda>_. ?row) rows) q =
      (if q = p then (if has_key or_origin rows p then Some ?row else None) else lookup_by or_origin rows q)"
    for rows
    by (induction rows) (auto simp: lookup_by_def update_where_def has_key_def)
  with True show ?thesis by (simp add: get_origin_def advance_origin_def Let_def)
next
  case False
  then have "lookup_by or_origin (event_origins d) p = None" by (simp add: lookup_by_None_iff)
  with False show ?thesis
    by (auto simp: get_origin_def advance_origin_def Let_def lookup_by_append split: option.splits)
qed

lemma fork_bookkeeping_frame [simp]:
  "events (upsert_peer p k n t d) = events d"
  "event_refs (upsert_peer p k n t d) = event_refs d"
  "event_origins (upsert_peer p k n t d) = event_origins d"
  "graph (upsert_peer p k n t d) = graph d"
  "peer_forks (upsert_peer p k n t d) = peer_forks d"
  "events (record_fork p s a b t j d) = events d"
  "event_refs (record_fork p s a b t j d) = event_refs d"
  "event_origins (record_fork p s a b t j d) = event_origins d"
  "graph (record_fork p s a b t j d) = graph d"
  "peers (record_fork p s a b t j d) = peers d"
  "events (mark_forked p d) = events d"
  "event_refs (mark_forked p d) = event_refs d"
  "event_origins (mark_forked p d) = event_origins d"
  "graph (mark_forked p d) = graph d"
  "peer_forks (mark_forked p d) = peer_forks d"
  "redactions (upsert_peer p k n t d) = redactions d"
  "redactions (record_fork p s a b t j d) = redactions d"
  "redactions (mark_forked p d) = redactions d"
  "actor_redactions (upsert_peer p k n t d) = actor_redactions d"
  "actor_redactions (record_fork p s a b t j d) = actor_redactions d"
  "actor_redactions (mark_forked p d) = actor_redactions d"
  by (simp_all add: upsert_peer_def record_fork_def mark_forked_def)

lemma get_peer_mark_forked:
  "get_peer (mark_forked p d) q = map_option (\<lambda>r. if pe_id r = p then r\<lparr>pe_forked := True\<rparr> else r) (get_peer d q)"
  unfolding get_peer_def mark_forked_def by (simp add: lookup_by_update)

lemma get_peer_upsert_known: "\<exists>r. get_peer (upsert_peer p k n t d) p = Some r"
proof -
  have "has_key pe_id (peers (upsert_peer p k n t d)) p"
    by (simp add: upsert_peer_def)
  then show ?thesis by (metis get_peer_def lookup_by_None_iff option.exhaust)
qed

end
