(* ===== verification/Projector.thy ===== *)
theory Projector
  imports EventLog
begin

text \<open>
  The typed event bodies (\<^verbatim>\<open>payload.rs\<close>), the errors of the event crate (\<^verbatim>\<open>error.rs\<close>) and the
  projection of one event onto the graph tables (\<^verbatim>\<open>projector.rs\<close>). The calls of
  \<^verbatim>\<open>events::add_ref\<close> are the last statements of every projecting function: the function returns
  the references, and \<open>project\<close> runs the calls in order.
\<close>

section \<open>Payloads\<close>

record assert_relation_payload =
  asr_subject_identifier :: string
  asr_subject_type :: string
  asr_predicate :: string
  asr_object_identifier :: string
  asr_object_type :: string
  asr_actor_id :: string
  asr_actor_confidence :: "32 word option"
  asr_observed_at :: "int option"
  asr_extraction_method :: string

record add_evidence_payload =
  ade_assertion_id :: string
  ade_evidence_type :: string
  ade_uri :: "string option"
  ade_title :: "string option"
  ade_excerpt :: "string option"
  ade_content_hash :: "string option"
  ade_observed_at :: "int option"
  ade_retrieved_at :: "int option"
  ade_pinned_cid :: "string option"
  ade_metadata :: "json option"

record verify_assertion_payload =
  vfy_assertion_id :: string
  vfy_observer_actor_id :: string
  vfy_result :: string
  vfy_observed_at :: int

record dispute_assertion_payload =
  dsp_assertion_id :: string
  dsp_actor_id :: string
  dsp_reason :: "string option"

record retract_assertion_payload =
  ret_assertion_id :: string
  ret_actor_id :: string
  ret_reason :: "string option"

record supersede_assertion_payload =
  sup_old_assertion_id :: string
  sup_new_assertion_id :: string
  sup_actor_id :: string

record actor_declare_payload =
  adc_actor_type :: string
  adc_name :: "string option"
  adc_public_key :: "string option"
  adc_identity_uri :: "string option"

record actor_key_add_payload =
  aka_actor_id :: string
  aka_key_hash :: string
  aka_permissions :: "string list"

record actor_key_revoke_payload =
  akr_actor_id :: string
  akr_key_hash :: string

record node_alias_payload =
  nal_node_id :: string
  nal_alias :: string
  nal_alias_type :: string

datatype event_payload =
    AssertRelation assert_relation_payload
  | AddEvidence add_evidence_payload
  | VerifyAssertion verify_assertion_payload
  | DisputeAssertion dispute_assertion_payload
  | RetractAssertion retract_assertion_payload
  | SupersedeAssertion supersede_assertion_payload
  | ActorDeclare actor_declare_payload
  | ActorKeyAdd actor_key_add_payload
  | ActorKeyRevoke actor_key_revoke_payload
  | NodeAlias node_alias_payload

fun type_str :: "event_payload \<Rightarrow> string" where
  "type_str (AssertRelation _) = ''ASSERT_RELATION''"
| "type_str (AddEvidence _) = ''ADD_EVIDENCE''"
| "type_str (VerifyAssertion _) = ''VERIFY_ASSERTION''"
| "type_str (DisputeAssertion _) = ''DISPUTE_ASSERTION''"
| "type_str (RetractAssertion _) = ''RETRACT_ASSERTION''"
| "type_str (SupersedeAssertion _) = ''SUPERSEDE_ASSERTION''"
| "type_str (ActorDeclare _) = ''ACTOR_DECLARE''"
| "type_str (ActorKeyAdd _) = ''ACTOR_KEY_ADD''"
| "type_str (ActorKeyRevoke _) = ''ACTOR_KEY_REVOKE''"
| "type_str (NodeAlias _) = ''NODE_ALIAS''"

section \<open>Errors\<close>

datatype json_error = SerdeJson string

datatype events_error =
    Canonicalize json_error
  | InvalidSignature
  | Hex hex_error
  | IdError hash32_parse_error
  | SequenceGap u64 u64
  | PreviousEventMismatch "string option" "string option"
  | UnknownExtractionMethod string
  | BadSignatureLength nat
  | StorageFailed storage_error
  | NotFound string
  | OriginPeerId peer_id_parse_error
  | OriginKeyMismatch string string

datatype projection_outcome = Unit | ActorDeclared actor_id

section \<open>Projecting one event\<close>

type_synonym refs = "(string \<times> hash32) list"

definition resolve_or_create_node ::
  "('sk, 'vk, 'z) crypto_scheme \<Rightarrow> string \<Rightarrow> string \<Rightarrow> int \<Rightarrow> graph \<Rightarrow> node_id \<times> graph" where
  "resolve_or_create_node C identifier ntype created_at g =
     (let i = node_id_from_canonical_identifier C identifier
      in if nodes_get_by_id g i = None
         then (i, nodes_insert_if_missing (node_new C (node_type_new ntype) identifier created_at) g)
         else (i, g))"

definition project_assert_relation ::
  "('sk, 'vk, 'z) crypto_scheme \<Rightarrow> event_id \<Rightarrow> int \<Rightarrow> assert_relation_payload \<Rightarrow> graph
     \<Rightarrow> events_error + (graph \<times> refs)" where
  "project_assert_relation C eid created_at p g =
     (case resolve_or_create_node C (asr_subject_identifier p) (asr_subject_type p) created_at g of
        (subject_id, g1) \<Rightarrow>
      case resolve_or_create_node C (asr_object_identifier p) (asr_object_type p) created_at g1 of
        (object_id, g2) \<Rightarrow>
      let e = edge_new C subject_id (predicate_new (asr_predicate p)) object_id created_at in
      res_bind (res_map_err StorageFailed (edges_insert_if_missing e g2)) (\<lambda>g3.
      res_bind (res_map_err IdError (actor_id_from_str C (asr_actor_id p))) (\<lambda>a.
      res_bind (ok_or (UnknownExtractionMethod (asr_extraction_method p))
                  (extraction_method_parse (asr_extraction_method p))) (\<lambda>m.
      res_bind (res_map_err StorageFailed (assertions_insert
                  \<lparr>assertion_id = eid, assertion_edge_id = edge_id e, assertion_actor_id = a,
                   assertion_confidence = asr_actor_confidence p, assertion_observed_at = asr_observed_at p,
                   assertion_asserted_at = created_at, assertion_method = m,
                   assertion_status = Active\<rparr> g3)) (\<lambda>g4.
        Inr (g4, [(''assertion'', event_hash eid), (''edge'', edge_hash (edge_id e)),
                  (''node'', node_hash subject_id), (''node'', node_hash object_id)]))))))"

definition build_evidence_metadata :: "string option \<Rightarrow> json option \<Rightarrow> json" where
  "build_evidence_metadata pinned_cid metadata =
     (let base = (case metadata of Some (JObject m) \<Rightarrow> m | _ \<Rightarrow> Map.empty)
      in JObject (case pinned_cid of None \<Rightarrow> base | Some cid \<Rightarrow> base(''ipfs_cid'' \<mapsto> JString cid)))"

text \<open>The check every lifecycle event makes: the assertion it names is in the table.\<close>

definition require_assertion :: "graph \<Rightarrow> assertion_id \<Rightarrow> string \<Rightarrow> events_error + unit" where
  "require_assertion g i missing =
     res_bind (res_map_err StorageFailed (assertions_get_by_id g i)) (\<lambda>found.
       if found = None then Inl (NotFound missing) else Inr ())"

definition project_add_evidence ::
  "('sk, 'vk, 'z) crypto_scheme \<Rightarrow> event_id \<Rightarrow> add_evidence_payload \<Rightarrow> graph \<Rightarrow> events_error + (graph \<times> refs)" where
  "project_add_evidence C eid p g =
     res_bind (res_map_err IdError (event_id_from_str C (ade_assertion_id p))) (\<lambda>i.
     res_bind (require_assertion g i (''assertion '' @ ade_assertion_id p)) (\<lambda>_.
     res_bind (ok_or (UnknownExtractionMethod (ade_evidence_type p)) (evidence_type_parse (ade_evidence_type p))) (\<lambda>t.
     res_bind (res_map_err StorageFailed (insert_evidence
        \<lparr>evidence_id = eid, evidence_assertion_id = i, evidence_type = t, evidence_uri = ade_uri p,
         evidence_title = ade_title p, evidence_excerpt = ade_excerpt p,
         evidence_content_hash = ade_content_hash p, evidence_observed_at = ade_observed_at p,
         evidence_retrieved_at = ade_retrieved_at p,
         evidence_metadata = build_evidence_metadata (ade_pinned_cid p) (ade_metadata p)\<rparr> g)) (\<lambda>g1.
       Inr (g1, [(''assertion'', event_hash i)])))))"

definition project_verify_assertion ::
  "('sk, 'vk, 'z) crypto_scheme \<Rightarrow> event_id \<Rightarrow> int \<Rightarrow> verify_assertion_payload \<Rightarrow> graph \<Rightarrow> events_error + (graph \<times> refs)" where
  "project_verify_assertion C eid created_at p g =
     res_bind (res_map_err IdError (event_id_from_str C (vfy_assertion_id p))) (\<lambda>i.
     res_bind (res_map_err IdError (actor_id_from_str C (vfy_observer_actor_id p))) (\<lambda>a.
     res_bind (require_assertion g i (''assertion '' @ vfy_assertion_id p)) (\<lambda>_.
     res_bind (res_map_err StorageFailed (insert_observation
        \<lparr>ob_id = eid, ob_assertion_id = i, ob_actor_id = a, ob_result = vfy_result p,
         ob_observed_at = vfy_observed_at p, ob_created_at = created_at\<rparr> g)) (\<lambda>g1.
       Inr (g1, [(''assertion'', event_hash i)])))))"

definition project_dispute_assertion ::
  "('sk, 'vk, 'z) crypto_scheme \<Rightarrow> event_id \<Rightarrow> int \<Rightarrow> dispute_assertion_payload \<Rightarrow> graph \<Rightarrow> events_error + (graph \<times> refs)" where
  "project_dispute_assertion C eid created_at p g =
     res_bind (res_map_err IdError (event_id_from_str C (dsp_assertion_id p))) (\<lambda>i.
     res_bind (res_map_err IdError (actor_id_from_str C (dsp_actor_id p))) (\<lambda>a.
     res_bind (require_assertion g i (''assertion '' @ dsp_assertion_id p)) (\<lambda>_.
     res_bind (res_map_err StorageFailed (insert_dispute
        \<lparr>dp_id = eid, dp_assertion_id = i, dp_actor_id = a, dp_reason = dsp_reason p,
         dp_created_at = created_at\<rparr> g)) (\<lambda>g1.
       Inr (assertions_set_status i Disputed g1, [(''assertion'', event_hash i)])))))"

definition project_retract_assertion ::
  "('sk, 'vk, 'z) crypto_scheme \<Rightarrow> event_id \<Rightarrow> int \<Rightarrow> retract_assertion_payload \<Rightarrow> graph \<Rightarrow> events_error + (graph \<times> refs)" where
  "project_retract_assertion C eid created_at p g =
     res_bind (res_map_err IdError (event_id_from_str C (ret_assertion_id p))) (\<lambda>i.
     res_bind (res_map_err IdError (actor_id_from_str C (ret_actor_id p))) (\<lambda>a.
     res_bind (require_assertion g i (''assertion '' @ ret_assertion_id p)) (\<lambda>_.
     res_bind (res_map_err StorageFailed (insert_retraction
        \<lparr>rt_id = eid, rt_assertion_id = i, rt_actor_id = a, rt_reason = ret_reason p,
         rt_created_at = created_at\<rparr> g)) (\<lambda>g1.
       Inr (assertions_set_status i Retracted g1, [(''assertion'', event_hash i)])))))"

definition project_supersede_assertion ::
  "('sk, 'vk, 'z) crypto_scheme \<Rightarrow> event_id \<Rightarrow> int \<Rightarrow> supersede_assertion_payload \<Rightarrow> graph \<Rightarrow> events_error + (graph \<times> refs)" where
  "project_supersede_assertion C eid created_at p g =
     res_bind (res_map_err IdError (event_id_from_str C (sup_old_assertion_id p))) (\<lambda>old.
     res_bind (res_map_err IdError (event_id_from_str C (sup_new_assertion_id p))) (\<lambda>new.
     res_bind (res_map_err IdError (actor_id_from_str C (sup_actor_id p))) (\<lambda>a.
     res_bind (require_assertion g old (''old assertion '' @ event_id_to_hex C old)) (\<lambda>_.
     res_bind (require_assertion g new (''new assertion '' @ event_id_to_hex C new)) (\<lambda>_.
     res_bind (res_map_err StorageFailed (insert_supersession
        \<lparr>su_id = eid, su_old_assertion_id = old, su_new_assertion_id = new, su_actor_id = a,
         su_created_at = created_at\<rparr> g)) (\<lambda>g1.
       Inr (assertions_set_status old Superseded g1,
            [(''assertion'', event_hash old), (''assertion'', event_hash new)])))))))"

text \<open>\<^verbatim>\<open>hex::decode\<close> and \<^verbatim>\<open>try_into::<[u8; 32]>\<close>.\<close>

definition decode_bytes32 :: "('sk, 'vk, 'z) crypto_scheme \<Rightarrow> string \<Rightarrow> events_error + byte list" where
  "decode_bytes32 C s =
     res_bind (res_map_err Hex (hex_decode C s)) (\<lambda>bytes.
       if length bytes = 32 then Inr bytes else Inl (BadSignatureLength (length bytes)))"

definition project_actor_declare ::
  "('sk, 'vk, 'z) crypto_scheme \<Rightarrow> event_id \<Rightarrow> int \<Rightarrow> actor_declare_payload \<Rightarrow> graph \<Rightarrow> events_error + (actor_id \<times> graph)" where
  "project_actor_declare C eid created_at p g =
     res_bind (ok_or (UnknownExtractionMethod (adc_actor_type p)) (actor_type_parse (adc_actor_type p))) (\<lambda>t.
     res_bind (transpose_opt (map_option (decode_bytes32 C) (adc_public_key p))) (\<lambda>public_key.
       let seed = (case adc_public_key p of Some k \<Rightarrow> k | None \<Rightarrow> event_id_to_hex C eid);
           i = actor_id_derive C (str_bytes seed)
       in Inr (i, actors_insert
            \<lparr>actor_id = i, actor_type = t, actor_name = adc_name p, actor_public_key = public_key,
             actor_identity_uri = adc_identity_uri p, actor_metadata = default_metadata,
             actor_created_at = created_at\<rparr> g)))"

definition parse_alias_type :: "string \<Rightarrow> events_error + alias_type" where
  "parse_alias_type s =
     (if s = ''name'' then Inr Name
      else if s = ''url'' then Inr Url
      else if s = ''urn'' then Inr Urn
      else if s = ''package'' then Inr Package
      else if s = ''external_id'' then Inr ExternalId
      else if s = ''acronym'' then Inr Acronym
      else Inl (UnknownExtractionMethod s))"

definition project_node_alias ::
  "('sk, 'vk, 'z) crypto_scheme \<Rightarrow> node_alias_payload \<Rightarrow> graph \<Rightarrow> events_error + graph" where
  "project_node_alias C p g =
     res_bind (res_map_err IdError (node_id_from_str C (nal_node_id p))) (\<lambda>i.
     if nodes_get_by_id g i = None then Inl (NotFound (''node '' @ nal_node_id p)) else
     res_bind (parse_alias_type (nal_alias_type p)) (\<lambda>t.
       res_map_err StorageFailed (nodes_insert_alias
         \<lparr>alias_node_id = i, alias_text = nal_alias p, alias_kind = t, alias_source_assertion = None\<rparr> g)))"

definition project_actor_key_add ::
  "('sk, 'vk, 'z) crypto_scheme \<Rightarrow> int \<Rightarrow> actor_key_add_payload \<Rightarrow> graph \<Rightarrow> events_error + graph" where
  "project_actor_key_add C created_at p g =
     res_bind (res_map_err IdError (actor_id_from_str C (aka_actor_id p))) (\<lambda>a.
     res_bind (decode_bytes32 C (aka_key_hash p)) (\<lambda>key_hash.
       res_map_err StorageFailed
         (create_key key_hash a (List.map_filter permission_parse (aka_permissions p)) created_at g)))"

definition project_actor_key_revoke ::
  "('sk, 'vk, 'z) crypto_scheme \<Rightarrow> int \<Rightarrow> actor_key_revoke_payload \<Rightarrow> graph \<Rightarrow> events_error + graph" where
  "project_actor_key_revoke C created_at p g =
     res_bind (decode_bytes32 C (akr_key_hash p)) (\<lambda>key_hash. Inr (snd (revoke_key key_hash created_at g)))"

definition project_graph ::
  "('sk, 'vk, 'z) crypto_scheme \<Rightarrow> event_id \<Rightarrow> int \<Rightarrow> event_payload \<Rightarrow> graph
     \<Rightarrow> events_error + (projection_outcome \<times> graph \<times> refs)" where
  "project_graph C eid created_at payload g =
     (case payload of
        AssertRelation p \<Rightarrow> res_bind (project_assert_relation C eid created_at p g) (\<lambda>r. Inr (Unit, r))
      | AddEvidence p \<Rightarrow> res_bind (project_add_evidence C eid p g) (\<lambda>r. Inr (Unit, r))
      | VerifyAssertion p \<Rightarrow> res_bind (project_verify_assertion C eid created_at p g) (\<lambda>r. Inr (Unit, r))
      | DisputeAssertion p \<Rightarrow> res_bind (project_dispute_assertion C eid created_at p g) (\<lambda>r. Inr (Unit, r))
      | RetractAssertion p \<Rightarrow> res_bind (project_retract_assertion C eid created_at p g) (\<lambda>r. Inr (Unit, r))
      | SupersedeAssertion p \<Rightarrow> res_bind (project_supersede_assertion C eid created_at p g) (\<lambda>r. Inr (Unit, r))
      | ActorDeclare p \<Rightarrow>
          res_bind (project_actor_declare C eid created_at p g) (\<lambda>r. Inr (ActorDeclared (fst r), snd r, []))
      | ActorKeyAdd p \<Rightarrow> res_bind (project_actor_key_add C created_at p g) (\<lambda>r. Inr (Unit, r, []))
      | ActorKeyRevoke p \<Rightarrow> res_bind (project_actor_key_revoke C created_at p g) (\<lambda>r. Inr (Unit, r, []))
      | NodeAlias p \<Rightarrow> res_bind (project_node_alias C p g) (\<lambda>r. Inr (Unit, r, [])))"

definition project ::
  "('sk, 'vk, 'z) crypto_scheme \<Rightarrow> event_id \<Rightarrow> int \<Rightarrow> event_payload \<Rightarrow> db
     \<Rightarrow> events_error + (projection_outcome \<times> db)" where
  "project C eid created_at payload d =
     res_bind (project_graph C eid created_at payload (graph d)) (\<lambda>(outcome, g, refs).
     res_bind (res_map_err StorageFailed (add_refs eid refs (d\<lparr>graph := g\<rparr>))) (\<lambda>d'. Inr (outcome, d')))"

end
