(* ===== verification/Ingest.thy ===== *)
theory Ingest
  imports Projector
begin

text \<open>
  The signed envelope (\<^verbatim>\<open>envelope.rs\<close>), building and checking it (\<^verbatim>\<open>builder.rs\<close>,
  \<^verbatim>\<open>validate.rs\<close>), and the two transactions that extend the log: \<^verbatim>\<open>commit_local_event\<close>
  (\<^verbatim>\<open>commit.rs\<close>) for this peer's own chain and \<^verbatim>\<open>ingest_remote_event\<close> (\<^verbatim>\<open>ingest.rs\<close>) for
  every other peer's.

  The serializers of \<^verbatim>\<open>serde_jcs\<close> and \<^verbatim>\<open>serde_json\<close> are fields of the record \<open>codec\<close>, which
  extends \<open>crypto\<close>. A transaction is a function from the database to the result and the
  database after it: an early return by \<^verbatim>\<open>?\<close> drops the transaction, which leaves the database
  as it was. \<^verbatim>\<open>highest_contiguous_sequence as u64 + 1\<close> is addition of 64-bit words.
\<close>

section \<open>Envelopes\<close>

record unsigned_event =
  ue_version :: "16 word"
  ue_origin_peer :: string
  ue_sequence :: u64
  ue_previous_event :: "string option"
  ue_created_at :: int
  ue_payload :: event_payload

record signed_event =
  se_unsigned :: unsigned_event
  se_signature :: string

definition EVENT_ID_DOMAIN :: string where "EVENT_ID_DOMAIN = ''OAG:EVENT:v1:''"
definition CURRENT_VERSION :: "16 word" where "CURRENT_VERSION = 1"

record ('sk, 'vk) codec = "('sk, 'vk) crypto" +
  jcs_unsigned :: "unsigned_event \<Rightarrow> json_error + byte list"
  jcs_signed :: "signed_event \<Rightarrow> json_error + byte list"
  json_signed :: "signed_event \<Rightarrow> json_error + string"
  parse_signed :: "byte list \<Rightarrow> json_error + signed_event"

section \<open>Building and verifying\<close>

definition build_and_sign ::
  "('sk, 'vk, 'z) codec_scheme \<Rightarrow> 'sk \<Rightarrow> u64 \<Rightarrow> event_id option \<Rightarrow> int \<Rightarrow> event_payload
     \<Rightarrow> events_error + (signed_event \<times> event_id)" where
  "build_and_sign C identity sequence previous_event created_at payload =
     (let unsigned = \<lparr>ue_version = CURRENT_VERSION,
                      ue_origin_peer = peer_id_to_string C (identity_peer_id C identity),
                      ue_sequence = sequence,
                      ue_previous_event = map_option (event_id_to_hex C) previous_event,
                      ue_created_at = created_at, ue_payload = payload\<rparr> in
      res_bind (res_map_err Canonicalize (jcs_unsigned C unsigned)) (\<lambda>canonical_unsigned.
      let signature = sign_with_domain C identity EVENT_ID_DOMAIN canonical_unsigned;
          sev = \<lparr>se_unsigned = unsigned, se_signature = hex_encode C signature\<rparr> in
      res_bind (res_map_err Canonicalize (jcs_signed C sev)) (\<lambda>canonical_signed.
        Inr (sev, event_id_derive C canonical_signed))))"

definition verify_and_derive_id ::
  "('sk, 'vk, 'z) codec_scheme \<Rightarrow> signed_event \<Rightarrow> 'vk \<Rightarrow> events_error + event_id" where
  "verify_and_derive_id C sev vk =
     res_bind (res_map_err Canonicalize (jcs_unsigned C (se_unsigned sev))) (\<lambda>canonical_unsigned.
     res_bind (res_map_err Hex (hex_decode C (se_signature sev))) (\<lambda>decoded.
     if length decoded \<noteq> 64 then Inl (BadSignatureLength (length decoded)) else
     if \<not> verify_with_domain C vk EVENT_ID_DOMAIN canonical_unsigned decoded then Inl InvalidSignature else
     res_bind (res_map_err Canonicalize (jcs_signed C sev)) (\<lambda>canonical_signed.
       Inr (event_id_derive C canonical_signed))))"

definition validate_chain ::
  "('sk, 'vk, 'z) crypto_scheme \<Rightarrow> u64 \<Rightarrow> event_id option \<Rightarrow> u64 \<Rightarrow> event_id option \<Rightarrow> events_error + unit" where
  "validate_chain C expected_next_sequence expected_head sequence previous_event =
     (if sequence \<noteq> expected_next_sequence then Inl (SequenceGap expected_next_sequence sequence)
      else if previous_event \<noteq> expected_head
      then Inl (PreviousEventMismatch (map_option (event_id_to_hex C) expected_head)
                                      (map_option (event_id_to_hex C) previous_event))
      else Inr ())"

section \<open>Committing an event of this peer\<close>

text \<open>The position after the head that \<^verbatim>\<open>event_origins\<close> records; a new origin starts at 1.\<close>

definition next_position :: "db \<Rightarrow> peer_id \<Rightarrow> u64 \<times> event_id option" where
  "next_position d p =
     (case get_origin d p of
        Some row \<Rightarrow> (or_highest_contiguous row + 1, or_head row)
      | None \<Rightarrow> (1, None))"

definition commit_body ::
  "('sk, 'vk, 'z) codec_scheme \<Rightarrow> 'sk \<Rightarrow> event_payload \<Rightarrow> int \<Rightarrow> db
     \<Rightarrow> events_error + ((event_id \<times> projection_outcome) \<times> db)" where
  "commit_body C identity payload created_at d =
     (let p = identity_peer_id C identity;
          (next_sequence, previous_event) = next_position d p in
      res_bind (build_and_sign C identity next_sequence previous_event created_at payload) (\<lambda>(sev, eid).
      res_bind (res_map_err Canonicalize (jcs_signed C sev)) (\<lambda>canonical_payload.
      res_bind (res_map_err Hex (hex_decode C (se_signature sev))) (\<lambda>signature_bytes.
      let (inserted, d1) = insert_event
            \<lparr>er_event_id = eid, er_origin = p, er_sequence = next_sequence, er_previous = previous_event,
             er_event_type = type_str (ue_payload (se_unsigned sev)), er_payload = canonical_payload,
             er_created_at = created_at, er_signature = signature_bytes, er_received_at = created_at\<rparr> d in
      if \<not> inserted
      then Inl (NotFound (''event '' @ event_id_to_hex C eid @ '' already existed unexpectedly'')) else
      res_bind (project C eid created_at (ue_payload (se_unsigned sev)) d1) (\<lambda>(outcome, d2).
        Inr ((eid, outcome), advance_origin p next_sequence eid d2))))))"

definition transaction :: "(db \<Rightarrow> 'e + ('a \<times> db)) \<Rightarrow> db \<Rightarrow> ('e + 'a) \<times> db" where
  "transaction body d = (case body d of Inl e \<Rightarrow> (Inl e, d) | Inr (a, d') \<Rightarrow> (Inr a, d'))"

definition commit_local_event ::
  "('sk, 'vk, 'z) codec_scheme \<Rightarrow> 'sk \<Rightarrow> event_payload \<Rightarrow> int \<Rightarrow> db
     \<Rightarrow> (events_error + (event_id \<times> projection_outcome)) \<times> db" where
  "commit_local_event C identity payload created_at = transaction (commit_body C identity payload created_at)"

section \<open>Ingesting an event of another peer\<close>

datatype ingest_outcome =
    Applied event_id projection_outcome
  | AlreadyKnown event_id
  | Forked event_id event_id

definition check_origin ::
  "('sk, 'vk, 'z) codec_scheme \<Rightarrow> 'vk \<Rightarrow> signed_event \<Rightarrow> events_error + (event_id \<times> peer_id \<times> event_id option)" where
  "check_origin C vk sev =
     res_bind (verify_and_derive_id C sev vk) (\<lambda>eid.
     res_bind (res_map_err OriginPeerId (peer_id_from_str C (ue_origin_peer (se_unsigned sev)))) (\<lambda>claimed.
     let derived = peer_id_from_public_key C vk in
     if claimed \<noteq> derived
     then Inl (OriginKeyMismatch (peer_id_to_string C claimed) (peer_id_to_string C derived)) else
     res_bind (transpose_opt (map_option (\<lambda>s. res_map_err IdError (event_id_from_str C s))
                 (ue_previous_event (se_unsigned sev)))) (\<lambda>previous_event.
       Inr (eid, claimed, previous_event))))"

definition record_origin_fork ::
  "('sk, 'vk, 'z) codec_scheme \<Rightarrow> 'vk \<Rightarrow> signed_event \<Rightarrow> int \<Rightarrow> peer_id \<Rightarrow> event_id \<Rightarrow> event_id \<Rightarrow> db
     \<Rightarrow> events_error + (ingest_outcome \<times> db)" where
  "record_origin_fork C vk sev received_at p existing eid d =
     (let d1 = upsert_peer p (key_bytes C vk) None received_at d in
      res_bind (res_map_err Canonicalize (json_signed C sev)) (\<lambda>json.
        Inr (Forked existing eid,
             mark_forked p (record_fork p (ue_sequence (se_unsigned sev)) (event_hash existing)
                              (event_hash eid) received_at json d1))))"

definition append_remote ::
  "('sk, 'vk, 'z) codec_scheme \<Rightarrow> signed_event \<Rightarrow> int \<Rightarrow> peer_id \<Rightarrow> event_id option \<Rightarrow> event_id \<Rightarrow> db
     \<Rightarrow> events_error + (ingest_outcome \<times> db)" where
  "append_remote C sev received_at p previous_event eid d =
     (let sequence = ue_sequence (se_unsigned sev);
          (expected_next_sequence, expected_head) = next_position d p in
      res_bind (validate_chain C expected_next_sequence expected_head sequence previous_event) (\<lambda>_.
      res_bind (res_map_err Canonicalize (jcs_signed C sev)) (\<lambda>canonical_payload.
      res_bind (res_map_err Hex (hex_decode C (se_signature sev))) (\<lambda>signature_bytes.
      let d1 = snd (insert_event
            \<lparr>er_event_id = eid, er_origin = p, er_sequence = sequence, er_previous = previous_event,
             er_event_type = type_str (ue_payload (se_unsigned sev)), er_payload = canonical_payload,
             er_created_at = ue_created_at (se_unsigned sev), er_signature = signature_bytes,
             er_received_at = received_at\<rparr> d) in
      res_bind (project C eid (ue_created_at (se_unsigned sev)) (ue_payload (se_unsigned sev)) d1)
        (\<lambda>(outcome, d2). Inr (Applied eid outcome, advance_origin p sequence eid d2))))))"

definition ingest_body ::
  "('sk, 'vk, 'z) codec_scheme \<Rightarrow> 'vk \<Rightarrow> signed_event \<Rightarrow> int \<Rightarrow> db \<Rightarrow> events_error + (ingest_outcome \<times> db)" where
  "ingest_body C vk sev received_at d =
     res_bind (check_origin C vk sev) (\<lambda>(eid, p, previous_event).
     case find_event_id_at d p (ue_sequence (se_unsigned sev)) of
       Some existing \<Rightarrow>
         if existing = eid then Inr (AlreadyKnown eid, d)
         else record_origin_fork C vk sev received_at p existing eid d
     | None \<Rightarrow> append_remote C sev received_at p previous_event eid d)"

definition ingest_remote_event ::
  "('sk, 'vk, 'z) codec_scheme \<Rightarrow> 'vk \<Rightarrow> signed_event \<Rightarrow> int \<Rightarrow> db \<Rightarrow> (events_error + ingest_outcome) \<times> db" where
  "ingest_remote_event C vk sev received_at = transaction (ingest_body C vk sev received_at)"

section \<open>What the pieces do\<close>

text \<open>What the codecs of a peer are documented to do.\<close>

definition codecs_ok :: "('sk, 'vk, 'z) crypto_scheme \<Rightarrow> bool" where
  "codecs_ok C \<longleftrightarrow> hex_codec C \<and> base32_codec C \<and> blake3_digest C \<and> sign_verify C"

lemma transaction_simps:
  "body d = Inl e \<Longrightarrow> transaction body d = (Inl e, d)"
  "body d = Inr (a, d') \<Longrightarrow> transaction body d = (Inr a, d')"
  by (simp_all add: transaction_def)

lemma transaction_cases:
  obtains (failed) e where "body d = Inl e" "transaction body d = (Inl e, d)"
  | (committed) a d' where "body d = Inr (a, d')" "transaction body d = (Inr a, d')"
  by (cases "body d") (auto simp: transaction_def)

lemma event_id_derive_length: "blake3_digest C \<Longrightarrow> length (event_hash (event_id_derive C b)) = 32"
  by (simp add: event_id_derive_def hash32_derive_def blake3_digest_def)

lemma identity_peer_id_length: "blake3_digest C \<Longrightarrow> length (identity_peer_id C k) = 32"
  by (simp add: identity_peer_id_def peer_id_from_public_key_def blake3_digest_def)

lemma build_and_sign_fields:
  assumes "build_and_sign C k s prev t pl = Inr (sev, eid)"
  obtains u b b' where
    "u = \<lparr>ue_version = CURRENT_VERSION, ue_origin_peer = peer_id_to_string C (identity_peer_id C k),
          ue_sequence = s, ue_previous_event = map_option (event_id_to_hex C) prev, ue_created_at = t, ue_payload = pl\<rparr>"
    "jcs_unsigned C u = Inr b"
    "sev = \<lparr>se_unsigned = u, se_signature = hex_encode C (sign_with_domain C k EVENT_ID_DOMAIN b)\<rparr>"
    "jcs_signed C sev = Inr b'" "eid = event_id_derive C b'"
  using assms by (auto simp: build_and_sign_def Let_def)

lemma build_and_sign_verifies:
  assumes "hex_codec C" "sign_verify C" and "build_and_sign C k s prev t pl = Inr (sev, eid)"
  shows "verify_and_derive_id C sev (verifying_key C k) = Inr eid"
  using assms(3)
proof (rule build_and_sign_fields)
  fix u b b'
  let ?sig = "sign_with_domain C k EVENT_ID_DOMAIN b"
  assume b: "jcs_unsigned C u = Inr b" "jcs_signed C sev = Inr b'" "eid = event_id_derive C b'"
    and sev: "sev = \<lparr>se_unsigned = u, se_signature = hex_encode C ?sig\<rparr>"
  have "length ?sig = 64" using assms(2) by (simp add: sign_with_domain_def sign_verify_def)
  moreover have "hex_decode C (hex_encode C ?sig) = Inr ?sig" using assms(1) by (simp add: hex_codec_def)
  ultimately show ?thesis
    using b sev sign_verify_round_trip [OF assms(2), of k EVENT_ID_DOMAIN b]
    by (simp add: verify_and_derive_id_def)
qed

lemma build_and_sign_accepted:
  assumes "codecs_ok C" and "build_and_sign C k s prev t pl = Inr (sev, eid)"
    and "\<And>h. prev = Some h \<Longrightarrow> length (event_hash h) = 32"
  shows "check_origin C (verifying_key C k) sev = Inr (eid, identity_peer_id C k, prev)"
proof -
  have ok: "hex_codec C" "base32_codec C" "blake3_digest C" "sign_verify C"
    using assms(1) by (simp_all add: codecs_ok_def)
  have u: "ue_origin_peer (se_unsigned sev) = peer_id_to_string C (identity_peer_id C k)"
    "ue_previous_event (se_unsigned sev) = map_option (event_id_to_hex C) prev"
    using assms(2) by (auto elim!: build_and_sign_fields)
  have "transpose_opt (map_option (\<lambda>s. res_map_err IdError (event_id_from_str C s))
      (map_option (event_id_to_hex C) prev)) = Inr prev"
    using assms(3) by (cases prev) (simp_all add: event_id_round_trip [OF ok(1)])
  moreover have "peer_id_from_str C (peer_id_to_string C (identity_peer_id C k)) = Inr (identity_peer_id C k)"
    using ok by (simp add: peer_id_round_trip identity_peer_id_length)
  ultimately show ?thesis
    using build_and_sign_verifies [OF ok(1,4) assms(2)] u
    by (simp add: check_origin_def Let_def identity_peer_id_def)
qed

lemma check_origin_parts:
  assumes "check_origin C vk sev = Inr (eid, p, prev)"
  obtains b bytes where "jcs_signed C sev = Inr b" "eid = event_id_derive C b"
    "hex_decode C (se_signature sev) = Inr bytes" "length bytes = 64"
    "peer_id_from_str C (ue_origin_peer (se_unsigned sev)) = Inr p" "p = peer_id_from_public_key C vk"
    "transpose_opt (map_option (\<lambda>s. res_map_err IdError (event_id_from_str C s))
       (ue_previous_event (se_unsigned sev))) = Inr prev"
  using assms by (auto simp: check_origin_def verify_and_derive_id_def Let_def split: if_splits)

section \<open>Projection inside a transaction\<close>

lemma project_Inl: "project_graph C eid t pl (graph d) = Inl e \<Longrightarrow> project C eid t pl d = Inl e"
  by (simp add: project_def)

lemma project_logged:
  assumes "has_key er_event_id (events d) eid" and "project_graph C eid t pl (graph d) = Inr (out, g, rs)"
  obtains new where "project C eid t pl d = Inr (out, d\<lparr>graph := g, event_refs := event_refs d @ new\<rparr>)"
    "Pair eid ` set rs \<subseteq> set (event_refs d @ new)" "set new \<subseteq> Pair eid ` set rs"
proof -
  obtain d' where d': "add_refs eid rs (d\<lparr>graph := g\<rparr>) = Inr d'"
    using add_refs_logged [of "d\<lparr>graph := g\<rparr>" eid rs] assms(1) by auto
  from add_refs_frame [OF d'] obtain new where "d' = d\<lparr>graph := g, event_refs := event_refs d @ new\<rparr>"
    "set new \<subseteq> Pair eid ` set rs" by auto
  with d' assms(2) add_refs_contains [OF d'] that show thesis by (auto simp: project_def)
qed

lemma project_InrD:
  assumes "project C eid t pl d = Inr (out, d')"
  obtains g rs new where "project_graph C eid t pl (graph d) = Inr (out, g, rs)"
    "d' = d\<lparr>graph := g, event_refs := event_refs d @ new\<rparr>" "Pair eid ` set rs \<subseteq> set (event_refs d')"
proof -
  obtain g rs where g: "project_graph C eid t pl (graph d) = Inr (out, g, rs)"
    "add_refs eid rs (d\<lparr>graph := g\<rparr>) = Inr d'"
    using assms by (auto simp: project_def)
  with add_refs_frame [OF g(2)] add_refs_contains [OF g(2)] that show thesis by auto
qed

end
