(* ===== verification/GraphInv.thy ===== *)
theory GraphInv
  imports Projector "HOL-Library.Sublist"
begin

text \<open>
  The invariant of the projection tables: primary keys are distinct, every foreign key resolves,
  node and edge ids are the hashes of what they name, and every enumeration column holds a name its
  decoder accepts. Every statement of the repository modules keeps it, and so does the projection
  of any event. The theory also holds the functional behaviour of the lifecycle events and of API
  keys.
\<close>

section \<open>The invariant\<close>

definition nodes_ok :: "('sk, 'vk, 'z) crypto_scheme \<Rightarrow> graph \<Rightarrow> bool" where
  "nodes_ok C g \<longleftrightarrow>
     distinct (map node_id (nodes g)) \<and>
     list_all (\<lambda>n. node_id n = node_id_from_canonical_identifier C (node_canonical_identifier n)) (nodes g)"

definition edges_ok :: "('sk, 'vk, 'z) crypto_scheme \<Rightarrow> graph \<Rightarrow> bool" where
  "edges_ok C g \<longleftrightarrow>
     distinct (map edge_id (edges g)) \<and>
     list_all (\<lambda>e. edge_id e = edge_id_from_triple C (edge_subject e) (edge_predicate e) (edge_object e) \<and>
                 has_key node_id (nodes g) (edge_subject e) \<and> has_key node_id (nodes g) (edge_object e))
       (edges g)"

definition aliases_ok :: "graph \<Rightarrow> bool" where
  "aliases_ok g \<longleftrightarrow>
     distinct (map (\<lambda>r. (ar_node_id r, ar_alias r)) (node_aliases g)) \<and>
     list_all (\<lambda>r. has_key node_id (nodes g) (ar_node_id r) \<and> alias_type_parse (ar_alias_type r) \<noteq> None) (node_aliases g)"

definition actors_ok :: "graph \<Rightarrow> bool" where
  "actors_ok g \<longleftrightarrow>
     distinct (map ac_id (actors g)) \<and>
     list_all (\<lambda>r. actor_type_parse (ac_actor_type r) \<noteq> None) (actors g)"

definition keys_ok :: "graph \<Rightarrow> bool" where
  "keys_ok g \<longleftrightarrow>
     distinct (map ak_key_hash (actor_keys g)) \<and>
     list_all (\<lambda>r. has_key ac_id (actors g) (ak_actor_id r)) (actor_keys g)"

definition assertions_ok :: "graph \<Rightarrow> bool" where
  "assertions_ok g \<longleftrightarrow>
     distinct (map as_id (assertions g)) \<and>
     list_all (\<lambda>r. has_key edge_id (edges g) (as_edge_id r) \<and> has_key ac_id (actors g) (as_actor_id r) \<and>
                 extraction_method_parse (as_extraction_method r) \<noteq> None \<and>
                 assertion_status_parse (as_status r) \<noteq> None) (assertions g)"

definition evidence_ok :: "graph \<Rightarrow> bool" where
  "evidence_ok g \<longleftrightarrow>
     distinct (map ev_id (evidences g)) \<and>
     list_all (\<lambda>r. has_key as_id (assertions g) (ev_assertion_id r) \<and>
                 evidence_type_parse (ev_evidence_type r) \<noteq> None) (evidences g)"

definition lifecycle_ok :: "graph \<Rightarrow> bool" where
  "lifecycle_ok g \<longleftrightarrow>
     distinct (map ob_id (observations g)) \<and> distinct (map dp_id (disputes g)) \<and>
     distinct (map rt_id (retractions g)) \<and> distinct (map su_id (supersessions g)) \<and>
     list_all (\<lambda>r. has_key as_id (assertions g) (ob_assertion_id r) \<and> has_key ac_id (actors g) (ob_actor_id r)) (observations g) \<and>
     list_all (\<lambda>r. has_key as_id (assertions g) (dp_assertion_id r) \<and> has_key ac_id (actors g) (dp_actor_id r)) (disputes g) \<and>
     list_all (\<lambda>r. has_key as_id (assertions g) (rt_assertion_id r) \<and> has_key ac_id (actors g) (rt_actor_id r)) (retractions g) \<and>
     list_all (\<lambda>r. has_key as_id (assertions g) (su_old_assertion_id r) \<and>
                 has_key as_id (assertions g) (su_new_assertion_id r) \<and> has_key ac_id (actors g) (su_actor_id r)) (supersessions g)"

definition graph_ok :: "('sk, 'vk, 'z) crypto_scheme \<Rightarrow> graph \<Rightarrow> bool" where
  "graph_ok C g \<longleftrightarrow>
     nodes_ok C g \<and> edges_ok C g \<and> aliases_ok g \<and> actors_ok g \<and> keys_ok g \<and> assertions_ok g \<and>
     evidence_ok g \<and> lifecycle_ok g"

lemmas graph_ok_defs = graph_ok_def nodes_ok_def edges_ok_def aliases_ok_def actors_ok_def keys_ok_def
  assertions_ok_def evidence_ok_def lifecycle_ok_def

lemma graph_ok_empty: "graph_ok C empty_graph"
  by (simp add: graph_ok_defs empty_graph_def)

section \<open>Which tables each part reads\<close>

lemma part_frames [table_simps]:
  "nodes_ok C (g\<lparr>node_aliases := node_aliases_x\<rparr>) = nodes_ok C g"
  "nodes_ok C (g\<lparr>edges := edges_x\<rparr>) = nodes_ok C g"
  "nodes_ok C (g\<lparr>actors := actors_x\<rparr>) = nodes_ok C g"
  "nodes_ok C (g\<lparr>actor_keys := actor_keys_x\<rparr>) = nodes_ok C g"
  "nodes_ok C (g\<lparr>assertions := assertions_x\<rparr>) = nodes_ok C g"
  "nodes_ok C (g\<lparr>evidences := evidences_x\<rparr>) = nodes_ok C g"
  "nodes_ok C (g\<lparr>observations := observations_x\<rparr>) = nodes_ok C g"
  "nodes_ok C (g\<lparr>disputes := disputes_x\<rparr>) = nodes_ok C g"
  "nodes_ok C (g\<lparr>retractions := retractions_x\<rparr>) = nodes_ok C g"
  "nodes_ok C (g\<lparr>supersessions := supersessions_x\<rparr>) = nodes_ok C g"
  "edges_ok C (g\<lparr>node_aliases := node_aliases_x\<rparr>) = edges_ok C g"
  "edges_ok C (g\<lparr>actors := actors_x\<rparr>) = edges_ok C g"
  "edges_ok C (g\<lparr>actor_keys := actor_keys_x\<rparr>) = edges_ok C g"
  "edges_ok C (g\<lparr>assertions := assertions_x\<rparr>) = edges_ok C g"
  "edges_ok C (g\<lparr>evidences := evidences_x\<rparr>) = edges_ok C g"
  "edges_ok C (g\<lparr>observations := observations_x\<rparr>) = edges_ok C g"
  "edges_ok C (g\<lparr>disputes := disputes_x\<rparr>) = edges_ok C g"
  "edges_ok C (g\<lparr>retractions := retractions_x\<rparr>) = edges_ok C g"
  "edges_ok C (g\<lparr>supersessions := supersessions_x\<rparr>) = edges_ok C g"
  "aliases_ok (g\<lparr>edges := edges_x\<rparr>) = aliases_ok g"
  "aliases_ok (g\<lparr>actors := actors_x\<rparr>) = aliases_ok g"
  "aliases_ok (g\<lparr>actor_keys := actor_keys_x\<rparr>) = aliases_ok g"
  "aliases_ok (g\<lparr>assertions := assertions_x\<rparr>) = aliases_ok g"
  "aliases_ok (g\<lparr>evidences := evidences_x\<rparr>) = aliases_ok g"
  "aliases_ok (g\<lparr>observations := observations_x\<rparr>) = aliases_ok g"
  "aliases_ok (g\<lparr>disputes := disputes_x\<rparr>) = aliases_ok g"
  "aliases_ok (g\<lparr>retractions := retractions_x\<rparr>) = aliases_ok g"
  "aliases_ok (g\<lparr>supersessions := supersessions_x\<rparr>) = aliases_ok g"
  "actors_ok (g\<lparr>nodes := nodes_x\<rparr>) = actors_ok g"
  "actors_ok (g\<lparr>node_aliases := node_aliases_x\<rparr>) = actors_ok g"
  "actors_ok (g\<lparr>edges := edges_x\<rparr>) = actors_ok g"
  "actors_ok (g\<lparr>actor_keys := actor_keys_x\<rparr>) = actors_ok g"
  "actors_ok (g\<lparr>assertions := assertions_x\<rparr>) = actors_ok g"
  "actors_ok (g\<lparr>evidences := evidences_x\<rparr>) = actors_ok g"
  "actors_ok (g\<lparr>observations := observations_x\<rparr>) = actors_ok g"
  "actors_ok (g\<lparr>disputes := disputes_x\<rparr>) = actors_ok g"
  "actors_ok (g\<lparr>retractions := retractions_x\<rparr>) = actors_ok g"
  "actors_ok (g\<lparr>supersessions := supersessions_x\<rparr>) = actors_ok g"
  "keys_ok (g\<lparr>nodes := nodes_x\<rparr>) = keys_ok g"
  "keys_ok (g\<lparr>node_aliases := node_aliases_x\<rparr>) = keys_ok g"
  "keys_ok (g\<lparr>edges := edges_x\<rparr>) = keys_ok g"
  "keys_ok (g\<lparr>assertions := assertions_x\<rparr>) = keys_ok g"
  "keys_ok (g\<lparr>evidences := evidences_x\<rparr>) = keys_ok g"
  "keys_ok (g\<lparr>observations := observations_x\<rparr>) = keys_ok g"
  "keys_ok (g\<lparr>disputes := disputes_x\<rparr>) = keys_ok g"
  "keys_ok (g\<lparr>retractions := retractions_x\<rparr>) = keys_ok g"
  "keys_ok (g\<lparr>supersessions := supersessions_x\<rparr>) = keys_ok g"
  "assertions_ok (g\<lparr>nodes := nodes_x\<rparr>) = assertions_ok g"
  "assertions_ok (g\<lparr>node_aliases := node_aliases_x\<rparr>) = assertions_ok g"
  "assertions_ok (g\<lparr>actor_keys := actor_keys_x\<rparr>) = assertions_ok g"
  "assertions_ok (g\<lparr>evidences := evidences_x\<rparr>) = assertions_ok g"
  "assertions_ok (g\<lparr>observations := observations_x\<rparr>) = assertions_ok g"
  "assertions_ok (g\<lparr>disputes := disputes_x\<rparr>) = assertions_ok g"
  "assertions_ok (g\<lparr>retractions := retractions_x\<rparr>) = assertions_ok g"
  "assertions_ok (g\<lparr>supersessions := supersessions_x\<rparr>) = assertions_ok g"
  "evidence_ok (g\<lparr>nodes := nodes_x\<rparr>) = evidence_ok g"
  "evidence_ok (g\<lparr>node_aliases := node_aliases_x\<rparr>) = evidence_ok g"
  "evidence_ok (g\<lparr>edges := edges_x\<rparr>) = evidence_ok g"
  "evidence_ok (g\<lparr>actors := actors_x\<rparr>) = evidence_ok g"
  "evidence_ok (g\<lparr>actor_keys := actor_keys_x\<rparr>) = evidence_ok g"
  "evidence_ok (g\<lparr>observations := observations_x\<rparr>) = evidence_ok g"
  "evidence_ok (g\<lparr>disputes := disputes_x\<rparr>) = evidence_ok g"
  "evidence_ok (g\<lparr>retractions := retractions_x\<rparr>) = evidence_ok g"
  "evidence_ok (g\<lparr>supersessions := supersessions_x\<rparr>) = evidence_ok g"
  "lifecycle_ok (g\<lparr>nodes := nodes_x\<rparr>) = lifecycle_ok g"
  "lifecycle_ok (g\<lparr>node_aliases := node_aliases_x\<rparr>) = lifecycle_ok g"
  "lifecycle_ok (g\<lparr>edges := edges_x\<rparr>) = lifecycle_ok g"
  "lifecycle_ok (g\<lparr>actor_keys := actor_keys_x\<rparr>) = lifecycle_ok g"
  "lifecycle_ok (g\<lparr>evidences := evidences_x\<rparr>) = lifecycle_ok g"
  by (simp_all add: nodes_ok_def edges_ok_def aliases_ok_def actors_ok_def keys_ok_def
      assertions_ok_def evidence_ok_def lifecycle_ok_def)

section \<open>Every statement keeps it\<close>

lemma has_key_in_map: "has_key key rows k \<longleftrightarrow> k \<in> set (map key rows)"
  by (simp add: has_key_def)

lemma nodes_insert_if_missing_ok:
  assumes "graph_ok C g" and "node_id n = node_id_from_canonical_identifier C (node_canonical_identifier n)"
  shows "graph_ok C (nodes_insert_if_missing n g)"
  using assms unfolding nodes_insert_if_missing_def graph_ok_def
  by (simp add: table_simps) (auto simp: nodes_ok_def edges_ok_def aliases_ok_def has_key_in_map list_all_iff)

lemma edges_insert_if_missing_ok:
  assumes "graph_ok C g" and "edges_insert_if_missing e g = Inr g'"
    and "edge_id e = edge_id_from_triple C (edge_subject e) (edge_predicate e) (edge_object e)"
  shows "graph_ok C g'"
proof -
  have "edges_ok C (g\<lparr>edges := edges g @ [e]\<rparr>)" if "\<not> has_key edge_id (edges g) (edge_id e)"
    "has_key node_id (nodes g) (edge_subject e)" "has_key node_id (nodes g) (edge_object e)"
    using assms(1,3) that by (auto simp: graph_ok_def edges_ok_def has_key_in_map)
  moreover have "assertions_ok (g\<lparr>edges := edges g @ [e]\<rparr>)"
    using assms(1) by (auto simp: graph_ok_def assertions_ok_def list_all_iff)
  ultimately show ?thesis
    using assms(1,2) by (auto simp: edges_insert_if_missing_def graph_ok_def table_simps split: if_splits)
qed

lemma nodes_insert_alias_ok:
  assumes "graph_ok C g" and "nodes_insert_alias a g = Inr g'"
  shows "graph_ok C g'"
proof -
  let ?r = "\<lparr>ar_node_id = alias_node_id a, ar_alias = alias_text a,
             ar_alias_type = alias_type_as_str (alias_kind a), ar_source_assertion = alias_source_assertion a\<rparr>"
  have "aliases_ok (g\<lparr>node_aliases := node_aliases g @ [?r]\<rparr>)"
    if "\<not> has_key (\<lambda>r. (ar_node_id r, ar_alias r)) (node_aliases g) (alias_node_id a, alias_text a)"
      "has_key node_id (nodes g) (alias_node_id a)"
    using assms(1) that by (auto simp: graph_ok_def aliases_ok_def has_key_in_map alias_kind.parse_as_str)
  then show ?thesis
    using assms by (auto simp: nodes_insert_alias_def graph_ok_def table_simps split: if_splits)
qed

lemma assertions_insert_ok:
  assumes "graph_ok C g" and "assertions_insert a g = Inr g'"
  shows "graph_ok C g'"
proof -
  let ?g = "g\<lparr>assertions := assertions g @ [assertion_to_row a]\<rparr>"
  have "assertions_ok ?g" if "\<not> has_key as_id (assertions g) (assertion_id a)"
      "has_key edge_id (edges g) (assertion_edge_id a)" "has_key ac_id (actors g) (assertion_actor_id a)"
    using assms(1) that
    by (auto simp: graph_ok_def assertions_ok_def has_key_in_map assertion_to_row_def
        extraction.parse_as_str status.parse_as_str)
  moreover have "evidence_ok ?g" using assms(1) by (auto simp: graph_ok_def evidence_ok_def list_all_iff)
  moreover have "lifecycle_ok ?g" using assms(1) by (simp add: graph_ok_def lifecycle_ok_def list_all_iff)
  ultimately show ?thesis
    using assms by (auto simp: assertions_insert_def graph_ok_def table_simps split: if_splits)
qed

lemma assertions_set_status_ok:
  assumes "graph_ok C g"
  shows "graph_ok C (assertions_set_status i st g)"
proof -
  let ?u = "update_where (\<lambda>r. as_id r = i) (\<lambda>r. r\<lparr>as_status := assertion_status_as_str st\<rparr>) (assertions g)"
  have has: "has_key as_id ?u k \<longleftrightarrow> has_key as_id (assertions g) k" for k
    by (rule has_key_update) simp
  have "assertions_ok (g\<lparr>assertions := ?u\<rparr>)"
    using assms by (auto simp: graph_ok_def assertions_ok_def status.parse_as_str intro!: list_all_update_where)
  moreover have "evidence_ok (g\<lparr>assertions := ?u\<rparr>)" "lifecycle_ok (g\<lparr>assertions := ?u\<rparr>)"
    using assms by (simp_all add: graph_ok_def evidence_ok_def lifecycle_ok_def has)
  ultimately show ?thesis
    using assms by (simp add: assertions_set_status_def graph_ok_def table_simps)
qed

lemma insert_evidence_ok:
  assumes "graph_ok C g" and "insert_evidence e g = Inr g'"
  shows "graph_ok C g'"
  using assms
  by (auto simp: insert_evidence_def graph_ok_def table_simps split: if_splits)
    (auto simp: evidence_ok_def has_key_in_map evidence_kind.parse_as_str)

lemma insert_dispute_ok: "graph_ok C g \<Longrightarrow> insert_dispute x g = Inr g' \<Longrightarrow> graph_ok C g'"
  by (auto simp: insert_dispute_def graph_ok_def table_simps split: if_splits)
    (auto simp: lifecycle_ok_def has_key_in_map)

lemma insert_retraction_ok: "graph_ok C g \<Longrightarrow> insert_retraction x g = Inr g' \<Longrightarrow> graph_ok C g'"
  by (auto simp: insert_retraction_def graph_ok_def table_simps split: if_splits)
    (auto simp: lifecycle_ok_def has_key_in_map)

lemma insert_supersession_ok: "graph_ok C g \<Longrightarrow> insert_supersession x g = Inr g' \<Longrightarrow> graph_ok C g'"
  by (auto simp: insert_supersession_def graph_ok_def table_simps split: if_splits)
    (auto simp: lifecycle_ok_def has_key_in_map)

lemma insert_observation_ok: "graph_ok C g \<Longrightarrow> insert_observation x g = Inr g' \<Longrightarrow> graph_ok C g'"
  by (auto simp: insert_observation_def graph_ok_def table_simps split: if_splits)
    (auto simp: lifecycle_ok_def has_key_in_map)

lemma actors_insert_ok:
  assumes "graph_ok C g"
  shows "graph_ok C (actors_insert a g)"
proof -
  have "actors_ok (g\<lparr>actors := actors g @ [r]\<rparr>)"
    if "\<not> has_key ac_id (actors g) (ac_id r)" "actor_type_parse (ac_actor_type r) \<noteq> None" for r
    using assms that by (auto simp: graph_ok_def actors_ok_def has_key_in_map)
  moreover have "keys_ok (g\<lparr>actors := actors g @ [r]\<rparr>)" "assertions_ok (g\<lparr>actors := actors g @ [r]\<rparr>)"
    "lifecycle_ok (g\<lparr>actors := actors g @ [r]\<rparr>)" for r
    using assms by (simp_all add: graph_ok_def keys_ok_def assertions_ok_def lifecycle_ok_def list_all_iff)
  ultimately show ?thesis
    using assms by (simp add: actors_insert_def graph_ok_def table_simps actor_kind.parse_as_str)
qed

lemma create_key_ok: "graph_ok C g \<Longrightarrow> create_key k a ps t g = Inr g' \<Longrightarrow> graph_ok C g'"
  by (auto simp: create_key_def graph_ok_def table_simps split: if_splits)
    (auto simp: keys_ok_def has_key_in_map)

lemma revoke_key_ok:
  assumes "graph_ok C g"
  shows "graph_ok C (snd (revoke_key k t g))"
proof -
  let ?u = "update_where (\<lambda>r. ak_key_hash r = k \<and> ak_revoked_at r = None) (\<lambda>r. r\<lparr>ak_revoked_at := Some t\<rparr>) (actor_keys g)"
  have "keys_ok (g\<lparr>actor_keys := ?u\<rparr>)"
    using assms by (auto simp: graph_ok_def keys_ok_def intro!: list_all_update_where)
  then show ?thesis
    using assms by (simp add: revoke_key_def Let_def graph_ok_def table_simps)
qed

lemmas statement_ok = nodes_insert_if_missing_ok edges_insert_if_missing_ok nodes_insert_alias_ok
  assertions_insert_ok assertions_set_status_ok insert_evidence_ok insert_dispute_ok insert_retraction_ok
  insert_supersession_ok insert_observation_ok actors_insert_ok create_key_ok revoke_key_ok

section \<open>Projection keeps it\<close>

lemma node_new_id [simp]:
  "node_id (node_new C ntype identifier t) = node_id_from_canonical_identifier C identifier"
  "node_canonical_identifier (node_new C ntype identifier t) = identifier"
  by (simp_all add: node_new_def)

lemma edge_new_id [simp]:
  "edge_id (edge_new C s p o' t) = edge_id_from_triple C s p o'"
  "edge_subject (edge_new C s p o' t) = s"
  "edge_predicate (edge_new C s p o' t) = p"
  "edge_object (edge_new C s p o' t) = o'"
  by (simp_all add: edge_new_def)

lemma resolve_or_create_node_ok:
  "graph_ok C g \<Longrightarrow> resolve_or_create_node C identifier ntype t g = (i, g') \<Longrightarrow> graph_ok C g'"
  by (auto simp: resolve_or_create_node_def Let_def intro!: nodes_insert_if_missing_ok split: if_splits)

lemma project_assert_relation_steps:
  assumes "project_assert_relation C eid t p g = Inr (g', rs)"
  obtains s g1 ob g2 g3 a m where
    "resolve_or_create_node C (asr_subject_identifier p) (asr_subject_type p) t g = (s, g1)"
    "resolve_or_create_node C (asr_object_identifier p) (asr_object_type p) t g1 = (ob, g2)"
    "edges_insert_if_missing (edge_new C s (predicate_new (asr_predicate p)) ob t) g2 = Inr g3"
    "actor_id_from_str C (asr_actor_id p) = Inr a"
    "extraction_method_parse (asr_extraction_method p) = Some m"
    "assertions_insert
       \<lparr>assertion_id = eid, assertion_edge_id = edge_id_from_triple C s (predicate_new (asr_predicate p)) ob,
        assertion_actor_id = a, assertion_confidence = asr_actor_confidence p,
        assertion_observed_at = asr_observed_at p, assertion_asserted_at = t,
        assertion_method = m, assertion_status = Active\<rparr> g3 = Inr g'"
proof -
  obtain s g1 where 1: "resolve_or_create_node C (asr_subject_identifier p) (asr_subject_type p) t g = (s, g1)"
    by fastforce
  obtain ob g2 where 2: "resolve_or_create_node C (asr_object_identifier p) (asr_object_type p) t g1 = (ob, g2)"
    by fastforce
  from assms 1 2 that show thesis
    by (auto simp: project_assert_relation_def Let_def)
qed

lemma project_assert_relation_ok:
  assumes "graph_ok C g" and "project_assert_relation C eid t p g = Inr (g', rs)"
  shows "graph_ok C g'"
  using assms(2)
proof (rule project_assert_relation_steps)
  fix s g1 ob g2 g3 a m
  assume "resolve_or_create_node C (asr_subject_identifier p) (asr_subject_type p) t g = (s, g1)"
    and "resolve_or_create_node C (asr_object_identifier p) (asr_object_type p) t g1 = (ob, g2)"
  then have "graph_ok C g2" using assms(1) by (blast intro: resolve_or_create_node_ok)
  moreover assume e: "edges_insert_if_missing (edge_new C s (predicate_new (asr_predicate p)) ob t) g2 = Inr g3"
  ultimately have "graph_ok C g3" by (rule edges_insert_if_missing_ok) simp
  moreover assume "assertions_insert
       \<lparr>assertion_id = eid, assertion_edge_id = edge_id_from_triple C s (predicate_new (asr_predicate p)) ob,
        assertion_actor_id = a, assertion_confidence = asr_actor_confidence p,
        assertion_observed_at = asr_observed_at p, assertion_asserted_at = t,
        assertion_method = m, assertion_status = Active\<rparr> g3 = Inr g'"
  ultimately show ?thesis by (rule assertions_insert_ok)
qed

lemma project_graph_ok:
  assumes "graph_ok C g" and "project_graph C eid t payload g = Inr (out, g', rs)"
  shows "graph_ok C g'"
proof (cases payload)
  case (AssertRelation p)
  with assms show ?thesis
    by (auto simp: project_graph_def intro: project_assert_relation_ok)
next
  case (AddEvidence p)
  with assms show ?thesis
    by (auto simp: project_graph_def project_add_evidence_def intro: insert_evidence_ok)
next
  case (VerifyAssertion p)
  with assms show ?thesis
    by (auto simp: project_graph_def project_verify_assertion_def intro: insert_observation_ok)
next
  case (DisputeAssertion p)
  with assms show ?thesis
    by (auto simp: project_graph_def project_dispute_assertion_def
        intro: insert_dispute_ok intro!: assertions_set_status_ok)
next
  case (RetractAssertion p)
  with assms show ?thesis
    by (auto simp: project_graph_def project_retract_assertion_def
        intro: insert_retraction_ok intro!: assertions_set_status_ok)
next
  case (SupersedeAssertion p)
  with assms show ?thesis
    by (auto simp: project_graph_def project_supersede_assertion_def
        intro: insert_supersession_ok intro!: assertions_set_status_ok)
next
  case (ActorDeclare p)
  with assms show ?thesis
    by (auto simp: project_graph_def project_actor_declare_def Let_def intro: actors_insert_ok)
next
  case (ActorKeyAdd p)
  with assms show ?thesis
    by (auto simp: project_graph_def project_actor_key_add_def intro: create_key_ok)
next
  case (ActorKeyRevoke p)
  with assms show ?thesis
    by (auto simp: project_graph_def project_actor_key_revoke_def intro: revoke_key_ok)
next
  case (NodeAlias p)
  with assms show ?thesis
    by (auto simp: project_graph_def project_node_alias_def split: if_splits)
      (erule nodes_insert_alias_ok [OF assms(1)])
qed

section \<open>Projection never deletes or rewrites a row\<close>

text \<open>
  \<open>grows g g'\<close>: every table of \<open>g'\<close> is the table of \<open>g\<close> followed by new rows, up to the
  status column of assertions and the revocation column of keys.
\<close>

definition grows :: "graph \<Rightarrow> graph \<Rightarrow> bool" where
  "grows g g' \<longleftrightarrow>
     prefix (nodes g) (nodes g') \<and> prefix (node_aliases g) (node_aliases g') \<and> prefix (edges g) (edges g') \<and>
     prefix (actors g) (actors g') \<and> prefix (evidences g) (evidences g') \<and>
     prefix (observations g) (observations g') \<and> prefix (disputes g) (disputes g') \<and>
     prefix (retractions g) (retractions g') \<and> prefix (supersessions g) (supersessions g') \<and>
     prefix (map (\<lambda>r. r\<lparr>as_status := []\<rparr>) (assertions g)) (map (\<lambda>r. r\<lparr>as_status := []\<rparr>) (assertions g')) \<and>
     prefix (map (\<lambda>r. r\<lparr>ak_revoked_at := None\<rparr>) (actor_keys g)) (map (\<lambda>r. r\<lparr>ak_revoked_at := None\<rparr>) (actor_keys g'))"

lemma grows_refl [simp]: "grows g g"
  by (simp add: grows_def)

lemma grows_trans [trans]: "grows a b \<Longrightarrow> grows b c \<Longrightarrow> grows a c"
  unfolding grows_def by (meson prefix_order.trans)

lemma grows_insert_rows:
  "grows g (nodes_insert_if_missing n g)"
  "grows g (actors_insert a g)"
  "grows g (assertions_set_status i st g)"
  "grows g (snd (revoke_key k t g))"
  by (simp_all add: grows_def nodes_insert_if_missing_def actors_insert_def assertions_set_status_def revoke_key_def
      Let_def)

lemma grows_insert_checked:
  "edges_insert_if_missing e g = Inr g' \<Longrightarrow> grows g g'"
  "nodes_insert_alias x g = Inr g' \<Longrightarrow> grows g g'"
  "assertions_insert as g = Inr g' \<Longrightarrow> grows g g'"
  "insert_evidence ev g = Inr g' \<Longrightarrow> grows g g'"
  "insert_dispute dp g = Inr g' \<Longrightarrow> grows g g'"
  "insert_retraction rt g = Inr g' \<Longrightarrow> grows g g'"
  "insert_supersession su g = Inr g' \<Longrightarrow> grows g g'"
  "insert_observation ob g = Inr g' \<Longrightarrow> grows g g'"
  "create_key k ac ps t g = Inr g' \<Longrightarrow> grows g g'"
  by (auto simp: grows_def edges_insert_if_missing_def nodes_insert_alias_def assertions_insert_def insert_evidence_def
      insert_dispute_def insert_retraction_def insert_supersession_def insert_observation_def create_key_def
      split: if_splits)

lemma grows_set_status: "grows g g' \<Longrightarrow> grows g (assertions_set_status i st g')"
  using grows_trans grows_insert_rows(3) by blast

lemma resolve_or_create_node_grows: "resolve_or_create_node C i nt t g = (n, g') \<Longrightarrow> grows g g'"
  by (auto simp: resolve_or_create_node_def Let_def grows_insert_rows split: if_splits)

lemma project_assert_relation_grows: "project_assert_relation C eid t p g = Inr (g', rs) \<Longrightarrow> grows g g'"
  by (erule project_assert_relation_steps)
    (meson grows_trans resolve_or_create_node_grows grows_insert_checked)

lemma project_graph_grows:
  assumes "project_graph C eid t pl g = Inr (out, g', rs)"
  shows "grows g g'"
proof (cases pl)
  case (AssertRelation p)
  with assms show ?thesis by (auto simp: project_graph_def intro: project_assert_relation_grows)
next
  case (ActorDeclare p)
  with assms show ?thesis
    by (auto simp: project_graph_def project_actor_declare_def Let_def grows_insert_rows)
next
  case (ActorKeyRevoke p)
  with assms show ?thesis by (auto simp: project_graph_def project_actor_key_revoke_def grows_insert_rows)
next
  case (NodeAlias p)
  with assms show ?thesis
    by (auto simp: project_graph_def project_node_alias_def split: if_splits) (erule grows_insert_checked(2))
qed (use assms in \<open>auto simp: project_graph_def project_add_evidence_def project_verify_assertion_def
      project_dispute_assertion_def project_retract_assertion_def project_supersede_assertion_def
      project_actor_key_add_def intro: grows_insert_checked intro!: grows_set_status\<close>)

lemma grows_has_actor: "grows g g' \<Longrightarrow> has_key ac_id (actors g) a \<Longrightarrow> has_key ac_id (actors g') a"
  by (auto simp: grows_def has_key_def dest: set_mono_prefix)

section \<open>Assertions and their status\<close>

lemma row_to_assertion_total:
  assumes "assertions_ok g" "r \<in> set (assertions g)"
  obtains a where "row_to_assertion r = Inr a"
  using assms by (auto simp: assertions_ok_def list_all_iff row_to_assertion_def)

lemma assertions_get_by_id_total:
  assumes "graph_ok C g"
  shows "\<exists>a. assertions_get_by_id g i = Inr a \<and> (a \<noteq> None \<longleftrightarrow> has_key as_id (assertions g) i)"
proof (cases "lookup_by as_id (assertions g) i")
  case None
  then show ?thesis by (simp add: assertions_get_by_id_def lookup_by_None_iff [symmetric])
next
  case (Some r)
  then have "has_key as_id (assertions g) i" by (metis lookup_by_None_iff option.distinct(1))
  moreover have "r \<in> set (assertions g)" using lookup_by_SomeD [OF Some] by simp
  then obtain a where "row_to_assertion r = Inr a"
    using assms row_to_assertion_total by (auto simp: graph_ok_def)
  ultimately show ?thesis using Some by (simp add: assertions_get_by_id_def)
qed

lemma row_assertion_round_trip [simp]: "row_to_assertion (assertion_to_row a) = Inr a"
  by (simp add: row_to_assertion_def assertion_to_row_def extraction.parse_as_str status.parse_as_str)

lemma get_by_id_inserted:
  assumes "assertions_insert a g = Inr g'"
  shows "assertions_get_by_id g' (assertion_id a) = Inr (Some a)"
proof -
  have "lookup_by as_id (assertions g) (assertion_id a) = None" "assertions g' = assertions g @ [assertion_to_row a]"
    using assms by (auto simp: assertions_insert_def lookup_by_None_iff split: if_splits)
  moreover have "as_id (assertion_to_row a) = assertion_id a" by (simp add: assertion_to_row_def)
  ultimately show ?thesis by (simp add: assertions_get_by_id_def lookup_by_append)
qed

lemma row_to_assertion_status:
  "row_to_assertion r = Inr a \<Longrightarrow>
     row_to_assertion (r\<lparr>as_status := assertion_status_as_str st\<rparr>) = Inr (a\<lparr>assertion_status := st\<rparr>)"
  by (auto simp: row_to_assertion_def status.parse_as_str)

lemma get_by_id_set_status:
  assumes "assertions_get_by_id g i = Inr (Some a)"
  shows "assertions_get_by_id (assertions_set_status i st g) i = Inr (Some (a\<lparr>assertion_status := st\<rparr>))"
proof -
  from assms obtain r where r: "lookup_by as_id (assertions g) i = Some r" "row_to_assertion r = Inr a"
    by (cases "lookup_by as_id (assertions g) i")
      (auto simp: assertions_get_by_id_def transpose_opt_def split: sum.splits)
  then have "as_id r = i" using lookup_by_SomeD by fastforce
  with r row_to_assertion_status [OF r(2), of st] show ?thesis
    by (simp add: assertions_get_by_id_def assertions_set_status_def lookup_by_update)
qed

lemma get_by_id_set_status_other:
  "j \<noteq> i \<Longrightarrow> assertions_get_by_id (assertions_set_status i st g) j = assertions_get_by_id g j"
  by (cases "lookup_by as_id (assertions g) j")
    (auto simp: assertions_get_by_id_def assertions_set_status_def lookup_by_update dest: lookup_by_SomeD)

lemma insert_keeps_assertions:
  "insert_dispute dp g = Inr g' \<Longrightarrow> assertions g' = assertions g"
  "insert_retraction rt g = Inr g' \<Longrightarrow> assertions g' = assertions g"
  "insert_supersession su g = Inr g' \<Longrightarrow> assertions g' = assertions g"
  by (auto simp: insert_dispute_def insert_retraction_def insert_supersession_def split: if_splits)

lemma get_by_id_cong: "assertions g' = assertions g \<Longrightarrow> assertions_get_by_id g' = assertions_get_by_id g"
  by (rule ext) (simp add: assertions_get_by_id_def)

text \<open>The assertion whose status a lifecycle event changes, and the status it gets.\<close>

fun lifecycle_target ::
  "('sk, 'vk, 'z) crypto_scheme \<Rightarrow> event_payload \<Rightarrow> (hash32_parse_error + assertion_id) \<times> assertion_status" where
  "lifecycle_target C (DisputeAssertion p) = (event_id_from_str C (dsp_assertion_id p), Disputed)"
| "lifecycle_target C (RetractAssertion p) = (event_id_from_str C (ret_assertion_id p), Retracted)"
| "lifecycle_target C (SupersedeAssertion p) = (event_id_from_str C (sup_old_assertion_id p), Superseded)"
| "lifecycle_target C _ = (Inl (HashWrongLength 0), Active)"

lemma require_assertion_Inr:
  "require_assertion g i s = Inr () \<longleftrightarrow> (\<exists>a. assertions_get_by_id g i = Inr (Some a))"
  by (cases "assertions_get_by_id g i") (auto simp: require_assertion_def)

lemma lifecycle_status:
  assumes "lifecycle_target C pl = (Inr i, st)" and "project_graph C eid t pl g = Inr (out, g', refs)"
  shows "\<exists>a. assertions_get_by_id g i = Inr (Some a) \<and>
     assertions_get_by_id g' i = Inr (Some (a\<lparr>assertion_status := st\<rparr>)) \<and>
     (\<forall>j. j \<noteq> i \<longrightarrow> assertions_get_by_id g' j = assertions_get_by_id g j)"
proof -
  have "\<exists>g1 a. assertions g1 = assertions g \<and> g' = assertions_set_status i st g1 \<and>
      assertions_get_by_id g i = Inr (Some a)"
    using assms
    by (cases pl)
      (auto simp: project_graph_def project_dispute_assertion_def project_retract_assertion_def
        project_supersede_assertion_def require_assertion_Inr, (metis insert_keeps_assertions)+)
  then obtain g1 a where g1: "assertions g1 = assertions g" "g' = assertions_set_status i st g1"
    and a: "assertions_get_by_id g i = Inr (Some a)" by blast
  from get_by_id_cong [OF g1(1)] a show ?thesis
    by (simp add: g1(2) get_by_id_set_status get_by_id_set_status_other)
qed

section \<open>API keys\<close>

definition key_active :: "byte list \<Rightarrow> actor_key_row \<Rightarrow> bool" where
  "key_active k r \<longleftrightarrow> ak_key_hash r = k \<and> ak_revoked_at r = None"

lemma find_active_key_create:
  assumes "create_key k a ps t g = Inr g'"
  shows "find_active_key g k = None" "find_active_key g' k = Some (a, ps)"
    "h \<noteq> k \<Longrightarrow> find_active_key g' h = find_active_key g h"
proof -
  have free: "\<forall>r\<in>set (actor_keys g). ak_key_hash r \<noteq> k"
    and g': "g' = g\<lparr>actor_keys := actor_keys g @ [\<lparr>ak_key_hash = k, ak_actor_id = a,
        ak_permissions = map permission_as_str ps, ak_created_at = t, ak_revoked_at = None\<rparr>]\<rparr>"
    using assms by (auto simp: create_key_def has_key_def split: if_splits)
  then have none: "find (\<lambda>r. ak_key_hash r = k \<and> ak_revoked_at r = None) (actor_keys g) = None"
    by (auto simp: find_None_iff)
  then show "find_active_key g k = None" by (simp add: find_active_key_def)
  from none show "find_active_key g' k = Some (a, ps)"
    by (simp add: find_active_key_def g' find_append grant.filter_map_as_str)
  show "find_active_key g' h = find_active_key g h" if "h \<noteq> k"
    using that by (simp add: find_active_key_def g' find_append split: option.split)
qed

lemma find_active_key_revoke:
  "find_active_key (snd (revoke_key k t g)) k = None"
  "h \<noteq> k \<Longrightarrow> find_active_key (snd (revoke_key k t g)) h = find_active_key g h"
proof -
  let ?u = "update_where (\<lambda>r. ak_key_hash r = k \<and> ak_revoked_at r = None) (\<lambda>r. r\<lparr>ak_revoked_at := Some t\<rparr>)"
  have "find (\<lambda>r. ak_key_hash r = k \<and> ak_revoked_at r = None) (?u rows) = None" for rows :: "actor_key_row list"
    by (induction rows) (simp_all add: update_where_def)
  then show "find_active_key (snd (revoke_key k t g)) k = None"
    by (simp add: revoke_key_def Let_def find_active_key_def)
  have "find (\<lambda>r. ak_key_hash r = h \<and> ak_revoked_at r = None) (?u rows) =
      find (\<lambda>r. ak_key_hash r = h \<and> ak_revoked_at r = None) rows" if "h \<noteq> k"
    for rows :: "actor_key_row list"
    using that by (induction rows) (simp_all add: update_where_def)
  then show "h \<noteq> k \<Longrightarrow> find_active_key (snd (revoke_key k t g)) h = find_active_key g h"
    by (simp add: revoke_key_def Let_def find_active_key_def)
qed

text \<open>Events that leave the API keys alone.\<close>

fun keyless :: "event_payload \<Rightarrow> bool" where
  "keyless (ActorKeyAdd p) \<longleftrightarrow> False"
| "keyless (ActorKeyRevoke p) \<longleftrightarrow> False"
| "keyless _ \<longleftrightarrow> True"

text \<open>Which inserts leave the keys alone.\<close>

lemma keys_insert_rows [simp]:
  "actor_keys (nodes_insert_if_missing n g) = actor_keys g"
  "actor_keys (actors_insert a g) = actor_keys g"
  "actor_keys (assertions_set_status i st g) = actor_keys g"
  by (simp_all add: nodes_insert_if_missing_def actors_insert_def assertions_set_status_def)

lemma keys_insert_checked:
  "edges_insert_if_missing e g = Inr g' \<Longrightarrow> actor_keys g' = actor_keys g"
  "nodes_insert_alias x g = Inr g' \<Longrightarrow> actor_keys g' = actor_keys g"
  "assertions_insert as g = Inr g' \<Longrightarrow> actor_keys g' = actor_keys g"
  "insert_evidence ev g = Inr g' \<Longrightarrow> actor_keys g' = actor_keys g"
  "insert_dispute dp g = Inr g' \<Longrightarrow> actor_keys g' = actor_keys g"
  "insert_retraction rt g = Inr g' \<Longrightarrow> actor_keys g' = actor_keys g"
  "insert_supersession su g = Inr g' \<Longrightarrow> actor_keys g' = actor_keys g"
  "insert_observation ob g = Inr g' \<Longrightarrow> actor_keys g' = actor_keys g"
  by (auto simp: edges_insert_if_missing_def nodes_insert_alias_def assertions_insert_def insert_evidence_def
      insert_dispute_def insert_retraction_def insert_supersession_def insert_observation_def split: if_splits)

lemma keys_resolve_or_create_node: "resolve_or_create_node C i nt t g = (n, g') \<Longrightarrow> actor_keys g' = actor_keys g"
  by (auto simp: resolve_or_create_node_def Let_def split: if_splits)

lemma project_keyless:
  assumes "project_graph C eid t pl g = Inr (out, g', refs)" "keyless pl"
  shows "actor_keys g' = actor_keys g"
proof (cases pl)
  case (AssertRelation p)
  with assms(1) have "project_assert_relation C eid t p g = Inr (g', refs)" by (auto simp: project_graph_def)
  then show ?thesis
    by (rule project_assert_relation_steps) (metis keys_resolve_or_create_node keys_insert_checked(1,3))
next
  case (NodeAlias p)
  with assms show ?thesis
    by (auto simp: project_graph_def project_node_alias_def split: if_splits) (erule keys_insert_checked(2))
next
  case (ActorDeclare p)
  with assms show ?thesis by (auto simp: project_graph_def project_actor_declare_def Let_def)
qed (use assms in \<open>auto simp: project_graph_def project_add_evidence_def project_verify_assertion_def
      project_dispute_assertion_def project_retract_assertion_def project_supersede_assertion_def
      dest: keys_insert_checked\<close>)

text \<open>
  A sequence of events offered to the tables, as a peer offers them whether they come from its own
  requests or from other peers: an event that projects takes effect, one that is refused changes
  nothing (its transaction is rolled back). An event is its id, its time and its payload.
\<close>

definition offer_event :: "('sk, 'vk, 'z) crypto_scheme \<Rightarrow> event_id \<times> int \<times> event_payload \<Rightarrow> graph \<Rightarrow> graph" where
  "offer_event C ev g =
     (case ev of (eid, t, pl) \<Rightarrow> (case project_graph C eid t pl g of Inl _ \<Rightarrow> g | Inr (_, g', _) \<Rightarrow> g'))"

definition after_events ::
  "('sk, 'vk, 'z) crypto_scheme \<Rightarrow> (event_id \<times> int \<times> event_payload) list \<Rightarrow> graph \<Rightarrow> graph" where
  "after_events C evs g = fold (offer_event C) evs g"

text \<open>The payload issues, or revokes, the key with the hash \<open>k\<close>.\<close>

fun issues :: "('sk, 'vk, 'z) crypto_scheme \<Rightarrow> byte list \<Rightarrow> event_payload \<Rightarrow> bool" where
  "issues C k (ActorKeyAdd p) \<longleftrightarrow> decode_bytes32 C (aka_key_hash p) = Inr k"
| "issues C k _ \<longleftrightarrow> False"

fun revokes :: "('sk, 'vk, 'z) crypto_scheme \<Rightarrow> byte list \<Rightarrow> event_payload \<Rightarrow> bool" where
  "revokes C k (ActorKeyRevoke p) \<longleftrightarrow> decode_bytes32 C (akr_key_hash p) = Inr k"
| "revokes C k _ \<longleftrightarrow> False"

lemma offer_keyless: "keyless pl \<Longrightarrow> actor_keys (offer_event C (eid, t, pl) g) = actor_keys g"
  using project_keyless [of C eid t pl g] by (simp add: offer_event_def split: sum.split)

lemma keyless_not_revokes: "keyless pl \<Longrightarrow> \<not> revokes C k pl"
  by (cases pl) simp_all

lemma offer_event_cases:
  obtains (same) "actor_keys (offer_event C (eid, t, pl) g) = actor_keys g" "\<And>k. \<not> revokes C k pl"
  | (created) h a ps where "create_key h a ps t g = Inr (offer_event C (eid, t, pl) g)" "issues C h pl" "\<And>k. \<not> revokes C k pl"
  | (revoked) h where "offer_event C (eid, t, pl) g = snd (revoke_key h t g)" "\<And>k. revokes C k pl \<longleftrightarrow> k = h"
  | (bad) "offer_event C (eid, t, pl) g = g" "\<And>k. \<not> revokes C k pl"
proof (cases pl)
  case (ActorKeyAdd p)
  show ?thesis
  proof (cases "project_actor_key_add C t p g")
    case (Inr g')
    then show ?thesis
      using created ActorKeyAdd
      by (auto simp: offer_event_def project_graph_def project_actor_key_add_def)
  qed (use bad ActorKeyAdd in \<open>simp add: offer_event_def project_graph_def\<close>)
next
  case (ActorKeyRevoke p)
  then show ?thesis
    using bad revoked
    by (cases "decode_bytes32 C (akr_key_hash p)")
      (auto simp: offer_event_def project_graph_def project_actor_key_revoke_def)
qed (rule same; simp add: offer_keyless keyless_not_revokes)+

lemma has_key_revoke [simp]:
  "has_key ak_key_hash (actor_keys (snd (revoke_key h t g))) k \<longleftrightarrow> has_key ak_key_hash (actor_keys g) k"
  by (simp add: revoke_key_def Let_def)

lemma has_key_create:
  "create_key h a ps t g = Inr g' \<Longrightarrow> has_key ak_key_hash (actor_keys g') k \<longleftrightarrow> k = h \<or> has_key ak_key_hash (actor_keys g) k"
  by (auto simp: create_key_def has_key_def split: if_splits)

lemma find_active_key_cong: "actor_keys g' = actor_keys g \<Longrightarrow> find_active_key g' k = find_active_key g k"
  by (simp add: find_active_key_def)

lemma find_active_key_unknown: "\<not> has_key ak_key_hash (actor_keys g) k \<Longrightarrow> find_active_key g k = None"
  by (auto simp: find_active_key_def has_key_def find_None_iff split: option.split)

lemma offer_event_taken:
  "has_key ak_key_hash (actor_keys g) k \<Longrightarrow> has_key ak_key_hash (actor_keys (offer_event C ev g)) k"
  by (cases ev, rule offer_event_cases [of C "fst ev" "fst (snd ev)" "snd (snd ev)" g]) (auto simp: has_key_create)

lemma offer_event_unknown:
  assumes "\<not> has_key ak_key_hash (actor_keys g) k" "\<not> issues C k (snd (snd ev))"
  shows "\<not> has_key ak_key_hash (actor_keys (offer_event C ev g)) k"
  using assms by (cases ev, rule_tac offer_event_cases [of C "fst ev" "fst (snd ev)" "snd (snd ev)" g]) (auto simp: has_key_create)

lemma offer_event_active:
  assumes "has_key ak_key_hash (actor_keys g) k" "\<not> revokes C k (snd (snd ev)) \<or> find_active_key g k = None"
  shows "find_active_key (offer_event C ev g) k = find_active_key g k"
proof -
  obtain eid t pl where ev: "ev = (eid, t, pl)" by (cases ev)
  show ?thesis
  proof (cases rule: offer_event_cases [of C eid t pl g])
    case (created h a ps)
    then have "h \<noteq> k" using assms(1) by (auto simp: create_key_def)
    then show ?thesis using find_active_key_create(3) [OF created(1)] by (simp add: ev)
  next
    case (revoked h)
    then show ?thesis using assms(2) find_active_key_revoke by (cases "h = k") (auto simp: ev)
  qed (simp_all add: ev find_active_key_def)
qed

lemma offer_event_revokes:
  assumes "revokes C k (snd (snd ev))"
  shows "find_active_key (offer_event C ev g) k = None"
proof -
  obtain eid t pl where ev: "ev = (eid, t, pl)" by (cases ev)
  show ?thesis
    using assms find_active_key_revoke(1)
    by (cases rule: offer_event_cases [of C eid t pl g]) (auto simp: ev)
qed

lemma after_events_taken:
  "has_key ak_key_hash (actor_keys g) k \<Longrightarrow> has_key ak_key_hash (actor_keys (after_events C evs g)) k"
  unfolding after_events_def by (induction evs arbitrary: g) (simp_all add: offer_event_taken)

lemma after_events_unknown:
  "\<not> has_key ak_key_hash (actor_keys g) k \<Longrightarrow> \<forall>ev\<in>set evs. \<not> issues C k (snd (snd ev)) \<Longrightarrow>
   \<not> has_key ak_key_hash (actor_keys (after_events C evs g)) k"
  unfolding after_events_def by (induction evs arbitrary: g) (simp_all add: offer_event_unknown)

lemma after_events_active:
  "has_key ak_key_hash (actor_keys g) k \<Longrightarrow>
   (\<forall>ev\<in>set evs. \<not> revokes C k (snd (snd ev))) \<or> find_active_key g k = None \<Longrightarrow>
   find_active_key (after_events C evs g) k = find_active_key g k"
  unfolding after_events_def
  by (induction evs arbitrary: g) (auto simp: offer_event_taken offer_event_active)

lemma taken_key_is_refused:
  assumes "has_key ak_key_hash (actor_keys g) k" "decode_bytes32 C (aka_key_hash p) = Inr k"
  shows "project_graph C eid t (ActorKeyAdd p) g =
    (case actor_id_from_str C (aka_actor_id p) of
       Inl e \<Rightarrow> Inl (IdError e)
     | Inr _ \<Rightarrow> Inl (StorageFailed (Sqlx UniqueViolation)))"
  using assms by (simp add: project_graph_def project_actor_key_add_def create_key_def split: sum.split)

end
