(* ===== verification/Chain.thy ===== *)
theory Chain
  imports Ingest GraphInv
begin

text \<open>
  The per-origin hash chain. \<open>log_ok\<close> says that every origin's rows carry the sequence numbers
  1, 2, 3, ... in insertion order, that each names its predecessor, and that \<^verbatim>\<open>event_origins\<close>
  holds exactly the length and the head of each chain. The abstract view of the log is the list of
  event ids of each origin, and \<open>chain_offer\<close> is what an append-only chain does with an
  offered event; \<open>ingest_remote_event\<close> refines it.
\<close>

section \<open>Chains\<close>

definition origin_rows :: "db \<Rightarrow> peer_id \<Rightarrow> event_row list" where
  "origin_rows d p = filter (\<lambda>r. er_origin r = p) (events d)"

definition chain_of :: "db \<Rightarrow> peer_id \<Rightarrow> event_id list" where
  "chain_of d p = map er_event_id (origin_rows d p)"

definition chain_head :: "event_id list \<Rightarrow> event_id option" where
  "chain_head es = (if es = [] then None else Some (last es))"

definition chain_linked :: "event_row list \<Rightarrow> bool" where
  "chain_linked rows \<longleftrightarrow>
     (\<forall>i<length rows. er_sequence (rows ! i) = of_nat (Suc i) \<and>
                      er_previous (rows ! i) = chain_head (map er_event_id (take i rows)))"

definition origin_tracked :: "db \<Rightarrow> peer_id \<Rightarrow> bool" where
  "origin_tracked d p \<longleftrightarrow>
     get_origin d p =
       (if chain_of d p = [] then None
        else Some \<lparr>or_origin = p, or_highest_contiguous = of_nat (length (chain_of d p)),
                   or_highest_seen = of_nat (length (chain_of d p)), or_head = chain_head (chain_of d p)\<rparr>)"

definition log_ok :: "db \<Rightarrow> bool" where
  "log_ok d \<longleftrightarrow>
     distinct (map er_event_id (events d)) \<and> (\<forall>p. chain_linked (origin_rows d p) \<and> origin_tracked d p)"

lemma log_ok_empty: "log_ok empty_db"
  by (simp add: log_ok_def empty_db_def chain_linked_def origin_tracked_def origin_rows_def chain_of_def
      get_origin_def lookup_by_def)

lemma length_chain_of: "length (chain_of d p) = length (origin_rows d p)"
  by (simp add: chain_of_def)

lemma chain_of_le: "length (chain_of d p) \<le> length (events d)"
  by (simp add: chain_of_def origin_rows_def)

lemma chain_of_cong: "events d' = events d \<Longrightarrow> chain_of d' = chain_of d"
  by (rule ext) (simp add: chain_of_def origin_rows_def)

lemma log_ok_cong:
  "events d' = events d \<Longrightarrow> event_origins d' = event_origins d \<Longrightarrow> log_ok d' \<longleftrightarrow> log_ok d"
  by (simp add: log_ok_def origin_tracked_def origin_rows_def chain_of_def get_origin_def)

lemma next_position_chain:
  assumes "log_ok d"
  shows "next_position d p = (of_nat (Suc (length (chain_of d p))), chain_head (chain_of d p))"
proof -
  have "origin_tracked d p" using assms by (simp add: log_ok_def)
  then show ?thesis
    by (auto simp: next_position_def origin_tracked_def chain_head_def algebra_simps)
qed

lemma lookup_origin_sequence:
  "lookup_by (\<lambda>r. (er_origin r, er_sequence r)) rows (p, s) =
     find (\<lambda>r. er_sequence r = s) (filter (\<lambda>r. er_origin r = p) rows)"
  unfolding lookup_by_def by (induction rows) auto

lemma find_sequence_linked:
  assumes "chain_linked rows" and "length rows < 2 ^ 64"
  shows "find (\<lambda>r. er_sequence r = s) rows =
     (if 1 \<le> unat s \<and> unat s \<le> length rows then Some (rows ! (unat s - 1)) else None)"
proof -
  have seq: "er_sequence (rows ! i) = s \<longleftrightarrow> unat s = Suc i" if "i < length rows" for i
  proof -
    have "unat (of_nat (Suc i) :: u64) = Suc i"
      using that assms(2) by (simp only: unat_of_nat) simp
    then show ?thesis using assms(1) that by (auto simp: chain_linked_def word_unat_eq_iff)
  qed
  show ?thesis
  proof (cases "1 \<le> unat s \<and> unat s \<le> length rows")
    case True
    then obtain i where i: "unat s = Suc i" "i < length rows" by (cases "unat s") auto
    with seq have "er_sequence (rows ! i) = s" "\<And>j. j < i \<Longrightarrow> er_sequence (rows ! j) \<noteq> s" by auto
    with i show ?thesis by (auto simp: find_Some_iff intro!: exI [of _ i])
  next
    case False
    then have "er_sequence r \<noteq> s" if "r \<in> set rows" for r
      using that seq unfolding in_set_conv_nth by (metis One_nat_def Suc_leI le_add1 plus_1_eq_Suc)
    with False show ?thesis by (auto simp: find_None_iff)
  qed
qed

lemma find_event_id_at_chain:
  assumes "log_ok d" and "length (events d) < 2 ^ 64"
  shows "find_event_id_at d p s =
     (if 1 \<le> unat s \<and> unat s \<le> length (chain_of d p) then Some (chain_of d p ! (unat s - 1)) else None)"
proof -
  have "chain_linked (origin_rows d p)" using assms(1) by (simp add: log_ok_def)
  moreover have "length (origin_rows d p) < 2 ^ 64"
    using assms(2) chain_of_le [of d p] by (simp add: length_chain_of)
  ultimately show ?thesis
    using find_sequence_linked [of "origin_rows d p" s]
    by (auto simp: find_event_id_at_def lookup_origin_sequence origin_rows_def [symmetric] chain_of_def)
qed

section \<open>Appending\<close>

lemma chain_linked_snoc:
  assumes "chain_linked rows" and "er_sequence r = of_nat (Suc (length rows))"
    and "er_previous r = chain_head (map er_event_id rows)"
  shows "chain_linked (rows @ [r])"
  using assms by (auto simp: chain_linked_def nth_append less_Suc_eq)

lemma log_ok_append:
  assumes ok: "log_ok d" and ev: "events d' = events d @ [r]"
    and org: "event_origins d' = event_origins (advance_origin (er_origin r) (er_sequence r) (er_event_id r) d)"
    and fresh: "er_event_id r \<notin> set (map er_event_id (events d))"
    and seq: "er_sequence r = of_nat (Suc (length (chain_of d (er_origin r))))"
    and prev: "er_previous r = chain_head (chain_of d (er_origin r))"
  shows "log_ok d'"
proof -
  have rows: "origin_rows d' q = origin_rows d q @ (if q = er_origin r then [r] else [])" for q
    by (simp add: origin_rows_def ev)
  have chain: "chain_of d' q = chain_of d q @ (if q = er_origin r then [er_event_id r] else [])" for q
    by (simp add: chain_of_def rows)
  have "chain_linked (origin_rows d' q)" for q
    using ok seq prev by (auto simp: rows log_ok_def length_chain_of chain_of_def intro: chain_linked_snoc)
  moreover have "origin_tracked d' q" for q
  proof -
    have "get_origin d' q = get_origin (advance_origin (er_origin r) (er_sequence r) (er_event_id r) d) q"
      by (simp add: get_origin_def org)
    then show ?thesis
      using ok seq by (auto simp: log_ok_def origin_tracked_def get_origin_advance chain chain_head_def)
  qed
  moreover have "distinct (map er_event_id (events d'))"
    using ok fresh by (simp add: ev log_ok_def)
  ultimately show ?thesis by (simp add: log_ok_def)
qed

section \<open>Rows stand for signed events\<close>

text \<open>
  The row of a logged event: its bytes are the canonical form of a signed event, its id the hash of
  these bytes, its other columns the fields of the event.
\<close>

definition row_of :: "('sk, 'vk, 'z) codec_scheme \<Rightarrow> signed_event \<Rightarrow> event_row \<Rightarrow> bool" where
  "row_of C sev r \<longleftrightarrow>
     jcs_signed C sev = Inr (er_payload r) \<and> er_event_id r = event_id_derive C (er_payload r) \<and>
     peer_id_from_str C (ue_origin_peer (se_unsigned sev)) = Inr (er_origin r) \<and>
     er_sequence r = ue_sequence (se_unsigned sev) \<and> er_created_at r = ue_created_at (se_unsigned sev)"

definition logged :: "('sk, 'vk, 'z) codec_scheme \<Rightarrow> signed_event set \<Rightarrow> db \<Rightarrow> bool" where
  "logged C S d \<longleftrightarrow> (\<forall>r\<in>set (events d). \<exists>sev\<in>S. row_of C sev r)"

text \<open>
  Among the events \<open>S\<close> the peers ever exchange, no two share an id: the canonical form determines
  the event and BLAKE3 has no collision on these inputs.
\<close>

definition collision_free :: "('sk, 'vk, 'z) codec_scheme \<Rightarrow> signed_event set \<Rightarrow> bool" where
  "collision_free C S \<longleftrightarrow>
     (\<forall>s\<in>S. \<forall>s'\<in>S. \<forall>b b'. jcs_signed C s = Inr b \<longrightarrow> jcs_signed C s' = Inr b' \<longrightarrow>
        event_id_derive C b = event_id_derive C b' \<longrightarrow> s = s')"

lemma known_event_position:
  assumes "collision_free C S" "logged C S d" "sev \<in> S" "jcs_signed C sev = Inr b"
    "peer_id_from_str C (ue_origin_peer (se_unsigned sev)) = Inr p"
    "event_id_derive C b \<in> set (map er_event_id (events d))"
  shows "find_event_id_at d p (ue_sequence (se_unsigned sev)) \<noteq> None"
proof -
  from assms(6) obtain r where r: "r \<in> set (events d)" "er_event_id r = event_id_derive C b" by auto
  with assms(2) obtain sev' where "sev' \<in> S" "row_of C sev' r" by (auto simp: logged_def)
  with r assms(1,3,4) have "row_of C sev r"
    unfolding collision_free_def row_of_def by (metis (no_types, lifting))
  then have "(p, ue_sequence (se_unsigned sev)) = (er_origin r, er_sequence r)"
    using assms(5) by (simp add: row_of_def)
  with r(1) have "has_key (\<lambda>r. (er_origin r, er_sequence r)) (events d) (p, ue_sequence (se_unsigned sev))"
    by (simp add: has_key_def)
  then show ?thesis by (simp add: find_event_id_at_def lookup_by_None_iff)
qed

section \<open>The abstract chain and its refinement\<close>

datatype chain_reply = Append | Duplicate | Fork event_id | Gap | BadLink

definition chain_offer :: "event_id list \<Rightarrow> u64 \<Rightarrow> event_id option \<Rightarrow> event_id \<Rightarrow> chain_reply" where
  "chain_offer es s previous e =
     (if 1 \<le> unat s \<and> unat s \<le> length es
      then if es ! (unat s - 1) = e then Duplicate else Fork (es ! (unat s - 1))
      else if unat s \<noteq> Suc (length es) then Gap
      else if previous \<noteq> chain_head es then BadLink
      else Append)"

lemma insert_event_fresh:
  assumes "er_event_id r \<notin> set (map er_event_id (events d))"
    and "find_event_id_at d (er_origin r) (er_sequence r) = None"
  shows "insert_event r d = (True, d\<lparr>events := events d @ [r]\<rparr>)"
proof -
  have "\<not> has_key (\<lambda>r. (er_origin r, er_sequence r)) (events d) (er_origin r, er_sequence r)"
    using assms(2) by (simp add: find_event_id_at_def lookup_by_None_iff)
  with assms(1) show ?thesis by (auto simp: insert_event_def has_key_def)
qed

definition remote_row ::
  "signed_event \<Rightarrow> int \<Rightarrow> peer_id \<Rightarrow> event_id option \<Rightarrow> event_id \<Rightarrow> byte list \<Rightarrow> byte list \<Rightarrow> event_row" where
  "remote_row sev received_at p previous_event eid payload_bytes signature_bytes =
     \<lparr>er_event_id = eid, er_origin = p, er_sequence = ue_sequence (se_unsigned sev),
      er_previous = previous_event, er_event_type = type_str (ue_payload (se_unsigned sev)),
      er_payload = payload_bytes, er_created_at = ue_created_at (se_unsigned sev),
      er_signature = signature_bytes, er_received_at = received_at\<rparr>"

lemma of_nat_eq_iff_unat: "n < 2 ^ 64 \<Longrightarrow> (s :: u64) = of_nat n \<longleftrightarrow> unat s = n"
  by (auto simp: unat_of_nat)

lemma append_remote_chain:
  assumes "log_ok d" "length (events d) < 2 ^ 64 - 1" "collision_free C S" "logged C S d" "sev \<in> S"
    and origin: "check_origin C vk sev = Inr (eid, p, prev)"
    and offer: "chain_offer (chain_of d p) (ue_sequence (se_unsigned sev)) prev eid = Append"
  obtains b sig r where
    "r = remote_row sev t p prev eid b sig" "row_of C sev r" "eid \<notin> set (map er_event_id (events d))"
    "append_remote C sev t p prev eid d =
       res_bind (project C eid (ue_created_at (se_unsigned sev)) (ue_payload (se_unsigned sev))
           (d\<lparr>events := events d @ [r]\<rparr>))
         (\<lambda>(outcome, d2). Inr (Applied eid outcome, advance_origin p (ue_sequence (se_unsigned sev)) eid d2))"
    "find_event_id_at d p (ue_sequence (se_unsigned sev)) = None"
    "ue_sequence (se_unsigned sev) = of_nat (Suc (length (chain_of d p)))" "prev = chain_head (chain_of d p)"
  using origin
proof (rule check_origin_parts)
  fix b sig
  let ?s = "ue_sequence (se_unsigned sev)" and ?r = "remote_row sev t p prev eid b sig"
  assume b: "jcs_signed C sev = Inr b" and eid: "eid = event_id_derive C b"
    and sig: "hex_decode C (se_signature sev) = Inr sig"
    and p: "peer_id_from_str C (ue_origin_peer (se_unsigned sev)) = Inr p"
  have us: "unat ?s = Suc (length (chain_of d p))" and prev: "prev = chain_head (chain_of d p)"
    using offer by (auto simp: chain_offer_def split: if_splits)
  have len: "Suc (length (chain_of d p)) < 2 ^ 64" using chain_of_le [of d p] assms(2) by simp
  then have s: "?s = of_nat (Suc (length (chain_of d p)))" using us of_nat_eq_iff_unat by blast
  have none: "find_event_id_at d p ?s = None"
    using assms(1,2) us by (simp add: find_event_id_at_chain)
  then have fresh: "eid \<notin> set (map er_event_id (events d))"
    using known_event_position [OF assms(3,4,5) b p] eid by blast
  have "insert_event ?r d = (True, d\<lparr>events := events d @ [?r]\<rparr>)"
    using none fresh by (intro insert_event_fresh) (simp_all add: remote_row_def)
  then have "append_remote C sev t p prev eid d =
       res_bind (project C eid (ue_created_at (se_unsigned sev)) (ue_payload (se_unsigned sev))
           (d\<lparr>events := events d @ [?r]\<rparr>))
         (\<lambda>(outcome, d2). Inr (Applied eid outcome, advance_origin p ?s eid d2))"
    using b sig s prev next_position_chain [OF assms(1)]
    by (simp add: append_remote_def Let_def validate_chain_def remote_row_def del: of_nat_Suc)
  moreover have "row_of C sev ?r" using b eid p by (simp add: row_of_def remote_row_def)
  ultimately show thesis using fresh none s prev that [of ?r b sig] by blast
qed

text \<open>
  What a successful append does to the database: one row after the others, the graph \<open>g\<close> and
  the references \<open>refs\<close> of the projection, the origin's head moved, nothing else.
\<close>

definition appends ::
  "('sk, 'vk, 'z) codec_scheme \<Rightarrow> signed_event \<Rightarrow> peer_id \<Rightarrow> event_id option \<Rightarrow> event_id \<Rightarrow> graph \<Rightarrow> refs
     \<Rightarrow> db \<Rightarrow> db \<Rightarrow> bool" where
  "appends C sev p prev eid g refs d d' \<longleftrightarrow>
     (\<exists>r new. row_of C sev r \<and> er_previous r = prev \<and> er_origin r = p \<and> er_event_id r = eid \<and>
        eid \<notin> set (map er_event_id (events d)) \<and> Pair eid ` set refs \<subseteq> set (event_refs d @ new) \<and>
        set new \<subseteq> Pair eid ` set refs \<and>
        d' = advance_origin p (er_sequence r) eid
               (d\<lparr>events := events d @ [r], graph := g, event_refs := event_refs d @ new\<rparr>))"

lemma appendsI:
  "row_of C sev r \<Longrightarrow> er_previous r = prev \<Longrightarrow> er_origin r = p \<Longrightarrow> er_event_id r = eid \<Longrightarrow>
   eid \<notin> set (map er_event_id (events d)) \<Longrightarrow> Pair eid ` set refs \<subseteq> set (event_refs d @ new) \<Longrightarrow>
   set new \<subseteq> Pair eid ` set refs \<Longrightarrow>
   appends C sev p prev eid g refs d (advance_origin p (er_sequence r) eid
     (d\<lparr>events := events d @ [r], graph := g, event_refs := event_refs d @ new\<rparr>))"
  unfolding appends_def by blast

lemma project_appended:
  assumes "row_of C sev r" "er_event_id r \<notin> set (map er_event_id (events d))"
  shows "case project_graph C (er_event_id r) t pl (graph d) of
      Inl e \<Rightarrow> project C (er_event_id r) t pl (d\<lparr>events := events d @ [r]\<rparr>) = Inl e
    | Inr (out, g, refs) \<Rightarrow> \<exists>d2. project C (er_event_id r) t pl (d\<lparr>events := events d @ [r]\<rparr>) = Inr (out, d2) \<and>
        appends C sev (er_origin r) (er_previous r) (er_event_id r) g refs d
          (advance_origin (er_origin r) (er_sequence r) (er_event_id r) d2)"
proof (cases "project_graph C (er_event_id r) t pl (graph d)")
  case (Inl e)
  then show ?thesis by (simp add: project_Inl)
next
  case (Inr x)
  let ?d1 = "d\<lparr>events := events d @ [r]\<rparr>"
  from Inr obtain out g refs where pg: "project_graph C (er_event_id r) t pl (graph d) = Inr (out, g, refs)"
    by (cases x) auto
  have "has_key er_event_id (events ?d1) (er_event_id r)" by simp
  then obtain new where "project C (er_event_id r) t pl ?d1 = Inr (out, ?d1\<lparr>graph := g, event_refs := event_refs ?d1 @ new\<rparr>)"
    "Pair (er_event_id r) ` set refs \<subseteq> set (event_refs ?d1 @ new)" "set new \<subseteq> Pair (er_event_id r) ` set refs"
    by (rule project_logged) (use pg in simp_all)
  with assms pg appendsI [OF assms(1) refl refl refl, of d refs new g] show ?thesis by simp
qed

lemma append_remote_outcome:
  assumes "log_ok d" "length (events d) < 2 ^ 64 - 1" "collision_free C S" "logged C S d" "sev \<in> S"
    and "check_origin C vk sev = Inr (eid, p, prev)"
    and "chain_offer (chain_of d p) (ue_sequence (se_unsigned sev)) prev eid = Append"
  shows "case project_graph C eid (ue_created_at (se_unsigned sev)) (ue_payload (se_unsigned sev)) (graph d) of
      Inl e \<Rightarrow> ingest_remote_event C vk sev t d = (Inl e, d)
    | Inr (out, g, refs) \<Rightarrow>
        \<exists>d'. ingest_remote_event C vk sev t d = (Inr (Applied eid out), d') \<and> appends C sev p prev eid g refs d d'"
proof -
  obtain b sig r where r: "r = remote_row sev t p prev eid b sig" and row: "row_of C sev r"
    and fresh: "eid \<notin> set (map er_event_id (events d))"
    and app: "append_remote C sev t p prev eid d =
       res_bind (project C eid (ue_created_at (se_unsigned sev)) (ue_payload (se_unsigned sev))
           (d\<lparr>events := events d @ [r]\<rparr>))
         (\<lambda>(outcome, d2). Inr (Applied eid outcome, advance_origin p (ue_sequence (se_unsigned sev)) eid d2))"
    and none: "find_event_id_at d p (ue_sequence (se_unsigned sev)) = None"
    by (rule append_remote_chain [OF assms])
  have body: "ingest_body C vk sev t d = append_remote C sev t p prev eid d"
    using assms(6) none by (simp add: ingest_body_def)
  have "er_sequence r = ue_sequence (se_unsigned sev)" "er_previous r = prev" "er_origin r = p" "er_event_id r = eid"
    by (simp_all add: r remote_row_def)
  with project_appended [OF row, of d "ue_created_at (se_unsigned sev)" "ue_payload (se_unsigned sev)"] fresh show ?thesis
    by (auto simp: ingest_remote_event_def transaction_def body app split: sum.splits)
qed

lemma commit_outcome:
  assumes "codecs_ok C" "log_ok d" "length (events d) < 2 ^ 64 - 1" "collision_free C S" "logged C S d" "sev \<in> S"
    and p: "p = identity_peer_id C k" and next_pos: "next_position d p = (s, prev)"
    and build: "build_and_sign C k s prev t pl = Inr (sev, eid)"
  shows "case project_graph C eid t pl (graph d) of
      Inl e \<Rightarrow> commit_local_event C k pl t d = (Inl e, d)
    | Inr (out, g, refs) \<Rightarrow>
        \<exists>d'. commit_local_event C k pl t d = (Inr (eid, out), d') \<and> appends C sev p prev eid g refs d d'"
  using build
proof (rule build_and_sign_fields)
  fix u b b'
  let ?sig = "sign_with_domain C k EVENT_ID_DOMAIN b"
  define r where "r = \<lparr>er_event_id = eid, er_origin = p, er_sequence = s, er_previous = prev,
    er_event_type = type_str pl, er_payload = b', er_created_at = t, er_signature = ?sig, er_received_at = t\<rparr>"
  assume u: "u = \<lparr>ue_version = CURRENT_VERSION, ue_origin_peer = peer_id_to_string C (identity_peer_id C k),
          ue_sequence = s, ue_previous_event = map_option (event_id_to_hex C) prev, ue_created_at = t, ue_payload = pl\<rparr>"
    and sev: "sev = \<lparr>se_unsigned = u, se_signature = hex_encode C ?sig\<rparr>"
    and b': "jcs_signed C sev = Inr b'" "eid = event_id_derive C b'"
  have sp: "s = of_nat (Suc (length (chain_of d p)))" "prev = chain_head (chain_of d p)"
    using next_pos next_position_chain [OF assms(2)] by auto
  have "Suc (length (chain_of d p)) < 2 ^ 64" using chain_of_le [of d p] assms(3) by simp
  then have us: "unat s = Suc (length (chain_of d p))" using sp(1) of_nat_eq_iff_unat by blast
  have none: "find_event_id_at d p s = None" using assms(2,3) us by (simp add: find_event_id_at_chain)
  have origin: "peer_id_from_str C (ue_origin_peer u) = Inr p"
    using assms(1) by (simp add: u p codecs_ok_def peer_id_round_trip identity_peer_id_length)
  have fresh: "eid \<notin> set (map er_event_id (events d))"
    using known_event_position [OF assms(4-6) b'(1), of p] none origin b'(2) by (auto simp: sev u)
  have row: "row_of C sev r" using b' origin by (auto simp: row_of_def r_def sev u)
  have ins: "insert_event r d = (True, d\<lparr>events := events d @ [r]\<rparr>)"
    using fresh none by (intro insert_event_fresh) (simp_all add: r_def)
  have "commit_body C k pl t d = res_bind (project C eid t pl (d\<lparr>events := events d @ [r]\<rparr>))
      (\<lambda>(outcome, d2). Inr ((eid, outcome), advance_origin p s eid d2))"
    using assms(1) build next_pos b'(1) ins
    by (simp add: commit_body_def Let_def p [symmetric] codecs_ok_def hex_codec_def sev u r_def)
  moreover have "er_sequence r = s" "er_previous r = prev" "er_origin r = p" "er_event_id r = eid"
    by (simp_all add: r_def)
  ultimately show ?thesis
    using project_appended [OF row, of d t pl] fresh
    by (auto simp: commit_local_event_def transaction_def split: sum.splits)
qed

lemma ingest_not_appended:
  assumes "log_ok d" "length (events d) < 2 ^ 64 - 1" and origin: "check_origin C vk sev = Inr (eid, p, prev)"
  shows "case chain_offer (chain_of d p) (ue_sequence (se_unsigned sev)) prev eid of
      Append \<Rightarrow> True
    | Duplicate \<Rightarrow> ingest_remote_event C vk sev t d = (Inr (AlreadyKnown eid), d)
    | Fork existing \<Rightarrow>
        (case json_signed C sev of
           Inl e \<Rightarrow> ingest_remote_event C vk sev t d = (Inl (Canonicalize e), d)
         | Inr json \<Rightarrow> ingest_remote_event C vk sev t d =
             (Inr (Forked existing eid),
              mark_forked p (record_fork p (ue_sequence (se_unsigned sev)) (event_hash existing) (event_hash eid) t json
                (upsert_peer p (key_bytes C vk) None t d))))
    | Gap \<Rightarrow> ingest_remote_event C vk sev t d =
        (Inl (SequenceGap (of_nat (Suc (length (chain_of d p)))) (ue_sequence (se_unsigned sev))), d)
    | BadLink \<Rightarrow> ingest_remote_event C vk sev t d =
        (Inl (PreviousEventMismatch (map_option (event_id_to_hex C) (chain_head (chain_of d p)))
                (map_option (event_id_to_hex C) prev)), d)"
proof -
  let ?s = "ue_sequence (se_unsigned sev)" and ?es = "chain_of d p"
  have found: "find_event_id_at d p ?s = (if 1 \<le> unat ?s \<and> unat ?s \<le> length ?es then Some (?es ! (unat ?s - 1)) else None)"
    using assms(1,2) by (simp add: find_event_id_at_chain)
  have "Suc (length ?es) < 2 ^ 64" using chain_of_le [of d p] assms(2) by simp
  then have seq: "?s = of_nat (Suc (length ?es)) \<longleftrightarrow> unat ?s = Suc (length ?es)" by (rule of_nat_eq_iff_unat)
  note defs = ingest_remote_event_def ingest_body_def transaction_def origin
  show ?thesis
  proof (cases "1 \<le> unat ?s \<and> unat ?s \<le> length ?es")
    case True
    then show ?thesis by (simp add: defs found chain_offer_def record_origin_fork_def Let_def split: sum.split)
  next
    case False
    then have "find_event_id_at d p ?s = None" using found by simp
    moreover have "chain_offer ?es ?s prev eid =
        (if unat ?s \<noteq> Suc (length ?es) then Gap else if prev \<noteq> chain_head ?es then BadLink else Append)"
      using False by (simp only: chain_offer_def if_False)
    ultimately show ?thesis
      using seq next_position_chain [OF assms(1), of p]
      by (simp add: defs append_remote_def validate_chain_def Let_def del: of_nat_Suc)
  qed
qed

lemma appends_log_ok:
  assumes "log_ok d" and "appends C sev p prev eid g refs d d'"
    and "ue_sequence (se_unsigned sev) = of_nat (Suc (length (chain_of d p)))" "prev = chain_head (chain_of d p)"
  shows "log_ok d'"
proof -
  obtain r new where r: "row_of C sev r" "er_previous r = prev" "er_origin r = p" "er_event_id r = eid"
    "eid \<notin> set (map er_event_id (events d))"
    and d': "d' = advance_origin p (er_sequence r) eid
               (d\<lparr>events := events d @ [r], graph := g, event_refs := event_refs d @ new\<rparr>)"
    using assms(2) unfolding appends_def by blast
  show ?thesis
  proof (rule log_ok_append [OF assms(1)])
    show "events d' = events d @ [r]" by (simp add: d')
    show "event_origins d' = event_origins (advance_origin (er_origin r) (er_sequence r) (er_event_id r) d)"
      by (simp add: d' r advance_origin_def Let_def)
  qed (use r assms(3,4) in \<open>simp_all add: row_of_def\<close>)
qed

lemma appends_effect:
  assumes "appends C sev p prev eid g refs d d'"
  shows "graph d' = g" "\<exists>r. events d' = events d @ [r] \<and> row_of C sev r"
    "chain_of d' = (chain_of d)(p := chain_of d p @ [eid])" "peers d' = peers d" "peer_forks d' = peer_forks d"
  using assms by (auto simp: appends_def chain_of_def origin_rows_def)

lemma appends_logged: "logged C S d \<Longrightarrow> sev \<in> S \<Longrightarrow> appends C sev p prev eid g refs d d' \<Longrightarrow> logged C S d'"
  using appends_effect(2) [of C sev p prev eid g refs d d'] by (auto simp: logged_def)

end
