(* ===== verification/Redaction.thy ===== *)
theory Redaction
  imports Chain
begin

text \<open>
  Authentication and permissions (\<^verbatim>\<open>service.rs\<close>), redaction (\<^verbatim>\<open>redaction.rs\<close>) and the rebuild
  of the projection from the log (\<^verbatim>\<open>oag-graph/rebuild.rs\<close>, \<^verbatim>\<open>repo/rebuild.rs\<close>).
  \<open>mask_graph E A\<close> is the graph with the redacted columns of the evidence \<open>E\<close> and the
  actors \<open>A\<close> blanked; projecting an event commutes with it, which is why redactions survive a
  rebuild.
\<close>

section \<open>Callers and permissions\<close>

datatype embedding_error = EmbeddingDisabled | EmbeddingHttp string | EmbeddingEmptyResponse

datatype graph_error =
    GStorage storage_error
  | GEvents events_error
  | PermissionDenied string
  | InvalidApiKey
  | GNotFound string
  | InvalidInput string
  | GEmbedding embedding_error
  | AlreadyRedacted event_id
  | ActorAlreadyRedacted actor_id

record auth_context =
  auth_actor_id :: actor_id
  auth_permissions :: "permission list"

definition require :: "auth_context \<Rightarrow> permission \<Rightarrow> graph_error + unit" where
  "require auth permission =
     (if permission \<in> set (auth_permissions auth) \<or> Admin \<in> set (auth_permissions auth) then Inr ()
      else Inl (PermissionDenied (permission_as_str permission)))"

definition authenticate ::
  "('sk, 'vk, 'z) crypto_scheme \<Rightarrow> string \<Rightarrow> graph \<Rightarrow> graph_error + auth_context" where
  "authenticate C raw_api_key g =
     (case find_active_key g (blake3 C (str_bytes raw_api_key)) of
        Some (a, permissions) \<Rightarrow> Inr \<lparr>auth_actor_id = a, auth_permissions = permissions\<rparr>
      | None \<Rightarrow> Inl InvalidApiKey)"

text \<open>The decimal rendering of \<^verbatim>\<open>format!\<close>.\<close>

fun nat_to_string :: "nat \<Rightarrow> string" where
  "nat_to_string n =
     (if n < 10 then [char_of (48 + n)] else nat_to_string (n div 10) @ [char_of (48 + n mod 10)])"

declare nat_to_string.simps [simp del]

definition check_len :: "string \<Rightarrow> string \<Rightarrow> nat \<Rightarrow> graph_error + unit" where
  "check_len field v mx =
     (if length v > mx
      then Inl (InvalidInput (field @ '' is '' @ nat_to_string (length v) @ '' bytes, exceeds the '' @
                              nat_to_string mx @ ''-byte limit''))
      else Inr ())"

definition check_opt_len :: "string \<Rightarrow> string option \<Rightarrow> nat \<Rightarrow> graph_error + unit" where
  "check_opt_len field v mx = (case v of Some s \<Rightarrow> check_len field s mx | None \<Rightarrow> Inr ())"

section \<open>Redaction\<close>

definition MAX_REASON_LEN :: nat where "MAX_REASON_LEN = 2048"

definition redact_evidence_body ::
  "('sk, 'vk, 'z) crypto_scheme \<Rightarrow> auth_context \<Rightarrow> event_id \<Rightarrow> string option \<Rightarrow> int \<Rightarrow> db
     \<Rightarrow> graph_error + (unit \<times> db)" where
  "redact_evidence_body C auth i reason now d =
     res_bind (require auth Admin) (\<lambda>_.
     res_bind (check_opt_len ''reason'' reason MAX_REASON_LEN) (\<lambda>_.
     if redactions_exists d i then Inl (AlreadyRedacted i) else
     let (updated, g) = redact_evidence_row i (graph d) in
     if \<not> updated then Inl (GNotFound (''evidence '' @ event_id_to_hex C i)) else
     res_bind (res_map_err GStorage (redactions_insert i now reason (d\<lparr>graph := g\<rparr>))) (\<lambda>d'. Inr ((), d'))))"

definition redact_evidence ::
  "('sk, 'vk, 'z) crypto_scheme \<Rightarrow> auth_context \<Rightarrow> event_id \<Rightarrow> string option \<Rightarrow> int \<Rightarrow> db
     \<Rightarrow> (graph_error + unit) \<times> db" where
  "redact_evidence C auth i reason now = transaction (redact_evidence_body C auth i reason now)"

definition redact_actor_body ::
  "('sk, 'vk, 'z) crypto_scheme \<Rightarrow> auth_context \<Rightarrow> actor_id \<Rightarrow> string option \<Rightarrow> int \<Rightarrow> db
     \<Rightarrow> graph_error + (unit \<times> db)" where
  "redact_actor_body C auth i reason now d =
     res_bind (require auth Admin) (\<lambda>_.
     res_bind (check_opt_len ''reason'' reason MAX_REASON_LEN) (\<lambda>_.
     if actor_redactions_exists d i then Inl (ActorAlreadyRedacted i) else
     let (updated, g) = redact_identity_uri i (graph d) in
     if \<not> updated then Inl (GNotFound (''actor '' @ hash32_to_hex C (actor_hash i))) else
     res_bind (res_map_err GStorage (actor_redactions_insert i now reason (d\<lparr>graph := g\<rparr>))) (\<lambda>d'. Inr ((), d'))))"

definition redact_actor_identity_uri ::
  "('sk, 'vk, 'z) crypto_scheme \<Rightarrow> auth_context \<Rightarrow> actor_id \<Rightarrow> string option \<Rightarrow> int \<Rightarrow> db
     \<Rightarrow> (graph_error + unit) \<times> db" where
  "redact_actor_identity_uri C auth i reason now = transaction (redact_actor_body C auth i reason now)"

section \<open>Rebuild\<close>

datatype projection_table =
    T_evidence | T_observations | T_disputes | T_retractions | T_supersessions | T_assertions
  | T_actor_keys | T_node_aliases | T_edges | T_actors | T_nodes

definition TABLES_CHILDREN_FIRST :: "projection_table list" where
  "TABLES_CHILDREN_FIRST =
     [T_evidence, T_observations, T_disputes, T_retractions, T_supersessions, T_assertions,
      T_actor_keys, T_node_aliases, T_edges, T_actors, T_nodes]"

text \<open>\<^verbatim>\<open>DELETE FROM table\<close>: refused while a row of another table refers to one of its rows.\<close>

fun delete_from :: "projection_table \<Rightarrow> graph \<Rightarrow> storage_error + graph" where
  "delete_from T_evidence g = Inr (g\<lparr>evidences := []\<rparr>)"
| "delete_from T_observations g = Inr (g\<lparr>observations := []\<rparr>)"
| "delete_from T_disputes g = Inr (g\<lparr>disputes := []\<rparr>)"
| "delete_from T_retractions g = Inr (g\<lparr>retractions := []\<rparr>)"
| "delete_from T_supersessions g = Inr (g\<lparr>supersessions := []\<rparr>)"
| "delete_from T_assertions g =
     (let used = has_key as_id (assertions g) in
      if list_ex (\<lambda>r. used (ev_assertion_id r)) (evidences g) \<or>
         list_ex (\<lambda>r. used (ob_assertion_id r)) (observations g) \<or>
         list_ex (\<lambda>r. used (dp_assertion_id r)) (disputes g) \<or>
         list_ex (\<lambda>r. used (rt_assertion_id r)) (retractions g) \<or>
         list_ex (\<lambda>r. used (su_old_assertion_id r) \<or> used (su_new_assertion_id r)) (supersessions g)
      then Inl (Sqlx ForeignKeyViolation) else Inr (g\<lparr>assertions := []\<rparr>))"
| "delete_from T_actor_keys g = Inr (g\<lparr>actor_keys := []\<rparr>)"
| "delete_from T_node_aliases g = Inr (g\<lparr>node_aliases := []\<rparr>)"
| "delete_from T_edges g =
     (if list_ex (\<lambda>r. has_key edge_id (edges g) (as_edge_id r)) (assertions g)
      then Inl (Sqlx ForeignKeyViolation) else Inr (g\<lparr>edges := []\<rparr>))"
| "delete_from T_actors g =
     (let used = has_key ac_id (actors g) in
      if list_ex (\<lambda>r. used (ak_actor_id r)) (actor_keys g) \<or>
         list_ex (\<lambda>r. used (as_actor_id r)) (assertions g) \<or>
         list_ex (\<lambda>r. used (ob_actor_id r)) (observations g) \<or>
         list_ex (\<lambda>r. used (dp_actor_id r)) (disputes g) \<or>
         list_ex (\<lambda>r. used (rt_actor_id r)) (retractions g) \<or>
         list_ex (\<lambda>r. used (su_actor_id r)) (supersessions g)
      then Inl (Sqlx ForeignKeyViolation) else Inr (g\<lparr>actors := []\<rparr>))"
| "delete_from T_nodes g =
     (let used = has_key node_id (nodes g) in
      if list_ex (\<lambda>r. used (ar_node_id r)) (node_aliases g) \<or>
         list_ex (\<lambda>e. used (edge_subject e) \<or> used (edge_object e)) (edges g)
      then Inl (Sqlx ForeignKeyViolation) else Inr (g\<lparr>nodes := []\<rparr>))"

fun delete_tables :: "projection_table list \<Rightarrow> graph \<Rightarrow> storage_error + graph" where
  "delete_tables [] g = Inr g"
| "delete_tables (t # ts) g = res_bind (delete_from t g) (delete_tables ts)"

definition clear_projection_tables :: "db \<Rightarrow> storage_error + db" where
  "clear_projection_tables d =
     res_bind (delete_tables TABLES_CHILDREN_FIRST (graph d)) (\<lambda>g. Inr (d\<lparr>graph := g\<rparr>))"

fun replay_events :: "('sk, 'vk, 'z) codec_scheme \<Rightarrow> event_row list \<Rightarrow> db \<Rightarrow> events_error + db" where
  "replay_events C [] d = Inr d"
| "replay_events C (row # rows) d =
     res_bind (res_map_err Canonicalize (parse_signed C (er_payload row))) (\<lambda>sev.
     res_bind (project C (er_event_id row) (er_created_at row) (ue_payload (se_unsigned sev)) d) (\<lambda>(_, d').
       replay_events C rows d'))"

fun reapply_redactions :: "redaction list \<Rightarrow> db \<Rightarrow> db" where
  "reapply_redactions [] d = d"
| "reapply_redactions (r # rs) d =
     reapply_redactions rs (d\<lparr>graph := snd (redact_evidence_row (rd_event_id r) (graph d))\<rparr>)"

fun reapply_actor_redactions :: "actor_redaction list \<Rightarrow> db \<Rightarrow> db" where
  "reapply_actor_redactions [] d = d"
| "reapply_actor_redactions (r # rs) d =
     reapply_actor_redactions rs (d\<lparr>graph := snd (redact_identity_uri (ard_actor_id r) (graph d))\<rparr>)"

record rebuild_summary =
  events_replayed :: nat
  redactions_reapplied :: nat
  actor_redactions_reapplied :: nat

definition rebuild_body :: "('sk, 'vk, 'z) codec_scheme \<Rightarrow> db \<Rightarrow> graph_error + (rebuild_summary \<times> db)" where
  "rebuild_body C d =
     res_bind (res_map_err GStorage (clear_projection_tables d)) (\<lambda>d1.
     let all_events = list_all_in_insertion_order d1 in
     res_bind (res_map_err GEvents (replay_events C all_events d1)) (\<lambda>d2.
     let d3 = reapply_redactions (redactions d2) d2;
         d4 = reapply_actor_redactions (actor_redactions d3) d3
     in Inr (\<lparr>events_replayed = length all_events, redactions_reapplied = length (redactions d2),
              actor_redactions_reapplied = length (actor_redactions d3)\<rparr>, d4)))"

definition rebuild_projection ::
  "('sk, 'vk, 'z) codec_scheme \<Rightarrow> db \<Rightarrow> (graph_error + rebuild_summary) \<times> db" where
  "rebuild_projection C = transaction (rebuild_body C)"

section \<open>Clearing\<close>

lemma clear_projection_tables_ok: "clear_projection_tables d = Inr (d\<lparr>graph := empty_graph\<rparr>)"
  by (simp add: clear_projection_tables_def TABLES_CHILDREN_FIRST_def Let_def empty_graph_def)

section \<open>Masking\<close>

definition mask_graph :: "event_id set \<Rightarrow> actor_id set \<Rightarrow> graph \<Rightarrow> graph" where
  "mask_graph E A g =
     g\<lparr>evidences := update_where (\<lambda>r. ev_id r \<in> E) (\<lambda>r. r\<lparr>ev_title := None, ev_excerpt := None\<rparr>) (evidences g),
       actors := update_where (\<lambda>r. ac_id r \<in> A) (\<lambda>r. r\<lparr>ac_identity_uri := None\<rparr>) (actors g)\<rparr>"

lemma mask_graph_tables [simp]:
  "nodes (mask_graph E A g) = nodes g" "node_aliases (mask_graph E A g) = node_aliases g"
  "edges (mask_graph E A g) = edges g" "actor_keys (mask_graph E A g) = actor_keys g"
  "assertions (mask_graph E A g) = assertions g" "observations (mask_graph E A g) = observations g"
  "disputes (mask_graph E A g) = disputes g" "retractions (mask_graph E A g) = retractions g"
  "supersessions (mask_graph E A g) = supersessions g"
  by (simp_all add: mask_graph_def)

lemma mask_graph_keys [simp]:
  "has_key ev_id (evidences (mask_graph E A g)) i \<longleftrightarrow> has_key ev_id (evidences g) i"
  "has_key ac_id (actors (mask_graph E A g)) a \<longleftrightarrow> has_key ac_id (actors g) a"
  by (simp_all add: mask_graph_def)

lemma mask_graph_update [simp]:
  "mask_graph E A (g\<lparr>nodes := nodes_x\<rparr>) = mask_graph E A g\<lparr>nodes := nodes_x\<rparr>"
  "mask_graph E A (g\<lparr>node_aliases := node_aliases_x\<rparr>) = mask_graph E A g\<lparr>node_aliases := node_aliases_x\<rparr>"
  "mask_graph E A (g\<lparr>edges := edges_x\<rparr>) = mask_graph E A g\<lparr>edges := edges_x\<rparr>"
  "mask_graph E A (g\<lparr>actor_keys := actor_keys_x\<rparr>) = mask_graph E A g\<lparr>actor_keys := actor_keys_x\<rparr>"
  "mask_graph E A (g\<lparr>assertions := assertions_x\<rparr>) = mask_graph E A g\<lparr>assertions := assertions_x\<rparr>"
  "mask_graph E A (g\<lparr>observations := observations_x\<rparr>) = mask_graph E A g\<lparr>observations := observations_x\<rparr>"
  "mask_graph E A (g\<lparr>disputes := disputes_x\<rparr>) = mask_graph E A g\<lparr>disputes := disputes_x\<rparr>"
  "mask_graph E A (g\<lparr>retractions := retractions_x\<rparr>) = mask_graph E A g\<lparr>retractions := retractions_x\<rparr>"
  "mask_graph E A (g\<lparr>supersessions := supersessions_x\<rparr>) = mask_graph E A g\<lparr>supersessions := supersessions_x\<rparr>"
  by (simp_all add: mask_graph_def)

lemma mask_graph_append:
  "ev_id r \<notin> E \<Longrightarrow> mask_graph E A (g\<lparr>evidences := evidences g @ [r]\<rparr>) =
     mask_graph E A g\<lparr>evidences := evidences (mask_graph E A g) @ [r]\<rparr>"
  "ac_id a \<notin> A \<Longrightarrow> mask_graph E A (g\<lparr>actors := actors g @ [a]\<rparr>) =
     mask_graph E A g\<lparr>actors := actors (mask_graph E A g) @ [a]\<rparr>"
  by (simp_all add: mask_graph_def update_where_def)

lemma mask_graph_empty: "mask_graph {} {} g = g"
  by (simp add: mask_graph_def update_where_def)

text \<open>Each statement of the projector commutes with the mask.\<close>

definition res_map :: "('a \<Rightarrow> 'b) \<Rightarrow> 'e + 'a \<Rightarrow> 'e + 'b" where
  "res_map f r = res_bind r (\<lambda>a. Inr (f a))"

lemma res_map_simps [simp]: "res_map f (Inl e) = Inl e" "res_map f (Inr a) = Inr (f a)"
  by (simp_all add: res_map_def)

lemma res_bind_res_map: "res_bind (res_map f r) k = res_bind r (\<lambda>a. k (f a))"
  by (cases r) simp_all

lemma res_map_res_bind: "res_map f (res_bind r k) = res_bind r (\<lambda>a. res_map f (k a))"
  by (cases r) simp_all

lemma res_map_err_res_map: "res_map_err h (res_map f r) = res_map f (res_map_err h r)"
  by (cases r) simp_all

lemma mask_statements:
  "nodes_insert_if_missing n (mask_graph E A g) = mask_graph E A (nodes_insert_if_missing n g)"
  "nodes_insert_alias x (mask_graph E A g) = res_map (mask_graph E A) (nodes_insert_alias x g)"
  "edges_insert_if_missing e (mask_graph E A g) = res_map (mask_graph E A) (edges_insert_if_missing e g)"
  "assertions_insert a (mask_graph E A g) = res_map (mask_graph E A) (assertions_insert a g)"
  "assertions_set_status i st (mask_graph E A g) = mask_graph E A (assertions_set_status i st g)"
  "insert_dispute dp (mask_graph E A g) = res_map (mask_graph E A) (insert_dispute dp g)"
  "insert_retraction rt (mask_graph E A g) = res_map (mask_graph E A) (insert_retraction rt g)"
  "insert_supersession su (mask_graph E A g) = res_map (mask_graph E A) (insert_supersession su g)"
  "insert_observation ob (mask_graph E A g) = res_map (mask_graph E A) (insert_observation ob g)"
  "create_key k ac ps t (mask_graph E A g) = res_map (mask_graph E A) (create_key k ac ps t g)"
  "revoke_key k t (mask_graph E A g) = apsnd (mask_graph E A) (revoke_key k t g)"
  by (simp_all add: nodes_insert_if_missing_def nodes_insert_alias_def edges_insert_if_missing_def
      assertions_insert_def assertions_set_status_def insert_dispute_def insert_retraction_def
      insert_supersession_def insert_observation_def create_key_def revoke_key_def Let_def)

lemma mask_insert_evidence:
  "evidence_id e \<notin> E \<Longrightarrow>
     insert_evidence e (mask_graph E A g) = res_map (mask_graph E A) (insert_evidence e g)"
  by (simp add: insert_evidence_def mask_graph_append)

lemma mask_actors_insert:
  "actor_id a \<in> A \<longrightarrow> has_key ac_id (actors g) (actor_id a) \<Longrightarrow>
     actors_insert a (mask_graph E A g) = mask_graph E A (actors_insert a g)"
  by (auto simp: actors_insert_def mask_graph_append)

lemma mask_reads:
  "nodes_get_by_id (mask_graph E A g) i = nodes_get_by_id g i"
  "assertions_get_by_id (mask_graph E A g) j = assertions_get_by_id g j"
  "require_assertion (mask_graph E A g) j s = require_assertion g j s"
  by (simp_all add: nodes_get_by_id_def assertions_get_by_id_def require_assertion_def)

lemma mask_resolve_or_create_node:
  "resolve_or_create_node C i nt t (mask_graph E A g) = apsnd (mask_graph E A) (resolve_or_create_node C i nt t g)"
  by (simp add: resolve_or_create_node_def Let_def mask_reads mask_statements)

lemmas mask_simps = mask_statements mask_insert_evidence mask_actors_insert mask_reads
  mask_resolve_or_create_node res_bind_res_map res_map_res_bind res_map_err_res_map res_bind_assoc

lemma mask_project_graph:
  assumes "eid \<notin> E" and "\<forall>a\<in>A. has_key ac_id (actors g) a"
  shows "project_graph C eid t pl (mask_graph E A g) =
     res_map (\<lambda>(out, g', refs). (out, mask_graph E A g', refs)) (project_graph C eid t pl g)"
proof (cases pl)
  case (AssertRelation p)
  then show ?thesis
    by (simp add: project_graph_def project_assert_relation_def Let_def mask_simps split: prod.splits)
next
  case (AddEvidence p)
  with assms(1) show ?thesis by (simp add: project_graph_def project_add_evidence_def mask_simps)
next
  case (VerifyAssertion p)
  then show ?thesis by (simp add: project_graph_def project_verify_assertion_def mask_simps)
next
  case (DisputeAssertion p)
  then show ?thesis by (simp add: project_graph_def project_dispute_assertion_def mask_simps)
next
  case (RetractAssertion p)
  then show ?thesis by (simp add: project_graph_def project_retract_assertion_def mask_simps)
next
  case (SupersedeAssertion p)
  then show ?thesis by (simp add: project_graph_def project_supersede_assertion_def mask_simps)
next
  case (ActorDeclare p)
  with assms(2) show ?thesis by (simp add: project_graph_def project_actor_declare_def Let_def mask_simps)
next
  case (ActorKeyAdd p)
  then show ?thesis by (simp add: project_graph_def project_actor_key_add_def mask_simps)
next
  case (ActorKeyRevoke p)
  then show ?thesis by (simp add: project_graph_def project_actor_key_revoke_def mask_simps)
next
  case (NodeAlias p)
  then show ?thesis
    by (cases "node_id_from_str C (nal_node_id p)") (simp_all add: project_graph_def project_node_alias_def mask_simps)
qed

section \<open>Projections derived from a log\<close>

fun replay :: "('ev \<Rightarrow> 's \<Rightarrow> 'e + 's) \<Rightarrow> 'ev list \<Rightarrow> 's \<Rightarrow> 'e + 's" where
  "replay step [] s = Inr s"
| "replay step (x # xs) s = res_bind (step x s) (replay step xs)"

lemma replay_append: "replay step (xs @ ys) s = res_bind (replay step xs s) (replay step ys)"
proof (induction xs arbitrary: s)
  case (Cons x xs)
  then show ?case by (cases "step x s") simp_all
qed simp

text \<open>
  The interface between the log and what is derived from it: \<open>step\<close> applies one logged event
  to the derived state, \<open>mask\<close> hides part of the state, and applying an event that the mask
  does not reach commutes with it. A state kept up to date under a mask is then the mask of a replay
  of the log.
\<close>

locale masked_projection =
  fixes step :: "'ev \<Rightarrow> 's \<Rightarrow> 'e + 's"
    and mask :: "'m \<Rightarrow> 's \<Rightarrow> 's"
    and clear_of :: "'ev \<Rightarrow> 'm \<Rightarrow> 's \<Rightarrow> bool"
  assumes step_mask: "clear_of x m s \<Longrightarrow> step x (mask m s) = res_map (mask m) (step x s)"
begin

lemma replay_snoc_masked:
  assumes "replay step log s0 = Inr s" and "clear_of x m s" and "step x (mask m s) = Inr s'"
  obtains s1 where "replay step (log @ [x]) s0 = Inr s1" "s' = mask m s1" "step x s = Inr s1"
  using assms step_mask [OF assms(2)] by (cases "step x s") (simp_all add: replay_append)

end

definition project_row ::
  "('sk, 'vk, 'z) codec_scheme \<Rightarrow> event_row \<Rightarrow> graph \<times> (event_id \<times> string \<times> hash32) list
     \<Rightarrow> events_error + (graph \<times> (event_id \<times> string \<times> hash32) list)" where
  "project_row C row s =
     res_bind (res_map_err Canonicalize (parse_signed C (er_payload row))) (\<lambda>sev.
     res_bind (project_graph C (er_event_id row) (er_created_at row) (ue_payload (se_unsigned sev)) (fst s))
       (\<lambda>(_, g, refs). Inr (g, snd s @ map (Pair (er_event_id row)) refs)))"

text \<open>The mask is the pair of the redacted evidence and the redacted actors.\<close>

definition mask_state :: "event_id set \<times> actor_id set \<Rightarrow> graph \<times> 'r \<Rightarrow> graph \<times> 'r" where
  "mask_state m s = (mask_graph (fst m) (snd m) (fst s), snd s)"

definition unredacted :: "event_row \<Rightarrow> event_id set \<times> actor_id set \<Rightarrow> graph \<times> 'r \<Rightarrow> bool" where
  "unredacted row m s \<longleftrightarrow> er_event_id row \<notin> fst m \<and> (\<forall>a\<in>snd m. has_key ac_id (actors (fst s)) a)"

interpretation redacted: masked_projection "project_row C" mask_state unredacted for C
proof unfold_locales
  show "project_row C row (mask_state m s) = res_map (mask_state m) (project_row C row s)"
    if "unredacted row m s" for row m s
    using that unfolding unredacted_def
    by (simp add: project_row_def mask_state_def mask_project_graph res_bind_res_map res_map_res_bind split_def)
qed

text \<open>The graph tables are the replay of the log, blanked where the tombstones say so.\<close>

definition tombstones :: "db \<Rightarrow> event_id set \<times> actor_id set" where
  "tombstones d = (rd_event_id ` set (redactions d), ard_actor_id ` set (actor_redactions d))"

definition projected :: "('sk, 'vk, 'z) codec_scheme \<Rightarrow> db \<Rightarrow> bool" where
  "projected C d \<longleftrightarrow>
     (\<exists>s. replay (project_row C) (events d) (empty_graph, []) = Inr s \<and>
        graph d = fst (mask_state (tombstones d) s) \<and> set (snd s) \<subseteq> set (event_refs d) \<and>
        (\<forall>i\<in>fst (tombstones d). has_key er_event_id (events d) i) \<and>
        (\<forall>a\<in>snd (tombstones d). has_key ac_id (actors (fst s)) a))"

lemma projected_empty: "projected C empty_db"
  by (simp add: projected_def empty_db_def tombstones_def mask_state_def mask_graph_empty)

lemma projected_cong:
  "events d' = events d \<Longrightarrow> graph d' = graph d \<Longrightarrow> event_refs d' = event_refs d \<Longrightarrow>
   redactions d' = redactions d \<Longrightarrow> actor_redactions d' = actor_redactions d \<Longrightarrow> projected C d' \<longleftrightarrow> projected C d"
  by (simp add: projected_def tombstones_def)

section \<open>Rebuilding\<close>

lemma project_row_refs_prefix:
  "project_row C row s = Inr s' \<Longrightarrow> \<exists>new. snd s' = snd s @ new"
  by (auto simp: project_row_def)

lemma replay_refs_prefix:
  "replay (project_row C) rows s = Inr s' \<Longrightarrow> \<exists>new. snd s' = snd s @ new"
proof (induction rows arbitrary: s)
  case (Cons row rows)
  then show ?case by (fastforce dest: project_row_refs_prefix)
qed simp

text \<open>On the database, a replay whose references are already recorded only rewrites the graph.\<close>

lemma replay_events_replay:
  "replay (project_row C) rows s = Inr s' \<Longrightarrow> set (snd s') \<subseteq> set (event_refs d) \<Longrightarrow>
     replay_events C rows (d\<lparr>graph := fst s\<rparr>) = Inr (d\<lparr>graph := fst s'\<rparr>)"
proof (induction rows arbitrary: s)
  case (Cons row rows)
  then obtain s1 where s1: "project_row C row s = Inr s1" "replay (project_row C) rows s1 = Inr s'" by auto
  then obtain sev out g refs where
    step: "parse_signed C (er_payload row) = Inr sev"
      "project_graph C (er_event_id row) (er_created_at row) (ue_payload (se_unsigned sev)) (fst s) = Inr (out, g, refs)"
      "s1 = (g, snd s @ map (Pair (er_event_id row)) refs)"
    by (auto simp: project_row_def)
  have "Pair (er_event_id row) ` set refs \<subseteq> set (event_refs d)"
    using replay_refs_prefix [OF s1(2)] Cons.prems(2) step(3) by auto
  then have "project C (er_event_id row) (er_created_at row) (ue_payload (se_unsigned sev)) (d\<lparr>graph := fst s\<rparr>)
      = Inr (out, d\<lparr>graph := g\<rparr>)"
    using step(2) by (simp add: project_def add_refs_present)
  with step Cons.IH [OF s1(2) Cons.prems(2)] show ?case by simp
qed simp

lemma reapply_redactions_mask:
  "reapply_redactions rs d = d\<lparr>graph := mask_graph (rd_event_id ` set rs) {} (graph d)\<rparr>"
  by (induction rs arbitrary: d)
    (auto simp: mask_graph_empty mask_graph_def redact_evidence_row_def update_where_def intro!: map_cong)

lemma reapply_actor_redactions_mask:
  "reapply_actor_redactions rs d = d\<lparr>graph := mask_graph {} (ard_actor_id ` set rs) (graph d)\<rparr>"
  by (induction rs arbitrary: d)
    (auto simp: mask_graph_empty mask_graph_def redact_identity_uri_def update_where_def intro!: map_cong)

lemma mask_graph_compose: "mask_graph {} A (mask_graph E {} g) = mask_graph E A g"
  by (simp add: mask_graph_def update_where_def)

lemma rebuild_projected:
  assumes "projected C d"
  shows "rebuild_projection C d =
     (Inr \<lparr>events_replayed = length (events d), redactions_reapplied = length (redactions d),
           actor_redactions_reapplied = length (actor_redactions d)\<rparr>, d)"
proof -
  obtain s where s: "replay (project_row C) (events d) (empty_graph, []) = Inr s"
    "graph d = fst (mask_state (tombstones d) s)" "set (snd s) \<subseteq> set (event_refs d)"
    using assms by (auto simp: projected_def)
  have "replay_events C (events d) (d\<lparr>graph := empty_graph\<rparr>) = Inr (d\<lparr>graph := fst s\<rparr>)"
    using replay_events_replay [OF s(1,3)] by simp
  then have "rebuild_body C d =
     Inr (\<lparr>events_replayed = length (events d), redactions_reapplied = length (redactions d),
           actor_redactions_reapplied = length (actor_redactions d)\<rparr>, d)"
    using s(2)
    by (simp add: rebuild_body_def clear_projection_tables_ok list_all_in_insertion_order_def Let_def
        reapply_redactions_mask reapply_actor_redactions_mask mask_graph_compose mask_state_def tombstones_def)
  then show ?thesis by (simp add: rebuild_projection_def transaction_simps)
qed

text \<open>The stored bytes of an event read back with the payload that was signed.\<close>

definition readable :: "('sk, 'vk, 'z) codec_scheme \<Rightarrow> signed_event set \<Rightarrow> bool" where
  "readable C S \<longleftrightarrow>
     (\<forall>sev\<in>S. \<forall>b. jcs_signed C sev = Inr b \<longrightarrow>
        (\<exists>sev'. parse_signed C b = Inr sev' \<and> ue_payload (se_unsigned sev') = ue_payload (se_unsigned sev)))"

lemma appends_projected:
  assumes "projected C d" "readable C S" "sev \<in> S" and app: "appends C sev p prev eid g refs d d'"
    and pg: "project_graph C eid (ue_created_at (se_unsigned sev)) (ue_payload (se_unsigned sev)) (graph d) = Inr (out, g, refs)"
  shows "projected C d'"
proof -
  obtain r new where r: "row_of C sev r" "er_event_id r = eid"
    and fresh: "eid \<notin> set (map er_event_id (events d))" and new: "Pair eid ` set refs \<subseteq> set (event_refs d @ new)"
    and d': "d' = advance_origin p (er_sequence r) eid
               (d\<lparr>events := events d @ [r], graph := g, event_refs := event_refs d @ new\<rparr>)"
    using app unfolding appends_def by blast
  obtain s where s: "replay (project_row C) (events d) (empty_graph, []) = Inr s"
    "graph d = fst (mask_state (tombstones d) s)" "set (snd s) \<subseteq> set (event_refs d)"
    "\<forall>i\<in>fst (tombstones d). has_key er_event_id (events d) i" "\<forall>a\<in>snd (tombstones d). has_key ac_id (actors (fst s)) a"
    using assms(1) by (auto simp: projected_def)
  have "unredacted r (tombstones d) s" using s(4,5) fresh r(2) by (auto simp: unredacted_def has_key_def)
  moreover have "project_row C r (mask_state (tombstones d) s) = Inr (g, snd s @ map (Pair eid) refs)"
    using r assms(2,3) pg s(2) by (fastforce simp: project_row_def readable_def row_of_def mask_state_def)
  ultimately obtain s1 where s1: "replay (project_row C) (events d @ [r]) (empty_graph, []) = Inr s1"
    "(g, snd s @ map (Pair eid) refs) = mask_state (tombstones d) s1" "project_row C r s = Inr s1"
    using redacted.replay_snoc_masked [OF s(1)] by blast
  have "\<forall>a\<in>snd (tombstones d). has_key ac_id (actors (fst s1)) a"
    using s(5) s1(3) by (auto simp: project_row_def) (meson grows_has_actor project_graph_grows)
  moreover have "snd s1 = snd s @ map (Pair eid) refs" using s1(2) by (simp add: mask_state_def)
  then have "set (snd s1) \<subseteq> set (event_refs d @ new)" using s(3) new by auto
  ultimately show ?thesis
    unfolding projected_def using s s1
    by (intro exI [of _ s1]) (auto simp: d' tombstones_def mask_state_def)
qed

section \<open>Redacting\<close>

lemma redact_rows_mask:
  "snd (redact_evidence_row i (mask_graph E A g)) = mask_graph (insert i E) A g"
  "snd (redact_identity_uri a (mask_graph E A g)) = mask_graph E (insert a A) g"
  by (auto simp: redact_evidence_row_def redact_identity_uri_def mask_graph_def update_where_def)

lemma mask_graph_ok:
  assumes "graph_ok C g"
  shows "graph_ok C (mask_graph E A g)"
  using assms unfolding graph_ok_def
  by (auto simp: nodes_ok_def edges_ok_def aliases_ok_def actors_ok_def keys_ok_def assertions_ok_def
      evidence_ok_def lifecycle_ok_def)
    (auto simp: mask_graph_def intro!: list_all_update_where)

lemma redact_evidence_committed:
  assumes "redact_evidence C auth i reason now d = (Inr u, d')"
  shows "Admin \<in> set (auth_permissions auth)" "has_key ev_id (evidences (graph d)) i"
    "has_key er_event_id (events d) i" "\<not> redactions_exists d i"
    "d' = d\<lparr>graph := snd (redact_evidence_row i (graph d)),
            redactions := redactions d @ [\<lparr>rd_event_id = i, rd_redacted_at = now, rd_reason = reason\<rparr>]\<rparr>"
  using assms
  by (auto simp: redact_evidence_def transaction_def redact_evidence_body_def require_def redactions_insert_def
      redact_evidence_row_def split: sum.splits if_splits)

lemma redact_actor_committed:
  assumes "redact_actor_identity_uri C auth a reason now d = (Inr u, d')"
  shows "Admin \<in> set (auth_permissions auth)" "has_key ac_id (actors (graph d)) a" "\<not> actor_redactions_exists d a"
    "d' = d\<lparr>graph := snd (redact_identity_uri a (graph d)),
            actor_redactions := actor_redactions d @ [\<lparr>ard_actor_id = a, ard_redacted_at = now, ard_reason = reason\<rparr>]\<rparr>"
  using assms
  by (auto simp: redact_actor_identity_uri_def transaction_def redact_actor_body_def require_def actor_redactions_insert_def
      redact_identity_uri_def split: sum.splits if_splits)

lemma redaction_failed:
  "redact_evidence C auth i reason now d = (Inl e, d') \<Longrightarrow> d' = d"
  "redact_actor_identity_uri C auth a reason now d = (Inl e, d') \<Longrightarrow> d' = d"
  by (auto simp: redact_evidence_def redact_actor_identity_uri_def transaction_def split: sum.splits)

lemma redact_evidence_projected:
  assumes "projected C d" and "redact_evidence C auth i reason now d = (Inr u, d')"
  shows "projected C d'"
proof -
  note red = redact_evidence_committed [OF assms(2)]
  obtain s where s: "replay (project_row C) (events d) (empty_graph, []) = Inr s"
    "graph d = fst (mask_state (tombstones d) s)" "set (snd s) \<subseteq> set (event_refs d)"
    "\<forall>i\<in>fst (tombstones d). has_key er_event_id (events d) i" "\<forall>a\<in>snd (tombstones d). has_key ac_id (actors (fst s)) a"
    using assms(1) by (auto simp: projected_def)
  then show ?thesis
    unfolding projected_def using red(3)
    by (intro exI [of _ s]) (auto simp: red(5) tombstones_def mask_state_def redact_rows_mask)
qed

lemma redact_actor_projected:
  assumes "projected C d" and "redact_actor_identity_uri C auth a reason now d = (Inr u, d')"
  shows "projected C d'"
proof -
  note red = redact_actor_committed [OF assms(2)]
  obtain s where s: "replay (project_row C) (events d) (empty_graph, []) = Inr s"
    "graph d = fst (mask_state (tombstones d) s)" "set (snd s) \<subseteq> set (event_refs d)"
    "\<forall>i\<in>fst (tombstones d). has_key er_event_id (events d) i" "\<forall>a\<in>snd (tombstones d). has_key ac_id (actors (fst s)) a"
    using assms(1) by (auto simp: projected_def)
  then show ?thesis
    unfolding projected_def using red(2)
    by (intro exI [of _ s]) (auto simp: red(4) tombstones_def mask_state_def redact_rows_mask)
qed

end
