(* ===== verification/PeerState.thy ===== *)
theory PeerState
  imports Redaction
begin

text \<open>
  A peer's database as a state machine. \<open>peer_step\<close> is one committed or refused call of the
  operations that write it, in any order: commits of this peer's own events, events of other peers,
  redactions, rebuilds, peer-table upkeep. \<open>db_ok\<close> is what holds in every reachable state: the
  chains are intact, every row stands for a signed event, the graph tables satisfy their invariant
  and are the (redacted) replay of the log.
\<close>

section \<open>The invariant and the steps\<close>

definition db_ok :: "('sk, 'vk, 'z) codec_scheme \<Rightarrow> signed_event set \<Rightarrow> db \<Rightarrow> bool" where
  "db_ok C S d \<longleftrightarrow> log_ok d \<and> logged C S d \<and> graph_ok C (graph d) \<and> projected C d"

inductive peer_step :: "('sk, 'vk, 'z) codec_scheme \<Rightarrow> signed_event set \<Rightarrow> db \<Rightarrow> db \<Rightarrow> bool"
  for C :: "('sk, 'vk, 'z) codec_scheme" and S :: "signed_event set" where
  commit: "next_position d (identity_peer_id C k) = (s, prev) \<Longrightarrow>
     (\<And>sev eid. build_and_sign C k s prev t pl = Inr (sev, eid) \<Longrightarrow> sev \<in> S) \<Longrightarrow>
     commit_local_event C k pl t d = (res, d') \<Longrightarrow> peer_step C S d d'"
| ingest: "sev \<in> S \<Longrightarrow> ingest_remote_event C vk sev t d = (res, d') \<Longrightarrow> peer_step C S d d'"
| redact: "redact_evidence C auth i reason now d = (res, d') \<Longrightarrow> peer_step C S d d'"
| redact_actor: "redact_actor_identity_uri C auth a reason now d = (res, d') \<Longrightarrow> peer_step C S d d'"
| rebuild: "rebuild_projection C d = (res, d') \<Longrightarrow> peer_step C S d d'"
| know_peer: "peer_step C S d (upsert_peer p key name t d)"
| forget_peer: "peer_step C S d (remove_peer p d)"
| know_address: "add_address p addr d = Inr d' \<Longrightarrow> peer_step C S d d'"

inductive_cases peer_stepE: "peer_step C S d d'"

lemma db_ok_empty: "db_ok C S empty_db"
  by (simp add: db_ok_def log_ok_empty logged_def projected_empty) (simp add: empty_db_def graph_ok_empty)

text \<open>What the invariant reads.\<close>

definition same_log :: "db \<Rightarrow> db \<Rightarrow> bool" where
  "same_log d d' \<longleftrightarrow>
     events d' = events d \<and> event_origins d' = event_origins d \<and> event_refs d' = event_refs d \<and>
     graph d' = graph d \<and> redactions d' = redactions d \<and> actor_redactions d' = actor_redactions d"

lemma same_log_refl [simp]: "same_log d d"
  by (simp add: same_log_def)

lemma db_ok_same_log: "same_log d d' \<Longrightarrow> db_ok C S d \<Longrightarrow> db_ok C S d'"
  by (simp add: db_ok_def same_log_def log_ok_cong [of d' d] projected_cong [of d' d] logged_def)

lemma same_log_peers:
  "same_log d (upsert_peer p key name t d)"
  "same_log d (remove_peer p d)"
  "same_log d (mark_forked p (record_fork p s a b t j (upsert_peer p key name t d)))"
  "add_address p addr d = Inr d' \<Longrightarrow> same_log d d'"
  by (auto simp: same_log_def remove_peer_def add_address_def split: if_splits)

lemma appends_db_ok:
  assumes "db_ok C S d" "readable C S" "sev \<in> S" "appends C sev p prev eid g refs d d'"
    and "ue_sequence (se_unsigned sev) = of_nat (Suc (length (chain_of d p)))" "prev = chain_head (chain_of d p)"
    and "project_graph C eid (ue_created_at (se_unsigned sev)) (ue_payload (se_unsigned sev)) (graph d) = Inr (out, g, refs)"
  shows "db_ok C S d'"
  using assms appends_log_ok [OF _ assms(4-6)] appends_logged [OF _ assms(3,4)] appends_projected [OF _ assms(2-4,7)]
    project_graph_ok [OF _ assms(7)] appends_effect(1) [OF assms(4)]
  by (simp add: db_ok_def)

section \<open>Every step keeps the invariant\<close>

lemma ingest_db_ok:
  assumes "db_ok C S d" "length (events d) < 2 ^ 64 - 1" "collision_free C S" "readable C S" "sev \<in> S"
  shows "db_ok C S (snd (ingest_remote_event C vk sev t d))"
proof (cases "check_origin C vk sev")
  case (Inl e)
  then have "ingest_remote_event C vk sev t d = (Inl e, d)"
    by (simp add: ingest_remote_event_def transaction_def ingest_body_def)
  with assms(1) show ?thesis by simp
next
  case (Inr x)
  then obtain eid p prev where origin: "check_origin C vk sev = Inr (eid, p, prev)" by (cases x) auto
  have ok: "log_ok d" "logged C S d" using assms(1) by (simp_all add: db_ok_def)
  show ?thesis
  proof (cases "chain_offer (chain_of d p) (ue_sequence (se_unsigned sev)) prev eid = Append")
    case True
    from append_remote_chain [OF ok(1) assms(2,3) ok(2) assms(5) origin True]
    have pos: "ue_sequence (se_unsigned sev) = of_nat (Suc (length (chain_of d p)))" "prev = chain_head (chain_of d p)"
      by metis+
    from append_remote_outcome [OF ok(1) assms(2,3) ok(2) assms(5) origin True, of t] assms(1) show ?thesis
      by (auto split: sum.splits dest: appends_db_ok [OF assms(1,4,5) _ pos])
  next
    case False
    then have "same_log d (snd (ingest_remote_event C vk sev t d))"
      using ingest_not_appended [OF ok(1) assms(2) origin, of t]
      by (auto simp: same_log_peers split: chain_reply.splits sum.splits)
    then show ?thesis using assms(1) db_ok_same_log by blast
  qed
qed

lemma commit_db_ok:
  assumes "db_ok C S d" "length (events d) < 2 ^ 64 - 1" "codecs_ok C" "collision_free C S" "readable C S"
    and next_pos: "next_position d (identity_peer_id C k) = (s, prev)"
    and S: "\<And>sev eid. build_and_sign C k s prev t pl = Inr (sev, eid) \<Longrightarrow> sev \<in> S"
  shows "db_ok C S (snd (commit_local_event C k pl t d))"
proof (cases "build_and_sign C k s prev t pl")
  case (Inl e)
  then have "commit_local_event C k pl t d = (Inl e, d)"
    by (simp add: commit_local_event_def transaction_def commit_body_def Let_def next_pos)
  with assms(1) show ?thesis by simp
next
  case (Inr x)
  then obtain sev eid where build: "build_and_sign C k s prev t pl = Inr (sev, eid)" by (cases x) auto
  have ok: "log_ok d" "logged C S d" using assms(1) by (simp_all add: db_ok_def)
  have "ue_sequence (se_unsigned sev) = s" "ue_created_at (se_unsigned sev) = t" "ue_payload (se_unsigned sev) = pl"
    using build by (auto elim!: build_and_sign_fields)
  moreover have "s = of_nat (Suc (length (chain_of d (identity_peer_id C k))))" "prev = chain_head (chain_of d (identity_peer_id C k))"
    using next_pos next_position_chain [OF ok(1), of "identity_peer_id C k"] by simp_all
  ultimately show ?thesis
    using commit_outcome [OF assms(3) ok(1) assms(2,4) ok(2) S [OF build] refl next_pos build] assms(1)
      appends_db_ok [OF assms(1,5) S [OF build]]
    by (auto split: sum.splits)
qed

lemma redact_db_ok:
  assumes "db_ok C S d"
  shows "redact_evidence C auth i reason now d = (res, d') \<Longrightarrow> db_ok C S d'"
    "redact_actor_identity_uri C auth a reason now d = (res2, d2) \<Longrightarrow> db_ok C S d2"
proof -
  have "db_ok C S d'" if "redact_evidence C auth i reason now d = (Inr u, d')" for u d'
  proof -
    note red = redact_evidence_committed [OF that]
    have "graph d' = mask_graph {i} {} (graph d)" using redact_rows_mask(1) [of i "{}" "{}" "graph d"]
      by (simp add: red(5) mask_graph_empty)
    moreover have "projected C d'" using redact_evidence_projected [OF _ that] assms by (simp add: db_ok_def)
    moreover have "log_ok d' = log_ok d" by (rule log_ok_cong) (simp_all add: red(5))
    ultimately show ?thesis using assms by (simp add: db_ok_def logged_def mask_graph_ok red(5))
  qed
  then show "redact_evidence C auth i reason now d = (res, d') \<Longrightarrow> db_ok C S d'"
    using redaction_failed(1) assms by (cases res) blast+
  have "db_ok C S d'" if "redact_actor_identity_uri C auth a reason now d = (Inr u, d')" for u d'
  proof -
    note red = redact_actor_committed [OF that]
    have "graph d' = mask_graph {} {a} (graph d)" using redact_rows_mask(2) [of a "{}" "{}" "graph d"]
      by (simp add: red(4) mask_graph_empty)
    moreover have "projected C d'" using redact_actor_projected [OF _ that] assms by (simp add: db_ok_def)
    moreover have "log_ok d' = log_ok d" by (rule log_ok_cong) (simp_all add: red(4))
    ultimately show ?thesis using assms by (simp add: db_ok_def logged_def mask_graph_ok red(4))
  qed
  then show "redact_actor_identity_uri C auth a reason now d = (res2, d2) \<Longrightarrow> db_ok C S d2"
    using redaction_failed(2) assms by (cases res2) blast+
qed

lemma peer_step_db_ok:
  assumes "peer_step C S d d'" "db_ok C S d" "length (events d) < 2 ^ 64 - 1"
    and "codecs_ok C" "collision_free C S" "readable C S"
  shows "db_ok C S d'"
  using assms(1)
proof cases
  case (commit k s prev t pl res)
  have "db_ok C S (snd (commit_local_event C k pl t d))"
    by (rule commit_db_ok [OF assms(2-6) commit(1)]) (rule commit(2))
  with commit(3) show ?thesis by simp
next
  case (ingest sev vk t res)
  with ingest_db_ok [OF assms(2,3,5,6), of sev vk t] show ?thesis by simp
next
  case (rebuild res)
  with rebuild_projected [of C d] assms(2) show ?thesis by (simp add: db_ok_def)
next
  case redact
  with redact_db_ok(1) [OF assms(2)] show ?thesis by blast
next
  case redact_actor
  with redact_db_ok(2) [OF assms(2)] show ?thesis by blast
next
  case know_peer
  with db_ok_same_log [OF same_log_peers(1) assms(2)] show ?thesis by simp
next
  case forget_peer
  with db_ok_same_log [OF same_log_peers(2) assms(2)] show ?thesis by simp
next
  case know_address
  with db_ok_same_log [OF same_log_peers(4) assms(2)] show ?thesis by blast
qed

section \<open>The log only grows\<close>

lemma insert_event_prefix: "prefix (events d) (events (snd (insert_event r d)))"
  by (simp add: insert_event_def)

lemma project_events: "project C eid t pl d = Inr (out, d') \<Longrightarrow> events d' = events d"
  by (erule project_InrD) simp

lemma commit_prefix: "prefix (events d) (events (snd (commit_local_event C k pl t d)))"
proof (cases rule: transaction_cases [of "commit_body C k pl t" d])
  case (committed a d')
  then have "prefix (events d) (events d')"
    using insert_event_prefix [of d]
    by (auto simp: commit_body_def Let_def dest!: project_events split: prod.splits if_splits) (metis snd_conv)
  with committed(2) show ?thesis by (simp add: commit_local_event_def)
qed (simp add: commit_local_event_def)

lemma ingest_prefix: "prefix (events d) (events (snd (ingest_remote_event C vk sev t d)))"
proof (cases rule: transaction_cases [of "ingest_body C vk sev t" d])
  case (committed a d')
  then have "prefix (events d) (events d')"
    using insert_event_prefix [of d]
    by (auto simp: ingest_body_def append_remote_def record_origin_fork_def Let_def dest!: project_events
        split: prod.splits if_splits option.splits)
  with committed(2) show ?thesis by (simp add: ingest_remote_event_def)
qed (simp add: ingest_remote_event_def)

lemma replay_events_log: "replay_events C rows d = Inr d' \<Longrightarrow> events d' = events d"
  by (induction rows arbitrary: d) (auto dest: project_events)

lemma rebuild_log: "events (snd (rebuild_projection C d)) = events d"
proof (cases rule: transaction_cases [of "rebuild_body C" d])
  case (committed a d')
  then show ?thesis
    by (auto simp: rebuild_projection_def rebuild_body_def Let_def clear_projection_tables_ok reapply_redactions_mask
        reapply_actor_redactions_mask dest!: replay_events_log)
qed (simp add: rebuild_projection_def)

lemma peer_step_prefix:
  assumes "peer_step C S d d'"
  shows "prefix (events d) (events d')"
  using assms
proof cases
  case (commit k s prev t pl res)
  with commit_prefix [of d C k pl t] show ?thesis by simp
next
  case (ingest sev vk t res)
  with ingest_prefix [of d C vk sev t] show ?thesis by simp
next
  case (redact auth i reason now res)
  then show ?thesis by (cases res) (auto dest: redaction_failed redact_evidence_committed(5))
next
  case (redact_actor auth a reason now res)
  then show ?thesis by (cases res) (auto dest: redaction_failed redact_actor_committed(4))
next
  case (rebuild res)
  with rebuild_log [of C d] show ?thesis by simp
next
  case (know_address p addr)
  with same_log_peers(4) [of p addr d d'] show ?thesis by (simp add: same_log_def)
qed (simp_all add: remove_peer_def)

lemma reachable_prefix: "(peer_step C S)\<^sup>*\<^sup>* d d' \<Longrightarrow> prefix (events d) (events d')"
  by (induction rule: rtranclp_induct) (auto dest: peer_step_prefix)

lemma reachable_db_ok:
  assumes "(peer_step C S)\<^sup>*\<^sup>* empty_db d" "length (events d) < 2 ^ 64 - 1"
    and "codecs_ok C" "collision_free C S" "readable C S"
  shows "db_ok C S d"
  using assms(1,2)
proof (induction rule: rtranclp_induct)
  case base
  then show ?case by (simp add: db_ok_empty)
next
  case (step d d')
  have "length (events d) \<le> length (events d')"
    using peer_step_prefix [OF step(2)] by (rule prefix_length_le)
  with step.prems have "length (events d) < 2 ^ 64 - 1" by simp
  with step show ?case using peer_step_db_ok assms(3-5) by blast
qed

end
