(* ===== verification/Sample.thy ===== *)
theory Sample
  imports PeerState
begin

text \<open>
  A concrete codec and four signed events, on which the theorems about the event log are
  instantiated. Bytes are written as two letters from A to P, which is a Base32 alphabet; the hash
  keeps the last 32 bytes of its input; a signature is the key followed by the message, cut to 64
  bytes. The canonical form of an event is its sequence number and its timestamp, which tells the
  sample events apart. Nothing outside the instances rests on this codec.
\<close>

definition letters :: "byte \<Rightarrow> string" where
  "letters w = [char_of (65 + unat w div 16), char_of (65 + unat w mod 16)]"

fun unletters :: "string \<Rightarrow> byte list option" where
  "unletters [] = Some []"
| "unletters [c] = None"
| "unletters (a # b # s) =
     map_option (\<lambda>r. of_nat ((of_char a - 65) * 16 + (of_char b - 65)) # r) (unletters s)"

definition pad_to :: "nat \<Rightarrow> byte list \<Rightarrow> byte list" where
  "pad_to n b = take n (b @ replicate n 0)"

definition sample_bytes :: "unsigned_event \<Rightarrow> byte list" where
  "sample_bytes u = [ucast (ue_sequence u), of_int (ue_created_at u)]"

definition sample_codec :: "(signed_event list) \<Rightarrow> (byte, byte) codec" where
  "sample_codec known =
     \<lparr>blake3 = (\<lambda>b. pad_to 32 (rev b)),
      ed_sign = (\<lambda>k m. pad_to 64 (k # m)),
      ed_verify = (\<lambda>k m s. s = pad_to 64 (k # m)),
      verifying_key = id, key_bytes = (\<lambda>k. replicate 31 0 @ [k]),
      hex_encode = (\<lambda>b. concat (map letters b)),
      hex_decode = (\<lambda>s. ok_or (FromHexError s) (unletters s)),
      base32_encode = (\<lambda>b. concat (map letters b)),
      base32_decode = (\<lambda>s. ok_or (DecodeError s) (unletters s)),
      jcs_unsigned = (\<lambda>u. Inr (sample_bytes u)),
      jcs_signed = (\<lambda>s. Inr (sample_bytes (se_unsigned s))),
      json_signed = (\<lambda>s. Inr ''{}''),
      parse_signed = (\<lambda>b. ok_or (SerdeJson ''EOF'') (find (\<lambda>s. sample_bytes (se_unsigned s) = b) known))\<rparr>"

lemma length_pad_to [simp]: "length (pad_to n b) = n"
  by (simp add: pad_to_def del: take_append)

lemma unletters_letters: "unletters (concat (map letters b)) = Some b"
proof (induction b)
  case (Cons w b)
  have "unat w < 256" using unsigned_less [of w, where ?'a = nat] by simp
  then have "unat w div 16 < 16" by simp
  then have "(of_char (char_of (65 + unat w div 16)) :: nat) = 65 + unat w div 16"
    "(of_char (char_of (65 + unat w mod 16)) :: nat) = 65 + unat w mod 16"
    by simp_all
  moreover have "(of_nat (unat w div 16 * 16 + unat w mod 16) :: byte) = w"
    by (simp only: div_mult_mod_eq) simp
  ultimately show ?case using Cons by (simp add: letters_def)
qed simp

lemma letters_base32: "list_all base32_char (concat (map letters b))"
proof (induction b)
  case (Cons w b)
  have "unat w < 256" using unsigned_less [of w, where ?'a = nat] by simp
  then have "unat w div 16 < 16" by simp
  moreover have "unat w mod 16 < 16" by simp
  ultimately have "base32_char (char_of (65 + unat w div 16))" "base32_char (char_of (65 + unat w mod 16))"
    by (simp_all add: base32_char_def Let_def)
  with Cons show ?case by (simp add: letters_def)
qed simp

lemma sample_codecs_ok: "codecs_ok (sample_codec known)"
  by (simp add: codecs_ok_def hex_codec_def base32_codec_def blake3_digest_def sign_verify_def sample_codec_def
      unletters_letters letters_base32)

section \<open>Four events of one peer\<close>

definition sample_build :: "u64 \<Rightarrow> event_id option \<Rightarrow> int \<Rightarrow> event_payload \<Rightarrow> signed_event" where
  "sample_build s prev t pl =
     (case build_and_sign (sample_codec []) 7 s prev t pl of Inr (sev, _) \<Rightarrow> sev | Inl _ \<Rightarrow> undefined)"

definition sample_id :: "signed_event \<Rightarrow> event_id" where
  "sample_id sev = event_id_derive (sample_codec []) (sample_bytes (se_unsigned sev))"

definition sample_declare :: event_payload where
  "sample_declare = ActorDeclare \<lparr>adc_actor_type = ''agent'', adc_name = Some ''a'', adc_public_key = None, adc_identity_uri = None\<rparr>"

definition sample_first :: signed_event where
  "sample_first = sample_build 1 None 10 sample_declare"

text \<open>Two different successors of the first event: the peer that signs both forks its chain.\<close>

definition sample_second :: signed_event where
  "sample_second = sample_build 2 (Some (sample_id sample_first)) 20 sample_declare"

definition sample_rival :: signed_event where
  "sample_rival = sample_build 2 (Some (sample_id sample_first)) 30 sample_declare"

text \<open>A third successor: an API key with every permission for the actor the first event declares.\<close>

definition sample_actor :: actor_id where
  "sample_actor = actor_id_derive (sample_codec []) (str_bytes (event_id_to_hex (sample_codec []) (sample_id sample_first)))"

definition sample_key_add :: actor_key_add_payload where
  "sample_key_add =
     \<lparr>aka_actor_id = hash32_to_hex (sample_codec []) (actor_hash sample_actor),
      aka_key_hash = hex_encode (sample_codec []) (blake3 (sample_codec []) (str_bytes ''k'')),
      aka_permissions = [''admin'']\<rparr>"

definition sample_key :: signed_event where
  "sample_key = sample_build 2 (Some (sample_id sample_first)) 40 (ActorKeyAdd sample_key_add)"

definition sample_events :: "signed_event list" where
  "sample_events = [sample_first, sample_second, sample_rival, sample_key]"

definition sample :: "(byte, byte) codec" where
  "sample = sample_codec sample_events"

lemma sample_build_simp:
  "sample_build s prev t pl =
     (let u = \<lparr>ue_version = 1, ue_origin_peer = peer_id_to_string (sample_codec []) (identity_peer_id (sample_codec []) 7),
               ue_sequence = s, ue_previous_event = map_option (event_id_to_hex (sample_codec [])) prev,
               ue_created_at = t, ue_payload = pl\<rparr>
      in \<lparr>se_unsigned = u, se_signature = concat (map letters (pad_to 64 (7 # str_bytes EVENT_ID_DOMAIN @ sample_bytes u)))\<rparr>)"
  by (simp add: sample_build_def build_and_sign_def Let_def CURRENT_VERSION_def sign_with_domain_def sample_codec_def)

lemma sample_codecs: "codecs_ok sample"
  by (simp add: sample_def sample_codecs_ok)

lemma sample_bytes_events:
  "sample_bytes (se_unsigned sample_first) = [1, 10]"
  "sample_bytes (se_unsigned sample_second) = [2, 20]"
  "sample_bytes (se_unsigned sample_rival) = [2, 30]"
  "sample_bytes (se_unsigned sample_key) = [2, 40]"
  by (simp_all add: sample_first_def sample_second_def sample_rival_def sample_key_def sample_build_simp Let_def sample_bytes_def)

lemma sample_collision_free: "collision_free sample (set sample_events)"
  unfolding collision_free_def
  by (simp add: sample_def sample_codec_def sample_events_def sample_bytes_events event_id_derive_def hash32_derive_def
      pad_to_def)

lemma sample_readable: "readable sample (set sample_events)"
  by (simp add: readable_def sample_def sample_codec_def sample_events_def sample_bytes_events)

lemma sample_fields:
  "jcs_signed sample sev = Inr (sample_bytes (se_unsigned sev))"
  "json_signed sample sev = Inr ''{}''"
  "verifying_key sample = id"
  by (simp_all add: sample_def sample_codec_def)

lemma sample_built:
  "build_and_sign sample 7 s prev t pl = Inr (sample_build s prev t pl, sample_id (sample_build s prev t pl))"
  by (cases prev) (simp_all add: sample_build_def sample_id_def build_and_sign_def sample_def sample_codec_def Let_def
      sign_with_domain_def peer_id_to_string_def identity_peer_id_def peer_id_from_public_key_def event_id_to_hex_def
      hash32_to_hex_def event_id_derive_def hash32_derive_def)

lemma sample_id_length: "length (event_hash (sample_id sev)) = 32"
  by (simp add: sample_id_def event_id_derive_length sample_codecs_ok [unfolded codecs_ok_def])

definition sample_peer :: peer_id where
  "sample_peer = identity_peer_id sample 7"

lemma sample_build_accepted:
  "check_origin sample 7 (sample_build s None t pl) = Inr (sample_id (sample_build s None t pl), sample_peer, None)"
  "check_origin sample 7 (sample_build s (Some (sample_id e)) t pl) =
     Inr (sample_id (sample_build s (Some (sample_id e)) t pl), sample_peer, Some (sample_id e))"
  using build_and_sign_accepted [OF sample_codecs sample_built, of None s t pl]
    build_and_sign_accepted [OF sample_codecs sample_built, of "Some (sample_id e)" s t pl]
  by (simp_all add: sample_id_length sample_peer_def sample_fields)

lemma sample_accepted:
  "check_origin sample 7 sample_first = Inr (sample_id sample_first, sample_peer, None)"
  "check_origin sample 7 sample_second = Inr (sample_id sample_second, sample_peer, Some (sample_id sample_first))"
  "check_origin sample 7 sample_rival = Inr (sample_id sample_rival, sample_peer, Some (sample_id sample_first))"
  "check_origin sample 7 sample_key = Inr (sample_id sample_key, sample_peer, Some (sample_id sample_first))"
  unfolding sample_first_def sample_second_def sample_rival_def sample_key_def by (rule sample_build_accepted)+

lemma sample_members: "sample_first \<in> set sample_events" "sample_second \<in> set sample_events" "sample_rival \<in> set sample_events"
  "sample_key \<in> set sample_events"
  by (simp_all add: sample_events_def)

lemma sample_sequence:
  "ue_sequence (se_unsigned sample_first) = 1" "ue_sequence (se_unsigned sample_second) = 2"
  "ue_sequence (se_unsigned sample_rival) = 2" "ue_sequence (se_unsigned sample_key) = 2"
  by (simp_all add: sample_first_def sample_second_def sample_rival_def sample_key_def sample_build_simp Let_def)

lemma sample_payload:
  "ue_payload (se_unsigned sample_first) = sample_declare" "ue_payload (se_unsigned sample_second) = sample_declare"
  "ue_payload (se_unsigned sample_key) = ActorKeyAdd sample_key_add"
  by (simp_all add: sample_first_def sample_second_def sample_key_def sample_build_simp Let_def)

lemma sample_ids_differ: "sample_id sample_second \<noteq> sample_id sample_rival"
  by (simp add: sample_id_def sample_bytes_events event_id_derive_def hash32_derive_def sample_codec_def pad_to_def)

lemma sample_actor_eq:
  "sample_actor = actor_id_derive sample (str_bytes (event_id_to_hex sample (sample_id sample_first)))"
  by (simp add: sample_actor_def sample_def sample_codec_def actor_id_derive_def hash32_derive_def event_id_to_hex_def
      hash32_to_hex_def)

text \<open>A peer that has received the first event, then the second.\<close>

definition sample_db1 :: db where
  "sample_db1 = snd (ingest_remote_event sample 7 sample_first 11 empty_db)"

definition sample_db2 :: db where
  "sample_db2 = snd (ingest_remote_event sample 7 sample_second 21 sample_db1)"

lemma sample_projects: "\<exists>out g. project_graph C eid t sample_declare g0 = Inr (out, g, [])"
  by (simp add: sample_declare_def project_graph_def project_actor_declare_def actor_type_parse_def Let_def)

lemma sample_steps: "peer_step sample (set sample_events) empty_db sample_db1"
  "peer_step sample (set sample_events) sample_db1 sample_db2"
  using peer_step.ingest [OF sample_members(1), of sample 7 11 empty_db]
    peer_step.ingest [OF sample_members(2), of sample 7 21 sample_db1]
  by (simp_all add: sample_db1_def sample_db2_def prod_eq_iff)

lemma sample_reachable: "(peer_step sample (set sample_events))\<^sup>*\<^sup>* empty_db empty_db"
  "(peer_step sample (set sample_events))\<^sup>*\<^sup>* empty_db sample_db1"
  "(peer_step sample (set sample_events))\<^sup>*\<^sup>* empty_db sample_db2"
  using sample_steps by (auto intro: rtranclp.rtrancl_into_rtrancl)

lemma ingest_length: "length (events (snd (ingest_remote_event C vk sev t d))) \<le> Suc (length (events d))"
proof (cases rule: transaction_cases [of "ingest_body C vk sev t" d])
  case (committed a d')
  then have "length (events d') \<le> Suc (length (events d))"
    by (auto simp: ingest_body_def append_remote_def record_origin_fork_def insert_event_def Let_def
        dest!: project_events split: prod.splits if_splits option.splits)
  with committed(2) show ?thesis by (simp add: ingest_remote_event_def)
qed (simp add: ingest_remote_event_def)

lemma sample_small: "length (events empty_db) = 0" "length (events sample_db1) \<le> 1" "length (events sample_db2) \<le> 2"
  using ingest_length [of sample 7 sample_first 11 empty_db] ingest_length [of sample 7 sample_second 21 sample_db1]
  by (simp_all add: sample_db1_def sample_db2_def empty_db_def)

lemma sample_db_ok: "db_ok sample (set sample_events) empty_db" "db_ok sample (set sample_events) sample_db1"
  "db_ok sample (set sample_events) sample_db2"
  using reachable_db_ok [OF _ _ sample_codecs sample_collision_free sample_readable] sample_reachable sample_small
  by simp_all

lemma sample_first_applied:
  "\<exists>out. ingest_remote_event sample 7 sample_first 11 empty_db = (Inr (Applied (sample_id sample_first) out), sample_db1) \<and>
     chain_of sample_db1 sample_peer = [sample_id sample_first] \<and> has_key ac_id (actors (graph sample_db1)) sample_actor \<and>
     actor_keys (graph sample_db1) = []"
proof -
  have offer: "chain_offer (chain_of empty_db sample_peer) (ue_sequence (se_unsigned sample_first)) None (sample_id sample_first) = Append"
    by (simp add: chain_offer_def chain_of_def origin_rows_def empty_db_def sample_sequence chain_head_def)
  obtain out g where pg: "project_graph sample (sample_id sample_first) (ue_created_at (se_unsigned sample_first))
      (ue_payload (se_unsigned sample_first)) (graph empty_db) = Inr (out, g, [])"
    using sample_projects sample_payload by metis
  have "log_ok empty_db" "logged sample (set sample_events) empty_db"
    using sample_db_ok(1) by (simp_all add: db_ok_def)
  from append_remote_outcome [OF this(1) _ sample_collision_free this(2) sample_members(1) sample_accepted(1) offer, of 11] pg
  obtain d' where ing: "ingest_remote_event sample 7 sample_first 11 empty_db = (Inr (Applied (sample_id sample_first) out), d')"
    and app: "appends sample sample_first sample_peer None (sample_id sample_first) g [] empty_db d'"
    by (auto simp: sample_small)
  have d': "d' = sample_db1" using ing by (simp add: sample_db1_def)
  have "has_key ac_id (actors g) sample_actor" "actor_keys g = []"
    using pg by (auto simp: sample_payload sample_declare_def project_graph_def project_actor_declare_def actor_type_parse_def
        Let_def sample_actor_eq actors_insert_def empty_db_def empty_graph_def has_key_def)
  moreover have "chain_of empty_db sample_peer = []" by (simp add: chain_of_def origin_rows_def empty_db_def)
  ultimately show ?thesis using appends_effect(1,3) [OF app] ing by (simp add: d')
qed

end
