(* ===== verification/Service.thy ===== *)
theory Service
  imports PeerState
begin

text \<open>
  \<^verbatim>\<open>GraphService\<close>, the one layer REST and MCP write through (\<^verbatim>\<open>oag-graph\<close>: \<^verbatim>\<open>identifier.rs\<close>,
  \<^verbatim>\<open>assert.rs\<close>, \<^verbatim>\<open>service.rs\<close>). A handler is a computation \<open>svc\<close> on the database that
  ends with a value or an error; unlike a transaction, it keeps the events it committed before an
  error. The signing key \<open>k\<close> is the peer's identity and \<open>now n\<close> the clock at the handler's
  \<open>n\<close>-th reading. The \<^verbatim>\<open>url\<close> crate, the printed length of a JSON value and the canonical form
  of a key proof are fields of the record \<open>service\<close>, which extends \<open>codec\<close>.
\<close>

section \<open>Outside code\<close>

record ('sk, 'vk, 'u) service = "('sk, 'vk) codec" +
  url_parse :: "string \<Rightarrow> 'u option"
  url_path :: "'u \<Rightarrow> string"
  url_set_path :: "string \<Rightarrow> 'u \<Rightarrow> 'u"
  url_fragment :: "'u \<Rightarrow> string option"
  url_set_fragment :: "string option \<Rightarrow> 'u \<Rightarrow> 'u"
  url_query_pairs :: "'u \<Rightarrow> (string \<times> string) list"
  url_set_query :: "string option \<Rightarrow> 'u \<Rightarrow> 'u"
  url_to_string :: "'u \<Rightarrow> string"
  json_text_len :: "json \<Rightarrow> nat"
  jcs_key_proof :: "string \<times> string option \<times> string option \<Rightarrow> json_error + byte list"
  key_from_bytes :: "byte list \<Rightarrow> 'vk option"

section \<open>Canonical identifiers (canonicalize.rs, identifier.rs)\<close>

definition TRACKING_PARAMS :: "string list" where
  "TRACKING_PARAMS =
     [''utm_source'', ''utm_medium'', ''utm_campaign'', ''utm_term'', ''utm_content'', ''gclid'', ''fbclid'']"

definition query_string :: "(string \<times> string) list \<Rightarrow> string" where
  "query_string pairs = join_with ''&'' (map (\<lambda>(k, v). k @ ''='' @ v) pairs)"

definition canonicalize_url :: "('sk, 'vk, 'u, 'z) service_scheme \<Rightarrow> string \<Rightarrow> string option" where
  "canonicalize_url C raw =
     (case url_parse C raw of
        None \<Rightarrow> None
      | Some url0 \<Rightarrow>
          let url1 = (if url_path C url0 = [] then url_set_path C ''/'' url0 else url0);
              url2 = (if url_fragment C url1 = Some [] then url_set_fragment C None url1 else url1);
              filtered_query = filter (\<lambda>(k, _). k \<notin> set TRACKING_PARAMS) (url_query_pairs C url2);
              url3 = (if filtered_query = [] then url_set_query C None url2
                      else url_set_query C (Some (query_string filtered_query)) url2)
          in Some (url_to_string C url3))"

definition split_once :: "char \<Rightarrow> string \<Rightarrow> (string \<times> string) option" where
  "split_once c s =
     (if c \<in> set s then Some (takeWhile (\<lambda>x. x \<noteq> c) s, tl (dropWhile (\<lambda>x. x \<noteq> c) s)) else None)"

definition eq_ignore_ascii_case :: "string \<Rightarrow> string \<Rightarrow> bool" where
  "eq_ignore_ascii_case a b \<longleftrightarrow> to_lowercase a = to_lowercase b"

definition is_ascii_alphanumeric :: "char \<Rightarrow> bool" where
  "is_ascii_alphanumeric c \<longleftrightarrow>
     (let n = of_char c :: nat in (48 \<le> n \<and> n \<le> 57) \<or> (65 \<le> n \<and> n \<le> 90) \<or> (97 \<le> n \<and> n \<le> 122))"

definition slug_identifier :: "string \<Rightarrow> string" where
  "slug_identifier trimmed =
     canonical_identifier ''concept'' (join_with ''-'' (split_whitespace (to_lowercase trimmed)))"

definition canonicalize_value ::
  "('sk, 'vk, 'u, 'z) service_scheme \<Rightarrow> string \<Rightarrow> string \<times> string option" where
  "canonicalize_value C value =
     (let trimmed = trim value;
          slugged = (slug_identifier trimmed, Some ''concept'') in
      case split_once CHR '':'' trimmed of
        None \<Rightarrow> slugged
      | Some (scheme, _) \<Rightarrow>
          if eq_ignore_ascii_case scheme ''http'' \<or> eq_ignore_ascii_case scheme ''https''
          then (case canonicalize_url C trimmed of
                  Some canonical_url \<Rightarrow> (canonical_identifier ''url'' canonical_url, Some ''url'')
                | None \<Rightarrow> slugged)
          else if scheme \<noteq> [] \<and> CHR '' '' \<notin> set trimmed \<and>
                  list_all (\<lambda>c. is_ascii_alphanumeric c \<or> c = CHR ''-'' \<or> c = CHR ''_'') scheme
          then (to_lowercase trimmed, None)
          else slugged)"

section \<open>Handlers\<close>

type_synonym 'a svc = "db \<Rightarrow> (graph_error + 'a) \<times> db"

definition svc_bind :: "'a svc \<Rightarrow> ('a \<Rightarrow> 'b svc) \<Rightarrow> 'b svc" where
  "svc_bind m f d = (case m d of (Inl e, d') \<Rightarrow> (Inl e, d') | (Inr a, d') \<Rightarrow> f a d')"

definition svc_check :: "graph_error + 'a \<Rightarrow> 'a svc" where
  "svc_check r d = (r, d)"

definition commit_event ::
  "('sk, 'vk, 'z) codec_scheme \<Rightarrow> 'sk \<Rightarrow> event_payload \<Rightarrow> int \<Rightarrow> (event_id \<times> projection_outcome) svc" where
  "commit_event C k pl t d =
     (case commit_local_event C k pl t d of
        (Inl e, d') \<Rightarrow> (Inl (GEvents e), d')
      | (Inr r, d') \<Rightarrow> (Inr r, d'))"

definition MAX_IDENTIFIER_LEN :: nat where "MAX_IDENTIFIER_LEN = 2048"
definition MAX_TYPE_LEN :: nat where "MAX_TYPE_LEN = 64"
definition MAX_PREDICATE_LEN :: nat where "MAX_PREDICATE_LEN = 128"
definition MAX_URI_LEN :: nat where "MAX_URI_LEN = 2048"
definition MAX_TITLE_LEN :: nat where "MAX_TITLE_LEN = 512"
definition MAX_EXCERPT_LEN :: nat where "MAX_EXCERPT_LEN = 4096"
definition MAX_CONTENT_HASH_LEN :: nat where "MAX_CONTENT_HASH_LEN = 128"
definition MAX_PINNED_CID_LEN :: nat where "MAX_PINNED_CID_LEN = 128"
definition MAX_METADATA_BYTES :: nat where "MAX_METADATA_BYTES = 8192"
definition MAX_EVIDENCE_PER_ASSERTION :: nat where "MAX_EVIDENCE_PER_ASSERTION = 20"
definition MAX_ALIAS_LEN :: nat where "MAX_ALIAS_LEN = 512"
definition MAX_ACTOR_NAME_LEN :: nat where "MAX_ACTOR_NAME_LEN = 512"
definition MAX_IDENTITY_URI_LEN :: nat where "MAX_IDENTITY_URI_LEN = 2048"

record evidence_input =
  ei_evidence_type :: "string option"
  ei_uri :: "string option"
  ei_title :: "string option"
  ei_excerpt :: "string option"
  ei_content_hash :: "string option"
  ei_observed_at :: "int option"
  ei_retrieved_at :: "int option"
  ei_pinned_cid :: "string option"
  ei_metadata :: "json option"

definition evidence_validate ::
  "('sk, 'vk, 'u, 'z) service_scheme \<Rightarrow> evidence_input \<Rightarrow> graph_error + unit" where
  "evidence_validate C e =
     res_bind (check_opt_len ''evidence.uri'' (ei_uri e) MAX_URI_LEN) (\<lambda>_.
     res_bind (check_opt_len ''evidence.title'' (ei_title e) MAX_TITLE_LEN) (\<lambda>_.
     res_bind (check_opt_len ''evidence.excerpt'' (ei_excerpt e) MAX_EXCERPT_LEN) (\<lambda>_.
     res_bind (check_opt_len ''evidence.content_hash'' (ei_content_hash e) MAX_CONTENT_HASH_LEN) (\<lambda>_.
     res_bind (check_opt_len ''evidence.pinned_cid'' (ei_pinned_cid e) MAX_PINNED_CID_LEN) (\<lambda>_.
     case ei_metadata e of
       None \<Rightarrow> Inr ()
     | Some m \<Rightarrow>
         if json_text_len C m > MAX_METADATA_BYTES
         then Inl (InvalidInput (''evidence.metadata is '' @ nat_to_string (json_text_len C m) @
                '' bytes, exceeds the '' @ nat_to_string MAX_METADATA_BYTES @ ''-byte limit''))
         else Inr ())))))"

record assert_input =
  in_subject :: string
  in_subject_type :: "string option"
  in_predicate :: string
  in_object :: string
  in_object_type :: "string option"
  in_evidence :: "evidence_input list"
  in_actor_confidence :: "32 word option"
  in_observed_at :: "int option"
  in_extraction_method :: "extraction_method option"

fun validate_each ::
  "('sk, 'vk, 'u, 'z) service_scheme \<Rightarrow> evidence_input list \<Rightarrow> graph_error + unit" where
  "validate_each C [] = Inr ()"
| "validate_each C (e # es) = res_bind (evidence_validate C e) (\<lambda>_. validate_each C es)"

definition assert_validate ::
  "('sk, 'vk, 'u, 'z) service_scheme \<Rightarrow> assert_input \<Rightarrow> graph_error + unit" where
  "assert_validate C i =
     res_bind (check_len ''subject'' (in_subject i) MAX_IDENTIFIER_LEN) (\<lambda>_.
     res_bind (check_len ''object'' (in_object i) MAX_IDENTIFIER_LEN) (\<lambda>_.
     res_bind (check_len ''predicate'' (in_predicate i) MAX_PREDICATE_LEN) (\<lambda>_.
     res_bind (check_opt_len ''subject_type'' (in_subject_type i) MAX_TYPE_LEN) (\<lambda>_.
     res_bind (check_opt_len ''object_type'' (in_object_type i) MAX_TYPE_LEN) (\<lambda>_.
     if length (in_evidence i) > MAX_EVIDENCE_PER_ASSERTION
     then Inl (InvalidInput (nat_to_string (length (in_evidence i)) @ '' evidence items exceeds the '' @
            nat_to_string MAX_EVIDENCE_PER_ASSERTION @ ''-item limit per assertion''))
     else validate_each C (in_evidence i))))))"

definition add_evidence_internal ::
  "('sk, 'vk, 'z) codec_scheme \<Rightarrow> 'sk \<Rightarrow> assertion_id \<Rightarrow> evidence_input \<Rightarrow> int \<Rightarrow> unit svc" where
  "add_evidence_internal C k i e t =
     svc_bind (commit_event C k (AddEvidence
        \<lparr>ade_assertion_id = event_id_to_hex C i,
         ade_evidence_type = (case ei_evidence_type e of Some s \<Rightarrow> s | None \<Rightarrow> ''other''),
         ade_uri = ei_uri e, ade_title = ei_title e, ade_excerpt = ei_excerpt e,
         ade_content_hash = ei_content_hash e, ade_observed_at = ei_observed_at e,
         ade_retrieved_at = ei_retrieved_at e, ade_pinned_cid = ei_pinned_cid e,
         ade_metadata = ei_metadata e\<rparr>) t) (\<lambda>_. svc_check (Inr ()))"

fun add_evidence_each ::
  "('sk, 'vk, 'z) codec_scheme \<Rightarrow> 'sk \<Rightarrow> assertion_id \<Rightarrow> evidence_input list \<Rightarrow> (nat \<Rightarrow> int) \<Rightarrow> nat \<Rightarrow> unit svc" where
  "add_evidence_each C k i [] now n = svc_check (Inr ())"
| "add_evidence_each C k i (e # es) now n =
     svc_bind (add_evidence_internal C k i e (now n)) (\<lambda>_. add_evidence_each C k i es now (Suc n))"

definition choose_type :: "string option \<Rightarrow> string option \<Rightarrow> string" where
  "choose_type given kind =
     (case given of Some t \<Rightarrow> t | None \<Rightarrow> (case kind of Some t \<Rightarrow> t | None \<Rightarrow> ''unknown''))"

definition assert_payload ::
  "('sk, 'vk, 'u, 'z) service_scheme \<Rightarrow> auth_context \<Rightarrow> assert_input \<Rightarrow> assert_relation_payload" where
  "assert_payload C auth i =
     (let (subject_identifier, subject_kind) = canonicalize_value C (in_subject i);
          (object_identifier, object_kind) = canonicalize_value C (in_object i)
      in \<lparr>asr_subject_identifier = subject_identifier,
          asr_subject_type = choose_type (in_subject_type i) subject_kind,
          asr_predicate = in_predicate i,
          asr_object_identifier = object_identifier,
          asr_object_type = choose_type (in_object_type i) object_kind,
          asr_actor_id = hash32_to_hex C (actor_hash (auth_actor_id auth)),
          asr_actor_confidence = in_actor_confidence i,
          asr_observed_at = in_observed_at i,
          asr_extraction_method = extraction_method_as_str
            (case in_extraction_method i of Some m \<Rightarrow> m | None \<Rightarrow> Direct)\<rparr>)"

definition assert_relation ::
  "('sk, 'vk, 'u, 'z) service_scheme \<Rightarrow> 'sk \<Rightarrow> auth_context \<Rightarrow> assert_input \<Rightarrow> (nat \<Rightarrow> int) \<Rightarrow> assertion_id svc" where
  "assert_relation C k auth i now =
     svc_bind (svc_check (require auth GraphAssert)) (\<lambda>_.
     svc_bind (svc_check (assert_validate C i)) (\<lambda>_.
     svc_bind (commit_event C k (AssertRelation (assert_payload C auth i)) (now 0)) (\<lambda>(assertion_id, _).
     svc_bind (add_evidence_each C k assertion_id (in_evidence i) now 1) (\<lambda>_.
       svc_check (Inr assertion_id)))))"

definition add_evidence ::
  "('sk, 'vk, 'u, 'z) service_scheme \<Rightarrow> 'sk \<Rightarrow> auth_context \<Rightarrow> assertion_id \<Rightarrow> evidence_input \<Rightarrow> int \<Rightarrow> unit svc" where
  "add_evidence C k auth i e t =
     svc_bind (svc_check (require auth GraphAssert)) (\<lambda>_.
     svc_bind (svc_check (evidence_validate C e)) (\<lambda>_. add_evidence_internal C k i e t))"

definition declare_alias ::
  "('sk, 'vk, 'z) codec_scheme \<Rightarrow> 'sk \<Rightarrow> auth_context \<Rightarrow> node_id \<Rightarrow> string \<Rightarrow> alias_type \<Rightarrow> int \<Rightarrow> unit svc" where
  "declare_alias C k auth i alias at t =
     svc_bind (svc_check (require auth GraphAssert)) (\<lambda>_.
     svc_bind (svc_check (check_len ''alias'' alias MAX_ALIAS_LEN)) (\<lambda>_.
     svc_bind (commit_event C k (NodeAlias
        \<lparr>nal_node_id = hash32_to_hex C (node_hash i), nal_alias = alias,
         nal_alias_type = alias_type_as_str at\<rparr>) t) (\<lambda>_. svc_check (Inr ()))))"

definition verify_assertion ::
  "('sk, 'vk, 'z) codec_scheme \<Rightarrow> 'sk \<Rightarrow> auth_context \<Rightarrow> assertion_id \<Rightarrow> verify_result \<Rightarrow> int \<Rightarrow> int \<Rightarrow> unit svc" where
  "verify_assertion C k auth i result observed_at t =
     svc_bind (svc_check (require auth GraphVerify)) (\<lambda>_.
     svc_bind (commit_event C k (VerifyAssertion
        \<lparr>vfy_assertion_id = event_id_to_hex C i,
         vfy_observer_actor_id = hash32_to_hex C (actor_hash (auth_actor_id auth)),
         vfy_result = verify_result_as_str result, vfy_observed_at = observed_at\<rparr>) t) (\<lambda>_. svc_check (Inr ())))"

definition dispute_assertion ::
  "('sk, 'vk, 'z) codec_scheme \<Rightarrow> 'sk \<Rightarrow> auth_context \<Rightarrow> assertion_id \<Rightarrow> string option \<Rightarrow> int \<Rightarrow> unit svc" where
  "dispute_assertion C k auth i reason t =
     svc_bind (svc_check (require auth GraphAssert)) (\<lambda>_.
     svc_bind (svc_check (check_opt_len ''reason'' reason MAX_REASON_LEN)) (\<lambda>_.
     svc_bind (commit_event C k (DisputeAssertion
        \<lparr>dsp_assertion_id = event_id_to_hex C i,
         dsp_actor_id = hash32_to_hex C (actor_hash (auth_actor_id auth)), dsp_reason = reason\<rparr>) t)
       (\<lambda>_. svc_check (Inr ()))))"

definition get_assertion :: "assertion_id \<Rightarrow> assertion option svc" where
  "get_assertion i d = (res_map_err GStorage (assertions_get_by_id (graph d) i), d)"

definition retract_assertion ::
  "('sk, 'vk, 'z) codec_scheme \<Rightarrow> 'sk \<Rightarrow> auth_context \<Rightarrow> assertion_id \<Rightarrow> string option \<Rightarrow> int \<Rightarrow> unit svc" where
  "retract_assertion C k auth i reason t =
     svc_bind (svc_check (require auth GraphRetractOwn)) (\<lambda>_.
     svc_bind (svc_check (check_opt_len ''reason'' reason MAX_REASON_LEN)) (\<lambda>_.
     svc_bind (get_assertion i) (\<lambda>found.
     svc_bind (svc_check (ok_or (GNotFound (''assertion '' @ event_id_to_hex C i)) found)) (\<lambda>a.
     if assertion_actor_id a \<noteq> auth_actor_id auth \<and> Admin \<notin> set (auth_permissions auth)
     then svc_check (Inl (PermissionDenied
            ''graph:retract-own requires being the original asserting actor (or admin)''))
     else svc_bind (commit_event C k (RetractAssertion
        \<lparr>ret_assertion_id = event_id_to_hex C i,
         ret_actor_id = hash32_to_hex C (actor_hash (auth_actor_id auth)), ret_reason = reason\<rparr>) t)
       (\<lambda>_. svc_check (Inr ()))))))"

definition supersede_assertion ::
  "('sk, 'vk, 'z) codec_scheme \<Rightarrow> 'sk \<Rightarrow> auth_context \<Rightarrow> assertion_id \<Rightarrow> assertion_id \<Rightarrow> int \<Rightarrow> unit svc" where
  "supersede_assertion C k auth old new t =
     svc_bind (svc_check (require auth GraphAssert)) (\<lambda>_.
     svc_bind (commit_event C k (SupersedeAssertion
        \<lparr>sup_old_assertion_id = event_id_to_hex C old, sup_new_assertion_id = event_id_to_hex C new,
         sup_actor_id = hash32_to_hex C (actor_hash (auth_actor_id auth))\<rparr>) t)
       (\<lambda>_. svc_check (Inr ())))"

section \<open>Actors and API keys (service.rs)\<close>

definition ACTOR_KEY_PROOF_DOMAIN :: string where "ACTOR_KEY_PROOF_DOMAIN = ''OAG:ACTOR_KEY_PROOF:v1:''"

record public_key_proof =
  pk_public_key :: "byte list"
  pk_signature :: "byte list"

definition sign_actor_key_proof ::
  "('sk, 'vk, 'u, 'z) service_scheme \<Rightarrow> 'sk \<Rightarrow> actor_type \<Rightarrow> string option \<Rightarrow> string option
     \<Rightarrow> graph_error + public_key_proof" where
  "sign_actor_key_proof C sk at name identity_uri =
     (case jcs_key_proof C (actor_type_as_str at, name, identity_uri) of
        Inl (SerdeJson e) \<Rightarrow> Inl (InvalidInput (''failed to canonicalize proof message: '' @ e))
      | Inr canonical \<Rightarrow>
          Inr \<lparr>pk_public_key = key_bytes C (verifying_key C sk),
               pk_signature = sign_with_domain C sk ACTOR_KEY_PROOF_DOMAIN canonical\<rparr>)"

definition check_key_proof ::
  "('sk, 'vk, 'u, 'z) service_scheme \<Rightarrow> actor_type \<Rightarrow> string option \<Rightarrow> string option \<Rightarrow> public_key_proof
     \<Rightarrow> graph_error + string" where
  "check_key_proof C at name identity_uri proof =
     res_bind (ok_or (InvalidInput ''invalid public key bytes'') (key_from_bytes C (pk_public_key proof))) (\<lambda>vk.
     case jcs_key_proof C (actor_type_as_str at, name, identity_uri) of
       Inl (SerdeJson e) \<Rightarrow> Inl (InvalidInput (''failed to canonicalize proof message: '' @ e))
     | Inr canonical \<Rightarrow>
         if verify_with_domain C vk ACTOR_KEY_PROOF_DOMAIN canonical (pk_signature proof)
         then Inr (hex_encode C (pk_public_key proof))
         else Inl (InvalidInput ''public key proof signature does not verify''))"

text \<open>The value \<open>None\<close> stands for the branch the code marks \<^verbatim>\<open>unreachable!\<close>.\<close>

definition declare_actor ::
  "('sk, 'vk, 'u, 'z) service_scheme \<Rightarrow> 'sk \<Rightarrow> actor_type \<Rightarrow> string option \<Rightarrow> string option
     \<Rightarrow> public_key_proof option \<Rightarrow> int \<Rightarrow> actor_id option svc" where
  "declare_actor C k at name identity_uri proof t =
     svc_bind (svc_check (check_opt_len ''name'' name MAX_ACTOR_NAME_LEN)) (\<lambda>_.
     svc_bind (svc_check (check_opt_len ''identity_uri'' identity_uri MAX_IDENTITY_URI_LEN)) (\<lambda>_.
     svc_bind (svc_check (transpose_opt (map_option (check_key_proof C at name identity_uri) proof))) (\<lambda>public_key.
     svc_bind (commit_event C k (ActorDeclare
        \<lparr>adc_actor_type = actor_type_as_str at, adc_name = name, adc_public_key = public_key,
         adc_identity_uri = identity_uri\<rparr>) t) (\<lambda>(_, outcome).
       svc_check (Inr (case outcome of ActorDeclared a \<Rightarrow> Some a | Unit \<Rightarrow> None))))))"

text \<open>\<^verbatim>\<open>raw\<close> is what \<^verbatim>\<open>random_bytes_32\<close> returned; \<^verbatim>\<open>Hash::to_hex\<close> is lowercase hexadecimal.\<close>

definition create_api_key ::
  "('sk, 'vk, 'z) codec_scheme \<Rightarrow> 'sk \<Rightarrow> byte list \<Rightarrow> actor_id \<Rightarrow> permission list \<Rightarrow> int \<Rightarrow> string svc" where
  "create_api_key C k raw a permissions t =
     (let raw_key = ''oagk_'' @ hex_encode C raw in
      svc_bind (commit_event C k (ActorKeyAdd
        \<lparr>aka_actor_id = hash32_to_hex C (actor_hash a),
         aka_key_hash = hex_encode C (blake3 C (str_bytes raw_key)),
         aka_permissions = map permission_as_str permissions\<rparr>) t) (\<lambda>_. svc_check (Inr raw_key)))"

definition decode_key_hash :: "('sk, 'vk, 'z) crypto_scheme \<Rightarrow> string \<Rightarrow> graph_error + byte list" where
  "decode_key_hash C key_hash_hex =
     (case hex_decode C key_hash_hex of
        Inl (FromHexError e) \<Rightarrow> Inl (InvalidInput (''invalid key hash '' @ [CHR 0x27] @ key_hash_hex @ [CHR 0x27] @ '': '' @ e))
      | Inr b \<Rightarrow> if length b = 32 then Inr b
                 else Inl (InvalidInput (''key hash '' @ [CHR 0x27] @ key_hash_hex @ [CHR 0x27] @ '' must be 32 bytes'')))"

definition revoke_api_key ::
  "('sk, 'vk, 'z) codec_scheme \<Rightarrow> 'sk \<Rightarrow> string \<Rightarrow> int \<Rightarrow> unit svc" where
  "revoke_api_key C k key_hash_hex t =
     svc_bind (svc_check (decode_key_hash C key_hash_hex)) (\<lambda>key_hash.
     svc_bind (\<lambda>d. (ok_or (GNotFound (''active key '' @ key_hash_hex)) (find_active_key (graph d) key_hash), d)) (\<lambda>(a, _).
     svc_bind (commit_event C k (ActorKeyRevoke
        \<lparr>akr_actor_id = hash32_to_hex C (actor_hash a), akr_key_hash = key_hash_hex\<rparr>) t)
       (\<lambda>_. svc_check (Inr ()))))"

section \<open>What the handlers do\<close>

lemma svc_bind_InrE:
  assumes "svc_bind m f d = (Inr b, d')"
  obtains a d1 where "m d = (Inr a, d1)" "f a d1 = (Inr b, d')"
  using assms by (auto simp: svc_bind_def split: prod.splits sum.splits)

lemma svc_check_simps [simp]:
  "svc_bind (svc_check (Inl e)) f d = (Inl e, d)"
  "svc_bind (svc_check (Inr a)) f d = f a d"
  by (simp_all add: svc_bind_def svc_check_def)

lemma require_cases:
  obtains "require auth p = Inr ()" "p \<in> set (auth_permissions auth) \<or> Admin \<in> set (auth_permissions auth)"
  | "require auth p = Inl (PermissionDenied (permission_as_str p))" "p \<notin> set (auth_permissions auth)"
    "Admin \<notin> set (auth_permissions auth)"
  by (cases "p \<in> set (auth_permissions auth) \<or> Admin \<in> set (auth_permissions auth)") (auto simp: require_def)

lemma commit_event_Inr: "commit_event C k pl t d = (Inr r, d') \<longleftrightarrow> commit_local_event C k pl t d = (Inr r, d')"
  by (auto simp: commit_event_def split: prod.splits sum.splits)

lemma commit_event_InlD: "commit_event C k pl t d = (Inl e, d') \<Longrightarrow> d' = d"
  by (auto simp: commit_event_def commit_local_event_def transaction_def split: prod.splits sum.splits)

text \<open>A successful commit is the projection of its payload on the graph.\<close>

lemma commit_projects:
  assumes "commit_local_event C k pl t d = (Inr (eid, out), d')"
  obtains refs where "project_graph C eid t pl (graph d) = Inr (out, graph d', refs)"
proof (cases rule: transaction_cases [of "commit_body C k pl t" d])
  case (failed e)
  with assms show ?thesis by (simp add: commit_local_event_def)
next
  case (committed a d1)
  with assms have body: "commit_body C k pl t d = Inr ((eid, out), d')" by (simp add: commit_local_event_def)
  obtain s prev where "next_position d (identity_peer_id C k) = (s, prev)" by fastforce
  with body obtain sev r d1 d2 where build: "build_and_sign C k s prev t pl = Inr (sev, eid)"
    and ins: "insert_event r d = (True, d1)"
    and pr: "project C eid t (ue_payload (se_unsigned sev)) d1 = Inr (out, d2)"
    and d': "d' = advance_origin (identity_peer_id C k) s eid d2"
    by (auto simp: commit_body_def Let_def split: prod.splits if_splits)
  have "ue_payload (se_unsigned sev) = pl" using build by (auto elim!: build_and_sign_fields)
  moreover have "graph d1 = graph d" using ins by (auto simp: insert_event_def split: if_splits)
  ultimately show ?thesis using pr that by (auto simp: d' elim!: project_InrD)
qed

lemma commit_then_unit:
  assumes "svc_bind (commit_event C k pl t) (\<lambda>_. svc_check (Inr ())) d = (Inr u, d')"
  obtains eid out refs where "project_graph C eid t pl (graph d) = Inr (out, graph d', refs)"
  using assms by (auto elim!: svc_bind_InrE commit_projects simp: commit_event_Inr svc_check_def)

lemma actor_id_round_trip:
  "hex_codec C \<Longrightarrow> length (actor_hash a) = 32 \<Longrightarrow> actor_id_from_str C (hash32_to_hex C (actor_hash a)) = Inr a"
  by (simp add: actor_id_from_str_def hash32_round_trip)

lemma insert_evidence_effect:
  "insert_evidence ev g = Inr g' \<Longrightarrow> assertions g' = assertions g \<and> length (evidences g') = Suc (length (evidences g))"
  by (auto simp: insert_evidence_def split: if_splits)

lemma add_evidence_internal_effect:
  assumes "add_evidence_internal C k i e t d = (Inr u, d')"
  shows "assertions (graph d') = assertions (graph d)" "length (evidences (graph d')) = Suc (length (evidences (graph d)))"
proof -
  obtain p eid out refs where "project_graph C eid t (AddEvidence p) (graph d) = Inr (out, graph d', refs)"
    using assms unfolding add_evidence_internal_def by (rule commit_then_unit)
  then have "\<exists>ev. insert_evidence ev (graph d) = Inr (graph d')"
    by (auto simp: project_graph_def project_add_evidence_def)
  then show "assertions (graph d') = assertions (graph d)" "length (evidences (graph d')) = Suc (length (evidences (graph d)))"
    by (auto dest: insert_evidence_effect)
qed

lemma add_evidence_each_effect:
  "add_evidence_each C k i es now n d = (Inr u, d') \<Longrightarrow>
     assertions (graph d') = assertions (graph d) \<and> length (evidences (graph d')) = length (evidences (graph d)) + length es"
proof (induction es arbitrary: n d)
  case Nil
  then show ?case by (simp add: svc_check_def)
next
  case (Cons e es)
  from Cons.prems obtain a d1 where "add_evidence_internal C k i e (now n) d = (Inr a, d1)"
    "add_evidence_each C k i es now (Suc n) d1 = (Inr u, d')"
    by (auto elim: svc_bind_InrE)
  with Cons.IH [of "Suc n" d1] add_evidence_internal_effect [of C k i e "now n" d a d1] show ?case by simp
qed

text \<open>What a projected assertion looks like when it is read back.\<close>

lemma project_assert_relation_reads:
  assumes "project_assert_relation C eid t p g = Inr (g', rs)"
  obtains a m where "actor_id_from_str C (asr_actor_id p) = Inr a"
    "extraction_method_parse (asr_extraction_method p) = Some m"
    "assertions_get_by_id g' eid = Inr (Some
       \<lparr>assertion_id = eid,
        assertion_edge_id = edge_id_from_triple C (node_id_from_canonical_identifier C (asr_subject_identifier p))
          (predicate_new (asr_predicate p)) (node_id_from_canonical_identifier C (asr_object_identifier p)),
        assertion_actor_id = a, assertion_confidence = asr_actor_confidence p,
        assertion_observed_at = asr_observed_at p, assertion_asserted_at = t,
        assertion_method = m, assertion_status = Active\<rparr>)"
    "length (evidences g') = length (evidences g)"
  using assms
proof (rule project_assert_relation_steps)
  fix s g1 ob g2 g3 a m
  let ?a = "\<lparr>assertion_id = eid, assertion_edge_id = edge_id_from_triple C s (predicate_new (asr_predicate p)) ob,
        assertion_actor_id = a, assertion_confidence = asr_actor_confidence p,
        assertion_observed_at = asr_observed_at p, assertion_asserted_at = t,
        assertion_method = m, assertion_status = Active\<rparr>"
  assume s: "resolve_or_create_node C (asr_subject_identifier p) (asr_subject_type p) t g = (s, g1)"
    and ob: "resolve_or_create_node C (asr_object_identifier p) (asr_object_type p) t g1 = (ob, g2)"
    and e: "edges_insert_if_missing (edge_new C s (predicate_new (asr_predicate p)) ob t) g2 = Inr g3"
    and a: "actor_id_from_str C (asr_actor_id p) = Inr a" "extraction_method_parse (asr_extraction_method p) = Some m"
    and ins: "assertions_insert ?a g3 = Inr g'"
  have ids: "s = node_id_from_canonical_identifier C (asr_subject_identifier p)"
    "ob = node_id_from_canonical_identifier C (asr_object_identifier p)"
    using s ob by (auto simp: resolve_or_create_node_def Let_def split: if_splits)
  have ev: "length (evidences g') = length (evidences g)"
    using s ob e ins
    by (auto simp: resolve_or_create_node_def Let_def nodes_insert_if_missing_def edges_insert_if_missing_def
        assertions_insert_def split: if_splits)
  have "assertions_get_by_id g' eid = Inr (Some ?a)" using get_by_id_inserted [OF ins] by simp
  with a ev show thesis using that unfolding ids by blast
qed

end
