(* ===== verification/Guarantees.thy ===== *)
theory Guarantees
  imports Sample Service
begin

text \<open>
  What a peer guarantees about its log, its graph and its callers: the properties of the event
  core, each followed by an instance on the sample events of \<open>Sample\<close>.
\<close>

section \<open>Chains\<close>

lemma reachable_small:
  "(peer_step C S)\<^sup>*\<^sup>* d d' \<Longrightarrow> length (events d') < 2 ^ 64 - 1 \<Longrightarrow> length (events d) < 2 ^ 64 - 1"
  using reachable_prefix prefix_length_le order_le_less_trans by blast

lemma prefix_chain_of: "prefix (events d) (events d') \<Longrightarrow> prefix (chain_of d p) (chain_of d' p)"
  by (auto simp: prefix_def chain_of_def origin_rows_def)

lemma ingest_applied_offer:
  assumes "log_ok d" "length (events d) < 2 ^ 64 - 1" "collision_free C S" "logged C S d" "sev \<in> S"
    and "ingest_remote_event C vk sev t d = (Inr (Applied eid out), d')"
  obtains p prev where "check_origin C vk sev = Inr (eid, p, prev)"
    "unat (ue_sequence (se_unsigned sev)) = Suc (length (chain_of d p))" "chain_of d' p = chain_of d p @ [eid]"
proof (cases "check_origin C vk sev")
  case (Inl e)
  with assms(6) that show ?thesis by (simp add: ingest_remote_event_def transaction_def ingest_body_def)
next
  case (Inr x)
  then obtain eid' p prev where origin: "check_origin C vk sev = Inr (eid', p, prev)" by (cases x) auto
  have app: "chain_offer (chain_of d p) (ue_sequence (se_unsigned sev)) prev eid' = Append"
    using ingest_not_appended [OF assms(1,2) origin, of t] assms(6)
    by (auto split: chain_reply.splits sum.splits)
  then have "unat (ue_sequence (se_unsigned sev)) = Suc (length (chain_of d p))"
    by (auto simp: chain_offer_def split: if_splits)
  moreover from append_remote_outcome [OF assms(1-5) origin app, of t] assms(6)
  have "eid' = eid" "chain_of d' p = chain_of d p @ [eid]"
    by (auto split: sum.splits dest!: appends_effect(3))
  ultimately show ?thesis using that origin by blast
qed

text \<open>
  C6. In every state a peer can reach, whatever the order of its own commits, the events of other
  peers, redactions and rebuilds: each origin's rows carry the sequence numbers 1, 2, 3, ... in
  order, each names its predecessor, \<^verbatim>\<open>event_origins\<close> holds exactly each chain's length and head,
  and the graph tables satisfy their invariant (distinct keys, every foreign key resolves, ids are
  the hashes of what they name, every stored enumeration name decodes).
\<close>

theorem reachable_chains:
  assumes "(peer_step C S)\<^sup>*\<^sup>* empty_db d" and "length (events d) < 2 ^ 64 - 1"
    and "codecs_ok C" and "collision_free C S" and "readable C S"
  shows "log_ok d \<and> graph_ok C (graph d)"
  using reachable_db_ok [OF assms] by (simp add: db_ok_def)

theorem reachable_chains_witness: "log_ok sample_db2 \<and> graph_ok sample (graph sample_db2)"
proof -
  have "length (events sample_db2) < 2 ^ 64 - 1" using sample_small(3) by simp
  from reachable_chains [OF sample_reachable(3) this sample_codecs sample_collision_free sample_readable]
  show ?thesis .
qed

text \<open>
  C7. \<^verbatim>\<open>ingest_remote_event\<close> refines the append-only chain: for an event whose signature and
  origin check out, the outcome is decided by the origin's chain alone. It is appended exactly when
  it continues the chain and projects, with nothing else changed about any chain; a known event is
  \<^verbatim>\<open>AlreadyKnown\<close> and changes nothing; another event at a taken position is \<^verbatim>\<open>Forked\<close> and
  changes no chain; a gap or a wrong predecessor is refused with the expected position.
\<close>

theorem ingest_refines_chain:
  assumes "(peer_step C S)\<^sup>*\<^sup>* empty_db d" and "length (events d) < 2 ^ 64 - 1"
    and "codecs_ok C" and "collision_free C S" and "readable C S" and "sev \<in> S"
    and "check_origin C vk sev = Inr (eid, p, prev)"
  shows "case chain_offer (chain_of d p) (ue_sequence (se_unsigned sev)) prev eid of
      Append \<Rightarrow>
        (case project_graph C eid (ue_created_at (se_unsigned sev)) (ue_payload (se_unsigned sev)) (graph d) of
           Inl e \<Rightarrow> ingest_remote_event C vk sev t d = (Inl e, d)
         | Inr (out, g, refs) \<Rightarrow>
             \<exists>d'. ingest_remote_event C vk sev t d = (Inr (Applied eid out), d') \<and>
               chain_of d' = (chain_of d)(p := chain_of d p @ [eid]) \<and> graph d' = g)
    | Duplicate \<Rightarrow> ingest_remote_event C vk sev t d = (Inr (AlreadyKnown eid), d)
    | Fork existing \<Rightarrow>
        chain_of (snd (ingest_remote_event C vk sev t d)) = chain_of d \<and>
        (case json_signed C sev of
           Inl e \<Rightarrow> fst (ingest_remote_event C vk sev t d) = Inl (Canonicalize e)
         | Inr _ \<Rightarrow> fst (ingest_remote_event C vk sev t d) = Inr (Forked existing eid))
    | Gap \<Rightarrow> ingest_remote_event C vk sev t d =
        (Inl (SequenceGap (of_nat (Suc (length (chain_of d p)))) (ue_sequence (se_unsigned sev))), d)
    | BadLink \<Rightarrow> ingest_remote_event C vk sev t d =
        (Inl (PreviousEventMismatch (map_option (event_id_to_hex C) (chain_head (chain_of d p)))
                (map_option (event_id_to_hex C) prev)), d)"
proof -
  have ok: "log_ok d" "logged C S d" using reachable_db_ok [OF assms(1-5)] by (simp_all add: db_ok_def)
  show ?thesis
  proof (cases "chain_offer (chain_of d p) (ue_sequence (se_unsigned sev)) prev eid = Append")
    case True
    from append_remote_outcome [OF ok(1) assms(2,4) ok(2) assms(6,7) True, of t] True show ?thesis
      by (auto split: sum.splits dest: appends_effect)
  next
    case False
    from ingest_not_appended [OF ok(1) assms(2,7), of t] False show ?thesis
      by (auto split: chain_reply.splits sum.splits intro: chain_of_cong)
  qed
qed

theorem ingest_refines_chain_witness:
  "ingest_remote_event sample 7 sample_first 40 sample_db1 = (Inr (AlreadyKnown (sample_id sample_first)), sample_db1)"
proof -
  have "length (events sample_db1) < 2 ^ 64 - 1" using sample_small(2) by simp
  moreover have "chain_of sample_db1 sample_peer = [sample_id sample_first]" using sample_first_applied by blast
  then have "chain_offer (chain_of sample_db1 sample_peer) (ue_sequence (se_unsigned sample_first)) None (sample_id sample_first)
      = Duplicate" by (simp add: chain_offer_def sample_sequence)
  ultimately show ?thesis
    using ingest_refines_chain [OF sample_reachable(2) _ sample_codecs sample_collision_free sample_readable
        sample_members(1) sample_accepted(1), of 40] by simp
qed

text \<open>
  An event that was applied once stays known: after any further steps of the peer, offering it
  again answers \<^verbatim>\<open>AlreadyKnown\<close> and leaves the database untouched.
\<close>

theorem applied_event_stays_known:
  assumes "(peer_step C S)\<^sup>*\<^sup>* empty_db d" and "sev \<in> S"
    and "ingest_remote_event C vk sev t d = (Inr (Applied eid out), d1)"
    and "(peer_step C S)\<^sup>*\<^sup>* d1 d2" and "length (events d2) < 2 ^ 64 - 1"
    and "codecs_ok C" and "collision_free C S" and "readable C S"
  shows "ingest_remote_event C vk sev t' d2 = (Inr (AlreadyKnown eid), d2)"
proof -
  have step: "peer_step C S d d1" using peer_step.ingest [OF assms(2,3)] .
  then have reach: "(peer_step C S)\<^sup>*\<^sup>* d d2" using assms(4) by (rule converse_rtranclp_into_rtranclp)
  have small: "length (events d) < 2 ^ 64 - 1" using reachable_small [OF reach assms(5)] .
  have ok: "log_ok d" "logged C S d"
    using reachable_db_ok [OF assms(1) small assms(6-8)] by (simp_all add: db_ok_def)
  obtain p prev where origin: "check_origin C vk sev = Inr (eid, p, prev)"
    and seq: "unat (ue_sequence (se_unsigned sev)) = Suc (length (chain_of d p))"
    and chain: "chain_of d1 p = chain_of d p @ [eid]"
    using ingest_applied_offer [OF ok(1) small assms(7) ok(2) assms(2,3)] .
  obtain zs where "chain_of d2 p = (chain_of d p @ [eid]) @ zs"
    using prefix_chain_of [OF reachable_prefix [OF assms(4)], of p] chain by (auto elim: prefixE)
  then have "chain_offer (chain_of d2 p) (ue_sequence (se_unsigned sev)) prev eid = Duplicate"
    by (simp add: chain_offer_def seq nth_append)
  moreover have "log_ok d2"
    using reachable_db_ok [OF rtranclp_trans [OF assms(1) reach] assms(5-8)] by (simp add: db_ok_def)
  ultimately show ?thesis using ingest_not_appended [OF _ assms(5) origin, of t'] by simp
qed

theorem applied_event_stays_known_witness:
  "ingest_remote_event sample 7 sample_first 99 sample_db2 = (Inr (AlreadyKnown (sample_id sample_first)), sample_db2)"
proof -
  obtain out where "ingest_remote_event sample 7 sample_first 11 empty_db = (Inr (Applied (sample_id sample_first) out), sample_db1)"
    using sample_first_applied by blast
  moreover have "length (events sample_db2) < 2 ^ 64 - 1" using sample_small(3) by simp
  ultimately show ?thesis
    using applied_event_stays_known [OF sample_reachable(1) sample_members(1) _ r_into_rtranclp [of "peer_step sample (set sample_events)"]]
      sample_steps(2) sample_codecs sample_collision_free sample_readable by blast
qed

lemma record_fork_row:
  "has_key (\<lambda>r. (fk_peer r, fk_sequence r)) (peer_forks (record_fork p s a b t j d)) (p, s)"
  "prefix (peer_forks d) (peer_forks (record_fork p s a b t j d))"
  by (simp_all add: record_fork_def)

text \<open>
  C8. A fork is contained: when an origin offers a second event for a taken position, the log, the
  chains, the references, the graph and the tombstones stay exactly as they are, the origin is
  flagged as forked, evidence for that position is on record, and evidence recorded earlier is kept.
\<close>

theorem fork_is_contained:
  assumes "(peer_step C S)\<^sup>*\<^sup>* empty_db d" and "length (events d) < 2 ^ 64 - 1"
    and "codecs_ok C" and "collision_free C S" and "readable C S"
    and "check_origin C vk sev = Inr (eid, p, prev)"
    and "chain_offer (chain_of d p) (ue_sequence (se_unsigned sev)) prev eid = Fork existing"
    and "json_signed C sev = Inr json"
  shows "fst (ingest_remote_event C vk sev t d) = Inr (Forked existing eid) \<and>
    same_log d (snd (ingest_remote_event C vk sev t d)) \<and>
    (\<exists>r. get_peer (snd (ingest_remote_event C vk sev t d)) p = Some r \<and> pe_forked r) \<and>
    has_key (\<lambda>r. (fk_peer r, fk_sequence r)) (peer_forks (snd (ingest_remote_event C vk sev t d)))
      (p, ue_sequence (se_unsigned sev)) \<and>
    prefix (peer_forks d) (peer_forks (snd (ingest_remote_event C vk sev t d)))"
proof -
  let ?s = "ue_sequence (se_unsigned sev)" and ?u = "upsert_peer p (key_bytes C vk) None t d"
  let ?f = "record_fork p ?s (event_hash existing) (event_hash eid) t json ?u"
  have "log_ok d" using reachable_db_ok [OF assms(1-5)] by (simp add: db_ok_def)
  then have ing: "ingest_remote_event C vk sev t d = (Inr (Forked existing eid), mark_forked p ?f)"
    using ingest_not_appended [OF _ assms(2,6), of t] assms(7,8) by simp
  obtain r where r: "get_peer ?f p = Some r" "pe_id r = p"
    using get_peer_upsert_known [of p "key_bytes C vk" None t d] lookup_by_SomeD
    by (fastforce simp: get_peer_def)
  have "get_peer (mark_forked p ?f) p = Some (r\<lparr>pe_forked := True\<rparr>)" using r by (simp add: get_peer_mark_forked)
  with record_fork_row(2) [of ?u] show ?thesis
    unfolding ing by (simp add: same_log_peers record_fork_row(1))
qed

lemma sample_second_applied: "chain_of sample_db2 sample_peer = [sample_id sample_first, sample_id sample_second]"
proof -
  have chain: "chain_of sample_db1 sample_peer = [sample_id sample_first]" using sample_first_applied by blast
  then have offer: "chain_offer (chain_of sample_db1 sample_peer) (ue_sequence (se_unsigned sample_second))
      (Some (sample_id sample_first)) (sample_id sample_second) = Append"
    by (simp add: chain_offer_def sample_sequence chain_head_def)
  obtain out g where pg: "project_graph sample (sample_id sample_second) (ue_created_at (se_unsigned sample_second))
      (ue_payload (se_unsigned sample_second)) (graph sample_db1) = Inr (out, g, [])"
    using sample_projects sample_payload by metis
  have "log_ok sample_db1" "logged sample (set sample_events) sample_db1"
    using sample_db_ok(2) by (simp_all add: db_ok_def)
  moreover have "length (events sample_db1) < 2 ^ 64 - 1" using sample_small(2) by simp
  ultimately have "\<exists>d'. ingest_remote_event sample 7 sample_second 21 sample_db1 = (Inr (Applied (sample_id sample_second) out), d') \<and>
      appends sample sample_second sample_peer (Some (sample_id sample_first)) (sample_id sample_second) g [] sample_db1 d'"
    using append_remote_outcome [OF _ _ sample_collision_free _ sample_members(2) sample_accepted(2) offer, of 21] pg by simp
  then show ?thesis using appends_effect(3) chain by (fastforce simp: sample_db2_def)
qed

theorem fork_is_contained_witness:
  "fst (ingest_remote_event sample 7 sample_rival 50 sample_db2) =
     Inr (Forked (sample_id sample_second) (sample_id sample_rival))"
proof -
  have "length (events sample_db2) < 2 ^ 64 - 1" using sample_small(3) by simp
  moreover have "chain_offer (chain_of sample_db2 sample_peer) (ue_sequence (se_unsigned sample_rival))
      (Some (sample_id sample_first)) (sample_id sample_rival) = Fork (sample_id sample_second)"
    using sample_ids_differ by (simp add: chain_offer_def sample_sequence sample_second_applied)
  ultimately show ?thesis
    using fork_is_contained [OF sample_reachable(3) _ sample_codecs sample_collision_free sample_readable
        sample_accepted(3) _ sample_fields(2), of "sample_id sample_second" 50] by simp
qed

text \<open>
  C9. A local commit is decided by its payload.  In every reachable state, the event is built for the position after the
  last one of the peer's own chain, with that event as predecessor.  If the payload does not encode, or does not project on
  the graph, the commit reports exactly that error and the database is what it was; otherwise exactly one row is appended,
  the built event at that position, the own chain grows by its id and no other, and the graph becomes the projection.
\<close>

theorem commit_extends_the_own_chain:
  assumes "(peer_step C S)\<^sup>*\<^sup>* empty_db d" and "length (events d) < 2 ^ 64 - 1"
    and "codecs_ok C" and "collision_free C S" and "readable C S" and "p = identity_peer_id C k"
    and "s = of_nat (Suc (length (chain_of d p)))" and "prev = chain_head (chain_of d p)"
    and "\<And>sev eid. build_and_sign C k s prev t pl = Inr (sev, eid) \<Longrightarrow> sev \<in> S"
  shows "case build_and_sign C k s prev t pl of
      Inl e \<Rightarrow> commit_local_event C k pl t d = (Inl e, d)
    | Inr (sev, eid) \<Rightarrow>
        (case project_graph C eid t pl (graph d) of
           Inl e \<Rightarrow> commit_local_event C k pl t d = (Inl e, d)
         | Inr (out, g, refs) \<Rightarrow>
             \<exists>d' row. commit_local_event C k pl t d = (Inr (eid, out), d') \<and> events d' = events d @ [row] \<and> row_of C sev row \<and>
               er_event_id row = eid \<and> er_origin row = p \<and> er_sequence row = s \<and> er_previous row = prev \<and>
               chain_of d' = (chain_of d)(p := chain_of d p @ [eid]) \<and> graph d' = g)"
proof -
  have ok: "log_ok d" "logged C S d" using reachable_db_ok [OF assms(1-5)] by (simp_all add: db_ok_def)
  have pos: "next_position d p = (s, prev)" by (simp add: next_position_chain [OF ok(1)] assms(7,8))
  show ?thesis
  proof (cases "build_and_sign C k s prev t pl")
    case (Inl e)
    with pos assms(6) show ?thesis
      by (simp add: commit_local_event_def transaction_def commit_body_def Let_def)
  next
    case (Inr x)
    then obtain sev eid where build: "build_and_sign C k s prev t pl = Inr (sev, eid)" by (cases x) auto
    have "er_sequence r = s" if "row_of C sev r" for r using that build by (auto simp: row_of_def elim!: build_and_sign_fields)
    with commit_outcome [OF assms(3) ok(1) assms(2,4) ok(2) assms(9) [OF build] assms(6) pos build] build show ?thesis
      by (auto simp: appends_def split: sum.splits prod.splits) (auto simp: chain_of_def origin_rows_def fun_eq_iff)
  qed
qed

theorem commit_extends_the_own_chain_witness:
  "\<exists>out d' row. commit_local_event sample 7 sample_declare 10 empty_db = (Inr (sample_id sample_first, out), d') \<and> events d' = [row] \<and>
     er_sequence row = 1 \<and> er_previous row = None"
proof -
  have built: "build_and_sign sample 7 1 None 10 sample_declare = Inr (sample_first, sample_id sample_first)"
    by (simp add: sample_built sample_first_def)
  have start: "length (events empty_db) < 2 ^ 64 - 1" "1 = (of_nat (Suc (length (chain_of empty_db sample_peer))) :: u64)"
    "None = chain_head (chain_of empty_db sample_peer)"
    by (simp_all add: sample_small chain_of_def origin_rows_def chain_head_def) (simp_all add: empty_db_def)
  obtain out g where "project_graph sample (sample_id sample_first) 10 sample_declare (graph empty_db) = Inr (out, g, [])"
    using sample_projects by metis
  with commit_extends_the_own_chain [OF sample_reachable(1) start(1) sample_codecs sample_collision_free sample_readable sample_peer_def
      start(2,3), of 10 sample_declare] sample_members(1) built
  show ?thesis by (auto simp: empty_db_def)
qed

text \<open>
  What a peer signs, every other peer accepts: an event built by \<^verbatim>\<open>build_and_sign\<close> passes
  \<^verbatim>\<open>verify_and_derive_id\<close> and the origin check under the signer's public key, with the id, the
  origin and the predecessor it was built with.
\<close>

theorem built_event_is_accepted:
  assumes "codecs_ok C" and "build_and_sign C k s prev t pl = Inr (sev, eid)"
    and "\<And>h. prev = Some h \<Longrightarrow> length (event_hash h) = 32"
  shows "verify_and_derive_id C sev (verifying_key C k) = Inr eid \<and>
    check_origin C (verifying_key C k) sev = Inr (eid, identity_peer_id C k, prev)"
  using build_and_sign_verifies [OF _ _ assms(2)] build_and_sign_accepted [OF assms] assms(1)
  by (simp add: codecs_ok_def)

theorem built_event_is_accepted_witness:
  "verify_and_derive_id sample sample_first 7 = Inr (sample_id sample_first)"
  using built_event_is_accepted [OF sample_codecs sample_built, of None 1 10 sample_declare]
  by (simp add: sample_first_def sample_fields)

text \<open>
  C10. Replication carries a chain over: when a peer commits an event and another peer that holds the
  same chain for it receives the signed event, then if the event projects on the receiver's graph, the receiver appends the
  very same event id and the two copies of the chain agree again; if it does not, the receiver reports that error
  and is unchanged.
\<close>

theorem committed_event_replicates:
  assumes "(peer_step C S)\<^sup>*\<^sup>* empty_db a" and "length (events a) < 2 ^ 64 - 1"
    and "(peer_step C S)\<^sup>*\<^sup>* empty_db b" and "length (events b) < 2 ^ 64 - 1"
    and "codecs_ok C" and "collision_free C S" and "readable C S" and "p = identity_peer_id C k"
    and "chain_of b p = chain_of a p" and "next_position a p = (s, prev)"
    and "build_and_sign C k s prev t pl = Inr (sev, eid)" and "sev \<in> S"
    and "commit_local_event C k pl t a = (Inr (eid', out), a')"
  shows "eid' = eid \<and> chain_of a' p = chain_of a p @ [eid] \<and>
    (case project_graph C eid t pl (graph b) of
       Inl e \<Rightarrow> ingest_remote_event C (verifying_key C k) sev t' b = (Inl e, b)
     | Inr (out_b, g_b, refs_b) \<Rightarrow>
         \<exists>b'. ingest_remote_event C (verifying_key C k) sev t' b = (Inr (Applied eid out_b), b') \<and>
           chain_of b' p = chain_of a' p \<and> graph b' = g_b)"
proof -
  have ok: "log_ok a" "logged C S a" "log_ok b" "logged C S b"
    using reachable_db_ok [OF assms(1,2,5-7)] reachable_db_ok [OF assms(3-7)] by (simp_all add: db_ok_def)
  have a': "eid' = eid" "chain_of a' p = chain_of a p @ [eid]"
    using commit_outcome [OF assms(5) ok(1) assms(2,6) ok(2) assms(12,8,10,11)] assms(13)
    by (auto split: sum.splits dest!: appends_effect(3))
  have u: "ue_sequence (se_unsigned sev) = s" "ue_created_at (se_unsigned sev) = t" "ue_payload (se_unsigned sev) = pl"
    using assms(11) by (auto elim!: build_and_sign_fields)
  have sp: "s = of_nat (Suc (length (chain_of a p)))" "prev = chain_head (chain_of a p)"
    using assms(10) next_position_chain [OF ok(1), of p] by simp_all
  have "Suc (length (chain_of a p)) < 2 ^ 64" using chain_of_le [of a p] assms(2) by simp
  then have "unat s = Suc (length (chain_of a p))" using sp(1) of_nat_eq_iff_unat by blast
  then have offer: "chain_offer (chain_of b p) (ue_sequence (se_unsigned sev)) prev eid = Append"
    using sp(2) by (simp add: chain_offer_def u assms(9))
  have "blake3_digest C" using assms(5) by (simp add: codecs_ok_def)
  moreover have "h \<in> set (map er_event_id (events a))" if "prev = Some h" for h
    using that sp(2) last_in_set [of "chain_of a p"]
    by (auto simp: chain_head_def chain_of_def origin_rows_def split: if_splits)
  ultimately have "\<And>h. prev = Some h \<Longrightarrow> length (event_hash h) = 32"
    using ok(2) event_id_derive_length [of C] by (fastforce simp: logged_def row_of_def)
  from build_and_sign_accepted [OF assms(5,11) this]
  have "check_origin C (verifying_key C k) sev = Inr (eid, p, prev)" by (simp add: assms(8))
  from append_remote_outcome [OF ok(3) assms(4,6) ok(4) assms(12) this offer, of t']
  show ?thesis using a' assms(9) by (auto simp: u appends_effect(1) appends_effect(3) split: sum.splits)
qed

theorem committed_event_replicates_witness:
  "\<exists>out b'. ingest_remote_event sample 7 sample_first 11 empty_db = (Inr (Applied (sample_id sample_first) out), b')"
proof -
  have pos: "next_position empty_db sample_peer = (1, None)"
    by (simp add: next_position_def get_origin_def empty_db_def lookup_by_def)
  have built: "build_and_sign sample 7 1 None 10 sample_declare = Inr (sample_first, sample_id sample_first)"
    by (simp add: sample_built sample_first_def)
  have ok: "log_ok empty_db" "logged sample (set sample_events) empty_db"
    using sample_db_ok(1) by (simp_all add: db_ok_def)
  have small: "length (events empty_db) < 2 ^ 64 - 1" by (simp add: sample_small)
  obtain out g where pg: "project_graph sample (sample_id sample_first) 10 sample_declare (graph empty_db) = Inr (out, g, [])"
    using sample_projects by metis
  obtain a' where "commit_local_event sample 7 sample_declare 10 empty_db = (Inr (sample_id sample_first, out), a')"
    using commit_outcome [OF sample_codecs ok(1) small sample_collision_free ok(2) sample_members(1) sample_peer_def pos built]
      pg by auto
  from committed_event_replicates [OF sample_reachable(1) small sample_reachable(1) small sample_codecs
      sample_collision_free sample_readable sample_peer_def refl pos built sample_members(1) this, of 11]
  show ?thesis using pg by (auto simp: sample_fields)
qed

text \<open>
  C11. A rebuild reproduces the peer exactly: in every reachable state, wiping the projection tables
  (no foreign key gets in the way), replaying the whole log in insertion order and reapplying the
  tombstones succeeds and yields the same database, row for row, and reports how much it replayed.
\<close>

theorem rebuild_reproduces_the_database:
  assumes "(peer_step C S)\<^sup>*\<^sup>* empty_db d" and "length (events d) < 2 ^ 64 - 1"
    and "codecs_ok C" and "collision_free C S" and "readable C S"
  shows "rebuild_projection C d =
    (Inr \<lparr>events_replayed = length (events d), redactions_reapplied = length (redactions d),
          actor_redactions_reapplied = length (actor_redactions d)\<rparr>, d)"
  using reachable_db_ok [OF assms] by (simp add: db_ok_def rebuild_projected)

theorem rebuild_reproduces_the_database_witness: "snd (rebuild_projection sample sample_db2) = sample_db2"
proof -
  have "length (events sample_db2) < 2 ^ 64 - 1" using sample_small(3) by simp
  from rebuild_reproduces_the_database [OF sample_reachable(3) this sample_codecs sample_collision_free sample_readable]
  show ?thesis by simp
qed

end
