(* ===== verification/Access.thy ===== *)
theory Access
  imports Sample Service
begin

text \<open>
  What callers and events may do to the graph: the life of an assertion, of an API key and of a
  redaction, and what the handlers of \<^verbatim>\<open>GraphService\<close> demand of their callers.
\<close>

section \<open>A small graph\<close>

definition sample_assertion :: assertion where
  "sample_assertion =
     \<lparr>assertion_id = EventId (replicate 32 2), assertion_edge_id = EdgeId (replicate 32 3),
      assertion_actor_id = ActorId (replicate 32 1), assertion_confidence = None, assertion_observed_at = None,
      assertion_asserted_at = 5, assertion_method = Direct, assertion_status = Active\<rparr>"

definition sample_graph :: graph where
  "sample_graph = empty_graph
     \<lparr>actors := [\<lparr>ac_id = ActorId (replicate 32 1), ac_actor_type = ''agent'', ac_name = None, ac_public_key = None,
                  ac_identity_uri = None, ac_metadata = JNull, ac_created_at = 4\<rparr>],
      assertions := [assertion_to_row sample_assertion]\<rparr>"

lemma sample_graph_reads:
  "assertions_get_by_id sample_graph (EventId (replicate 32 2)) = Inr (Some sample_assertion)"
  by (simp add: sample_graph_def assertions_get_by_id_def lookup_by_def)
    (simp add: assertion_to_row_def sample_assertion_def row_to_assertion_def extraction.parse_as_str
      extraction_method_parse_def assertion_status_parse_def)

lemma sample_hex:
  "event_id_from_str sample (event_id_to_hex sample (EventId (replicate 32 n))) = Inr (EventId (replicate 32 n))"
  "actor_id_from_str sample (hash32_to_hex sample (replicate 32 n)) = Inr (ActorId (replicate 32 n))"
  using event_id_round_trip [of sample "EventId (replicate 32 n)"] actor_id_round_trip [of sample "ActorId (replicate 32 n)"]
    sample_codecs by (simp_all add: codecs_ok_def)

section \<open>The life of an assertion\<close>

text \<open>
  A lifecycle event that projects finds its assertion and changes only its status: the
  dispute, retraction or supersession sets \<^verbatim>\<open>Disputed\<close>, \<^verbatim>\<open>Retracted\<close> or \<^verbatim>\<open>Superseded\<close> on the
  assertion it names, every other column of it and every other assertion reads as before.
\<close>

theorem lifecycle_event_sets_status:
  assumes "lifecycle_target C pl = (Inr i, st)" and "project_graph C eid t pl g = Inr (out, g', refs)"
  shows "\<exists>a. assertions_get_by_id g i = Inr (Some a) \<and>
     assertions_get_by_id g' i = Inr (Some (a\<lparr>assertion_status := st\<rparr>)) \<and>
     (\<forall>j. j \<noteq> i \<longrightarrow> assertions_get_by_id g' j = assertions_get_by_id g j)"
  by (rule lifecycle_status [OF assms])

definition sample_dispute :: event_payload where
  "sample_dispute = DisputeAssertion
     \<lparr>dsp_assertion_id = event_id_to_hex sample (EventId (replicate 32 2)),
      dsp_actor_id = hash32_to_hex sample (replicate 32 1), dsp_reason = None\<rparr>"

lemma sample_dispute_projects:
  "project_graph sample (EventId []) 9 sample_dispute sample_graph =
     Inr (Unit, assertions_set_status (EventId (replicate 32 2)) Disputed
        (sample_graph\<lparr>disputes := [\<lparr>dp_id = EventId [], dp_assertion_id = EventId (replicate 32 2),
           dp_actor_id = ActorId (replicate 32 1), dp_reason = None, dp_created_at = 9\<rparr>]\<rparr>),
        [(''assertion'', replicate 32 2)])"
proof -
  have "require_assertion sample_graph (EventId (replicate 32 2)) s = Inr ()" for s
    using sample_graph_reads by (auto simp: require_assertion_Inr)
  moreover have "has_key as_id (assertions sample_graph) (EventId (replicate 32 2))"
    "has_key ac_id (actors sample_graph) (ActorId (replicate 32 1))" "disputes sample_graph = []"
    by (simp_all add: sample_graph_def empty_graph_def has_key_def assertion_to_row_def sample_assertion_def)
  ultimately show ?thesis
    by (simp add: sample_dispute_def project_graph_def project_dispute_assertion_def sample_hex insert_dispute_def)
qed

theorem lifecycle_event_sets_status_witness:
  "case project_graph sample (EventId []) 9 sample_dispute sample_graph of
     Inl _ \<Rightarrow> False
   | Inr (_, g', _) \<Rightarrow> assertions_get_by_id g' (EventId (replicate 32 2)) =
       Inr (Some (sample_assertion\<lparr>assertion_status := Disputed\<rparr>))"
proof -
  have "lifecycle_target sample sample_dispute = (Inr (EventId (replicate 32 2)), Disputed)"
    by (simp add: sample_dispute_def sample_hex)
  from lifecycle_event_sets_status [OF this sample_dispute_projects] sample_graph_reads show ?thesis
    by (simp add: sample_dispute_projects)
qed

text \<open>
  Events never delete or rewrite a row: after projecting any event every table is the old table
  followed by new rows, except that an assertion's status and a key's revocation time may change; and
  the invariant of the tables is kept.
\<close>

theorem projection_is_append_only:
  assumes "graph_ok C g" and "project_graph C eid t pl g = Inr (out, g', refs)"
  shows "grows g g' \<and> graph_ok C g'"
  using project_graph_grows [OF assms(2)] project_graph_ok [OF assms] by simp

theorem projection_is_append_only_witness:
  "\<exists>g' out. project_graph sample (EventId []) 9 sample_declare empty_graph = Inr (out, g', []) \<and> grows empty_graph g' \<and> graph_ok sample g'"
proof -
  obtain out g' where "project_graph sample (EventId []) 9 sample_declare empty_graph = Inr (out, g', [])"
    using sample_projects by blast
  with projection_is_append_only [OF graph_ok_empty] show ?thesis by blast
qed

section \<open>The life of an API key\<close>

lemma authenticate_InvalidApiKey:
  "authenticate C raw g = Inl InvalidApiKey \<longleftrightarrow> find_active_key g (blake3 C (str_bytes raw)) = None"
  by (simp add: authenticate_def split: option.split prod.split)

text \<open>
  C12. The life of an API key, over any sequence of events a peer is offered. As long as no
  \<^verbatim>\<open>ACTOR_KEY_ADD\<close> of its hash was offered to a peer that does not know the hash, the key is
  unknown. Once one has projected, and whatever events follow that do not revoke this hash, the key
  yields the actor it was issued to and the permissions it was issued with (names the peer does not
  know are dropped). From the first \<^verbatim>\<open>ACTOR_KEY_REVOKE\<close> of the hash on, whatever events
  follow, the key is unknown. And from its first issue on, revoked or not, whatever events follow,
  every further \<^verbatim>\<open>ACTOR_KEY_ADD\<close> of the hash is refused.
\<close>

theorem api_key_lifecycle:
  assumes "k = blake3 C (str_bytes raw)" and "\<not> has_key ak_key_hash (actor_keys g) k"
    and "\<forall>ev\<in>set before. \<not> issues C k (snd (snd ev))"
    and "decode_bytes32 C (aka_key_hash p) = Inr k"
    and "project_graph C e t (ActorKeyAdd p) (after_events C before g) = Inr (out, g1, refs)"
    and "\<forall>ev\<in>set between. \<not> revokes C k (snd (snd ev))"
    and "revokes C k (snd (snd revocation))"
    and "decode_bytes32 C (aka_key_hash q) = Inr k"
  shows "authenticate C raw (after_events C before g) = Inl InvalidApiKey \<and>
    (\<exists>a. actor_id_from_str C (aka_actor_id p) = Inr a \<and>
       authenticate C raw (after_events C between g1) =
         Inr \<lparr>auth_actor_id = a, auth_permissions = List.map_filter permission_parse (aka_permissions p)\<rparr>) \<and>
    authenticate C raw (after_events C (between @ revocation # later) g1) = Inl InvalidApiKey \<and>
    project_graph C e' t' (ActorKeyAdd q) (after_events C anything g1) =
      (case actor_id_from_str C (aka_actor_id q) of
         Inl err \<Rightarrow> Inl (IdError err)
       | Inr _ \<Rightarrow> Inl (StorageFailed (Sqlx UniqueViolation)))"
proof -
  let ?g = "after_events C before g" and ?ps = "List.map_filter permission_parse (aka_permissions p)"
  obtain a where a: "actor_id_from_str C (aka_actor_id p) = Inr a" and create: "create_key k a ?ps t ?g = Inr g1"
    using assms(4,5) by (auto simp: project_graph_def project_actor_key_add_def)
  have taken: "has_key ak_key_hash (actor_keys g1) k" using has_key_create [OF create] by simp
  have "find_active_key ?g k = None" by (rule find_active_key_create(1) [OF create])
  moreover have "find_active_key (after_events C between g1) k = Some (a, ?ps)"
    using after_events_active [OF taken] assms(6) find_active_key_create(2) [OF create] by simp
  moreover have "find_active_key (after_events C (between @ revocation # later) g1) k = None"
  proof -
    let ?h = "offer_event C revocation (after_events C between g1)"
    have "has_key ak_key_hash (actor_keys ?h) k" by (intro offer_event_taken after_events_taken taken)
    then have "find_active_key (after_events C later ?h) k = None"
      using after_events_active offer_event_revokes [OF assms(7)] by metis
    then show ?thesis by (simp add: after_events_def)
  qed
  ultimately show ?thesis
    using a taken_key_is_refused [OF after_events_taken [OF taken] assms(8)]
    by (simp add: authenticate_def flip: assms(1))
qed

definition sample_add :: actor_key_add_payload where
  "sample_add =
     \<lparr>aka_actor_id = hash32_to_hex sample (replicate 32 1),
      aka_key_hash = hex_encode sample (blake3 sample (str_bytes ''k'')), aka_permissions = [''graph:read'', ''root'']\<rparr>"

lemma sample_key_hash: "decode_bytes32 sample (hex_encode sample (blake3 sample b)) = Inr (blake3 sample b)"
  using sample_codecs by (simp add: decode_bytes32_def codecs_ok_def hex_codec_def blake3_digest_def)

definition sample_renewal :: actor_key_add_payload where
  "sample_renewal = sample_add\<lparr>aka_permissions := [''admin'']\<rparr>"

theorem api_key_lifecycle_witness:
  "\<exists>g1. project_graph sample (EventId []) 9 (ActorKeyAdd sample_add) sample_graph = Inr (Unit, g1, []) \<and>
     authenticate sample ''k'' sample_graph = Inl InvalidApiKey \<and>
     authenticate sample ''k'' (after_events sample [(EventId [1], 10, ActorKeyAdd sample_renewal)] g1) =
       Inr \<lparr>auth_actor_id = ActorId (replicate 32 1), auth_permissions = [GraphRead]\<rparr> \<and>
     authenticate sample ''k'' (after_events sample [(EventId [1], 10, ActorKeyAdd sample_renewal),
       (EventId [2], 11, ActorKeyRevoke \<lparr>akr_actor_id = [], akr_key_hash = aka_key_hash sample_add\<rparr>),
       (EventId [3], 12, ActorKeyAdd sample_renewal)] g1) = Inl InvalidApiKey \<and>
     project_graph sample (EventId [1]) 10 (ActorKeyAdd sample_renewal) g1 = Inl (StorageFailed (Sqlx UniqueViolation))"
proof -
  let ?k = "blake3 sample (str_bytes ''k'')"
    and ?rv = "(EventId [2], 11, ActorKeyRevoke \<lparr>akr_actor_id = [], akr_key_hash = aka_key_hash sample_add\<rparr>)"
    and ?re = "\<lambda>i t. (EventId [i], t, ActorKeyAdd sample_renewal)"
  obtain g1 where g1: "project_graph sample (EventId []) 9 (ActorKeyAdd sample_add) (after_events sample [] sample_graph) = Inr (Unit, g1, [])"
    by (simp add: after_events_def project_graph_def project_actor_key_add_def sample_add_def sample_hex sample_key_hash create_key_def)
      (simp add: sample_graph_def empty_graph_def has_key_def)
  have hash: "decode_bytes32 sample (aka_key_hash sample_add) = Inr ?k" "decode_bytes32 sample (aka_key_hash sample_renewal) = Inr ?k"
    by (simp_all add: sample_renewal_def sample_add_def sample_key_hash)
  have "\<not> has_key ak_key_hash (actor_keys sample_graph) ?k" by (simp add: sample_graph_def empty_graph_def has_key_def)
  note life = api_key_lifecycle [OF refl this _ hash(1) g1 _ _ hash(2), of "[?re 1 10]" ?rv "[?re 3 12]" "EventId [1]" 10 "[]"]
  have "actor_id_from_str sample (aka_actor_id sample_add) = Inr (ActorId (replicate 32 1))"
    "actor_id_from_str sample (aka_actor_id sample_renewal) = Inr (ActorId (replicate 32 1))"
    by (simp_all add: sample_renewal_def sample_add_def sample_hex)
  with life g1 hash show ?thesis
    by (simp add: after_events_def sample_add_def permission_parse_def List.map_filter_simps)
qed

text \<open>
  C13. Key events are not tied to the peer that sends them: once a peer has applied an
  \<^verbatim>\<open>ACTOR_KEY_ADD\<close> of any other peer that lists \<^verbatim>\<open>admin\<close>, whoever holds the raw key
  authenticates at this peer and passes every permission check.
\<close>

theorem remote_key_add_grants_admin:
  assumes "(peer_step C S)\<^sup>*\<^sup>* empty_db d" and "length (events d) < 2 ^ 64 - 1"
    and "codecs_ok C" and "collision_free C S" and "readable C S" and "sev \<in> S"
    and "ue_payload (se_unsigned sev) = ActorKeyAdd p" and "''admin'' \<in> set (aka_permissions p)"
    and "decode_bytes32 C (aka_key_hash p) = Inr (blake3 C (str_bytes raw))"
    and "ingest_remote_event C vk sev t d = (Inr (Applied eid out), d')"
  shows "\<exists>auth. authenticate C raw (graph d') = Inr auth \<and> (\<forall>perm. require auth perm = Inr ())"
proof -
  let ?ps = "List.map_filter permission_parse (aka_permissions p)"
  have ok: "log_ok d" "logged C S d" using reachable_db_ok [OF assms(1-5)] by (simp_all add: db_ok_def)
  obtain eid' q prev where origin: "check_origin C vk sev = Inr (eid', q, prev)"
    using assms(10) by (auto simp: ingest_remote_event_def transaction_def ingest_body_def split: sum.splits)
  have app: "chain_offer (chain_of d q) (ue_sequence (se_unsigned sev)) prev eid' = Append"
    using ingest_not_appended [OF ok(1) assms(2) origin, of t] assms(10) by (auto split: chain_reply.splits sum.splits)
  obtain refs where "project_graph C eid' (ue_created_at (se_unsigned sev)) (ActorKeyAdd p) (graph d) = Inr (out, graph d', refs)"
    using append_remote_outcome [OF ok(1) assms(2,4) ok(2) assms(6) origin app, of t] assms(7,10)
    by (auto split: sum.splits dest: appends_effect(1))
  then obtain a where "create_key (blake3 C (str_bytes raw)) a ?ps (ue_created_at (se_unsigned sev)) (graph d) = Inr (graph d')"
    using assms(9) by (auto simp: project_graph_def project_actor_key_add_def)
  from find_active_key_create(2) [OF this]
  have "authenticate C raw (graph d') = Inr \<lparr>auth_actor_id = a, auth_permissions = ?ps\<rparr>"
    by (simp add: authenticate_def)
  moreover have "permission_parse ''admin'' = Some Admin" by (simp add: permission_parse_def)
  then have "Admin \<in> set ?ps" using assms(8) by (force simp: map_filter_def)
  ultimately show ?thesis by (simp add: require_def)
qed

theorem remote_key_add_grants_admin_witness:
  "\<exists>d' auth. fst (ingest_remote_event sample 7 sample_key 41 sample_db1) = Inr (Applied (sample_id sample_key) Unit) \<and>
     d' = snd (ingest_remote_event sample 7 sample_key 41 sample_db1) \<and>
     authenticate sample ''k'' (graph d') = Inr auth \<and> require auth Admin = Inr ()"
proof -
  have ok: "log_ok sample_db1" "logged sample (set sample_events) sample_db1" using sample_db_ok(2) by (simp_all add: db_ok_def)
  have small: "length (events sample_db1) < 2 ^ 64 - 1" using sample_small(2) by simp
  have hash: "decode_bytes32 sample (aka_key_hash sample_key_add) = Inr (blake3 sample (str_bytes ''k''))"
    using sample_key_hash [of "str_bytes ''k''"] by (simp add: sample_key_add_def sample_def sample_codec_def)
  have "length (actor_hash sample_actor) = 32"
    using sample_codecs by (simp add: sample_actor_eq actor_id_derive_def hash32_derive_def codecs_ok_def blake3_digest_def)
  then have actor: "actor_id_from_str sample (aka_actor_id sample_key_add) = Inr sample_actor"
    using actor_id_round_trip [of sample sample_actor] sample_codecs
    by (simp add: codecs_ok_def sample_key_add_def hash32_to_hex_def sample_def sample_codec_def)
  have offer: "chain_offer (chain_of sample_db1 sample_peer) (ue_sequence (se_unsigned sample_key))
      (Some (sample_id sample_first)) (sample_id sample_key) = Append"
    using sample_first_applied by (auto simp: chain_offer_def sample_sequence chain_head_def)
  have "actor_keys (graph sample_db1) = []" "has_key ac_id (actors (graph sample_db1)) sample_actor"
    using sample_first_applied by blast+
  then have "\<exists>g. project_graph sample (sample_id sample_key) (ue_created_at (se_unsigned sample_key))
      (ue_payload (se_unsigned sample_key)) (graph sample_db1) = Inr (Unit, g, [])"
    by (simp add: sample_payload project_graph_def project_actor_key_add_def actor hash create_key_def)
  then obtain d' where ing: "ingest_remote_event sample 7 sample_key 41 sample_db1 = (Inr (Applied (sample_id sample_key) Unit), d')"
    using append_remote_outcome [OF ok(1) small sample_collision_free ok(2) sample_members(4) sample_accepted(4) offer, of 41] by auto
  have "''admin'' \<in> set (aka_permissions sample_key_add)" by (simp add: sample_key_add_def)
  from remote_key_add_grants_admin [OF sample_reachable(2) small sample_codecs sample_collision_free sample_readable
      sample_members(4) sample_payload(3) this hash ing] ing
  show ?thesis by auto
qed

section \<open>Redaction\<close>

text \<open>
  Redacting a piece of evidence takes an admin, blanks its title and excerpt and nothing else in
  the graph, leaves the log alone, records one tombstone, and cannot be repeated.
\<close>

theorem redaction_is_exact:
  assumes "redact_evidence C auth i reason now d = (Inr (), d')"
  shows "Admin \<in> set (auth_permissions auth) \<and> events d' = events d \<and>
    graph d' = (graph d)\<lparr>evidences := map (\<lambda>r. if ev_id r = i then r\<lparr>ev_title := None, ev_excerpt := None\<rparr> else r)
                          (evidences (graph d))\<rparr> \<and>
    redactions d' = redactions d @ [\<lparr>rd_event_id = i, rd_redacted_at = now, rd_reason = reason\<rparr>] \<and>
    redact_evidence C auth i reason later d' = (Inl (AlreadyRedacted i), d')"
proof -
  note red = redact_evidence_committed [OF assms]
  have "check_opt_len ''reason'' reason MAX_REASON_LEN = Inr ()"
    using assms by (auto simp: redact_evidence_def transaction_def redact_evidence_body_def split: sum.splits)
  then have "redact_evidence C auth i reason later d' = (Inl (AlreadyRedacted i), d')"
    using red(1) by (simp add: redact_evidence_def transaction_def redact_evidence_body_def require_def red(5)
        redactions_exists_def)
  then show ?thesis using red(1) by (simp add: red(5) redact_evidence_row_def update_where_def)
qed

definition sample_evidence_db :: db where
  "sample_evidence_db = sample_db1\<lparr>graph := (graph sample_db1)\<lparr>evidences :=
     [\<lparr>ev_id = sample_id sample_first, ev_assertion_id = EventId [], ev_evidence_type = ''other'', ev_uri = None,
       ev_title = Some ''t'', ev_excerpt = Some ''x'', ev_content_hash = None, ev_observed_at = None,
       ev_retrieved_at = None, ev_metadata = JNull\<rparr>]\<rparr>, redactions := []\<rparr>"

theorem redaction_is_exact_witness:
  "map ev_title (evidences (graph (snd (redact_evidence sample \<lparr>auth_actor_id = ActorId [], auth_permissions = [Admin]\<rparr>
      (sample_id sample_first) None 60 sample_evidence_db)))) = [None]"
proof -
  let ?d = sample_evidence_db
  let ?auth = "\<lparr>auth_actor_id = ActorId [], auth_permissions = [Admin]\<rparr>"
  have "sample_id sample_first \<in> set (chain_of sample_db1 sample_peer)" using sample_first_applied by auto
  then have "has_key er_event_id (events ?d) (sample_id sample_first)"
    by (auto simp: chain_of_def origin_rows_def has_key_def sample_evidence_db_def)
  then obtain d' where d': "redact_evidence sample ?auth (sample_id sample_first) None 60 ?d = (Inr (), d')"
    by (simp add: redact_evidence_def transaction_def redact_evidence_body_def require_def check_opt_len_def
        redactions_exists_def redact_evidence_row_def redactions_insert_def has_key_def sample_evidence_db_def)
  with redaction_is_exact [OF d'] show ?thesis by (simp add: sample_evidence_db_def)
qed

section \<open>The handlers and their callers\<close>

text \<open>
  No handler acts for a caller without the permission it names: without it, and without
  \<^verbatim>\<open>admin\<close>, each answers \<^verbatim>\<open>PermissionDenied\<close> with that permission and the database is
  untouched.
\<close>

theorem handlers_demand_permission:
  assumes "Admin \<notin> set (auth_permissions auth)"
  shows "(GraphAssert \<notin> set (auth_permissions auth) \<longrightarrow>
      assert_relation C k auth i now d = (Inl (PermissionDenied ''graph:assert''), d) \<and>
      add_evidence C k auth a e t d = (Inl (PermissionDenied ''graph:assert''), d) \<and>
      declare_alias C k auth n al at t d = (Inl (PermissionDenied ''graph:assert''), d) \<and>
      dispute_assertion C k auth a reason t d = (Inl (PermissionDenied ''graph:assert''), d) \<and>
      supersede_assertion C k auth a b t d = (Inl (PermissionDenied ''graph:assert''), d)) \<and>
    (GraphVerify \<notin> set (auth_permissions auth) \<longrightarrow>
      verify_assertion C k auth a res obs t d = (Inl (PermissionDenied ''graph:verify''), d)) \<and>
    (GraphRetractOwn \<notin> set (auth_permissions auth) \<longrightarrow>
      retract_assertion C k auth a reason t d = (Inl (PermissionDenied ''graph:retract-own''), d)) \<and>
    redact_evidence C auth a reason t d = (Inl (PermissionDenied ''admin''), d) \<and>
    redact_actor_identity_uri C auth b' reason t d = (Inl (PermissionDenied ''admin''), d)"
  using assms
  by (simp add: assert_relation_def add_evidence_def declare_alias_def dispute_assertion_def supersede_assertion_def
      verify_assertion_def retract_assertion_def redact_evidence_def redact_actor_identity_uri_def transaction_def
      redact_evidence_body_def redact_actor_body_def require_def)

text \<open>The sample codec with a \<^verbatim>\<open>url\<close> crate that knows no URL.\<close>

definition sample_service :: "(byte, byte, string) service" where
  "sample_service = codec.extend sample
     (service.fields (\<lambda>_. None) id (\<lambda>_ u. u) (\<lambda>_. None) (\<lambda>_ u. u) (\<lambda>_. []) (\<lambda>_ u. u) id (\<lambda>_. 2)
        (\<lambda>_. Inr []) (\<lambda>b. case b of [w] \<Rightarrow> Some w | _ \<Rightarrow> None))"

theorem handlers_demand_permission_witness:
  "verify_assertion sample_service 7 \<lparr>auth_actor_id = ActorId [], auth_permissions = [GraphRead, GraphAssert]\<rparr> (EventId []) Confirmed 1 2
     empty_db = (Inl (PermissionDenied ''graph:verify''), empty_db)"
  using handlers_demand_permission [of "\<lparr>auth_actor_id = ActorId [], auth_permissions = [GraphRead, GraphAssert]\<rparr>" sample_service]
  by simp

text \<open>
  \<^verbatim>\<open>retract-own\<close> means own: a retraction only succeeds on an existing assertion that the
  caller made, or for an admin, and then sets exactly its status to \<^verbatim>\<open>Retracted\<close>.
\<close>

theorem retraction_is_by_its_owner:
  assumes "hex_codec C" and "length (event_hash i) = 32"
    and "retract_assertion C k auth i reason t d = (Inr (), d')"
  shows "\<exists>a. assertions_get_by_id (graph d) i = Inr (Some a) \<and>
    (assertion_actor_id a = auth_actor_id auth \<and> GraphRetractOwn \<in> set (auth_permissions auth) \<or>
     Admin \<in> set (auth_permissions auth)) \<and>
    assertions_get_by_id (graph d') i = Inr (Some (a\<lparr>assertion_status := Retracted\<rparr>))"
proof -
  let ?pl = "RetractAssertion \<lparr>ret_assertion_id = event_id_to_hex C i,
      ret_actor_id = hash32_to_hex C (actor_hash (auth_actor_id auth)), ret_reason = reason\<rparr>"
  have perm: "GraphRetractOwn \<in> set (auth_permissions auth) \<or> Admin \<in> set (auth_permissions auth)"
    using assms(3) by (cases rule: require_cases [of auth GraphRetractOwn]) (auto simp: retract_assertion_def)
  obtain a where a: "assertions_get_by_id (graph d) i = Inr (Some a)"
    and own: "assertion_actor_id a = auth_actor_id auth \<or> Admin \<in> set (auth_permissions auth)"
    and commit: "svc_bind (commit_event C k ?pl t) (\<lambda>_. svc_check (Inr ())) d = (Inr (), d')"
    using assms(3) unfolding retract_assertion_def
    by (auto simp: get_assertion_def svc_check_def elim!: svc_bind_InrE split: if_splits)
  obtain eid out refs where "project_graph C eid t ?pl (graph d) = Inr (out, graph d', refs)"
    using commit by (rule commit_then_unit)
  moreover have "lifecycle_target C ?pl = (Inr i, Retracted)" using event_id_round_trip [OF assms(1,2)] by simp
  ultimately show ?thesis using lifecycle_status a own perm by fastforce
qed

text \<open>On a database whose log is empty, a peer commits whatever projects.\<close>

lemma commit_first:
  assumes "codecs_ok C" and "build_and_sign C k 1 None t pl = Inr (sev, eid)"
    and "project_graph C eid t pl g = Inr (out, g', refs)"
  shows "\<exists>d'. commit_local_event C k pl t (empty_db\<lparr>graph := g\<rparr>) = (Inr (eid, out), d') \<and> graph d' = g'"
proof -
  let ?d = "empty_db\<lparr>graph := g\<rparr>" and ?p = "identity_peer_id C k"
  have "log_ok ?d" using log_ok_empty log_ok_cong [of ?d empty_db] by simp
  moreover have "logged C {sev} ?d" "collision_free C {sev}" by (simp_all add: logged_def empty_db_def collision_free_def)
  moreover have "next_position ?d ?p = (1, None)"
    by (simp add: next_position_def get_origin_def empty_db_def lookup_by_def)
  ultimately show ?thesis
    using commit_outcome [OF assms(1), of ?d "{sev}" sev ?p k 1 None t pl eid] assms(2,3) appends_effect(1)
    by (fastforce simp: empty_db_def)
qed

definition sample_retract :: event_payload where
  "sample_retract = RetractAssertion
     \<lparr>ret_assertion_id = event_id_to_hex sample (EventId (replicate 32 2)),
      ret_actor_id = hash32_to_hex sample (replicate 32 1), ret_reason = None\<rparr>"

theorem retraction_is_by_its_owner_witness:
  "\<exists>d'. retract_assertion sample 7 \<lparr>auth_actor_id = ActorId (replicate 32 1), auth_permissions = [GraphRetractOwn]\<rparr>
      (EventId (replicate 32 2)) None 70 (empty_db\<lparr>graph := sample_graph\<rparr>) = (Inr (), d') \<and>
    assertions_get_by_id (graph d') (EventId (replicate 32 2)) = Inr (Some (sample_assertion\<lparr>assertion_status := Retracted\<rparr>))"
proof -
  let ?i = "EventId (replicate 32 2)" and ?d = "empty_db\<lparr>graph := sample_graph\<rparr>"
  let ?auth = "\<lparr>auth_actor_id = ActorId (replicate 32 1), auth_permissions = [GraphRetractOwn]\<rparr>"
  have "require_assertion sample_graph ?i s = Inr ()" for s
    using sample_graph_reads by (auto simp: require_assertion_Inr)
  moreover have "has_key as_id (assertions sample_graph) ?i"
    "has_key ac_id (actors sample_graph) (ActorId (replicate 32 1))" "retractions sample_graph = []"
    by (simp_all add: sample_graph_def empty_graph_def has_key_def assertion_to_row_def sample_assertion_def)
  ultimately have "\<exists>g' refs. project_graph sample (sample_id (sample_build 1 None 70 sample_retract)) 70 sample_retract sample_graph
      = Inr (Unit, g', refs)"
    by (simp add: sample_retract_def project_graph_def project_retract_assertion_def sample_hex insert_retraction_def)
  then obtain d' eid where "commit_local_event sample 7 sample_retract 70 ?d = (Inr (eid, Unit), d')"
    using commit_first [OF sample_codecs sample_built] by blast
  then have "retract_assertion sample 7 ?auth ?i None 70 ?d = (Inr (), d')"
    using sample_graph_reads
    by (simp add: retract_assertion_def require_def check_opt_len_def get_assertion_def svc_bind_def svc_check_def
        commit_event_def sample_assertion_def sample_retract_def)
  moreover have "hex_codec sample" using sample_codecs by (simp add: codecs_ok_def)
  ultimately show ?thesis using retraction_is_by_its_owner [of sample ?i 7 ?auth None 70 ?d d'] sample_graph_reads by auto
qed

lemma assert_relation_reads:
  assumes "hex_codec C" and "length (actor_hash (auth_actor_id auth)) = 32"
    and "assert_relation C k auth i now d = (Inr aid, d')"
  shows "assertions_get_by_id (graph d') aid = Inr (Some
      \<lparr>assertion_id = aid,
       assertion_edge_id = edge_id_from_triple C
         (node_id_from_canonical_identifier C (fst (canonicalize_value C (in_subject i))))
         (predicate_new (in_predicate i))
         (node_id_from_canonical_identifier C (fst (canonicalize_value C (in_object i)))),
       assertion_actor_id = auth_actor_id auth, assertion_confidence = in_actor_confidence i,
       assertion_observed_at = in_observed_at i, assertion_asserted_at = now 0,
       assertion_method = (case in_extraction_method i of Some m \<Rightarrow> m | None \<Rightarrow> Direct),
       assertion_status = Active\<rparr>) \<and>
    length (evidences (graph d')) = length (evidences (graph d)) + length (in_evidence i) \<and>
    length (in_subject i) \<le> 2048 \<and> length (in_object i) \<le> 2048 \<and> length (in_predicate i) \<le> 128 \<and>
    length (in_evidence i) \<le> 20"
proof -
  obtain out d1 where valid: "assert_validate C i = Inr ()"
    and commit: "commit_local_event C k (AssertRelation (assert_payload C auth i)) (now 0) d = (Inr (aid, out), d1)"
    and evidence: "add_evidence_each C k aid (in_evidence i) now 1 d1 = (Inr (), d')"
    using assms(3) unfolding assert_relation_def
    by (auto simp: svc_check_def commit_event_Inr elim!: svc_bind_InrE)
  let ?p = "assert_payload C auth i"
  have p: "asr_subject_identifier ?p = fst (canonicalize_value C (in_subject i))"
    "asr_object_identifier ?p = fst (canonicalize_value C (in_object i))" "asr_predicate ?p = in_predicate i"
    "asr_actor_id ?p = hash32_to_hex C (actor_hash (auth_actor_id auth))" "asr_actor_confidence ?p = in_actor_confidence i"
    "asr_observed_at ?p = in_observed_at i"
    "asr_extraction_method ?p = extraction_method_as_str (case in_extraction_method i of Some m \<Rightarrow> m | None \<Rightarrow> Direct)"
    by (simp_all add: assert_payload_def Let_def split: prod.splits)
  obtain refs where "project_assert_relation C aid (now 0) ?p (graph d) = Inr (graph d1, refs)"
    using commit by (auto simp: project_graph_def elim!: commit_projects)
  then obtain a m where "actor_id_from_str C (asr_actor_id ?p) = Inr a"
    "extraction_method_parse (asr_extraction_method ?p) = Some m"
    and read: "assertions_get_by_id (graph d1) aid = Inr (Some
       \<lparr>assertion_id = aid,
        assertion_edge_id = edge_id_from_triple C (node_id_from_canonical_identifier C (asr_subject_identifier ?p))
          (predicate_new (asr_predicate ?p)) (node_id_from_canonical_identifier C (asr_object_identifier ?p)),
        assertion_actor_id = a, assertion_confidence = asr_actor_confidence ?p,
        assertion_observed_at = asr_observed_at ?p, assertion_asserted_at = now 0,
        assertion_method = m, assertion_status = Active\<rparr>)"
    and ev: "length (evidences (graph d1)) = length (evidences (graph d))"
    by (rule project_assert_relation_reads)
  then have "a = auth_actor_id auth" "m = (case in_extraction_method i of Some m \<Rightarrow> m | None \<Rightarrow> Direct)"
    using actor_id_round_trip [OF assms(1,2)] by (simp_all add: p extraction.parse_as_str)
  moreover have "length (in_subject i) \<le> 2048" "length (in_object i) \<le> 2048" "length (in_predicate i) \<le> 128"
    "length (in_evidence i) \<le> 20"
    using valid by (auto simp: assert_validate_def check_len_def MAX_IDENTIFIER_LEN_def MAX_PREDICATE_LEN_def
        MAX_EVIDENCE_PER_ASSERTION_def split: if_splits)
  ultimately show ?thesis
    using add_evidence_each_effect [OF evidence] get_by_id_cong [of "graph d'" "graph d1"] read ev by (simp add: p)
qed

text \<open>
  A successful \<^verbatim>\<open>assert\<close> records the caller's claim: the returned id reads back as an active
  assertion of the calling actor on the edge between the canonical subject and object, with the
  confidence, observation time and extraction method that were given; one evidence row per item is
  added; and the input was within every size limit.
\<close>

theorem assert_records_the_claim:
  assumes "hex_codec C" and "length (actor_hash (auth_actor_id auth)) = 32"
    and "assert_relation C k auth i now d = (Inr aid, d')"
  shows "assertions_get_by_id (graph d') aid = Inr (Some
      \<lparr>assertion_id = aid,
       assertion_edge_id = edge_id_from_triple C
         (node_id_from_canonical_identifier C (fst (canonicalize_value C (in_subject i))))
         (predicate_new (in_predicate i))
         (node_id_from_canonical_identifier C (fst (canonicalize_value C (in_object i)))),
       assertion_actor_id = auth_actor_id auth, assertion_confidence = in_actor_confidence i,
       assertion_observed_at = in_observed_at i, assertion_asserted_at = now 0,
       assertion_method = (case in_extraction_method i of Some m \<Rightarrow> m | None \<Rightarrow> Direct),
       assertion_status = Active\<rparr>) \<and>
    length (evidences (graph d')) = length (evidences (graph d)) + length (in_evidence i) \<and>
    length (in_subject i) \<le> 2048 \<and> length (in_object i) \<le> 2048 \<and> length (in_predicate i) \<le> 128 \<and>
    length (in_evidence i) \<le> 20"
  by (rule assert_relation_reads [OF assms])

definition sample_claim :: assert_input where
  "sample_claim =
     \<lparr>in_subject = ''a'', in_subject_type = None, in_predicate = ''uses'', in_object = ''a'', in_object_type = None,
      in_evidence = [], in_actor_confidence = None, in_observed_at = Some 3, in_extraction_method = None\<rparr>"

lemma sample_service_codec:
  "codecs_ok sample_service"
  "build_and_sign sample_service 7 s None t pl = Inr (sample_build s None t pl, sample_id (sample_build s None t pl))"
proof -
  show "codecs_ok sample_service"
    using sample_codecs by (simp add: sample_service_def codecs_ok_def hex_codec_def base32_codec_def blake3_digest_def
        sign_verify_def codec.defs service.defs)
  have "build_and_sign sample_service 7 s None t pl = build_and_sign sample 7 s None t pl"
    by (simp add: sample_service_def build_and_sign_def Let_def codec.defs service.defs
        sign_with_domain_def peer_id_to_string_def identity_peer_id_def peer_id_from_public_key_def
        event_id_derive_def hash32_derive_def)
  then show "build_and_sign sample_service 7 s None t pl = Inr (sample_build s None t pl, sample_id (sample_build s None t pl))"
    by (simp add: sample_built)
qed

theorem assert_records_the_claim_witness:
  "\<exists>aid d' a. assert_relation sample_service 7 \<lparr>auth_actor_id = ActorId (replicate 32 1), auth_permissions = [GraphAssert]\<rparr>
      sample_claim (\<lambda>_. 80) (empty_db\<lparr>graph := sample_graph\<rparr>) = (Inr aid, d') \<and>
    assertions_get_by_id (graph d') aid = Inr (Some a) \<and> assertion_actor_id a = ActorId (replicate 32 1)"
proof -
  let ?C = sample_service and ?d = "empty_db\<lparr>graph := sample_graph\<rparr>"
  let ?auth = "\<lparr>auth_actor_id = ActorId (replicate 32 1), auth_permissions = [GraphAssert]\<rparr>"
  let ?p = "assert_payload ?C ?auth sample_claim"
  let ?eid = "sample_id (sample_build 1 None 80 (AssertRelation ?p))"
  have hex: "hex_codec ?C" using sample_service_codec(1) by (simp add: codecs_ok_def)
  have p: "asr_subject_identifier ?p = asr_object_identifier ?p" "asr_extraction_method ?p = ''direct''"
    "asr_actor_id ?p = hash32_to_hex ?C (replicate 32 1)"
    by (simp_all add: assert_payload_def Let_def sample_claim_def split: prod.splits)
  have "actor_id_from_str ?C (hash32_to_hex ?C (replicate 32 1)) = Inr (ActorId (replicate 32 1))"
    using actor_id_round_trip [OF hex, of "ActorId (replicate 32 1)"] by simp
  moreover have "\<not> has_key as_id (assertions sample_graph) ?eid"
    by (simp add: sample_graph_def has_key_def assertion_to_row_def sample_assertion_def sample_id_def sample_build_simp
        Let_def sample_bytes_def event_id_derive_def hash32_derive_def sample_codec_def pad_to_def) (simp add: numeral_eq_Suc)
  ultimately have "\<exists>g' refs. project_graph ?C ?eid 80 (AssertRelation ?p) sample_graph = Inr (Unit, g', refs)"
    by (simp add: project_graph_def project_assert_relation_def p resolve_or_create_node_def nodes_get_by_id_def
        nodes_insert_if_missing_def edges_insert_if_missing_def assertions_insert_def extraction_method_parse_def Let_def
        lookup_by_def has_key_def sample_graph_def empty_graph_def)
  then obtain d' where "commit_local_event ?C 7 (AssertRelation ?p) 80 ?d = (Inr (?eid, Unit), d')"
    using commit_first [OF sample_service_codec] by blast
  then have "assert_relation ?C 7 ?auth sample_claim (\<lambda>_. 80) ?d = (Inr ?eid, d')"
    by (simp add: assert_relation_def require_def assert_validate_def sample_claim_def check_len_def check_opt_len_def
        MAX_IDENTIFIER_LEN_def MAX_PREDICATE_LEN_def MAX_EVIDENCE_PER_ASSERTION_def svc_bind_def svc_check_def commit_event_def)
  from assert_records_the_claim [OF hex _ this] this show ?thesis by auto
qed

section \<open>Canonical identifiers\<close>

lemma slug_chars:
  assumes "c \<in> set (join_with ''-'' (split_whitespace (to_lowercase s)))"
  shows "\<not> is_whitespace c \<and> ascii_lower c = c"
proof -
  have "c \<in> set ''-'' \<union> (\<Union>w \<in> set (split_whitespace (to_lowercase s)). set w)"
    using assms set_join_with by blast
  moreover have "\<not> is_whitespace x \<and> ascii_lower x = x" if "w \<in> set (split_whitespace (to_lowercase s))" "x \<in> set w" for w x
    using split_aux_pieces [of "[]" w "to_lowercase s"] set_split_aux [of w "[]" "to_lowercase s"] that
    by (auto simp: split_whitespace_def list_all_iff to_lowercase_def)
  ultimately show ?thesis by (auto simp: is_whitespace_def ascii_lower_def)
qed

lemma slug_identifier_eq:
  "slug_identifier s = ''concept:'' @ join_with ''-'' (split_whitespace (to_lowercase s))"
proof -
  have "trim (join_with ''-'' (split_whitespace (to_lowercase s))) = join_with ''-'' (split_whitespace (to_lowercase s))"
    using slug_chars by (intro trim_plain) (auto simp: list_all_iff)
  moreover have "to_lowercase (trim ''concept'') = ''concept''"
    by (simp add: trim_def to_lowercase_def ascii_lower_def is_whitespace_def)
  ultimately show ?thesis by (simp add: slug_identifier_def canonical_identifier_def)
qed

lemma ascii_lower_eq_iff:
  "ascii_lower c = CHR '':'' \<longleftrightarrow> c = CHR '':''" "ascii_lower c = CHR '' '' \<longleftrightarrow> c = CHR '' ''"
proof -
  have low: "(of_char (ascii_lower c) :: nat) = (if 65 \<le> (of_char c :: nat) \<and> (of_char c :: nat) \<le> 90 then of_char c + 32 else of_char c)"
    by (simp add: ascii_lower_def Let_def)
  have "ascii_lower c = d \<longleftrightarrow> c = d" if "(of_char d :: nat) < 65" for d
    using that low of_char_eq_iff [of "ascii_lower c" d, where ?'a = nat] of_char_eq_iff [of c d, where ?'a = nat]
    by (auto split: if_splits)
  then show "ascii_lower c = CHR '':'' \<longleftrightarrow> c = CHR '':''" "ascii_lower c = CHR '' '' \<longleftrightarrow> c = CHR '' ''"
    by simp_all
qed

lemma split_once_lower:
  "split_once CHR '':'' (to_lowercase s) = map_option (map_prod to_lowercase to_lowercase) (split_once CHR '':'' s)"
proof -
  have "CHR '':'' \<in> set (map ascii_lower s) \<longleftrightarrow> CHR '':'' \<in> set s"
    by (metis (no_types, lifting) ascii_lower_eq_iff(1) image_iff list.set_map)
  then show ?thesis
    by (auto simp: split_once_def to_lowercase_def takeWhile_map dropWhile_map comp_def ascii_lower_eq_iff map_tl)
qed

lemma scheme_char_lower:
  "is_ascii_alphanumeric c \<or> c = CHR ''-'' \<or> c = CHR ''_'' \<Longrightarrow>
   is_ascii_alphanumeric (ascii_lower c) \<or> ascii_lower c = CHR ''-'' \<or> ascii_lower c = CHR ''_''"
  by (auto simp: is_ascii_alphanumeric_def ascii_lower_def Let_def)

text \<open>
  Canonicalizing is stable on everything but URLs: the identifier a name, a slug or a prefixed
  identifier is given is mapped to itself when it is offered again, so \<^verbatim>\<open>resolve\<close> and
  \<^verbatim>\<open>assert\<close> reach the same node from a value and from its canonical identifier.
\<close>

theorem canonical_value_is_stable:
  assumes "snd (canonicalize_value C v) \<noteq> Some ''url''"
  shows "canonicalize_value C (fst (canonicalize_value C v)) = (fst (canonicalize_value C v), None)"
proof (cases "canonicalize_value C v = (slug_identifier (trim v), Some ''concept'')")
  case True
  let ?j = "join_with ''-'' (split_whitespace (to_lowercase (trim v)))"
  have plain: "list_all (\<lambda>c. \<not> is_whitespace c) (''concept:'' @ ?j)" and low: "to_lowercase (''concept:'' @ ?j) = ''concept:'' @ ?j"
    using slug_chars [of _ "trim v"]
    by (auto simp: list_all_iff is_whitespace_def to_lowercase_def ascii_lower_def Let_def intro!: map_idI)
  then have "CHR '' '' \<notin> set (''concept:'' @ ?j)" by (auto simp: list_all_iff is_whitespace_def)
  then have "canonicalize_value C (''concept:'' @ ?j) = (''concept:'' @ ?j, None)"
    using low trim_plain [OF plain]
    by (simp add: canonicalize_value_def Let_def split_once_def eq_ignore_ascii_case_def to_lowercase_def ascii_lower_def
        is_ascii_alphanumeric_def)
  then show ?thesis by (simp add: True slug_identifier_eq)
next
  case False
  let ?t = "trim v"
  obtain scheme rest where t: "split_once CHR '':'' ?t = Some (scheme, rest)"
    "\<not> eq_ignore_ascii_case scheme ''http''" "\<not> eq_ignore_ascii_case scheme ''https''" "scheme \<noteq> []" "CHR '' '' \<notin> set ?t"
    "list_all (\<lambda>c. is_ascii_alphanumeric c \<or> c = CHR ''-'' \<or> c = CHR ''_'') scheme"
    "canonicalize_value C v = (to_lowercase ?t, None)"
    using False assms by (auto simp: canonicalize_value_def Let_def split: option.splits if_splits)
  have "trim (to_lowercase ?t) = to_lowercase ?t" by (simp add: trim_map_lower trim_idem)
  moreover have "to_lowercase (to_lowercase x) = to_lowercase x" for x by (simp add: to_lowercase_def)
  moreover have "CHR '' '' \<notin> set (to_lowercase ?t)" using t(5)
    by (metis (no_types, lifting) ascii_lower_eq_iff(2) image_iff list.set_map to_lowercase_def)
  moreover have "list_all (\<lambda>c. is_ascii_alphanumeric c \<or> c = CHR ''-'' \<or> c = CHR ''_'') (to_lowercase scheme)"
    using t(6) scheme_char_lower by (auto simp: list_all_iff to_lowercase_def)
  moreover have "to_lowercase scheme \<noteq> []" using t(4) by (simp add: to_lowercase_def)
  ultimately show ?thesis
    using t(1-3) by (simp add: t(7)) (simp add: canonicalize_value_def Let_def split_once_lower eq_ignore_ascii_case_def)
qed

theorem canonical_value_is_stable_witness:
  "canonicalize_value sample_service ''foo  bar'' = (''concept:foo-bar'', Some ''concept'') \<and>
   canonicalize_value sample_service ''concept:foo-bar'' = (''concept:foo-bar'', None)"
proof -
  have "canonicalize_value sample_service ''foo  bar'' = (''concept:foo-bar'', Some ''concept'')"
    by (simp add: canonicalize_value_def Let_def trim_def is_whitespace_def split_once_def slug_identifier_eq
        split_whitespace_def to_lowercase_def ascii_lower_def)
  with canonical_value_is_stable [of sample_service "''foo  bar''"] show ?thesis by simp
qed

text \<open>
  URLs are not stable: an \<^verbatim>\<open>url:\<close> identifier takes the branch of prefixed identifiers, which
  lowercases it, so the canonical identifier of a URL with a capital letter in its path names
  another node when it is offered again.
\<close>

lemma url_identifier_is_lowercased:
  "canonicalize_value C ''url:https://example.com/Path'' = (''url:https://example.com/path'', None)"
proof -
  have "ascii_lower CHR ''P'' = CHR ''p''" by code_simp
  then show ?thesis
    by (simp add: canonicalize_value_def Let_def trim_def is_whitespace_def split_once_def eq_ignore_ascii_case_def
        to_lowercase_def is_ascii_alphanumeric_def) (simp add: ascii_lower_def)
qed

text \<open>
  The rebuilt query string does not escape what \<^verbatim>\<open>query_pairs\<close> decoded: one parameter with the
  value \<^verbatim>\<open>1&b=2\<close> and two parameters give the same canonical URL.
\<close>

lemma query_string_not_injective: "query_string [(''a'', ''1&b=2'')] = query_string [(''a'', ''1''), (''b'', ''2'')]"
  by (simp add: query_string_def)

end
