(* ===== verification/Peering.thy ===== *)
theory Peering
  imports Complex_Main Ingest
begin

text \<open>
  What a peer knows about other peers beyond their events: signed presence heartbeats
  (\<^verbatim>\<open>presence.rs\<close>), signed cluster declarations (\<^verbatim>\<open>cluster.rs\<close>), the trust score computed
  from them (\<^verbatim>\<open>trust.rs\<close>), the federation decision (\<^verbatim>\<open>federation.rs\<close>,
  \<^verbatim>\<open>SyncService::federation_allows\<close>), and their tables (\<^verbatim>\<open>repo/peer_presence.rs\<close>,
  \<^verbatim>\<open>repo/peer_cluster.rs\<close>, \<^verbatim>\<open>repo/replication.rs\<close>).

  Times in this theory are the code's \<^verbatim>\<open>i64\<close> kept at its width, because a remote peer chooses
  them: \<open>+\<close>, \<open>-\<close> and \<open>*\<close> wrap as in a release build and comparisons are signed.
  An \<^verbatim>\<open>f32\<close> is a rational number, and \<open>rnd\<close> is the rounding that follows every single operation
  and conversion of floating-point arithmetic; what a theorem needs of it is \<open>f32_rounding\<close>
  (IEEE 754: monotone, exact on 0 and 1).
\<close>

type_synonym i64 = "64 word"

definition i64_abs :: "i64 \<Rightarrow> i64" where
  "i64_abs x = (if sint x < 0 then - x else x)"

section \<open>Tables\<close>

record presence_row =
  pr_peer :: peer_id
  pr_session_started_at :: i64
  pr_last_heartbeat_at :: i64
  pr_status :: string

record going_offline_row =
  go_address :: string
  go_announced_at :: i64
  go_from_peer :: peer_id

record cluster_row =
  cl_peer :: peer_id
  cl_cluster :: string
  cl_declared_at :: i64

record known_head_row =
  kh_peer :: peer_id
  kh_origin :: peer_id
  kh_sequence :: u64
  kh_observed_at :: i64

text \<open>The database with these tables beside the ones of \<open>db\<close>.\<close>

record sync_db =
  store :: db
  peer_presence :: "presence_row list"
  address_going_offline :: "going_offline_row list"
  peer_cluster_claims :: "cluster_row list"
  peer_known_heads :: "known_head_row list"

definition presence_get :: "sync_db \<Rightarrow> peer_id \<Rightarrow> presence_row option" where
  "presence_get n p = lookup_by pr_peer (peer_presence n) p"

definition record_heartbeat :: "peer_id \<Rightarrow> i64 \<Rightarrow> i64 \<Rightarrow> string \<Rightarrow> sync_db \<Rightarrow> sync_db" where
  "record_heartbeat p session_started_at heartbeat_at status n =
     (if has_key pr_peer (peer_presence n) p
      then n\<lparr>peer_presence := update_where (\<lambda>r. pr_peer r = p)
               (\<lambda>r. r\<lparr>pr_last_heartbeat_at := heartbeat_at, pr_status := status\<rparr>) (peer_presence n)\<rparr>
      else n\<lparr>peer_presence := peer_presence n @
               [\<lparr>pr_peer = p, pr_session_started_at = session_started_at,
                 pr_last_heartbeat_at = heartbeat_at, pr_status = status\<rparr>]\<rparr>)"

definition get_address_going_offline :: "sync_db \<Rightarrow> string \<Rightarrow> going_offline_row option" where
  "get_address_going_offline n a = lookup_by go_address (address_going_offline n) a"

definition record_going_offline :: "string \<Rightarrow> peer_id \<Rightarrow> i64 \<Rightarrow> sync_db \<Rightarrow> sync_db" where
  "record_going_offline a p announced_at n =
     (let row = \<lparr>go_address = a, go_announced_at = announced_at, go_from_peer = p\<rparr>
      in if has_key go_address (address_going_offline n) a
         then n\<lparr>address_going_offline := update_where (\<lambda>r. go_address r = a) (\<lambda>_. row) (address_going_offline n)\<rparr>
         else n\<lparr>address_going_offline := address_going_offline n @ [row]\<rparr>)"

definition cluster_get :: "sync_db \<Rightarrow> peer_id \<Rightarrow> cluster_row option" where
  "cluster_get n p = lookup_by cl_peer (peer_cluster_claims n) p"

definition cluster_upsert :: "peer_id \<Rightarrow> string \<Rightarrow> i64 \<Rightarrow> sync_db \<Rightarrow> sync_db" where
  "cluster_upsert p cluster declared_at n =
     (let row = \<lparr>cl_peer = p, cl_cluster = cluster, cl_declared_at = declared_at\<rparr>
      in if has_key cl_peer (peer_cluster_claims n) p
         then n\<lparr>peer_cluster_claims := update_where (\<lambda>r. cl_peer r = p) (\<lambda>_. row) (peer_cluster_claims n)\<rparr>
         else n\<lparr>peer_cluster_claims := peer_cluster_claims n @ [row]\<rparr>)"

definition upsert_known_head :: "peer_id \<Rightarrow> peer_id \<Rightarrow> u64 \<Rightarrow> i64 \<Rightarrow> sync_db \<Rightarrow> sync_db" where
  "upsert_known_head p origin sequence observed_at n =
     (if has_key (\<lambda>r. (kh_peer r, kh_origin r)) (peer_known_heads n) (p, origin)
      then n\<lparr>peer_known_heads := update_where (\<lambda>r. (kh_peer r, kh_origin r) = (p, origin))
               (\<lambda>r. r\<lparr>kh_sequence := sequence, kh_observed_at := observed_at\<rparr>) (peer_known_heads n)\<rparr>
      else n\<lparr>peer_known_heads := peer_known_heads n @
               [\<lparr>kh_peer = p, kh_origin = origin, kh_sequence = sequence, kh_observed_at = observed_at\<rparr>]\<rparr>)"

definition list_known_heads_for_origin :: "sync_db \<Rightarrow> peer_id \<Rightarrow> known_head_row list" where
  "list_known_heads_for_origin n origin = filter (\<lambda>r. kh_origin r = origin) (peer_known_heads n)"

definition list_peers :: "db \<Rightarrow> peer_row list" where
  "list_peers d = sort_key pe_first_seen (peers d)"

definition list_addresses :: "db \<Rightarrow> peer_id \<Rightarrow> string list" where
  "list_addresses d p = map snd (filter (\<lambda>a. fst a = p) (peer_addresses d))"

section \<open>Presence heartbeats\<close>

datatype presence_status = Online | GoingOffline

definition presence_status_as_str :: "presence_status \<Rightarrow> string" where
  "presence_status_as_str s = (case s of Online \<Rightarrow> ''online'' | GoingOffline \<Rightarrow> ''going_offline'')"

record unsigned_presence_heartbeat =
  ph_peer_id :: string
  ph_public_key :: string
  ph_status :: presence_status
  ph_session_started_at :: i64
  ph_timestamp :: i64

record presence_heartbeat =
  ph_unsigned :: unsigned_presence_heartbeat
  ph_signature :: string

record unsigned_cluster_declaration =
  cd_peer_id :: string
  cd_public_key :: string
  cd_cluster :: string
  cd_timestamp :: i64

record cluster_declaration =
  cd_unsigned :: unsigned_cluster_declaration
  cd_signature :: string

text \<open>\<^verbatim>\<open>VerifyingKey::from_bytes\<close> and the canonical serialisations of the two unsigned structures.\<close>

record 'vk wire =
  vk_from_bytes :: "byte list \<Rightarrow> 'vk option"
  jcs_presence :: "unsigned_presence_heartbeat \<Rightarrow> json_error + byte list"
  jcs_cluster :: "unsigned_cluster_declaration \<Rightarrow> json_error + byte list"

definition PRESENCE_DOMAIN :: string where "PRESENCE_DOMAIN = ''OAG:PRESENCE:v1:''"
definition CLUSTER_DOMAIN :: string where "CLUSTER_DOMAIN = ''OAG:CLUSTER:v1:''"
definition MAX_CLOCK_SKEW_SECONDS :: i64 where "MAX_CLOCK_SKEW_SECONDS = 300"

text \<open>The two error enumerations have the same variants, carried by one type here.\<close>

datatype claim_error =
    ClaimPeerId peer_id_parse_error
  | InvalidPublicKey
  | PeerIdKeyMismatch
  | BadSignatureEncoding
  | BadSignature
  | ClockSkew
  | ClaimJson json_error

text \<open>\<^verbatim>\<open>decode_hex32\<close>, and the same conversion to a fixed array of another length.\<close>

definition decode_hex_array :: "('sk, 'vk, 'z) crypto_scheme \<Rightarrow> nat \<Rightarrow> string \<Rightarrow> byte list option" where
  "decode_hex_array C n s =
     (case hex_decode C s of Inl _ \<Rightarrow> None | Inr bytes \<Rightarrow> if length bytes = n then Some bytes else None)"

definition decode_hex32 :: "('sk, 'vk, 'z) crypto_scheme \<Rightarrow> string \<Rightarrow> byte list option" where
  "decode_hex32 C s = decode_hex_array C 32 s"

definition presence_build_and_sign ::
  "('sk, 'vk, 'z) codec_scheme \<Rightarrow> 'vk wire \<Rightarrow> 'sk \<Rightarrow> presence_status \<Rightarrow> i64 \<Rightarrow> i64 \<Rightarrow> claim_error + presence_heartbeat" where
  "presence_build_and_sign C W identity status session_started_at timestamp =
     (let unsigned = \<lparr>ph_peer_id = peer_id_to_string C (identity_peer_id C identity),
                      ph_public_key = hex_encode C (key_bytes C (verifying_key C identity)),
                      ph_status = status, ph_session_started_at = session_started_at,
                      ph_timestamp = timestamp\<rparr> in
      res_bind (res_map_err ClaimJson (jcs_presence W unsigned)) (\<lambda>canonical.
        Inr \<lparr>ph_unsigned = unsigned,
             ph_signature = hex_encode C (sign_with_domain C identity PRESENCE_DOMAIN canonical)\<rparr>))"

definition presence_verify ::
  "('sk, 'vk, 'z) codec_scheme \<Rightarrow> 'vk wire \<Rightarrow> presence_heartbeat \<Rightarrow> i64 \<Rightarrow> claim_error + peer_id" where
  "presence_verify C W heartbeat now =
     res_bind (res_map_err ClaimPeerId (peer_id_from_str C (ph_peer_id (ph_unsigned heartbeat)))) (\<lambda>p.
     res_bind (ok_or InvalidPublicKey (decode_hex_array C 32 (ph_public_key (ph_unsigned heartbeat)))) (\<lambda>pk_bytes.
     res_bind (ok_or InvalidPublicKey (vk_from_bytes W pk_bytes)) (\<lambda>vk.
     if p \<noteq> peer_id_from_public_key C vk then Inl PeerIdKeyMismatch else
     res_bind (res_map_err ClaimJson (jcs_presence W (ph_unsigned heartbeat))) (\<lambda>canonical.
     res_bind (ok_or BadSignatureEncoding (decode_hex_array C 64 (ph_signature heartbeat))) (\<lambda>signature.
     if \<not> verify_with_domain C vk PRESENCE_DOMAIN canonical signature then Inl BadSignature else
     if sint (i64_abs (ph_timestamp (ph_unsigned heartbeat) - now)) > sint MAX_CLOCK_SKEW_SECONDS
     then Inl ClockSkew else Inr p)))))"

section \<open>Cluster declarations\<close>

definition cluster_build_and_sign ::
  "('sk, 'vk, 'z) codec_scheme \<Rightarrow> 'vk wire \<Rightarrow> 'sk \<Rightarrow> string \<Rightarrow> i64 \<Rightarrow> claim_error + cluster_declaration" where
  "cluster_build_and_sign C W identity cluster timestamp =
     (let unsigned = \<lparr>cd_peer_id = peer_id_to_string C (identity_peer_id C identity),
                      cd_public_key = hex_encode C (key_bytes C (verifying_key C identity)),
                      cd_cluster = cluster, cd_timestamp = timestamp\<rparr> in
      res_bind (res_map_err ClaimJson (jcs_cluster W unsigned)) (\<lambda>canonical.
        Inr \<lparr>cd_unsigned = unsigned,
             cd_signature = hex_encode C (sign_with_domain C identity CLUSTER_DOMAIN canonical)\<rparr>))"

definition cluster_verify ::
  "('sk, 'vk, 'z) codec_scheme \<Rightarrow> 'vk wire \<Rightarrow> cluster_declaration \<Rightarrow> i64 \<Rightarrow> claim_error + peer_id" where
  "cluster_verify C W declaration now =
     res_bind (res_map_err ClaimPeerId (peer_id_from_str C (cd_peer_id (cd_unsigned declaration)))) (\<lambda>p.
     res_bind (ok_or InvalidPublicKey (decode_hex_array C 32 (cd_public_key (cd_unsigned declaration)))) (\<lambda>pk_bytes.
     res_bind (ok_or InvalidPublicKey (vk_from_bytes W pk_bytes)) (\<lambda>vk.
     if p \<noteq> peer_id_from_public_key C vk then Inl PeerIdKeyMismatch else
     res_bind (res_map_err ClaimJson (jcs_cluster W (cd_unsigned declaration))) (\<lambda>canonical.
     res_bind (ok_or BadSignatureEncoding (decode_hex_array C 64 (cd_signature declaration))) (\<lambda>signature.
     if \<not> verify_with_domain C vk CLUSTER_DOMAIN canonical signature then Inl BadSignature else
     if sint (i64_abs (cd_timestamp (cd_unsigned declaration) - now)) > sint MAX_CLOCK_SKEW_SECONDS
     then Inl ClockSkew else Inr p)))))"

section \<open>Trust\<close>

type_synonym f32 = rat

definition clamp01 :: "f32 \<Rightarrow> f32" where
  "clamp01 x = (if x < 0 then 0 else if x > 1 then 1 else x)"

definition i64_as_f32 :: "(f32 \<Rightarrow> f32) \<Rightarrow> i64 \<Rightarrow> f32" where
  "i64_as_f32 rnd x = rnd (of_int (sint x))"

definition STALE_MULTIPLIER :: i64 where "STALE_MULTIPLIER = 3"

definition ANNOUNCED_RESTART_STARTING_TRUST :: "(f32 \<Rightarrow> f32) \<Rightarrow> f32" where
  "ANNOUNCED_RESTART_STARTING_TRUST rnd = rnd (3 / 10)"

record trust_config =
  heartbeat_interval_seconds :: i64
  trust_rebuild_seconds :: i64
  announced_restart_grace_seconds :: i64

definition trust_config_default :: trust_config where
  "trust_config_default =
     \<lparr>heartbeat_interval_seconds = 30, trust_rebuild_seconds = 3600, announced_restart_grace_seconds = 300\<rparr>"

definition i64_max :: "i64 \<Rightarrow> i64 \<Rightarrow> i64" where
  "i64_max x y = (if sint x < sint y then y else x)"

definition rebuild_fraction :: "(f32 \<Rightarrow> f32) \<Rightarrow> i64 \<Rightarrow> i64 \<Rightarrow> trust_config \<Rightarrow> bool \<Rightarrow> f32" where
  "rebuild_fraction rnd session_started_at as_of cfg announced_restart =
     (let continuous_seconds = i64_as_f32 rnd (i64_max (as_of - session_started_at) 0);
          starting_point = (if announced_restart then ANNOUNCED_RESTART_STARTING_TRUST rnd else 0);
          rebuilt_fraction = clamp01 (rnd (continuous_seconds / i64_as_f32 rnd (trust_rebuild_seconds cfg)))
      in rnd (starting_point + rnd (rebuilt_fraction * rnd (1 - starting_point))))"

definition trust_score ::
  "(f32 \<Rightarrow> f32) \<Rightarrow> presence_row option \<Rightarrow> bool \<Rightarrow> bool \<Rightarrow> i64 \<Rightarrow> trust_config \<Rightarrow> f32" where
  "trust_score rnd presence forked announced_restart now cfg =
     (if forked then 0 else
      case presence of None \<Rightarrow> 0 | Some presence \<Rightarrow>
        let silence = now - pr_last_heartbeat_at presence;
            stale_after = heartbeat_interval_seconds cfg * STALE_MULTIPLIER in
        if sint silence \<le> sint stale_after
        then clamp01 (rebuild_fraction rnd (pr_session_started_at presence) now cfg announced_restart)
        else
          let trust_at_silence = rebuild_fraction rnd (pr_session_started_at presence)
                                   (pr_last_heartbeat_at presence) cfg announced_restart;
              decay_elapsed = i64_as_f32 rnd (silence - stale_after);
              decay_fraction = clamp01 (rnd (decay_elapsed / i64_as_f32 rnd (trust_rebuild_seconds cfg)))
          in clamp01 (rnd (trust_at_silence * rnd (1 - decay_fraction))))"

definition announced_restart_for :: "sync_db \<Rightarrow> peer_id \<Rightarrow> i64 \<Rightarrow> trust_config \<Rightarrow> presence_row \<Rightarrow> bool" where
  "announced_restart_for n p now cfg presence =
     list_ex (\<lambda>addr. case get_address_going_offline n addr of
         None \<Rightarrow> False
       | Some row \<Rightarrow> sint (now - go_announced_at row) \<le> sint (announced_restart_grace_seconds cfg) \<and>
                     sint (go_announced_at row) \<le> sint (pr_session_started_at presence))
       (list_addresses (store n) p)"

definition compute_trust :: "(f32 \<Rightarrow> f32) \<Rightarrow> sync_db \<Rightarrow> peer_id \<Rightarrow> i64 \<Rightarrow> trust_config \<Rightarrow> f32" where
  "compute_trust rnd n p now cfg =
     (let forked = (case get_peer (store n) p of None \<Rightarrow> False | Some r \<Rightarrow> pe_forked r);
          presence = presence_get n p;
          announced_restart = (case presence of None \<Rightarrow> False | Some r \<Rightarrow> announced_restart_for n p now cfg r)
      in trust_score rnd presence forked announced_restart now cfg)"

section \<open>Federation\<close>

datatype federation_policy = Open | Allowlist "peer_id list"

definition allows :: "federation_policy \<Rightarrow> peer_id \<Rightarrow> bool" where
  "allows policy p = (case policy of Open \<Rightarrow> True | Allowlist ps \<Rightarrow> p \<in> set ps)"

text \<open>The part of \<^verbatim>\<open>SyncService\<close> its decisions read.\<close>

record sync_service =
  ss_peer_id :: peer_id
  ss_public_key :: "byte list"
  ss_federation :: federation_policy
  ss_minimum_trust :: f32
  ss_trust_config :: trust_config
  ss_own_cluster :: "string option"

definition same_cluster :: "sync_service \<Rightarrow> sync_db \<Rightarrow> peer_id \<Rightarrow> bool" where
  "same_cluster sv n p =
     (case ss_own_cluster sv of None \<Rightarrow> False
      | Some mine \<Rightarrow> (case cluster_get n p of None \<Rightarrow> False | Some claim \<Rightarrow> cl_cluster claim = mine))"

definition federation_allows :: "(f32 \<Rightarrow> f32) \<Rightarrow> sync_service \<Rightarrow> sync_db \<Rightarrow> i64 \<Rightarrow> peer_id \<Rightarrow> bool" where
  "federation_allows rnd sv n now p =
     (if same_cluster sv n p then True
      else if \<not> allows (ss_federation sv) p then False
      else if ss_minimum_trust sv \<le> 0 then True
      else compute_trust rnd n p now (ss_trust_config sv) \<ge> ss_minimum_trust sv)"

section \<open>The endpoints that receive claims\<close>

datatype http_status = NO_CONTENT | BAD_REQUEST | PAYLOAD_TOO_LARGE | INTERNAL_SERVER_ERROR

definition post_presence ::
  "('sk, 'vk, 'z) codec_scheme \<Rightarrow> 'vk wire \<Rightarrow> i64 \<Rightarrow> presence_heartbeat \<Rightarrow> sync_db \<Rightarrow> (http_status + http_status) \<times> sync_db" where
  "post_presence C W now heartbeat n =
     (case presence_verify C W heartbeat now of
        Inl _ \<Rightarrow> (Inl BAD_REQUEST, n)
      | Inr p \<Rightarrow>
          let u = ph_unsigned heartbeat;
              n1 = record_heartbeat p (ph_session_started_at u) (ph_timestamp u)
                     (presence_status_as_str (ph_status u)) n
          in if ph_status u = GoingOffline
             then (Inr NO_CONTENT,
                   foldl (\<lambda>m a. record_going_offline a p now m) n1 (list_addresses (store n1) p))
             else (Inr NO_CONTENT, n1))"

definition post_cluster ::
  "('sk, 'vk, 'z) codec_scheme \<Rightarrow> 'vk wire \<Rightarrow> i64 \<Rightarrow> cluster_declaration \<Rightarrow> sync_db \<Rightarrow> (http_status + http_status) \<times> sync_db" where
  "post_cluster C W now declaration n =
     (case cluster_verify C W declaration now of
        Inl _ \<Rightarrow> (Inl BAD_REQUEST, n)
      | Inr p \<Rightarrow> (Inr NO_CONTENT, cluster_upsert p (cd_cluster (cd_unsigned declaration)) now n))"

section \<open>Signed 64-bit arithmetic\<close>

lemma sint_of_int_i64: "- (2 ^ 63) \<le> k \<Longrightarrow> k < 2 ^ 63 \<Longrightarrow> sint (of_int k :: i64) = k"
  by (simp add: signed_of_int signed_take_bit_int_eq_self)

lemma sint_range_i64: "- (2 ^ 63) \<le> sint (x :: i64)" "sint (x :: i64) < 2 ^ 63"
  using sint_ge [of x] sint_lt [of x] by simp_all

lemma sint_diff_i64:
  assumes "- (2 ^ 63) \<le> sint x - sint (y :: i64)" "sint x - sint y < 2 ^ 63"
  shows "sint (x - y) = sint x - sint y"
  using sint_of_int_i64 [OF assms] by simp

lemma sint_diff_wrapped:
  assumes "sint x - sint (y :: i64) < - (2 ^ 63)"
  shows "sint (x - y) = sint x - sint y + 2 ^ 64"
proof -
  have "(x - y :: i64) = of_int (sint x - sint y + 2 ^ 64)"
    by simp
  moreover have "sint (of_int (sint x - sint y + 2 ^ 64) :: i64) = sint x - sint y + 2 ^ 64"
    using assms sint_range_i64 [of x] sint_range_i64 [of y] by (intro sint_of_int_i64) simp_all
  ultimately show ?thesis by (simp only:)
qed

lemma i64_abs_small:
  "sint (i64_abs d) \<le> 300 \<longleftrightarrow> \<bar>sint d\<bar> \<le> 300 \<or> d = 2 ^ 63"
proof (cases "sint d = - (2 ^ 63)")
  case True
  then have "of_int (sint d) = (of_int (- (2 ^ 63)) :: i64)" by simp
  then have "d = 2 ^ 63" by simp
  then show ?thesis by (simp add: i64_abs_def)
next
  case False
  then have "sint (- d) = - sint d"
    using sint_range_i64 [of d] sint_of_int_i64 [of "- sint d"] by simp
  moreover have "d \<noteq> 2 ^ 63" using False by auto
  ultimately show ?thesis by (auto simp: i64_abs_def)
qed

text \<open>The clock check, exactly: besides the intended window it lets through the one timestamp whose
  distance to now is the most negative number, which \<^verbatim>\<open>abs\<close> cannot negate.\<close>

lemma clock_check:
  assumes "0 \<le> sint now" "sint now < 2 ^ 62"
  shows "\<not> sint (i64_abs (t - now)) > sint MAX_CLOCK_SKEW_SECONDS \<longleftrightarrow>
    \<bar>sint t - sint now\<bar> \<le> 300 \<or> t = now + 2 ^ 63"
proof -
  have "sint (t - now) = sint t - sint now \<or> sint (t - now) = sint t - sint now + 2 ^ 64 \<and> sint t - sint now < - (2 ^ 63)"
    using sint_diff_i64 [of t now] sint_diff_wrapped [of t now] sint_range_i64 [of t] assms by fastforce
  then have "\<bar>sint (t - now)\<bar> \<le> 300 \<longleftrightarrow> \<bar>sint t - sint now\<bar> \<le> 300"
    using sint_range_i64 [of t] assms by auto
  moreover have "t - now = 2 ^ 63 \<longleftrightarrow> t = now + 2 ^ 63" by (auto simp: algebra_simps)
  moreover have "sint MAX_CLOCK_SKEW_SECONDS = 300" by (simp add: MAX_CLOCK_SKEW_SECONDS_def)
  ultimately show ?thesis using i64_abs_small [of "t - now"] by (simp add: not_less)
qed

section \<open>Self-authenticating claims\<close>

text \<open>What it takes to speak for a peer: a key that hashes to the peer id and a signature under it.\<close>

definition vouched ::
  "('sk, 'vk, 'z) codec_scheme \<Rightarrow> ('vk, 'w) wire_scheme \<Rightarrow> string \<Rightarrow> string \<Rightarrow> string \<Rightarrow> json_error + byte list \<Rightarrow> string \<Rightarrow> peer_id \<Rightarrow> bool" where
  "vouched C W domain_prefix peer key canonical signature p \<longleftrightarrow>
     (\<exists>pk vk b sig. peer_id_from_str C peer = Inr p \<and> decode_hex_array C 32 key = Some pk \<and>
        vk_from_bytes W pk = Some vk \<and> p = peer_id_from_public_key C vk \<and> canonical = Inr b \<and>
        decode_hex_array C 64 signature = Some sig \<and> verify_with_domain C vk domain_prefix b sig)"

text \<open>\<^verbatim>\<open>VerifyingKey::from_bytes\<close> reads back what \<^verbatim>\<open>to_bytes\<close> wrote, 32 bytes.\<close>

definition key_codec :: "('sk, 'vk, 'z) codec_scheme \<Rightarrow> ('vk, 'w) wire_scheme \<Rightarrow> bool" where
  "key_codec C W \<longleftrightarrow> (\<forall>vk. vk_from_bytes W (key_bytes C vk) = Some vk \<and> length (key_bytes C vk) = 32)"

text \<open>
  The interface of a signed message: how its parts are read, that verification accepts exactly the
  vouched and fresh ones (with a further condition, where it has one), and that building fills the
  parts in from an identity.
\<close>

locale signed_claim =
  fixes C :: "('sk, 'vk, 'z) codec_scheme" and W :: "('vk, 'w) wire_scheme" and domain_prefix :: string
    and peer key signature :: "'c \<Rightarrow> string"
    and canonical :: "'c \<Rightarrow> json_error + byte list"
    and timestamp :: "'c \<Rightarrow> i64"
    and accepts :: "'c \<Rightarrow> i64 \<Rightarrow> peer_id \<Rightarrow> bool"
    and further :: "'c \<Rightarrow> bool"
    and build :: "'sk \<Rightarrow> 'a \<Rightarrow> i64 \<Rightarrow> 'e + 'c"
  assumes accepts_iff: "accepts c now p \<longleftrightarrow>
      vouched C W domain_prefix (peer c) (key c) (canonical c) (signature c) p \<and>
      \<not> sint (i64_abs (timestamp c - now)) > sint MAX_CLOCK_SKEW_SECONDS \<and> further c"
    and build_parts: "build k x t = Inr c \<Longrightarrow>
      peer c = peer_id_to_string C (identity_peer_id C k) \<and>
      key c = hex_encode C (key_bytes C (verifying_key C k)) \<and> timestamp c = t \<and>
      (\<exists>b. canonical c = Inr b \<and> signature c = hex_encode C (sign_with_domain C k domain_prefix b))"
begin

lemma accepted_iff:
  assumes "0 \<le> sint now" "sint now < 2 ^ 62"
  shows "accepts c now p \<longleftrightarrow>
    vouched C W domain_prefix (peer c) (key c) (canonical c) (signature c) p \<and>
    (\<bar>sint (timestamp c) - sint now\<bar> \<le> 300 \<or> timestamp c = now + 2 ^ 63) \<and> further c"
  unfolding accepts_iff clock_check [OF assms] ..

lemma built_is_accepted:
  assumes "codecs_ok C" "key_codec C W" "build k x t = Inr c" "further c"
    and "0 \<le> sint now" "sint now < 2 ^ 62" "\<bar>sint t - sint now\<bar> \<le> 300"
  shows "accepts c now (identity_peer_id C k)"
proof -
  have ok: "hex_codec C" "base32_codec C" "blake3_digest C" "sign_verify C"
    using assms(1) by (simp_all add: codecs_ok_def)
  obtain b where parts: "peer c = peer_id_to_string C (identity_peer_id C k)"
    "key c = hex_encode C (key_bytes C (verifying_key C k))" "timestamp c = t" "canonical c = Inr b"
    "signature c = hex_encode C (sign_with_domain C k domain_prefix b)"
    using build_parts [OF assms(3)] by blast
  have "length (sign_with_domain C k domain_prefix b) = 64"
    using ok(4) by (simp add: sign_with_domain_def sign_verify_def)
  moreover have "peer_id_from_str C (peer c) = Inr (identity_peer_id C k)"
    using ok parts(1) by (simp add: peer_id_round_trip identity_peer_id_length)
  ultimately have "vouched C W domain_prefix (peer c) (key c) (canonical c) (signature c) (identity_peer_id C k)"
    unfolding vouched_def using ok assms(2) parts(2-5) sign_verify_round_trip [OF ok(4), of k domain_prefix b]
    by (simp add: decode_hex_array_def hex_codec_def key_codec_def identity_peer_id_def)
  then show ?thesis using accepted_iff [OF assms(5,6)] assms(4,7) parts(3) by simp
qed

end

interpretation presence_claim: signed_claim C W PRESENCE_DOMAIN
  "\<lambda>h. ph_peer_id (ph_unsigned h)" "\<lambda>h. ph_public_key (ph_unsigned h)" ph_signature
  "\<lambda>h. jcs_presence W (ph_unsigned h)" "\<lambda>h. ph_timestamp (ph_unsigned h)"
  "\<lambda>h now p. presence_verify C W h now = Inr p" "\<lambda>_. True"
  "\<lambda>k (status, started) t. presence_build_and_sign C W k status started t"
  for C :: "('sk, 'vk, 'z) codec_scheme" and W :: "'vk wire"
  by unfold_locales
    (auto simp: presence_verify_def vouched_def presence_build_and_sign_def Let_def split: if_splits)

interpretation cluster_claim: signed_claim C W CLUSTER_DOMAIN
  "\<lambda>c. cd_peer_id (cd_unsigned c)" "\<lambda>c. cd_public_key (cd_unsigned c)" cd_signature
  "\<lambda>c. jcs_cluster W (cd_unsigned c)" "\<lambda>c. cd_timestamp (cd_unsigned c)"
  "\<lambda>c now p. cluster_verify C W c now = Inr p" "\<lambda>_. True" "cluster_build_and_sign C W"
  for C :: "('sk, 'vk, 'z) codec_scheme" and W :: "'vk wire"
  by unfold_locales
    (auto simp: cluster_verify_def vouched_def cluster_build_and_sign_def Let_def split: if_splits)

section \<open>The shape of the trust score\<close>

definition f32_rounding :: "(f32 \<Rightarrow> f32) \<Rightarrow> bool" where
  "f32_rounding rnd \<longleftrightarrow> mono rnd \<and> rnd 0 = 0 \<and> rnd 1 = 1"

lemma f32_roundingD:
  assumes "f32_rounding rnd"
  shows "x \<le> y \<Longrightarrow> rnd x \<le> rnd y" "rnd 0 = 0" "rnd 1 = 1" "0 \<le> x \<Longrightarrow> 0 \<le> rnd x" "1 \<le> x \<Longrightarrow> 1 \<le> rnd x"
    "x \<le> 1 \<Longrightarrow> rnd x \<le> 1"
  using assms unfolding f32_rounding_def by (metis monoD)+

lemma clamp01_bounds [simp]: "0 \<le> clamp01 x" "clamp01 x \<le> 1"
  by (simp_all add: clamp01_def)

lemma clamp01_mono: "x \<le> y \<Longrightarrow> clamp01 x \<le> clamp01 y"
  by (auto simp: clamp01_def)

lemma clamp01_saturates: "1 \<le> x \<Longrightarrow> clamp01 x = 1"
  by (auto simp: clamp01_def)

lemma i64_as_f32_mono: "f32_rounding rnd \<Longrightarrow> sint x \<le> sint y \<Longrightarrow> i64_as_f32 rnd x \<le> i64_as_f32 rnd y"
  unfolding i64_as_f32_def by (erule f32_roundingD(1)) (simp only: of_int_le_iff)

lemma i64_as_f32_pos:
  assumes "f32_rounding rnd" "0 < sint x" shows "1 \<le> i64_as_f32 rnd x"
proof -
  have "(of_int 1 :: f32) \<le> of_int (sint x)" using assms(2) by (simp only: of_int_le_iff)
  then show ?thesis unfolding i64_as_f32_def by (intro f32_roundingD(5) [OF assms(1)]) (simp only: of_int_1)
qed

text \<open>The fraction of the rebuild period covered by a number of seconds, as both branches compute it.\<close>

lemma covered_mono:
  assumes "f32_rounding rnd" "0 < sint w" "sint x \<le> sint y"
  shows "clamp01 (rnd (i64_as_f32 rnd x / i64_as_f32 rnd w)) \<le> clamp01 (rnd (i64_as_f32 rnd y / i64_as_f32 rnd w))"
  using i64_as_f32_mono [OF assms(1,3)] i64_as_f32_pos [OF assms(1,2)]
  by (intro clamp01_mono f32_roundingD(1) [OF assms(1)] divide_right_mono) simp_all

lemma covered_full:
  assumes "f32_rounding rnd" "0 < sint w" "sint w \<le> sint x"
  shows "clamp01 (rnd (i64_as_f32 rnd x / i64_as_f32 rnd w)) = 1"
proof -
  have "i64_as_f32 rnd w \<le> i64_as_f32 rnd x" using i64_as_f32_mono assms by blast
  then have "1 \<le> i64_as_f32 rnd x / i64_as_f32 rnd w"
    using i64_as_f32_pos [OF assms(1,2)] by (simp add: le_divide_eq)
  then show ?thesis by (intro clamp01_saturates f32_roundingD(5) [OF assms(1)])
qed

lemma starting_point_bounds:
  assumes "f32_rounding rnd"
  shows "0 \<le> (if a then ANNOUNCED_RESTART_STARTING_TRUST rnd else 0)"
    "(if a then ANNOUNCED_RESTART_STARTING_TRUST rnd else 0) \<le> 1"
  unfolding ANNOUNCED_RESTART_STARTING_TRUST_def
  by (auto intro: f32_roundingD(4,6) [OF assms])

lemma rebuild_fraction_mono:
  assumes "f32_rounding rnd" "0 < sint (trust_rebuild_seconds cfg)"
    and "sint (i64_max (t - started) 0) \<le> sint (i64_max (t' - started) 0)"
  shows "rebuild_fraction rnd started t cfg a \<le> rebuild_fraction rnd started t' cfg a"
proof -
  have "0 \<le> rnd (1 - (if a then ANNOUNCED_RESTART_STARTING_TRUST rnd else 0))"
    using starting_point_bounds [OF assms(1), of a] by (intro f32_roundingD(4) [OF assms(1)]) simp
  then show ?thesis unfolding rebuild_fraction_def Let_def
    by (intro f32_roundingD(1) [OF assms(1)] add_left_mono mult_right_mono covered_mono [OF assms])
qed

lemma rebuild_fraction_nonneg:
  assumes "f32_rounding rnd" shows "0 \<le> rebuild_fraction rnd started t cfg a"
  unfolding rebuild_fraction_def Let_def using starting_point_bounds [OF assms, of a]
  by (intro f32_roundingD(4) [OF assms] add_nonneg_nonneg mult_nonneg_nonneg clamp01_bounds) simp_all

lemma rebuild_fraction_full:
  assumes "f32_rounding rnd" "0 < sint (trust_rebuild_seconds cfg)"
    and "sint (trust_rebuild_seconds cfg) \<le> sint (i64_max (t - started) 0)"
  shows "rebuild_fraction rnd started t cfg False = 1"
  using covered_full [OF assms] f32_roundingD(2,3) [OF assms(1)] by (simp add: rebuild_fraction_def)

text \<open>The two branches, and that the score never leaves the unit interval.\<close>

lemma trust_score_bounds: "0 \<le> trust_score rnd pr f a now cfg" "trust_score rnd pr f a now cfg \<le> 1"
  by (simp_all add: trust_score_def Let_def split: option.splits)

lemma trust_score_floor: "trust_score rnd pr True a now cfg = 0" "trust_score rnd None f a now cfg = 0"
  by (simp_all add: trust_score_def)

definition fresh :: "trust_config \<Rightarrow> presence_row \<Rightarrow> i64 \<Rightarrow> bool" where
  "fresh cfg pr now \<longleftrightarrow>
     sint (now - pr_last_heartbeat_at pr) \<le> sint (heartbeat_interval_seconds cfg * STALE_MULTIPLIER)"

lemma trust_score_fresh:
  "fresh cfg pr now \<Longrightarrow> trust_score rnd (Some pr) False a now cfg
     = clamp01 (rebuild_fraction rnd (pr_session_started_at pr) now cfg a)"
  by (simp add: trust_score_def fresh_def)

lemma trust_score_quiet:
  "\<not> fresh cfg pr now \<Longrightarrow> trust_score rnd (Some pr) False a now cfg
     = clamp01 (rnd (rebuild_fraction rnd (pr_session_started_at pr) (pr_last_heartbeat_at pr) cfg a *
         rnd (1 - clamp01 (rnd (i64_as_f32 rnd
           (now - pr_last_heartbeat_at pr - heartbeat_interval_seconds cfg * STALE_MULTIPLIER)
           / i64_as_f32 rnd (trust_rebuild_seconds cfg))))))"
  by (simp add: trust_score_def fresh_def Let_def)

text \<open>Times and intervals far enough from the ends of \<^verbatim>\<open>i64\<close> that no difference wraps.\<close>

definition in_range :: "i64 \<Rightarrow> bool" where
  "in_range x \<longleftrightarrow> \<bar>sint x\<bar> < 2 ^ 60"

lemma in_range_diff: "in_range x \<Longrightarrow> in_range y \<Longrightarrow> sint (x - y) = sint x - sint y"
  by (intro sint_diff_i64) (auto simp: in_range_def)

lemma stale_after_exact:
  assumes "in_range i" shows "sint (i * STALE_MULTIPLIER) = 3 * sint i"
proof -
  have "i * STALE_MULTIPLIER = of_int (3 * sint i)" by (simp add: STALE_MULTIPLIER_def)
  then show ?thesis using assms sint_of_int_i64 [of "3 * sint i"] by (simp add: in_range_def)
qed

lemma i64_max_0_mono: "sint x \<le> sint y \<Longrightarrow> sint (i64_max x 0) \<le> sint (i64_max y 0)"
  by (auto simp: i64_max_def)

lemma quiet_argument:
  assumes "in_range now" "in_range (pr_last_heartbeat_at pr)" "in_range (heartbeat_interval_seconds cfg)"
  shows "sint (now - pr_last_heartbeat_at pr - heartbeat_interval_seconds cfg * STALE_MULTIPLIER)
    = sint now - sint (pr_last_heartbeat_at pr) - 3 * sint (heartbeat_interval_seconds cfg)"
proof -
  have "sint (now - pr_last_heartbeat_at pr - heartbeat_interval_seconds cfg * STALE_MULTIPLIER)
      = sint (now - pr_last_heartbeat_at pr) - sint (heartbeat_interval_seconds cfg * STALE_MULTIPLIER)"
    using assms by (intro sint_diff_i64)
      (auto simp: in_range_diff stale_after_exact, auto simp: in_range_def)
  then show ?thesis using assms by (simp only: in_range_diff stale_after_exact)
qed

lemma fresh_iff:
  assumes "in_range now" "in_range (pr_last_heartbeat_at pr)" "in_range (heartbeat_interval_seconds cfg)"
  shows "fresh cfg pr now \<longleftrightarrow> sint now - sint (pr_last_heartbeat_at pr) \<le> 3 * sint (heartbeat_interval_seconds cfg)"
  using assms by (simp only: fresh_def in_range_diff stale_after_exact)

lemma trust_grows:
  assumes "f32_rounding rnd" "0 < sint (trust_rebuild_seconds cfg)"
    and "in_range (pr_session_started_at pr)" "in_range (pr_last_heartbeat_at pr)"
    and "in_range now" "in_range now'" "sint now \<le> sint now'"
    and "in_range (heartbeat_interval_seconds cfg)" "fresh cfg pr now'"
  shows "trust_score rnd (Some pr) False a now cfg \<le> trust_score rnd (Some pr) False a now' cfg"
proof -
  have "fresh cfg pr now" using assms by (simp add: fresh_iff)
  moreover have "sint (now - pr_session_started_at pr) \<le> sint (now' - pr_session_started_at pr)"
    using assms by (simp only: in_range_diff)
  then have "rebuild_fraction rnd (pr_session_started_at pr) now cfg a
      \<le> rebuild_fraction rnd (pr_session_started_at pr) now' cfg a"
    by (intro rebuild_fraction_mono assms(1,2) i64_max_0_mono)
  ultimately show ?thesis using assms(9) by (simp add: trust_score_fresh clamp01_mono)
qed

lemma trust_full:
  assumes "f32_rounding rnd" "0 < sint (trust_rebuild_seconds cfg)"
    and "in_range (pr_session_started_at pr)" "in_range now"
    and "fresh cfg pr now" "sint (trust_rebuild_seconds cfg) \<le> sint now - sint (pr_session_started_at pr)"
  shows "trust_score rnd (Some pr) False False now cfg = 1"
proof -
  have "sint (trust_rebuild_seconds cfg) \<le> sint (i64_max (now - pr_session_started_at pr) 0)"
    using assms by (simp add: i64_max_def in_range_diff)
  then show ?thesis
    using rebuild_fraction_full [OF assms(1,2)] assms(5) by (simp add: trust_score_fresh clamp01_def)
qed

lemma trust_decays:
  assumes "f32_rounding rnd" "0 < sint (trust_rebuild_seconds cfg)"
    and "in_range (pr_session_started_at pr)" "in_range (pr_last_heartbeat_at pr)"
    and "in_range now" "in_range now'" "sint now \<le> sint now'"
    and "in_range (heartbeat_interval_seconds cfg)" "\<not> fresh cfg pr now"
  shows "trust_score rnd (Some pr) False a now' cfg \<le> trust_score rnd (Some pr) False a now cfg"
proof -
  have "\<not> fresh cfg pr now'" using assms by (simp add: fresh_iff)
  moreover have "sint (now - pr_last_heartbeat_at pr - heartbeat_interval_seconds cfg * STALE_MULTIPLIER)
      \<le> sint (now' - pr_last_heartbeat_at pr - heartbeat_interval_seconds cfg * STALE_MULTIPLIER)"
    using assms by (simp only: quiet_argument)
  from covered_mono [OF assms(1,2) this] show ?thesis
    unfolding trust_score_quiet [OF assms(9)] trust_score_quiet [OF calculation]
    by (intro clamp01_mono f32_roundingD(1) [OF assms(1)] mult_left_mono rebuild_fraction_nonneg assms(1)) simp
qed

lemma trust_gone:
  assumes "f32_rounding rnd" "0 < sint (trust_rebuild_seconds cfg)"
    and "in_range (pr_last_heartbeat_at pr)" "in_range now" "in_range (heartbeat_interval_seconds cfg)"
    and "sint (trust_rebuild_seconds cfg) + 3 * sint (heartbeat_interval_seconds cfg)
      \<le> sint now - sint (pr_last_heartbeat_at pr)"
  shows "trust_score rnd (Some pr) False a now cfg = 0"
proof -
  have "\<not> fresh cfg pr now" using assms by (simp add: fresh_iff)
  moreover have "sint (trust_rebuild_seconds cfg)
      \<le> sint (now - pr_last_heartbeat_at pr - heartbeat_interval_seconds cfg * STALE_MULTIPLIER)"
    using assms by (simp only: quiet_argument)
  from covered_full [OF assms(1,2) this] show ?thesis
    unfolding trust_score_quiet [OF calculation] by (simp add: f32_roundingD(2) [OF assms(1)] clamp01_def)
qed

text \<open>
  The start of a session is whatever the first heartbeat says, and nothing compares it with the
  heartbeat's own, checked timestamp: a peer seen for the first time a moment ago that claims a long
  session has full trust at once.
\<close>

lemma claimed_session_gives_full_trust:
  assumes "f32_rounding rnd" "0 < sint (trust_rebuild_seconds cfg)" "0 \<le> sint (heartbeat_interval_seconds cfg)"
    and "in_range started" "in_range now" "in_range (heartbeat_interval_seconds cfg)"
    and "sint (trust_rebuild_seconds cfg) \<le> sint now - sint started"
    and "\<not> has_key pr_peer (peer_presence n) p"
  shows "trust_score rnd (presence_get (record_heartbeat p started now status n) p) False False now cfg = 1"
proof -
  let ?pr = "\<lparr>pr_peer = p, pr_session_started_at = started, pr_last_heartbeat_at = now, pr_status = status\<rparr>"
  have "presence_get (record_heartbeat p started now status n) p = Some ?pr"
    using assms(8) by (simp add: presence_get_def record_heartbeat_def lookup_by_append lookup_by_None_iff [THEN iffD2])
  moreover have "fresh cfg ?pr now" using assms by (simp add: fresh_iff)
  ultimately show ?thesis using trust_full [of rnd cfg ?pr now] assms by simp
qed

end
