(* ===== verification/Sync.thy ===== *)
theory Sync
  imports Peering PeerState
begin

text \<open>
  Replication between peers: the serving side (\<^verbatim>\<open>oag-sync/src/server.rs\<close>), the pulling side
  (\<^verbatim>\<open>SyncService::sync_with_peer\<close> and \<^verbatim>\<open>discover_peers\<close> in \<^verbatim>\<open>service.rs\<close>) and the
  durability report (\<^verbatim>\<open>replication.rs\<close>).

  A remote peer is untrusted: the record \<open>remote\<close> holds whatever it answers to each request, with
  no assumption on it.  Every call reads the clock once (\<open>now\<close>).  The tensor pad that
  \<^verbatim>\<open>observe_sync_outcome\<close> updates after a round is a table of its own that nothing here reads.
\<close>

section \<open>Wire types\<close>

definition SYNC_PROTOCOL :: string where "SYNC_PROTOCOL = ''oag-sync''"
definition SYNC_VERSION :: "16 word" where "SYNC_VERSION = 1"

text \<open>A \<^verbatim>\<open>HashMap\<close> of heads is the list of its entries, in the order it is iterated.\<close>

type_synonym heads = "(string \<times> u64) list"

record hello_response =
  hr_protocol :: string
  hr_version :: "16 word"
  hr_peer_id :: string
  hr_public_key :: string
  hr_heads :: heads

record peer_record =
  prc_peer_id :: string
  prc_public_key :: string
  prc_addresses :: "string list"
  prc_last_seen :: "int option"

section \<open>Serving\<close>

definition local_heads :: "('sk, 'vk, 'z) crypto_scheme \<Rightarrow> db \<Rightarrow> heads" where
  "local_heads C d = map (\<lambda>r. (hex_encode C (or_origin r), or_highest_contiguous r)) (event_origins d)"

definition hello :: "('sk, 'vk, 'z) crypto_scheme \<Rightarrow> peer_id \<Rightarrow> byte list \<Rightarrow> db \<Rightarrow> hello_response" where
  "hello C self_peer_id self_public_key d =
     \<lparr>hr_protocol = SYNC_PROTOCOL, hr_version = SYNC_VERSION,
      hr_peer_id = peer_id_to_string C self_peer_id, hr_public_key = hex_encode C self_public_key,
      hr_heads = local_heads C d\<rparr>"

definition MAX_EVENTS_PER_FETCH :: i64 where "MAX_EVENTS_PER_FETCH = 1000"

definition i64_min :: "i64 \<Rightarrow> i64 \<Rightarrow> i64" where
  "i64_min x y = (if sint x \<le> sint y then x else y)"

definition serve_range ::
  "('sk, 'vk, 'z) codec_scheme \<Rightarrow> db \<Rightarrow> peer_id \<Rightarrow> u64 \<Rightarrow> u64 \<Rightarrow> json_error + signed_event list" where
  "serve_range C d p from to =
     (let to = i64_min to (from + MAX_EVENTS_PER_FETCH - 1)
      in collect_results (map (\<lambda>row. parse_signed C (er_payload row)) (list_range d p from to)))"

definition get_events ::
  "('sk, 'vk, 'z) codec_scheme \<Rightarrow> db \<Rightarrow> string \<Rightarrow> u64 \<Rightarrow> u64 \<Rightarrow> http_status + signed_event list" where
  "get_events C d origin_hex from to =
     res_bind (ok_or BAD_REQUEST (decode_hex32 C origin_hex)) (\<lambda>origin_bytes.
     if to < from then Inl BAD_REQUEST else
     res_map_err (\<lambda>_. INTERNAL_SERVER_ERROR) (serve_range C d origin_bytes from to))"

definition peers_response :: "('sk, 'vk, 'z) crypto_scheme \<Rightarrow> db \<Rightarrow> peer_record list" where
  "peers_response C d =
     map (\<lambda>info. \<lparr>prc_peer_id = peer_id_to_string C (pe_id info),
                   prc_public_key = hex_encode C (pe_public_key info),
                   prc_addresses = list_addresses d (pe_id info), prc_last_seen = pe_last_seen info\<rparr>)
       (list_peers d)"

definition MAX_EVENTS_PER_PUSH :: nat where "MAX_EVENTS_PER_PUSH = 1000"

text \<open>The key under which an event of \<open>p\<close> is checked: the one on record for it.\<close>

definition known_key :: "('sk, 'vk, 'z) codec_scheme \<Rightarrow> 'vk wire \<Rightarrow> db \<Rightarrow> peer_id \<Rightarrow> 'vk option" where
  "known_key C W d p = Option.bind (get_peer d p) (\<lambda>info. vk_from_bytes W (pe_public_key info))"

definition push_one ::
  "('sk, 'vk, 'z) codec_scheme \<Rightarrow> 'vk wire \<Rightarrow> (f32 \<Rightarrow> f32) \<Rightarrow> sync_service \<Rightarrow> i64 \<Rightarrow> signed_event
     \<Rightarrow> (nat \<times> nat) \<times> sync_db \<Rightarrow> (nat \<times> nat) \<times> sync_db" where
  "push_one C W rnd sv now sev st =
     (case st of ((applied, skipped), n) \<Rightarrow>
      case peer_id_from_str C (ue_origin_peer (se_unsigned sev)) of
        Inl _ \<Rightarrow> ((applied, skipped + 1), n)
      | Inr origin \<Rightarrow>
          if \<not> federation_allows rnd sv n now origin then ((applied, skipped + 1), n)
          else case known_key C W (store n) origin of
            None \<Rightarrow> ((applied, skipped + 1), n)
          | Some vk \<Rightarrow>
              (case ingest_remote_event C vk sev (sint now) (store n) of
                 (Inr (Applied _ _), d) \<Rightarrow> ((applied + 1, skipped), n\<lparr>store := d\<rparr>)
               | (_, d) \<Rightarrow> ((applied, skipped + 1), n\<lparr>store := d\<rparr>)))"

definition post_events ::
  "('sk, 'vk, 'z) codec_scheme \<Rightarrow> 'vk wire \<Rightarrow> (f32 \<Rightarrow> f32) \<Rightarrow> sync_service \<Rightarrow> i64 \<Rightarrow> signed_event list \<Rightarrow> sync_db
     \<Rightarrow> (http_status + nat \<times> nat) \<times> sync_db" where
  "post_events C W rnd sv now body n =
     (if length body > MAX_EVENTS_PER_PUSH then (Inl PAYLOAD_TOO_LARGE, n)
      else case fold (push_one C W rnd sv now) body ((0, 0), n) of (counts, n') \<Rightarrow> (Inr counts, n'))"

section \<open>Pulling\<close>

text \<open>A failed request, as \<^verbatim>\<open>SyncClientError\<close> reports it.\<close>

datatype client_error = Http string | ResponseTooLarge nat | InvalidJson string

record remote =
  rm_hello :: "client_error + hello_response"
  rm_peers :: "client_error + peer_record list"
  rm_events :: "string \<Rightarrow> u64 \<Rightarrow> u64 \<Rightarrow> client_error + signed_event list"

datatype sync_error =
    Client client_error
  | SyncStorage storage_error
  | SyncPeerId peer_id_parse_error
  | SyncInvalidPublicKey

text \<open>The entries of \<^verbatim>\<open>SyncSummary::errors\<close>, before they are formatted.\<close>

datatype sync_note = FetchFailed string client_error | IngestFailed string u64 events_error

record sync_summary =
  sy_applied :: nat
  sy_already_known :: nat
  sy_forks :: nat
  sy_errors :: "sync_note list"

definition summary_default :: sync_summary where
  "summary_default = \<lparr>sy_applied = 0, sy_already_known = 0, sy_forks = 0, sy_errors = []\<rparr>"

definition MAX_PEERS_PER_RESPONSE :: nat where "MAX_PEERS_PER_RESPONSE = 200"
definition MAX_ADDRESSES_PER_PEER :: nat where "MAX_ADDRESSES_PER_PEER = 5"
definition MAX_TOTAL_KNOWN_PEERS :: nat where "MAX_TOTAL_KNOWN_PEERS = 10000"

text \<open>\<^verbatim>\<open>let _ = add_address(...)\<close>: a failed insertion is ignored.\<close>

definition try_add_address :: "peer_id \<Rightarrow> string \<Rightarrow> db \<Rightarrow> db" where
  "try_add_address p a d = (case add_address p a d of Inl _ \<Rightarrow> d | Inr d' \<Rightarrow> d')"

definition learn_peer :: "peer_id \<Rightarrow> byte list \<Rightarrow> string list \<Rightarrow> int \<Rightarrow> db \<Rightarrow> db" where
  "learn_peer p pk addresses now d =
     fold (try_add_address p) (take MAX_ADDRESSES_PER_PEER addresses) (upsert_peer p pk None now d)"

definition discover_one ::
  "('sk, 'vk, 'z) codec_scheme \<Rightarrow> 'vk wire \<Rightarrow> peer_id \<Rightarrow> int \<Rightarrow> peer_record \<Rightarrow> db \<Rightarrow> db" where
  "discover_one C W self_peer_id now rec d =
     (case (peer_id_from_str C (prc_peer_id rec), decode_hex32 C (prc_public_key rec)) of
        (Inr pid, Some pk) \<Rightarrow>
          if pid = self_peer_id then d
          else (case vk_from_bytes W pk of
                  None \<Rightarrow> d
                | Some vk \<Rightarrow>
                    if pid \<noteq> peer_id_from_public_key C vk then d
                    else learn_peer pid pk (prc_addresses rec) now d)
      | _ \<Rightarrow> d)"

definition discover_peers ::
  "('sk, 'vk, 'z) codec_scheme \<Rightarrow> 'vk wire \<Rightarrow> peer_id \<Rightarrow> int \<Rightarrow> client_error + peer_record list \<Rightarrow> db \<Rightarrow> db" where
  "discover_peers C W self_peer_id now response d =
     (case response of
        Inl _ \<Rightarrow> d
      | Inr records \<Rightarrow>
          if length (peers d) \<ge> MAX_TOTAL_KNOWN_PEERS then d
          else fold (discover_one C W self_peer_id now) (take MAX_PEERS_PER_RESPONSE records) d)"

text \<open>Ingest a batch in order; a fork or an error ends it.\<close>

fun ingest_batch ::
  "('sk, 'vk, 'z) codec_scheme \<Rightarrow> 'vk \<Rightarrow> string \<Rightarrow> int \<Rightarrow> signed_event list \<Rightarrow> sync_summary \<Rightarrow> db \<Rightarrow> sync_summary \<times> db" where
  "ingest_batch C vk origin_hex now [] sm d = (sm, d)"
| "ingest_batch C vk origin_hex now (sev # sevs) sm d =
     (case ingest_remote_event C vk sev now d of
        (Inr (Applied _ _), d') \<Rightarrow> ingest_batch C vk origin_hex now sevs (sm\<lparr>sy_applied := sy_applied sm + 1\<rparr>) d'
      | (Inr (AlreadyKnown _), d') \<Rightarrow>
          ingest_batch C vk origin_hex now sevs (sm\<lparr>sy_already_known := sy_already_known sm + 1\<rparr>) d'
      | (Inr (Forked _ _), d') \<Rightarrow> (sm\<lparr>sy_forks := sy_forks sm + 1\<rparr>, d')
      | (Inl e, d') \<Rightarrow>
          (sm\<lparr>sy_errors := sy_errors sm @ [IngestFailed origin_hex (ue_sequence (se_unsigned sev)) e]\<rparr>, d'))"

definition pull_origin ::
  "('sk, 'vk, 'z) codec_scheme \<Rightarrow> 'vk wire \<Rightarrow> (f32 \<Rightarrow> f32) \<Rightarrow> sync_service \<Rightarrow> remote \<Rightarrow> i64 \<Rightarrow> peer_id \<Rightarrow> 'vk \<Rightarrow> heads
     \<Rightarrow> string \<times> u64 \<Rightarrow> sync_summary \<times> sync_db \<Rightarrow> sync_summary \<times> sync_db" where
  "pull_origin C W rnd sv rm now remote_peer_id remote_public_key mine head st =
     (case (head, st) of ((origin_hex, remote_seq), sm, n) \<Rightarrow>
      case decode_hex32 C origin_hex of
        None \<Rightarrow> (sm, n)
      | Some origin \<Rightarrow>
          if \<not> federation_allows rnd sv n now origin then (sm, n)
          else
            let local_seq = (case map_of mine origin_hex of None \<Rightarrow> 0 | Some s \<Rightarrow> s) in
            if remote_seq \<le> local_seq then (sm, n)
            else
              case (if origin = remote_peer_id then Some remote_public_key else known_key C W (store n) origin) of
                None \<Rightarrow> (sm, n)
              | Some vk \<Rightarrow>
                  (case rm_events rm origin_hex (local_seq + 1) remote_seq of
                     Inl e \<Rightarrow> (sm\<lparr>sy_errors := sy_errors sm @ [FetchFailed origin_hex e]\<rparr>, n)
                   | Inr fetched \<Rightarrow>
                       (case ingest_batch C vk origin_hex (sint now) fetched sm (store n) of
                          (sm', d) \<Rightarrow> (sm', n\<lparr>store := d\<rparr>))))"

definition note_heads ::
  "('sk, 'vk, 'z) crypto_scheme \<Rightarrow> peer_id \<Rightarrow> i64 \<Rightarrow> heads \<Rightarrow> sync_db \<Rightarrow> sync_db" where
  "note_heads C p now hs n =
     fold (\<lambda>(origin_hex, sequence) m. case decode_hex32 C origin_hex of
         None \<Rightarrow> m | Some origin \<Rightarrow> upsert_known_head p origin sequence now m) hs n"

text \<open>\<^verbatim>\<open>hello\<close> read and checked: the peer id, the key's bytes and the key.\<close>

definition check_hello ::
  "('sk, 'vk, 'z) codec_scheme \<Rightarrow> 'vk wire \<Rightarrow> hello_response \<Rightarrow> sync_error + (peer_id \<times> byte list \<times> 'vk)" where
  "check_hello C W hr =
     res_bind (res_map_err SyncPeerId (peer_id_from_str C (hr_peer_id hr))) (\<lambda>remote_peer_id.
     res_bind (ok_or SyncInvalidPublicKey (decode_hex32 C (hr_public_key hr))) (\<lambda>pk.
     res_bind (ok_or SyncInvalidPublicKey (vk_from_bytes W pk)) (\<lambda>vk.
     if remote_peer_id \<noteq> peer_id_from_public_key C vk then Inl SyncInvalidPublicKey
     else Inr (remote_peer_id, pk, vk))))"

definition sync_with_peer ::
  "('sk, 'vk, 'z) codec_scheme \<Rightarrow> 'vk wire \<Rightarrow> (f32 \<Rightarrow> f32) \<Rightarrow> sync_service \<Rightarrow> remote \<Rightarrow> i64 \<Rightarrow> string \<Rightarrow> sync_db
     \<Rightarrow> (sync_error + sync_summary) \<times> sync_db" where
  "sync_with_peer C W rnd sv rm now addr n =
     (case rm_hello rm of
        Inl e \<Rightarrow> (Inl (Client e), n)
      | Inr hr \<Rightarrow>
     (case check_hello C W hr of
        Inl e \<Rightarrow> (Inl e, n)
      | Inr (p, pk, vk) \<Rightarrow>
          let d1 = upsert_peer p pk None (sint now) (store n) in
          case add_address p addr d1 of
            Inl e \<Rightarrow> (Inl (SyncStorage e), n\<lparr>store := d1\<rparr>)
          | Inr d2 \<Rightarrow>
              let n2 = note_heads C p now (hr_heads hr) (n\<lparr>store := d2\<rparr>);
                  n3 = n2\<lparr>store := discover_peers C W (ss_peer_id sv) (sint now) (rm_peers rm) (store n2)\<rparr>;
                  (sm, n4) = fold (pull_origin C W rnd sv rm now p vk (local_heads C (store n3)))
                               (hr_heads hr) (summary_default, n3)
              in (Inr sm, n4)))"

section \<open>Durability report\<close>

definition MIN_REPLICATION_FACTOR :: nat where "MIN_REPLICATION_FACTOR = 3"

text \<open>The ceiling of the square root; \<^verbatim>\<open>f64\<close> is exact for it below \<open>2 ^ 52\<close> peers.\<close>

function ceil_sqrt_from :: "nat \<Rightarrow> nat \<Rightarrow> nat" where
  "ceil_sqrt_from k n = (if n \<le> k * k then k else ceil_sqrt_from (Suc k) n)"
  by pat_completeness auto
termination
proof (relation "measure (\<lambda>(k, n). n - k)")
  fix k n :: nat assume "\<not> n \<le> k * k"
  then have "k < n" using le_square [of k] by linarith
  then show "((Suc k, n), (k, n)) \<in> measure (\<lambda>(k, n). n - k)" by simp
qed simp

declare ceil_sqrt_from.simps [simp del]

definition target_replication_factor :: "nat \<Rightarrow> nat" where
  "target_replication_factor known_peer_count = max (ceil_sqrt_from 0 known_peer_count) MIN_REPLICATION_FACTOR"

record replication_report =
  rp_known_peer_count :: nat
  rp_target_replication_factor :: nat
  rp_self_current_sequence :: u64
  rp_peers_fully_caught_up :: nat
  rp_meets_target :: bool
  rp_lagging_peers :: "(string \<times> u64 option) list"

definition replication_status :: "('sk, 'vk, 'z) crypto_scheme \<Rightarrow> peer_id \<Rightarrow> sync_db \<Rightarrow> replication_report" where
  "replication_status C self_peer_id n =
     (let current = (case get_origin (store n) self_peer_id of None \<Rightarrow> 0 | Some row \<Rightarrow> or_highest_contiguous row);
          known = list_peers (store n);
          target = target_replication_factor (length known);
          head = (\<lambda>p. map_of (map (\<lambda>h. (kh_peer h, kh_sequence h)) (list_known_heads_for_origin n self_peer_id)) p);
          caught = filter (\<lambda>p. case head (pe_id p) of None \<Rightarrow> False | Some s \<Rightarrow> current \<le> s) known;
          lagging = filter (\<lambda>p. \<not> (case head (pe_id p) of None \<Rightarrow> False | Some s \<Rightarrow> current \<le> s)) known
      in \<lparr>rp_known_peer_count = length known, rp_target_replication_factor = target,
          rp_self_current_sequence = current, rp_peers_fully_caught_up = length caught,
          rp_meets_target = (target \<le> length caught),
          rp_lagging_peers = map (\<lambda>p. (peer_id_to_string C (pe_id p), head (pe_id p))) lagging\<rparr>)"

section \<open>Any exchange is a sequence of peer steps\<close>

lemma fold_related:
  assumes "\<And>x s. x \<in> set xs \<Longrightarrow> R\<^sup>*\<^sup>* (g s) (g (f x s))"
  shows "R\<^sup>*\<^sup>* (g s) (g (fold f xs s))"
  using assms
proof (induction xs arbitrary: s)
  case (Cons x xs)
  from Cons.prems [of x s] Cons.IH [of "f x s"] Cons.prems show ?case
    by (auto intro: rtranclp_trans)
qed simp

lemma learn_peer_steps: "(peer_step C S)\<^sup>*\<^sup>* d (learn_peer p pk addrs t d)"
proof -
  have "(peer_step C S)\<^sup>*\<^sup>* e (try_add_address p a e)" for a e
    by (cases "add_address p a e") (auto simp: try_add_address_def intro: peer_step.know_address)
  then have "(peer_step C S)\<^sup>*\<^sup>* e (fold (try_add_address p) as e)" for as e
    by (rule fold_related [where g = id, simplified])
  then show ?thesis unfolding learn_peer_def
    by (meson converse_rtranclp_into_rtranclp peer_step.know_peer)
qed

lemma discover_one_steps: "(peer_step C S)\<^sup>*\<^sup>* d (discover_one C W self t rec d)"
  by (auto simp: discover_one_def learn_peer_steps split: sum.splits option.splits)

lemma discover_peers_steps: "(peer_step C S)\<^sup>*\<^sup>* d (discover_peers C W self t response d)"
  using fold_related [where g = id, simplified, OF discover_one_steps]
  by (auto simp: discover_peers_def split: sum.splits)

lemma ingest_batch_steps:
  "set sevs \<subseteq> S \<Longrightarrow> (peer_step C S)\<^sup>*\<^sup>* d (snd (ingest_batch C vk o_hex t sevs sm d))"
proof (induction sevs arbitrary: sm d)
  case (Cons sev sevs)
  obtain r d' where ing: "ingest_remote_event C vk sev t d = (r, d')" by (cases "ingest_remote_event C vk sev t d")
  then have "peer_step C S d d'" using Cons.prems by (auto intro: peer_step.ingest)
  moreover have "(peer_step C S)\<^sup>*\<^sup>* d' (snd (ingest_batch C vk o_hex t sevs sm' d'))" for sm'
    using Cons by simp
  ultimately show ?case
    using ing by (auto split: sum.splits ingest_outcome.splits intro: converse_rtranclp_into_rtranclp)
qed simp

text \<open>The events a remote peer can send.\<close>

definition remote_events :: "remote \<Rightarrow> signed_event set" where
  "remote_events rm = {sev. \<exists>o_hex f t sevs. rm_events rm o_hex f t = Inr sevs \<and> sev \<in> set sevs}"

text \<open>One head of the remote's \<^verbatim>\<open>hello\<close> either leaves the database alone or ingests a batch for an
  origin that the federation policy admits, under the key on record for it.\<close>

lemma pull_origin_cases:
  obtains (idle) sm' where "pull_origin C W rnd sv rm now p vk mine (o_hex, seq) (sm, n) = (sm', n)"
  | (pulled) origin vk' sevs f where
      "decode_hex32 C o_hex = Some origin" "federation_allows rnd sv n now origin"
      "(if origin = p then Some vk else known_key C W (store n) origin) = Some vk'"
      "rm_events rm o_hex f seq = Inr sevs"
      "pull_origin C W rnd sv rm now p vk mine (o_hex, seq) (sm, n) =
        (fst (ingest_batch C vk' o_hex (sint now) sevs sm (store n)),
         n\<lparr>store := snd (ingest_batch C vk' o_hex (sint now) sevs sm (store n))\<rparr>)"
proof -
  let ?local = "case map_of mine o_hex of None \<Rightarrow> 0 | Some s \<Rightarrow> s"
  let ?key = "\<lambda>origin. if origin = p then Some vk else known_key C W (store n) origin"
  show thesis
  proof (cases "decode_hex32 C o_hex")
    case None
    then show thesis by (intro idle [of sm]) (simp add: pull_origin_def)
  next
    case (Some origin)
    note dec = Some
    show thesis
    proof (cases "federation_allows rnd sv n now origin \<and> \<not> seq \<le> ?local")
      case False
      then show thesis by (intro idle [of sm]) (auto simp: pull_origin_def dec Let_def)
    next
      case True
      show thesis
      proof (cases "?key origin")
        case None
        then show thesis using True by (intro idle [of sm]) (simp add: pull_origin_def dec Let_def)
      next
        case (Some vk')
        note key = Some
        show thesis
        proof (cases "rm_events rm o_hex (?local + 1) seq")
          case (Inl e)
          show thesis
            by (rule idle [of "sm\<lparr>sy_errors := sy_errors sm @ [FetchFailed o_hex e]\<rparr>"])
              (use True key Inl in \<open>simp add: pull_origin_def dec Let_def\<close>)
        next
          case (Inr sevs)
          show thesis
            by (rule pulled [OF dec _ key Inr])
              (use True key Inr in \<open>auto simp: pull_origin_def dec Let_def split: prod.splits if_splits\<close>)
        qed
      qed
    qed
  qed
qed

lemma pull_origin_steps:
  assumes "remote_events rm \<subseteq> S"
  shows "(peer_step C S)\<^sup>*\<^sup>* (store (snd st)) (store (snd (pull_origin C W rnd sv rm now p vk mine head st)))"
proof -
  obtain sm n o_hex seq where eqs: "st = (sm, n)" "head = (o_hex, seq)" by (metis prod.exhaust)
  have "set sevs \<subseteq> S" if "rm_events rm o_hex f t = Inr sevs" for f t sevs
    using assms that unfolding remote_events_def by blast
  then show ?thesis unfolding eqs
    by (cases rule: pull_origin_cases [of C W rnd sv rm now p vk mine o_hex seq sm n])
      (simp_all add: ingest_batch_steps)
qed

lemma store_note_heads [simp]: "store (note_heads C p now hs n) = store n"
  unfolding note_heads_def
  by (induction hs arbitrary: n) (auto simp: upsert_known_head_def split: option.splits)

lemma sync_with_peer_steps:
  assumes "remote_events rm \<subseteq> S"
  shows "(peer_step C S)\<^sup>*\<^sup>* (store n) (store (snd (sync_with_peer C W rnd sv rm now addr n)))"
proof -
  have pulls: "(peer_step C S)\<^sup>*\<^sup>* (store m)
      (store (snd (fold (pull_origin C W rnd sv rm now p vk mine) hs (sm, m))))" for p vk mine hs sm m
    using fold_related [where g = "\<lambda>st. store (snd st)" and s = "(sm, m)" and xs = hs, OF pull_origin_steps [OF assms]]
    by simp
  have start: "(peer_step C S)\<^sup>*\<^sup>* (store n) d2" if "add_address p addr (upsert_peer p pk None t (store n)) = Inr d2" for p pk t d2
    using that by (meson converse_rtranclp_into_rtranclp peer_step.know_address peer_step.know_peer r_into_rtranclp)
  have "(peer_step C S)\<^sup>*\<^sup>* (store n) (upsert_peer p pk None t (store n))" for p pk t
    by (blast intro: peer_step.know_peer)
  then show ?thesis
    by (auto simp: sync_with_peer_def Let_def split: sum.splits prod.splits)
      (metis (no_types, lifting) start discover_peers_steps pulls rtranclp_trans snd_conv
        sync_db.select_convs(1) sync_db.surjective sync_db.update_convs(1))+
qed

lemma push_one_steps:
  assumes "sev \<in> S"
  shows "(peer_step C S)\<^sup>*\<^sup>* (store (snd st)) (store (snd (push_one C W rnd sv now sev st)))"
proof -
  obtain a b n where st: "st = ((a, b), n)" by (metis prod.exhaust)
  show ?thesis
    by (auto simp: push_one_def st split: sum.splits option.splits prod.splits ingest_outcome.splits
        intro: peer_step.ingest [OF assms])
qed

lemma post_events_steps:
  assumes "set body \<subseteq> S"
  shows "(peer_step C S)\<^sup>*\<^sup>* (store n) (store (snd (post_events C W rnd sv now body n)))"
proof -
  have "(peer_step C S)\<^sup>*\<^sup>* (store (snd ((0 :: nat, 0 :: nat), n)))
      (store (snd (fold (push_one C W rnd sv now) body ((0, 0), n))))"
    using assms push_one_steps by (intro fold_related) blast
  then show ?thesis by (simp add: post_events_def case_prod_unfold)
qed

section \<open>What an ingested event can touch\<close>

text \<open>Without any assumption on the database: at most one row, of the claimed origin; and the peer
  table only to flag that origin.\<close>

lemma project_frame:
  assumes "project C eid t pl d = Inr (out, d')"
  shows "events d' = events d" "peers d' = peers d" "peer_addresses d' = peer_addresses d"
  by (rule project_InrD [OF assms]; simp)+

lemma ingest_effect:
  assumes "ingest_remote_event C vk sev t d = (res, d')"
  obtains (unchanged) "d' = d"
  | (forked) eid p prev s a b j where "check_origin C vk sev = Inr (eid, p, prev)"
      "d' = mark_forked p (record_fork p s a b t j (upsert_peer p (key_bytes C vk) None t d))"
  | (appended) eid p prev r where "check_origin C vk sev = Inr (eid, p, prev)" "er_origin r = p"
      "events d' = events d \<or> events d' = events d @ [r]" "peers d' = peers d" "peer_addresses d' = peer_addresses d"
proof (cases "ingest_body C vk sev t d")
  case (Inl e)
  then show ?thesis using assms unchanged by (simp add: ingest_remote_event_def transaction_def)
next
  case (Inr x)
  then obtain out where body: "ingest_body C vk sev t d = Inr (out, d')"
    using assms by (cases x) (simp add: ingest_remote_event_def transaction_def)
  then obtain eid p prev where origin: "check_origin C vk sev = Inr (eid, p, prev)"
    by (auto simp: ingest_body_def)
  show ?thesis
  proof (cases "find_event_id_at d p (ue_sequence (se_unsigned sev))")
    case None
    then have "append_remote C sev t p prev eid d = Inr (out, d')"
      using body origin by (simp add: ingest_body_def)
    then obtain b sig out' d2 where d2:
      "project C eid (ue_created_at (se_unsigned sev)) (ue_payload (se_unsigned sev))
         (snd (insert_event (remote_row sev t p prev eid b sig) d)) = Inr (out', d2)"
      "d' = advance_origin p (ue_sequence (se_unsigned sev)) eid d2"
      by (auto simp: append_remote_def Let_def remote_row_def split: prod.splits)
    let ?r = "remote_row sev t p prev eid b sig"
    have "peer_addresses (advance_origin p s h e) = peer_addresses e" for s h e
      by (simp add: advance_origin_def Let_def)
    then show ?thesis
      using appended [OF origin, of ?r] project_frame [OF d2(1)] d2(2)
      by (auto simp: insert_event_def remote_row_def split: if_splits)
  next
    case (Some existing)
    then show ?thesis using body origin unchanged forked [OF origin]
      by (auto simp: ingest_body_def record_origin_fork_def Let_def split: if_splits)
  qed
qed

lemma check_origin_claimed:
  "check_origin C vk sev = Inr (eid, p, prev) \<Longrightarrow>
     peer_id_from_str C (ue_origin_peer (se_unsigned sev)) = Inr p \<and> p = peer_id_from_public_key C vk"
  by (elim check_origin_parts) simp

lemma ingest_other_chain:
  assumes "ingest_remote_event C vk sev t d = (res, d')" and "q \<noteq> peer_id_from_public_key C vk"
  shows "chain_of d' q = chain_of d q"
  using assms(1)
proof (cases rule: ingest_effect)
  case (appended eid p prev r)
  then have "er_origin r \<noteq> q" using check_origin_claimed assms(2) by metis
  with appended(3) show ?thesis by (auto simp: chain_of_def origin_rows_def)
qed (simp_all add: chain_of_def origin_rows_def)

end
