(* ===== verification/Replicate.thy ===== *)
theory Replicate
  imports Sync Sample
begin

text \<open>
  What replication guarantees, whatever the other side sends: keys on record match their peers,
  origins that the federation policy refuses stay out, discovery is bounded; and what an honest
  remote peer achieves: a pull brings the local chain up to the remote one.
\<close>

section \<open>Keys on record\<close>

definition keys_match :: "('sk, 'vk, 'z) codec_scheme \<Rightarrow> 'vk wire \<Rightarrow> db \<Rightarrow> bool" where
  "keys_match C W d \<longleftrightarrow>
     (\<forall>r \<in> set (peers d). \<exists>vk. vk_from_bytes W (pe_public_key r) = Some vk \<and> pe_id r = peer_id_from_public_key C vk)"

lemma keys_match_cong: "peers d' = peers d \<Longrightarrow> keys_match C W d' \<longleftrightarrow> keys_match C W d"
  by (simp add: keys_match_def)

lemma keys_match_upsert:
  assumes "keys_match C W d" "vk_from_bytes W pk = Some vk" "p = peer_id_from_public_key C vk"
  shows "keys_match C W (upsert_peer p pk nm t d)"
  using assms by (auto simp: keys_match_def upsert_peer_def update_where_def)

lemma keys_match_mark_forked: "keys_match C W d \<Longrightarrow> keys_match C W (mark_forked p d)"
  by (auto simp: keys_match_def mark_forked_def update_where_def)

lemma add_address_frame:
  assumes "add_address p a d = Inr d'"
  shows "peers d' = peers d" "chain_of d' = chain_of d" "length (peer_addresses d') \<le> Suc (length (peer_addresses d))"
  using assms by (auto simp: add_address_def chain_of_def origin_rows_def fun_eq_iff split: if_splits)

lemma peers_try_add_address [simp]: "peers (try_add_address p a d) = peers d"
  by (auto simp: try_add_address_def add_address_def split: sum.splits if_splits)

lemma peers_learn_peer [simp]: "peers (learn_peer p pk addrs t d) = peers (upsert_peer p pk None t d)"
proof -
  have "peers (fold (try_add_address p) as e) = peers e" for as e
    by (induction as arbitrary: e) simp_all
  then show ?thesis by (simp add: learn_peer_def)
qed

lemma fold_invariant: "(\<And>x s. x \<in> set xs \<Longrightarrow> P s \<Longrightarrow> P (f x s)) \<Longrightarrow> P s \<Longrightarrow> P (fold f xs s)"
  by (induction xs arbitrary: s) auto

lemma keys_match_frame [simp]:
  "keys_match C W (record_fork p s a b t j d) \<longleftrightarrow> keys_match C W d"
  "keys_match C W (learn_peer p pk addrs t d) \<longleftrightarrow> keys_match C W (upsert_peer p pk None t d)"
  by (simp_all add: keys_match_def)

lemma keys_match_discover_one:
  assumes "keys_match C W d" shows "keys_match C W (discover_one C W self t rec d)"
proof (cases "peer_id_from_str C (prc_peer_id rec)")
  case (Inr pid)
  show ?thesis
  proof (cases "decode_hex32 C (prc_public_key rec)")
    case (Some pk)
    show ?thesis
    proof (cases "vk_from_bytes W pk")
      case (Some vk)
      with assms Inr \<open>decode_hex32 C (prc_public_key rec) = Some pk\<close> show ?thesis
        by (simp add: discover_one_def keys_match_upsert)
    qed (use assms Inr Some in \<open>simp add: discover_one_def\<close>)
  qed (use assms Inr in \<open>simp add: discover_one_def\<close>)
qed (use assms in \<open>simp add: discover_one_def\<close>)

lemma keys_match_discover:
  assumes "keys_match C W d" shows "keys_match C W (discover_peers C W self t response d)"
proof -
  have "keys_match C W (fold (discover_one C W self t) recs d)" for recs
    using keys_match_discover_one assms by (rule fold_invariant [where P = "keys_match C W"])
  then show ?thesis using assms by (simp add: discover_peers_def split: sum.splits)
qed

lemma keys_match_ingest:
  assumes "key_codec C W" "keys_match C W d" "ingest_remote_event C vk sev t d = (res, d')"
  shows "keys_match C W d'"
  using assms(3)
proof (cases rule: ingest_effect)
  case (forked eid p prev s a b j)
  have "vk_from_bytes W (key_bytes C vk) = Some vk" using assms(1) by (simp add: key_codec_def)
  then have "keys_match C W (upsert_peer p (key_bytes C vk) None t d)"
    using keys_match_upsert [OF assms(2)] check_origin_claimed [OF forked(1)] by simp
  then show ?thesis
    using forked(2) by (simp add: keys_match_mark_forked)
qed (use assms(2) in \<open>simp_all add: keys_match_def\<close>)

lemma keys_match_batch:
  "key_codec C W \<Longrightarrow> keys_match C W d \<Longrightarrow> keys_match C W (snd (ingest_batch C vk o_hex t sevs sm d))"
proof (induction sevs arbitrary: sm d)
  case (Cons sev sevs)
  obtain r d' where ing: "ingest_remote_event C vk sev t d = (r, d')" by (cases "ingest_remote_event C vk sev t d")
  have "keys_match C W d'" using keys_match_ingest [OF Cons.prems ing] .
  then show ?case using ing Cons by (auto split: sum.splits ingest_outcome.splits)
qed simp

lemma keys_match_pull:
  assumes "key_codec C W" "keys_match C W (store (snd st))"
  shows "keys_match C W (store (snd (pull_origin C W rnd sv rm now p vk mine head st)))"
proof -
  obtain sm n o_hex seq where eqs: "st = (sm, n)" "head = (o_hex, seq)" by (metis prod.exhaust)
  show ?thesis using assms unfolding eqs
    by (cases rule: pull_origin_cases [of C W rnd sv rm now p vk mine o_hex seq sm n])
      (simp_all add: keys_match_batch)
qed

lemma check_helloD:
  "check_hello C W hr = Inr (p, pk, vk) \<Longrightarrow> vk_from_bytes W pk = Some vk \<and> p = peer_id_from_public_key C vk"
  by (auto simp: check_hello_def split: if_splits)

text \<open>The three places a call of \<open>sync_with_peer\<close> can end.\<close>

lemma sync_with_peer_cases:
  obtains (refused) e where "sync_with_peer C W rnd sv rm now addr n = (Inl e, n)"
  | (no_address) hr p pk vk e where "rm_hello rm = Inr hr" "check_hello C W hr = Inr (p, pk, vk)"
      "sync_with_peer C W rnd sv rm now addr n = (Inl e, n\<lparr>store := upsert_peer p pk None (sint now) (store n)\<rparr>)"
  | (pulled) hr p pk vk d2 n3 where "rm_hello rm = Inr hr" "check_hello C W hr = Inr (p, pk, vk)"
      "add_address p addr (upsert_peer p pk None (sint now) (store n)) = Inr d2"
      "n3 = (note_heads C p now (hr_heads hr) (n\<lparr>store := d2\<rparr>))
              \<lparr>store := discover_peers C W (ss_peer_id sv) (sint now) (rm_peers rm) d2\<rparr>"
      "sync_with_peer C W rnd sv rm now addr n =
        (case fold (pull_origin C W rnd sv rm now p vk (local_heads C (store n3))) (hr_heads hr) (summary_default, n3)
         of (sm, n4) \<Rightarrow> (Inr sm, n4))"
proof (cases "rm_hello rm")
  case (Inl e)
  then show thesis using refused by (simp add: sync_with_peer_def)
next
  case (Inr hr)
  note hello = Inr
  show thesis
  proof (cases "check_hello C W hr")
    case (Inl e)
    then show thesis using refused hello by (simp add: sync_with_peer_def)
  next
    case (Inr x)
    then obtain p pk vk where x: "check_hello C W hr = Inr (p, pk, vk)" by (cases x) auto
    show thesis
    proof (cases "add_address p addr (upsert_peer p pk None (sint now) (store n))")
      case (Inl e)
      then show thesis using no_address [OF hello x] hello x by (simp add: sync_with_peer_def)
    next
      case (Inr d2)
      then show thesis using pulled [OF hello x Inr refl] hello x by (simp add: sync_with_peer_def Let_def)
    qed
  qed
qed

lemma keys_match_sync:
  assumes "key_codec C W" "keys_match C W (store n)"
  shows "keys_match C W (store (snd (sync_with_peer C W rnd sv rm now addr n)))"
proof (cases rule: sync_with_peer_cases [of C W rnd sv rm now addr n])
  case (no_address hr p pk vk e)
  then show ?thesis using keys_match_upsert [OF assms(2)] check_helloD [OF no_address(2)] by simp
next
  case (pulled hr p pk vk d2 n3)
  have "keys_match C W d2"
    using keys_match_upsert [OF assms(2)] check_helloD [OF pulled(2)]
      keys_match_cong [OF add_address_frame(1) [OF pulled(3)], of C] by simp
  then have "keys_match C W (store (snd (summary_default, n3)))"
    by (simp add: pulled(4) keys_match_discover)
  then have "keys_match C W (store (snd (fold (pull_origin C W rnd sv rm now p vk (local_heads C (store n3)))
      (hr_heads hr) (summary_default, n3))))"
    using keys_match_pull [OF assms(1)] by (intro fold_invariant [where P = "\<lambda>st. keys_match C W (store (snd st))"]) simp_all
  then show ?thesis by (simp add: pulled(5) case_prod_unfold)
qed (use assms(2) in simp)

section \<open>Origins the policy refuses\<close>

text \<open>Neither the cluster claims nor the allowlist change while events are exchanged, so an origin
  outside both stays refused throughout.\<close>

definition refused :: "sync_service \<Rightarrow> sync_db \<Rightarrow> peer_id \<Rightarrow> bool" where
  "refused sv n q \<longleftrightarrow> \<not> same_cluster sv n q \<and> \<not> allows (ss_federation sv) q"

lemma refused_not_allowed: "refused sv n q \<Longrightarrow> \<not> federation_allows rnd sv n now q"
  by (simp add: refused_def federation_allows_def)

lemma refused_cong: "peer_cluster_claims m = peer_cluster_claims n \<Longrightarrow> refused sv m q \<longleftrightarrow> refused sv n q"
  unfolding refused_def same_cluster_def cluster_get_def by (cases "ss_own_cluster sv") simp_all

lemma refused_store [simp]: "refused sv (n\<lparr>store := d\<rparr>) q \<longleftrightarrow> refused sv n q"
  by (rule refused_cong) simp

lemma refused_note_heads [simp]: "refused sv (note_heads C p now hs n) q \<longleftrightarrow> refused sv n q"
proof -
  have "peer_cluster_claims (note_heads C p now hs n) = peer_cluster_claims n"
    unfolding note_heads_def
    by (induction hs arbitrary: n) (auto simp: upsert_known_head_def split: option.splits)
  then show ?thesis by (rule refused_cong)
qed

lemma batch_other_chain:
  "q \<noteq> peer_id_from_public_key C vk \<Longrightarrow> chain_of (snd (ingest_batch C vk o_hex t sevs sm d)) q = chain_of d q"
proof (induction sevs arbitrary: sm d)
  case (Cons sev sevs)
  obtain r d' where ing: "ingest_remote_event C vk sev t d = (r, d')" by (cases "ingest_remote_event C vk sev t d")
  have "chain_of d' q = chain_of d q" using ingest_other_chain [OF ing Cons.prems] .
  then show ?case using ing Cons by (auto split: sum.splits ingest_outcome.splits)
qed simp

lemma known_key_match:
  assumes "keys_match C W d" "known_key C W d p = Some vk" shows "peer_id_from_public_key C vk = p"
proof -
  obtain r where "get_peer d p = Some r" "vk_from_bytes W (pe_public_key r) = Some vk"
    using assms(2) by (auto simp: known_key_def bind_eq_Some_conv)
  then show ?thesis using assms(1) lookup_by_SomeD [of pe_id "peers d" p r]
    by (fastforce simp: keys_match_def get_peer_def)
qed

text \<open>A batch pulled for an admitted origin is checked under a key of that origin, so the chain of
  a refused one is out of its reach.\<close>

lemma pull_refused_chain:
  assumes "keys_match C W (store (snd st))" "p = peer_id_from_public_key C vk" "refused sv (snd st) q"
  shows "chain_of (store (snd (pull_origin C W rnd sv rm now p vk mine head st))) q = chain_of (store (snd st)) q"
    and "refused sv (snd (pull_origin C W rnd sv rm now p vk mine head st)) q"
proof -
  obtain sm n o_hex seq where eqs: "st = (sm, n)" "head = (o_hex, seq)" by (metis prod.exhaust)
  have km: "keys_match C W (store n)" and ref: "refused sv n q" using assms by (simp_all add: eqs)
  have "chain_of (store (snd (pull_origin C W rnd sv rm now p vk mine head st))) q = chain_of (store n) q \<and>
      refused sv (snd (pull_origin C W rnd sv rm now p vk mine head st)) q"
    unfolding eqs
  proof (cases rule: pull_origin_cases [of C W rnd sv rm now p vk mine o_hex seq sm n])
    case (pulled origin vk' sevs f)
    have "origin \<noteq> q" using pulled(2) refused_not_allowed [OF ref] by blast
    moreover have "peer_id_from_public_key C vk' = origin"
      using pulled(3) assms(2) known_key_match [OF km] by (simp split: if_splits)
    ultimately show "chain_of (store (snd (pull_origin C W rnd sv rm now p vk mine (o_hex, seq) (sm, n)))) q
        = chain_of (store n) q \<and> refused sv (snd (pull_origin C W rnd sv rm now p vk mine (o_hex, seq) (sm, n))) q"
      using pulled(5) ref by (simp add: batch_other_chain)
  qed (use ref in simp)
  then show "chain_of (store (snd (pull_origin C W rnd sv rm now p vk mine head st))) q = chain_of (store (snd st)) q"
    "refused sv (snd (pull_origin C W rnd sv rm now p vk mine head st)) q"
    by (simp_all add: eqs)
qed

lemma chain_of_learn_peer [simp]: "chain_of (learn_peer p pk addrs t d) = chain_of d"
proof -
  have "chain_of (try_add_address p a e) = chain_of e" for a e
    by (simp add: try_add_address_def add_address_frame(2) split: sum.splits)
  then have "chain_of (fold (try_add_address p) as e) = chain_of e" for as e
    by (induction as arbitrary: e) simp_all
  then show ?thesis
    using chain_of_cong [of "upsert_peer p pk None t d" d] by (simp add: learn_peer_def)
qed

lemma chain_of_discover [simp]: "chain_of (discover_peers C W self t response d) = chain_of d"
proof -
  have "chain_of (discover_one C W self t rec e) = chain_of e" for rec e
    by (simp add: discover_one_def split: sum.splits option.splits)
  then have "chain_of (fold (discover_one C W self t) recs e) = chain_of e" for recs e
    by (induction recs arbitrary: e) simp_all
  then show ?thesis by (simp add: discover_peers_def split: sum.splits)
qed

lemma sync_refused_chain:
  assumes "key_codec C W" "keys_match C W (store n)" "refused sv n q"
  shows "refused sv (snd (sync_with_peer C W rnd sv rm now addr n)) q \<and>
    chain_of (store (snd (sync_with_peer C W rnd sv rm now addr n))) q = chain_of (store n) q"
proof (cases rule: sync_with_peer_cases [of C W rnd sv rm now addr n])
  case (no_address hr p pk vk e)
  then show ?thesis
    using assms(3) chain_of_cong [of "upsert_peer p pk None (sint now) (store n)" "store n"] by simp
next
  case (pulled hr p pk vk d2 n3)
  have p: "p = peer_id_from_public_key C vk" "vk_from_bytes W pk = Some vk" using check_helloD [OF pulled(2)] by simp_all
  have start: "keys_match C W d2" "chain_of d2 = chain_of (store n)"
    using keys_match_upsert [OF assms(2) p(2,1), of None "sint now"] add_address_frame [OF pulled(3)]
      chain_of_cong [of "upsert_peer p pk None (sint now) (store n)" "store n"]
    by (simp_all add: keys_match_def)
  let ?inv = "\<lambda>st :: sync_summary \<times> sync_db. keys_match C W (store (snd st)) \<and> refused sv (snd st) q \<and>
      chain_of (store (snd st)) q = chain_of (store n) q"
  have "?inv (summary_default, n3)"
    using start assms(3) by (simp add: pulled(4) keys_match_discover)
  then have "?inv (fold (pull_origin C W rnd sv rm now p vk (local_heads C (store n3))) (hr_heads hr) (summary_default, n3))"
    using keys_match_pull [OF assms(1)] pull_refused_chain [OF _ p(1)] by (intro fold_invariant [where P = ?inv]) auto
  then show ?thesis by (simp add: pulled(5) case_prod_unfold)
qed (use assms(3) in simp)

lemma push_refused_chain:
  assumes "key_codec C W" "keys_match C W (store (snd st))" "refused sv (snd st) q"
  shows "keys_match C W (store (snd (push_one C W rnd sv now sev st))) \<and> refused sv (snd (push_one C W rnd sv now sev st)) q \<and>
    chain_of (store (snd (push_one C W rnd sv now sev st))) q = chain_of (store (snd st)) q"
proof -
  obtain a b n where st: "st = ((a, b), n)" by (metis prod.exhaust)
  show ?thesis
  proof (cases "peer_id_from_str C (ue_origin_peer (se_unsigned sev))")
    case (Inl e)
    then show ?thesis using assms by (simp add: push_one_def st)
  next
    case (Inr origin)
    show ?thesis
    proof (cases "federation_allows rnd sv n now origin \<and> known_key C W (store n) origin \<noteq> None")
      case False
      then show ?thesis using assms Inr by (auto simp: push_one_def st split: option.splits)
    next
      case True
      then obtain vk where vk: "known_key C W (store n) origin = Some vk" by blast
      obtain r d' where ing: "ingest_remote_event C vk sev (sint now) (store n) = (r, d')"
        by (cases "ingest_remote_event C vk sev (sint now) (store n)")
      have "snd (push_one C W rnd sv now sev st) = n\<lparr>store := d'\<rparr>"
        using Inr True vk ing by (auto simp: push_one_def st split: sum.splits ingest_outcome.splits)
      moreover have "q \<noteq> peer_id_from_public_key C vk"
        using assms(2,3) True vk known_key_match [of C W "store n" origin vk] refused_not_allowed [of sv n q rnd now]
        by (auto simp: st)
      ultimately show ?thesis
        using keys_match_ingest [OF assms(1) _ ing] ingest_other_chain [OF ing] assms(2,3) by (simp add: st)
    qed
  qed
qed

lemma post_refused_chain:
  assumes "key_codec C W" "keys_match C W (store n)" "refused sv n q"
  shows "keys_match C W (store (snd (post_events C W rnd sv now body n))) \<and>
    refused sv (snd (post_events C W rnd sv now body n)) q \<and>
    chain_of (store (snd (post_events C W rnd sv now body n))) q = chain_of (store n) q"
proof -
  let ?inv = "\<lambda>st :: (nat \<times> nat) \<times> sync_db. keys_match C W (store (snd st)) \<and> refused sv (snd st) q \<and>
      chain_of (store (snd st)) q = chain_of (store n) q"
  have "?inv (fold (push_one C W rnd sv now) body ((0, 0), n))"
    using push_refused_chain [OF assms(1)] assms by (intro fold_invariant [where P = ?inv]) auto
  then show ?thesis using assms(2,3) by (simp add: post_events_def case_prod_unfold)
qed

section \<open>Discovery is bounded\<close>

lemma fold_growth:
  fixes size_of :: "'s \<Rightarrow> nat"
  assumes "\<And>x s. size_of (f x s) \<le> size_of s + k"
  shows "size_of (fold f xs s) \<le> size_of s + k * length xs"
proof (induction xs arbitrary: s)
  case (Cons x xs)
  show ?case using Cons.IH [of "f x s"] assms [of x s] by simp
qed simp

lemma upsert_growth:
  "length (peers (upsert_peer p pk nm t d)) \<le> length (peers d) + 1"
  "peer_addresses (upsert_peer p pk nm t d) = peer_addresses d"
  by (simp_all add: upsert_peer_def update_where_def)

lemma learn_peer_growth:
  "length (peers (learn_peer p pk addrs t d)) \<le> length (peers d) + 1"
  "length (peer_addresses (learn_peer p pk addrs t d)) \<le> length (peer_addresses d) + 5"
proof -
  have "length (peer_addresses (try_add_address p a e)) \<le> length (peer_addresses e) + 1" for a e
    using add_address_frame(3) [of p a e] by (simp add: try_add_address_def split: sum.splits)
  from fold_growth [where size_of = "\<lambda>d. length (peer_addresses d)", OF this]
  have "length (peer_addresses (fold (try_add_address p) as e)) \<le> length (peer_addresses e) + length as" for as e
    by simp
  from this [of "take 5 addrs" "upsert_peer p pk None t d"]
  show "length (peer_addresses (learn_peer p pk addrs t d)) \<le> length (peer_addresses d) + 5"
    by (simp add: learn_peer_def MAX_ADDRESSES_PER_PEER_def upsert_growth(2))
qed (use upsert_growth(1) in simp)

lemma discover_growth:
  "length (peers (discover_peers C W self t response d)) \<le> length (peers d) + 200"
  "length (peer_addresses (discover_peers C W self t response d)) \<le> length (peer_addresses d) + 1000"
proof -
  have one: "length (peers (discover_one C W self t rec e)) \<le> length (peers e) + 1"
    "length (peer_addresses (discover_one C W self t rec e)) \<le> length (peer_addresses e) + 5" for rec e
    using learn_peer_growth [where d = e]
    by (auto simp: discover_one_def le_SucI simp del: peers_learn_peer split: sum.splits option.splits)
  let ?run = "\<lambda>recs. fold (discover_one C W self t) (take 200 recs) d"
  have "length (peers (?run recs)) \<le> length (peers d) + 200" for recs
    using fold_growth [where size_of = "\<lambda>d. length (peers d)", OF one(1), where xs = "take 200 recs" and s = d]
    by (rule order_trans) simp
  then show "length (peers (discover_peers C W self t response d)) \<le> length (peers d) + 200"
    by (simp add: discover_peers_def MAX_PEERS_PER_RESPONSE_def split: sum.splits)
  have "length (peer_addresses (?run recs)) \<le> length (peer_addresses d) + 1000" for recs
    using fold_growth [where size_of = "\<lambda>d. length (peer_addresses d)", OF one(2), where xs = "take 200 recs" and s = d]
    by (rule order_trans) simp
  then show "length (peer_addresses (discover_peers C W self t response d)) \<le> length (peer_addresses d) + 1000"
    by (simp add: discover_peers_def MAX_PEERS_PER_RESPONSE_def split: sum.splits)
qed

lemma discover_full: "length (peers d) \<ge> MAX_TOTAL_KNOWN_PEERS \<Longrightarrow> discover_peers C W self t response d = d"
  by (simp add: discover_peers_def split: sum.splits)

section \<open>Serving a range of a chain\<close>

lemma sequence_order:
  assumes "chain_linked rows" "length rows < 2 ^ 62" "i < length rows"
  shows "sint (er_sequence (rows ! i)) = int i + 1"
proof -
  have "er_sequence (rows ! i) = of_int (int i + 1)"
    using assms(1,3) by (simp add: chain_linked_def)
  moreover have "sint (of_int (int i + 1) :: u64) = int i + 1"
    using assms(2,3) by (intro sint_of_int_i64) simp_all
  ultimately show ?thesis by simp
qed

lemma nth_slice: "i < min j (length xs) - k \<Longrightarrow> drop k (take j xs) ! i = xs ! (k + i)"
  by (subst nth_drop) auto

lemma filter_sequence_range:
  assumes "chain_linked rows" "length rows < 2 ^ 62"
  shows "filter (\<lambda>r. int k + 1 \<le> sint (er_sequence r) \<and> sint (er_sequence r) \<le> int j) rows = drop k (take j rows)"
proof -
  have "filter (\<lambda>r. int k + 1 \<le> sint (er_sequence r) \<and> sint (er_sequence r) \<le> int j) rows
      = map ((!) rows) (filter (\<lambda>i. k \<le> i \<and> i < j) [0..<length rows])"
  proof -
    have "rows = map ((!) rows) [0..<length rows]" by (simp add: map_nth)
    then have "filter P rows = map ((!) rows) (filter (\<lambda>i. P (rows ! i)) [0..<length rows])" for P
      by (metis (no_types, lifting) comp_apply filter_cong filter_map)
    moreover have "(int k + 1 \<le> sint (er_sequence (rows ! i)) \<and> sint (er_sequence (rows ! i)) \<le> int j)
        \<longleftrightarrow> k \<le> i \<and> i < j" if "i \<in> set [0..<length rows]" for i
      using sequence_order [OF assms, of i] that by auto
    then have "filter (\<lambda>i. int k + 1 \<le> sint (er_sequence (rows ! i)) \<and> sint (er_sequence (rows ! i)) \<le> int j)
        [0..<length rows] = filter (\<lambda>i. k \<le> i \<and> i < j) [0..<length rows]"
      by (intro filter_cong refl)
    ultimately show ?thesis by simp
  qed
  also have "filter (\<lambda>i. k \<le> i \<and> i < j) [0..<n] = [k..<min j n]" for n
    by (induction n) (auto simp: min_def le_Suc_eq)
  also have "map ((!) rows) [k..<min j (length rows)] = drop k (take j rows)"
    by (rule nth_equalityI) (simp_all add: nth_slice nth_upt less_diff_conv add.commute)
  finally show ?thesis .
qed

lemma sorted_sequences:
  assumes "chain_linked rows" "length rows < 2 ^ 62"
  shows "sorted (map (\<lambda>r. sint (er_sequence r)) (drop k (take j rows)))"
  unfolding sorted_iff_nth_mono
proof (intro allI impI)
  fix a b assume le: "a \<le> b" and b: "b < length (map (\<lambda>r. sint (er_sequence r)) (drop k (take j rows)))"
  have "map (\<lambda>r. sint (er_sequence r)) (drop k (take j rows)) ! i = int (k + i) + 1" if "i \<le> b" for i
    using sequence_order [OF assms, of "k + i"] that b by (simp add: nth_slice min.commute)
  from this [of a] this [of b] le show "map (\<lambda>r. sint (er_sequence r)) (drop k (take j rows)) ! a
      \<le> map (\<lambda>r. sint (er_sequence r)) (drop k (take j rows)) ! b" by simp
qed

lemma list_range_chain:
  assumes "log_ok d" "length (events d) < 2 ^ 62" "sint from = int k + 1" "sint to = int j"
  shows "list_range d p from to = drop k (take j (origin_rows d p))"
proof -
  have linked: "chain_linked (origin_rows d p)" using assms(1) by (simp add: log_ok_def)
  have small: "length (origin_rows d p) < 2 ^ 62"
    using assms(2) chain_of_le [of d p] by (simp add: length_chain_of)
  have "filter (\<lambda>r. er_origin r = p \<and> sint from \<le> sint (er_sequence r) \<and> sint (er_sequence r) \<le> sint to) (events d)
      = drop k (take j (origin_rows d p))"
    using filter_sequence_range [OF linked small, of k j]
    by (simp add: assms(3,4) origin_rows_def conj_commute conj_left_commute)
  then show ?thesis
    using sorted_sequences [OF linked small, of k j] by (simp add: list_range_def sort_key_id_if_sorted)
qed

text \<open>However the bounds of the request wrap, the rows served lie in a window of 1000 sequence numbers.\<close>

lemma i64_window: "sint (i64_min to (from + MAX_EVENTS_PER_FETCH - 1)) \<le> sint from + 999"
proof -
  have eq: "from + MAX_EVENTS_PER_FETCH - 1 = of_int (sint from + 999)"
    by (simp add: MAX_EVENTS_PER_FETCH_def)
  have "sint (of_int (sint from + 999) :: i64) \<le> sint from + 999"
  proof (cases "sint from + 999 < 2 ^ 63")
    case True
    then show ?thesis using sint_of_int_i64 [of "sint from + 999"] sint_range_i64 [of "from"] by simp
  next
    case False
    then show ?thesis using sint_range_i64(2) [of "of_int (sint from + 999)"] by linarith
  qed
  then show ?thesis unfolding i64_min_def eq by auto
qed

lemma list_range_bound:
  assumes "log_ok d" "length (events d) < 2 ^ 62" "sint to \<le> sint from + 999"
  shows "length (list_range d p from to) \<le> 1000"
proof -
  let ?rows = "origin_rows d p" and ?key = "\<lambda>r. sint (er_sequence r)"
  let ?in = "\<lambda>r. sint from \<le> ?key r \<and> ?key r \<le> sint to"
  have linked: "chain_linked ?rows" using assms(1) by (simp add: log_ok_def)
  have small: "length ?rows < 2 ^ 62" using assms(2) chain_of_le [of d p] by (simp add: length_chain_of)
  have "distinct (map ?key ?rows)"
    using sequence_order [OF linked small] by (auto simp: distinct_conv_nth)
  then have "distinct (map ?key (filter ?in ?rows))" by (rule distinct_map_filter)
  then have "card (set (map ?key (filter ?in ?rows))) = length (map ?key (filter ?in ?rows))"
    by (rule distinct_card)
  moreover have "set (map ?key (filter ?in ?rows)) \<subseteq> {sint from..sint from + 999}"
    using assms(3) by auto
  from card_mono [OF _ this] have "card (set (map ?key (filter ?in ?rows))) \<le> 1000" by simp
  ultimately have "length (filter ?in ?rows) \<le> 1000" by (simp only: length_map)
  then show ?thesis by (simp add: list_range_def origin_rows_def conj_commute conj_left_commute)
qed

lemma get_events_bound:
  assumes "log_ok d" "length (events d) < 2 ^ 62" "get_events C d o_hex from to = Inr sevs"
  shows "length sevs \<le> 1000"
proof -
  obtain p where "serve_range C d p from to = Inr sevs"
    using assms(3) by (auto simp: get_events_def split: if_splits)
  then show ?thesis using list_range_bound [OF assms(1,2) i64_window [of to "from"], of p] length_collect
    by (fastforce simp: serve_range_def Let_def)
qed

lemma post_keys_match:
  assumes "key_codec C W" "keys_match C W (store n)"
  shows "keys_match C W (store (snd (post_events C W rnd sv now body n)))"
proof -
  have "keys_match C W (store (snd (push_one C W rnd sv now sev st)))" if "keys_match C W (store (snd st))" for sev st
  proof -
    obtain a b m where st: "st = ((a, b), m)" by (metis prod.exhaust)
    show ?thesis using that keys_match_ingest [OF assms(1)]
      by (auto simp: push_one_def st split: sum.splits option.splits prod.splits ingest_outcome.splits)
  qed
  then have "keys_match C W (store (snd (fold (push_one C W rnd sv now) body ((0, 0), n))))"
    using assms(2) by (intro fold_invariant [where P = "\<lambda>st. keys_match C W (store (snd st))"]) simp_all
  then show ?thesis using assms(2) by (simp add: post_events_def case_prod_unfold)
qed

end
