(* ===== verification/CatchUp.thy ===== *)
theory CatchUp
  imports Replicate
begin

text \<open>
  One pull from an honest peer: its copy of an origin's chain, served by \<^verbatim>\<open>get_events\<close> from its
  database, is taken over in order by the local one.
\<close>

section \<open>The remote side\<close>

text \<open>Stored canonical bytes parse back to the event they were written from.\<close>

definition reads_back :: "('sk, 'vk, 'z) codec_scheme \<Rightarrow> signed_event set \<Rightarrow> bool" where
  "reads_back C S \<longleftrightarrow> (\<forall>sev \<in> S. \<forall>b. jcs_signed C sev = Inr b \<longrightarrow> parse_signed C b = Inr sev)"

lemma reads_back_readable: "reads_back C S \<Longrightarrow> readable C S"
  by (auto simp: reads_back_def readable_def)

text \<open>The rows of an origin are events that its own key signed, linked as they say.\<close>

definition signed_by ::
  "('sk, 'vk, 'z) codec_scheme \<Rightarrow> 'vk \<Rightarrow> signed_event set \<Rightarrow> db \<Rightarrow> peer_id \<Rightarrow> bool" where
  "signed_by C vk S d p \<longleftrightarrow>
     (\<forall>r \<in> set (origin_rows d p). \<forall>sev \<in> S. row_of C sev r \<longrightarrow>
        check_origin C vk sev = Inr (er_event_id r, p, er_previous r))"

text \<open>An honest peer answers from its database.\<close>

definition honest_remote ::
  "('sk, 'vk, 'z) codec_scheme \<Rightarrow> peer_id \<Rightarrow> byte list \<Rightarrow> (http_status \<Rightarrow> client_error) \<Rightarrow> db \<Rightarrow> remote" where
  "honest_remote C self key as_error d =
     \<lparr>rm_hello = Inr (hello C self key d), rm_peers = Inr (peers_response C d),
      rm_events = (\<lambda>o_hex from to. res_map_err as_error (get_events C d o_hex from to))\<rparr>"

definition row_event :: "('sk, 'vk, 'z) codec_scheme \<Rightarrow> event_row \<Rightarrow> signed_event" where
  "row_event C r = (case parse_signed C (er_payload r) of Inr sev \<Rightarrow> sev | Inl _ \<Rightarrow> undefined)"

lemma row_event:
  assumes "reads_back C S" "logged C S d" "r \<in> set (events d)"
  shows "parse_signed C (er_payload r) = Inr (row_event C r) \<and> row_event C r \<in> S \<and> row_of C (row_event C r) r"
proof -
  obtain sev where sev: "sev \<in> S" "row_of C sev r" using assms(2,3) by (auto simp: logged_def)
  then have "parse_signed C (er_payload r) = Inr sev"
    using assms(1) by (auto simp: reads_back_def row_of_def)
  with sev show ?thesis by (simp add: row_event_def)
qed

lemma get_events_chain:
  assumes "hex_codec C" "length p = 32" "log_ok d" "logged C S d" "reads_back C S"
    and "length (events d) < 2 ^ 61" "k < m" "m \<le> length (chain_of d p)"
  shows "get_events C d (hex_encode C p) (of_nat k + 1) (of_nat m)
    = Inr (map (row_event C) (drop k (take (min m (k + 1000)) (origin_rows d p))))"
proof -
  let ?from = "of_nat k + 1 :: u64" and ?to = "of_nat m :: u64"
  have "m < 2 ^ 61" using assms(6,8) chain_of_le [of d p] by (meson le_less_trans order_trans)
  then have small: "int m < 2 ^ 61" by simp
  have words: "?from = of_int (int k + 1)" "?to = of_int (int m)" "?from + MAX_EVENTS_PER_FETCH - 1 = of_int (int k + 1000)"
    by (simp_all add: MAX_EVENTS_PER_FETCH_def)
  have lo: "sint ?from = int k + 1" using assms(7) small unfolding words(1) by (intro sint_of_int_i64) simp_all
  have to: "sint ?to = int m" using small unfolding words(2) by (intro sint_of_int_i64) simp_all
  have hi: "sint (?from + MAX_EVENTS_PER_FETCH - 1) = int k + 1000"
    using assms(7) small unfolding words(3) by (intro sint_of_int_i64) simp_all
  have top: "sint (i64_min ?to (?from + MAX_EVENTS_PER_FETCH - 1)) = int (min m (k + 1000))"
    using to hi by (auto simp: i64_min_def min_def)
  have "\<not> ?to < ?from"
  proof -
    have "unat ?to = m" "unat ?from = Suc k"
      using small assms(7) of_nat_eq_iff_unat [of m ?to] of_nat_eq_iff_unat [of "Suc k" ?from] by simp_all
    then show ?thesis using assms(7) by (simp add: word_less_nat_alt)
  qed
  moreover have "decode_hex32 C (hex_encode C p) = Some p"
    using assms(1,2) by (simp add: decode_hex32_def decode_hex_array_def hex_codec_def)
  moreover have "list_range d p ?from (i64_min ?to (?from + MAX_EVENTS_PER_FETCH - 1))
      = drop k (take (min m (k + 1000)) (origin_rows d p))"
    using assms(6) by (intro list_range_chain [OF assms(3) _ lo top]) simp
  moreover have "r \<in> set (events d)" if "r \<in> set (drop k (take j (origin_rows d p)))" for r j
    using that in_set_dropD in_set_takeD by (fastforce simp: origin_rows_def)
  then have "collect_results (map (\<lambda>r. parse_signed C (er_payload r)) (drop k (take j (origin_rows d p))))
      = Inr (map (row_event C) (drop k (take j (origin_rows d p))))" for j
    using row_event [OF assms(5,4)] by (intro collect_results_parse) blast
  ultimately show ?thesis by (simp add: get_events_def serve_range_def Let_def)
qed

section \<open>The local side\<close>

lemma local_heads_lookup:
  assumes "hex_codec C"
  shows "map_of (local_heads C d) (hex_encode C p) = map_option or_highest_contiguous (get_origin d p)"
proof -
  have inj: "hex_encode C q = hex_encode C p \<longleftrightarrow> q = p" for q
  proof
    assume "hex_encode C q = hex_encode C p"
    then have "hex_decode C (hex_encode C q) = hex_decode C (hex_encode C p)" by simp
    then show "q = p" using assms by (simp add: hex_codec_def)
  qed simp
  have "map_of (map (\<lambda>r. (hex_encode C (or_origin r), or_highest_contiguous r)) rows) (hex_encode C p)
      = map_option or_highest_contiguous (find (\<lambda>r. or_origin r = p) rows)" for rows
    by (induction rows) (use inj in \<open>auto dest: sym\<close>)
  then show ?thesis by (simp add: local_heads_def get_origin_def lookup_by_def)
qed

text \<open>
  How far a batch got: the local chain is a longer prefix of the remote one, and it stops early only
  at an event that does not project here, which the summary names.
\<close>

definition caught_up_to ::
  "('sk, 'vk, 'z) codec_scheme \<Rightarrow> peer_id \<Rightarrow> event_row list \<Rightarrow> nat \<Rightarrow> sync_summary \<Rightarrow> db \<Rightarrow> bool" where
  "caught_up_to C p rows k sm d \<longleftrightarrow>
     (\<exists>j. k \<le> j \<and> j \<le> length rows \<and> chain_of d p = map er_event_id (take j rows) \<and>
        (j < length rows \<longrightarrow> (\<exists>e note. sy_errors sm = note @ [IngestFailed (hex_encode C p) (er_sequence (rows ! j)) e] \<and>
           project_graph C (er_event_id (rows ! j)) (er_created_at (rows ! j))
             (ue_payload (se_unsigned (row_event C (rows ! j)))) (graph d) = Inl e)))"

lemma caught_up_to_weaken: "caught_up_to C p rows (Suc k) sm d \<Longrightarrow> caught_up_to C p rows k sm d"
  unfolding caught_up_to_def using Suc_leD by blast

lemma batch_catches_up:
  assumes "db_ok C S d" "collision_free C S" "reads_back C S"
    and "length (events d) + length rows < 2 ^ 63 + k"
    and "\<And>r. r \<in> set rows \<Longrightarrow> row_event C r \<in> S \<and> row_of C (row_event C r) r \<and>
           check_origin C vk (row_event C r) = Inr (er_event_id r, p, er_previous r)"
    and "chain_linked rows" "k \<le> length rows" "chain_of d p = map er_event_id (take k rows)"
    and "length rows < 2 ^ 62"
  shows "caught_up_to C p rows k
      (fst (ingest_batch C vk (hex_encode C p) t (map (row_event C) (drop k rows)) sm d))
      (snd (ingest_batch C vk (hex_encode C p) t (map (row_event C) (drop k rows)) sm d))"
  using assms(1,4,7,8)
proof (induction "length rows - k" arbitrary: k sm d)
  case 0
  then show ?case by (auto simp: caught_up_to_def)
next
  case (Suc x)
  then have k: "k < length rows" by simp
  let ?r = "rows ! k" and ?sev = "row_event C (rows ! k)"
  have r: "?sev \<in> S" "row_of C ?sev ?r" "check_origin C vk ?sev = Inr (er_event_id ?r, p, er_previous ?r)"
    using assms(5) [of ?r] k by simp_all
  have ok: "log_ok d" "logged C S d" using Suc.prems(1) by (simp_all add: db_ok_def)
  have small: "length (events d) < 2 ^ 64 - 1" using Suc.prems(2) k by simp
  have len: "length (chain_of d p) = k" using Suc.prems(4) k by simp
  have seq: "ue_sequence (se_unsigned ?sev) = of_nat (Suc k)"
    using r(2) assms(6) k by (simp add: row_of_def chain_linked_def)
  have prev: "er_previous ?r = chain_head (chain_of d p)"
    using assms(6) k Suc.prems(4) by (simp add: chain_linked_def)
  have "unat (of_nat (Suc k) :: u64) = Suc k" using assms(9) k of_nat_eq_iff_unat [of "Suc k" "of_nat (Suc k)"] by simp
  then have offer: "chain_offer (chain_of d p) (ue_sequence (se_unsigned ?sev)) (er_previous ?r) (er_event_id ?r) = Append"
    by (simp add: chain_offer_def seq len prev)
  note outcome = append_remote_outcome [OF ok(1) small assms(2) ok(2) r(1,3) offer, of t]
  have created: "er_created_at ?r = ue_created_at (se_unsigned ?sev)" "er_sequence ?r = ue_sequence (se_unsigned ?sev)"
    using r(2) by (simp_all add: row_of_def)
  have split: "map (row_event C) (drop k rows) = ?sev # map (row_event C) (drop (Suc k) rows)"
    using k by (simp add: Cons_nth_drop_Suc [symmetric])
  show ?case
  proof (cases "project_graph C (er_event_id ?r) (ue_created_at (se_unsigned ?sev)) (ue_payload (se_unsigned ?sev)) (graph d)")
    case (Inl e)
    then have "ingest_remote_event C vk ?sev t d = (Inl e, d)" using outcome by simp
    then show ?thesis using Inl k Suc.prems(4) created by (auto simp: split caught_up_to_def intro!: exI [of _ k])
  next
    case (Inr y)
    then obtain out g refs where pg: "project_graph C (er_event_id ?r) (ue_created_at (se_unsigned ?sev))
        (ue_payload (se_unsigned ?sev)) (graph d) = Inr (out, g, refs)" by (cases y) auto
    then obtain d' where d': "ingest_remote_event C vk ?sev t d = (Inr (Applied (er_event_id ?r) out), d')"
      "appends C ?sev p (er_previous ?r) (er_event_id ?r) g refs d d'"
      using outcome by auto
    have "db_ok C S d'"
      using appends_db_ok [OF Suc.prems(1) reads_back_readable [OF assms(3)] r(1) d'(2) _ prev pg] seq len by simp
    moreover have "chain_of d' p = map er_event_id (take (Suc k) rows)"
      using appends_effect(3) [OF d'(2)] Suc.prems(4) k by (simp add: take_Suc_conv_app_nth)
    moreover have "length (events d') + length rows < 2 ^ 63 + Suc k"
      using appends_effect(2) [OF d'(2)] Suc.prems(2) by auto
    ultimately have "caught_up_to C p rows (Suc k)
      (fst (ingest_batch C vk (hex_encode C p) t (map (row_event C) (drop (Suc k) rows)) (sm\<lparr>sy_applied := sy_applied sm + 1\<rparr>) d'))
      (snd (ingest_batch C vk (hex_encode C p) t (map (row_event C) (drop (Suc k) rows)) (sm\<lparr>sy_applied := sy_applied sm + 1\<rparr>) d'))"
      using Suc.hyps(2) k by (intro Suc.hyps(1)) auto
    then show ?thesis using caught_up_to_weaken d'(1) by (simp add: split)
  qed
qed

lemma local_seq_chain:
  assumes "hex_codec C" "log_ok d"
  shows "(case map_of (local_heads C d) (hex_encode C p) of None \<Rightarrow> 0 | Some s \<Rightarrow> s) = of_nat (length (chain_of d p))"
proof -
  have "origin_tracked d p" using assms(2) by (simp add: log_ok_def)
  then show ?thesis by (simp add: local_heads_lookup [OF assms(1)] origin_tracked_def)
qed

lemma chain_linked_take: "chain_linked rows \<Longrightarrow> chain_linked (take j rows)"
  by (auto simp: chain_linked_def min_def)

text \<open>The whole exchange for one origin.\<close>

lemma pull_from_honest:
  assumes "hex_codec C" "length p = 32" "collision_free C S" "reads_back C S"
    and "db_ok C S (store n)" "length (events (store n)) < 2 ^ 61" "db_ok C S R" "length (events R) < 2 ^ 61"
    and "signed_by C vk S R p" "chain_of (store n) p = take k (chain_of R p)" "k < length (chain_of R p)"
    and "federation_allows rnd sv n now p"
    and "(if p = rp then Some rvk else known_key C W (store n) p) = Some vk"
    and "pull_origin C W rnd sv (honest_remote C self key as_error R) now rp rvk (local_heads C (store n))
           (hex_encode C p, of_nat (length (chain_of R p))) (sm, n) = (sm', n')"
  shows "caught_up_to C p (take (k + 1000) (origin_rows R p)) k sm' (store n')"
proof -
  let ?m = "length (chain_of R p)" and ?rows = "take (k + 1000) (origin_rows R p)"
  have ok: "log_ok (store n)" "log_ok R" "logged C S R" using assms(5,7) by (simp_all add: db_ok_def)
  have k: "length (chain_of (store n) p) = k" using assms(10,11) by simp
  have m: "?m < 2 ^ 61" using assms(8) chain_of_le [of R p] by (meson le_less_trans)
  have words: "unat (of_nat ?m :: u64) = ?m" "unat (of_nat k :: u64) = k"
    using m assms(11) by (simp_all add: unat_of_nat)
  have rows: "drop k (take (min ?m (k + 1000)) (origin_rows R p)) = drop k ?rows"
    by (simp add: length_chain_of min_def)
  have fetched: "rm_events (honest_remote C self key as_error R) (hex_encode C p) (of_nat k + 1) (of_nat ?m)
      = Inr (map (row_event C) (drop k ?rows))"
    using get_events_chain [OF assms(1,2) ok(2,3) assms(4,8,11) order_refl] by (simp add: honest_remote_def rows)
  have "decode_hex32 C (hex_encode C p) = Some p"
    using assms(1,2) by (simp add: decode_hex32_def decode_hex_array_def hex_codec_def)
  then have run: "(sm', store n') = ingest_batch C vk (hex_encode C p) (sint now) (map (row_event C) (drop k ?rows)) sm (store n)"
    using assms(12-14) fetched words assms(11)
    by (auto simp: pull_origin_def Let_def local_seq_chain [OF assms(1) ok(1)] k word_le_nat_alt
        split: if_splits prod.splits)
  have "chain_linked (origin_rows R p)" using ok(2) by (simp add: log_ok_def)
  moreover have "row_event C r \<in> S \<and> row_of C (row_event C r) r \<and>
      check_origin C vk (row_event C r) = Inr (er_event_id r, p, er_previous r)" if "r \<in> set ?rows" for r
  proof -
    have r: "r \<in> set (origin_rows R p)" using that in_set_takeD by fast
    then have "r \<in> set (events R)" by (simp add: origin_rows_def)
    with row_event [OF assms(4) ok(3)] r assms(9) show ?thesis by (auto simp: signed_by_def)
  qed
  moreover have "chain_of (store n) p = map er_event_id (take k ?rows)"
    using assms(10) by (simp add: chain_of_def take_map min_def)
  moreover have "length ?rows \<le> ?m" "k \<le> length ?rows" using assms(11) by (simp_all add: length_chain_of)
  moreover have "length (events (store n)) + length ?rows < 2 ^ 63 + k" "length ?rows < 2 ^ 62"
    using assms(6) m calculation(4) by auto
  ultimately have "caught_up_to C p ?rows k
      (fst (ingest_batch C vk (hex_encode C p) (sint now) (map (row_event C) (drop k ?rows)) sm (store n)))
      (snd (ingest_batch C vk (hex_encode C p) (sint now) (map (row_event C) (drop k ?rows)) sm (store n)))"
    by (intro batch_catches_up [OF assms(5,3,4)] chain_linked_take) auto
  then show ?thesis using run by (metis fst_conv snd_conv)
qed

end
