(* ===== verification/Framing.thy ===== *)
theory Framing
  imports Prelude
begin

text \<open>
  Message framing over a Reticulum link (\<^verbatim>\<open>crates/oag-reticulum/src/framing.rs\<close>): a message
  is its JSON text behind a 32-bit big-endian length, cut into pieces of \<^verbatim>\<open>CHUNK_SIZE\<close> bytes
  and put together again by one \<^verbatim>\<open>Reassembler\<close> per link.

  JSON itself is \<^verbatim>\<open>serde_json\<close>, a third-party crate: its serialiser and deserialiser are
  arguments of \<open>encode_message\<close> and \<open>decode_message\<close>.  What is proved is that the bytes handed out
  are the bytes handed in, whatever the cuts between the pieces.
\<close>

unbundle bit_operations_syntax

section \<open>Bytes of a length\<close>

text \<open>\<^verbatim>\<open>u32::to_be_bytes\<close> and \<^verbatim>\<open>u32::from_be_bytes\<close>.\<close>

definition to_be_bytes :: "32 word \<Rightarrow> byte list" where
  "to_be_bytes w = [ucast (drop_bit 24 w), ucast (drop_bit 16 w), ucast (drop_bit 8 w), ucast w]"

definition from_be_bytes :: "byte list \<Rightarrow> 32 word" where
  "from_be_bytes bs = foldl (\<lambda>w b. push_bit 8 w OR ucast b) 0 bs"

lemma length_to_be_bytes [simp]: "length (to_be_bytes w) = 4"
  by (simp add: to_be_bytes_def)

lemma from_to_be_bytes [simp]: "from_be_bytes (to_be_bytes w) = w"
proof (rule bit_word_eqI)
  fix n assume "n < LENGTH(32)"
  then have n: "n < 32" by simp
  consider "n < 8" | "8 \<le> n" "n < 16" | "16 \<le> n" "n < 24" | "24 \<le> n" by linarith
  then show "bit (from_be_bytes (to_be_bytes w)) n \<longleftrightarrow> bit w n"
    using n by cases (auto simp: from_be_bytes_def to_be_bytes_def bit_simps)
qed

lemma bit_word_beyond: "LENGTH('a :: len) \<le> n \<Longrightarrow> \<not> bit (w :: 'a word) n"
  using bit_imp_le_length [of w n] by auto

lemma unat_length_u32: "n < 2 ^ 32 \<Longrightarrow> unat (word_of_nat n :: 32 word) = n"
  by (simp add: unat_of_nat)

section \<open>Encoding\<close>

definition CHUNK_SIZE :: nat where
  "CHUNK_SIZE = 1400"

definition MAX_MESSAGE_BYTES :: nat where
  "MAX_MESSAGE_BYTES = 8 * 1024 * 1024"

definition LEN_PREFIX_BYTES :: nat where
  "LEN_PREFIX_BYTES = 4"

text \<open>A \<^verbatim>\<open>serde_json::Error\<close> is carried as its message.\<close>

datatype framing_error = MessageTooLarge nat | Json string

definition frame :: "byte list \<Rightarrow> byte list" where
  "frame json = to_be_bytes (word_of_nat (length json)) @ json"

definition encode_message :: "('m \<Rightarrow> string + byte list) \<Rightarrow> 'm \<Rightarrow> framing_error + byte list" where
  "encode_message to_vec msg =
     res_bind (res_map_err Json (to_vec msg)) (\<lambda>json.
       if length json > MAX_MESSAGE_BYTES then Inl (MessageTooLarge (length json))
       else Inr (frame json))"

definition decode_message :: "(byte list \<Rightarrow> string + 'm) \<Rightarrow> byte list \<Rightarrow> framing_error + 'm" where
  "decode_message from_slice bytes = res_map_err Json (from_slice bytes)"

text \<open>\<^verbatim>\<open>[u8]::chunks\<close>: pieces of \<open>n\<close> bytes, the last one shorter.  Rust panics for \<open>n = 0\<close>;
  every call passes \<^const>\<open>CHUNK_SIZE\<close>.\<close>

function chunks :: "nat \<Rightarrow> 'a list \<Rightarrow> 'a list list" where
  "chunks n xs = (if xs = [] \<or> n = 0 then [] else take n xs # chunks n (drop n xs))"
  by pat_completeness auto
termination by (relation "measure (\<lambda>(n, xs). length xs)") auto

declare chunks.simps [simp del]

lemma concat_chunks: "0 < n \<Longrightarrow> concat (chunks n xs) = xs"
  by (induction n xs rule: chunks.induct) (subst chunks.simps, simp)

lemma chunks_bounds: "c \<in> set (chunks n xs) \<Longrightarrow> c \<noteq> [] \<and> length c \<le> n"
proof (induction n xs rule: chunks.induct)
  case (1 n xs)
  show ?case
  proof (cases "xs = [] \<or> n = 0")
    case True
    then show ?thesis using "1.prems" by (simp add: chunks.simps)
  next
    case False
    then have "c = take n xs \<or> c \<in> set (chunks n (drop n xs))"
      using "1.prems" by (subst (asm) chunks.simps) simp
    then show ?thesis using False "1.IH" by auto
  qed
qed

section \<open>Reassembly\<close>

record reassembler =
  buffer :: "byte list"

definition new_reassembler :: reassembler where
  "new_reassembler = \<lparr>buffer = []\<rparr>"

text \<open>
  \<^verbatim>\<open>Reassembler::push\<close>.  The method mutates \<^verbatim>\<open>self\<close>, so the model returns the result
  with the reassembler it leaves behind, on the error branch too.
\<close>

definition push :: "reassembler \<Rightarrow> byte list \<Rightarrow> (framing_error + byte list option) \<times> reassembler" where
  "push self chunk =
     (let buf = buffer self @ chunk in
      if length buf < LEN_PREFIX_BYTES then (Inr None, \<lparr>buffer = buf\<rparr>)
      else let declared_len = unat (from_be_bytes (take LEN_PREFIX_BYTES buf)) in
        if declared_len > MAX_MESSAGE_BYTES then (Inl (MessageTooLarge declared_len), \<lparr>buffer = buf\<rparr>)
        else let total_len = LEN_PREFIX_BYTES + declared_len in
          if length buf < total_len then (Inr None, \<lparr>buffer = buf\<rparr>)
          else (Inr (Some (drop LEN_PREFIX_BYTES (take total_len buf))), \<lparr>buffer = drop total_len buf\<rparr>))"

text \<open>
  How both ends use it: one \<open>push\<close> per arriving packet, collecting the messages, until the first
  framing error.
\<close>

fun feed :: "reassembler \<Rightarrow> byte list list \<Rightarrow> (framing_error option \<times> byte list list) \<times> reassembler" where
  "feed self [] = ((None, []), self)"
| "feed self (c # cs) =
     (case push self c of
        (Inl e, self') \<Rightarrow> ((Some e, []), self')
      | (Inr None, self') \<Rightarrow> feed self' cs
      | (Inr (Some m), self') \<Rightarrow>
          (case feed self' cs of ((err, ms), self'') \<Rightarrow> ((err, m # ms), self'')))"

lemmas framing_consts = LEN_PREFIX_BYTES_def MAX_MESSAGE_BYTES_def CHUNK_SIZE_def

section \<open>What one push does\<close>

lemma reassembler_eq_iff: "(r :: reassembler) = s \<longleftrightarrow> buffer r = buffer s"
  by (cases r; cases s) simp

lemma take_drop_frame:
  assumes "LEN_PREFIX_BYTES + unat (from_be_bytes (take LEN_PREFIX_BYTES buf)) \<le> length buf"
  shows "frame (drop LEN_PREFIX_BYTES (take (LEN_PREFIX_BYTES + unat (from_be_bytes (take LEN_PREFIX_BYTES buf))) buf))
      @ drop (LEN_PREFIX_BYTES + unat (from_be_bytes (take LEN_PREFIX_BYTES buf))) buf = buf"
proof -
  define p where "p = take LEN_PREFIX_BYTES buf"
  define n where "n = unat (from_be_bytes p)"
  have len: "length p = 4" and le: "4 + n \<le> length buf"
    using assms by (simp_all add: p_def n_def framing_consts)
  obtain a b c d where abcd: "p = [a, b, c, d]"
    using len by (auto simp: eval_nat_numeral length_Suc_conv)
  have inv: "to_be_bytes (from_be_bytes [a, b, c, d]) = [a, b, c, d]"
    by (auto simp: to_be_bytes_def from_be_bytes_def bit_simps bit_word_beyond intro!: bit_word_eqI)
  have body: "length (drop 4 (take (4 + n) buf)) = n" using le by simp
  have "frame (drop 4 (take (4 + n) buf)) = p @ drop 4 (take (4 + n) buf)"
    using inv abcd by (simp only: frame_def body) (simp add: n_def)
  also have "\<dots> @ drop (4 + n) buf = buf"
    by (metis append_take_drop_id append.assoc p_def LEN_PREFIX_BYTES_def take_take min.absorb1 le_add1)
  finally show ?thesis by (simp add: p_def n_def LEN_PREFIX_BYTES_def)
qed

text \<open>A push keeps every byte: what it hands out was framed at the front of what it holds.\<close>

lemma push_conserves:
  assumes "push self c = (r, self')"
  shows "buffer self @ c = (case r of Inr (Some m) \<Rightarrow> frame m | _ \<Rightarrow> []) @ buffer self'"
  using assms take_drop_frame [of "buffer self @ c"]
  by (auto simp: push_def Let_def not_less split: if_splits)

lemma push_message_bound: "push self c = (Inr (Some m), self') \<Longrightarrow> length m \<le> MAX_MESSAGE_BYTES"
  by (auto simp: push_def Let_def not_less simp del: take_append drop_append split: if_splits)

lemma push_waiting_bound:
  "push self c = (Inr None, self') \<Longrightarrow> length (buffer self') < LEN_PREFIX_BYTES + MAX_MESSAGE_BYTES"
  by (auto simp: push_def Let_def framing_consts split: if_splits)

text \<open>While less than one whole frame has arrived, nothing is handed out; the last byte completes it.\<close>

lemma frame_prefix:
  assumes "length json \<le> MAX_MESSAGE_BYTES"
  shows "unat (from_be_bytes (take LEN_PREFIX_BYTES (frame json @ rest))) = length json"
  using assms by (simp add: frame_def framing_consts unat_length_u32)

lemma length_frame [simp]: "length (frame json) = 4 + length json"
  by (simp add: frame_def)

lemma push_partial:
  assumes "length json \<le> MAX_MESSAGE_BYTES" and "buffer self @ c @ rest = frame json" and "rest \<noteq> []"
  shows "push self c = (Inr None, \<lparr>buffer = buffer self @ c\<rparr>)"
proof -
  let ?buf = "buffer self @ c"
  have len: "length ?buf < 4 + length json"
    using assms(3) arg_cong [OF assms(2), of length] by (cases rest) auto
  show ?thesis
  proof (cases "length ?buf < 4")
    case False
    then have "take 4 ?buf = take 4 (frame json)"
      using assms(2) by (metis append.assoc take_append append_Nil2 diff_is_0_eq not_less take0)
    then have "unat (from_be_bytes (take 4 ?buf)) = length json"
      using frame_prefix [OF assms(1), of "[]"] by (simp add: LEN_PREFIX_BYTES_def)
    then show ?thesis using assms(1) len False by (simp add: push_def framing_consts)
  qed (simp add: push_def framing_consts)
qed

lemma push_complete:
  assumes "length json \<le> MAX_MESSAGE_BYTES" and "buffer self @ c = frame json @ rest"
  shows "push self c = (Inr (Some json), \<lparr>buffer = rest\<rparr>)"
  using assms frame_prefix [OF assms(1), of rest]
  by (simp add: push_def Let_def) (simp add: frame_def LEN_PREFIX_BYTES_def)

text \<open>A declared length over the limit is refused by the push that completes the prefix.\<close>

lemma push_oversized:
  assumes "buffer self @ c = to_be_bytes w @ rest" and "unat w > MAX_MESSAGE_BYTES"
  shows "push self c = (Inl (MessageTooLarge (unat w)), \<lparr>buffer = buffer self @ c\<rparr>)"
  using assms by (simp add: push_def Let_def LEN_PREFIX_BYTES_def)

section \<open>What a stream of pushes does\<close>

lemma feed_conserves:
  assumes "feed self cs = ((err, ms), self')"
  shows "\<exists>used unread. cs = used @ unread \<and> (err = None \<longrightarrow> unread = []) \<and>
    buffer self @ concat used = concat (map frame ms) @ buffer self'"
  using assms
proof (induction cs arbitrary: self ms)
  case (Cons c cs)
  obtain r s where r: "push self c = (r, s)" by (cases "push self c")
  note keeps = push_conserves [OF r]
  show ?case
  proof (cases r)
    case (Inl e)
    then have "c # cs = [c] @ cs" and "buffer self @ concat [c] = buffer s"
      using keeps by simp_all
    moreover have "err = Some e" "ms = []" "self' = s" using Cons.prems r Inl by simp_all
    ultimately show ?thesis by (intro exI [of _ "[c]"] exI [of _ cs]) simp
  next
    case (Inr x)
    obtain ms' where rest: "feed s cs = ((err, ms'), self')"
      and ms: "ms = (case x of None \<Rightarrow> ms' | Some m \<Rightarrow> m # ms')"
      using Cons.prems r Inr by (auto split: option.splits prod.splits)
    obtain used unread where u: "cs = used @ unread" "err = None \<longrightarrow> unread = []"
      "buffer s @ concat used = concat (map frame ms') @ buffer self'"
      using Cons.IH [OF rest] by blast
    have "buffer self @ concat (c # used) = concat (map frame ms) @ buffer self'"
    proof (cases x)
      case None
      then have "buffer self @ c = buffer s" and "ms = ms'" using keeps Inr ms by simp_all
      then show ?thesis using u(3) by (metis append.assoc concat.simps(2))
    next
      case (Some m)
      then have "buffer self @ c = frame m @ buffer s" and "ms = m # ms'" using keeps Inr ms by simp_all
      then show ?thesis using u(3) by (metis append.assoc concat.simps(2) list.simps(9))
    qed
    with u(1,2) show ?thesis by (metis append_Cons)
  qed
qed simp

lemma feed_append:
  assumes "feed self cs = ((None, ms), mid)" and "feed mid ds = ((err, ns), self')"
  shows "feed self (cs @ ds) = ((err, ms @ ns), self')"
  using assms(1)
proof (induction cs arbitrary: self ms)
  case (Cons c cs)
  then show ?case
    by (auto split: sum.splits option.splits prod.splits)
qed (use assms(2) in simp)

lemma feed_messages:
  assumes "feed self cs = ((err, ms), self')"
  shows "length ms \<le> length cs \<and> (\<forall>m \<in> set ms. length m \<le> MAX_MESSAGE_BYTES)"
  using assms
proof (induction cs arbitrary: self ms)
  case (Cons c cs)
  then show ?case
    by (auto split: sum.splits option.splits prod.splits dest: push_message_bound le_SucI)
qed simp

lemma feed_error:
  assumes "feed self cs = ((Some e, ms), self')"
  shows "\<exists>declared. e = MessageTooLarge declared \<and> declared > MAX_MESSAGE_BYTES \<and>
      declared = unat (from_be_bytes (take LEN_PREFIX_BYTES (buffer self')))"
  using assms
proof (induction cs arbitrary: self ms)
  case (Cons c cs)
  have err: "push self c = (Inl x, s) \<Longrightarrow> \<exists>declared. x = MessageTooLarge declared \<and>
      declared > MAX_MESSAGE_BYTES \<and> declared = unat (from_be_bytes (take LEN_PREFIX_BYTES (buffer s)))" for x s
    by (auto simp: push_def Let_def split: if_splits)
  show ?case
    using Cons.prems
    by (simp split: sum.splits option.splits prod.splits) (use err Cons.IH in blast)+
qed simp

lemma feed_one:
  assumes "length json \<le> MAX_MESSAGE_BYTES" and "buffer self @ concat cs = frame json"
    and "\<forall>c \<in> set cs. c \<noteq> []" and "cs \<noteq> []"
  shows "feed self cs = ((None, [json]), new_reassembler)"
  using assms(2-4)
proof (induction cs arbitrary: self)
  case (Cons c cs)
  show ?case
  proof (cases "cs = []")
    case True
    then show ?thesis
      using Cons.prems(1) push_complete [OF assms(1), of self c "[]"] by (simp add: new_reassembler_def)
  next
    case False
    then have "concat cs \<noteq> []" using Cons.prems(2) by (cases cs) auto
    then have "push self c = (Inr None, \<lparr>buffer = buffer self @ c\<rparr>)"
      using Cons.prems(1) by (intro push_partial [OF assms(1)]) auto
    with Cons.IH [of "\<lparr>buffer = buffer self @ c\<rparr>"] Cons.prems False show ?thesis by simp
  qed
qed simp

section \<open>The framing properties\<close>

text \<open>
  C14. Messages survive the link.  Whatever the lengths of the pieces -- \<open>CHUNK_SIZE\<close> as the
  senders cut them, one byte at a time, or a transport's own choice -- a sequence of encoded
  messages, each cut into non-empty pieces and pushed in order into a fresh reassembler, comes out
  as exactly the serialised messages in that order, with no error and nothing left in the buffer.
\<close>

theorem framing_round_trip:
  assumes "list_all2 (\<lambda>msg pieces. \<exists>framed. encode_message to_vec msg = Inr framed \<and>
      concat pieces = framed \<and> (\<forall>p \<in> set pieces. p \<noteq> [])) msgs sent"
  shows "\<exists>jsons. list_all2 (\<lambda>msg json. to_vec msg = Inr json) msgs jsons \<and>
    feed new_reassembler (concat sent) = ((None, jsons), new_reassembler)"
  using assms
proof (induction rule: list_all2_induct)
  case (Cons msg msgs pieces sent)
  then obtain framed where f: "encode_message to_vec msg = Inr framed" "concat pieces = framed"
    "\<forall>p \<in> set pieces. p \<noteq> []" by blast
  then obtain json where j: "to_vec msg = Inr json" "length json \<le> MAX_MESSAGE_BYTES" "framed = frame json"
    by (auto simp: encode_message_def not_less split: if_splits)
  have "pieces \<noteq> []" using f(2) j(3) by (auto simp: frame_def to_be_bytes_def)
  then have one: "feed new_reassembler pieces = ((None, [json]), new_reassembler)"
    using f(2,3) j(2,3) by (intro feed_one) (auto simp: new_reassembler_def)
  obtain jsons where js: "list_all2 (\<lambda>msg json. to_vec msg = Inr json) msgs jsons"
    "feed new_reassembler (concat sent) = ((None, jsons), new_reassembler)"
    using Cons.IH by blast
  have "feed new_reassembler (concat (pieces # sent)) = ((None, json # jsons), new_reassembler)"
    using feed_append [OF one js(2)] by simp
  with j(1) js(1) show ?case by (intro exI [of _ "json # jsons"]) simp
qed simp

text \<open>Two messages whose serialised forms are \<open>[7, 8]\<close> and \<open>[]\<close>, the first cut in three pieces.\<close>

theorem framing_round_trip_witness:
  "\<exists>jsons. list_all2 (\<lambda>msg json. (Inr msg :: string + byte list) = Inr json) [[7, 8], []] jsons \<and>
    feed new_reassembler (concat [[[0], [0, 0, 2, 7], [8]], [[0, 0, 0, 0]]])
      = ((None, jsons), new_reassembler)"
  by (rule framing_round_trip)
    (simp add: encode_message_def framing_consts frame_def to_be_bytes_def)

text \<open>
  The reassembler is honest on every input, hostile ones included.  It never invents,
  reorders or drops a byte: the packets it consumed are exactly the frames of the messages it handed
  out followed by what it still buffers; every message it hands out is within the limit; it hands
  out at most one message per packet; and it reports an error only for a declared length over the
  limit, which then stands at the front of the buffer.
\<close>

theorem reassembler_is_honest:
  assumes "feed self packets = ((err, ms), self')"
  shows "(\<exists>used unread. packets = used @ unread \<and> (err = None \<longrightarrow> unread = []) \<and>
      buffer self @ concat used = concat (map frame ms) @ buffer self') \<and>
    (\<forall>m \<in> set ms. length m \<le> MAX_MESSAGE_BYTES) \<and>
    length ms \<le> length packets \<and>
    (\<forall>e. err = Some e \<longrightarrow> (\<exists>declared. e = MessageTooLarge declared \<and> declared > MAX_MESSAGE_BYTES \<and>
      declared = unat (from_be_bytes (take LEN_PREFIX_BYTES (buffer self')))))"
  using feed_conserves [OF assms] feed_messages [OF assms] feed_error assms by blast

text \<open>A packet that declares \<open>2 ^ 31\<close> bytes after one good message.\<close>

theorem reassembler_is_honest_witness:
  "feed new_reassembler [[0, 0, 0, 1, 9, 128], [0, 0, 0]]
      = ((Some (MessageTooLarge 2147483648), [[9]]), \<lparr>buffer = [128, 0, 0, 0]\<rparr>) \<and>
   length [9 :: byte] \<le> MAX_MESSAGE_BYTES"
proof -
  have run: "feed new_reassembler [[0, 0, 0, 1, 9, 128], [0, 0, 0]]
      = ((Some (MessageTooLarge 2147483648), [[9]]), \<lparr>buffer = [128, 0, 0, 0]\<rparr>)"
    by (simp add: push_def new_reassembler_def framing_consts from_be_bytes_def)
  from reassembler_is_honest [OF run] run show ?thesis by (metis list.set_intros(1))
qed

text \<open>
  Since one push hands out at most one message, a packet that carries two whole frames leaves one
  behind, and no later push catches up: \<open>n\<close> packets of two empty frames each leave \<open>4 * n\<close> bytes
  buffered.  The limit on a declared length does not bound the buffer.
\<close>

lemma packed_frames_accumulate:
  "\<exists>r. feed \<lparr>buffer = replicate (4 * k) 0\<rparr> (replicate n (replicate 8 0)) = ((None, replicate n []), r)
    \<and> buffer r = replicate (4 * (k + n)) 0"
proof (induction n arbitrary: k)
  case (Suc n)
  have "replicate (4 * k) (0 :: byte) @ replicate 8 0 = frame [] @ replicate (4 * Suc k) 0"
  proof -
    have "frame [] = replicate 4 0" by (simp add: frame_def to_be_bytes_def eval_nat_numeral)
    then show ?thesis by (simp flip: replicate_add)
  qed
  then have "push \<lparr>buffer = replicate (4 * k) 0\<rparr> (replicate 8 0)
      = (Inr (Some []), \<lparr>buffer = replicate (4 * Suc k) 0\<rparr>)"
    by (intro push_complete) simp_all
  then show ?case using Suc.IH [of "Suc k"] by auto
qed simp

end
