(* ===== verification/Limiter.thy ===== *)
theory Limiter
  imports Prelude "HOL-Library.AList"
begin

text \<open>
  The two fixed-window rate limiters: the global one of the replication endpoints
  (\<^verbatim>\<open>crates/oag-sync/src/rate_limit.rs\<close>, shared with the Reticulum listener) and the keyed one
  of the HTTP API (\<^verbatim>\<open>crates/oag-api/src/rate_limit.rs\<close>), with their middlewares.

  A monotonic \<^verbatim>\<open>Instant\<close> is a natural number of nanoseconds; \<^verbatim>\<open>duration_since\<close> saturates
  at zero, as subtraction on \<^typ>\<open>nat\<close> does.  The request counter is the code's \<^verbatim>\<open>u32\<close>, whose
  increment wraps in a release build; the bounds carry the hypothesis that fewer than \<open>2 ^ 32\<close>
  requests are counted.  A \<^verbatim>\<open>Mutex\<close> makes each check one atomic step, so a concurrent history is
  a sequence of checks at times that do not decrease.
\<close>

type_synonym instant = nat
type_synonym slot = "instant \<times> 32 word"

definition secs :: "nat \<Rightarrow> nat" where
  "secs n = n * 1000000000"

section \<open>The replication limiter\<close>

definition SYNC_WINDOW :: nat where
  "SYNC_WINDOW = secs 60"

definition SYNC_MAX_REQUESTS_PER_WINDOW :: "32 word" where
  "SYNC_MAX_REQUESTS_PER_WINDOW = 600"

record sync_rate_limiter =
  window :: slot

definition sync_limiter_default :: "instant \<Rightarrow> sync_rate_limiter" where
  "sync_limiter_default now = \<lparr>window = (now, 0)\<rparr>"

definition sync_check :: "instant \<Rightarrow> sync_rate_limiter \<Rightarrow> bool \<times> sync_rate_limiter" where
  "sync_check now self =
     (let (started, count) = (if now - fst (window self) > SYNC_WINDOW then (now, 0) else window self);
          count = count + 1
      in (count \<le> SYNC_MAX_REQUESTS_PER_WINDOW, \<lparr>window = (started, count)\<rparr>))"

datatype status = TOO_MANY_REQUESTS

definition sync_rate_limit_middleware ::
  "instant \<Rightarrow> ('q \<Rightarrow> 'r) \<Rightarrow> sync_rate_limiter \<Rightarrow> 'q \<Rightarrow> (status + 'r) \<times> sync_rate_limiter" where
  "sync_rate_limit_middleware now next_run limiter request =
     (case sync_check now limiter of (ok, limiter') \<Rightarrow>
        (if \<not> ok then Inl TOO_MANY_REQUESTS else Inr (next_run request), limiter'))"

section \<open>The API limiter\<close>

definition API_WINDOW :: nat where
  "API_WINDOW = secs 60"

definition API_MAX_REQUESTS_PER_WINDOW :: "32 word" where
  "API_MAX_REQUESTS_PER_WINDOW = 120"

definition SWEEP_THRESHOLD :: nat where
  "SWEEP_THRESHOLD = 10000"

text \<open>The \<^verbatim>\<open>HashMap\<close> is an association list with one entry per key.\<close>

record rate_limiter =
  windows :: "(string \<times> slot) list"
  rl_window :: nat
  max_requests_per_window :: "32 word"
  sweep_threshold :: nat

definition new_rate_limiter :: "nat \<Rightarrow> 32 word \<Rightarrow> nat \<Rightarrow> rate_limiter" where
  "new_rate_limiter w m t =
     \<lparr>windows = [], rl_window = w, max_requests_per_window = m, sweep_threshold = t\<rparr>"

definition rate_limiter_default :: rate_limiter where
  "rate_limiter_default = new_rate_limiter API_WINDOW API_MAX_REQUESTS_PER_WINDOW SWEEP_THRESHOLD"

definition sweep :: "instant \<Rightarrow> rate_limiter \<Rightarrow> (string \<times> slot) list" where
  "sweep now self =
     (if length (windows self) > sweep_threshold self
      then filter (\<lambda>(_, started, _). now - started \<le> rl_window self) (windows self)
      else windows self)"

definition check :: "instant \<Rightarrow> string \<Rightarrow> rate_limiter \<Rightarrow> bool \<times> rate_limiter" where
  "check now key self =
     (let ws = sweep now self;
          entry = (case map_of ws key of None \<Rightarrow> (now, 0) | Some e \<Rightarrow> e);
          (started, count) = (if now - fst entry > rl_window self then (now, 0) else entry);
          count = count + 1
      in (count \<le> max_requests_per_window self,
          self\<lparr>windows := AList.update key (started, count) ws\<rparr>))"

text \<open>The header is \<open>None\<close> when it is absent or not visible ASCII.\<close>

definition rate_limit_key :: "string option \<Rightarrow> string" where
  "rate_limit_key authorization = (case authorization of None \<Rightarrow> ''anonymous'' | Some v \<Rightarrow> v)"

definition api_rate_limit_middleware ::
  "instant \<Rightarrow> ('q \<Rightarrow> string option) \<Rightarrow> ('q \<Rightarrow> 'r) \<Rightarrow> rate_limiter \<Rightarrow> 'q \<Rightarrow> (status + 'r) \<times> rate_limiter" where
  "api_rate_limit_middleware now authorization next_run limiter request =
     (case check now (rate_limit_key (authorization request)) limiter of (ok, limiter') \<Rightarrow>
        (if \<not> ok then Inl TOO_MANY_REQUESTS else Inr (next_run request), limiter'))"

section \<open>What a fixed-window limiter promises\<close>

text \<open>
  The reference: one window per caller.  A slot is \<^emph>\<open>stale\<close> when the next check would start a new
  window anyway, so that forgetting a stale slot cannot be observed.
\<close>

definition stale :: "nat \<Rightarrow> instant \<Rightarrow> slot option \<Rightarrow> bool" where
  "stale w now s = (case s of None \<Rightarrow> True | Some (started, _) \<Rightarrow> now - started > w)"

definition ref_check :: "nat \<Rightarrow> 32 word \<Rightarrow> instant \<Rightarrow> slot option \<Rightarrow> bool \<times> slot option" where
  "ref_check w m now s =
     (let (started, count) = (if stale w now s then (now, 0) else the s)
      in (count + 1 \<le> m, Some (started, count + 1)))"

fun ref_run :: "nat \<Rightarrow> 32 word \<Rightarrow> slot option \<Rightarrow> instant list \<Rightarrow> bool list" where
  "ref_run w m s [] = []"
| "ref_run w m s (t # ts) = (case ref_check w m t s of (ok, s') \<Rightarrow> ok # ref_run w m s' ts)"

text \<open>A history of checks by several callers, and one caller's part of it.\<close>

fun run_checks :: "(instant \<Rightarrow> 'k \<Rightarrow> 's \<Rightarrow> bool \<times> 's) \<Rightarrow> 's \<Rightarrow> (instant \<times> 'k) list \<Rightarrow> bool list" where
  "run_checks chk s [] = []"
| "run_checks chk s ((t, k) # rs) = (case chk t k s of (ok, s') \<Rightarrow> ok # run_checks chk s' rs)"

definition times_of :: "'k \<Rightarrow> (instant \<times> 'k) list \<Rightarrow> instant list" where
  "times_of k rs = map fst (filter (\<lambda>(_, k'). k' = k) rs)"

definition answers_of :: "'k \<Rightarrow> (instant \<times> 'k) list \<Rightarrow> bool list \<Rightarrow> bool list" where
  "answers_of k rs oks = map snd (filter (\<lambda>((_, k'), _). k' = k) (zip rs oks))"

definition accepted :: "bool list \<Rightarrow> nat" where
  "accepted oks = length (filter id oks)"

lemma accepted_simps [simp]:
  "accepted [] = 0" "accepted (b # bs) = (if b then Suc (accepted bs) else accepted bs)"
  by (simp_all add: accepted_def)

lemma times_of_simps [simp]:
  "times_of k [] = []"
  "times_of k ((t, k') # rs) = (if k' = k then t # times_of k rs else times_of k rs)"
  by (simp_all add: times_of_def)

lemma answers_of_simps [simp]:
  "answers_of k [] oks = []"
  "answers_of k ((t, k') # rs) (ok # oks) = (if k' = k then ok # answers_of k rs oks else answers_of k rs oks)"
  by (simp_all add: answers_of_def)

lemma set_times_of: "set (times_of k rs) \<subseteq> fst ` set rs"
  by (auto simp: times_of_def)

subsection \<open>Counting in the reference\<close>

lemma unat_Suc_u32: "unat n + 1 < 2 ^ 32 \<Longrightarrow> unat (n + 1 :: 32 word) = unat n + 1"
  by (simp add: unat_word_ariths unat_of_nat)

lemma stale_mono: "stale w t s \<Longrightarrow> t \<le> t' \<Longrightarrow> stale w t' s"
  by (auto simp: stale_def split: option.splits)

lemma ref_run_stale:
  assumes "stale w t s" and "stale w t s'" and "\<forall>x \<in> set ts. t \<le> x"
  shows "ref_run w m s ts = ref_run w m s' ts"
  using assms by (cases ts) (auto simp: ref_check_def stale_mono)

lemma accepted_in_windows:
  assumes "sorted ts" and "\<forall>t \<in> set ts. started \<le> t \<and> t \<le> e" and "unat n + length ts < 2 ^ 32"
  shows "accepted (ref_run w m (Some (started, n)) ts)
    \<le> (unat m - unat n) + unat m * ((e - started) div Suc w)"
  using assms
proof (induction ts arbitrary: started n)
  case (Cons t ts)
  have t: "started \<le> t" "t \<le> e" using Cons.prems by auto
  have later: "\<forall>x \<in> set ts. t \<le> x \<and> x \<le> e" using Cons.prems by auto
  show ?case
  proof (cases "t - started > w")
    case True
    then have "Suc w + (e - t) \<le> e - started" using t by linarith
    then have "(Suc w + (e - t)) div Suc w \<le> (e - started) div Suc w" by (rule div_le_mono)
    then have "Suc ((e - t) div Suc w) \<le> (e - started) div Suc w" by (simp only: div_add_self1)
    then have "unat m * Suc ((e - t) div Suc w) \<le> unat m * ((e - started) div Suc w)"
      by (rule mult_le_mono2)
    moreover have "accepted (ref_run w m (Some (t, 1)) ts)
        \<le> (unat m - 1) + unat m * ((e - t) div Suc w)"
      using Cons.IH [of t 1] Cons.prems later by auto
    ultimately show ?thesis using True
      by (auto simp: ref_check_def stale_def word_le_nat_alt)
  next
    case False
    have n: "unat (n + 1) = unat n + 1" using Cons.prems by (intro unat_Suc_u32) simp
    have "accepted (ref_run w m (Some (started, n + 1)) ts)
        \<le> (unat m - unat (n + 1)) + unat m * ((e - started) div Suc w)"
      using Cons.prems n by (intro Cons.IH) auto
    then show ?thesis using False n
      by (auto simp: ref_check_def stale_def word_le_nat_alt)
  qed
qed simp

lemma accepted_in_span:
  assumes "sorted ts" and "\<forall>t \<in> set ts. a \<le> t \<and> t \<le> a + d"
    and "(case s of None \<Rightarrow> 0 | Some (_, n) \<Rightarrow> unat n) + length ts < 2 ^ 32"
  shows "accepted (ref_run w m s ts) \<le> unat m * (d div Suc w + 2)"
proof -
  have "accepted (ref_run w m s ts)
      \<le> (case s of None \<Rightarrow> 0 | Some (_, n) \<Rightarrow> unat m - unat n) + unat m * (d div Suc w + 1)"
    using assms
  proof (induction ts arbitrary: s)
    case (Cons t ts)
    have later: "\<forall>x \<in> set ts. t \<le> x \<and> x \<le> a + d" using Cons.prems by auto
    show ?case
    proof (cases "stale w t s")
      case True
      have "(a + d - t) div Suc w \<le> d div Suc w"
        using Cons.prems by (intro div_le_mono) auto
      then have "(unat m - 1) + unat m * ((a + d - t) div Suc w) \<le> (unat m - 1) + unat m * (d div Suc w)"
        by (intro add_left_mono mult_le_mono2)
      moreover have "accepted (ref_run w m (Some (t, 1)) ts)
          \<le> (unat m - 1) + unat m * ((a + d - t) div Suc w)"
        using accepted_in_windows [of ts t "a + d" 1 w m] Cons.prems later by auto
      ultimately have "accepted (ref_run w m (Some (t, 1)) ts) \<le> (unat m - 1) + unat m * (d div Suc w)"
        by (rule order_trans [rotated])
      then show ?thesis using True
        by (auto simp: ref_check_def word_le_nat_alt)
    next
      case False
      then obtain st n where s: "s = Some (st, n)" and live: "\<not> t - st > w"
        by (auto simp: stale_def split: option.splits)
      have n: "unat (n + 1) = unat n + 1" using Cons.prems s by (intro unat_Suc_u32) simp
      have "accepted (ref_run w m (Some (st, n + 1)) ts)
          \<le> (unat m - unat (n + 1)) + unat m * (d div Suc w + 1)"
        using Cons.IH [of "Some (st, n + 1)"] Cons.prems n s by auto
      then show ?thesis using live n s
        by (auto simp: ref_check_def stale_def word_le_nat_alt)
    qed
  qed simp
  then show ?thesis by (auto split: option.splits)
qed

subsection \<open>The interface\<close>

text \<open>
  What a limiter promises its callers: it answers a caller as the reference does on that caller's
  own slot, and all it may do to another caller's slot is to forget it once it is stale.  From these
  two laws follow isolation between callers and the bounds, once for both limiters.
\<close>

locale window_limiter =
  fixes w :: nat and m :: "32 word"
    and chk :: "instant \<Rightarrow> 'k \<Rightarrow> 's \<Rightarrow> bool \<times> 's"
    and slot :: "'s \<Rightarrow> 'k \<Rightarrow> slot option"
    and valid :: "'s \<Rightarrow> bool"
  assumes own: "valid s \<Longrightarrow> chk now k s = (ok, s') \<Longrightarrow> ref_check w m now (slot s k) = (ok, slot s' k)"
    and other: "valid s \<Longrightarrow> chk now k s = (ok, s') \<Longrightarrow> k' \<noteq> k \<Longrightarrow>
      slot s' k' = slot s k' \<or> slot s' k' = None \<and> stale w now (slot s k')"
    and valid_chk: "valid s \<Longrightarrow> chk now k s = (ok, s') \<Longrightarrow> valid s'"
begin

text \<open>A caller sees the answers it would get if it were alone.\<close>

lemma answers_are_own:
  assumes "valid s" and "sorted (map fst rs)"
  shows "answers_of k rs (run_checks chk s rs) = ref_run w m (slot s k) (times_of k rs)"
  using assms
proof (induction rs arbitrary: s)
  case (Cons r rs)
  obtain t j where r: "r = (t, j)" by (cases r)
  obtain ok s' where step: "chk t j s = (ok, s')" by (cases "chk t j s")
  have IH: "answers_of k rs (run_checks chk s' rs) = ref_run w m (slot s' k) (times_of k rs)"
    using Cons.prems step by (intro Cons.IH) (auto intro: valid_chk)
  show ?case
  proof (cases "j = k")
    case True
    then show ?thesis using own [OF Cons.prems(1) step] IH step by (simp add: r)
  next
    case False
    have "\<forall>x \<in> set (times_of k rs). t \<le> x"
      using Cons.prems(2) set_times_of [of k rs] r by auto
    then have "ref_run w m (slot s' k) (times_of k rs) = ref_run w m (slot s k) (times_of k rs)"
      using other [OF Cons.prems(1) step, of k] False ref_run_stale [of w t "slot s' k" "slot s k"]
      by (auto simp: stale_def)
    then show ?thesis using False IH by (simp add: r step)
  qed
qed simp

text \<open>In any span of time a caller gets at most \<open>m\<close> requests per window that fits, and two more
  windows' worth for the ones cut by the ends of the span.\<close>

lemma budget:
  assumes "valid s" and "sorted (map fst rs)" and "\<forall>t \<in> set (times_of k rs). a \<le> t \<and> t \<le> a + d"
    and "(case slot s k of None \<Rightarrow> 0 | Some (_, n) \<Rightarrow> unat n) + length (times_of k rs) < 2 ^ 32"
  shows "accepted (answers_of k rs (run_checks chk s rs)) \<le> unat m * (d div Suc w + 2)"
proof -
  have "sorted (times_of k rs)"
    using assms(2) unfolding times_of_def by (induction rs) auto
  then show ?thesis
    using assms accepted_in_span [of "times_of k rs" a d "slot s k" w m] by (simp add: answers_are_own)
qed

text \<open>And a caller below its budget, or whose window has run out, is served.\<close>

lemma served:
  assumes "valid s" and "0 < m"
    and "stale w now (slot s k) \<or> (\<exists>started n. slot s k = Some (started, n) \<and> n < m)"
  shows "fst (chk now k s)"
proof -
  obtain ok s' where step: "chk now k s = (ok, s')" by (cases "chk now k s")
  have "1 \<le> m" using assms(2) by (simp add: word_le_nat_alt word_less_nat_alt)
  moreover have "n < m \<Longrightarrow> n + 1 \<le> m" for n by (rule inc_le)
  ultimately have "fst (ref_check w m now (slot s k))"
    using assms(3) by (auto simp: ref_check_def)
  then show ?thesis using own [OF assms(1) step] step by simp
qed

end

section \<open>Both limiters keep the promise\<close>

text \<open>The replication endpoints have one caller for all.\<close>

interpretation sync_limiter: window_limiter SYNC_WINDOW SYNC_MAX_REQUESTS_PER_WINDOW
  "\<lambda>now (_ :: unit). sync_check now" "\<lambda>s _. Some (window s)" "\<lambda>_. True"
proof unfold_locales
  show "ref_check SYNC_WINDOW SYNC_MAX_REQUESTS_PER_WINDOW now (Some (window s)) = (ok, Some (window s'))"
    if "sync_check now s = (ok, s')" for s :: sync_rate_limiter and now ok s'
    using that by (cases "window s") (auto simp: sync_check_def ref_check_def stale_def Let_def split: if_splits)
qed simp_all

definition limiter_ok :: "nat \<Rightarrow> 32 word \<Rightarrow> rate_limiter \<Rightarrow> bool" where
  "limiter_ok w m s \<longleftrightarrow> distinct (map fst (windows s)) \<and> rl_window s = w \<and> max_requests_per_window s = m"

lemma limiter_ok_new [simp]: "limiter_ok w m (new_rate_limiter w m t)"
  by (simp add: limiter_ok_def new_rate_limiter_def)

lemma distinct_sweep: "distinct (map fst (windows s)) \<Longrightarrow> distinct (map fst (sweep now s))"
  by (simp add: sweep_def distinct_map_filter)

lemma map_of_sweep:
  assumes "distinct (map fst (windows s))"
  shows "map_of (sweep now s) k = map_of (windows s) k \<or>
    map_of (sweep now s) k = None \<and> stale (rl_window s) now (map_of (windows s) k)"
proof -
  have "map_of (filter P ws) k = (case map_of ws k of None \<Rightarrow> None | Some v \<Rightarrow> if P (k, v) then Some v else None)"
    if "distinct (map fst ws)" for P and ws :: "(string \<times> slot) list"
    using that
    by (induction ws) (auto split: option.splits simp: map_of_eq_None_iff image_iff dest: map_of_SomeD)
  then show ?thesis using assms
    by (auto simp: sweep_def stale_def split: option.splits)
qed

lemma check_shape:
  assumes "check now k s = (ok, s')"
  obtains e where "s' = s\<lparr>windows := AList.update k e (sweep now s)\<rparr>" and "now - fst e \<le> rl_window s"
  using assms by (auto simp: check_def Let_def not_less split: if_splits prod.splits option.splits)

lemma check_own:
  assumes "distinct (map fst (windows s))" and "check now k s = (ok, s')"
  shows "ref_check (rl_window s) (max_requests_per_window s) now (map_of (windows s) k)
    = (ok, map_of (windows s') k)"
  using map_of_sweep [OF assms(1), of now k] assms(2)
  by (auto simp: check_def ref_check_def stale_def Let_def update_conv' split: option.splits if_splits)

lemma check_other:
  assumes "distinct (map fst (windows s))" and "check now k s = (ok, s')" and "k' \<noteq> k"
  shows "map_of (windows s') k' = map_of (windows s) k' \<or>
    map_of (windows s') k' = None \<and> stale (rl_window s) now (map_of (windows s) k')"
  by (rule check_shape [OF assms(2)])
    (use map_of_sweep [OF assms(1), of now k'] assms(3) in \<open>auto simp: update_conv'\<close>)

lemma check_fields:
  assumes "check now k s = (ok, s')"
  shows "rl_window s' = rl_window s" "max_requests_per_window s' = max_requests_per_window s"
    "sweep_threshold s' = sweep_threshold s"
  by (rule check_shape [OF assms]; simp)+

lemma check_distinct:
  assumes "distinct (map fst (windows s))" and "check now k s = (ok, s')"
  shows "distinct (map fst (windows s'))"
  by (rule check_shape [OF assms(2)]) (simp add: distinct_update distinct_sweep assms(1))

text \<open>For every configuration, so for the default one too.\<close>

interpretation api_limiter: window_limiter w m check "\<lambda>s. map_of (windows s)" "limiter_ok w m"
  for w :: nat and m :: "32 word"
proof unfold_locales
  fix s s' :: rate_limiter and now k ok
  assume ok: "limiter_ok w m s" and step: "check now k s = (ok, s')"
  then have s: "distinct (map fst (windows s))" "rl_window s = w" "max_requests_per_window s = m"
    by (simp_all add: limiter_ok_def)
  show "ref_check w m now (map_of (windows s) k) = (ok, map_of (windows s') k)"
    using check_own [OF s(1) step] s by simp
  show "limiter_ok w m s'"
    using check_distinct [OF s(1) step] check_fields [OF step] s by (simp add: limiter_ok_def)
  show "map_of (windows s') k' = map_of (windows s) k' \<or>
      map_of (windows s') k' = None \<and> stale w now (map_of (windows s) k')" if "k' \<noteq> k" for k'
    using check_other [OF s(1) step that] s by simp
qed

lemma answers_of_only:
  assumes "length oks = length rs" and "\<forall>r \<in> set rs. snd r = k"
  shows "answers_of k rs oks = oks"
  using assms by (induction oks rs rule: list_induct2) (auto simp: answers_of_def)

lemma length_run_checks [simp]: "length (run_checks chk s rs) = length rs"
  by (induction rs arbitrary: s) (auto split: prod.splits)

section \<open>The limiter properties\<close>

text \<open>
  C15. The API limiter gives every key its own budget.  For any history of requests under any keys
  at times that do not decrease, a key gets exactly the answers it would get if no other key had
  sent anything -- the sweep of the tracking map included -- and in any span of \<open>d\<close> nanoseconds at
  most 120 accepted requests per whole window plus two windows' worth for the ends of the span.
\<close>

theorem api_budget_per_key:
  assumes "sorted (map fst rs)"
    and "\<forall>t \<in> set (times_of k rs). a \<le> t \<and> t \<le> a + d"
    and "length (times_of k rs) < 2 ^ 32"
  shows "answers_of k rs (run_checks check rate_limiter_default rs)
      = run_checks check rate_limiter_default (filter (\<lambda>r. snd r = k) rs) \<and>
    accepted (answers_of k rs (run_checks check rate_limiter_default rs))
      \<le> 120 * (d div Suc API_WINDOW + 2)"
proof
  let ?s = rate_limiter_default and ?mine = "filter (\<lambda>r. snd r = k) rs"
  have ok: "limiter_ok API_WINDOW API_MAX_REQUESTS_PER_WINDOW ?s"
    by (simp add: rate_limiter_default_def)
  have "sorted (map fst ?mine)" using assms(1) by (induction rs) auto
  then have "answers_of k ?mine (run_checks check ?s ?mine)
      = ref_run API_WINDOW API_MAX_REQUESTS_PER_WINDOW (map_of (windows ?s) k) (times_of k ?mine)"
    by (rule api_limiter.answers_are_own [OF ok])
  moreover have "times_of k ?mine = times_of k rs"
    by (auto simp: times_of_def intro!: arg_cong [of _ _ "map fst"] filter_cong)
  ultimately show "answers_of k rs (run_checks check ?s rs) = run_checks check ?s ?mine"
    using api_limiter.answers_are_own [OF ok assms(1), of k] by (simp add: answers_of_only)
  show "accepted (answers_of k rs (run_checks check ?s rs)) \<le> 120 * (d div Suc API_WINDOW + 2)"
    using api_limiter.budget [OF ok assms(1,2)] assms(3)
    by (simp add: rate_limiter_default_def new_rate_limiter_def API_MAX_REQUESTS_PER_WINDOW_def)
qed

text \<open>Three requests, two of them under the same key, within one millisecond.\<close>

theorem api_budget_per_key_witness:
  "answers_of ''k'' [(5, ''k''), (6, ''x''), (7, ''k'')]
      (run_checks check rate_limiter_default [(5, ''k''), (6, ''x''), (7, ''k'')])
    = run_checks check rate_limiter_default [(5, ''k''), (7, ''k'')]"
  using api_budget_per_key [of "[(5, ''k''), (6, ''x''), (7, ''k'')]" "''k''" 5 1000000] by simp

text \<open>
  A replication endpoint -- the HTTP router and the Reticulum listener have one limiter
  each -- accepts at most 600 requests per whole window of 60 seconds plus two windows' worth for the
  ends of the span, whoever sends them; and a flood cannot lock the endpoint out for good: the first
  request more than a window after the current one began is always accepted, as is every request
  while fewer than 600 were counted.
\<close>

theorem sync_budget_and_recovery:
  assumes "sorted ts" and "\<forall>t \<in> set ts. a \<le> t \<and> t \<le> a + d"
    and "unat (snd (window s)) + length ts < 2 ^ 32"
  shows "accepted (run_checks (\<lambda>now (_ :: unit). sync_check now) s (map (\<lambda>t. (t, ())) ts))
      \<le> 600 * (d div Suc SYNC_WINDOW + 2) \<and>
    (\<forall>now. now - fst (window s) > SYNC_WINDOW \<or> snd (window s) < SYNC_MAX_REQUESTS_PER_WINDOW \<longrightarrow>
      fst (sync_check now s))"
proof
  let ?rs = "map (\<lambda>t. (t, ())) ts"
  let ?oks = "run_checks (\<lambda>now (_ :: unit). sync_check now) s ?rs"
  have own: "times_of () ?rs = ts" "answers_of () ?rs ?oks = ?oks"
    by (auto simp: times_of_def comp_def intro!: answers_of_only)
  have sorted: "sorted (map fst ?rs)" using assms(1) by (simp add: comp_def)
  show "accepted ?oks \<le> 600 * (d div Suc SYNC_WINDOW + 2)"
    using sync_limiter.budget [OF _ sorted, of "()" a d s] assms own
    by (simp add: SYNC_MAX_REQUESTS_PER_WINDOW_def case_prod_unfold)
  show "\<forall>now. now - fst (window s) > SYNC_WINDOW \<or> snd (window s) < SYNC_MAX_REQUESTS_PER_WINDOW \<longrightarrow>
      fst (sync_check now s)"
    using sync_limiter.served [where s = s]
    by (cases "window s") (auto simp: stale_def SYNC_MAX_REQUESTS_PER_WINDOW_def)
qed

text \<open>A limiter whose budget is spent, asked once at 61 seconds.\<close>

theorem sync_budget_and_recovery_witness:
  "accepted (run_checks (\<lambda>now (_ :: unit). sync_check now) \<lparr>window = (0, 600)\<rparr> [(secs 61, ())])
      \<le> 600 * (0 div Suc SYNC_WINDOW + 2) \<and>
   fst (sync_check (secs 61) \<lparr>window = (0, 600)\<rparr>)"
  using sync_budget_and_recovery [of "[secs 61]" "secs 61" 0 "\<lparr>window = (0, 600)\<rparr>"]
  by (simp add: SYNC_WINDOW_def secs_def)

text \<open>
  The tracking map of the API limiter stays bounded.  After any check it holds at most one
  entry more than the sweep threshold, or else nothing but keys whose window is still open; it never
  holds two entries for one key, and the key just checked is always there.
\<close>

theorem tracked_keys_bounded:
  assumes "distinct (map fst (windows s))" and "check now key s = (ok, s')"
  shows "distinct (map fst (windows s')) \<and> key \<in> fst ` set (windows s') \<and>
    (length (windows s') \<le> Suc (sweep_threshold s) \<or>
     (\<forall>(k, started, n) \<in> set (windows s'). now - started \<le> rl_window s))"
proof -
  obtain e where s': "windows s' = AList.update key e (sweep now s)" and e: "now - fst e \<le> rl_window s"
    by (rule check_shape [OF assms(2)]) simp
  have "length (sweep now s) \<le> sweep_threshold s \<or>
      (\<forall>(k, started, n) \<in> set (sweep now s). now - started \<le> rl_window s)"
    by (auto simp: sweep_def)
  moreover have "length (AList.update key e ws) \<le> Suc (length ws)" for ws :: "(string \<times> slot) list"
    by (induction ws) auto
  then have "length (windows s') \<le> Suc (length (sweep now s))" by (simp add: s')
  moreover have "set (AList.update key e ws) \<subseteq> insert (key, e) (set ws)" for ws :: "(string \<times> slot) list"
    by (induction ws) auto
  then have "set (windows s') \<subseteq> insert (key, e) (set (sweep now s))" by (simp add: s')
  ultimately have "length (windows s') \<le> Suc (sweep_threshold s) \<or>
     (\<forall>(k, started, n) \<in> set (windows s'). now - started \<le> rl_window s)"
    using e by (cases e) (force dest: subsetD)
  moreover have "key \<in> fst ` set (windows s')"
    unfolding s' dom_map_of_conv_image_fst [symmetric] by (simp add: update_conv')
  ultimately show ?thesis using check_distinct [OF assms] by simp
qed

theorem tracked_keys_bounded_witness:
  "distinct (map fst (windows (snd (check 9 ''k'' rate_limiter_default))))"
  using tracked_keys_bounded [of rate_limiter_default 9 "''k''"
      "fst (check 9 ''k'' rate_limiter_default)" "snd (check 9 ''k'' rate_limiter_default)"]
  by (simp add: rate_limiter_default_def new_rate_limiter_def)

text \<open>
  The middleware runs before authentication, so a header is a key whether or not it is valid:
  requests under pairwise different headers are never refused.
\<close>

lemma distinct_headers_all_pass:
  assumes "limiter_ok w m s" and "0 < m" and "distinct (map snd rs)" and "sorted (map fst rs)"
    and "\<forall>(t, h) \<in> set rs. map_of (windows s) (rate_limit_key (Some h)) = None"
  shows "list_all id (run_checks (\<lambda>t h. check t (rate_limit_key (Some h))) s rs)"
  using assms
proof (induction rs arbitrary: s)
  case (Cons r rs)
  obtain t h where r: "r = (t, h)" by (cases r)
  obtain ok s' where step: "check t h s = (ok, s')" by (cases "check t h s")
  have "ok" using api_limiter.served [OF Cons.prems(1,2), of t h] Cons.prems(5) step
    by (auto simp: r rate_limit_key_def stale_def)
  moreover have "map_of (windows s') h' = None" if "(t', h') \<in> set rs" for t' h'
  proof -
    have "h' \<noteq> h" using that Cons.prems(3) by (force simp: r)
    then show ?thesis
      using api_limiter.other [OF Cons.prems(1) step] Cons.prems(5) that by (force simp: r rate_limit_key_def)
  qed
  ultimately show ?case using Cons.IH [of s'] Cons.prems api_limiter.valid_chk [OF Cons.prems(1) step]
    by (force simp: r step rate_limit_key_def)
qed simp

end
