(* ===== verification/Link.thy ===== *)
theory Link
  imports Framing Limiter Replicate
begin

text \<open>
  Replication over a Reticulum link (\<^verbatim>\<open>crates/oag-reticulum\<close>): the request handlers
  (\<^verbatim>\<open>handlers.rs\<close>), the listener that answers links (\<^verbatim>\<open>listener.rs\<close>) and the pulling client
  (\<^verbatim>\<open>client.rs\<close>).  The transport itself is a crate outside the repository: the listener is
  driven by the sequence of link events it reports, and what it does with a packet it is given
  (find the link, build the packet) are arguments.
\<close>

section \<open>Requests and responses\<close>

datatype rn_request = RnHello | RnEvents string u64 u64 | RnPeers

text \<open>The causes behind an error text.\<close>

datatype rn_failure = BadIdLength nat | BadMetadata json_error | RateLimitExceeded

datatype rn_response =
    RespHello hello_response
  | RespEvents "signed_event list"
  | RespPeers "peer_record list"
  | RespError rn_failure

definition handle_events ::
  "('sk, 'vk, 'z) codec_scheme \<Rightarrow> db \<Rightarrow> string \<Rightarrow> u64 \<Rightarrow> u64 \<Rightarrow> rn_failure + signed_event list" where
  "handle_events C d origin_hex from to =
     res_bind (ok_or (BadIdLength (length origin_hex)) (decode_hex32 C origin_hex)) (\<lambda>origin_bytes.
       res_map_err BadMetadata (serve_range C d origin_bytes from to))"

definition handle_request ::
  "('sk, 'vk, 'z) codec_scheme \<Rightarrow> db \<Rightarrow> peer_id \<Rightarrow> byte list \<Rightarrow> rn_request \<Rightarrow> rn_response" where
  "handle_request C d self_peer_id self_public_key request =
     (case request of
        RnHello \<Rightarrow> RespHello (hello C self_peer_id self_public_key d)
      | RnEvents origin_hex from to \<Rightarrow>
          (case handle_events C d origin_hex from to of Inr sevs \<Rightarrow> RespEvents sevs | Inl e \<Rightarrow> RespError e)
      | RnPeers \<Rightarrow> RespPeers (peers_response C d))"

definition rate_limited_handle_request ::
  "('sk, 'vk, 'z) codec_scheme \<Rightarrow> db \<Rightarrow> peer_id \<Rightarrow> byte list \<Rightarrow> instant \<Rightarrow> rn_request \<Rightarrow> sync_rate_limiter
     \<Rightarrow> rn_response \<times> sync_rate_limiter" where
  "rate_limited_handle_request C d self_peer_id self_public_key now request limiter =
     (case sync_check now limiter of (ok, limiter') \<Rightarrow>
        (if ok then handle_request C d self_peer_id self_public_key request else RespError RateLimitExceeded,
         limiter'))"

section \<open>The listener\<close>

type_synonym link_id = "byte list"

datatype link_event = Activated | Closed | Data "byte list"

text \<open>JSON of requests and responses, and the transport: whether a link is still there to reply on,
  and the packet built for a piece.\<close>

record 'p transport =
  parse_request :: "byte list \<Rightarrow> string + rn_request"
  request_to_vec :: "rn_request \<Rightarrow> string + byte list"
  parse_response :: "byte list \<Rightarrow> string + rn_response"
  response_to_vec :: "rn_response \<Rightarrow> string + byte list"
  find_in_link :: "link_id \<Rightarrow> bool"
  data_packet :: "link_id \<Rightarrow> byte list \<Rightarrow> 'p option"

record listener =
  buffers :: "link_id \<Rightarrow> reassembler option"
  limiter :: sync_rate_limiter

text \<open>The pieces sent until a packet cannot be built.\<close>

fun send_pieces :: "('p, 'y) transport_scheme \<Rightarrow> link_id \<Rightarrow> byte list list \<Rightarrow> 'p list" where
  "send_pieces T l [] = []"
| "send_pieces T l (c # cs) =
     (case data_packet T l c of None \<Rightarrow> [] | Some pkt \<Rightarrow> pkt # send_pieces T l cs)"

definition reply :: "('p, 'y) transport_scheme \<Rightarrow> link_id \<Rightarrow> rn_response \<Rightarrow> 'p list" where
  "reply T l response =
     (if \<not> find_in_link T l then []
      else case encode_message (response_to_vec T) response of
        Inl _ \<Rightarrow> []
      | Inr framed \<Rightarrow> send_pieces T l (chunks CHUNK_SIZE framed))"

text \<open>One turn of the loop in \<^verbatim>\<open>run_listener\<close>: the packets it sends and the state it leaves.\<close>

definition listener_step ::
  "('sk, 'vk, 'z) codec_scheme \<Rightarrow> ('p, 'y) transport_scheme \<Rightarrow> db \<Rightarrow> peer_id \<Rightarrow> byte list \<Rightarrow> instant
     \<Rightarrow> link_id \<Rightarrow> link_event \<Rightarrow> listener \<Rightarrow> 'p list \<times> listener" where
  "listener_step C T d self_peer_id self_public_key now l event st =
     (case event of
        Activated \<Rightarrow> ([], st\<lparr>buffers := (buffers st)(l \<mapsto> new_reassembler)\<rparr>)
      | Closed \<Rightarrow> ([], st\<lparr>buffers := (buffers st)(l := None)\<rparr>)
      | Data payload \<Rightarrow>
          let reassembler = (case buffers st l of None \<Rightarrow> new_reassembler | Some r \<Rightarrow> r) in
          (case push reassembler payload of
             (Inl _, _) \<Rightarrow> ([], st\<lparr>buffers := (buffers st)(l := None)\<rparr>)
           | (Inr None, r') \<Rightarrow> ([], st\<lparr>buffers := (buffers st)(l \<mapsto> r')\<rparr>)
           | (Inr (Some message_bytes), r') \<Rightarrow>
               let st1 = st\<lparr>buffers := (buffers st)(l \<mapsto> r')\<rparr> in
               (case parse_request T message_bytes of
                  Inl _ \<Rightarrow> ([], st1)
                | Inr request \<Rightarrow>
                    (case rate_limited_handle_request C d self_peer_id self_public_key now request (limiter st1) of
                       (response, lim') \<Rightarrow> (reply T l response, st1\<lparr>limiter := lim'\<rparr>)))))"

section \<open>The client\<close>

text \<open>The first message that arrives on the link; \<open>None\<close> is the timeout or a closed channel.\<close>

fun await_message :: "reassembler \<Rightarrow> byte list list \<Rightarrow> byte list option" where
  "await_message r [] = None"
| "await_message r (payload # rest) =
     (case push r payload of
        (Inr (Some message), _) \<Rightarrow> Some message
      | (_, r') \<Rightarrow> await_message r' rest)"

datatype reticulum_error =
    RnStorage storage_error
  | RnFraming framing_error
  | NoAnnounce string
  | LinkNotActivated string
  | ResponseTimeout
  | RemoteError rn_failure
  | UnexpectedResponse
  | RnInvalidPublicKey

text \<open>What comes back for the pieces sent: the payloads of the link's events before the timeout.\<close>

definition send_request ::
  "('p, 'y) transport_scheme \<Rightarrow> link_id \<Rightarrow> ('p list \<Rightarrow> byte list list) \<Rightarrow> rn_request \<Rightarrow> reticulum_error + rn_response" where
  "send_request T l network request =
     res_bind (res_map_err RnFraming (encode_message (request_to_vec T) request)) (\<lambda>framed.
     let pieces = chunks CHUNK_SIZE framed; packets = send_pieces T l pieces in
     if length packets < length pieces then Inl ResponseTimeout
     else res_bind (ok_or ResponseTimeout (await_message new_reassembler (network packets))) (\<lambda>bytes.
       res_map_err RnFraming (decode_message (parse_response T) bytes)))"

text \<open>The remote side of a sync over the link, as the answers to the requests.\<close>

type_synonym rn_remote = "rn_request \<Rightarrow> reticulum_error + rn_response"

datatype rn_note =
    RnRemoteError string rn_failure
  | RnUnexpected string
  | RnFetchFailed string reticulum_error
  | RnIngestFailed string u64 events_error

definition rn_discover_one ::
  "('sk, 'vk, 'z) crypto_scheme \<Rightarrow> int \<Rightarrow> peer_record \<Rightarrow> db \<Rightarrow> db" where
  "rn_discover_one C now rec d =
     (case (peer_id_from_str C (prc_peer_id rec), decode_hex32 C (prc_public_key rec)) of
        (Inr pid, Some pk) \<Rightarrow> learn_peer pid pk (prc_addresses rec) now d
      | _ \<Rightarrow> d)"

definition rn_discover_peers ::
  "('sk, 'vk, 'z) crypto_scheme \<Rightarrow> int \<Rightarrow> reticulum_error + rn_response \<Rightarrow> db \<Rightarrow> db" where
  "rn_discover_peers C now response d =
     (case response of
        Inr (RespPeers records) \<Rightarrow> fold (rn_discover_one C now) (take MAX_PEERS_PER_RESPONSE records) d
      | _ \<Rightarrow> d)"

record rn_summary =
  rs_applied :: nat
  rs_already_known :: nat
  rs_forks :: nat
  rs_errors :: "rn_note list"

definition rn_summary_default :: rn_summary where
  "rn_summary_default = \<lparr>rs_applied = 0, rs_already_known = 0, rs_forks = 0, rs_errors = []\<rparr>"

fun rn_ingest_batch ::
  "('sk, 'vk, 'z) codec_scheme \<Rightarrow> 'vk \<Rightarrow> string \<Rightarrow> int \<Rightarrow> signed_event list \<Rightarrow> rn_summary \<Rightarrow> db \<Rightarrow> rn_summary \<times> db" where
  "rn_ingest_batch C vk origin_hex now [] sm d = (sm, d)"
| "rn_ingest_batch C vk origin_hex now (sev # sevs) sm d =
     (case ingest_remote_event C vk sev now d of
        (Inr (Applied _ _), d') \<Rightarrow> rn_ingest_batch C vk origin_hex now sevs (sm\<lparr>rs_applied := rs_applied sm + 1\<rparr>) d'
      | (Inr (AlreadyKnown _), d') \<Rightarrow>
          rn_ingest_batch C vk origin_hex now sevs (sm\<lparr>rs_already_known := rs_already_known sm + 1\<rparr>) d'
      | (Inr (Forked _ _), d') \<Rightarrow> (sm\<lparr>rs_forks := rs_forks sm + 1\<rparr>, d')
      | (Inl e, d') \<Rightarrow>
          (sm\<lparr>rs_errors := rs_errors sm @ [RnIngestFailed origin_hex (ue_sequence (se_unsigned sev)) e]\<rparr>, d'))"

definition rn_pull_origin ::
  "('sk, 'vk, 'z) codec_scheme \<Rightarrow> 'vk wire \<Rightarrow> rn_remote \<Rightarrow> int \<Rightarrow> peer_id \<Rightarrow> 'vk \<Rightarrow> heads
     \<Rightarrow> string \<times> u64 \<Rightarrow> rn_summary \<times> db \<Rightarrow> rn_summary \<times> db" where
  "rn_pull_origin C W rm now remote_peer_id remote_public_key mine head st =
     (case (head, st) of ((origin_hex, remote_seq), sm, d) \<Rightarrow>
      case decode_hex32 C origin_hex of
        None \<Rightarrow> (sm, d)
      | Some origin \<Rightarrow>
          let local_seq = (case map_of mine origin_hex of None \<Rightarrow> 0 | Some s \<Rightarrow> s) in
          if remote_seq \<le> local_seq then (sm, d)
          else
            case (if origin = remote_peer_id then Some remote_public_key else known_key C W d origin) of
              None \<Rightarrow> (sm, d)
            | Some vk \<Rightarrow>
                (case rm (RnEvents origin_hex (local_seq + 1) remote_seq) of
                   Inr (RespEvents fetched) \<Rightarrow> rn_ingest_batch C vk origin_hex now fetched sm d
                 | Inr (RespError e) \<Rightarrow> (sm\<lparr>rs_errors := rs_errors sm @ [RnRemoteError origin_hex e]\<rparr>, d)
                 | Inr _ \<Rightarrow> (sm\<lparr>rs_errors := rs_errors sm @ [RnUnexpected origin_hex]\<rparr>, d)
                 | Inl e \<Rightarrow> (sm\<lparr>rs_errors := rs_errors sm @ [RnFetchFailed origin_hex e]\<rparr>, d)))"

text \<open>\<^verbatim>\<open>hello\<close> over the link, read and checked.\<close>

definition rn_check_hello ::
  "('sk, 'vk, 'z) codec_scheme \<Rightarrow> 'vk wire \<Rightarrow> reticulum_error + rn_response
     \<Rightarrow> reticulum_error + (hello_response \<times> peer_id \<times> byte list \<times> 'vk)" where
  "rn_check_hello C W response =
     res_bind response (\<lambda>resp.
     case resp of
       RespHello hr \<Rightarrow>
         res_bind (res_map_err (\<lambda>_. RnInvalidPublicKey) (peer_id_from_str C (hr_peer_id hr))) (\<lambda>p.
         res_bind (ok_or RnInvalidPublicKey (decode_hex32 C (hr_public_key hr))) (\<lambda>pk.
         res_bind (ok_or RnInvalidPublicKey (vk_from_bytes W pk)) (\<lambda>vk.
         if p \<noteq> peer_id_from_public_key C vk then Inl RnInvalidPublicKey else Inr (hr, p, pk, vk))))
     | RespError e \<Rightarrow> Inl (RemoteError e)
     | _ \<Rightarrow> Inl UnexpectedResponse)"

text \<open>\<^verbatim>\<open>sync_with_peer\<close> from the activated link on; \<open>addr\<close> is the text \<^verbatim>\<open>reticulum:\<close> and the
  target's hash.\<close>

definition rn_sync_with_peer ::
  "('sk, 'vk, 'z) codec_scheme \<Rightarrow> 'vk wire \<Rightarrow> rn_remote \<Rightarrow> i64 \<Rightarrow> string \<Rightarrow> sync_db
     \<Rightarrow> (reticulum_error + rn_summary) \<times> sync_db" where
  "rn_sync_with_peer C W rm now addr n =
     (case rn_check_hello C W (rm RnHello) of
        Inl e \<Rightarrow> (Inl e, n)
      | Inr (hr, p, pk, vk) \<Rightarrow>
          let d1 = upsert_peer p pk None (sint now) (store n) in
          case add_address p addr d1 of
            Inl e \<Rightarrow> (Inl (RnStorage e), n\<lparr>store := d1\<rparr>)
          | Inr d2 \<Rightarrow>
              let n2 = note_heads C p now (hr_heads hr) (n\<lparr>store := d2\<rparr>);
                  d3 = rn_discover_peers C (sint now) (rm RnPeers) (store n2);
                  (sm, d4) = fold (rn_pull_origin C W rm (sint now) p vk (local_heads C d3))
                               (hr_heads hr) (rn_summary_default, d3)
              in (Inr sm, n2\<lparr>store := d4\<rparr>))"

section \<open>Links do not disturb each other\<close>

lemma listener_other_link:
  assumes "listener_step C T d self key now l event st = (out, st')" "l' \<noteq> l"
  shows "buffers st' l' = buffers st l'"
  using assms
  by (auto simp: listener_step_def Let_def split: link_event.splits sum.splits option.splits prod.splits)

section \<open>One request, one reply\<close>

lemma await_feed:
  "feed r cs = ((None, m # ms), r') \<Longrightarrow> await_message r cs = Some m"
proof (induction cs arbitrary: r)
  case (Cons c cs)
  then show ?case by (auto split: sum.splits option.splits prod.splits)
qed simp

lemma send_pieces_all:
  "(\<And>c. data_packet T l c = Some (pk c)) \<Longrightarrow> send_pieces T l cs = map pk cs"
  by (induction cs) simp_all

text \<open>Feeding the listener the pieces of one message: silence until the last, which is answered.\<close>

fun listen :: "('sk, 'vk, 'z) codec_scheme \<Rightarrow> ('p, 'y) transport_scheme \<Rightarrow> db \<Rightarrow> peer_id \<Rightarrow> byte list \<Rightarrow> instant
    \<Rightarrow> (link_id \<times> link_event) list \<Rightarrow> listener \<Rightarrow> 'p list \<times> listener" where
  "listen C T d self key now [] st = ([], st)"
| "listen C T d self key now ((l, ev) # evs) st =
     (case listener_step C T d self key now l ev st of (out, st1) \<Rightarrow>
        (case listen C T d self key now evs st1 of (out', st2) \<Rightarrow> (out @ out', st2)))"

lemma listen_message:
  assumes "length json \<le> MAX_MESSAGE_BYTES" "buffers st l = Some r" "buffer r @ concat cs = frame json"
    and "\<forall>c \<in> set cs. c \<noteq> []" "cs \<noteq> []" "parse_request T json = Inr request"
    and "rate_limited_handle_request C d self key now request (limiter st) = (response, lim')"
  shows "listen C T d self key now (map (\<lambda>c. (l, Data c)) cs) st
    = (reply T l response, st\<lparr>buffers := (buffers st)(l \<mapsto> new_reassembler), limiter := lim'\<rparr>)"
  using assms(2-5,7)
proof (induction cs arbitrary: st r)
  case (Cons c cs)
  show ?case
  proof (cases "cs = []")
    case True
    then have "push r c = (Inr (Some json), \<lparr>buffer = []\<rparr>)"
      using Cons.prems(2) push_complete [OF assms(1), of r c "[]"] by simp
    then show ?thesis using True Cons.prems assms(6)
      by (simp add: listener_step_def new_reassembler_def fun_upd_def)
  next
    case False
    then have "concat cs \<noteq> []" using Cons.prems(3) by (cases cs) auto
    then have part: "push r c = (Inr None, \<lparr>buffer = buffer r @ c\<rparr>)"
      using Cons.prems(2) by (intro push_partial [OF assms(1)]) auto
    let ?st = "st\<lparr>buffers := (buffers st)(l \<mapsto> \<lparr>buffer = buffer r @ c\<rparr>)\<rparr>"
    have "listener_step C T d self key now l (Data c) st = ([], ?st)"
      using part Cons.prems(1) by (simp add: listener_step_def)
    moreover have "listen C T d self key now (map (\<lambda>c. (l, Data c)) cs) ?st
      = (reply T l response, ?st\<lparr>buffers := (buffers ?st)(l \<mapsto> new_reassembler), limiter := lim'\<rparr>)"
      using False Cons.prems by (intro Cons.IH [of ?st "\<lparr>buffer = buffer r @ c\<rparr>"]) auto
    ultimately show ?thesis by simp (rule listener.equality; simp add: fun_eq_iff)
  qed
qed simp

lemma encode_pieces:
  assumes "encode_message to_vec m = Inr framed"
  obtains json where "to_vec m = Inr json" "length json \<le> MAX_MESSAGE_BYTES" "framed = frame json"
    "concat (chunks CHUNK_SIZE framed) = frame json" "chunks CHUNK_SIZE framed \<noteq> []"
    "\<forall>c \<in> set (chunks CHUNK_SIZE framed). c \<noteq> [] \<and> length c \<le> CHUNK_SIZE"
proof -
  obtain json where j: "to_vec m = Inr json" "length json \<le> MAX_MESSAGE_BYTES" "framed = frame json"
    using assms by (auto simp: encode_message_def not_less split: if_splits)
  have c: "concat (chunks CHUNK_SIZE framed) = frame json" by (simp add: concat_chunks CHUNK_SIZE_def j(3))
  then have "chunks CHUNK_SIZE framed \<noteq> []" by (auto simp: frame_def to_be_bytes_def)
  with j c that chunks_bounds show thesis by metis
qed

text \<open>
  The whole conversation: a client's request, delivered packet by packet to the listener on a fresh
  link, and the listener's packets delivered back.
\<close>

lemma link_conversation:
  assumes "encode_message (request_to_vec T) request = Inr framed"
    and "\<And>b. request_to_vec T request = Inr b \<Longrightarrow> parse_request T b = Inr request"
    and "\<And>c. data_packet T l c = Some (l, c)" and "find_in_link T l"
    and "buffers st l = Some new_reassembler"
    and "rate_limited_handle_request C d self key now request (limiter st) = (response, lim')"
    and "encode_message (response_to_vec T) response = Inr framed'"
    and "\<And>b. response_to_vec T response = Inr b \<Longrightarrow> parse_response T b = Inr response"
    and "network = (\<lambda>packets. map snd (fst (listen C T d self key now (map (\<lambda>(l, c). (l, Data c)) packets) st)))"
  shows "send_request T l network request = Inr response"
proof -
  obtain json where j: "request_to_vec T request = Inr json" "length json \<le> MAX_MESSAGE_BYTES" "framed = frame json"
    "concat (chunks CHUNK_SIZE framed) = frame json" "chunks CHUNK_SIZE framed \<noteq> []"
    "\<forall>c \<in> set (chunks CHUNK_SIZE framed). c \<noteq> [] \<and> length c \<le> CHUNK_SIZE"
    using encode_pieces [OF assms(1)] .
  obtain json' where j': "response_to_vec T response = Inr json'" "length json' \<le> MAX_MESSAGE_BYTES" "framed' = frame json'"
    "concat (chunks CHUNK_SIZE framed') = frame json'" "chunks CHUNK_SIZE framed' \<noteq> []"
    "\<forall>c \<in> set (chunks CHUNK_SIZE framed'). c \<noteq> [] \<and> length c \<le> CHUNK_SIZE"
    using encode_pieces [OF assms(7)] .
  have sent: "send_pieces T l cs = map (\<lambda>c. (l, c)) cs" for cs
    using send_pieces_all [of T l "\<lambda>c. (l, c)"] assms(3) by simp
  have "listen C T d self key now (map (\<lambda>c. (l, Data c)) (chunks CHUNK_SIZE framed)) st
      = (reply T l response, st\<lparr>buffers := (buffers st)(l \<mapsto> new_reassembler), limiter := lim'\<rparr>)"
    using j assms(2) by (intro listen_message [OF j(2) assms(5) _ _ _ _ assms(6)]) (auto simp: new_reassembler_def)
  then have "network (send_pieces T l (chunks CHUNK_SIZE framed)) = chunks CHUNK_SIZE framed'"
    by (simp add: assms(9) sent comp_def reply_def assms(4,7))
  moreover have "feed new_reassembler (chunks CHUNK_SIZE framed') = ((None, [json']), new_reassembler)"
    using j' by (intro feed_one) (auto simp: new_reassembler_def)
  then have "await_message new_reassembler (chunks CHUNK_SIZE framed') = Some json'" by (rule await_feed)
  ultimately show ?thesis
    using assms(1,8) j'(1) by (simp add: send_request_def Let_def sent decode_message_def)
qed

end
