(* ===== verification/Network.thy ===== *)
theory Network
  imports CatchUp Link
begin

text \<open>
  The properties of the network side: signed claims and trust, replication against hostile and
  honest peers, and the conversation over a Reticulum link, each with an instance on the sample
  codec.
\<close>

definition sample_wire :: "byte wire" where
  "sample_wire = \<lparr>vk_from_bytes = (\<lambda>b. if length b = 32 then Some (last b) else None),
     jcs_presence = (\<lambda>_. Inr []), jcs_cluster = (\<lambda>_. Inr [])\<rparr>"

lemma sample_key_codec: "key_codec sample sample_wire"
  by (simp add: key_codec_def sample_wire_def sample_def sample_codec_def)

section \<open>The peering properties\<close>

text \<open>
  C16. A presence heartbeat or a cluster declaration is accepted for a peer exactly when it is
  vouched for -- the key in it hashes to the peer id and its signature verifies under that key, over
  the canonical bytes and the claim's own domain prefix -- and its timestamp is at most 300 seconds
  from now, or is the single value \<open>now - 2^63\<close> at which the code's \<^verbatim>\<open>abs\<close> overflows.
\<close>

theorem claims_are_authentic:
  assumes "0 \<le> sint now" and "sint now < 2 ^ 62"
  shows "(presence_verify C W h now = Inr p \<longleftrightarrow>
      vouched C W PRESENCE_DOMAIN (ph_peer_id (ph_unsigned h)) (ph_public_key (ph_unsigned h))
        (jcs_presence W (ph_unsigned h)) (ph_signature h) p \<and>
      (\<bar>sint (ph_timestamp (ph_unsigned h)) - sint now\<bar> \<le> 300 \<or> ph_timestamp (ph_unsigned h) = now + 2 ^ 63)) \<and>
    (cluster_verify C W c now = Inr p \<longleftrightarrow>
      vouched C W CLUSTER_DOMAIN (cd_peer_id (cd_unsigned c)) (cd_public_key (cd_unsigned c))
        (jcs_cluster W (cd_unsigned c)) (cd_signature c) p \<and>
      (\<bar>sint (cd_timestamp (cd_unsigned c)) - sint now\<bar> \<le> 300 \<or> cd_timestamp (cd_unsigned c) = now + 2 ^ 63))"
  using presence_claim.accepted_iff [OF assms, of C W h p] cluster_claim.accepted_iff [OF assms, of C W c p] by blast

definition sample_heartbeat :: presence_heartbeat where
  "sample_heartbeat =
     \<lparr>ph_unsigned = \<lparr>ph_peer_id = peer_id_to_string sample sample_peer,
        ph_public_key = hex_encode sample (key_bytes sample 7), ph_status = Online,
        ph_session_started_at = 900, ph_timestamp = 1000\<rparr>,
      ph_signature = hex_encode sample (sign_with_domain sample 7 PRESENCE_DOMAIN [])\<rparr>"

definition sample_declaration :: cluster_declaration where
  "sample_declaration =
     \<lparr>cd_unsigned = \<lparr>cd_peer_id = peer_id_to_string sample sample_peer,
        cd_public_key = hex_encode sample (key_bytes sample 7), cd_cluster = ''lab'', cd_timestamp = 1000\<rparr>,
      cd_signature = hex_encode sample (sign_with_domain sample 7 CLUSTER_DOMAIN [])\<rparr>"

text \<open>A heartbeat an hour old is refused.\<close>

theorem claims_are_authentic_witness: "presence_verify sample sample_wire sample_heartbeat 4600 \<noteq> Inr sample_peer"
  using claims_are_authentic [of 4600 sample sample_wire sample_heartbeat sample_peer sample_declaration]
  by (simp add: sample_heartbeat_def)

text \<open>
  Honest claims get through: a heartbeat and a declaration that a peer builds and signs are
  accepted, as that peer's, by everyone whose clock is within 300 seconds of the stated time.
\<close>

theorem honest_claims_are_accepted:
  assumes "codecs_ok C" and "key_codec C W"
    and "presence_build_and_sign C W k status started t = Inr h"
    and "cluster_build_and_sign C W k cluster t = Inr c"
    and "0 \<le> sint now" and "sint now < 2 ^ 62" and "\<bar>sint t - sint now\<bar> \<le> 300"
  shows "presence_verify C W h now = Inr (identity_peer_id C k) \<and>
    cluster_verify C W c now = Inr (identity_peer_id C k)"
  using presence_claim.built_is_accepted [OF assms(1,2), of k "(status, started)" t h now]
    cluster_claim.built_is_accepted [OF assms(1,2,4) TrueI assms(5-7)] assms by simp

theorem honest_claims_are_accepted_witness:
  "presence_verify sample sample_wire sample_heartbeat 1200 = Inr sample_peer \<and>
   cluster_verify sample sample_wire sample_declaration 1200 = Inr sample_peer"
proof -
  have "presence_build_and_sign sample sample_wire 7 Online 900 1000 = Inr sample_heartbeat"
    "cluster_build_and_sign sample sample_wire 7 ''lab'' 1000 = Inr sample_declaration"
    by (simp_all add: presence_build_and_sign_def cluster_build_and_sign_def sample_heartbeat_def
        sample_declaration_def sample_wire_def sample_peer_def sample_fields)
  from honest_claims_are_accepted [OF sample_codecs sample_key_codec this, of 1200] show ?thesis
    by (simp add: sample_peer_def)
qed

text \<open>
  Trust is earned and lost gradually.  For every rounding of the floating-point operations,
  the score is in the unit interval and is 0 for a forked or never-seen peer; while a peer keeps
  sending heartbeats its score does not fall as time passes, and reaches 1 once its session has
  lasted the rebuild period; once it has gone quiet its score does not rise, and is 0 when the
  rebuild period has passed again.
\<close>

theorem trust_is_gradual:
  assumes "f32_rounding rnd" and "0 < sint (trust_rebuild_seconds cfg)"
    and "in_range (pr_session_started_at pr)" and "in_range (pr_last_heartbeat_at pr)"
    and "in_range now" and "in_range now'" and "sint now \<le> sint now'"
    and "in_range (heartbeat_interval_seconds cfg)"
  shows "0 \<le> trust_score rnd r f a now cfg \<and> trust_score rnd r f a now cfg \<le> 1 \<and>
    trust_score rnd r True a now cfg = 0 \<and> trust_score rnd None f a now cfg = 0 \<and>
    (fresh cfg pr now' \<longrightarrow>
      trust_score rnd (Some pr) False a now cfg \<le> trust_score rnd (Some pr) False a now' cfg) \<and>
    (fresh cfg pr now \<and> sint (trust_rebuild_seconds cfg) \<le> sint now - sint (pr_session_started_at pr) \<longrightarrow>
      trust_score rnd (Some pr) False False now cfg = 1) \<and>
    (\<not> fresh cfg pr now \<longrightarrow>
      trust_score rnd (Some pr) False a now' cfg \<le> trust_score rnd (Some pr) False a now cfg) \<and>
    (sint (trust_rebuild_seconds cfg) + 3 * sint (heartbeat_interval_seconds cfg)
        \<le> sint now - sint (pr_last_heartbeat_at pr) \<longrightarrow>
      trust_score rnd (Some pr) False a now cfg = 0)"
proof (intro conjI impI)
  show "0 \<le> trust_score rnd r f a now cfg" "trust_score rnd r f a now cfg \<le> 1"
    "trust_score rnd r True a now cfg = 0" "trust_score rnd None f a now cfg = 0"
    by (rule trust_score_bounds trust_score_floor)+
next
  assume "fresh cfg pr now'"
  then show "trust_score rnd (Some pr) False a now cfg \<le> trust_score rnd (Some pr) False a now' cfg"
    using trust_grows [OF assms] by blast
next
  assume "fresh cfg pr now \<and> sint (trust_rebuild_seconds cfg) \<le> sint now - sint (pr_session_started_at pr)"
  then show "trust_score rnd (Some pr) False False now cfg = 1"
    using trust_full [OF assms(1-3,5)] by blast
next
  assume "\<not> fresh cfg pr now"
  then show "trust_score rnd (Some pr) False a now' cfg \<le> trust_score rnd (Some pr) False a now cfg"
    using trust_decays [OF assms] by blast
next
  assume "sint (trust_rebuild_seconds cfg) + 3 * sint (heartbeat_interval_seconds cfg)
      \<le> sint now - sint (pr_last_heartbeat_at pr)"
  then show "trust_score rnd (Some pr) False a now cfg = 0"
    using trust_gone [OF assms(1,2,4,5,8)] by blast
qed

text \<open>Two hours into a session, with the default configuration and no rounding at all.\<close>

theorem trust_is_gradual_witness:
  "trust_score id (Some \<lparr>pr_peer = [], pr_session_started_at = 0, pr_last_heartbeat_at = 7200, pr_status = ''online''\<rparr>)
     False False 7200 trust_config_default = 1"
  using trust_is_gradual [of id trust_config_default
      "\<lparr>pr_peer = [], pr_session_started_at = 0, pr_last_heartbeat_at = 7200, pr_status = ''online''\<rparr>" 7200 7230 None False False]
  by (simp add: f32_rounding_def trust_config_default_def in_range_def fresh_def STALE_MULTIPLIER_def monoI)

section \<open>Replication against any peer\<close>

text \<open>
  C17. Whatever a remote peer answers, and whatever anyone pushes, the database stays sound: after
  a pull, and after a push, every chain is linked and tracked, every row stands for a signed event,
  the graph satisfies its invariant and is the replay of the log; and nothing that was in the log is
  lost or reordered.
\<close>

theorem hostile_peers_are_harmless:
  assumes "(peer_step C S)\<^sup>*\<^sup>* empty_db (store n)" and "remote_events rm \<subseteq> S" and "set body \<subseteq> S"
    and "codecs_ok C" and "collision_free C S" and "readable C S"
    and "n1 = snd (sync_with_peer C W rnd sv rm now addr n)" and "length (events (store n1)) < 2 ^ 64 - 1"
    and "n2 = snd (post_events C W rnd sv now body n)" and "length (events (store n2)) < 2 ^ 64 - 1"
  shows "db_ok C S (store n1) \<and> prefix (events (store n)) (events (store n1)) \<and>
    db_ok C S (store n2) \<and> prefix (events (store n)) (events (store n2))"
proof -
  have pull: "(peer_step C S)\<^sup>*\<^sup>* (store n) (store n1)"
    unfolding assms(7) by (rule sync_with_peer_steps [OF assms(2)])
  have push: "(peer_step C S)\<^sup>*\<^sup>* (store n) (store n2)"
    unfolding assms(9) by (rule post_events_steps [OF assms(3)])
  from reachable_db_ok [OF rtranclp_trans [OF assms(1) pull] assms(8,4-6)] reachable_prefix [OF pull]
    reachable_db_ok [OF rtranclp_trans [OF assms(1) push] assms(10,4-6)] reachable_prefix [OF push]
  show ?thesis by simp
qed

definition empty_sync :: sync_db where
  "empty_sync = \<lparr>store = empty_db, peer_presence = [], address_going_offline = [], peer_cluster_claims = [],
     peer_known_heads = []\<rparr>"

definition sample_service :: sync_service where
  "sample_service = \<lparr>ss_peer_id = [], ss_public_key = [], ss_federation = Open, ss_minimum_trust = 0,
     ss_trust_config = trust_config_default, ss_own_cluster = None\<rparr>"

definition dead_remote :: remote where
  "dead_remote = \<lparr>rm_hello = Inl (Http ''refused''), rm_peers = Inl (Http ''refused''),
     rm_events = (\<lambda>_ _ _. Inl (Http ''refused''))\<rparr>"

lemma sample_push_skipped:
  "store (snd (post_events sample sample_wire id sample_service 0 [sample_first] empty_sync)) = empty_db"
proof -
  have "known_key sample sample_wire empty_db p = None" for p
    by (simp add: known_key_def get_peer_def lookup_by_def empty_db_def)
  then show ?thesis
    by (simp add: post_events_def MAX_EVENTS_PER_PUSH_def push_one_def empty_sync_def split: sum.splits)
qed

text \<open>A remote peer that fails, and a push of an event of a peer nobody knows.\<close>

theorem hostile_peers_are_harmless_witness:
  "db_ok sample (set sample_events) (store (snd (post_events sample sample_wire id sample_service 0 [sample_first] empty_sync)))"
proof -
  have "store (snd (sync_with_peer sample sample_wire id sample_service dead_remote 0 [] empty_sync)) = empty_db"
    by (simp add: sync_with_peer_def empty_sync_def dead_remote_def)
  moreover have "remote_events dead_remote \<subseteq> set sample_events" by (simp add: remote_events_def dead_remote_def)
  moreover have "(peer_step sample (set sample_events))\<^sup>*\<^sup>* empty_db (store empty_sync)"
    by (simp add: empty_sync_def)
  moreover have "set [sample_first] \<subseteq> set sample_events" using sample_members(1) by simp
  ultimately show ?thesis
    using hostile_peers_are_harmless [OF _ _ _ sample_codecs sample_collision_free sample_readable refl _ refl, of empty_sync dead_remote
        "[sample_first]" sample_wire id sample_service 0 "[]"] sample_push_skipped sample_small(1)
    by simp
qed

text \<open>
  A key on record for a peer is that peer's: if every key in the peer table hashes to the id
  it stands under, then the same holds after a pull from any remote peer and after any push, so the
  key an event of \<open>p\<close> is checked under is always one that hashes to \<open>p\<close>.
\<close>

theorem keys_stay_bound:
  assumes "key_codec C W" and "keys_match C W (store n)"
  shows "keys_match C W (store (snd (sync_with_peer C W rnd sv rm now addr n))) \<and>
    keys_match C W (store (snd (post_events C W rnd sv now body n))) \<and>
    (\<forall>p vk. known_key C W (store (snd (sync_with_peer C W rnd sv rm now addr n))) p = Some vk \<longrightarrow>
      peer_id_from_public_key C vk = p)"
  by (intro conjI allI impI keys_match_sync [OF assms] post_keys_match [OF assms]
      known_key_match [OF keys_match_sync [OF assms]])

lemma empty_keys_match: "keys_match C W (store empty_sync)"
  by (simp add: keys_match_def empty_sync_def empty_db_def)

theorem keys_stay_bound_witness:
  "keys_match sample sample_wire (store (snd (post_events sample sample_wire id sample_service 0 [sample_first] empty_sync)))"
  using keys_stay_bound [OF sample_key_codec empty_keys_match] by blast

text \<open>One HTTP exchange: a pull from a remote peer under an address, or a push that is received,
  each with the time of the clock and the answers or the events of the other side.\<close>

datatype replication = Pull remote i64 string | Push i64 "signed_event list"

fun replicate_once ::
  "('sk, 'vk, 'z) codec_scheme \<Rightarrow> 'vk wire \<Rightarrow> (f32 \<Rightarrow> f32) \<Rightarrow> sync_service \<Rightarrow> replication \<Rightarrow> sync_db \<Rightarrow> sync_db" where
  "replicate_once C W rnd sv (Pull rm now addr) n = snd (sync_with_peer C W rnd sv rm now addr n)"
| "replicate_once C W rnd sv (Push now body) n = snd (post_events C W rnd sv now body n)"

text \<open>
  C18. The federation policy holds: an origin that is neither on the allowlist nor claims this
  peer's cluster stays out. Let every readable key in the peer table hash to the id it stands
  under, as it does in an empty table. Then after any sequence of HTTP pulls from any remote peers
  and of any pushes, the origin's chain is what it was, and the keys still hash to their ids. (The
  discovery over Reticulum stores pairs of id and key unchecked and can break the condition on the
  keys; this sequence contains no such step, and no claim of the origin to a cluster.)
\<close>

theorem refused_origins_stay_out:
  assumes "key_codec C W" and "keys_match C W (store n)"
    and "\<not> same_cluster sv n q" and "\<not> allows (ss_federation sv) q"
    and "n' = fold (replicate_once C W rnd sv) xs n"
  shows "chain_of (store n') q = chain_of (store n) q \<and> keys_match C W (store n')"
proof -
  let ?inv = "\<lambda>m. keys_match C W (store m) \<and> refused sv m q \<and> chain_of (store m) q = chain_of (store n) q"
  have "?inv (replicate_once C W rnd sv x m)" if "?inv m" for x m
    using that keys_match_sync [OF assms(1)] sync_refused_chain [OF assms(1)] post_refused_chain [OF assms(1)]
    by (cases x) auto
  then have "?inv (fold (replicate_once C W rnd sv) xs n)"
    using assms(2-4) by (intro fold_invariant [where P = ?inv]) (simp_all add: refused_def)
  then show ?thesis by (simp add: assms(5))
qed

theorem refused_origins_stay_out_witness:
  "chain_of (store (fold (replicate_once sample sample_wire id (sample_service\<lparr>ss_federation := Allowlist []\<rparr>))
     [Push 0 [sample_first], Pull dead_remote 0 [], Push 0 [sample_first]] empty_sync)) sample_peer = []"
proof -
  let ?sv = "sample_service\<lparr>ss_federation := Allowlist []\<rparr>"
  have "\<not> same_cluster ?sv empty_sync sample_peer" "\<not> allows (ss_federation ?sv) sample_peer"
    by (simp_all add: same_cluster_def allows_def sample_service_def)
  from refused_origins_stay_out [OF sample_key_codec empty_keys_match this refl, of id
      "[Push 0 [sample_first], Pull dead_remote 0 [], Push 0 [sample_first]]"] show ?thesis
    by (simp add: empty_sync_def chain_of_def origin_rows_def empty_db_def)
qed

text \<open>
  What one exchange can cost is bounded, whatever the other side sends: a fetch returns at most
  1000 events for any requested range, wrapped ones included; a push of more than 1000 events is
  refused untouched; one discovery adds at most 200 peers and 1000 addresses, and none once 10000
  peers are known.
\<close>

theorem exchanges_are_bounded:
  assumes "log_ok d" and "length (events d) < 2 ^ 62"
  shows "(\<forall>o_hex lo hi sevs. get_events C d o_hex lo hi = Inr sevs \<longrightarrow> length sevs \<le> 1000) \<and>
    (\<forall>body. length body > 1000 \<longrightarrow> post_events C W rnd sv now body n = (Inl PAYLOAD_TOO_LARGE, n)) \<and>
    (\<forall>response. length (peers (discover_peers C W self t response d)) \<le> length (peers d) + 200 \<and>
      length (peer_addresses (discover_peers C W self t response d)) \<le> length (peer_addresses d) + 1000 \<and>
      (length (peers d) \<ge> 10000 \<longrightarrow> discover_peers C W self t response d = d))"
  using get_events_bound [OF assms] discover_growth discover_full
  by (auto simp: post_events_def MAX_EVENTS_PER_PUSH_def MAX_TOTAL_KNOWN_PEERS_def)

theorem exchanges_are_bounded_witness:
  "length (peers (discover_peers sample sample_wire [] 0 (Inr (replicate 5000 \<lparr>prc_peer_id = ''x'', prc_public_key = ''y'',
     prc_addresses = [], prc_last_seen = None\<rparr>)) empty_db)) \<le> 200"
proof -
  have "length (events empty_db) < 2 ^ 62" "length (peers empty_db) = 0" by (simp_all add: empty_db_def)
  from exchanges_are_bounded [OF log_ok_empty this(1)] this(2) show ?thesis by (metis add_0)
qed

section \<open>Replication from an honest peer\<close>

text \<open>
  A pull makes progress.  Let an honest remote peer hold a longer copy of an origin's chain,
  of which the local one is a prefix of length \<open>k\<close>.  Pulling that origin from it leaves the local
  chain a prefix of the remote one, at least as long as before: of length 1000 more, or as long as
  the remote chain, unless an event on the way does not project on the local graph; then the local
  chain ends just before that event and the summary reports it with its cause.
\<close>

theorem pull_catches_up:
  assumes "hex_codec C" and "length p = 32" and "collision_free C S" and "reads_back C S"
    and "db_ok C S (store n)" and "length (events (store n)) < 2 ^ 61"
    and "db_ok C S R" and "length (events R) < 2 ^ 61" and "signed_by C vk S R p"
    and "chain_of (store n) p = take k (chain_of R p)" and "k < length (chain_of R p)"
    and "federation_allows rnd sv n now p"
    and "(if p = rp then Some rvk else known_key C W (store n) p) = Some vk"
    and "pull_origin C W rnd sv (honest_remote C self key as_error R) now rp rvk (local_heads C (store n))
           (hex_encode C p, of_nat (length (chain_of R p))) (sm, n) = (sm', n')"
  shows "\<exists>j. k \<le> j \<and> j \<le> min (k + 1000) (length (chain_of R p)) \<and> chain_of (store n') p = take j (chain_of R p) \<and>
    (j < min (k + 1000) (length (chain_of R p)) \<longrightarrow>
      (\<exists>e note. sy_errors sm' = note @ [IngestFailed (hex_encode C p) (of_nat (Suc j)) e] \<and>
        project_graph C (chain_of R p ! j) (er_created_at (origin_rows R p ! j))
          (ue_payload (se_unsigned (row_event C (origin_rows R p ! j)))) (graph (store n')) = Inl e))"
proof -
  let ?rows = "take (k + 1000) (origin_rows R p)"
  have len: "length ?rows = min (k + 1000) (length (chain_of R p))" by (simp add: length_chain_of min.commute)
  have linked: "chain_linked (origin_rows R p)" using assms(7) by (simp add: db_ok_def log_ok_def)
  from pull_from_honest [OF assms] obtain j where j: "k \<le> j" "j \<le> length ?rows"
    "chain_of (store n') p = map er_event_id (take j ?rows)"
    "j < length ?rows \<Longrightarrow> \<exists>e note. sy_errors sm' = note @ [IngestFailed (hex_encode C p) (er_sequence (?rows ! j)) e] \<and>
       project_graph C (er_event_id (?rows ! j)) (er_created_at (?rows ! j))
         (ue_payload (se_unsigned (row_event C (?rows ! j)))) (graph (store n')) = Inl e"
    unfolding caught_up_to_def by blast
  have "j \<le> k + 1000" using j(2) by simp
  then have "take j ?rows = take j (origin_rows R p)" by (simp add: min.absorb1)
  then have "chain_of (store n') p = take j (chain_of R p)" using j(3) by (simp add: chain_of_def take_map)
  moreover have "?rows ! j = origin_rows R p ! j" "er_sequence (origin_rows R p ! j) = of_nat (Suc j)"
    "er_event_id (origin_rows R p ! j) = chain_of R p ! j" if "j < length ?rows"
    using that linked by (simp_all add: chain_linked_def chain_of_def)
  ultimately show ?thesis using j(1,2,4) unfolding len by metis
qed

lemma sample_reads_back: "reads_back sample (set sample_events)"
  by (simp add: reads_back_def sample_def sample_codec_def sample_events_def sample_bytes_events)

lemma sample_peer_length: "length sample_peer = 32"
  using sample_codecs by (simp add: sample_peer_def identity_peer_id_length codecs_ok_def)

lemma sample_chain: "chain_of sample_db1 sample_peer = [sample_id sample_first]"
  using sample_first_applied by blast

text \<open>The only row of the sample peer in the first sample database.\<close>

lemma sample_row:
  obtains r where "origin_rows sample_db1 sample_peer = [r]" "er_event_id r = sample_id sample_first" "er_previous r = None"
    "\<forall>sev \<in> set sample_events. row_of sample sev r \<longrightarrow> sev = sample_first"
proof -
  obtain r where r: "origin_rows sample_db1 sample_peer = [r]" "er_event_id r = sample_id sample_first"
    using sample_chain by (auto simp: chain_of_def map_eq_Cons_conv)
  have "chain_linked [r]" using sample_db_ok(2) r(1) by (metis db_ok_def log_ok_def)
  then have "er_previous r = None" by (simp add: chain_linked_def chain_head_def)
  moreover have "sev = sample_first" if "sev \<in> set sample_events" "row_of sample sev r" for sev
  proof -
    have "event_id_derive sample (sample_bytes (se_unsigned sev)) = event_id_derive sample (sample_bytes (se_unsigned sample_first))"
      using that(2) r(2) by (simp add: row_of_def sample_fields sample_id_def sample_def sample_codec_def
          event_id_derive_def hash32_derive_def)
    then show ?thesis
      using sample_collision_free that(1) sample_members(1) by (auto simp: collision_free_def sample_fields)
  qed
  ultimately show thesis using r that by blast
qed

lemma sample_signed_by: "signed_by sample 7 (set sample_events) sample_db1 sample_peer"
proof -
  obtain r where r: "origin_rows sample_db1 sample_peer = [r]" "er_event_id r = sample_id sample_first" "er_previous r = None"
    and only: "\<forall>sev \<in> set sample_events. row_of sample sev r \<longrightarrow> sev = sample_first"
    by (rule sample_row)
  have "check_origin sample 7 sev = Inr (er_event_id r, sample_peer, er_previous r)"
    if "sev \<in> set sample_events" "row_of sample sev r" for sev
    using only that sample_accepted(1) r(2,3) by force
  then show ?thesis using r(1) by (simp add: signed_by_def)
qed

text \<open>An empty peer pulls the sample chain.\<close>

theorem pull_catches_up_witness:
  "chain_of (store (snd (pull_origin sample sample_wire id sample_service
      (honest_remote sample sample_peer [] (\<lambda>_. Http ''failed'') sample_db1) 0 sample_peer 7 (local_heads sample empty_db)
      (hex_encode sample sample_peer, 1) (summary_default, empty_sync)))) sample_peer = [sample_id sample_first]"
proof -
  let ?run = "pull_origin sample sample_wire id sample_service
      (honest_remote sample sample_peer [] (\<lambda>_. Http ''failed'') sample_db1) 0 sample_peer 7
      (local_heads sample (store empty_sync))
      (hex_encode sample sample_peer, of_nat (length (chain_of sample_db1 sample_peer))) (summary_default, empty_sync)"
  have store: "store empty_sync = empty_db" by (simp add: empty_sync_def)
  obtain r where r: "origin_rows sample_db1 sample_peer = [r]" "er_event_id r = sample_id sample_first" "er_previous r = None"
    "\<forall>sev \<in> set sample_events. row_of sample sev r \<longrightarrow> sev = sample_first"
    by (rule sample_row)
  have "logged sample (set sample_events) sample_db1" using sample_db_ok(2) by (simp add: db_ok_def)
  moreover have "r \<in> set (events sample_db1)" using r(1) by (metis filter_is_subset list.set_intros(1) origin_rows_def subsetD)
  ultimately have ev: "row_event sample r = sample_first" using row_event [OF sample_reads_back] r(4) by blast
  have small: "length (events (store empty_sync)) < 2 ^ 61" "length (events sample_db1) < 2 ^ 61"
    using sample_small(1,2) by (simp_all add: store)
  have start: "db_ok sample (set sample_events) (store empty_sync)" "hex_codec sample"
    "chain_of (store empty_sync) sample_peer = take 0 (chain_of sample_db1 sample_peer)"
    "0 < length (chain_of sample_db1 sample_peer)"
    "federation_allows id sample_service empty_sync 0 sample_peer"
    using sample_db_ok(1) sample_codecs sample_chain
    by (simp_all add: store codecs_ok_def chain_of_def origin_rows_def empty_db_def federation_allows_def allows_def
        same_cluster_def sample_service_def)
  have key: "(if sample_peer = sample_peer then Some 7 else known_key sample sample_wire (store empty_sync) sample_peer) = Some 7"
    by simp
  have run: "?run = (fst ?run, snd ?run)" by simp
  from pull_catches_up [OF start(2) sample_peer_length sample_collision_free sample_reads_back start(1) small(1)
      sample_db_ok(2) small(2) sample_signed_by start(3,4,5) key run]
  obtain j where j: "chain_of (store (snd ?run)) sample_peer = take j [sample_id sample_first]" "j \<le> 1"
    "j < 1 \<Longrightarrow> \<exists>e. project_graph sample (sample_id sample_first) (er_created_at r) sample_declare (graph (store (snd ?run))) = Inl e"
    by (auto simp: sample_chain r(1) ev sample_payload)
  have "\<exists>out g. project_graph sample (sample_id sample_first) (er_created_at r) sample_declare (graph (store (snd ?run))) = Inr (out, g, [])"
    by (rule sample_projects)
  then have "j = 1" using j(2,3) by fastforce
  then show ?thesis using j(1) by (simp add: store sample_chain)
qed

section \<open>Over a Reticulum link\<close>

text \<open>
  Requests get their answers over a link.  When a client sends a request in pieces over an
  activated link and the listener's packets travel back, the client obtains exactly the response
  that the rate-limited handler computed for that request, whatever the sizes of the two messages
  up to the limit; and the listener's state of every other link is untouched.
\<close>

theorem link_delivers_the_reply:
  assumes "encode_message (request_to_vec T) request = Inr framed"
    and "\<And>b. request_to_vec T request = Inr b \<Longrightarrow> parse_request T b = Inr request"
    and "\<And>c. data_packet T l c = Some (l, c)" and "find_in_link T l"
    and "buffers st l = Some new_reassembler"
    and "rate_limited_handle_request C d self key now request (limiter st) = (response, lim')"
    and "encode_message (response_to_vec T) response = Inr framed'"
    and "\<And>b. response_to_vec T response = Inr b \<Longrightarrow> parse_response T b = Inr response"
    and "network = (\<lambda>packets. map snd (fst (listen C T d self key now (map (\<lambda>(l, c). (l, Data c)) packets) st)))"
  shows "send_request T l network request = Inr response \<and>
    (\<forall>l' ev out st'. l' \<noteq> l \<longrightarrow> listener_step C T d self key now l ev st = (out, st') \<longrightarrow> buffers st' l' = buffers st l')"
  using link_conversation [OF assms] listener_other_link by blast

definition sample_transport :: "(link_id \<times> byte list) transport" where
  "sample_transport =
     \<lparr>parse_request = (\<lambda>_. Inr RnPeers), request_to_vec = (\<lambda>_. Inr [1, 2, 3]),
      parse_response = (\<lambda>_. Inr (RespPeers [])), response_to_vec = (\<lambda>_. Inr [4]),
      find_in_link = (\<lambda>_. True), data_packet = (\<lambda>l c. Some (l, c))\<rparr>"

text \<open>A peer that knows nobody, asked for its peers.\<close>

theorem link_delivers_the_reply_witness:
  "send_request sample_transport [5] (\<lambda>packets. map snd (fst (listen sample sample_transport empty_db [] [] 0
      (map (\<lambda>(l, c). (l, Data c)) packets)
      \<lparr>buffers = [[5] \<mapsto> new_reassembler], limiter = sync_limiter_default 0\<rparr>))) RnPeers = Inr (RespPeers [])"
proof -
  let ?st = "\<lparr>buffers = [[5] \<mapsto> new_reassembler], limiter = sync_limiter_default 0\<rparr>"
  have "encode_message (request_to_vec sample_transport) RnPeers = Inr (frame [1, 2, 3])"
    "encode_message (response_to_vec sample_transport) (RespPeers []) = Inr (frame [4])"
    by (simp_all add: encode_message_def sample_transport_def MAX_MESSAGE_BYTES_def)
  moreover have "\<exists>lim'. rate_limited_handle_request sample empty_db [] [] 0 RnPeers (limiter ?st) = (RespPeers [], lim')"
    by (simp add: rate_limited_handle_request_def sync_check_def sync_limiter_default_def SYNC_MAX_REQUESTS_PER_WINDOW_def
        SYNC_WINDOW_def handle_request_def peers_response_def list_peers_def empty_db_def)
  ultimately show ?thesis
    using link_delivers_the_reply [of sample_transport RnPeers "frame [1, 2, 3]" "[5]" ?st sample empty_db "[]" "[]" 0
        "RespPeers []" _ "frame [4]"] by (auto simp: sample_transport_def)
qed

text \<open>
  Discovery over the link takes any pairing of a peer id with a key, where discovery over HTTP drops
  one that does not match; and since a key on record is never replaced, every event of the peer
  whose id was used is refused from then on.
\<close>

lemma reticulum_discovery_can_silence_a_peer:
  assumes "peer_id_from_str C (prc_peer_id rec) = Inr p" and "decode_hex32 C (prc_public_key rec) = Some pk"
    and "vk_from_bytes W pk = Some vk" and "p \<noteq> peer_id_from_public_key C vk"
    and "\<not> has_key pe_id (peers d) p"
  shows "discover_one C W self now rec d = d"
    and "known_key C W (rn_discover_one C now rec d) p = Some vk"
    and "peer_id_from_str C (ue_origin_peer (se_unsigned sev)) = Inr p \<Longrightarrow>
      \<exists>e. ingest_remote_event C vk sev t d' = (Inl e, d')"
proof -
  show "discover_one C W self now rec d = d" using assms(1-4) by (simp add: discover_one_def)
  let ?row = "\<lparr>pe_id = p, pe_public_key = pk, pe_name = None, pe_first_seen = now, pe_last_seen = Some now, pe_forked = False\<rparr>"
  have "peers (rn_discover_one C now rec d) = peers d @ [?row]"
    using assms(1,2,5) by (simp add: rn_discover_one_def upsert_peer_def)
  then have "get_peer (rn_discover_one C now rec d) p = Some ?row"
    using assms(5) by (simp add: get_peer_def lookup_by_append lookup_by_None_iff [THEN iffD2])
  then show "known_key C W (rn_discover_one C now rec d) p = Some vk" using assms(3) by (simp add: known_key_def)
  assume claimed: "peer_id_from_str C (ue_origin_peer (se_unsigned sev)) = Inr p"
  have "\<exists>e. check_origin C vk sev = Inl e"
    using check_origin_claimed [of C vk sev] claimed assms(4) by (cases "check_origin C vk sev") auto
  then show "\<exists>e. ingest_remote_event C vk sev t d' = (Inl e, d')"
    by (auto simp: ingest_remote_event_def transaction_def ingest_body_def)
qed

end
