(* ===== verification/Outbound.thy ===== *)
theory Outbound
  imports Service
begin

text \<open>
  Requests to the outside: the address filter (\<^verbatim>\<open>oag-crawler/src/ssrf.rs\<close>), the guarded fetch with
  its redirect loop (\<^verbatim>\<open>fetch.rs\<close>) and the crawl rules (\<^verbatim>\<open>robots.rs\<close>), and the gateway's variant of
  the fetch (\<^verbatim>\<open>fetch_upstream_http\<close> of \<^verbatim>\<open>oag-api/src/gateway.rs\<close>).  The \<^verbatim>\<open>url\<close> crate, name resolution and
  the HTTP client are the record \<open>web\<close>; every answer may depend on the hop, so that a name can
  resolve differently each time.  A fetch also returns the connections it made.
\<close>

section \<open>Addresses (ssrf.rs)\<close>

type_synonym octets = "byte \<times> byte \<times> byte \<times> byte"

datatype ip_addr = V4 octets | V6 "16 word list"

text \<open>The classification methods of \<^verbatim>\<open>std::net::Ipv4Addr\<close> and \<^verbatim>\<open>Ipv6Addr\<close>.\<close>

fun v4_is_loopback :: "octets \<Rightarrow> bool" where "v4_is_loopback (a, b, c, d) \<longleftrightarrow> a = 127"
fun v4_is_private :: "octets \<Rightarrow> bool" where
  "v4_is_private (a, b, c, d) \<longleftrightarrow> a = 10 \<or> a = 172 \<and> b \<ge> 16 \<and> b \<le> 31 \<or> a = 192 \<and> b = 168"
fun v4_is_link_local :: "octets \<Rightarrow> bool" where "v4_is_link_local (a, b, c, d) \<longleftrightarrow> a = 169 \<and> b = 254"
fun v4_is_unspecified :: "octets \<Rightarrow> bool" where "v4_is_unspecified o4 \<longleftrightarrow> o4 = (0, 0, 0, 0)"
fun v4_is_broadcast :: "octets \<Rightarrow> bool" where "v4_is_broadcast o4 \<longleftrightarrow> o4 = (255, 255, 255, 255)"
fun v4_is_documentation :: "octets \<Rightarrow> bool" where
  "v4_is_documentation (a, b, c, d) \<longleftrightarrow>
     a = 192 \<and> b = 0 \<and> c = 2 \<or> a = 198 \<and> b = 51 \<and> c = 100 \<or> a = 203 \<and> b = 0 \<and> c = 113"
fun v4_is_multicast :: "octets \<Rightarrow> bool" where "v4_is_multicast (a, b, c, d) \<longleftrightarrow> a \<ge> 224 \<and> a \<le> 239"

definition is_blocked_v4 :: "octets \<Rightarrow> bool" where
  "is_blocked_v4 v4 \<longleftrightarrow>
     v4_is_loopback v4 \<or> v4_is_private v4 \<or> v4_is_link_local v4 \<or> v4_is_unspecified v4 \<or> v4_is_broadcast v4
     \<or> v4_is_documentation v4 \<or> v4_is_multicast v4 \<or> fst v4 = 0"

unbundle bit_operations_syntax

definition to_ipv4_mapped :: "16 word list \<Rightarrow> octets option" where
  "to_ipv4_mapped s =
     (if length s = 8 \<and> take 6 s = [0, 0, 0, 0, 0, 0xffff]
      then Some (ucast (drop_bit 8 (s ! 6)), ucast (s ! 6), ucast (drop_bit 8 (s ! 7)), ucast (s ! 7))
      else None)"

definition is_unique_local_v6 :: "16 word list \<Rightarrow> bool" where
  "is_unique_local_v6 s \<longleftrightarrow> s ! 0 AND 0xfe00 = 0xfc00"

definition is_unicast_link_local_v6 :: "16 word list \<Rightarrow> bool" where
  "is_unicast_link_local_v6 s \<longleftrightarrow> s ! 0 AND 0xffc0 = 0xfe80"

definition is_blocked_v6 :: "16 word list \<Rightarrow> bool" where
  "is_blocked_v6 s =
     (case to_ipv4_mapped s of
        Some mapped \<Rightarrow> is_blocked_v4 mapped
      | None \<Rightarrow> s = [0, 0, 0, 0, 0, 0, 0, 1] \<or> s = [0, 0, 0, 0, 0, 0, 0, 0] \<or> drop_bit 8 (s ! 0) = 0xff
                \<or> is_unique_local_v6 s \<or> is_unicast_link_local_v6 s)"

definition is_blocked_ip :: "ip_addr \<Rightarrow> bool" where
  "is_blocked_ip ip = (case ip of V4 v4 \<Rightarrow> is_blocked_v4 v4 | V6 v6 \<Rightarrow> is_blocked_v6 v6)"

section \<open>Fetching (fetch.rs)\<close>

type_synonym sock_addr = "ip_addr \<times> 16 word"

record 'u http_response =
  hr_status :: nat
  hr_location :: "string option"
  hr_content_type :: "string option"
  hr_cache_control :: "string option"
  hr_content_length :: "nat option"
  hr_url :: 'u
  hr_chunks :: "byte list option list"

text \<open>
  \<open>lookup_host\<close> and \<open>send_get\<close> give \<open>None\<close> for a failure; the headers are \<open>None\<close> when absent or not
  visible ASCII; a body chunk is \<open>None\<close> when the stream fails there.
\<close>

record 'u web =
  web_parse :: "string \<Rightarrow> 'u option"
  web_scheme :: "'u \<Rightarrow> string"
  web_host :: "'u \<Rightarrow> string option"
  web_port :: "'u \<Rightarrow> 16 word option"
  web_join :: "'u \<Rightarrow> string \<Rightarrow> 'u option"
  lookup_host :: "nat \<Rightarrow> string \<Rightarrow> 16 word \<Rightarrow> sock_addr list option"
  client_builds :: "string \<Rightarrow> sock_addr list \<Rightarrow> bool"
  send_get :: "nat \<Rightarrow> string \<Rightarrow> sock_addr list \<Rightarrow> 'u \<Rightarrow> 'u http_response option"

text \<open>The errors of \<^verbatim>\<open>error.rs\<close>; \<open>CrawlPanic\<close> stands for a panic of the task.\<close>

datatype crawl_error =
    UnsupportedScheme string
  | NoHost
  | DnsResolutionFailed string
  | NoAddresses string
  | BlockedAddress ip_addr
  | TooManyRedirects nat
  | RedirectWithoutLocation
  | ResponseTooLarge nat
  | UnsupportedContentType string
  | CrawlHttp
  | ClientBuild
  | RobotsDisallowed
  | CrawlGraph graph_error
  | CrawlPanic

definition MAX_REDIRECTS :: nat where "MAX_REDIRECTS = 5"

definition ALLOWED_CONTENT_TYPES :: "string list" where
  "ALLOWED_CONTENT_TYPES =
     [''text/html'', ''application/xhtml+xml'', ''application/json'', ''application/ld+json'',
      ''text/plain'', ''text/markdown'']"

record crawler_config =
  allow_private_networks :: bool
  max_response_bytes :: nat
  user_agent :: string

definition resolve_and_validate ::
  "('u, 'z) web_scheme \<Rightarrow> nat \<Rightarrow> string \<Rightarrow> 16 word \<Rightarrow> bool \<Rightarrow> crawl_error + sock_addr list" where
  "resolve_and_validate N hop host port allow_private =
     res_bind (ok_or (DnsResolutionFailed host) (lookup_host N hop host port)) (\<lambda>addrs.
     if addrs = [] then Inl (NoAddresses host)
     else if \<not> allow_private then
       (case find (\<lambda>a. is_blocked_ip (fst a)) addrs of
          Some a \<Rightarrow> Inl (BlockedAddress (fst a))
        | None \<Rightarrow> Inr addrs)
     else Inr addrs)"

definition is_redirection :: "nat \<Rightarrow> bool" where
  "is_redirection status \<longleftrightarrow> 300 \<le> status \<and> status < 400"

definition error_status :: "nat \<Rightarrow> bool" where
  "error_status status \<longleftrightarrow> 400 \<le> status \<and> status < 600"

text \<open>The body loop: the size is checked after every chunk.\<close>

fun read_body :: "nat \<Rightarrow> byte list \<Rightarrow> byte list option list \<Rightarrow> crawl_error + byte list" where
  "read_body limit body [] = Inr body"
| "read_body limit body (None # chunks) = Inl CrawlHttp"
| "read_body limit body (Some chunk # chunks) =
     (if length (body @ chunk) > limit then Inl (ResponseTooLarge limit) else read_body limit (body @ chunk) chunks)"

record 'u fetched_page =
  final_url :: 'u
  content_type :: string
  page_body :: "byte list"
  page_hash :: string

text \<open>\<^verbatim>\<open>unwrap_or("").split(';').next().trim().to_lowercase()\<close>.\<close>

definition media_type :: "string option \<Rightarrow> string" where
  "media_type header =
     to_lowercase (trim (takeWhile (\<lambda>c. c \<noteq> CHR '';'') (case header of None \<Rightarrow> [] | Some h \<Rightarrow> h)))"

definition accept_page ::
  "('sk, 'vk, 'z) crypto_scheme \<Rightarrow> crawler_config \<Rightarrow> 'u http_response \<Rightarrow> crawl_error + 'u fetched_page" where
  "accept_page C config response =
     (let content_type = media_type (hr_content_type response) in
      if error_status (hr_status response) then Inl CrawlHttp
      else if content_type \<notin> set ALLOWED_CONTENT_TYPES then Inl (UnsupportedContentType content_type)
      else if (case hr_content_length response of None \<Rightarrow> False | Some len \<Rightarrow> len > max_response_bytes config)
      then Inl (ResponseTooLarge (max_response_bytes config))
      else res_bind (read_body (max_response_bytes config) [] (hr_chunks response)) (\<lambda>body.
        Inr \<lparr>final_url = hr_url response, content_type = content_type, page_body = body,
             page_hash = blake3_content_hash C body\<rparr>))"

text \<open>
  One round of the redirect loop up to the response: scheme, host and port of the current URL, the
  validated addresses, the pinned client and the request.  A request that was sent is a connection.
\<close>

type_synonym connection = "string \<times> sock_addr list"

definition open_hop ::
  "('u, 'z) web_scheme \<Rightarrow> bool \<Rightarrow> (sock_addr list \<Rightarrow> sock_addr list) \<Rightarrow> nat \<Rightarrow> 'u
     \<Rightarrow> (crawl_error + 'u http_response) \<times> connection list" where
  "open_hop N allow_private pin hop current =
     (let scheme = web_scheme N current in
      if scheme \<noteq> ''http'' \<and> scheme \<noteq> ''https'' then (Inl (UnsupportedScheme scheme), [])
      else case (web_host N current, web_port N current) of
        (Some host, Some port) \<Rightarrow>
          (case resolve_and_validate N hop host port allow_private of
             Inl e \<Rightarrow> (Inl e, [])
           | Inr addrs \<Rightarrow>
               let pinned = pin addrs in
               if \<not> client_builds N host pinned then (Inl ClientBuild, [])
               else (ok_or CrawlHttp (send_get N hop host pinned current), [(host, pinned)]))
      | _ \<Rightarrow> (Inl NoHost, []))"

text \<open>\<open>left\<close> redirects may still be followed; hop \<open>n\<close> of the loop is the one with \<open>left = MAX_REDIRECTS - n\<close>.\<close>

function fetch_from ::
  "('sk, 'vk, 'y) crypto_scheme \<Rightarrow> ('u, 'z) web_scheme \<Rightarrow> crawler_config \<Rightarrow> nat \<Rightarrow> 'u
     \<Rightarrow> (crawl_error + 'u fetched_page) \<times> connection list" where
  "fetch_from C N config left current =
     (case open_hop N (allow_private_networks config) id (MAX_REDIRECTS - left) current of
        (Inl e, tr) \<Rightarrow> (Inl e, tr)
      | (Inr response, tr) \<Rightarrow>
          if is_redirection (hr_status response) then
            (if left = 0 then (Inl (TooManyRedirects MAX_REDIRECTS), tr)
             else case Option.bind (hr_location response) (web_join N current) of
                    None \<Rightarrow> (Inl RedirectWithoutLocation, tr)
                  | Some target \<Rightarrow>
                      (case fetch_from C N config (left - 1) target of (r, tr') \<Rightarrow> (r, tr @ tr')))
          else (accept_page C config response, tr))"
  by pat_completeness auto
termination
  by (relation "measure (\<lambda>(C, N, config, left, current). left)") auto

definition safe_fetch ::
  "('sk, 'vk, 'y) crypto_scheme \<Rightarrow> ('u, 'z) web_scheme \<Rightarrow> crawler_config \<Rightarrow> 'u
     \<Rightarrow> (crawl_error + 'u fetched_page) \<times> connection list" where
  "safe_fetch C N config url = fetch_from C N config MAX_REDIRECTS url"

declare fetch_from.simps [simp del]

section \<open>The filter as a list of ranges\<close>

text \<open>An address as a number, and the block of a prefix with \<open>len\<close> significant bits.\<close>

fun v4_number :: "octets \<Rightarrow> nat" where
  "v4_number (a, b, c, d) = ((unat a * 256 + unat b) * 256 + unat c) * 256 + unat d"

definition in_block :: "octets \<Rightarrow> octets \<times> nat \<Rightarrow> bool" where
  "in_block v4 blk \<longleftrightarrow> v4_number v4 div 2 ^ (32 - snd blk) = v4_number (fst blk) div 2 ^ (32 - snd blk)"

definition BLOCKED_V4 :: "(octets \<times> nat) list" where
  "BLOCKED_V4 =
     [((0, 0, 0, 0), 8), ((10, 0, 0, 0), 8), ((127, 0, 0, 0), 8), ((169, 254, 0, 0), 16), ((172, 16, 0, 0), 12),
      ((192, 0, 2, 0), 24), ((192, 168, 0, 0), 16), ((198, 51, 100, 0), 24), ((203, 0, 113, 0), 24),
      ((224, 0, 0, 0), 4), ((255, 255, 255, 255), 32)]"

lemma byte_bound: "unat (w :: byte) < 256"
  using unsigned_less [of w] by simp

lemma byte_cmp:
  "(w :: byte) = numeral k \<longleftrightarrow> unat w = unat (numeral k :: byte)" "(w :: byte) = 0 \<longleftrightarrow> unat w = 0"
  "(w :: byte) \<ge> numeral k \<longleftrightarrow> unat w \<ge> unat (numeral k :: byte)" "(w :: byte) \<le> numeral k \<longleftrightarrow> unat w \<le> unat (numeral k :: byte)"
  by (simp_all add: word_unat_eq_iff word_le_nat_alt)

lemma shift_digit: "d < 256 \<Longrightarrow> (x * 256 + d) div (256 * m) = x div (m :: nat)"
  by (simp add: div_mult2_eq)

lemma block_digits:
  assumes "b < 256" "c < 256" "d < (256 :: nat)"
  shows "(((a * 256 + b) * 256 + c) * 256 + d) div 16777216 = a"
    "(((a * 256 + b) * 256 + c) * 256 + d) div 65536 = a * 256 + b"
    "(((a * 256 + b) * 256 + c) * 256 + d) div 256 = (a * 256 + b) * 256 + c"
    "(((a * 256 + b) * 256 + c) * 256 + d) div 1048576 = a * 16 + b div 16"
    "(((a * 256 + b) * 256 + c) * 256 + d) div 268435456 = a div 16"
proof -
  have step: "(((a * 256 + b) * 256 + c) * 256 + d) div (256 * (256 * m)) = (a * 256 + b) div m" for m
    unfolding shift_digit [OF assms(3)] shift_digit [OF assms(2)] ..
  have top: "(a * 256 + b) div (256 * m) = a div m" for m
    by (rule shift_digit [OF assms(1)])
  show "(((a * 256 + b) * 256 + c) * 256 + d) div 16777216 = a" using step [of 256] top [of 1] by simp
  show "(((a * 256 + b) * 256 + c) * 256 + d) div 65536 = a * 256 + b" using step [of 1] by simp
  show "(((a * 256 + b) * 256 + c) * 256 + d) div 256 = (a * 256 + b) * 256 + c" using assms(3) by simp
  have "(a * 256 + b) div 16 = a * 16 + b div 16" by presburger
  then show "(((a * 256 + b) * 256 + c) * 256 + d) div 1048576 = a * 16 + b div 16" using step [of 16] by simp
  show "(((a * 256 + b) * 256 + c) * 256 + d) div 268435456 = a div 16" using step [of 4096] top [of 16] by simp
qed

lemma digit_eq:
  assumes "d < B" "e < (B :: nat)"
  shows "x * B + d = y * B + e \<longleftrightarrow> x = y \<and> d = e"
proof
  assume eq: "x * B + d = y * B + e"
  have "(x * B + d) div B = x" "(y * B + e) div B = y" using assms by simp_all
  with eq show "x = y \<and> d = e" by auto
qed simp

lemma div16_range: "n div 16 = k \<longleftrightarrow> 16 * k \<le> n \<and> n < 16 * k + (16 :: nat)"
  using div_mult_mod_eq [of n 16] mod_less_divisor [of 16 n] by (auto simp: div_nat_eqI)

text \<open>
  The filter on IPv4 is the union of eleven blocks, and on IPv6 the mapped IPv4 addresses of those
  blocks, the two special addresses and three prefixes.
\<close>

lemma blocked_v4_ranges: "is_blocked_v4 v4 \<longleftrightarrow> (\<exists>blk \<in> set BLOCKED_V4. in_block v4 blk)"
proof -
  obtain a b c d where v4: "v4 = (a, b, c, d)" by (cases v4)
  note bounds = byte_bound [of a] byte_bound [of b] byte_bound [of c] byte_bound [of d]
  have pow: "(2 :: nat) ^ 24 = 16777216" "(2 :: nat) ^ 16 = 65536" "(2 :: nat) ^ 20 = 1048576" "(2 :: nat) ^ 8 = 256"
    "(2 :: nat) ^ 28 = 268435456" by simp_all
  have "(\<exists>blk \<in> set BLOCKED_V4. in_block v4 blk) \<longleftrightarrow>
      unat a = 0 \<or> unat a = 10 \<or> unat a = 127 \<or> unat a * 256 + unat b = 43518 \<or>
      unat a * 16 + unat b div 16 = 2753 \<or> (unat a * 256 + unat b) * 256 + unat c = 12582914 \<or>
      unat a * 256 + unat b = 49320 \<or> (unat a * 256 + unat b) * 256 + unat c = 12989284 \<or>
      (unat a * 256 + unat b) * 256 + unat c = 13303921 \<or> unat a div 16 = 14 \<or>
      ((unat a * 256 + unat b) * 256 + unat c) * 256 + unat d = 4294967295"
    using block_digits [OF bounds(2-4), of "unat a"]
    by (simp add: BLOCKED_V4_def in_block_def v4 pow)
  also have "\<dots> \<longleftrightarrow> is_blocked_v4 v4"
  proof -
    note two = digit_eq [OF bounds(2), where x = "unat a"] and three = digit_eq [OF bounds(3), where x = "unat a * 256 + unat b"]
      and four = digit_eq [OF bounds(4), where x = "(unat a * 256 + unat b) * 256 + unat c"]
    have high: "unat b div 16 < 16" using bounds(2) by (simp add: less_mult_imp_div_less)
    have "unat a * 256 + unat b = 43518 \<longleftrightarrow> unat a = 169 \<and> unat b = 254"
      "unat a * 256 + unat b = 49320 \<longleftrightarrow> unat a = 192 \<and> unat b = 168"
      using two [of 254 169] two [of 168 192] by simp_all
    moreover have "unat a * 16 + unat b div 16 = 2753 \<longleftrightarrow> unat a = 172 \<and> 16 \<le> unat b \<and> unat b \<le> 31"
      using digit_eq [OF high, of 1 "unat a" 172] by (simp add: div16_range) linarith
    moreover have "(unat a * 256 + unat b) * 256 + unat c = 12582914 \<longleftrightarrow> unat a = 192 \<and> unat b = 0 \<and> unat c = 2"
      "(unat a * 256 + unat b) * 256 + unat c = 12989284 \<longleftrightarrow> unat a = 198 \<and> unat b = 51 \<and> unat c = 100"
      "(unat a * 256 + unat b) * 256 + unat c = 13303921 \<longleftrightarrow> unat a = 203 \<and> unat b = 0 \<and> unat c = 113"
      using three [of 2 49152] two [of 0 192] three [of 100 50739] two [of 51 198] three [of 113 51968] two [of 0 203] by simp_all
    moreover have "unat a div 16 = 14 \<longleftrightarrow> 224 \<le> unat a \<and> unat a \<le> 239" by (simp add: div16_range) linarith
    moreover have "((unat a * 256 + unat b) * 256 + unat c) * 256 + unat d = 4294967295 \<longleftrightarrow>
        unat a = 255 \<and> unat b = 255 \<and> unat c = 255 \<and> unat d = 255"
      using four [of 255 16777215] three [of 255 65535] two [of 255 255] by simp
    ultimately show ?thesis by (simp add: is_blocked_v4_def v4 byte_cmp) argo
  qed
  finally show ?thesis ..
qed

text \<open>
  What the filter lets through although it is not globally routable: shared address space, the
  benchmarking and the reserved block, and IPv6 addresses that translate to loopback (NAT64,
  IPv4-compatible, 6to4).
\<close>

lemma unblocked_special_addresses:
  "\<not> is_blocked_ip (V4 (100, 64, 0, 1))" "\<not> is_blocked_ip (V4 (198, 18, 0, 1))" "\<not> is_blocked_ip (V4 (240, 0, 0, 1))"
  "\<not> is_blocked_ip (V6 [0x64, 0xff9b, 0, 0, 0, 0, 0x7f00, 1])" "\<not> is_blocked_ip (V6 [0, 0, 0, 0, 0, 0, 0x7f00, 1])"
  "\<not> is_blocked_ip (V6 [0x2002, 0x7f00, 1, 0, 0, 0, 0, 0])"
  by (simp_all add: is_blocked_ip_def is_blocked_v4_def is_blocked_v6_def to_ipv4_mapped_def is_unique_local_v6_def
      is_unicast_link_local_v6_def)

section \<open>Confinement\<close>

text \<open>A connection that was pinned to addresses the filter passes, all of them.\<close>

definition confined :: "connection \<Rightarrow> bool" where
  "confined conn \<longleftrightarrow> (\<forall>a \<in> set (snd conn). \<not> is_blocked_ip (fst a))"

lemma resolve_and_validate_unblocked:
  assumes "resolve_and_validate N hop host port False = Inr addrs"
  shows "addrs \<noteq> [] \<and> (\<forall>a \<in> set addrs. \<not> is_blocked_ip (fst a))"
  using assms by (fastforce simp: resolve_and_validate_def find_None_iff split: if_splits option.splits)

lemma open_hop_connections:
  assumes "open_hop N allow_private pin hop current = (r, tr)"
  shows "length tr \<le> 1"
    and "\<not> allow_private \<Longrightarrow> (\<And>as. set (pin as) \<subseteq> set as) \<Longrightarrow> list_all confined tr"
    and "tr \<noteq> [] \<Longrightarrow> web_scheme N current \<in> {''http'', ''https''}"
proof -
  from assms have "tr = [] \<or> (\<exists>host port addrs. resolve_and_validate N hop host port allow_private = Inr addrs \<and>
      tr = [(host, pin addrs)] \<and> web_scheme N current \<in> {''http'', ''https''})"
    by (auto simp: open_hop_def Let_def split: if_splits option.splits sum.splits)
  then show "length tr \<le> 1" "tr \<noteq> [] \<Longrightarrow> web_scheme N current \<in> {''http'', ''https''}"
    "\<not> allow_private \<Longrightarrow> (\<And>as. set (pin as) \<subseteq> set as) \<Longrightarrow> list_all confined tr"
    using resolve_and_validate_unblocked by (fastforce simp: confined_def)+
qed

text \<open>
  The redirect loop, whatever it does with the response in the end: at most one connection per hop,
  every one of them confined unless private networks are allowed.
\<close>

locale redirect_loop =
  fixes N :: "('u, 'z) web_scheme" and allow_private :: bool and pin :: "sock_addr list \<Rightarrow> sock_addr list"
    and loop :: "nat \<Rightarrow> 'u \<Rightarrow> ('e + 'r) \<times> connection list"
    and fail :: "crawl_error \<Rightarrow> 'e" and finish :: "'u http_response \<Rightarrow> 'e + 'r"
  assumes pin_subset: "set (pin as) \<subseteq> set as"
    and loop_step: "loop left current =
      (case open_hop N allow_private pin (MAX_REDIRECTS - left) current of
         (Inl e, tr) \<Rightarrow> (Inl (fail e), tr)
       | (Inr response, tr) \<Rightarrow>
           if is_redirection (hr_status response) then
             (if left = 0 then (Inl (fail (TooManyRedirects MAX_REDIRECTS)), tr)
              else case Option.bind (hr_location response) (web_join N current) of
                     None \<Rightarrow> (Inl (fail RedirectWithoutLocation), tr)
                   | Some target \<Rightarrow> (case loop (left - 1) target of (r, tr') \<Rightarrow> (r, tr @ tr')))
           else (finish response, tr))"
begin

lemma loop_cases:
  assumes "loop left current = (r, tr)"
  obtains (stopped) e where "r = Inl e"
      "\<exists>r0. open_hop N allow_private pin (MAX_REDIRECTS - left) current = (r0, tr)"
  | (finished) response where "open_hop N allow_private pin (MAX_REDIRECTS - left) current = (Inr response, tr)"
      "\<not> is_redirection (hr_status response)" "r = finish response"
  | (followed) response tr0 target tr' where "left \<noteq> 0"
      "open_hop N allow_private pin (MAX_REDIRECTS - left) current = (Inr response, tr0)"
      "Option.bind (hr_location response) (web_join N current) = Some target"
      "loop (left - 1) target = (r, tr')" "tr = tr0 @ tr'"
proof -
  obtain r0 tr0 where hop: "open_hop N allow_private pin (MAX_REDIRECTS - left) current = (r0, tr0)"
    by (cases "open_hop N allow_private pin (MAX_REDIRECTS - left) current")
  show thesis
  proof (cases r0)
    case (Inl e)
    then show thesis using assms hop stopped by (auto simp: loop_step [of left current])
  next
    case (Inr response)
    then show thesis
      using assms hop stopped finished followed
      by (auto simp: loop_step [of left current] split: if_splits option.splits prod.splits)
  qed
qed

lemma hop_connections:
  assumes "open_hop N allow_private pin hop current = (r, tr)"
  shows "length tr \<le> Suc left \<and> (\<not> allow_private \<longrightarrow> list_all confined tr)"
  using open_hop_connections(1,2) [OF assms] pin_subset by simp

lemma loop_connections:
  assumes "loop left current = (r, tr)"
  shows "length tr \<le> Suc left \<and> (\<not> allow_private \<longrightarrow> list_all confined tr)"
  using assms
proof (induction left arbitrary: current tr)
  case 0
  then show ?case by (cases rule: loop_cases) (use hop_connections in blast)+
next
  case (Suc left)
  from Suc.prems show ?case
  proof (cases rule: loop_cases)
    case (followed response tr0 target tr')
    then have "length tr' \<le> Suc left \<and> (\<not> allow_private \<longrightarrow> list_all confined tr')" using Suc.IH by simp
    then show ?thesis using hop_connections [OF followed(2), of 0] followed(5) by auto
  qed (use hop_connections in blast)+
qed

lemma loop_result:
  assumes "loop left current = (Inr page, tr)"
  shows "\<exists>response. finish response = Inr page \<and> \<not> is_redirection (hr_status response)"
  using assms
proof (induction left arbitrary: current tr)
  case 0
  then show ?case by (cases rule: loop_cases) auto
next
  case (Suc left)
  from Suc.prems show ?case by (cases rule: loop_cases) (use Suc.IH in auto)
qed

end

interpretation crawl: redirect_loop N "allow_private_networks config" id "fetch_from C N config" id "accept_page C config"
  for C :: "('sk, 'vk, 'y) crypto_scheme" and N :: "('u, 'z) web_scheme" and config
  by unfold_locales (simp, subst fetch_from.simps, simp only: id_apply)

lemma read_body_bound:
  "read_body limit body chunks = Inr whole \<Longrightarrow> length body \<le> limit \<Longrightarrow> length whole \<le> limit"
  by (induction limit body chunks rule: read_body.induct) (auto split: if_splits)

lemma accept_page_fields:
  assumes "accept_page C config response = Inr page"
  shows "length (page_body page) \<le> max_response_bytes config"
    and "page_hash page = blake3_content_hash C (page_body page)"
    and "content_type page \<in> set ALLOWED_CONTENT_TYPES"
  using assms by (auto simp: accept_page_def Let_def dest: read_body_bound split: if_splits)

end
