(* ===== verification/Robots.thy ===== *)
theory Robots
  imports Outbound
begin

text \<open>
  The crawl rules (\<^verbatim>\<open>oag-crawler/src/robots.rs\<close>): parsing a robots.txt into groups, choosing the group
  for a user agent, and the check of a path; and \<^verbatim>\<open>check_robots\<close> of \<^verbatim>\<open>fetch.rs\<close>.
\<close>

section \<open>Parsing\<close>

fun split_on :: "char \<Rightarrow> string \<Rightarrow> string list" where
  "split_on c [] = [[]]"
| "split_on c (x # xs) =
     (if x = c then [] # split_on c xs
      else case split_on c xs of [] \<Rightarrow> [[x]] | p # ps \<Rightarrow> (x # p) # ps)"

text \<open>\<^verbatim>\<open>str::lines\<close>: no line after a final newline, and a carriage return before one is dropped.\<close>

definition strip_cr :: "string \<Rightarrow> string" where
  "strip_cr l = (if l \<noteq> [] \<and> last l = CHR 0x0D then butlast l else l)"

definition str_lines :: "string \<Rightarrow> string list" where
  "str_lines s =
     (let ps = split_on CHR 0x0A s in map strip_cr (if last ps = [] then butlast ps else ps))"

definition directive :: "string \<Rightarrow> (string \<times> string) option" where
  "directive raw_line =
     (let line = trim (takeWhile (\<lambda>c. c \<noteq> CHR ''#'') raw_line) in
      if line = [] then None
      else map_option (\<lambda>(key, value). (to_lowercase (trim key), trim value)) (split_once CHR '':'' line))"

type_synonym group = "string list \<times> string list"

record parser =
  groups :: "group list"
  current_agents :: "string list"
  current_disallows :: "string list"
  in_group :: bool

definition parse_directive :: "string \<times> string \<Rightarrow> parser \<Rightarrow> parser" where
  "parse_directive kv st =
     (case kv of (key, value) \<Rightarrow>
        if key = ''user-agent'' then
          (let st' = (if in_group st \<and> current_disallows st \<noteq> []
                      then st\<lparr>groups := groups st @ [(current_agents st, current_disallows st)],
                              current_agents := [], current_disallows := [], in_group := False\<rparr>
                      else st)
           in st'\<lparr>current_agents := current_agents st' @ [to_lowercase value]\<rparr>)
        else if key = ''disallow'' then
          (let st' = st\<lparr>in_group := True\<rparr>
           in if value \<noteq> [] then st'\<lparr>current_disallows := current_disallows st' @ [value]\<rparr> else st')
        else st)"

definition parse_line :: "string \<Rightarrow> parser \<Rightarrow> parser" where
  "parse_line raw_line st = (case directive raw_line of None \<Rightarrow> st | Some kv \<Rightarrow> parse_directive kv st)"

definition parse_groups :: "string \<Rightarrow> group list" where
  "parse_groups body =
     (let st = fold parse_line (str_lines body)
                 \<lparr>groups = [], current_agents = [], current_disallows = [], in_group = False\<rparr>
      in if current_agents st \<noteq> [] then groups st @ [(current_agents st, current_disallows st)] else groups st)"

definition choose_group :: "group list \<Rightarrow> string \<Rightarrow> string list" where
  "choose_group gs ua =
     (case find (\<lambda>g. ua \<in> set (fst g)) gs of
        Some g \<Rightarrow> snd g
      | None \<Rightarrow> (case find (\<lambda>g. ''*'' \<in> set (fst g)) gs of Some g \<Rightarrow> snd g | None \<Rightarrow> []))"

record robots_rules = disallow :: "string list"

definition robots_parse :: "string \<Rightarrow> string \<Rightarrow> robots_rules" where
  "robots_parse body ua = \<lparr>disallow = choose_group (parse_groups body) (to_lowercase ua)\<rparr>"

definition allow_all :: robots_rules where "allow_all = \<lparr>disallow = []\<rparr>"

definition is_allowed :: "robots_rules \<Rightarrow> string \<Rightarrow> bool" where
  "is_allowed rules path \<longleftrightarrow> \<not> list_ex (\<lambda>rule. take (length rule) path = rule) (disallow rules)"

text \<open>\<open>robots_url\<close> stands for \<^verbatim>\<open>join("/robots.txt")\<close> and \<^verbatim>\<open>set_query(None)\<close>, \<open>lossy\<close> for \<^verbatim>\<open>String::from_utf8_lossy\<close>.\<close>

definition check_robots ::
  "('sk, 'vk, 'y) crypto_scheme \<Rightarrow> ('u, 'z) web_scheme \<Rightarrow> ('u \<Rightarrow> 'u option) \<Rightarrow> (byte list \<Rightarrow> string)
     \<Rightarrow> crawler_config \<Rightarrow> 'u \<Rightarrow> robots_rules \<times> connection list" where
  "check_robots C N robots_url lossy config url =
     (case robots_url url of
        None \<Rightarrow> (allow_all, [])
      | Some u \<Rightarrow>
          (case safe_fetch C N config u of
             (Inr page, tr) \<Rightarrow> (robots_parse (lossy (page_body page)) (user_agent config), tr)
           | (Inl _, tr) \<Rightarrow> (allow_all, tr)))"

section \<open>Well-formed files\<close>

text \<open>How a file of groups is written, and which values can be written.\<close>

definition render_line :: "string \<Rightarrow> string \<Rightarrow> string" where
  "render_line key value = key @ '': '' @ value @ [CHR 0x0A]"

definition render_group :: "group \<Rightarrow> string" where
  "render_group g = concat (map (render_line ''User-agent'') (fst g)) @ concat (map (render_line ''Disallow'') (snd g))"

definition plain_value :: "string \<Rightarrow> bool" where
  "plain_value v \<longleftrightarrow> v \<noteq> [] \<and> trim v = v \<and> CHR ''#'' \<notin> set v \<and> CHR 0x0A \<notin> set v"

definition plain_group :: "group \<Rightarrow> bool" where
  "plain_group g \<longleftrightarrow> fst g \<noteq> [] \<and> snd g \<noteq> [] \<and> list_all plain_value (fst g) \<and> list_all plain_value (snd g)"

lemma split_on_first: "c \<notin> set l \<Longrightarrow> split_on c (l @ c # rest) = l # split_on c rest"
  by (induction l) auto

lemma split_on_lines:
  "\<forall>l \<in> set ls. c \<notin> set l \<Longrightarrow> split_on c (concat (map (\<lambda>l. l @ [c]) ls)) = ls @ [[]]"
  by (induction ls) (simp_all add: split_on_first)

lemma str_lines_rendered:
  "\<forall>l \<in> set ls. CHR 0x0A \<notin> set l \<Longrightarrow> str_lines (concat (map (\<lambda>l. l @ [CHR 0x0A]) ls)) = map strip_cr ls"
  by (simp add: str_lines_def split_on_lines)

lemma length_dropWhile_less: "t \<noteq> [] \<Longrightarrow> P (hd t) \<Longrightarrow> length (dropWhile P t) < length t"
  by (cases t) (simp_all add: le_imp_less_Suc length_dropWhile_le)

lemma dropWhile_hd: "t = [] \<or> \<not> P (hd t) \<Longrightarrow> dropWhile P t = t"
  by (cases t) auto

lemma trim_id_iff: "trim s = s \<longleftrightarrow> s = [] \<or> \<not> is_whitespace (hd s) \<and> \<not> is_whitespace (last s)"
proof (cases "s = [] \<or> \<not> is_whitespace (hd s)")
  case True
  then have trim: "trim s = rev (dropWhile is_whitespace (rev s))" by (simp add: trim_def dropWhile_hd)
  show ?thesis
  proof (cases "s = [] \<or> \<not> is_whitespace (last s)")
    case False
    then have "length (trim s) < length s"
      using length_dropWhile_less [of "rev s" is_whitespace] by (simp add: trim hd_rev)
    then show ?thesis using False by auto
  qed (use True in \<open>auto simp: trim dropWhile_hd hd_rev\<close>)
next
  case False
  then have "length (trim s) < length s"
    using length_dropWhile_less [of s is_whitespace] length_dropWhile_le [of is_whitespace "rev (dropWhile is_whitespace s)"]
    by (simp add: trim_def)
  then show ?thesis using False by auto
qed

lemma trim_space: "trim (CHR '' '' # v) = trim v"
  by (simp add: trim_def is_whitespace_def)

lemma directive_rendered:
  assumes "plain_value v" and "key = ''User-agent'' \<or> key = ''Disallow''"
  shows "directive (key @ '': '' @ v) = Some (to_lowercase key, v)"
proof -
  have v: "v \<noteq> []" "trim v = v" "CHR ''#'' \<notin> set v" using assms(1) by (simp_all add: plain_value_def)
  have key: "key \<noteq> []" "CHR '':'' \<notin> set key" "CHR ''#'' \<notin> set key" "\<not> is_whitespace (hd key)" "\<not> is_whitespace (last key)"
    using assms(2) by (auto simp: is_whitespace_def)
  have uncommented: "takeWhile (\<lambda>c. c \<noteq> CHR ''#'') (key @ '': '' @ v) = key @ '': '' @ v"
    unfolding takeWhile_eq_all_conv using v(3) key(3) by auto
  have "trim (key @ '': '' @ v) = key @ '': '' @ v"
    using v key(1,4) trim_id_iff [of v] by (simp add: trim_id_iff hd_append)
  moreover have "split_once CHR '':'' (key @ '': '' @ v) = Some (key, '' '' @ v)"
    using key(2) by (simp add: split_once_def takeWhile_append takeWhile_eq_all_conv dropWhile_append dropWhile_eq_Nil_conv)
  moreover have "trim key = key" using key(4,5) by (simp add: trim_id_iff)
  ultimately show ?thesis using key(1) v(2) trim_space unfolding directive_def uncommented by simp
qed

text \<open>Reading one rendered group from a state between groups.\<close>

definition settled :: "parser \<Rightarrow> bool" where
  "settled st \<longleftrightarrow> (if current_agents st = [] then current_disallows st = [] \<and> \<not> in_group st
                    else in_group st \<and> current_disallows st \<noteq> [])"

definition flushed :: "parser \<Rightarrow> group list" where
  "flushed st = (if current_agents st = [] then groups st else groups st @ [(current_agents st, current_disallows st)])"

definition rendered_directives :: "group \<Rightarrow> (string \<times> string) list" where
  "rendered_directives g = map (Pair ''user-agent'') (fst g) @ map (Pair ''disallow'') (snd g)"

lemma more_agents:
  "\<not> in_group st \<Longrightarrow> fold parse_directive (map (Pair ''user-agent'') as) st
     = st\<lparr>current_agents := current_agents st @ map to_lowercase as\<rparr>"
  by (induction as arbitrary: st) (simp_all add: parse_directive_def)

lemma more_disallows:
  "in_group st \<Longrightarrow> list_all plain_value ds \<Longrightarrow> fold parse_directive (map (Pair ''disallow'') ds) st
     = st\<lparr>current_disallows := current_disallows st @ ds\<rparr>"
  by (induction ds arbitrary: st) (simp_all add: parse_directive_def plain_value_def)

lemma read_group:
  assumes "settled st" and "plain_group g"
  shows "fold parse_directive (rendered_directives g) st
    = \<lparr>groups = flushed st, current_agents = map to_lowercase (fst g), current_disallows = snd g, in_group = True\<rparr>"
proof -
  obtain a as d ds where g: "g = (a # as, d # ds)"
    using assms(2) by (cases g; cases "fst g"; cases "snd g") (auto simp: plain_group_def)
  let ?st1 = "\<lparr>groups = flushed st, current_agents = [to_lowercase a], current_disallows = [], in_group = False\<rparr>"
  have first: "parse_directive (''user-agent'', a) st = ?st1"
    using assms(1) by (cases st) (auto simp: parse_directive_def settled_def flushed_def split: if_splits)
  have "parse_directive (''disallow'', d) (?st1\<lparr>current_agents := [to_lowercase a] @ map to_lowercase as\<rparr>)
      = \<lparr>groups = flushed st, current_agents = map to_lowercase (a # as), current_disallows = [d], in_group = True\<rparr>"
    using assms(2) by (simp add: parse_directive_def g plain_group_def plain_value_def)
  then show ?thesis
    using assms(2) first more_agents [of ?st1 as] more_disallows
    by (simp add: rendered_directives_def g plain_group_def)
qed

lemma read_groups:
  assumes "settled st" and "list_all plain_group gs"
  shows "let st' = fold parse_directive (concat (map rendered_directives gs)) st
    in settled st' \<and> flushed st' = flushed st @ map (\<lambda>g. (map to_lowercase (fst g), snd g)) gs"
  using assms
proof (induction gs arbitrary: st)
  case (Cons g gs)
  let ?st = "\<lparr>groups = flushed st, current_agents = map to_lowercase (fst g), current_disallows = snd g, in_group = True\<rparr>"
  have "settled ?st" "flushed ?st = flushed st @ [(map to_lowercase (fst g), snd g)]"
    using Cons.prems(2) by (cases g; auto simp: settled_def flushed_def plain_group_def)+
  then show ?case using Cons.IH [of ?st] Cons.prems read_group [of st g] by (simp add: Let_def)
qed (simp add: Let_def)

definition rendered_lines :: "group \<Rightarrow> string list" where
  "rendered_lines g = map (\<lambda>v. ''User-agent'' @ '': '' @ v) (fst g) @ map (\<lambda>v. ''Disallow'' @ '': '' @ v) (snd g)"

lemma render_group_lines: "render_group g = concat (map (\<lambda>l. l @ [CHR 0x0A]) (rendered_lines g))"
  by (simp add: render_group_def rendered_lines_def render_line_def [abs_def] comp_def)

lemma rendered_lines_plain:
  assumes "plain_group g" "l \<in> set (rendered_lines g)"
  shows "CHR 0x0A \<notin> set l \<and> strip_cr l = l"
proof -
  obtain k v where l: "l = k @ '': '' @ v" "k = ''User-agent'' \<or> k = ''Disallow''" and v: "plain_value v"
  proof -
    from assms(1) have vs: "\<forall>v \<in> set (fst g) \<union> set (snd g). plain_value v" by (auto simp: plain_group_def list_all_iff)
    from assms(2) have "(\<exists>v \<in> set (fst g). l = ''User-agent'' @ '': '' @ v) \<or> (\<exists>v \<in> set (snd g). l = ''Disallow'' @ '': '' @ v)"
      unfolding rendered_lines_def by (simp only: set_append set_map Un_iff image_iff)
    with vs that show thesis by blast
  qed
  have "v \<noteq> []" "\<not> is_whitespace (last v)" "CHR 0x0A \<notin> set v"
    using v trim_id_iff [of v] by (auto simp: plain_value_def)
  then show ?thesis using l by (auto simp: strip_cr_def is_whitespace_def)
qed

lemma parse_rendered_lines:
  "plain_group g \<Longrightarrow> fold parse_line (rendered_lines g) st = fold parse_directive (rendered_directives g) st"
proof -
  assume g: "plain_group g"
  have "fold parse_line (map (\<lambda>v. key @ '': '' @ v) vs) st = fold parse_directive (map (Pair (to_lowercase key)) vs) st"
    if "list_all plain_value vs" "key = ''User-agent'' \<or> key = ''Disallow''" for key vs st
    using that(1)
  proof (induction vs arbitrary: st)
    case (Cons v vs)
    then show ?case using directive_rendered [of v key] that(2) by (simp add: parse_line_def)
  qed simp
  note lines = this
  have lower: "to_lowercase ''User-agent'' = ''user-agent''" "to_lowercase ''Disallow'' = ''disallow''"
    by code_simp+
  have "list_all plain_value (fst g)" "list_all plain_value (snd g)" using g by (simp_all add: plain_group_def)
  then show ?thesis
    using lines [of "fst g" "''User-agent''"] lines [of "snd g" "''Disallow''"]
    unfolding rendered_lines_def rendered_directives_def fold_append comp_apply lower by simp
qed

lemma parse_groups_rendered:
  assumes "list_all plain_group gs"
  shows "parse_groups (concat (map render_group gs)) = map (\<lambda>g. (map to_lowercase (fst g), snd g)) gs"
proof -
  let ?start = "\<lparr>groups = [], current_agents = [], current_disallows = [], in_group = False\<rparr>"
  let ?ls = "concat (map rendered_lines gs)"
  have "concat (map render_group gs) = concat (map (\<lambda>l. l @ [CHR 0x0A]) ?ls)"
    by (induction gs) (simp_all add: render_group_lines)
  moreover have "\<forall>l \<in> set ?ls. CHR 0x0A \<notin> set l \<and> strip_cr l = l"
    using assms rendered_lines_plain by (fastforce simp: list_all_iff)
  ultimately have "str_lines (concat (map render_group gs)) = ?ls"
    using str_lines_rendered [of ?ls] map_idI [of ?ls strip_cr] by metis
  moreover have "fold parse_line ?ls st = fold parse_directive (concat (map rendered_directives gs)) st" for st
    using assms by (induction gs arbitrary: st) (simp_all add: parse_rendered_lines)
  ultimately have "parse_groups (concat (map render_group gs)) = flushed (fold parse_directive (concat (map rendered_directives gs)) ?start)"
    by (simp add: parse_groups_def flushed_def Let_def)
  then show ?thesis
    using read_groups [OF _ assms, of ?start] by (simp add: settled_def flushed_def Let_def)
qed

text \<open>
  Two cases the parser gets wrong.  A group that allows everything (an empty \<^verbatim>\<open>Disallow\<close>) does not end,
  so the next group's rules apply to its agents as well; and since the whole user agent string is
  compared, a group that names the crawler by its product token is never chosen.
\<close>

lemma empty_disallow_merges_groups:
  "parse_groups (render_line ''User-agent'' ''friend'' @ render_line ''Disallow'' [] @
     render_line ''User-agent'' ''*'' @ render_line ''Disallow'' ''/'') = [([''friend'', ''*''], [''/''])]"
  by code_simp

lemma product_token_is_ignored:
  "is_allowed (robots_parse (render_line ''User-agent'' ''oag-crawler'' @ render_line ''Disallow'' ''/'')
     ''oag-crawler/0.1 (+https://github.com/webdawg/open-agent-graph)'') ''/private''"
  by code_simp

end
