(* ===== verification/Transfers.thy ===== *)
theory Transfers
  imports Access Peering Limiter
begin

text \<open>
  Fetching pinned content from another peer with a mutual receipt (\<^verbatim>\<open>oag-api/src/transfer.rs\<close>): the
  signed request and receipt, the record both sides write into their graphs, the server's handler
  with its rate limit, and the relay of a request the server cannot serve itself.  The IPFS
  provider, the HTTP client, the header encoding of a receipt and the random nonces are arguments.
  The graph service's clock is \<open>clock n\<close> at its \<open>n\<close>-th reading.
\<close>

section \<open>Messages\<close>

record unsigned_transfer_request =
  tr_cid :: string
  tr_client_peer_id :: string
  tr_client_public_key :: string
  tr_client_nonce :: string
  tr_requested_at :: i64
  tr_relay_hops_remaining :: "8 word"
  tr_relay_path :: "string list"

record transfer_request =
  tr_unsigned :: unsigned_transfer_request
  tr_signature :: string

record unsigned_transfer_receipt =
  rc_cid :: string
  rc_server_peer_id :: string
  rc_server_public_key :: string
  rc_client_nonce :: string
  rc_server_nonce :: string
  rc_content_hash :: string
  rc_receipt_hash :: string
  rc_served_at :: i64

record transfer_receipt =
  rc_unsigned :: unsigned_transfer_receipt
  rc_server_signature :: string

text \<open>The canonical and the plain JSON form of the messages, and which strings make a header value.\<close>

record 'vk exchange = "'vk wire" +
  jcs_transfer_request :: "unsigned_transfer_request \<Rightarrow> json_error + byte list"
  jcs_transfer_receipt :: "unsigned_transfer_receipt \<Rightarrow> json_error + byte list"
  receipt_to_json :: "transfer_receipt \<Rightarrow> json_error + string"
  receipt_from_json :: "string \<Rightarrow> json_error + transfer_receipt"
  header_value_ok :: "string \<Rightarrow> bool"

datatype ipfs_error = IpfsDisabled | IpfsHttp | IpfsEmptyResponse | IpfsEmbedded string

text \<open>\<open>TPanic\<close> is a call of \<^verbatim>\<open>expect\<close> or \<^verbatim>\<open>unreachable!\<close> that ends the request; the text of \<^verbatim>\<open>Internal\<close> is left out.\<close>

datatype transfer_error =
    TPeerId peer_id_parse_error
  | TInvalidPublicKey
  | TPeerIdKeyMismatch
  | TInvalidNonce
  | TBadSignatureEncoding
  | TBadSignature
  | TReceiptMismatch
  | TClockSkew
  | TProviderDisabled
  | TIpfs ipfs_error
  | TRateLimited
  | TGraph graph_error
  | TInternal
  | TRelayFailed
  | TPanic

definition TRANSFER_REQUEST_DOMAIN :: string where "TRANSFER_REQUEST_DOMAIN = ''OAG:TRANSFER_REQUEST:v1:''"
definition TRANSFER_RECEIPT_DOMAIN :: string where "TRANSFER_RECEIPT_DOMAIN = ''OAG:TRANSFER_RECEIPT:v1:''"
definition SENT_TO_PREDICATE :: string where "SENT_TO_PREDICATE = ''sent_to''"

definition build_and_sign_request ::
  "('sk, 'vk, 'z) codec_scheme \<Rightarrow> ('vk, 'w) exchange_scheme \<Rightarrow> 'sk \<Rightarrow> string \<Rightarrow> byte list \<Rightarrow> i64 \<Rightarrow> 8 word
     \<Rightarrow> string list \<Rightarrow> transfer_error + transfer_request" where
  "build_and_sign_request C W identity cid client_nonce requested_at relay_hops_remaining relay_path =
     (let unsigned = \<lparr>tr_cid = cid, tr_client_peer_id = peer_id_to_string C (identity_peer_id C identity),
                      tr_client_public_key = hex_encode C (key_bytes C (verifying_key C identity)),
                      tr_client_nonce = hex_encode C client_nonce, tr_requested_at = requested_at,
                      tr_relay_hops_remaining = relay_hops_remaining, tr_relay_path = relay_path\<rparr> in
      res_bind (res_map_err (\<lambda>_. TPanic) (jcs_transfer_request W unsigned)) (\<lambda>canonical.
        Inr \<lparr>tr_unsigned = unsigned,
             tr_signature = hex_encode C (sign_with_domain C identity TRANSFER_REQUEST_DOMAIN canonical)\<rparr>))"

definition verify_request ::
  "('sk, 'vk, 'z) codec_scheme \<Rightarrow> ('vk, 'w) exchange_scheme \<Rightarrow> transfer_request \<Rightarrow> i64
     \<Rightarrow> transfer_error + peer_id \<times> byte list" where
  "verify_request C W req now =
     res_bind (res_map_err TPeerId (peer_id_from_str C (tr_client_peer_id (tr_unsigned req)))) (\<lambda>p.
     res_bind (ok_or TInvalidPublicKey (decode_hex_array C 32 (tr_client_public_key (tr_unsigned req)))) (\<lambda>pk_bytes.
     res_bind (ok_or TInvalidPublicKey (vk_from_bytes W pk_bytes)) (\<lambda>vk.
     if p \<noteq> peer_id_from_public_key C vk then Inl TPeerIdKeyMismatch else
     res_bind (res_map_err (\<lambda>_. TInternal) (jcs_transfer_request W (tr_unsigned req))) (\<lambda>canonical.
     res_bind (ok_or TBadSignatureEncoding (decode_hex_array C 64 (tr_signature req))) (\<lambda>signature.
     if \<not> verify_with_domain C vk TRANSFER_REQUEST_DOMAIN canonical signature then Inl TBadSignature else
     if sint (i64_abs (tr_requested_at (tr_unsigned req) - now)) > sint MAX_CLOCK_SKEW_SECONDS then Inl TClockSkew else
     res_bind (ok_or TInvalidNonce (decode_hex_array C 32 (tr_client_nonce (tr_unsigned req)))) (\<lambda>client_nonce.
       Inr (p, client_nonce)))))))"

definition build_and_sign_receipt ::
  "('sk, 'vk, 'z) codec_scheme \<Rightarrow> ('vk, 'w) exchange_scheme \<Rightarrow> 'sk \<Rightarrow> string \<Rightarrow> byte list \<Rightarrow> byte list \<Rightarrow> string
     \<Rightarrow> i64 \<Rightarrow> transfer_error + transfer_receipt" where
  "build_and_sign_receipt C W identity cid client_nonce server_nonce content_hash served_at =
     (let unsigned = \<lparr>rc_cid = cid, rc_server_peer_id = peer_id_to_string C (identity_peer_id C identity),
                      rc_server_public_key = hex_encode C (key_bytes C (verifying_key C identity)),
                      rc_client_nonce = hex_encode C client_nonce, rc_server_nonce = hex_encode C server_nonce,
                      rc_content_hash = content_hash,
                      rc_receipt_hash = mutual_receipt_hash C client_nonce server_nonce content_hash,
                      rc_served_at = served_at\<rparr> in
      res_bind (res_map_err (\<lambda>_. TPanic) (jcs_transfer_receipt W unsigned)) (\<lambda>canonical.
        Inr \<lparr>rc_unsigned = unsigned,
             rc_server_signature = hex_encode C (sign_with_domain C identity TRANSFER_RECEIPT_DOMAIN canonical)\<rparr>))"

definition verify_receipt ::
  "('sk, 'vk, 'z) codec_scheme \<Rightarrow> ('vk, 'w) exchange_scheme \<Rightarrow> transfer_receipt \<Rightarrow> string \<Rightarrow> byte list \<Rightarrow> i64
     \<Rightarrow> transfer_error + peer_id" where
  "verify_receipt C W receipt expected_cid expected_client_nonce now =
     (if rc_cid (rc_unsigned receipt) \<noteq> expected_cid then Inl TReceiptMismatch
      else if decode_hex_array C 32 (rc_client_nonce (rc_unsigned receipt)) \<noteq> Some expected_client_nonce
      then Inl TReceiptMismatch else
     res_bind (res_map_err TPeerId (peer_id_from_str C (rc_server_peer_id (rc_unsigned receipt)))) (\<lambda>p.
     res_bind (ok_or TInvalidPublicKey (decode_hex_array C 32 (rc_server_public_key (rc_unsigned receipt)))) (\<lambda>pk_bytes.
     res_bind (ok_or TInvalidPublicKey (vk_from_bytes W pk_bytes)) (\<lambda>vk.
     if p \<noteq> peer_id_from_public_key C vk then Inl TPeerIdKeyMismatch else
     res_bind (res_map_err (\<lambda>_. TInternal) (jcs_transfer_receipt W (rc_unsigned receipt))) (\<lambda>canonical.
     res_bind (ok_or TBadSignatureEncoding (decode_hex_array C 64 (rc_server_signature receipt))) (\<lambda>signature.
     if \<not> verify_with_domain C vk TRANSFER_RECEIPT_DOMAIN canonical signature then Inl TBadSignature else
     if sint (i64_abs (rc_served_at (rc_unsigned receipt) - now)) > sint MAX_CLOCK_SKEW_SECONDS then Inl TClockSkew else
     res_bind (ok_or TInvalidNonce (decode_hex_array C 32 (rc_server_nonce (rc_unsigned receipt)))) (\<lambda>server_nonce.
     if mutual_receipt_hash C expected_client_nonce server_nonce (rc_content_hash (rc_unsigned receipt))
        \<noteq> rc_receipt_hash (rc_unsigned receipt)
     then Inl TReceiptMismatch else Inr p)))))))"

section \<open>Recording a transfer\<close>

text \<open>\<open>None\<close> is the branch of \<open>declare_actor\<close> that the code marks \<^verbatim>\<open>unreachable!\<close>.\<close>

definition transfer_claim :: "('sk, 'vk, 'u, 'z) service_scheme \<Rightarrow> peer_id \<Rightarrow> peer_id \<Rightarrow> i64 \<Rightarrow> extraction_method \<Rightarrow> assert_input" where
  "transfer_claim C server client served_at method =
     \<lparr>in_subject = ''peer:'' @ peer_id_to_string C server, in_subject_type = Some ''peer'',
      in_predicate = SENT_TO_PREDICATE,
      in_object = ''peer:'' @ peer_id_to_string C client, in_object_type = Some ''peer'',
      in_evidence = [], in_actor_confidence = None, in_observed_at = Some (sint served_at),
      in_extraction_method = Some method\<rparr>"

definition transfer_metadata ::
  "('sk, 'vk, 'u, 'z) service_scheme \<Rightarrow> nat \<Rightarrow> string \<Rightarrow> peer_id \<Rightarrow> string \<Rightarrow> string \<Rightarrow> string \<Rightarrow> peer_id option \<Rightarrow> json" where
  "transfer_metadata C byte_size peer_role counterparty client_nonce_hex server_nonce_hex receipt_hash relayed_via =
     (let fields = [''protocol'' \<mapsto> JString ''oag-transfer-v1'', ''byte_size'' \<mapsto> JNumber (nat_to_string byte_size),
                    ''peer_role'' \<mapsto> JString peer_role,
                    ''counterparty_peer_id'' \<mapsto> JString (peer_id_to_string C counterparty),
                    ''client_nonce'' \<mapsto> JString client_nonce_hex, ''server_nonce'' \<mapsto> JString server_nonce_hex,
                    ''receipt_hash'' \<mapsto> JString receipt_hash]
      in JObject (case relayed_via of
                    None \<Rightarrow> fields
                  | Some via \<Rightarrow> fields(''relayed_via'' \<mapsto> JString (peer_id_to_string C via))))"

record receipt_fields =
  rf_cid :: string
  rf_byte_size :: nat
  rf_client_nonce :: string
  rf_server_nonce :: string
  rf_content_hash :: string
  rf_receipt_hash :: string
  rf_served_at :: i64

definition record_transfer_svc ::
  "('sk, 'vk, 'u, 'z) service_scheme \<Rightarrow> 'sk \<Rightarrow> peer_id \<Rightarrow> peer_id \<Rightarrow> receipt_fields \<Rightarrow> string \<Rightarrow> extraction_method
     \<Rightarrow> peer_id option \<Rightarrow> (nat \<Rightarrow> int) \<Rightarrow> assertion_id option svc" where
  "record_transfer_svc C identity server client f peer_role method relayed_via clock =
     svc_bind (svc_check (sign_actor_key_proof C identity Peer None None)) (\<lambda>proof.
     svc_bind (declare_actor C identity Peer None None (Some proof) (clock 0)) (\<lambda>declared.
     case declared of
       None \<Rightarrow> svc_check (Inr None)
     | Some actor \<Rightarrow>
         let auth = \<lparr>auth_actor_id = actor, auth_permissions = [GraphAssert]\<rparr>;
             counterparty = (if peer_role = ''server'' then client else server) in
         svc_bind (assert_relation C identity auth (transfer_claim C server client (rf_served_at f) method)
                     (\<lambda>n. clock (Suc n))) (\<lambda>assertion_id.
         svc_bind (add_evidence C identity auth assertion_id
             \<lparr>ei_evidence_type = Some ''service_receipt'', ei_uri = None, ei_title = None, ei_excerpt = None,
              ei_content_hash = Some (rf_content_hash f), ei_observed_at = Some (sint (rf_served_at f)),
              ei_retrieved_at = None, ei_pinned_cid = Some (rf_cid f),
              ei_metadata = Some (transfer_metadata C (rf_byte_size f) peer_role counterparty (rf_client_nonce f)
                (rf_server_nonce f) (rf_receipt_hash f) relayed_via)\<rparr> (clock 2)) (\<lambda>_.
           svc_check (Inr (Some assertion_id))))))"

definition record_transfer ::
  "('sk, 'vk, 'u, 'z) service_scheme \<Rightarrow> 'sk \<Rightarrow> peer_id \<Rightarrow> peer_id \<Rightarrow> receipt_fields \<Rightarrow> string \<Rightarrow> extraction_method
     \<Rightarrow> peer_id option \<Rightarrow> (nat \<Rightarrow> int) \<Rightarrow> db \<Rightarrow> (transfer_error + assertion_id) \<times> db" where
  "record_transfer C identity server client f peer_role method relayed_via clock d =
     (case record_transfer_svc C identity server client f peer_role method relayed_via clock d of
        (Inl e, d') \<Rightarrow> (Inl (TGraph e), d')
      | (Inr None, d') \<Rightarrow> (Inl TPanic, d')
      | (Inr (Some i), d') \<Rightarrow> (Inr i, d'))"

section \<open>The client\<close>

record relay_peer =
  rp_address :: string
  rp_peer_id :: peer_id

record verified_fetch =
  vf_content :: "byte list"
  vf_content_hash :: string
  vf_receipt_hash :: string
  vf_server_peer_id :: peer_id

text \<open>
  What comes back over HTTP: whether the status is a success, the receipt header (\<open>None\<close> when absent
  or not visible ASCII) and the body (\<open>None\<close> when reading it fails).
\<close>

record transfer_reply =
  tp_success :: bool
  tp_receipt :: "string option"
  tp_content :: "byte list option"

type_synonym transfer_post = "string \<Rightarrow> transfer_request \<Rightarrow> transfer_reply option"

definition trim_end_slashes :: "string \<Rightarrow> string" where
  "trim_end_slashes s = rev (dropWhile (\<lambda>c. c = CHR ''/'') (rev s))"

definition transfer_url :: "string \<Rightarrow> string" where
  "transfer_url address = trim_end_slashes address @ ''/oag/transfer/v1/fetch''"

text \<open>The checks of \<^verbatim>\<open>fetch_and_verify\<close> on a reply, before anything is written.\<close>

definition check_reply ::
  "('sk, 'vk, 'z) codec_scheme \<Rightarrow> ('vk, 'w) exchange_scheme \<Rightarrow> peer_id \<Rightarrow> string \<Rightarrow> byte list \<Rightarrow> i64 \<Rightarrow> transfer_reply option
     \<Rightarrow> transfer_error + byte list \<times> unsigned_transfer_receipt" where
  "check_reply C W expected_server cid client_nonce now reply =
     res_bind (ok_or TInternal reply) (\<lambda>response.
     if \<not> tp_success response then Inl TInternal else
     res_bind (ok_or TInternal (tp_receipt response)) (\<lambda>header.
     res_bind (res_map_err (\<lambda>_. TInternal) (receipt_from_json W header)) (\<lambda>receipt.
     res_bind (ok_or TInternal (tp_content response)) (\<lambda>content.
     if blake3_content_hash C content \<noteq> rc_content_hash (rc_unsigned receipt) then Inl TReceiptMismatch else
     res_bind (verify_receipt C W receipt cid client_nonce now) (\<lambda>verified.
     if verified \<noteq> expected_server then Inl TPeerIdKeyMismatch
     else Inr (content, rc_unsigned receipt))))))"

definition fetch_and_verify ::
  "('sk, 'vk, 'u, 'z) service_scheme \<Rightarrow> ('vk, 'w) exchange_scheme \<Rightarrow> transfer_post \<Rightarrow> 'sk \<Rightarrow> string \<Rightarrow> peer_id \<Rightarrow> string
     \<Rightarrow> 8 word \<Rightarrow> string list \<Rightarrow> byte list \<Rightarrow> i64 \<Rightarrow> i64 \<Rightarrow> (nat \<Rightarrow> int) \<Rightarrow> db
     \<Rightarrow> (transfer_error + verified_fetch) \<times> db" where
  "fetch_and_verify C W post identity address expected_server cid hops path client_nonce requested_at now clock d =
     (case res_bind (build_and_sign_request C W identity cid client_nonce requested_at hops path) (\<lambda>request.
             check_reply C W expected_server cid client_nonce now (post (transfer_url address) request)) of
        Inl e \<Rightarrow> (Inl e, d)
      | Inr (content, receipt) \<Rightarrow>
          (case record_transfer C identity expected_server (identity_peer_id C identity)
                  \<lparr>rf_cid = cid, rf_byte_size = length content, rf_client_nonce = hex_encode C client_nonce,
                   rf_server_nonce = rc_server_nonce receipt, rf_content_hash = rc_content_hash receipt,
                   rf_receipt_hash = rc_receipt_hash receipt, rf_served_at = rc_served_at receipt\<rparr>
                  ''client'' Verification None clock d of
             (Inl e, d') \<Rightarrow> (Inl e, d')
           | (Inr _, d') \<Rightarrow>
               (Inr \<lparr>vf_content = content, vf_content_hash = rc_content_hash receipt,
                     vf_receipt_hash = rc_receipt_hash receipt, vf_server_peer_id = expected_server\<rparr>, d')))"

section \<open>The server\<close>

text \<open>
  What the environment supplies to the \<open>n\<close>-th attempt of a relay: the reply, the nonce drawn, the
  times of request and check, and the graph service's clock.
\<close>

record attempt =
  at_post :: transfer_post
  at_nonce :: "byte list"
  at_requested_at :: i64
  at_now :: i64
  at_clock :: "nat \<Rightarrow> int"

text \<open>A failed attempt is logged and the next peer tried; a panic ends the request.\<close>

fun relay_loop ::
  "('sk, 'vk, 'u, 'z) service_scheme \<Rightarrow> ('vk, 'w) exchange_scheme \<Rightarrow> (nat \<Rightarrow> attempt) \<Rightarrow> 'sk \<Rightarrow> string \<Rightarrow> 8 word
     \<Rightarrow> string list \<Rightarrow> nat \<Rightarrow> relay_peer list \<Rightarrow> db \<Rightarrow> (transfer_error + verified_fetch option) \<times> db" where
  "relay_loop C W env identity cid hops next_path n [] d = (Inr None, d)"
| "relay_loop C W env identity cid hops next_path n (rp # rps) d =
     (if peer_id_to_string C (rp_peer_id rp) \<in> set next_path
      then relay_loop C W env identity cid hops next_path n rps d
      else case fetch_and_verify C W (at_post (env n)) identity (rp_address rp) (rp_peer_id rp) cid hops next_path
                  (at_nonce (env n)) (at_requested_at (env n)) (at_now (env n)) (at_clock (env n)) d of
             (Inr verified, d') \<Rightarrow> (Inr (Some verified), d')
           | (Inl e, d') \<Rightarrow>
               if e = TPanic then (Inl TPanic, d')
               else relay_loop C W env identity cid hops next_path (Suc n) rps d')"

definition relay_fetch ::
  "('sk, 'vk, 'u, 'z) service_scheme \<Rightarrow> ('vk, 'w) exchange_scheme \<Rightarrow> (nat \<Rightarrow> attempt) \<Rightarrow> 'sk \<Rightarrow> relay_peer list
     \<Rightarrow> transfer_request \<Rightarrow> db \<Rightarrow> (transfer_error + verified_fetch option) \<times> db" where
  "relay_fetch C W env identity relay_peers req d =
     (if tr_relay_hops_remaining (tr_unsigned req) = 0 \<or> relay_peers = [] then (Inr None, d)
      else relay_loop C W env identity (tr_cid (tr_unsigned req)) (tr_relay_hops_remaining (tr_unsigned req) - 1)
             (tr_relay_path (tr_unsigned req) @ [peer_id_to_string C (identity_peer_id C identity)])
             0 relay_peers d)"

record 'sk transfer_state =
  ts_identity :: 'sk
  ts_provider :: "(string \<Rightarrow> ipfs_error + byte list) option"
  ts_relay_peers :: "relay_peer list"
  ts_limiter :: rate_limiter
  ts_db :: db

definition local_or_relayed ::
  "('sk, 'vk, 'u, 'z) service_scheme \<Rightarrow> ('vk, 'w) exchange_scheme \<Rightarrow> (nat \<Rightarrow> attempt) \<Rightarrow> transfer_request
     \<Rightarrow> 'sk transfer_state \<Rightarrow> (transfer_error + byte list \<times> peer_id option) \<times> db" where
  "local_or_relayed C W env req st =
     (case ts_provider st of
        None \<Rightarrow> (Inl TProviderDisabled, ts_db st)
      | Some fetch \<Rightarrow>
          (case fetch (tr_cid (tr_unsigned req)) of
             Inr bytes \<Rightarrow> (Inr (bytes, None), ts_db st)
           | Inl IpfsDisabled \<Rightarrow> (Inl TProviderDisabled, ts_db st)
           | Inl local_err \<Rightarrow>
               (case relay_fetch C W env (ts_identity st) (ts_relay_peers st) req (ts_db st) of
                  (Inl e, d') \<Rightarrow> (Inl e, d')
                | (Inr (Some verified), d') \<Rightarrow> (Inr (vf_content verified, Some (vf_server_peer_id verified)), d')
                | (Inr None, d') \<Rightarrow>
                    (if ts_relay_peers st = [] \<or> tr_relay_hops_remaining (tr_unsigned req) = 0
                     then (Inl (TIpfs local_err), d') else (Inl TRelayFailed, d')))))"

definition fetch_with_receipt ::
  "('sk, 'vk, 'u, 'z) service_scheme \<Rightarrow> ('vk, 'w) exchange_scheme \<Rightarrow> (nat \<Rightarrow> attempt) \<Rightarrow> byte list \<Rightarrow> i64 \<Rightarrow> instant
     \<Rightarrow> (nat \<Rightarrow> int) \<Rightarrow> transfer_request \<Rightarrow> 'sk transfer_state
     \<Rightarrow> (transfer_error + string \<times> byte list) \<times> 'sk transfer_state" where
  "fetch_with_receipt C W env server_nonce now arrived clock req st =
     (case verify_request C W req now of
        Inl e \<Rightarrow> (Inl e, st)
      | Inr (client, client_nonce) \<Rightarrow>
     (case check arrived (peer_id_to_string C client) (ts_limiter st) of (ok, limiter') \<Rightarrow>
      let st1 = st\<lparr>ts_limiter := limiter'\<rparr> in
      if \<not> ok then (Inl TRateLimited, st1)
      else case local_or_relayed C W env req st1 of
        (Inl e, d1) \<Rightarrow> (Inl e, st1\<lparr>ts_db := d1\<rparr>)
      | (Inr (content, relayed_via), d1) \<Rightarrow>
     (let content_hash = blake3_content_hash C content;
          st2 = st1\<lparr>ts_db := d1\<rparr>;
          identity = ts_identity st in
      case build_and_sign_receipt C W identity (tr_cid (tr_unsigned req)) client_nonce server_nonce content_hash now of
        Inl e \<Rightarrow> (Inl e, st2)
      | Inr receipt \<Rightarrow>
     (case record_transfer C identity (identity_peer_id C identity) client
             \<lparr>rf_cid = tr_cid (tr_unsigned req), rf_byte_size = length content,
              rf_client_nonce = tr_client_nonce (tr_unsigned req), rf_server_nonce = hex_encode C server_nonce,
              rf_content_hash = content_hash, rf_receipt_hash = rc_receipt_hash (rc_unsigned receipt),
              rf_served_at = rc_served_at (rc_unsigned receipt)\<rparr>
             ''server'' Direct relayed_via clock d1 of
        (Inl e, d2) \<Rightarrow> (Inl e, st2\<lparr>ts_db := d2\<rparr>)
      | (Inr _, d2) \<Rightarrow>
          (case receipt_to_json W receipt of
             Inl _ \<Rightarrow> (Inl TInternal, st2\<lparr>ts_db := d2\<rparr>)
           | Inr json \<Rightarrow>
               (if header_value_ok W json then Inr (json, content) else Inl TInternal, st2\<lparr>ts_db := d2\<rparr>))))))"

section \<open>Signed requests and receipts\<close>

interpretation request_claim: signed_claim C W TRANSFER_REQUEST_DOMAIN
  "\<lambda>r. tr_client_peer_id (tr_unsigned r)" "\<lambda>r. tr_client_public_key (tr_unsigned r)" tr_signature
  "\<lambda>r. jcs_transfer_request W (tr_unsigned r)" "\<lambda>r. tr_requested_at (tr_unsigned r)"
  "\<lambda>r now p. \<exists>n. verify_request C W r now = Inr (p, n)"
  "\<lambda>r. decode_hex_array C 32 (tr_client_nonce (tr_unsigned r)) \<noteq> None"
  "\<lambda>k (cid, nonce, hops, path) t. build_and_sign_request C W k cid nonce t hops path"
  for C :: "('sk, 'vk, 'z) codec_scheme" and W :: "('vk, 'w) exchange_scheme"
  by unfold_locales
    (auto simp: verify_request_def vouched_def build_and_sign_request_def Let_def split: if_splits)

text \<open>A receipt fits an exchange: it names the content and the nonce of the request, and its hash binds both nonces to the content.\<close>

definition receipt_fits ::
  "('sk, 'vk, 'z) crypto_scheme \<Rightarrow> string \<Rightarrow> byte list \<Rightarrow> unsigned_transfer_receipt \<Rightarrow> bool" where
  "receipt_fits C cid client_nonce r \<longleftrightarrow>
     rc_cid r = cid \<and> decode_hex_array C 32 (rc_client_nonce r) = Some client_nonce \<and>
     (\<exists>server_nonce. decode_hex_array C 32 (rc_server_nonce r) = Some server_nonce \<and>
        rc_receipt_hash r = mutual_receipt_hash C client_nonce server_nonce (rc_content_hash r))"

interpretation receipt_claim: signed_claim C W TRANSFER_RECEIPT_DOMAIN
  "\<lambda>r. rc_server_peer_id (rc_unsigned r)" "\<lambda>r. rc_server_public_key (rc_unsigned r)" rc_server_signature
  "\<lambda>r. jcs_transfer_receipt W (rc_unsigned r)" "\<lambda>r. rc_served_at (rc_unsigned r)"
  "\<lambda>r now p. verify_receipt C W r cid client_nonce now = Inr p"
  "\<lambda>r. receipt_fits C cid client_nonce (rc_unsigned r)"
  "\<lambda>k (cid, client_nonce, server_nonce, content_hash) t. build_and_sign_receipt C W k cid client_nonce server_nonce content_hash t"
  for C :: "('sk, 'vk, 'z) codec_scheme" and W :: "('vk, 'w) exchange_scheme" and cid client_nonce
  by unfold_locales
    (auto simp: verify_receipt_def receipt_fits_def vouched_def build_and_sign_receipt_def Let_def split: if_splits)

section \<open>What is recorded\<close>

text \<open>The edge of a transfer, and the actor that a peer's own records are made by.\<close>

definition sent_edge :: "('sk, 'vk, 'u, 'z) service_scheme \<Rightarrow> peer_id \<Rightarrow> peer_id \<Rightarrow> edge_id" where
  "sent_edge C server client =
     edge_id_from_triple C
       (node_id_from_canonical_identifier C (fst (canonicalize_value C (''peer:'' @ peer_id_to_string C server))))
       (predicate_new SENT_TO_PREDICATE)
       (node_id_from_canonical_identifier C (fst (canonicalize_value C (''peer:'' @ peer_id_to_string C client))))"

definition peer_actor :: "('sk, 'vk, 'z) crypto_scheme \<Rightarrow> 'sk \<Rightarrow> actor_id" where
  "peer_actor C k = actor_id_derive C (str_bytes (hex_encode C (key_bytes C (verifying_key C k))))"

definition transfer_recorded ::
  "('sk, 'vk, 'u, 'z) service_scheme \<Rightarrow> 'sk \<Rightarrow> peer_id \<Rightarrow> peer_id \<Rightarrow> string \<Rightarrow> i64 \<Rightarrow> db \<Rightarrow> bool" where
  "transfer_recorded C k server client content_hash served_at d \<longleftrightarrow>
     (\<exists>i a row. assertions_get_by_id (graph d) i = Inr (Some a) \<and> assertion_edge_id a = sent_edge C server client \<and>
        assertion_actor_id a = peer_actor C k \<and> assertion_status a = Active \<and>
        assertion_observed_at a = Some (sint served_at) \<and> row \<in> set (evidences (graph d)) \<and>
        ev_assertion_id row = i \<and> ev_evidence_type row = ''service_receipt'' \<and> ev_content_hash row = Some content_hash)"

lemma declare_actor_with_key:
  assumes "declare_actor C k ty name uri (Some proof) t d = (Inr a, d')"
  shows "a = Some (actor_id_derive C (str_bytes (hex_encode C (pk_public_key proof))))"
proof -
  obtain pk eid out where key: "check_key_proof C ty name uri proof = Inr pk"
    and commit: "commit_local_event C k (ActorDeclare \<lparr>adc_actor_type = actor_type_as_str ty, adc_name = name,
        adc_public_key = Some pk, adc_identity_uri = uri\<rparr>) t d = (Inr (eid, out), d')"
    and a: "a = (case out of ActorDeclared a \<Rightarrow> Some a | Unit \<Rightarrow> None)"
    using assms unfolding declare_actor_def
    by (auto simp: svc_check_def commit_event_Inr transpose_opt_def split: sum.splits elim!: svc_bind_InrE)
  have "pk = hex_encode C (pk_public_key proof)"
    using key by (auto simp: check_key_proof_def split: sum.splits json_error.splits if_splits)
  moreover from commit obtain refs where "project_graph C eid t (ActorDeclare \<lparr>adc_actor_type = actor_type_as_str ty,
      adc_name = name, adc_public_key = Some pk, adc_identity_uri = uri\<rparr>) (graph d) = Inr (out, graph d', refs)"
    by (rule commit_projects)
  then have "out = ActorDeclared (actor_id_derive C (str_bytes pk))"
    by (auto simp: project_graph_def project_actor_declare_def Let_def)
  ultimately show ?thesis using a by simp
qed

lemma insert_evidence_row:
  "insert_evidence e g = Inr g' \<Longrightarrow> assertions g' = assertions g \<and>
    (\<exists>row. evidences g' = evidences g @ [row] \<and> ev_assertion_id row = evidence_assertion_id e \<and>
      ev_evidence_type row = evidence_type_as_str (evidence_type e) \<and> ev_content_hash row = evidence_content_hash e)"
  by (auto simp: insert_evidence_def split: if_splits)

lemma add_evidence_reads:
  assumes "hex_codec C" "length (event_hash i) = 32" "add_evidence C k auth i e t d = (Inr u, d')"
  shows "assertions (graph d') = assertions (graph d) \<and>
    (\<exists>row. evidences (graph d') = evidences (graph d) @ [row] \<and> ev_assertion_id row = i \<and>
      ev_evidence_type row = (case ei_evidence_type e of Some s \<Rightarrow> s | None \<Rightarrow> ''other'') \<and>
      ev_content_hash row = ei_content_hash e)"
proof -
  have "add_evidence_internal C k i e t d = (Inr u, d')"
    using assms(3) by (auto simp: add_evidence_def svc_check_def elim!: svc_bind_InrE)
  then show ?thesis
    unfolding add_evidence_internal_def
  proof (rule commit_then_unit)
    fix eid out refs
    assume "project_graph C eid t (AddEvidence
        \<lparr>ade_assertion_id = event_id_to_hex C i,
         ade_evidence_type = (case ei_evidence_type e of Some s \<Rightarrow> s | None \<Rightarrow> ''other''),
         ade_uri = ei_uri e, ade_title = ei_title e, ade_excerpt = ei_excerpt e,
         ade_content_hash = ei_content_hash e, ade_observed_at = ei_observed_at e,
         ade_retrieved_at = ei_retrieved_at e, ade_pinned_cid = ei_pinned_cid e,
         ade_metadata = ei_metadata e\<rparr>) (graph d) = Inr (out, graph d', refs)"
    then obtain kind ev where "insert_evidence ev (graph d) = Inr (graph d')" "evidence_assertion_id ev = i"
      "evidence_type_as_str kind = (case ei_evidence_type e of Some s \<Rightarrow> s | None \<Rightarrow> ''other'')"
      "evidence_type ev = kind" "evidence_content_hash ev = ei_content_hash e"
      using event_id_round_trip [OF assms(1,2)]
      by (auto simp: project_graph_def project_add_evidence_def evidence_kind.parse_Some_iff)
    then show ?thesis using insert_evidence_row by metis
  qed
qed

lemma commit_id_length:
  assumes "codecs_ok C" "commit_local_event C k pl t d = (Inr (eid, out), d')"
  shows "length (event_hash eid) = 32"
proof -
  obtain s prev where np: "next_position d (identity_peer_id C k) = (s, prev)" by fastforce
  then obtain sev where "build_and_sign C k s prev t pl = Inr (sev, eid)"
    using assms(2) by (auto simp: commit_local_event_def transaction_def commit_body_def Let_def split: prod.splits sum.splits if_splits)
  then show ?thesis
    by (rule build_and_sign_fields) (use assms(1) in \<open>simp add: event_id_derive_length codecs_ok_def\<close>)
qed

lemma record_transfer_effect:
  assumes "codecs_ok C" and "record_transfer C k server client f role method via clock d = (r, d')"
  shows "r \<noteq> Inl TPanic"
    and "r = Inr i \<Longrightarrow> transfer_recorded C k server client (rf_content_hash f) (rf_served_at f) d'"
proof -
  have ok: "hex_codec C" "blake3_digest C" using assms(1) by (simp_all add: codecs_ok_def)
  let ?svc = "record_transfer_svc C k server client f role method via clock d"
  have actor: "pk_public_key pf = key_bytes C (verifying_key C k)" if "sign_actor_key_proof C k Peer None None = Inr pf" for pf
    using that by (auto simp: sign_actor_key_proof_def split: sum.splits json_error.splits)
  have "?svc \<noteq> (Inr None, d'')" for d''
  proof
    assume "?svc = (Inr None, d'')"
    then obtain pf declared d1 where "declare_actor C k Peer None None (Some pf) (clock 0) d = (Inr declared, d1)"
      and none: "(case declared of None \<Rightarrow> True | Some a \<Rightarrow> False)"
      unfolding record_transfer_svc_def
      by (auto simp: svc_check_def Let_def elim!: svc_bind_InrE split: option.splits)
    then show False using declare_actor_with_key [of C k Peer None None] by fastforce
  qed
  then show "r \<noteq> Inl TPanic"
    using assms(2) by (auto simp: record_transfer_def split: prod.splits sum.splits option.splits)
  assume "r = Inr i"
  then have "?svc = (Inr (Some i), d')"
    using assms(2) by (auto simp: record_transfer_def split: prod.splits sum.splits option.splits)
  then obtain pf a d1 d2 e u where key: "sign_actor_key_proof C k Peer None None = Inr pf"
    and decl: "declare_actor C k Peer None None (Some pf) (clock 0) d = (Inr (Some a), d1)"
    and claim: "assert_relation C k \<lparr>auth_actor_id = a, auth_permissions = [GraphAssert]\<rparr>
        (transfer_claim C server client (rf_served_at f) method) (\<lambda>n. clock (Suc n)) d1 = (Inr i, d2)"
    and add: "add_evidence C k \<lparr>auth_actor_id = a, auth_permissions = [GraphAssert]\<rparr> i e (clock 2) d2 = (Inr u, d')"
    and e: "ei_evidence_type e = Some ''service_receipt''" "ei_content_hash e = Some (rf_content_hash f)"
    unfolding record_transfer_svc_def
    by (auto simp: svc_check_def Let_def elim!: svc_bind_InrE split: option.splits)
  have a: "a = peer_actor C k" using declare_actor_with_key [OF decl] actor [OF key] by (simp add: peer_actor_def)
  then have "length (actor_hash a) = 32"
    using ok(2) by (simp add: peer_actor_def actor_id_derive_def hash32_derive_def blake3_digest_def)
  with assert_relation_reads [OF ok(1) _ claim] a
  have read: "\<exists>a'. assertions_get_by_id (graph d2) i = Inr (Some a') \<and> assertion_edge_id a' = sent_edge C server client \<and>
      assertion_actor_id a' = peer_actor C k \<and> assertion_status a' = Active \<and>
      assertion_observed_at a' = Some (sint (rf_served_at f))"
    by (simp add: transfer_claim_def sent_edge_def)
  have "length (event_hash i) = 32"
    using claim by (auto simp: assert_relation_def svc_check_def commit_event_Inr elim!: svc_bind_InrE
        dest!: commit_id_length [OF assms(1)])
  from add_evidence_reads [OF ok(1) this add] e
  obtain row where same: "assertions (graph d') = assertions (graph d2)"
    and row: "evidences (graph d') = evidences (graph d2) @ [row]" "ev_assertion_id row = i"
      "ev_evidence_type row = ''service_receipt''" "ev_content_hash row = Some (rf_content_hash f)"
    by auto
  from read get_by_id_cong [OF same] row show "transfer_recorded C k server client (rf_content_hash f) (rf_served_at f) d'"
    unfolding transfer_recorded_def by fastforce
qed

section \<open>The exchange\<close>

lemma decode_encoded: "hex_codec C \<Longrightarrow> length b = n \<Longrightarrow> decode_hex_array C n (hex_encode C b) = Some b"
  by (simp add: decode_hex_array_def hex_codec_def)

lemma built_request_verified:
  assumes "codecs_ok C" "length client_nonce = 32"
    and "build_and_sign_request C W k cid client_nonce t hops path = Inr req"
    and "verify_request C W req now = Inr (p, n)"
  shows "p = identity_peer_id C k" "n = client_nonce" "tr_cid (tr_unsigned req) = cid"
proof -
  have ok: "hex_codec C" "base32_codec C" "blake3_digest C" using assms(1) by (simp_all add: codecs_ok_def)
  have req: "tr_client_peer_id (tr_unsigned req) = peer_id_to_string C (identity_peer_id C k)"
    "tr_client_nonce (tr_unsigned req) = hex_encode C client_nonce" "tr_cid (tr_unsigned req) = cid"
    using assms(3) by (auto simp: build_and_sign_request_def Let_def)
  then have "peer_id_from_str C (tr_client_peer_id (tr_unsigned req)) = Inr (identity_peer_id C k)"
    "decode_hex_array C 32 (tr_client_nonce (tr_unsigned req)) = Some client_nonce"
    using ok assms(2) by (simp_all add: peer_id_round_trip identity_peer_id_length decode_encoded)
  then show "p = identity_peer_id C k" "n = client_nonce" "tr_cid (tr_unsigned req) = cid"
    using assms(4) req(3) by (auto simp: verify_request_def split: if_splits)
qed

lemma built_receipt_fits:
  assumes "hex_codec C" "length client_nonce = 32" "length server_nonce = 32"
    and "build_and_sign_receipt C W k cid client_nonce server_nonce content_hash t = Inr receipt"
  shows "receipt_fits C cid client_nonce (rc_unsigned receipt)"
    and "rc_content_hash (rc_unsigned receipt) = content_hash" "rc_served_at (rc_unsigned receipt) = t"
  using assms by (auto simp: build_and_sign_receipt_def receipt_fits_def decode_encoded Let_def)

text \<open>What a served request leaves behind: a receipt that was built for it and the server's record.\<close>

lemma fetch_with_receipt_served:
  assumes "codecs_ok C" and "fetch_with_receipt C W env server_nonce now arrived clock req st = (Inr (json, content), st')"
  obtains client client_nonce receipt where "verify_request C W req now = Inr (client, client_nonce)"
    "build_and_sign_receipt C W (ts_identity st) (tr_cid (tr_unsigned req)) client_nonce server_nonce
       (blake3_content_hash C content) now = Inr receipt"
    "receipt_to_json W receipt = Inr json"
    "transfer_recorded C (ts_identity st) (identity_peer_id C (ts_identity st)) client (blake3_content_hash C content)
       now (ts_db st')"
proof -
  from assms(2) obtain client client_nonce via receipt f d1 i where
    v: "verify_request C W req now = Inr (client, client_nonce)"
    and b: "build_and_sign_receipt C W (ts_identity st) (tr_cid (tr_unsigned req)) client_nonce server_nonce
       (blake3_content_hash C content) now = Inr receipt"
    and j: "receipt_to_json W receipt = Inr json"
    and rec: "record_transfer C (ts_identity st) (identity_peer_id C (ts_identity st)) client f ''server'' Direct via clock d1
        = (Inr i, ts_db st')"
    and f: "rf_content_hash f = blake3_content_hash C content" "rf_served_at f = rc_served_at (rc_unsigned receipt)"
    unfolding fetch_with_receipt_def
    by (fastforce simp: Let_def split: sum.splits prod.splits if_splits)
  have "rc_served_at (rc_unsigned receipt) = now" using b by (auto simp: build_and_sign_receipt_def Let_def)
  then show thesis using that [OF v b j] record_transfer_effect(2) [OF assms(1) rec refl] f by simp
qed

lemma fetch_and_verify_cases:
  assumes "fetch_and_verify C W post k address server cid hops path client_nonce t now clock d = (r, d')"
  obtains (refused) e where "r = Inl e" "d' = d"
      "res_bind (build_and_sign_request C W k cid client_nonce t hops path) (\<lambda>request.
         check_reply C W server cid client_nonce now (post (transfer_url address) request)) = Inl e"
  | (checked) req content receipt f rr where
      "build_and_sign_request C W k cid client_nonce t hops path = Inr req"
      "check_reply C W server cid client_nonce now (post (transfer_url address) req) = Inr (content, receipt)"
      "record_transfer C k server (identity_peer_id C k) f ''client'' Verification None clock d = (rr, d')"
      "rf_content_hash f = rc_content_hash receipt" "rf_served_at f = rc_served_at receipt"
      "r = (case rr of Inl e \<Rightarrow> Inl e | Inr _ \<Rightarrow> Inr \<lparr>vf_content = content, vf_content_hash = rc_content_hash receipt,
              vf_receipt_hash = rc_receipt_hash receipt, vf_server_peer_id = server\<rparr>)"
proof (cases "res_bind (build_and_sign_request C W k cid client_nonce t hops path) (\<lambda>request.
    check_reply C W server cid client_nonce now (post (transfer_url address) request))")
  case (Inl e)
  then show thesis using assms refused by (auto simp: fetch_and_verify_def)
next
  case (Inr cr)
  obtain content receipt where cr: "cr = (content, receipt)" by fastforce
  from Inr obtain req where "build_and_sign_request C W k cid client_nonce t hops path = Inr req"
    "check_reply C W server cid client_nonce now (post (transfer_url address) req) = Inr (content, receipt)"
    by (auto simp: cr)
  note parts = this
  let ?f = "\<lparr>rf_cid = cid, rf_byte_size = length content, rf_client_nonce = hex_encode C client_nonce,
              rf_server_nonce = rc_server_nonce receipt, rf_content_hash = rc_content_hash receipt,
              rf_receipt_hash = rc_receipt_hash receipt, rf_served_at = rc_served_at receipt\<rparr>"
  obtain rr d1 where rec: "record_transfer C k server (identity_peer_id C k) ?f ''client'' Verification None clock d = (rr, d1)"
    by fastforce
  with assms Inr have "d1 = d'" and r: "r = (case rr of Inl e \<Rightarrow> Inl e | Inr _ \<Rightarrow> Inr \<lparr>vf_content = content,
      vf_content_hash = rc_content_hash receipt, vf_receipt_hash = rc_receipt_hash receipt, vf_server_peer_id = server\<rparr>)"
    by (auto simp: fetch_and_verify_def cr split: sum.splits)
  with checked [OF parts] rec show thesis by fastforce
qed

lemma check_reply_Inr:
  assumes "check_reply C W server cid client_nonce now reply = Inr (content, receipt)"
  obtains response header signed where "reply = Some response" "tp_success response" "tp_receipt response = Some header"
    "receipt_from_json W header = Inr signed" "rc_unsigned signed = receipt" "tp_content response = Some content"
    "blake3_content_hash C content = rc_content_hash receipt" "verify_receipt C W signed cid client_nonce now = Inr server"
  using assms by (auto simp: check_reply_def split: if_splits)

end
