(* ===== verification/Exchange.thy ===== *)
theory Exchange
  imports Transfers Network
begin

text \<open>
  What a content transfer guarantees to its two sides: the client accepts only content that the
  expected server signed for, and an exchange between honest peers leaves the same statement in
  both graphs.
\<close>

definition receipt_codec :: "('vk, 'w) exchange_scheme \<Rightarrow> bool" where
  "receipt_codec W \<longleftrightarrow> (\<forall>r s. receipt_to_json W r = Inr s \<longrightarrow> receipt_from_json W s = Inr r)"

lemma record_transfer_fails:
  "codecs_ok C \<Longrightarrow> record_transfer C k server client f role meth via clock d = (Inl e, d') \<Longrightarrow> \<exists>g. e = TGraph g"
  using record_transfer_effect(1) [of C k server client f role meth via clock d "Inl e" d']
  by (auto simp: record_transfer_def split: prod.splits sum.splits option.splits)

text \<open>
  C22. A client that fetched content holds a receipt for exactly that content: signed by the peer it
  asked, with a time within five minutes of its clock or the one value at which the absolute
  difference overflows, naming the content identifier and the nonce it sent; and the
  transfer is recorded.  A failure other than one of the graph leaves the database as it was.
\<close>

theorem fetched_content_is_vouched_for:
  assumes "codecs_ok C" and "0 \<le> sint now" "sint now < 2 ^ 62"
    and "fetch_and_verify C W post k address server cid hops path client_nonce t now clock d = (r, d')"
  shows "case r of
      Inl e \<Rightarrow> (\<exists>g. e = TGraph g) \<or> d' = d
    | Inr v \<Rightarrow> \<exists>signed :: transfer_receipt. vf_server_peer_id v = server \<and>
        vouched C W TRANSFER_RECEIPT_DOMAIN (rc_server_peer_id (rc_unsigned signed)) (rc_server_public_key (rc_unsigned signed))
          (jcs_transfer_receipt W (rc_unsigned signed)) (rc_server_signature signed) server \<and>
        (\<bar>sint (rc_served_at (rc_unsigned signed)) - sint now\<bar> \<le> 300 \<or> rc_served_at (rc_unsigned signed) = now + 2 ^ 63) \<and>
        receipt_fits C cid client_nonce (rc_unsigned signed) \<and>
        rc_content_hash (rc_unsigned signed) = blake3_content_hash C (vf_content v) \<and>
        transfer_recorded C k server (identity_peer_id C k) (blake3_content_hash C (vf_content v))
          (rc_served_at (rc_unsigned signed)) d'"
  using assms(4)
proof (cases rule: fetch_and_verify_cases)
  case (refused e)
  then show ?thesis by simp
next
  case (checked req content receipt f rr)
  from checked(2) show ?thesis
  proof (rule check_reply_Inr)
    fix response header signed
    assume signed: "rc_unsigned signed = receipt" "blake3_content_hash C content = rc_content_hash receipt"
      and "verify_receipt C W signed cid client_nonce now = Inr server"
    then have "vouched C W TRANSFER_RECEIPT_DOMAIN (rc_server_peer_id receipt) (rc_server_public_key receipt)
          (jcs_transfer_receipt W receipt) (rc_server_signature signed) server \<and>
        (\<bar>sint (rc_served_at receipt) - sint now\<bar> \<le> 300 \<or> rc_served_at receipt = now + 2 ^ 63) \<and>
        receipt_fits C cid client_nonce receipt"
      using receipt_claim.accepted_iff [OF assms(2,3), where C = C and W = W and c = signed and cid = cid
        and client_nonce = client_nonce and p = server] by simp
    moreover have "rr = Inr i \<Longrightarrow> transfer_recorded C k server (identity_peer_id C k) (rc_content_hash receipt)
        (rc_served_at receipt) d'" for i
      using record_transfer_effect(2) [OF assms(1) checked(3)] checked(4,5) by simp
    moreover have "\<exists>g. e = TGraph g" if "rr = Inl e" for e
      using record_transfer_fails [OF assms(1) checked(3) [unfolded that]] .
    ultimately show ?thesis
      unfolding checked(6) using signed by (cases rr; simp) metis
  qed
qed

text \<open>
  C21. An exchange between honest peers is recorded on both sides.  When the server answers a request
  with content and a receipt, its own graph holds an active assertion that it sent that content to
  the client, supported by the receipt; and when the client, whose clock is within five minutes,
  gets that answer, it accepts it, keeps the very bytes, and -- unless its own database fails --
  its graph holds the same edge with the same content hash and time, asserted by itself.
\<close>

theorem transfer_is_corroborated:
  assumes "codecs_ok C" "key_codec C W" "receipt_codec W" and "length client_nonce = 32" "length server_nonce = 32"
    and build: "build_and_sign_request C W kc cid client_nonce t hops path = Inr req"
    and served: "fetch_with_receipt C W env server_nonce now arrived clock req st = (Inr (json, content), st')"
    and post: "post (transfer_url address) req = Some \<lparr>tp_success = True, tp_receipt = Some json, tp_content = Some content\<rparr>"
    and "0 \<le> sint now'" "sint now' < 2 ^ 62" "\<bar>sint now - sint now'\<bar> \<le> 300"
    and fetched: "fetch_and_verify C W post kc address (identity_peer_id C (ts_identity st)) cid hops path client_nonce
      t now' clock' d = (r, d')"
  shows "transfer_recorded C (ts_identity st) (identity_peer_id C (ts_identity st)) (identity_peer_id C kc)
      (blake3_content_hash C content) now (ts_db st') \<and>
    ((\<exists>e. r = Inl (TGraph e)) \<or>
     (\<exists>v. r = Inr v \<and> vf_content v = content \<and>
        transfer_recorded C kc (identity_peer_id C (ts_identity st)) (identity_peer_id C kc)
          (blake3_content_hash C content) now d'))"
proof -
  let ?server = "identity_peer_id C (ts_identity st)" and ?h = "blake3_content_hash C content"
  from assms(1) served show ?thesis
  proof (rule fetch_with_receipt_served)
    fix client n receipt
    assume verified: "verify_request C W req now = Inr (client, n)"
      and receipt: "build_and_sign_receipt C W (ts_identity st) (tr_cid (tr_unsigned req)) n server_nonce ?h now = Inr receipt"
      and json: "receipt_to_json W receipt = Inr json"
      and recorded: "transfer_recorded C (ts_identity st) ?server client ?h now (ts_db st')"
    note req = built_request_verified [OF assms(1,4) build verified]
    have hex: "hex_codec C" using assms(1) by (simp add: codecs_ok_def)
    note fits = built_receipt_fits [OF hex assms(4,5) receipt [unfolded req(2,3)]]
    have "verify_receipt C W receipt cid client_nonce now' = Inr ?server"
      by (rule receipt_claim.built_is_accepted [OF assms(1,2), where x = "(cid, client_nonce, server_nonce, ?h)" and t = now])
        (use receipt req(2,3) fits(1) assms(9-11) in simp_all)
    then have "check_reply C W ?server cid client_nonce now' (post (transfer_url address) req) = Inr (content, rc_unsigned receipt)"
      using json assms(3) fits(2) by (simp add: check_reply_def post receipt_codec_def)
    note reply = this
    from fetched have "(\<exists>e. r = Inl (TGraph e)) \<or>
        (\<exists>v. r = Inr v \<and> vf_content v = content \<and> transfer_recorded C kc ?server (identity_peer_id C kc) ?h now d')"
    proof (cases rule: fetch_and_verify_cases)
      case (refused e)
      with build reply show ?thesis by simp
    next
      case (checked req' content' receipt' f rr)
      then have same: "content' = content" "receipt' = rc_unsigned receipt" using build reply by simp_all
      show ?thesis
      proof (cases rr)
        case (Inl e)
        then show ?thesis using record_transfer_fails [OF assms(1)] checked(3,6) by fastforce
      next
        case (Inr i)
        then show ?thesis using record_transfer_effect(2) [OF assms(1) checked(3)] checked(4-6) same fits(2,3) by simp
      qed
    qed
    with recorded req(1) show ?thesis by simp
  qed
qed

section \<open>An exchange on a concrete codec\<close>

text \<open>A commit onto a log that is in order, with what the next commit needs to know.\<close>

definition log_at :: "('sk, 'vk, 'z) codec_scheme \<Rightarrow> signed_event set \<Rightarrow> peer_id \<Rightarrow> event_id list \<Rightarrow> db \<Rightarrow> bool" where
  "log_at C S p ids d \<longleftrightarrow> log_ok d \<and> logged C S d \<and> chain_of d p = ids \<and> length (events d) = length ids"

lemma commit_next:
  assumes "codecs_ok C" "collision_free C S" "sev \<in> S" "log_at C S (identity_peer_id C k) ids d" "length ids < 100"
    and build: "build_and_sign C k (of_nat (Suc (length ids))) (chain_head ids) t pl = Inr (sev, eid)"
    and "project_graph C eid t pl (graph d) = Inr (out, g, refs)"
  obtains d' where "commit_local_event C k pl t d = (Inr (eid, out), d')" "graph d' = g"
    "log_at C S (identity_peer_id C k) (ids @ [eid]) d'"
proof -
  let ?p = "identity_peer_id C k"
  have log: "log_ok d" "logged C S d" "chain_of d ?p = ids" "length (events d) = length ids"
    using assms(4) by (simp_all add: log_at_def)
  have pos: "next_position d ?p = (of_nat (Suc (length ids)), chain_head ids)"
    using next_position_chain [OF log(1)] log(3) by simp
  obtain d' where d': "commit_local_event C k pl t d = (Inr (eid, out), d')" "appends C sev ?p (chain_head ids) eid g refs d d'"
    using commit_outcome [OF assms(1) log(1) _ assms(2) log(2) assms(3) refl pos build] assms(5,7) log(4) by auto
  have "ue_sequence (se_unsigned sev) = of_nat (Suc (length (chain_of d ?p)))"
    using build unfolding log(3) by (rule build_and_sign_fields) simp
  then have "log_at C S ?p (ids @ [eid]) d'"
    using appends_log_ok [OF log(1) d'(2)] appends_logged [OF log(2) assms(3) d'(2)] appends_effect(2,3) [OF d'(2)] log(3,4)
    by (auto simp: log_at_def)
  with that d' appends_effect(1) [OF d'(2)] show thesis by blast
qed

definition exchange_service :: "(byte, byte, string) service" where
  "exchange_service = Access.sample_service\<lparr>key_from_bytes := \<lambda>b. Some (last b)\<rparr>"

definition exchange_event :: "byte \<Rightarrow> nat \<Rightarrow> event_id option \<Rightarrow> int \<Rightarrow> event_payload \<Rightarrow> signed_event" where
  "exchange_event k n prev t pl =
     (case build_and_sign exchange_service k (of_nat (Suc n)) prev t pl of Inr (sev, _) \<Rightarrow> sev | Inl _ \<Rightarrow> undefined)"

definition exchange_id :: "nat \<Rightarrow> int \<Rightarrow> event_id" where
  "exchange_id n t = event_id_derive exchange_service [of_nat (Suc n), of_int t]"

lemma exchange_fields:
  "jcs_unsigned exchange_service u = Inr (sample_bytes u)"
  "jcs_signed exchange_service sev = Inr (sample_bytes (se_unsigned sev))"
  "jcs_key_proof exchange_service m = Inr []" "key_from_bytes exchange_service b = Some (last b)"
  "json_text_len exchange_service j = 2" "blake3 exchange_service b = pad_to 32 (rev b)"
  "verifying_key exchange_service = id" "key_bytes exchange_service k = replicate 31 0 @ [k]"
  "hex_encode exchange_service b = concat (map letters b)" "base32_encode exchange_service b = concat (map letters b)"
  by (simp_all add: exchange_service_def Access.sample_service_def sample_def sample_codec_def codec.defs service.defs)

lemma exchange_codecs: "codecs_ok exchange_service"
  using sample_service_codec(1) by (simp add: exchange_service_def codecs_ok_def hex_codec_def base32_codec_def
      blake3_digest_def sign_verify_def)

lemma exchange_build:
  assumes "n < 255"
  shows "build_and_sign exchange_service k (of_nat (Suc n)) prev t pl = Inr (exchange_event k n prev t pl, exchange_id n t)"
    and "sample_bytes (se_unsigned (exchange_event k n prev t pl)) = [of_nat (Suc n), of_int t]"
proof -
  have "take_bit 64 (Suc n) = Suc n" using assms by (simp add: take_bit_nat_eq_self)
  then have "ucast (of_nat (Suc n) :: u64) = (of_nat (Suc n) :: byte)"
    by (simp add: unsigned_of_nat del: of_nat_Suc)
  then show "build_and_sign exchange_service k (of_nat (Suc n)) prev t pl = Inr (exchange_event k n prev t pl, exchange_id n t)"
    "sample_bytes (se_unsigned (exchange_event k n prev t pl)) = [of_nat (Suc n), of_int t]"
    by (simp_all add: exchange_event_def build_and_sign_def Let_def exchange_fields sample_bytes_def exchange_id_def
        del: of_nat_Suc)
qed

lemma exchange_id_eq:
  assumes "n < 255" "m < 255" "exchange_id n t = exchange_id m t'"
  shows "n = m"
proof -
  have "event_hash (exchange_id i u) ! 1 = of_nat (Suc i)" for i u
    by (simp add: exchange_id_def event_id_derive_def hash32_derive_def exchange_fields pad_to_def del: of_nat_Suc)
  then have "(of_nat (Suc n) :: byte) = of_nat (Suc m)" using assms(3) by metis
  then have "unat (of_nat (Suc n) :: byte) = unat (of_nat (Suc m) :: byte)" by (rule arg_cong)
  then show ?thesis using assms(1,2) by (simp add: unsigned_of_nat take_bit_nat_eq_self del: of_nat_Suc)
qed

lemma exchange_collision_free:
  "collision_free exchange_service ((\<lambda>n. exchange_event k n (prev n) (t n) (pl n)) ` {..<3})"
  unfolding collision_free_def
proof (clarsimp simp: exchange_build(2) exchange_fields(2) simp del: of_nat_Suc)
  fix i j :: nat
  assume "i < 3" "j < 3" "event_id_derive exchange_service [of_nat (Suc i), of_int (t i)] =
    event_id_derive exchange_service [of_nat (Suc j), of_int (t j)]"
  then have "i = j" using exchange_id_eq [of i j "t i" "t j"] by (simp add: exchange_id_def del: of_nat_Suc)
  then show "exchange_event k i (prev i) (t i) (pl i) = exchange_event k j (prev j) (t j) (pl j)" by simp
qed

definition exchange_actor :: "byte \<Rightarrow> int \<Rightarrow> actor_row" where
  "exchange_actor k t = \<lparr>ac_id = peer_actor exchange_service k, ac_actor_type = ''peer'', ac_name = None,
     ac_public_key = Some (key_bytes exchange_service k), ac_identity_uri = None, ac_metadata = default_metadata,
     ac_created_at = t\<rparr>"

lemma exchange_declares:
  "project_graph exchange_service eid t (ActorDeclare \<lparr>adc_actor_type = ''peer'', adc_name = None,
      adc_public_key = Some (hex_encode exchange_service (key_bytes exchange_service k)), adc_identity_uri = None\<rparr>) empty_graph
   = Inr (ActorDeclared (peer_actor exchange_service k), empty_graph\<lparr>actors := [exchange_actor k t]\<rparr>, [])"
proof -
  have "decode_bytes32 exchange_service (hex_encode exchange_service (key_bytes exchange_service k))
      = Inr (key_bytes exchange_service k)"
    using exchange_codecs by (simp add: decode_bytes32_def codecs_ok_def hex_codec_def exchange_fields(8))
  then show ?thesis
    by (simp add: project_graph_def project_actor_declare_def actor_type_parse_def transpose_opt_def Let_def actors_insert_def
        empty_graph_def has_key_def exchange_actor_def peer_actor_def exchange_fields(7))
qed

lemma resolve_on_graph:
  assumes "resolve_or_create_node C s ty t g = (i, g')" "\<forall>n\<in>set (nodes g). node_id n = node_id_from_canonical_identifier C (node_canonical_identifier n)"
  shows "i = node_id_from_canonical_identifier C s" "has_key node_id (nodes g') i"
    "\<And>j. has_key node_id (nodes g) j \<Longrightarrow> has_key node_id (nodes g') j"
    "\<forall>n\<in>set (nodes g'). node_id n = node_id_from_canonical_identifier C (node_canonical_identifier n)"
    "edges g' = edges g" "assertions g' = assertions g" "evidences g' = evidences g" "actors g' = actors g"
  using assms by (auto simp: resolve_or_create_node_def Let_def nodes_insert_if_missing_def node_new_def nodes_get_by_id_def
      lookup_by_def has_key_def find_None_iff split: if_splits) (metis image_eqI)

lemma assertion_to_row_id: "as_id (assertion_to_row a) = assertion_id a"
  by (simp add: assertion_to_row_def)

lemma exchange_asserts:
  assumes "nodes g = []" "edges g = []" "assertions g = []" and "has_key ac_id (actors g) a"
    and "actor_id_from_str C (asr_actor_id p) = Inr a" "extraction_method_parse (asr_extraction_method p) = Some m"
  obtains g' refs r where "project_graph C eid t (AssertRelation p) g = Inr (Unit, g', refs)" "evidences g' = evidences g"
    "assertions g' = [assertion_to_row r]" "assertion_id r = eid"
proof -
  obtain i g1 where r1: "resolve_or_create_node C (asr_subject_identifier p) (asr_subject_type p) t g = (i, g1)" by fastforce
  obtain j g2 where r2: "resolve_or_create_node C (asr_object_identifier p) (asr_object_type p) t g1 = (j, g2)" by fastforce
  have "\<forall>n\<in>set (nodes g). node_id n = node_id_from_canonical_identifier C (node_canonical_identifier n)"
    using assms(1) by simp
  note one = resolve_on_graph [OF r1 this]
  note two = resolve_on_graph [OF r2 one(4)]
  have "\<exists>g' refs. project_graph C eid t (AssertRelation p) g = Inr (Unit, g', refs) \<and> evidences g' = evidences g \<and>
      (\<exists>r. assertions g' = [assertion_to_row r] \<and> assertion_id r = eid)"
    using assms one two by (simp add: project_graph_def project_assert_relation_def r1 r2 Let_def edges_insert_if_missing_def
        edge_new_def assertions_insert_def has_key_def) (metis assertion.select_convs(1))
  with that show thesis by blast
qed

lemma exchange_step:
  assumes "collision_free exchange_service S" "exchange_event k n prev t pl \<in> S" "n < 100"
    and "log_at exchange_service S (identity_peer_id exchange_service k) ids d" "length ids = n" "prev = chain_head ids"
    and "project_graph exchange_service (exchange_id n t) t pl (graph d) = Inr (out, g, refs)"
  obtains d' where "commit_local_event exchange_service k pl t d = (Inr (exchange_id n t, out), d')" "graph d' = g"
    "log_at exchange_service S (identity_peer_id exchange_service k) (ids @ [exchange_id n t]) d'"
proof -
  have "length ids < 100" using assms(3,5) by simp
  moreover have "build_and_sign exchange_service k (of_nat (Suc (length ids))) (chain_head ids) t pl
      = Inr (exchange_event k n prev t pl, exchange_id n t)"
    using exchange_build(1) [of n k prev t pl] assms(3,5,6) by (simp del: of_nat_Suc)
  ultimately show thesis
    using commit_next [OF exchange_codecs assms(1,2,4) _ _ assms(7)] that by metis
qed

text \<open>
  On a fresh database a peer can declare itself, make a claim and support it, whoever it is and at
  whatever time.
\<close>

lemma exchange_commits:
  fixes clock :: "nat \<Rightarrow> int"
  defines "i0 \<equiv> exchange_id 0 (clock 0)" and "i1 \<equiv> exchange_id 1 (clock 1)"
  assumes "actor_id_from_str exchange_service (asr_actor_id p) = Inr (peer_actor exchange_service k)"
    and "extraction_method_parse (asr_extraction_method p) = Some m"
    and "ade_assertion_id e = event_id_to_hex exchange_service i1" "evidence_type_parse (ade_evidence_type e) = Some ty"
  obtains d1 d2 d3 i2 where
    "commit_local_event exchange_service k (ActorDeclare \<lparr>adc_actor_type = ''peer'', adc_name = None,
        adc_public_key = Some (hex_encode exchange_service (key_bytes exchange_service k)), adc_identity_uri = None\<rparr>)
      (clock 0) empty_db = (Inr (i0, ActorDeclared (peer_actor exchange_service k)), d1)"
    "commit_local_event exchange_service k (AssertRelation p) (clock 1) d1 = (Inr (i1, Unit), d2)"
    "commit_local_event exchange_service k (AddEvidence e) (clock 2) d2 = (Inr (i2, Unit), d3)"
proof -
  let ?C = exchange_service and ?p = "identity_peer_id exchange_service k"
  define pl where "pl = (\<lambda>n::nat.
     if n = 0 then ActorDeclare \<lparr>adc_actor_type = ''peer'', adc_name = None,
        adc_public_key = Some (hex_encode ?C (key_bytes ?C k)), adc_identity_uri = None\<rparr>
     else if n = 1 then AssertRelation p else AddEvidence e)"
  define prev where "prev = (\<lambda>n::nat. if n = 0 then None else if n = 1 then Some i0 else Some i1)"
  define S where "S = (\<lambda>n. exchange_event k n (prev n) (clock n) (pl n)) ` {..<3}"
  have cf: "collision_free ?C S" unfolding S_def by (rule exchange_collision_free)
  have S: "exchange_event k n (prev n) (clock n) (pl n) \<in> S" if "n < 3" for n using that by (simp add: S_def)
  note step = exchange_step [OF cf S]
  have "log_at ?C S ?p [] empty_db"
    using log_ok_empty by (simp add: log_at_def logged_def chain_of_def origin_rows_def) (simp add: empty_db_def)
  moreover have "project_graph ?C i0 (clock 0) (pl 0) (graph empty_db)
      = Inr (ActorDeclared (peer_actor ?C k), empty_graph\<lparr>actors := [exchange_actor k (clock 0)]\<rparr>, [])"
    using exchange_declares by (simp add: pl_def empty_db_def)
  ultimately obtain d1 where c0: "commit_local_event ?C k (pl 0) (clock 0) empty_db = (Inr (i0, ActorDeclared (peer_actor ?C k)), d1)"
    "graph d1 = empty_graph\<lparr>actors := [exchange_actor k (clock 0)]\<rparr>" "log_at ?C S ?p [i0] d1"
    using step [of 0 "[]" empty_db] by (auto simp: prev_def chain_head_def i0_def)
  have bare: "nodes (graph d1) = []" "edges (graph d1) = []" "assertions (graph d1) = []" "evidences (graph d1) = []"
    "has_key ac_id (actors (graph d1)) (peer_actor ?C k)"
    by (simp_all add: c0(2) empty_graph_def has_key_def exchange_actor_def)
  obtain g2 refs r where g2: "project_graph ?C i1 (clock 1) (AssertRelation p) (graph d1) = Inr (Unit, g2, refs)"
    "evidences g2 = []" "assertions g2 = [assertion_to_row r]" "assertion_id r = i1"
    using exchange_asserts [OF bare(1-3,5) assms(3,4)] bare(4) by metis
  then obtain d2 where c1: "commit_local_event ?C k (pl 1) (clock 1) d1 = (Inr (i1, Unit), d2)" "graph d2 = g2"
    "log_at ?C S ?p [i0, i1] d2"
    using step [of 1 "[i0]" d1] c0(3) by (auto simp: prev_def chain_head_def i1_def pl_def)
  have "length (event_hash i1) = 32"
    using exchange_codecs by (simp add: i1_def exchange_id_def event_id_derive_length codecs_ok_def)
  then have "event_id_from_str ?C (ade_assertion_id e) = Inr i1"
    using event_id_round_trip [of ?C i1] exchange_codecs by (simp add: assms(5) codecs_ok_def)
  then obtain g3 refs3 where g3: "project_graph ?C (exchange_id 2 (clock 2)) (clock 2) (pl 2) (graph d2) = Inr (Unit, g3, refs3)"
    using g2(2-4) assms(6) by (auto simp: pl_def c1(2) project_graph_def project_add_evidence_def require_assertion_def
        assertions_get_by_id_def lookup_by_def insert_evidence_def has_key_def transpose_opt_def assertion_to_row_id)
  then obtain d3 where "commit_local_event ?C k (pl 2) (clock 2) d2 = (Inr (exchange_id 2 (clock 2), Unit), d3)"
    using step [of 2 "[i0, i1]" d2, OF _ _ _ _ _ g3] c1(3) by (auto simp: prev_def chain_head_def)
  with that c0(1) c1(1) show thesis by (simp add: pl_def)
qed

lemma letters_length: "length (concat (map letters b)) = 2 * length b"
  by (induction b) (simp_all add: letters_def)

lemma exchange_hash_length: "length (blake3_content_hash exchange_service b) = 71"
  by (simp add: blake3_content_hash_def exchange_fields letters_length)

lemma exchange_peer_length: "length (peer_id_to_string exchange_service (identity_peer_id exchange_service k)) < 100"
proof -
  have "length (identity_peer_id exchange_service k) = 32"
    using exchange_codecs by (simp add: identity_peer_id_length codecs_ok_def)
  then show ?thesis by (simp add: peer_id_to_string_def exchange_fields to_lowercase_def letters_length)
qed

lemma exchange_records:
  assumes "length (rf_content_hash f) \<le> 128" "length (rf_cid f) \<le> 128"
  obtains i d' where "record_transfer exchange_service k (identity_peer_id exchange_service s)
     (identity_peer_id exchange_service c) f role meth via clock empty_db = (Inr i, d')"
proof -
  let ?C = exchange_service
  define auth where "auth = \<lparr>auth_actor_id = peer_actor ?C k, auth_permissions = [GraphAssert]\<rparr>"
  define claim where "claim = transfer_claim ?C (identity_peer_id ?C s) (identity_peer_id ?C c) (rf_served_at f) meth"
  define pf where "pf = \<lparr>pk_public_key = key_bytes ?C (verifying_key ?C k),
    pk_signature = sign_with_domain ?C k ACTOR_KEY_PROOF_DOMAIN []\<rparr>"
  define metadata where "metadata = transfer_metadata ?C (rf_byte_size f) role
    (if role = ''server'' then identity_peer_id ?C c else identity_peer_id ?C s)
    (rf_client_nonce f) (rf_server_nonce f) (rf_receipt_hash f) via"
  define ev where "ev = \<lparr>ade_assertion_id = event_id_to_hex ?C (exchange_id 1 (clock 1)),
      ade_evidence_type = ''service_receipt'', ade_uri = None, ade_title = None, ade_excerpt = None,
      ade_content_hash = Some (rf_content_hash f), ade_observed_at = Some (sint (rf_served_at f)), ade_retrieved_at = None,
      ade_pinned_cid = Some (rf_cid f), ade_metadata = Some metadata\<rparr>"
  have ok: "hex_codec ?C" "sign_verify ?C" "blake3_digest ?C" using exchange_codecs by (simp_all add: codecs_ok_def)
  have sign: "sign_actor_key_proof ?C k Peer None None = Inr pf"
    by (simp add: sign_actor_key_proof_def exchange_fields(3) pf_def)
  have check: "check_key_proof ?C Peer None None pf = Inr (hex_encode ?C (key_bytes ?C k))"
    using sign_verify_round_trip [OF ok(2), of k ACTOR_KEY_PROOF_DOMAIN "[]"]
    by (simp add: check_key_proof_def pf_def exchange_fields(3,4,7,8))
  have valid: "assert_validate ?C claim = Inr ()"
    using exchange_peer_length [of s] exchange_peer_length [of c]
    by (simp add: assert_validate_def claim_def transfer_claim_def check_len_def check_opt_len_def MAX_IDENTIFIER_LEN_def
        MAX_PREDICATE_LEN_def MAX_TYPE_LEN_def MAX_EVIDENCE_PER_ASSERTION_def SENT_TO_PREDICATE_def)
  have "length (actor_hash (peer_actor ?C k)) = 32"
    using ok(3) by (simp add: peer_actor_def actor_id_derive_def hash32_derive_def blake3_digest_def)
  then have "actor_id_from_str ?C (asr_actor_id (assert_payload ?C auth claim)) = Inr (peer_actor ?C k)"
    "extraction_method_parse (asr_extraction_method (assert_payload ?C auth claim)) = Some meth"
    using actor_id_round_trip [OF ok(1)]
    by (simp_all add: assert_payload_def auth_def claim_def transfer_claim_def Let_def extraction.parse_as_str split: prod.splits)
  note commits = exchange_commits [OF this, where clock = clock and e = ev and ty = ServiceReceipt]
  obtain d1 d2 d3 i0 i2 where
    "commit_local_event ?C k (ActorDeclare \<lparr>adc_actor_type = ''peer'', adc_name = None,
        adc_public_key = Some (hex_encode ?C (key_bytes ?C k)), adc_identity_uri = None\<rparr>)
      (clock 0) empty_db = (Inr (i0, ActorDeclared (peer_actor ?C k)), d1)"
    "commit_local_event ?C k (AssertRelation (assert_payload ?C auth claim)) (clock 1) d1 = (Inr (exchange_id 1 (clock 1), Unit), d2)"
    "commit_local_event ?C k (AddEvidence ev) (clock 2) d2 = (Inr (i2, Unit), d3)"
    by (rule commits) (simp_all add: ev_def evidence_type_parse_def)
  then have "record_transfer ?C k (identity_peer_id ?C s) (identity_peer_id ?C c) f role meth via clock empty_db
      = (Inr (exchange_id 1 (clock 1)), d3)"
    using sign check valid assms
    by (simp add: record_transfer_def record_transfer_svc_def svc_bind_def svc_check_def declare_actor_def check_opt_len_def
        transpose_opt_def commit_event_def assert_relation_def require_def add_evidence_def add_evidence_internal_def
        evidence_validate_def exchange_fields(5) MAX_CONTENT_HASH_LEN_def MAX_PINNED_CID_LEN_def MAX_METADATA_BYTES_def Let_def check_len_def
        ev_def auth_def claim_def metadata_def transfer_claim_def split del: if_split)
  then show thesis by (rule that)
qed

text \<open>Peer 7 serves three bytes to peer 8; the receipt's JSON form is a word that stands for this receipt.\<close>

definition exchange_plain :: "byte exchange" where
  "exchange_plain = wire.extend sample_wire
     (exchange.fields (\<lambda>_. Inr []) (\<lambda>_. Inr []) (\<lambda>_. Inl (SerdeJson ''no'')) (\<lambda>_. Inl (SerdeJson ''no'')) (\<lambda>_. True))"

definition exchange_receipt :: transfer_receipt where
  "exchange_receipt = (case build_and_sign_receipt exchange_service exchange_plain 7 ''cid'' (replicate 32 1) (replicate 32 2)
     (blake3_content_hash exchange_service [1, 2, 3]) 1000 of Inr r \<Rightarrow> r | Inl _ \<Rightarrow> undefined)"

definition exchange_request :: transfer_request where
  "exchange_request = (case build_and_sign_request exchange_service exchange_plain 8 ''cid'' (replicate 32 1) 990 0 [] of
     Inr r \<Rightarrow> r | Inl _ \<Rightarrow> undefined)"

definition exchange_wire :: "byte exchange" where
  "exchange_wire = exchange_plain
     \<lparr>receipt_to_json := (\<lambda>r. if r = exchange_receipt then Inr ''r'' else Inl (SerdeJson ''no'')),
      receipt_from_json := (\<lambda>_. Inr exchange_receipt)\<rparr>"

definition exchange_server :: "byte transfer_state" where
  "exchange_server = \<lparr>ts_identity = 7, ts_provider = Some (\<lambda>_. Inr [1, 2, 3]), ts_relay_peers = [],
     ts_limiter = rate_limiter_default, ts_db = empty_db\<rparr>"

definition no_relay :: "nat \<Rightarrow> attempt" where
  "no_relay = (\<lambda>_. \<lparr>at_post = (\<lambda>_ _. None), at_nonce = [], at_requested_at = 0, at_now = 0, at_clock = (\<lambda>_. 0)\<rparr>)"

lemma exchange_hypotheses: "key_codec exchange_service exchange_wire" "receipt_codec exchange_wire"
  by (simp_all add: key_codec_def exchange_fields exchange_wire_def exchange_plain_def sample_wire_def receipt_codec_def
      wire.defs exchange.defs split: if_splits)

lemma exchange_json: "receipt_to_json exchange_wire exchange_receipt = Inr ''r''" "header_value_ok exchange_wire s"
  by (simp_all add: exchange_wire_def exchange_plain_def wire.defs exchange.defs)

lemma exchange_builds:
  "build_and_sign_request exchange_service exchange_wire 8 ''cid'' (replicate 32 1) 990 0 [] = Inr exchange_request"
  "build_and_sign_receipt exchange_service exchange_wire 7 ''cid'' (replicate 32 1) (replicate 32 2)
     (blake3_content_hash exchange_service [1, 2, 3]) 1000 = Inr exchange_receipt"
  by (simp_all add: exchange_request_def exchange_receipt_def build_and_sign_request_def build_and_sign_receipt_def
      exchange_wire_def exchange_plain_def wire.defs exchange.defs Let_def)

lemma exchange_request_fields:
  "tr_cid (tr_unsigned exchange_request) = ''cid''"
  "decode_hex_array exchange_service 32 (tr_client_nonce (tr_unsigned exchange_request)) = Some (replicate 32 1)"
  using exchange_codecs by (simp_all add: exchange_request_def build_and_sign_request_def exchange_plain_def wire.defs
      exchange.defs Let_def decode_encoded codecs_ok_def)

lemma exchange_request_verified:
  "verify_request exchange_service exchange_wire exchange_request 1000 = Inr (identity_peer_id exchange_service 8, replicate 32 1)"
proof -
  have "\<exists>n. verify_request exchange_service exchange_wire exchange_request 1000 = Inr (identity_peer_id exchange_service 8, n)"
    by (rule request_claim.built_is_accepted [OF exchange_codecs exchange_hypotheses(1),
        where x = "(''cid'', replicate 32 1, 0, [])" and t = 990])
      (use exchange_builds(1) exchange_request_fields(2) in simp_all)
  then show ?thesis using built_request_verified(2) [OF exchange_codecs _ exchange_builds(1)] by auto
qed

lemma exchange_serves:
  obtains st' where "fetch_with_receipt exchange_service exchange_wire no_relay (replicate 32 2) 1000 0 clock exchange_request
    exchange_server = (Inr (''r'', [1, 2, 3]), st')"
proof -
  let ?C = exchange_service and ?h = "blake3_content_hash exchange_service [1, 2, 3]"
  obtain limiter where check: "check 0 (peer_id_to_string ?C (identity_peer_id ?C 8)) rate_limiter_default = (True, limiter)"
    by (simp add: check_def sweep_def rate_limiter_default_def new_rate_limiter_def API_MAX_REQUESTS_PER_WINDOW_def Let_def)
  define f where "f = \<lparr>rf_cid = ''cid'', rf_byte_size = 3, rf_client_nonce = tr_client_nonce (tr_unsigned exchange_request),
     rf_server_nonce = hex_encode ?C (replicate 32 2), rf_content_hash = ?h,
     rf_receipt_hash = rc_receipt_hash (rc_unsigned exchange_receipt), rf_served_at = rc_served_at (rc_unsigned exchange_receipt)\<rparr>"
  obtain i d' where "record_transfer ?C 7 (identity_peer_id ?C 7) (identity_peer_id ?C 8) f ''server'' Direct None clock empty_db
      = (Inr i, d')"
    by (rule exchange_records [of f, where role = "''server''" and meth = Direct and via = None and clock = clock and k = 7
          and s = 7 and c = 8]) (simp_all add: f_def exchange_hash_length)
  then have "fetch_with_receipt ?C exchange_wire no_relay (replicate 32 2) 1000 0 clock exchange_request exchange_server
      = (Inr (''r'', [1, 2, 3]), exchange_server\<lparr>ts_limiter := limiter, ts_db := d'\<rparr>)"
    using check exchange_request_verified exchange_builds(2)
    by (simp add: fetch_with_receipt_def exchange_server_def local_or_relayed_def Let_def exchange_request_fields(1) f_def
        exchange_json numeral_3_eq_3)
  then show thesis by (rule that)
qed

definition exchange_post :: transfer_post where
  "exchange_post = (\<lambda>_ _. Some \<lparr>tp_success = True, tp_receipt = Some ''r'', tp_content = Some [1, 2, 3]\<rparr>)"

lemma exchange_fetches:
  obtains v d' where "fetch_and_verify exchange_service exchange_wire exchange_post 8 ''peer'' (identity_peer_id exchange_service 7)
    ''cid'' 0 [] (replicate 32 1) 990 1001 clock empty_db = (Inr v, d')"
proof -
  let ?C = exchange_service and ?h = "blake3_content_hash exchange_service [1, 2, 3]"
  have hex: "hex_codec ?C" using exchange_codecs by (simp add: codecs_ok_def)
  note fits = built_receipt_fits [OF hex _ _ exchange_builds(2)]
  have "verify_receipt ?C exchange_wire exchange_receipt ''cid'' (replicate 32 1) 1001 = Inr (identity_peer_id ?C 7)"
    by (rule receipt_claim.built_is_accepted [OF exchange_codecs exchange_hypotheses(1),
        where x = "(''cid'', replicate 32 1, replicate 32 2, ?h)" and t = 1000])
      (use exchange_builds(2) fits(1) in simp_all)
  then have reply: "check_reply ?C exchange_wire (identity_peer_id ?C 7) ''cid'' (replicate 32 1) 1001
      (exchange_post (transfer_url ''peer'') exchange_request) = Inr ([1, 2, 3], rc_unsigned exchange_receipt)"
    using fits(2) by (simp add: check_reply_def exchange_post_def exchange_wire_def)
  define f where "f = \<lparr>rf_cid = ''cid'', rf_byte_size = 3, rf_client_nonce = hex_encode ?C (replicate 32 1),
     rf_server_nonce = rc_server_nonce (rc_unsigned exchange_receipt), rf_content_hash = rc_content_hash (rc_unsigned exchange_receipt),
     rf_receipt_hash = rc_receipt_hash (rc_unsigned exchange_receipt), rf_served_at = rc_served_at (rc_unsigned exchange_receipt)\<rparr>"
  obtain i d' where "record_transfer ?C 8 (identity_peer_id ?C 7) (identity_peer_id ?C 8) f ''client'' Verification None clock empty_db
      = (Inr i, d')"
    by (rule exchange_records [of f, where role = "''client''" and meth = Verification and via = None and clock = clock and k = 8
          and s = 7 and c = 8]) (use fits(2) in \<open>simp_all add: f_def exchange_hash_length\<close>)
  with exchange_builds(1) reply that show thesis by (simp add: fetch_and_verify_def f_def numeral_3_eq_3)
qed

theorem fetched_content_is_vouched_for_witness:
  "\<exists>v d' (signed :: transfer_receipt). fetch_and_verify exchange_service exchange_wire exchange_post 8 ''peer'' (identity_peer_id exchange_service 7)
      ''cid'' 0 [] (replicate 32 1) 990 1001 (\<lambda>n. 1001) empty_db = (Inr v, d') \<and>
    rc_content_hash (rc_unsigned signed) = blake3_content_hash exchange_service (vf_content v) \<and>
    receipt_fits exchange_service ''cid'' (replicate 32 1) (rc_unsigned signed)"
proof -
  obtain v d' where "fetch_and_verify exchange_service exchange_wire exchange_post 8 ''peer'' (identity_peer_id exchange_service 7)
      ''cid'' 0 [] (replicate 32 1) 990 1001 (\<lambda>n. 1001) empty_db = (Inr v, d')"
    by (rule exchange_fetches)
  with fetched_content_is_vouched_for [OF exchange_codecs _ _ this] show ?thesis by auto
qed

theorem transfer_is_corroborated_witness:
  "\<exists>(st' :: byte transfer_state) d'. transfer_recorded exchange_service 7 (identity_peer_id exchange_service 7) (identity_peer_id exchange_service 8)
      (blake3_content_hash exchange_service [1, 2, 3]) 1000 (ts_db st') \<and>
    transfer_recorded exchange_service 8 (identity_peer_id exchange_service 7) (identity_peer_id exchange_service 8)
      (blake3_content_hash exchange_service [1, 2, 3]) 1000 d'"
proof -
  obtain v d' where fetched: "fetch_and_verify exchange_service exchange_wire exchange_post 8 ''peer'' (identity_peer_id exchange_service 7)
      ''cid'' 0 [] (replicate 32 1) 990 1001 (\<lambda>n. 1001) empty_db = (Inr v, d')"
    by (rule exchange_fetches)
  obtain st' where served: "fetch_with_receipt exchange_service exchange_wire no_relay (replicate 32 2) 1000 0 (\<lambda>n. 1000)
      exchange_request exchange_server = (Inr (''r'', [1, 2, 3]), st')"
    by (rule exchange_serves)
  show ?thesis
    using transfer_is_corroborated [OF exchange_codecs exchange_hypotheses _ _ exchange_builds(1) served,
        where post = exchange_post and address = "''peer''" and now' = 1001 and r = "Inr v" and d' = d' and d = empty_db
          and clock' = "\<lambda>n. 1001"] fetched
    by (simp add: exchange_post_def exchange_server_def) blast
qed

end
