(* ===== verification/NtpWire.thy ===== *)
theory NtpWire
  imports Framing Peering Outbound "HOL-Library.Signed_Division"
begin

text \<open>
  The NTP packets of the gateway (\<^verbatim>\<open>oag-api/src/ntp_wire.rs\<close>): timestamps, the client's request and the
  server's response, and the query of a real server.  Milliseconds are the code's \<^verbatim>\<open>i64\<close>, the
  fields of a timestamp its \<^verbatim>\<open>u32\<close>.  The UDP socket, name resolution and the system clock are
  arguments.
\<close>

section \<open>Timestamps\<close>

definition NTP_UNIX_EPOCH_DELTA_SECONDS :: "64 word" where "NTP_UNIX_EPOCH_DELTA_SECONDS = 2208988800"
definition NTP_PACKET_LEN :: nat where "NTP_PACKET_LEN = 48"

definition unix_ms_to_ntp_timestamp :: "i64 \<Rightarrow> 32 word \<times> 32 word" where
  "unix_ms_to_ntp_timestamp unix_ms =
     (let unix_ms = (if sint unix_ms < 0 then 0 else unix_ms);
          unix_seconds = unix_ms div 1000;
          ms_fraction = unix_ms mod 1000
      in (ucast (unix_seconds + NTP_UNIX_EPOCH_DELTA_SECONDS), ucast ((ms_fraction * push_bit 32 1) div 1000)))"

definition ntp_timestamp_to_unix_ms :: "32 word \<Rightarrow> 32 word \<Rightarrow> i64" where
  "ntp_timestamp_to_unix_ms seconds fraction =
     (let unix_seconds = ucast seconds - NTP_UNIX_EPOCH_DELTA_SECONDS;
          ms_fraction = (ucast fraction * 1000) div push_bit 32 1
      in unix_seconds * 1000 + ms_fraction)"

definition write_timestamp :: "byte list \<Rightarrow> nat \<Rightarrow> i64 \<Rightarrow> byte list" where
  "write_timestamp buf offset unix_ms =
     (let (seconds, fraction) = unix_ms_to_ntp_timestamp unix_ms
      in take offset buf @ to_be_bytes seconds @ to_be_bytes fraction @ drop (offset + 8) buf)"

definition read_timestamp :: "byte list \<Rightarrow> nat \<Rightarrow> i64" where
  "read_timestamp buf offset =
     ntp_timestamp_to_unix_ms (from_be_bytes (take 4 (drop offset buf))) (from_be_bytes (take 4 (drop (offset + 4) buf)))"

section \<open>Packets\<close>

definition build_client_request :: "i64 \<Rightarrow> byte list" where
  "build_client_request transmit_unix_ms = write_timestamp ((replicate NTP_PACKET_LEN 0)[0 := 0x23]) 40 transmit_unix_ms"

definition parse_client_request :: "byte list \<Rightarrow> i64 option" where
  "parse_client_request buf =
     (if length buf < NTP_PACKET_LEN then None
      else if hd buf AND 7 \<noteq> 3 then None
      else Some (read_timestamp buf 40))"

definition build_server_response :: "i64 \<Rightarrow> i64 \<Rightarrow> byte list" where
  "build_server_response origin_unix_ms verified_unix_ms =
     (let buf = (replicate NTP_PACKET_LEN 0)[0 := 0x24, 1 := 2, 2 := 4, 3 := 0xEC];
          buf = take 12 buf @ str_bytes ''OAGG'' @ drop 16 buf;
          buf = write_timestamp buf 16 verified_unix_ms;
          buf = write_timestamp buf 24 origin_unix_ms;
          buf = write_timestamp buf 32 verified_unix_ms
      in write_timestamp buf 40 verified_unix_ms)"

section \<open>Asking a real server\<close>

datatype ntp_upstream_error =
    NtpInvalidAddress string
  | NtpNoAddresses string
  | NtpSocket
  | NtpTimeout
  | NtpMalformedResponse

text \<open>
  What the socket does for one query.  A datagram is received into a buffer of \<open>NTP_PACKET_LEN\<close> zeros,
  cut to its size; the outer \<open>None\<close> of sending and receiving is the timeout, the inner one an I/O error.
\<close>

record ntp_socket =
  ns_bind :: bool
  ns_lookup :: "string \<Rightarrow> sock_addr list option"
  ns_send :: "sock_addr \<Rightarrow> byte list \<Rightarrow> unit option option"
  ns_recv :: "(byte list \<times> sock_addr) option option"
  ns_sent_at :: i64
  ns_received_at :: i64

definition ntp_offset :: "i64 \<Rightarrow> i64 \<Rightarrow> i64 \<Rightarrow> i64 \<Rightarrow> i64" where
  "ntp_offset t1 t2 t3 t4 = word_of_int (sint ((t2 - t1) + (t3 - t4)) sdiv 2)"

definition query_upstream :: "ntp_socket \<Rightarrow> string \<Rightarrow> ntp_upstream_error + i64" where
  "query_upstream S addr =
     (if \<not> ns_bind S then Inl NtpSocket else
      res_bind (ok_or (NtpInvalidAddress addr) (ns_lookup S addr)) (\<lambda>addrs.
      res_bind (ok_or (NtpNoAddresses addr) (case addrs of [] \<Rightarrow> None | a # _ \<Rightarrow> Some a)) (\<lambda>target.
      let t1 = ns_sent_at S; request = build_client_request t1 in
      res_bind (ok_or NtpTimeout (ns_send S target request)) (\<lambda>sent.
      res_bind (ok_or NtpSocket sent) (\<lambda>_.
      res_bind (ok_or NtpTimeout (ns_recv S)) (\<lambda>received.
      res_bind (ok_or NtpSocket received) (\<lambda>(datagram, sender).
      let t4 = ns_received_at S;
          len = min NTP_PACKET_LEN (length datagram);
          buf = take len datagram @ replicate (NTP_PACKET_LEN - len) 0 in
      if sender \<noteq> target \<or> len < NTP_PACKET_LEN \<or> hd buf AND 7 \<noteq> 4 then Inl NtpMalformedResponse
      else let t2 = read_timestamp buf 32; t3 = read_timestamp buf 40
           in Inr (t4 + ntp_offset t1 t2 t3 t4))))))))"

section \<open>Precision\<close>

text \<open>The 32 bits of the fraction lose up to a millisecond, and nothing else.\<close>

lemma fraction_round_trip:
  assumes "f < (1000 :: nat)"
  shows "(f * 4294967296 div 1000) * 1000 div 4294967296 = (if 125 dvd f then f else f - 1)"
proof -
  define P where "P = f * 4294967296"
  have whole: "(P div 1000) * 1000 = P - P mod 1000" by (metis add_diff_cancel_right' div_mult_mod_eq)
  have zero: "P mod 1000 = 0 \<longleftrightarrow> 125 dvd f"
  proof -
    have "P mod 1000 = 0 \<longleftrightarrow> 8 * 125 dvd 8 * (f * 536870912)" by (simp add: P_def dvd_eq_mod_eq_0 mult.commute)
    also have "\<dots> \<longleftrightarrow> 125 dvd f * 536870912" by (rule nat_mult_dvd_cancel1) simp
    also have "\<dots> \<longleftrightarrow> 125 dvd f"
    proof (rule coprime_dvd_mult_left_iff)
      have "coprime 125 ((2 :: nat) ^ 29)" by (simp only: coprime_power_right_iff coprime_right_2_iff_odd) simp
      then show "coprime 125 (536870912 :: nat)" by simp
    qed
    finally show ?thesis .
  qed
  show ?thesis
  proof (cases "P mod 1000 = 0")
    case True
    then show ?thesis using whole zero by (simp add: P_def)
  next
    case False
    then have "f \<noteq> 0" by (auto simp: P_def)
    then have "P - P mod 1000 = (f - 1) * 4294967296 + (4294967296 - P mod 1000)" by (simp add: P_def diff_mult_distrib)
    moreover have "4294967296 - P mod 1000 < 4294967296" using False by simp
    ultimately have "(P - P mod 1000) div 4294967296 = f - 1" by (simp only: div_mult_self3 div_less)
    then show ?thesis using whole zero False by (simp add: P_def)
  qed
qed

lemma ms_words:
  assumes "0 \<le> sint (ms :: i64)"
  shows "sint ms = int (unat ms)"
proof -
  have "uint ms = uint (word_of_int (sint ms) :: i64)" by simp
  also have "\<dots> = sint ms mod 2 ^ 64" by (simp only: uint_word_of_int) simp
  also have "\<dots> = sint ms" using assms sint_range_i64(2) [of ms] by simp
  finally show ?thesis by (simp only: of_nat_unat)
qed

lemma unat_small: "a < 2 ^ 64 \<Longrightarrow> unat (of_nat a :: i64) = a"
  by (simp add: unsigned_of_nat take_bit_nat_eq_self)

lemma unat_cut: "unat (ucast (x :: i64) :: 32 word) = unat x mod 4294967296"
  by (simp add: unsigned_ucast_eq take_bit_eq_mod)

lemma timestamp_parts:
  assumes "unat (ms :: i64) < 2085978496000" "0 \<le> sint ms"
  shows "unat (fst (unix_ms_to_ntp_timestamp ms)) = unat ms div 1000 + 2208988800"
    "unat (snd (unix_ms_to_ntp_timestamp ms)) = unat ms mod 1000 * 4294967296 div 1000"
proof -
  define n where "n = unat ms"
  have ms: "ms = of_nat n" and n: "n < 2085978496000" using assms(1) by (simp_all add: n_def)
  have d: "ms div 1000 = of_nat (n div 1000)" "ms mod 1000 = of_nat (n mod 1000)"
    using n by (simp_all add: n_def word_arith_nat_div word_arith_nat_mod)
  have s: "ms div 1000 + NTP_UNIX_EPOCH_DELTA_SECONDS = of_nat (n div 1000 + 2208988800)"
    by (simp add: d NTP_UNIX_EPOCH_DELTA_SECONDS_def)
  have m: "n mod 1000 * 4294967296 < 2 ^ 64" using mod_less_divisor [of 1000 n] by simp
  have "ms mod 1000 * push_bit 32 1 = of_nat (n mod 1000 * 4294967296)"
    by (simp add: d push_bit_of_1)
  then have "unat (ms mod 1000 * push_bit 32 1) = n mod 1000 * 4294967296" by (simp only: unat_small [OF m])
  then have f: "ms mod 1000 * push_bit 32 1 div 1000 = of_nat (n mod 1000 * 4294967296 div 1000)"
    by (simp only: word_arith_nat_div) simp
  have small: "n div 1000 + 2208988800 < 4294967296" "n mod 1000 * 4294967296 div 1000 < 4294967296"
    using n mod_less_divisor [of 1000 n] by (simp_all add: less_mult_imp_div_less)
  have parts: "unix_ms_to_ntp_timestamp ms = (ucast (of_nat (n div 1000 + 2208988800) :: i64),
      ucast (of_nat (n mod 1000 * 4294967296 div 1000) :: i64))"
    unfolding unix_ms_to_ntp_timestamp_def using assms(2) s f by (simp only: Let_def not_less [symmetric]) simp
  have cut: "unat (ucast (of_nat a :: i64) :: 32 word) = a" if "a < 4294967296" for a
    using that by (simp add: unat_cut unat_small)
  show "unat (fst (unix_ms_to_ntp_timestamp ms)) = unat ms div 1000 + 2208988800"
    "unat (snd (unix_ms_to_ntp_timestamp ms)) = unat ms mod 1000 * 4294967296 div 1000"
    unfolding parts fst_conv snd_conv n_def [symmetric] by (rule cut [OF small(1)], rule cut [OF small(2)])
qed

lemma timestamp_from_parts:
  assumes "unat seconds = s + 2208988800" "s < 2085978496" "unat (fraction :: 32 word) * 1000 div 4294967296 = f" "f < 1000"
  shows "ntp_timestamp_to_unix_ms seconds fraction = of_nat (s * 1000 + f)"
proof -
  have "ucast seconds = (of_nat (s + 2208988800) :: i64)" by (simp only: assms(1) [symmetric] of_nat_unat)
  moreover have "(ucast fraction * 1000) div push_bit 32 1 = (of_nat f :: i64)"
  proof -
    have "unat fraction < 2 ^ 32" using unsigned_less [of fraction] by simp
    then have "unat (of_nat (unat fraction * 1000) :: i64) = unat fraction * 1000" by (intro unat_small) simp
    moreover have "ucast fraction * 1000 = (of_nat (unat fraction * 1000) :: i64)" by simp
    ultimately have "unat (ucast fraction * 1000 :: i64) = unat fraction * 1000" by metis
    then show ?thesis using assms(3) by (simp only: word_arith_nat_div) (simp add: push_bit_of_1)
  qed
  ultimately show ?thesis by (simp add: ntp_timestamp_to_unix_ms_def NTP_UNIX_EPOCH_DELTA_SECONDS_def Let_def)
qed

lemma timestamp_round_trip:
  assumes "0 \<le> sint ms" "sint ms < 2085978496000"
  shows "sint (case unix_ms_to_ntp_timestamp ms of (s, f) \<Rightarrow> ntp_timestamp_to_unix_ms s f) =
    (if 125 dvd sint ms then sint ms else sint ms - 1)"
proof -
  define n where "n = unat ms"
  have "sint ms = int n" unfolding n_def by (rule ms_words [OF assms(1)])
  with assms(2) have n: "sint ms = int n" "n < 2085978496000" by linarith+
  obtain s f where sf: "unix_ms_to_ntp_timestamp ms = (s, f)" by fastforce
  have parts: "unat s = n div 1000 + 2208988800" "unat f = n mod 1000 * 4294967296 div 1000"
    using timestamp_parts [of ms] assms(1) n(2) by (simp_all add: sf n_def)
  define kept where "kept = (if 125 dvd n mod 1000 then n mod 1000 else n mod 1000 - 1)"
  have "ntp_timestamp_to_unix_ms s f = of_nat (n div 1000 * 1000 + kept)"
    by (rule timestamp_from_parts) (use parts n(2) fraction_round_trip [of "n mod 1000"] in \<open>auto simp: kept_def less_mult_imp_div_less less_imp_diff_less\<close>)
  moreover have "n div 1000 * 1000 + kept = (if 125 dvd n then n else n - 1)"
  proof -
    have "125 dvd n mod 1000 \<longleftrightarrow> 125 dvd n" by (simp add: dvd_mod_iff)
    moreover have "n mod 1000 \<noteq> 0" if "\<not> 125 dvd n mod 1000" using that by (metis dvd_0_right)
    ultimately show ?thesis using div_mult_mod_eq [of n 1000] by (auto simp: kept_def)
  qed
  moreover have "125 dvd sint ms \<longleftrightarrow> 125 dvd n" using n(1) int_dvd_int_iff [of 125 n] by simp
  moreover have "n \<noteq> 0" if "\<not> 125 dvd n" using that by (metis dvd_0_right)
  ultimately have "ntp_timestamp_to_unix_ms s f = word_of_int (if 125 dvd sint ms then sint ms else sint ms - 1)"
    using n(1) by (auto simp: of_nat_diff)
  then show ?thesis using sint_of_int_i64 [of "if 125 dvd sint ms then sint ms else sint ms - 1"] assms by (simp add: sf)
qed

lemma splice_elsewhere:
  assumes "offset + length X \<le> length buf" "i + n \<le> offset \<or> offset + length X \<le> i"
  shows "take n (drop i (take offset buf @ X @ drop (offset + length X) buf)) = take n (drop i buf)"
  using assms(2)
proof
  assume "i + n \<le> offset"
  then show ?thesis using assms(1) by (simp add: drop_take)
next
  assume "offset + length X \<le> i"
  then show ?thesis using assms(1) by simp
qed

lemma write_read_timestamp:
  assumes "offset + 8 \<le> length buf"
  shows "read_timestamp (write_timestamp buf offset ms) offset =
      (case unix_ms_to_ntp_timestamp ms of (s, f) \<Rightarrow> ntp_timestamp_to_unix_ms s f)"
    and "i + 8 \<le> offset \<or> offset + 8 \<le> i \<Longrightarrow> read_timestamp (write_timestamp buf offset ms) i = read_timestamp buf i"
    and "length (write_timestamp buf offset ms) = length buf"
    and "offset \<noteq> 0 \<Longrightarrow> hd (write_timestamp buf offset ms) = hd buf"
proof -
  obtain s f where sf: "unix_ms_to_ntp_timestamp ms = (s, f)" by fastforce
  let ?X = "to_be_bytes s @ to_be_bytes f"
  have w: "write_timestamp buf offset ms = take offset buf @ ?X @ drop (offset + length ?X) buf"
    by (simp add: write_timestamp_def sf)
  show "read_timestamp (write_timestamp buf offset ms) offset =
      (case unix_ms_to_ntp_timestamp ms of (s, f) \<Rightarrow> ntp_timestamp_to_unix_ms s f)"
    using assms by (simp add: read_timestamp_def w sf)
  show "length (write_timestamp buf offset ms) = length buf" using assms by (simp add: w)
  show "hd (write_timestamp buf offset ms) = hd buf" if "offset \<noteq> 0"
    using assms that by (cases buf; cases offset) (simp_all add: write_timestamp_def sf)
  assume "i + 8 \<le> offset \<or> offset + 8 \<le> i"
  then show "read_timestamp (write_timestamp buf offset ms) i = read_timestamp buf i"
    using splice_elsewhere [of offset ?X buf i 4] splice_elsewhere [of offset ?X buf "i + 4" 4] assms
    by (simp only: read_timestamp_def w) auto
qed

lemma server_response_bytes:
  shows "length (build_server_response origin verified) = 48" "hd (build_server_response origin verified) = 0x24"
    and "read_timestamp (build_server_response origin verified) 24 =
      (case unix_ms_to_ntp_timestamp origin of (s, f) \<Rightarrow> ntp_timestamp_to_unix_ms s f)"
    and "read_timestamp (build_server_response origin verified) 32 =
      (case unix_ms_to_ntp_timestamp verified of (s, f) \<Rightarrow> ntp_timestamp_to_unix_ms s f)"
    and "read_timestamp (build_server_response origin verified) 40 =
      (case unix_ms_to_ntp_timestamp verified of (s, f) \<Rightarrow> ntp_timestamp_to_unix_ms s f)"
proof -
  define b where "b = (let buf = (replicate NTP_PACKET_LEN 0)[0 := 0x24, 1 := 2, 2 := 4, 3 := 0xEC]
    in take 12 buf @ str_bytes ''OAGG'' @ drop 16 buf :: byte list)"
  have b: "length b = 48" "hd b = 0x24" by (simp_all add: b_def NTP_PACKET_LEN_def numeral_eq_Suc Let_def)
  have r: "build_server_response origin verified =
      write_timestamp (write_timestamp (write_timestamp (write_timestamp b 16 verified) 24 origin) 32 verified) 40 verified"
    by (simp only: build_server_response_def b_def Let_def)
  show "length (build_server_response origin verified) = 48" "hd (build_server_response origin verified) = 0x24"
    "read_timestamp (build_server_response origin verified) 24 =
      (case unix_ms_to_ntp_timestamp origin of (s, f) \<Rightarrow> ntp_timestamp_to_unix_ms s f)"
    "read_timestamp (build_server_response origin verified) 32 =
      (case unix_ms_to_ntp_timestamp verified of (s, f) \<Rightarrow> ntp_timestamp_to_unix_ms s f)"
    "read_timestamp (build_server_response origin verified) 40 =
      (case unix_ms_to_ntp_timestamp verified of (s, f) \<Rightarrow> ntp_timestamp_to_unix_ms s f)"
    using b by (simp_all add: r write_read_timestamp)
qed

text \<open>
  A reply to a client carries the verified time, to the millisecond below, and it is never taken
  for a request.
\<close>

lemma server_response_fields:
  assumes "0 \<le> sint verified" "sint verified < 2085978496000"
  shows "sint (read_timestamp (build_server_response origin verified) 32) \<in> {sint verified - 1, sint verified}"
    and "sint (read_timestamp (build_server_response origin verified) 40) \<in> {sint verified - 1, sint verified}"
    and "parse_client_request (build_server_response origin verified) = None"
  using timestamp_round_trip [OF assms]
  by (simp_all add: server_response_bytes parse_client_request_def)

text \<open>
  The four-timestamp estimate: when the server's clock is \<open>\<theta>\<close> ahead, the request took \<open>a\<close> and the
  answer \<open>b\<close> milliseconds, the estimate of the server's time is off by half the asymmetry.
\<close>

lemma sdiv_two: "\<bar>2 * (k sdiv 2) - k\<bar> \<le> (1 :: int)"
  using sdiv_mult_smod_eq [of k 2] smod_int_range [of 2 k] by auto

lemma sint_add_i64:
  assumes "- (2 ^ 63) \<le> sint x + sint (y :: i64)" "sint x + sint y < 2 ^ 63"
  shows "sint (x + y) = sint x + sint y"
  using sint_of_int_i64 [OF assms] by simp

lemma ntp_estimate_error:
  assumes "sint t2 = sint t1 + \<theta> + a" "sint t3 = sint t4 + \<theta> - b"
    and "\<bar>sint t1\<bar> < 2 ^ 60" "\<bar>sint t2\<bar> < 2 ^ 60" "\<bar>sint t3\<bar> < 2 ^ 60" "\<bar>sint t4\<bar> < 2 ^ 60"
  shows "2 * \<bar>sint (t4 + ntp_offset t1 t2 t3 t4) - (sint t4 + \<theta>)\<bar> \<le> \<bar>a - b\<bar> + 1"
proof -
  define k where "k = 2 * \<theta> + a - b"
  have d: "sint (t2 - t1) = \<theta> + a" "sint (t3 - t4) = \<theta> - b"
    using assms sint_diff_i64 [of t2 t1] sint_diff_i64 [of t3 t4] by auto
  have k: "sint ((t2 - t1) + (t3 - t4)) = k"
    using sint_add_i64 [of "t2 - t1" "t3 - t4"] assms d by (simp add: k_def)
  have small: "\<bar>k\<bar> < 2 ^ 62" using assms by (simp add: k_def)
  then have half: "\<bar>k sdiv 2\<bar> \<le> 2 ^ 61" using sdiv_two [of k] by simp
  then have off: "sint (ntp_offset t1 t2 t3 t4) = k sdiv 2"
    using sint_of_int_i64 [of "k sdiv 2"] by (simp add: ntp_offset_def k)
  then have "sint (t4 + ntp_offset t1 t2 t3 t4) = sint t4 + k sdiv 2"
    using sint_add_i64 [of t4 "ntp_offset t1 t2 t3 t4"] assms(6) half by simp
  moreover have "2 * \<bar>k sdiv 2 - \<theta>\<bar> = \<bar>(2 * (k sdiv 2) - k) + (a - b)\<bar>" by (simp add: k_def abs_if)
  ultimately show ?thesis using sdiv_two [of k] abs_triangle_ineq [of "2 * (k sdiv 2) - k" "a - b"] by simp
qed

text \<open>
  The client's transmit timestamp goes through milliseconds on its way into the origin field, so
  the reply does not carry the client's bits: already for a request of the code's own making.
\<close>

lemma timestamp_bytes:
  assumes "offset + 8 \<le> length buf"
  shows "take 8 (drop offset (write_timestamp buf offset ms)) =
    (case unix_ms_to_ntp_timestamp ms of (s, f) \<Rightarrow> to_be_bytes s @ to_be_bytes f)"
  using assms by (simp add: write_timestamp_def split: prod.splits)

lemma timestamp_bytes_elsewhere:
  assumes "offset + 8 \<le> length buf" "i + 8 \<le> offset"
  shows "take 8 (drop i (write_timestamp buf offset ms)) = take 8 (drop i buf)"
proof -
  obtain s f where "unix_ms_to_ntp_timestamp ms = (s, f)" by fastforce
  then show ?thesis
    using splice_elsewhere [of offset "to_be_bytes s @ to_be_bytes f" buf i 8] assms by (simp add: write_timestamp_def)
qed

lemma sample_timestamps:
  "unix_ms_to_ntp_timestamp 1700000000001 = (3908988800, 4294967)"
  "unix_ms_to_ntp_timestamp 1700000000000 = (3908988800, 0)"
  "ntp_timestamp_to_unix_ms 3908988800 4294967 = 1700000000000" "ntp_timestamp_to_unix_ms 3908988800 0 = 1700000000000"
  by (simp_all add: unix_ms_to_ntp_timestamp_def ntp_timestamp_to_unix_ms_def NTP_UNIX_EPOCH_DELTA_SECONDS_def Let_def)

lemma origin_is_not_echoed:
  "parse_client_request (build_client_request 1700000000001) = Some 1700000000000"
  "take 8 (drop 24 (build_server_response 1700000000000 t)) \<noteq> take 8 (drop 40 (build_client_request 1700000000001))"
proof -
  let ?b = "(replicate NTP_PACKET_LEN 0)[0 := 0x23] :: byte list"
  have b: "length ?b = 48" "hd ?b = 0x23" by (simp_all add: NTP_PACKET_LEN_def numeral_eq_Suc)
  show "parse_client_request (build_client_request 1700000000001) = Some 1700000000000"
    unfolding parse_client_request_def build_client_request_def using b
    by (simp add: write_read_timestamp sample_timestamps)
  have "take 8 (drop 40 (build_client_request 1700000000001)) = to_be_bytes 3908988800 @ to_be_bytes 4294967"
    unfolding build_client_request_def using b timestamp_bytes [of 40 ?b] by (simp add: sample_timestamps)
  moreover have "take 8 (drop 24 (build_server_response 1700000000000 t)) = to_be_bytes 3908988800 @ to_be_bytes 0"
    by (simp add: build_server_response_def Let_def timestamp_bytes_elsewhere timestamp_bytes write_read_timestamp(3)
        sample_timestamps NTP_PACKET_LEN_def)
  moreover have "to_be_bytes 0 \<noteq> to_be_bytes 4294967" by (simp add: to_be_bytes_def)
  ultimately show "take 8 (drop 24 (build_server_response 1700000000000 t)) \<noteq> take 8 (drop 40 (build_client_request 1700000000001))"
    by simp
qed

end
