(* ===== verification/Gateway.thy ===== *)
theory Gateway
  imports Transfers Robots NtpWire
begin

text \<open>
  The verified internet gateway (\<^verbatim>\<open>oag-api/src/gateway.rs\<close>): a peer answers a time or web query from
  its cache of quorum-checked answers, or by asking its query peers and comparing, or by asking the
  real server, or by relaying.  Other peers, the NTP sockets, the web and the iteration order of a
  \<^verbatim>\<open>HashMap\<close> are arguments.  Durations are nanoseconds.
\<close>

section \<open>Messages\<close>

datatype gateway_service = ServiceNtp | ServiceHttp string

datatype gateway_result =
    ResultNtp (estimated_unix_time_ms: i64)
  | ResultHttp (result_status: nat) (result_hash: string) (result_body: "byte list") (result_cache_control: "string option")

datatype served_from = FromCache | FromQuorum | FromOrigin | FromRelay

record unsigned_gateway_request =
  gq_service :: gateway_service
  gq_requester_peer_id :: string
  gq_requester_public_key :: string
  gq_nonce :: string
  gq_requested_at :: i64
  gq_hops_remaining :: "8 word"
  gq_path :: "string list"

record gateway_request =
  gq_unsigned :: unsigned_gateway_request
  gq_signature :: string

record unsigned_gateway_response =
  gp_result :: gateway_result
  gp_responder_peer_id :: string
  gp_responder_public_key :: string
  gp_nonce :: string
  gp_resolved_at :: i64
  gp_served_from :: served_from

record gateway_response =
  gp_unsigned :: unsigned_gateway_response
  gp_signature :: string

record 'vk gateway_wire = "'vk wire" +
  jcs_gateway_request :: "unsigned_gateway_request \<Rightarrow> json_error + byte list"
  jcs_gateway_response :: "unsigned_gateway_response \<Rightarrow> json_error + byte list"

text \<open>The texts of the errors are left out; \<open>GPanic\<close> is a panic that ends the request.\<close>

datatype gateway_error =
    GPeerId peer_id_parse_error
  | GInvalidPublicKey
  | GPeerIdKeyMismatch
  | GInvalidNonce
  | GBadSignatureEncoding
  | GBadSignature
  | GResponseMismatch
  | GClockSkew
  | GRateLimited
  | GNoQuorum
  | GUpstreamBlocked
  | GNtpUpstream
  | GCannotResolve
  | GInternal
  | GPanic

definition gateway_status :: "gateway_error \<Rightarrow> nat" where
  "gateway_status e =
     (case e of
        GRateLimited \<Rightarrow> 429
      | GNoQuorum \<Rightarrow> 502 | GCannotResolve \<Rightarrow> 502 | GUpstreamBlocked \<Rightarrow> 502 | GNtpUpstream \<Rightarrow> 502
      | GInternal \<Rightarrow> 500 | GPanic \<Rightarrow> 500
      | _ \<Rightarrow> 401)"

definition GATEWAY_REQUEST_DOMAIN :: string where "GATEWAY_REQUEST_DOMAIN = ''OAG:GATEWAY_REQUEST:v1:''"
definition GATEWAY_RESPONSE_DOMAIN :: string where "GATEWAY_RESPONSE_DOMAIN = ''OAG:GATEWAY_RESPONSE:v1:''"

record gateway_config =
  gc_hops_remaining :: "8 word"
  gc_fanout_count :: nat
  gc_quorum_min_agree :: nat
  gc_ntp_tolerance_ms :: i64
  gc_ntp_upstream_servers :: "string list"
  gc_ntp_cache_ttl_ms :: i64
  gc_http_allow_upstream :: bool
  gc_http_allow_private_networks :: bool
  gc_http_max_response_bytes :: nat
  gc_http_default_cache_ttl_ms :: i64
  gc_http_max_cache_ttl_ms :: i64

definition gateway_config_default :: gateway_config where
  "gateway_config_default =
     \<lparr>gc_hops_remaining = 8, gc_fanout_count = 0, gc_quorum_min_agree = 2, gc_ntp_tolerance_ms = 1000,
      gc_ntp_upstream_servers = [], gc_ntp_cache_ttl_ms = 2000, gc_http_allow_upstream = False,
      gc_http_allow_private_networks = False, gc_http_max_response_bytes = 2 * 1024 * 1024,
      gc_http_default_cache_ttl_ms = 5000, gc_http_max_cache_ttl_ms = 60000\<rparr>"

section \<open>The cache\<close>

record cache_entry =
  ce_result :: gateway_result
  ce_computed_at :: instant
  ce_ttl :: nat

type_synonym gateway_cache = "string \<rightharpoonup> cache_entry"

definition cache_key :: "gateway_service \<Rightarrow> string" where
  "cache_key service = (case service of ServiceNtp \<Rightarrow> ''ntp'' | ServiceHttp url \<Rightarrow> ''http:'' @ url)"

definition millis :: "nat \<Rightarrow> nat" where "millis n = n * 1000000"
definition as_millis :: "nat \<Rightarrow> nat" where "as_millis d = d div 1000000"

definition adjust_for_elapsed :: "gateway_result \<Rightarrow> nat \<Rightarrow> gateway_result" where
  "adjust_for_elapsed result elapsed =
     (case result of ResultNtp t \<Rightarrow> ResultNtp (t + of_nat (as_millis elapsed)) | other \<Rightarrow> other)"

definition cache_get :: "gateway_service \<Rightarrow> instant \<Rightarrow> gateway_cache \<Rightarrow> gateway_result option" where
  "cache_get service now cache =
     Option.bind (cache (cache_key service)) (\<lambda>entry.
       let elapsed = now - ce_computed_at entry in
       if ce_ttl entry = 0 \<or> elapsed \<ge> ce_ttl entry then None
       else Some (adjust_for_elapsed (ce_result entry) elapsed))"

definition cache_put :: "gateway_service \<Rightarrow> gateway_result \<Rightarrow> nat \<Rightarrow> instant \<Rightarrow> gateway_cache \<Rightarrow> gateway_cache" where
  "cache_put service result ttl now cache =
     (if ttl = 0 then cache
      else cache(cache_key service \<mapsto> \<lparr>ce_result = result, ce_computed_at = now, ce_ttl = ttl\<rparr>))"

fun contains_str :: "string \<Rightarrow> string \<Rightarrow> bool" where
  "contains_str p [] \<longleftrightarrow> p = []"
| "contains_str p (c # s) \<longleftrightarrow> take (length p) (c # s) = p \<or> contains_str p s"

text \<open>\<^verbatim>\<open>str::parse::<u64>\<close>: an optional plus sign and digits, no overflow.\<close>

definition digit_value :: "char \<Rightarrow> nat option" where
  "digit_value c = (if 48 \<le> (of_char c :: nat) \<and> of_char c \<le> (57 :: nat) then Some (of_char c - 48) else None)"

fun parse_digits :: "nat \<Rightarrow> string \<Rightarrow> nat option" where
  "parse_digits n [] = Some n"
| "parse_digits n (c # s) =
     Option.bind (digit_value c) (\<lambda>d. if n * 10 + d < 2 ^ 64 then parse_digits (n * 10 + d) s else None)"

definition parse_u64 :: "string \<Rightarrow> nat option" where
  "parse_u64 s =
     (let digits = (case s of CHR ''+'' # t \<Rightarrow> t | _ \<Rightarrow> s) in if digits = [] then None else parse_digits 0 digits)"

fun find_map :: "('a \<Rightarrow> 'b option) \<Rightarrow> 'a list \<Rightarrow> 'b option" where
  "find_map f [] = None"
| "find_map f (x # xs) = (case f x of Some y \<Rightarrow> Some y | None \<Rightarrow> find_map f xs)"

definition parse_max_age :: "string \<Rightarrow> nat option" where
  "parse_max_age cache_control_lower =
     find_map (\<lambda>directive. Option.bind (strip_prefix ''max-age='' (trim directive)) parse_u64) (split_on CHR '','' cache_control_lower)"

definition non_negative :: "i64 \<Rightarrow> nat" where "non_negative x = nat (max 0 (sint x))"

definition compute_cache_ttl :: "gateway_service \<Rightarrow> gateway_result \<Rightarrow> gateway_config \<Rightarrow> nat" where
  "compute_cache_ttl service result config =
     (case (service, result) of
        (ServiceNtp, _) \<Rightarrow> millis (non_negative (gc_ntp_cache_ttl_ms config))
      | (ServiceHttp _, ResultHttp _ _ _ cache_control) \<Rightarrow>
          (let fallback = millis (non_negative (gc_http_default_cache_ttl_ms config)) in
           case cache_control of
             None \<Rightarrow> fallback
           | Some cc \<Rightarrow>
               (let lower = to_lowercase cc in
                if contains_str ''no-store'' lower \<or> contains_str ''no-cache'' lower then 0
                else case parse_max_age lower of
                       Some max_age \<Rightarrow> millis (min (min (max_age * 1000) (2 ^ 64 - 1)) (non_negative (gc_http_max_cache_ttl_ms config)))
                     | None \<Rightarrow> fallback))
      | _ \<Rightarrow> 0)"

section \<open>Signed queries and answers\<close>

definition build_and_sign_gateway_request ::
  "('sk, 'vk, 'z) codec_scheme \<Rightarrow> ('vk, 'w) gateway_wire_scheme \<Rightarrow> 'sk \<Rightarrow> gateway_service \<Rightarrow> byte list \<Rightarrow> i64 \<Rightarrow> 8 word
     \<Rightarrow> string list \<Rightarrow> gateway_error + gateway_request" where
  "build_and_sign_gateway_request C W identity service nonce requested_at hops_remaining path =
     (let unsigned = \<lparr>gq_service = service, gq_requester_peer_id = peer_id_to_string C (identity_peer_id C identity),
                      gq_requester_public_key = hex_encode C (key_bytes C (verifying_key C identity)),
                      gq_nonce = hex_encode C nonce, gq_requested_at = requested_at,
                      gq_hops_remaining = hops_remaining, gq_path = path\<rparr> in
      res_bind (res_map_err (\<lambda>_. GPanic) (jcs_gateway_request W unsigned)) (\<lambda>canonical.
        Inr \<lparr>gq_unsigned = unsigned,
             gq_signature = hex_encode C (sign_with_domain C identity GATEWAY_REQUEST_DOMAIN canonical)\<rparr>))"

definition verify_gateway_request ::
  "('sk, 'vk, 'z) codec_scheme \<Rightarrow> ('vk, 'w) gateway_wire_scheme \<Rightarrow> gateway_request \<Rightarrow> i64
     \<Rightarrow> gateway_error + peer_id \<times> byte list" where
  "verify_gateway_request C W req now =
     res_bind (res_map_err GPeerId (peer_id_from_str C (gq_requester_peer_id (gq_unsigned req)))) (\<lambda>p.
     res_bind (ok_or GInvalidPublicKey (decode_hex_array C 32 (gq_requester_public_key (gq_unsigned req)))) (\<lambda>pk_bytes.
     res_bind (ok_or GInvalidPublicKey (vk_from_bytes W pk_bytes)) (\<lambda>vk.
     if p \<noteq> peer_id_from_public_key C vk then Inl GPeerIdKeyMismatch else
     res_bind (res_map_err (\<lambda>_. GInternal) (jcs_gateway_request W (gq_unsigned req))) (\<lambda>canonical.
     res_bind (ok_or GBadSignatureEncoding (decode_hex_array C 64 (gq_signature req))) (\<lambda>signature.
     if \<not> verify_with_domain C vk GATEWAY_REQUEST_DOMAIN canonical signature then Inl GBadSignature else
     if sint (i64_abs (gq_requested_at (gq_unsigned req) - now)) > sint MAX_CLOCK_SKEW_SECONDS then Inl GClockSkew else
     res_bind (ok_or GInvalidNonce (decode_hex_array C 32 (gq_nonce (gq_unsigned req)))) (\<lambda>nonce.
       Inr (p, nonce)))))))"

definition build_and_sign_gateway_response ::
  "('sk, 'vk, 'z) codec_scheme \<Rightarrow> ('vk, 'w) gateway_wire_scheme \<Rightarrow> 'sk \<Rightarrow> gateway_result \<Rightarrow> byte list \<Rightarrow> i64 \<Rightarrow> served_from
     \<Rightarrow> gateway_error + gateway_response" where
  "build_and_sign_gateway_response C W identity result nonce resolved_at served =
     (let unsigned = \<lparr>gp_result = result, gp_responder_peer_id = peer_id_to_string C (identity_peer_id C identity),
                      gp_responder_public_key = hex_encode C (key_bytes C (verifying_key C identity)),
                      gp_nonce = hex_encode C nonce, gp_resolved_at = resolved_at, gp_served_from = served\<rparr> in
      res_bind (res_map_err (\<lambda>_. GPanic) (jcs_gateway_response W unsigned)) (\<lambda>canonical.
        Inr \<lparr>gp_unsigned = unsigned,
             gp_signature = hex_encode C (sign_with_domain C identity GATEWAY_RESPONSE_DOMAIN canonical)\<rparr>))"

definition verify_gateway_response ::
  "('sk, 'vk, 'z) codec_scheme \<Rightarrow> ('vk, 'w) gateway_wire_scheme \<Rightarrow> gateway_response \<Rightarrow> byte list \<Rightarrow> i64
     \<Rightarrow> gateway_error + peer_id" where
  "verify_gateway_response C W resp expected_nonce now =
     (if decode_hex_array C 32 (gp_nonce (gp_unsigned resp)) \<noteq> Some expected_nonce then Inl GResponseMismatch else
     res_bind (res_map_err GPeerId (peer_id_from_str C (gp_responder_peer_id (gp_unsigned resp)))) (\<lambda>p.
     res_bind (ok_or GInvalidPublicKey (decode_hex_array C 32 (gp_responder_public_key (gp_unsigned resp)))) (\<lambda>pk_bytes.
     res_bind (ok_or GInvalidPublicKey (vk_from_bytes W pk_bytes)) (\<lambda>vk.
     if p \<noteq> peer_id_from_public_key C vk then Inl GPeerIdKeyMismatch else
     res_bind (res_map_err (\<lambda>_. GInternal) (jcs_gateway_response W (gp_unsigned resp))) (\<lambda>canonical.
     res_bind (ok_or GBadSignatureEncoding (decode_hex_array C 64 (gp_signature resp))) (\<lambda>signature.
     if \<not> verify_with_domain C vk GATEWAY_RESPONSE_DOMAIN canonical signature then Inl GBadSignature else
     if sint (i64_abs (gp_resolved_at (gp_unsigned resp) - now)) > sint MAX_CLOCK_SKEW_SECONDS then Inl GClockSkew
     else Inr p))))))"

section \<open>Comparing answers\<close>

definition ntp_value :: "gateway_result \<Rightarrow> i64 option" where
  "ntp_value r = (case r of ResultNtp t \<Rightarrow> Some t | _ \<Rightarrow> None)"

definition http_hash :: "gateway_result \<Rightarrow> string option" where
  "http_hash r = (case r of ResultHttp _ h _ _ \<Rightarrow> Some h | _ \<Rightarrow> None)"

definition near :: "i64 \<Rightarrow> i64 \<Rightarrow> i64 \<Rightarrow> bool" where
  "near tolerance v x \<longleftrightarrow> sint (i64_abs (x - v)) \<le> sint tolerance"

definition largest_cluster :: "i64 \<Rightarrow> i64 list \<Rightarrow> i64 list" where
  "largest_cluster tolerance values =
     foldl (\<lambda>best v. let cluster = filter (near tolerance v) values in
                     if length cluster > length best then cluster else best) [] values"

text \<open>\<^verbatim>\<open>Iterator::max_by_key\<close>: the last of the maximal elements.\<close>

definition max_by_key :: "('a \<Rightarrow> nat) \<Rightarrow> 'a list \<Rightarrow> 'a option" where
  "max_by_key f xs = (case xs of [] \<Rightarrow> None | x # ys \<Rightarrow> Some (foldl (\<lambda>m y. if f m > f y then m else y) x ys))"

definition http_groups :: "(string list \<Rightarrow> string list) \<Rightarrow> gateway_result list \<Rightarrow> (string \<times> gateway_result list) list" where
  "http_groups hash_order oks =
     map (\<lambda>h. (h, filter (\<lambda>r. http_hash r = Some h) oks)) (hash_order (remdups (List.map_filter http_hash oks)))"

definition aggregate_quorum ::
  "(string list \<Rightarrow> string list) \<Rightarrow> gateway_service \<Rightarrow> (gateway_error + gateway_result) list \<Rightarrow> i64 \<Rightarrow> nat
     \<Rightarrow> gateway_error + gateway_result" where
  "aggregate_quorum hash_order service outcomes ntp_tolerance_ms min_agree =
     (let oks = List.map_filter (\<lambda>r. case r of Inr v \<Rightarrow> Some v | Inl _ \<Rightarrow> None) outcomes in
      case service of
        ServiceNtp \<Rightarrow>
          (let best = largest_cluster ntp_tolerance_ms (List.map_filter ntp_value oks) in
           if length best < min_agree then Inl GNoQuorum
           else let ordered = sort_key sint best in
                if ordered = [] then Inl GPanic else Inr (ResultNtp (ordered ! (length ordered div 2))))
      | ServiceHttp _ \<Rightarrow>
          (case max_by_key (\<lambda>(_, v). length v) (http_groups hash_order oks) of
             None \<Rightarrow> Inl GNoQuorum
           | Some (_, grp) \<Rightarrow>
               if length grp < min_agree then Inl GNoQuorum
               else (case grp of [] \<Rightarrow> Inl GPanic | r # _ \<Rightarrow> Inr r)))"

section \<open>Asking another peer\<close>

text \<open>
  One exchange with a peer: the nonce, the clock before and after, the reply (\<open>None\<close> when the
  request fails) and the round trip.  A reply has a body that parses or not.
\<close>

record gateway_reply =
  gy_success :: bool
  gy_response :: "gateway_response option"

record peer_exchange =
  px_nonce :: "byte list"
  px_requested_at :: i64
  px_post :: "string \<Rightarrow> gateway_request \<Rightarrow> gateway_reply option"
  px_rtt :: nat
  px_now :: i64

definition gateway_url :: "string \<Rightarrow> string" where
  "gateway_url address = trim_end_slashes address @ ''/oag/gateway/v1/query''"

definition half_rtt :: "nat \<Rightarrow> i64" where
  "half_rtt rtt = word_of_int (sint (of_nat (as_millis rtt) :: i64) sdiv 2)"

definition query_peer ::
  "('sk, 'vk, 'z) codec_scheme \<Rightarrow> ('vk, 'w) gateway_wire_scheme \<Rightarrow> peer_exchange \<Rightarrow> 'sk \<Rightarrow> relay_peer \<Rightarrow> gateway_service
     \<Rightarrow> 8 word \<Rightarrow> string list \<Rightarrow> gateway_error + gateway_result" where
  "query_peer C W X identity peer service hops_remaining path =
     res_bind (build_and_sign_gateway_request C W identity service (px_nonce X) (px_requested_at X) hops_remaining path) (\<lambda>request.
     res_bind (ok_or GInternal (px_post X (gateway_url (rp_address peer)) request)) (\<lambda>reply.
     if \<not> gy_success reply then Inl GInternal else
     res_bind (ok_or GInternal (gy_response reply)) (\<lambda>resp.
     res_bind (verify_gateway_response C W resp (px_nonce X) (px_now X)) (\<lambda>verified_peer.
     if verified_peer \<noteq> rp_peer_id peer then Inl GPeerIdKeyMismatch
     else Inr (case gp_result (gp_unsigned resp) of
                 ResultNtp t \<Rightarrow> ResultNtp (t + half_rtt (px_rtt X))
               | other \<Rightarrow> other)))))"

record 'sk gateway_state =
  gs_identity :: 'sk
  gs_config :: gateway_config
  gs_query_peers :: "relay_peer list"
  gs_relay_peers :: "relay_peer list"
  gs_limiter :: rate_limiter
  gs_cache :: gateway_cache

definition fanout_peers :: "'sk gateway_state \<Rightarrow> relay_peer list" where
  "fanout_peers st =
     (let peers = gs_query_peers st; n = gc_fanout_count (gs_config st)
      in take (if n = 0 then length peers else min n (length peers)) peers)"

text \<open>A panic in one of the spawned tasks is that task's failure.\<close>

definition fanout_outcomes ::
  "('sk, 'vk, 'z) codec_scheme \<Rightarrow> ('vk, 'w) gateway_wire_scheme \<Rightarrow> (nat \<Rightarrow> peer_exchange) \<Rightarrow> 'sk gateway_state
     \<Rightarrow> gateway_service \<Rightarrow> (gateway_error + gateway_result) list" where
  "fanout_outcomes C W X st service =
     map (\<lambda>(i, peer). res_map_err (\<lambda>e. if e = GPanic then GInternal else e)
            (query_peer C W (X i) (gs_identity st) peer service (gc_hops_remaining (gs_config st)) []))
         (enumerate 0 (fanout_peers st))"

definition fanout_and_verify ::
  "('sk, 'vk, 'z) codec_scheme \<Rightarrow> ('vk, 'w) gateway_wire_scheme \<Rightarrow> (string list \<Rightarrow> string list) \<Rightarrow> (nat \<Rightarrow> peer_exchange)
     \<Rightarrow> 'sk gateway_state \<Rightarrow> gateway_service \<Rightarrow> gateway_error + gateway_result" where
  "fanout_and_verify C W hash_order X st service =
     aggregate_quorum hash_order service (fanout_outcomes C W X st service)
       (gc_ntp_tolerance_ms (gs_config st)) (gc_quorum_min_agree (gs_config st))"

fun relay_query_loop ::
  "('sk, 'vk, 'z) codec_scheme \<Rightarrow> ('vk, 'w) gateway_wire_scheme \<Rightarrow> (nat \<Rightarrow> peer_exchange) \<Rightarrow> 'sk \<Rightarrow> gateway_service \<Rightarrow> 8 word
     \<Rightarrow> string list \<Rightarrow> nat \<Rightarrow> relay_peer list \<Rightarrow> gateway_error + gateway_result option" where
  "relay_query_loop C W X identity service hops next_path n [] = Inr None"
| "relay_query_loop C W X identity service hops next_path n (rp # rps) =
     (if peer_id_to_string C (rp_peer_id rp) \<in> set next_path
      then relay_query_loop C W X identity service hops next_path n rps
      else case query_peer C W (X n) identity rp service hops next_path of
             Inr result \<Rightarrow> Inr (Some result)
           | Inl e \<Rightarrow> if e = GPanic then Inl GPanic
                      else relay_query_loop C W X identity service hops next_path (Suc n) rps)"

definition relay_gateway_query ::
  "('sk, 'vk, 'z) codec_scheme \<Rightarrow> ('vk, 'w) gateway_wire_scheme \<Rightarrow> (nat \<Rightarrow> peer_exchange) \<Rightarrow> 'sk gateway_state
     \<Rightarrow> gateway_service \<Rightarrow> 8 word \<Rightarrow> string list \<Rightarrow> gateway_error + gateway_result option" where
  "relay_gateway_query C W X st service hops_remaining path =
     (if hops_remaining = 0 \<or> gs_relay_peers st = [] then Inr None
      else relay_query_loop C W X (gs_identity st) service (hops_remaining - 1)
             (path @ [peer_id_to_string C (identity_peer_id C (gs_identity st))]) 0 (gs_relay_peers st))"

section \<open>Asking the real server\<close>

definition prefer_ipv4 :: "sock_addr list \<Rightarrow> sock_addr list" where
  "prefer_ipv4 addrs =
     (case find (\<lambda>a. case fst a of V4 _ \<Rightarrow> True | V6 _ \<Rightarrow> False) addrs of Some a \<Rightarrow> [a] | None \<Rightarrow> addrs)"

definition MAX_HTTP_REDIRECTS :: nat where "MAX_HTTP_REDIRECTS = 5"

definition accept_upstream ::
  "('sk, 'vk, 'z) crypto_scheme \<Rightarrow> nat \<Rightarrow> 'u http_response \<Rightarrow> gateway_error + gateway_result" where
  "accept_upstream C max_bytes response =
     (if (case hr_content_length response of None \<Rightarrow> False | Some len \<Rightarrow> len > max_bytes) then Inl GUpstreamBlocked
      else res_bind (res_map_err (\<lambda>_. GUpstreamBlocked) (read_body max_bytes [] (hr_chunks response))) (\<lambda>body.
        Inr (ResultHttp (hr_status response) (blake3_content_hash C body) body (hr_cache_control response))))"

function upstream_from ::
  "('sk, 'vk, 'y) crypto_scheme \<Rightarrow> ('u, 'z) web_scheme \<Rightarrow> bool \<Rightarrow> nat \<Rightarrow> nat \<Rightarrow> 'u
     \<Rightarrow> (gateway_error + gateway_result) \<times> connection list" where
  "upstream_from C N allow_private max_bytes left current =
     (case open_hop N allow_private prefer_ipv4 (MAX_HTTP_REDIRECTS - left) current of
        (Inl _, tr) \<Rightarrow> (Inl GUpstreamBlocked, tr)
      | (Inr response, tr) \<Rightarrow>
          if is_redirection (hr_status response) then
            (if left = 0 then (Inl GUpstreamBlocked, tr)
             else case Option.bind (hr_location response) (web_join N current) of
                    None \<Rightarrow> (Inl GUpstreamBlocked, tr)
                  | Some target \<Rightarrow>
                      (case upstream_from C N allow_private max_bytes (left - 1) target of (r, tr') \<Rightarrow> (r, tr @ tr')))
          else (accept_upstream C max_bytes response, tr))"
  by pat_completeness auto
termination
  by (relation "measure (\<lambda>(C, N, allow_private, max_bytes, left, current). left)") auto

declare upstream_from.simps [simp del]

definition fetch_upstream_http ::
  "('sk, 'vk, 'y) crypto_scheme \<Rightarrow> ('u, 'z) web_scheme \<Rightarrow> string \<Rightarrow> bool \<Rightarrow> nat
     \<Rightarrow> (gateway_error + gateway_result) \<times> connection list" where
  "fetch_upstream_http C N url allow_private max_bytes =
     (case web_parse N url of
        None \<Rightarrow> (Inl GUpstreamBlocked, [])
      | Some current \<Rightarrow> upstream_from C N allow_private max_bytes MAX_HTTP_REDIRECTS current)"

text \<open>The servers are tried in order; \<open>S n\<close> is the socket of the \<open>n\<close>-th attempt.\<close>

fun try_ntp_servers :: "(nat \<Rightarrow> ntp_socket) \<Rightarrow> nat \<Rightarrow> string list \<Rightarrow> gateway_error + gateway_result option" where
  "try_ntp_servers S n [] = Inl GNtpUpstream"
| "try_ntp_servers S n (server # servers) =
     (case query_upstream (S n) server of
        Inr t \<Rightarrow> Inr (Some (ResultNtp t))
      | Inl _ \<Rightarrow> try_ntp_servers S (Suc n) servers)"

definition resolve_directly ::
  "('sk, 'vk, 'y) crypto_scheme \<Rightarrow> ('u, 'z) web_scheme \<Rightarrow> (nat \<Rightarrow> ntp_socket) \<Rightarrow> gateway_config \<Rightarrow> gateway_service
     \<Rightarrow> gateway_error + gateway_result option" where
  "resolve_directly C N S config service =
     (case service of
        ServiceNtp \<Rightarrow>
          (if gc_ntp_upstream_servers config = [] then Inr None else try_ntp_servers S 0 (gc_ntp_upstream_servers config))
      | ServiceHttp url \<Rightarrow>
          (if \<not> gc_http_allow_upstream config then Inr None
           else res_bind (fst (fetch_upstream_http C N url (gc_http_allow_private_networks config)
                  (gc_http_max_response_bytes config))) (\<lambda>r. Inr (Some r))))"

section \<open>The engine\<close>

text \<open>What one resolution meets: the time of the cache lookup and of the store, and the outside.\<close>

record 'u gateway_env =
  ge_now :: instant
  ge_stored :: instant
  ge_hash_order :: "string list \<Rightarrow> string list"
  ge_query :: "nat \<Rightarrow> peer_exchange"
  ge_relay :: "nat \<Rightarrow> peer_exchange"
  ge_ntp :: "nat \<Rightarrow> ntp_socket"
  ge_web :: "'u web"

definition resolve_gateway_query ::
  "('sk, 'vk, 'z) codec_scheme \<Rightarrow> ('vk, 'w) gateway_wire_scheme \<Rightarrow> 'u gateway_env \<Rightarrow> 'sk gateway_state \<Rightarrow> gateway_service
     \<Rightarrow> 8 word \<Rightarrow> string list \<Rightarrow> (gateway_error + gateway_result \<times> served_from) \<times> 'sk gateway_state" where
  "resolve_gateway_query C W E st service hops_remaining path =
     (case cache_get service (ge_now E) (gs_cache st) of
        Some result \<Rightarrow> (Inr (result, FromCache), st)
      | None \<Rightarrow>
     if gs_query_peers st \<noteq> [] then
       (case fanout_and_verify C W (ge_hash_order E) (ge_query E) st service of
          Inl e \<Rightarrow> (Inl e, st)
        | Inr verified \<Rightarrow>
            (let ttl = compute_cache_ttl service verified (gs_config st)
             in (Inr (verified, FromQuorum), st\<lparr>gs_cache := cache_put service verified ttl (ge_stored E) (gs_cache st)\<rparr>)))
     else
       (let relayed = res_bind (relay_gateway_query C W (ge_relay E) st service hops_remaining path) (\<lambda>found.
              res_bind (ok_or GCannotResolve found) (\<lambda>result. Inr (result, FromRelay)))
        in case resolve_directly C (ge_web E) (ge_ntp E) (gs_config st) service of
             Inr (Some result) \<Rightarrow> (Inr (result, FromOrigin), st)
           | Inr None \<Rightarrow> (relayed, st)
           | Inl _ \<Rightarrow> (relayed, st)))"

definition query_inner ::
  "('sk, 'vk, 'z) codec_scheme \<Rightarrow> ('vk, 'w) gateway_wire_scheme \<Rightarrow> 'u gateway_env \<Rightarrow> i64 \<Rightarrow> i64 \<Rightarrow> instant \<Rightarrow> gateway_request
     \<Rightarrow> 'sk gateway_state \<Rightarrow> (gateway_error + gateway_response) \<times> 'sk gateway_state" where
  "query_inner C W E now resolved_at arrived req st =
     (case verify_gateway_request C W req now of
        Inl e \<Rightarrow> (Inl e, st)
      | Inr (requester, nonce) \<Rightarrow>
     (case check arrived (peer_id_to_string C requester) (gs_limiter st) of (ok, limiter') \<Rightarrow>
      let st1 = st\<lparr>gs_limiter := limiter'\<rparr> in
      if \<not> ok then (Inl GRateLimited, st1)
      else case resolve_gateway_query C W E st1 (gq_service (gq_unsigned req)) (gq_hops_remaining (gq_unsigned req))
                  (gq_path (gq_unsigned req)) of
             (Inl e, st2) \<Rightarrow> (Inl e, st2)
           | (Inr (result, served), st2) \<Rightarrow>
               (build_and_sign_gateway_response C W (gs_identity st) result nonce resolved_at served, st2)))"

section \<open>The front ends\<close>

definition require_quorum_capable :: "'sk gateway_state \<Rightarrow> bool" where
  "require_quorum_capable st \<longleftrightarrow> \<not> length (gs_query_peers st) < gc_quorum_min_agree (gs_config st)"

definition resolve_for_front_end ::
  "('sk, 'vk, 'z) codec_scheme \<Rightarrow> ('vk, 'w) gateway_wire_scheme \<Rightarrow> 'u gateway_env \<Rightarrow> gateway_service \<Rightarrow> 'sk gateway_state
     \<Rightarrow> (gateway_error + gateway_result) \<times> 'sk gateway_state" where
  "resolve_for_front_end C W E service st =
     (case resolve_gateway_query C W E st service (gc_hops_remaining (gs_config st)) [] of
        (r, st') \<Rightarrow> (res_bind r (\<lambda>(result, _). Inr result), st'))"

text \<open>An answer to an HTTP client: a status and a body; the JSON body of an error is left out.\<close>

definition http_front_end_handler ::
  "('sk, 'vk, 'z) codec_scheme \<Rightarrow> ('vk, 'w) gateway_wire_scheme \<Rightarrow> 'u gateway_env \<Rightarrow> string \<Rightarrow> string option
     \<Rightarrow> 'sk gateway_state \<Rightarrow> (nat \<times> byte list option) \<times> 'sk gateway_state" where
  "http_front_end_handler C W E target_path query st =
     (let target = (case query of Some q \<Rightarrow> target_path @ ''?'' @ q | None \<Rightarrow> target_path) in
      case resolve_for_front_end C W E (ServiceHttp target) st of
        (Inr (ResultHttp status _ body _), st') \<Rightarrow> ((if 100 \<le> status \<and> status \<le> 999 then status else 200, Some body), st')
      | (Inr (ResultNtp _), st') \<Rightarrow> ((500, None), st')
      | (Inl e, st') \<Rightarrow> ((gateway_status e, None), st'))"

text \<open>One datagram at the NTP front end; nothing is sent unless there is a verified answer.\<close>

definition ntp_front_end_step ::
  "('sk, 'vk, 'z) codec_scheme \<Rightarrow> ('vk, 'w) gateway_wire_scheme \<Rightarrow> 'u gateway_env \<Rightarrow> byte list \<Rightarrow> 'sk gateway_state
     \<Rightarrow> byte list option \<times> 'sk gateway_state" where
  "ntp_front_end_step C W E datagram st =
     (case parse_client_request datagram of
        None \<Rightarrow> (None, st)
      | Some transmit_unix_ms \<Rightarrow>
          (case resolve_for_front_end C W E ServiceNtp st of
             (Inr (ResultNtp t), st') \<Rightarrow> (Some (build_server_response transmit_unix_ms t), st')
           | (_, st') \<Rightarrow> (None, st')))"

section \<open>Instances of the shared contracts\<close>

interpretation gateway_fetch: redirect_loop N allow_private prefer_ipv4 "upstream_from C N allow_private max_bytes"
  "\<lambda>_. GUpstreamBlocked" "accept_upstream C max_bytes"
  for C :: "('sk, 'vk, 'y) crypto_scheme" and N :: "('u, 'z) web_scheme" and allow_private max_bytes
proof
  show "set (prefer_ipv4 as) \<subseteq> set as" for as
    by (auto simp: prefer_ipv4_def find_Some_iff split: option.splits)
  have "MAX_HTTP_REDIRECTS = MAX_REDIRECTS" by (simp add: MAX_HTTP_REDIRECTS_def MAX_REDIRECTS_def)
  then show "upstream_from C N allow_private max_bytes left current =
      (case open_hop N allow_private prefer_ipv4 (MAX_REDIRECTS - left) current of
         (Inl e, tr) \<Rightarrow> (Inl GUpstreamBlocked, tr)
       | (Inr response, tr) \<Rightarrow>
           if is_redirection (hr_status response) then
             (if left = 0 then (Inl GUpstreamBlocked, tr)
              else case Option.bind (hr_location response) (web_join N current) of
                     None \<Rightarrow> (Inl GUpstreamBlocked, tr)
                   | Some target \<Rightarrow> (case upstream_from C N allow_private max_bytes (left - 1) target of
                                       (r, tr') \<Rightarrow> (r, tr @ tr')))
           else (accept_upstream C max_bytes response, tr))" for left current
    by (subst upstream_from.simps) simp
qed

interpretation query_claim: signed_claim C W GATEWAY_REQUEST_DOMAIN
  "\<lambda>r. gq_requester_peer_id (gq_unsigned r)" "\<lambda>r. gq_requester_public_key (gq_unsigned r)" gq_signature
  "\<lambda>r. jcs_gateway_request W (gq_unsigned r)" "\<lambda>r. gq_requested_at (gq_unsigned r)"
  "\<lambda>r now p. \<exists>n. verify_gateway_request C W r now = Inr (p, n)"
  "\<lambda>r. decode_hex_array C 32 (gq_nonce (gq_unsigned r)) \<noteq> None"
  "\<lambda>k (service, nonce, hops, path) t. build_and_sign_gateway_request C W k service nonce t hops path"
  for C :: "('sk, 'vk, 'z) codec_scheme" and W :: "('vk, 'w) gateway_wire_scheme"
  by unfold_locales
    (auto simp: verify_gateway_request_def vouched_def build_and_sign_gateway_request_def Let_def split: if_splits)

interpretation answer_claim: signed_claim C W GATEWAY_RESPONSE_DOMAIN
  "\<lambda>r. gp_responder_peer_id (gp_unsigned r)" "\<lambda>r. gp_responder_public_key (gp_unsigned r)" gp_signature
  "\<lambda>r. jcs_gateway_response W (gp_unsigned r)" "\<lambda>r. gp_resolved_at (gp_unsigned r)"
  "\<lambda>r now p. verify_gateway_response C W r nonce now = Inr p"
  "\<lambda>r. decode_hex_array C 32 (gp_nonce (gp_unsigned r)) = Some nonce"
  "\<lambda>k (result, nonce, served) t. build_and_sign_gateway_response C W k result nonce t served"
  for C :: "('sk, 'vk, 'z) codec_scheme" and W :: "('vk, 'w) gateway_wire_scheme" and nonce
  by unfold_locales
    (auto simp: verify_gateway_response_def vouched_def build_and_sign_gateway_response_def Let_def split: if_splits)

section \<open>What a quorum is\<close>

lemma foldl_best:
  "(foldl (\<lambda>best v. if length (f v) > length best then f v else best) [] xs = [] \<or>
    (\<exists>v\<in>set xs. foldl (\<lambda>best v. if length (f v) > length best then f v else best) [] xs = f v)) \<and>
   (\<forall>v\<in>set xs. length (f v) \<le> length (foldl (\<lambda>best v. if length (f v) > length best then f v else best) [] xs))"
  by (induction xs rule: rev_induct) auto

lemma largest_cluster_best:
  assumes "largest_cluster tol vs \<noteq> []"
  shows "\<exists>v\<in>set vs. largest_cluster tol vs = filter (near tol v) vs"
  using assms foldl_best [of "\<lambda>v. filter (near tol v) vs" vs] by (auto simp: largest_cluster_def Let_def)

lemma largest_cluster_ge: "v \<in> set vs \<Longrightarrow> length (filter (near tol v) vs) \<le> length (largest_cluster tol vs)"
  using foldl_best [of "\<lambda>v. filter (near tol v) vs" vs] by (simp add: largest_cluster_def Let_def)

lemma foldl_max:
  fixes f :: "'a \<Rightarrow> nat"
  shows "foldl (\<lambda>m y. if f m > f y then m else y) x ys \<in> set (x # ys) \<and>
    (\<forall>z\<in>set (x # ys). f z \<le> f (foldl (\<lambda>m y. if f m > f y then m else y) x ys))"
  by (induction ys rule: rev_induct) auto

lemma max_by_key_Some:
  assumes "max_by_key f xs = Some m"
  shows "m \<in> set xs" "z \<in> set xs \<Longrightarrow> f z \<le> f m"
  using assms foldl_max [of f "hd xs" "tl xs"] by (auto simp: max_by_key_def split: list.splits)

lemma max_by_key_None: "max_by_key f xs = None \<longleftrightarrow> xs = []"
  by (simp add: max_by_key_def split: list.splits)

text \<open>
  Answers that back one another: times near a common value, or pages with the same hash.  A quorum
  for a service is \<open>n\<close> answers, one of them the result, that back one another.
\<close>

definition backs :: "i64 \<Rightarrow> i64 \<Rightarrow> gateway_result \<Rightarrow> gateway_result \<Rightarrow> bool" where
  "backs tol v r x =
     (case (r, x) of
        (ResultNtp t, ResultNtp u) \<Rightarrow> near tol v t \<and> near tol v u
      | (ResultHttp _ h _ _, ResultHttp _ h' _ _) \<Rightarrow> h = h'
      | _ \<Rightarrow> False)"

definition answers_service :: "gateway_service \<Rightarrow> gateway_result \<Rightarrow> bool" where
  "answers_service service r =
     (case (service, r) of (ServiceNtp, ResultNtp _) \<Rightarrow> True | (ServiceHttp _, ResultHttp _ _ _ _) \<Rightarrow> True | _ \<Rightarrow> False)"

definition successes :: "('e + 'a) list \<Rightarrow> 'a list" where
  "successes outcomes = List.map_filter (\<lambda>r. case r of Inr v \<Rightarrow> Some v | Inl _ \<Rightarrow> None) outcomes"

definition permutes_keys :: "(string list \<Rightarrow> string list) \<Rightarrow> bool" where
  "permutes_keys hash_order \<longleftrightarrow> (\<forall>ks. set (hash_order ks) = set ks)"

lemma set_successes: "set (successes outcomes) = {x. Inr x \<in> set outcomes}"
  by (induction outcomes) (auto simp: successes_def map_filter_simps split: sum.splits)

lemma ntp_value_Some: "ntp_value x = Some t \<longleftrightarrow> x = ResultNtp t"
  by (cases x) (auto simp: ntp_value_def)

lemma http_quorum:
  assumes "permutes_keys ho" "0 < n"
  shows "aggregate_quorum ho (ServiceHttp url) outcomes tol n = Inr r \<Longrightarrow>
      r \<in> set (successes outcomes) \<and> (\<exists>h. http_hash r = Some h \<and> n \<le> length (filter (\<lambda>x. http_hash x = Some h) (successes outcomes)))"
    and "aggregate_quorum ho (ServiceHttp url) outcomes tol n = Inl e \<Longrightarrow>
      e = GNoQuorum \<and> length (filter (\<lambda>x. http_hash x = Some h) (successes outcomes)) < n"
proof -
  let ?oks = "successes outcomes" and ?groups = "http_groups ho (successes outcomes)"
  let ?of = "\<lambda>h. filter (\<lambda>x. http_hash x = Some h) ?oks"
  have grp: "g \<in> set ?groups \<longleftrightarrow> (\<exists>h. (\<exists>x\<in>set ?oks. http_hash x = Some h) \<and> g = (h, ?of h))" for g
    using assms(1) by (auto simp: http_groups_def permutes_keys_def set_map_filter)
  note agg = aggregate_quorum_def [of ho "ServiceHttp url" outcomes tol n, folded successes_def, unfolded Let_def, simplified]
  {
    assume "aggregate_quorum ho (ServiceHttp url) outcomes tol n = Inr r"
    then obtain h rs where m: "max_by_key (\<lambda>(_, v). length v) ?groups = Some (h, r # rs)" "n \<le> length (r # rs)"
      by (auto simp: agg split: option.splits if_splits list.splits)
    from max_by_key_Some(1) [OF m(1)] have of: "?of h = r # rs" by (auto simp: grp)
    have "r \<in> set (?of h)" unfolding of by simp
    then have "r \<in> set ?oks" "http_hash r = Some h" by (simp_all only: set_filter mem_Collect_eq)
    with of m(2) show "r \<in> set ?oks \<and> (\<exists>h. http_hash r = Some h \<and> n \<le> length (?of h))" by auto
  next
    assume err: "aggregate_quorum ho (ServiceHttp url) outcomes tol n = Inl e"
    show "e = GNoQuorum \<and> length (?of h) < n"
    proof (cases "max_by_key (\<lambda>(_, v). length v) ?groups")
      case None
      then have "?groups = []" by (simp add: max_by_key_None)
      with grp [of "(h, ?of h)"] have "?of h = []" by (auto simp: filter_empty_conv)
      with err None assms(2) show ?thesis by (simp add: agg)
    next
      case (Some m)
      then have small: "length (snd m) < n" and e: "e = GNoQuorum"
        using err assms(2) by (auto simp: agg split: if_splits list.splits prod.splits)
      have "length (?of h) \<le> length (snd m)"
      proof (cases "?of h = []")
        case False
        then obtain x where "x \<in> set ?oks" "http_hash x = Some h" by (auto simp: filter_empty_conv)
        then have "(h, ?of h) \<in> set ?groups" using grp by blast
        from max_by_key_Some(2) [OF Some this] show ?thesis by (simp add: case_prod_beta)
      qed simp
      with small e show ?thesis by simp
    qed
  }
qed

lemma sort_key_nth_mem: "i < length xs \<Longrightarrow> sort_key f xs ! i \<in> set xs"
  by (metis length_sort nth_mem set_sort)

lemma sort_key_empty [simp]: "sort_key f xs = [] \<longleftrightarrow> xs = []"
  by (metis length_0_conv length_sort)

lemma ntp_quorum:
  assumes "0 < n"
  shows "aggregate_quorum ho ServiceNtp outcomes tol n = Inr r \<Longrightarrow>
      \<exists>v t. r = ResultNtp t \<and> v \<in> set (List.map_filter ntp_value (successes outcomes)) \<and>
        t \<in> set (List.map_filter ntp_value (successes outcomes)) \<and> near tol v t \<and>
        n \<le> length (filter (near tol v) (List.map_filter ntp_value (successes outcomes)))"
    and "aggregate_quorum ho ServiceNtp outcomes tol n = Inl e \<Longrightarrow>
      e = GNoQuorum \<and> (v \<in> set (List.map_filter ntp_value (successes outcomes)) \<longrightarrow>
        length (filter (near tol v) (List.map_filter ntp_value (successes outcomes))) < n)"
proof -
  let ?vs = "List.map_filter ntp_value (successes outcomes)"
  let ?best = "largest_cluster tol ?vs"
  note agg = aggregate_quorum_def [of ho ServiceNtp outcomes tol n, folded successes_def, unfolded Let_def, simplified]
  {
    assume "aggregate_quorum ho ServiceNtp outcomes tol n = Inr r"
    then have r: "r = ResultNtp (sort_key sint ?best ! (length ?best div 2))" and len: "n \<le> length ?best"
      by (auto simp: agg split: if_splits)
    then have "?best \<noteq> []" using assms by auto
    then obtain v where v: "v \<in> set ?vs" "?best = filter (near tol v) ?vs" using largest_cluster_best by blast
    have "sort_key sint ?best ! (length ?best div 2) \<in> set ?best"
      using \<open>?best \<noteq> []\<close> by (intro sort_key_nth_mem) simp
    with r len v show "\<exists>v t. r = ResultNtp t \<and> v \<in> set ?vs \<and> t \<in> set ?vs \<and> near tol v t \<and> n \<le> length (filter (near tol v) ?vs)"
      by auto
  next
    assume "aggregate_quorum ho ServiceNtp outcomes tol n = Inl e"
    then have "e = GNoQuorum" "length ?best < n" using assms by (auto simp: agg split: if_splits)
    then show "e = GNoQuorum \<and> (v \<in> set ?vs \<longrightarrow> length (filter (near tol v) ?vs) < n)"
      using largest_cluster_ge [of v ?vs tol] by auto
  }
qed

text \<open>Counting the positions of the answers that satisfy a predicate.\<close>

lemma success_positions:
  "length (filter P (successes outcomes)) = card {i. i < length outcomes \<and> (\<exists>x. outcomes ! i = Inr x \<and> P x)}"
proof -
  have "length (filter P (successes outcomes)) = length (filter (\<lambda>o'. \<exists>x. o' = Inr x \<and> P x) outcomes)"
    by (induction outcomes) (auto simp: successes_def map_filter_simps split: sum.splits)
  then show ?thesis by (simp add: length_filter_conv_card)
qed

lemma ntp_positions:
  "length (filter P (List.map_filter ntp_value rs)) = length (filter (\<lambda>x. \<exists>t. x = ResultNtp t \<and> P t) rs)"
  by (induction rs) (auto simp: map_filter_simps ntp_value_def split: gateway_result.splits)

text \<open>
  Quorum, in terms of the answers at the single positions: the result is one of them, and at least
  \<open>n\<close> of them back it; without such a group there is no answer at all.
\<close>

definition backers :: "i64 \<Rightarrow> i64 \<Rightarrow> gateway_result \<Rightarrow> ('e + gateway_result) list \<Rightarrow> nat set" where
  "backers tol v r outcomes = {i. i < length outcomes \<and> (\<exists>x. outcomes ! i = Inr x \<and> backs tol v r x)}"

lemma aggregate_sound:
  assumes "permutes_keys ho" "0 < n" "aggregate_quorum ho service outcomes tol n = Inr r"
  shows "answers_service service r \<and> Inr r \<in> set outcomes \<and> (\<exists>v. n \<le> card (backers tol v r outcomes))"
proof (cases service)
  case ServiceNtp
  obtain v t where r: "r = ResultNtp t" and t: "t \<in> set (List.map_filter ntp_value (successes outcomes))" "near tol v t"
    and n: "n \<le> length (filter (near tol v) (List.map_filter ntp_value (successes outcomes)))"
    using ntp_quorum(1) [OF assms(2) assms(3) [unfolded ServiceNtp]] by blast
  have "(\<exists>t. x = ResultNtp t \<and> near tol v t) \<longleftrightarrow> backs tol v r x" for x
    using t(2) by (simp add: backs_def r split: gateway_result.splits)
  then have "n \<le> card (backers tol v r outcomes)"
    using n by (simp add: ntp_positions success_positions backers_def)
  moreover have "Inr r \<in> set outcomes"
    using t(1) by (simp add: r set_map_filter set_successes ntp_value_Some)
  ultimately show ?thesis by (auto simp: answers_service_def r ServiceNtp)
next
  case (ServiceHttp url)
  obtain h where mem: "r \<in> set (successes outcomes)" and h: "http_hash r = Some h"
    and n: "n \<le> length (filter (\<lambda>x. http_hash x = Some h) (successes outcomes))"
    using http_quorum(1) [OF assms(1,2) assms(3) [unfolded ServiceHttp]] by blast
  have "http_hash x = Some h \<longleftrightarrow> backs tol v r x" for v x
    using h by (auto simp: backs_def http_hash_def split: gateway_result.splits)
  then have "n \<le> card (backers tol v r outcomes)" for v
    using n by (simp add: success_positions backers_def)
  moreover have "Inr r \<in> set outcomes"
    using mem by (simp add: set_successes)
  moreover have "answers_service service r"
    using h by (auto simp: answers_service_def ServiceHttp http_hash_def split: gateway_result.splits)
  ultimately show ?thesis by blast
qed

lemma aggregate_complete:
  assumes "permutes_keys ho" "0 < n" "aggregate_quorum ho service outcomes tol n = Inl e"
    and "answers_service service r" "Inr r \<in> set outcomes"
  shows "e = GNoQuorum \<and> card {i. i < length outcomes \<and> (\<exists>x. outcomes ! i = Inr x \<and>
    (case r of ResultNtp v \<Rightarrow> (\<exists>t. x = ResultNtp t \<and> near tol v t) | ResultHttp _ h _ _ \<Rightarrow> http_hash x = Some h))} < n"
proof (cases service)
  case ServiceNtp
  then obtain v where r: "r = ResultNtp v" using assms(4) by (auto simp: answers_service_def split: gateway_result.splits)
  then have "v \<in> set (List.map_filter ntp_value (successes outcomes))"
    using assms(5) by (force simp: set_map_filter set_successes ntp_value_def)
  then show ?thesis
    using ntp_quorum(2) [OF assms(2) assms(3) [unfolded ServiceNtp], of v] by (simp add: r ntp_positions success_positions)
next
  case (ServiceHttp url)
  then obtain s h b c where r: "r = ResultHttp s h b c" using assms(4) by (auto simp: answers_service_def split: gateway_result.splits)
  then show ?thesis
    using http_quorum(2) [OF assms(1,2) assms(3) [unfolded ServiceHttp], of h] by (simp add: success_positions)
qed

section \<open>What an answer of a peer is\<close>

definition vouched_answer ::
  "('sk, 'vk, 'z) codec_scheme \<Rightarrow> ('vk, 'w) gateway_wire_scheme \<Rightarrow> peer_exchange \<Rightarrow> peer_id \<Rightarrow> gateway_result \<Rightarrow> bool" where
  "vouched_answer C W X p result \<longleftrightarrow>
     (\<exists>resp :: gateway_response. decode_hex_array C 32 (gp_nonce (gp_unsigned resp)) = Some (px_nonce X) \<and>
        vouched C W GATEWAY_RESPONSE_DOMAIN (gp_responder_peer_id (gp_unsigned resp))
          (gp_responder_public_key (gp_unsigned resp)) (jcs_gateway_response W (gp_unsigned resp)) (gp_signature resp) p \<and>
        result = (case gp_result (gp_unsigned resp) of
                    ResultNtp t \<Rightarrow> ResultNtp (t + half_rtt (px_rtt X)) | other \<Rightarrow> other))"

lemma query_peer_vouched:
  assumes "query_peer C W X identity peer service hops path = Inr result"
  shows "vouched_answer C W X (rp_peer_id peer) result"
proof -
  obtain resp :: gateway_response where "verify_gateway_response C W resp (px_nonce X) (px_now X) = Inr (rp_peer_id peer)"
    and "result = (case gp_result (gp_unsigned resp) of
                    ResultNtp t \<Rightarrow> ResultNtp (t + half_rtt (px_rtt X)) | other \<Rightarrow> other)"
    using assms by (auto simp: query_peer_def split: if_splits)
  then show ?thesis
    using answer_claim.accepts_iff [where C = C and W = W and c = resp and nonce = "px_nonce X" and now = "px_now X" and p = "rp_peer_id peer"]
    unfolding vouched_answer_def by blast
qed

lemma fanout_outcome_vouched:
  assumes "i < length (fanout_peers st)" "fanout_outcomes C W X st service ! i = Inr x"
  shows "vouched_answer C W (X i) (rp_peer_id (fanout_peers st ! i)) x"
  using assms query_peer_vouched [of C W "X i" "gs_identity st" "fanout_peers st ! i"]
  by (auto simp: fanout_outcomes_def nth_enumerate_eq res_map_err_def split: sum.splits)

lemma fanout_length [simp]: "length (fanout_outcomes C W X st service) = length (fanout_peers st)"
  by (simp add: fanout_outcomes_def)

end
