(* ===== verification/Internet.thy ===== *)
theory Internet
  imports Gateway Network
begin

text \<open>
  What a peer guarantees about the outside world: answers of the gateway are backed by a quorum of
  signed answers, what the front ends serve is such an answer no older than its time to live,
  requests to the web stay off the local network, and the time of a real server is read within
  half the asymmetry of the round trip.
\<close>

section \<open>Quorum\<close>

definition agrees_with :: "i64 \<Rightarrow> gateway_result \<Rightarrow> gateway_result \<Rightarrow> bool" where
  "agrees_with tol r x =
     (case r of ResultNtp v \<Rightarrow> (\<exists>t. x = ResultNtp t \<and> near tol v t) | ResultHttp _ h _ _ \<Rightarrow> http_hash x = Some h)"

lemma near_sane:
  assumes "\<bar>sint v\<bar> < 2 ^ 62" "\<bar>sint x\<bar> < 2 ^ 62"
  shows "near tol v x \<longleftrightarrow> \<bar>sint x - sint v\<bar> \<le> sint tol"
proof -
  have "sint (x - v) = sint x - sint v" using assms by (intro sint_diff_i64) auto
  moreover have "sint (- (x - v)) = sint v - sint x" using assms sint_diff_i64 [of v x] by auto
  ultimately show ?thesis by (auto simp: near_def i64_abs_def)
qed

text \<open>
  The wrap-around of the subtraction makes the opposite end of the range agree with everything, and
  agreement on a page is agreement on a claimed hash: the body is the first peer's.
\<close>

lemma overflow_counts_as_agreement: "near tol v (v + 2 ^ 63)"
proof -
  have "sint (i64_abs (2 ^ 63 :: i64)) = - (2 ^ 63)" by (simp add: i64_abs_def)
  then show ?thesis using sint_range_i64(1) [of tol] by (simp add: near_def)
qed

lemma http_quorum_does_not_bind_the_body:
  "aggregate_quorum id (ServiceHttp u) [Inr (ResultHttp 200 h forged None), Inr (ResultHttp 200 h page None)] 0 2
     = Inr (ResultHttp 200 h forged None)"
  by (simp add: aggregate_quorum_def http_groups_def map_filter_simps http_hash_def max_by_key_def)

lemma no_quorum_configured_panics: "aggregate_quorum ho ServiceNtp [] tol 0 = Inl GPanic"
  by (simp add: aggregate_quorum_def largest_cluster_def map_filter_simps)

lemma small_fanout_never_answers:
  assumes "permutes_keys ho" "0 < gc_fanout_count (gs_config st)" "gc_fanout_count (gs_config st) < gc_quorum_min_agree (gs_config st)"
  shows "\<exists>e. fanout_and_verify C W ho X st service = Inl e"
proof (rule ccontr)
  assume "\<not> ?thesis"
  then obtain r where "fanout_and_verify C W ho X st service = Inr r" by (metis sum.exhaust)
  then obtain v where "gc_quorum_min_agree (gs_config st) \<le> card (backers (gc_ntp_tolerance_ms (gs_config st)) v r (fanout_outcomes C W X st service))"
    using aggregate_sound [OF assms(1)] assms(2,3) by (fastforce simp: fanout_and_verify_def)
  also have "\<dots> \<le> card {..<length (fanout_peers st)}" by (rule card_mono) (auto simp: backers_def)
  also have "\<dots> \<le> gc_fanout_count (gs_config st)" using assms(2) by (simp add: fanout_peers_def Let_def)
  finally show False using assms(3) by simp
qed

text \<open>
  C23. The gateway answers a fan-out exactly when enough query peers agree.  An answer is of the kind
  that was asked for, and at least \<^verbatim>\<open>quorum_min_agree\<close> of the asked peers each signed, over the nonce
  sent to that peer, an answer that backs it: the same content hash, or a time within the tolerance of
  a common value.  Otherwise the error is \<open>GNoQuorum\<close>, and no received answer has that many peers
  agreeing with it.
\<close>

theorem quorum_answers_are_backed:
  assumes "permutes_keys ho" "0 < gc_quorum_min_agree (gs_config st)"
    and "fanout_and_verify C W ho X st service = out"
  shows "case out of
      Inr r \<Rightarrow> answers_service service r \<and>
        (\<exists>v I. I \<subseteq> {..<length (fanout_peers st)} \<and> gc_quorum_min_agree (gs_config st) \<le> card I \<and>
          (\<forall>i\<in>I. \<exists>x. vouched_answer C W (X i) (rp_peer_id (fanout_peers st ! i)) x \<and>
             backs (gc_ntp_tolerance_ms (gs_config st)) v r x))
    | Inl e \<Rightarrow> e = GNoQuorum \<and>
        (\<forall>r. answers_service service r \<and> Inr r \<in> set (fanout_outcomes C W X st service) \<longrightarrow>
          card {i. i < length (fanout_peers st) \<and> (\<exists>x. fanout_outcomes C W X st service ! i = Inr x \<and>
             agrees_with (gc_ntp_tolerance_ms (gs_config st)) r x)} < gc_quorum_min_agree (gs_config st))"
proof (cases out)
  case (Inl e)
  note agg = assms(3) [unfolded Inl fanout_and_verify_def]
  have "e = GNoQuorum" using ntp_quorum(2) http_quorum(2) assms(1,2) agg by (cases service) blast+
  then show ?thesis
    using aggregate_complete [OF assms(1,2) agg] by (simp add: Inl agrees_with_def)
next
  case (Inr r)
  let ?tol = "gc_ntp_tolerance_ms (gs_config st)" and ?os = "fanout_outcomes C W X st service"
  obtain v where r: "answers_service service r" "gc_quorum_min_agree (gs_config st) \<le> card (backers ?tol v r ?os)"
    using aggregate_sound [OF assms(1,2) assms(3) [unfolded Inr fanout_and_verify_def]] by blast
  have "backers ?tol v r ?os \<subseteq> {..<length (fanout_peers st)}" by (auto simp: backers_def)
  moreover have "\<exists>x. vouched_answer C W (X i) (rp_peer_id (fanout_peers st ! i)) x \<and> backs ?tol v r x" if "i \<in> backers ?tol v r ?os" for i
    using that fanout_outcome_vouched [of i st C W X service] by (auto simp: backers_def)
  ultimately show ?thesis using r by (auto simp: Inr intro!: exI [of _ v] exI [of _ "backers ?tol v r ?os"])
qed

section \<open>The front ends\<close>

text \<open>
  The states a gateway reaches: it starts with an empty cache; its limiter changes; and answers of
  a fan-out are stored.  Resolutions of several clients interleave as sequences of these steps.
\<close>

inductive gateway_reaches ::
  "('sk, 'vk, 'z) codec_scheme \<Rightarrow> ('vk, 'w) gateway_wire_scheme \<Rightarrow> 'sk gateway_state \<Rightarrow> bool"
  for C :: "('sk, 'vk, 'z) codec_scheme" and W :: "('vk, 'w) gateway_wire_scheme" where
  start: "gs_cache st = Map.empty \<Longrightarrow> gateway_reaches C W st"
| limited: "gateway_reaches C W st \<Longrightarrow> gateway_reaches C W (st\<lparr>gs_limiter := l\<rparr>)"
| stored: "gateway_reaches C W st \<Longrightarrow> permutes_keys ho \<Longrightarrow> fanout_and_verify C W ho X st service = Inr v \<Longrightarrow>
    gateway_reaches C W (st\<lparr>gs_cache := cache_put service v (compute_cache_ttl service v (gs_config st)) t (gs_cache st)\<rparr>)"

lemma fanout_cong [simp]:
  "fanout_and_verify C W ho X (st\<lparr>gs_limiter := l\<rparr>) = fanout_and_verify C W ho X st"
  "fanout_and_verify C W ho X (st\<lparr>gs_cache := c\<rparr>) = fanout_and_verify C W ho X st"
  by (auto simp: fun_eq_iff fanout_and_verify_def fanout_outcomes_def fanout_peers_def)

lemma cache_key_inj: "cache_key s = cache_key s' \<longleftrightarrow> s = s'"
  by (auto simp: cache_key_def split: gateway_service.splits)

lemma cached_was_verified:
  assumes "gateway_reaches C W st" "gs_cache st (cache_key service) = Some entry"
  shows "\<exists>ho X. permutes_keys ho \<and> fanout_and_verify C W ho X st service = Inr (ce_result entry) \<and>
    ce_ttl entry = compute_cache_ttl service (ce_result entry) (gs_config st)"
  using assms
proof (induction arbitrary: entry)
  case (stored st ho X s v t)
  then show ?case by (cases "s = service") (auto simp: cache_put_def cache_key_inj split: if_splits, metis+)
qed auto

lemma resolve_reaches:
  assumes "gateway_reaches C W st" "permutes_keys (ge_hash_order E)" "resolve_gateway_query C W E st service hops path = (r, st')"
  shows "gateway_reaches C W st'"
  using assms by (auto simp: resolve_gateway_query_def Let_def intro: stored split: option.splits sum.splits if_splits)

lemma query_inner_reaches:
  assumes "gateway_reaches C W st" "permutes_keys (ge_hash_order E)" "query_inner C W E now resolved_at arrived req st = (r, st')"
  shows "gateway_reaches C W st'"
  using assms by (auto simp: query_inner_def Let_def intro: limited resolve_reaches
      dest!: resolve_reaches [OF limited, rotated 2] split: prod.splits sum.splits if_splits)

lemma adjust_now [simp]: "adjust_for_elapsed v 0 = v"
  by (simp add: adjust_for_elapsed_def as_millis_def split: gateway_result.splits)

text \<open>The answer on file for a query that is younger than its time to live.\<close>

definition live_entry :: "'sk gateway_state \<Rightarrow> gateway_service \<Rightarrow> instant \<Rightarrow> cache_entry option" where
  "live_entry st service now =
     (case gs_cache st (cache_key service) of
        Some entry \<Rightarrow> if now - ce_computed_at entry < compute_cache_ttl service (ce_result entry) (gs_config st) then Some entry else None
      | None \<Rightarrow> None)"

lemma cache_get_live:
  assumes "gateway_reaches C W st"
  shows "cache_get service now (gs_cache st) =
    map_option (\<lambda>entry. adjust_for_elapsed (ce_result entry) (now - ce_computed_at entry)) (live_entry st service now)"
proof (cases "gs_cache st (cache_key service)")
  case (Some entry)
  then show ?thesis using cached_was_verified [OF assms Some] by (auto simp: cache_get_def live_entry_def Let_def)
qed (simp add: cache_get_def live_entry_def)


section \<open>The web\<close>

lemma accept_upstream_fields:
  assumes "accept_upstream C max_bytes response = Inr r"
  shows "\<exists>status body cc. r = ResultHttp status (blake3_content_hash C body) body cc \<and> length body \<le> max_bytes"
  using assms read_body_bound [of max_bytes "[]"] by (auto simp: accept_upstream_def split: if_splits)

text \<open>
  C25. Requests to the outside stay outside.  With private networks not allowed, every connection the
  crawler and the gateway open, whatever names resolve to at each hop and whatever redirects a
  server sends, is pinned to addresses that the filter passes; there are at most six connections per
  fetch; and what is returned is within the size limit, under its own hash, for the crawler of an
  allowed type.
\<close>

theorem outbound_requests_are_confined:
  assumes "\<not> allow_private_networks config"
    and "safe_fetch C N config url = (crawled, conns)" "fetch_upstream_http C N target False max_bytes = (fetched, conns')"
  shows "list_all confined (conns @ conns') \<and> length conns \<le> 6 \<and> length conns' \<le> 6 \<and>
    (case crawled of Inl _ \<Rightarrow> True
     | Inr page \<Rightarrow> length (page_body page) \<le> max_response_bytes config \<and> page_hash page = blake3_content_hash C (page_body page) \<and>
         content_type page \<in> set ALLOWED_CONTENT_TYPES) \<and>
    (case fetched of Inl _ \<Rightarrow> True
     | Inr r \<Rightarrow> \<exists>status body cc. r = ResultHttp status (blake3_content_hash C body) body cc \<and> length body \<le> max_bytes)"
proof -
  have "length conns \<le> 6 \<and> list_all confined conns"
    using crawl.loop_connections [OF assms(2) [unfolded safe_fetch_def]] assms(1) by (simp add: MAX_REDIRECTS_def)
  moreover have "case crawled of Inl _ \<Rightarrow> True
     | Inr page \<Rightarrow> length (page_body page) \<le> max_response_bytes config \<and> page_hash page = blake3_content_hash C (page_body page) \<and>
         content_type page \<in> set ALLOWED_CONTENT_TYPES"
    using crawl.loop_result [of C N config MAX_REDIRECTS url] assms(2) accept_page_fields [of C config]
    by (auto simp: safe_fetch_def split: sum.splits)
  moreover have "length conns' \<le> 6 \<and> list_all confined conns' \<and>
    (case fetched of Inl _ \<Rightarrow> True
     | Inr r \<Rightarrow> \<exists>status body cc. r = ResultHttp status (blake3_content_hash C body) body cc \<and> length body \<le> max_bytes)"
  proof (cases "web_parse N target")
    case None
    then show ?thesis using assms(3) by (auto simp: fetch_upstream_http_def)
  next
    case (Some current)
    then have run: "upstream_from C N False max_bytes MAX_HTTP_REDIRECTS current = (fetched, conns')"
      using assms(3) by (simp add: fetch_upstream_http_def)
    show ?thesis
      using gateway_fetch.loop_connections [OF run] gateway_fetch.loop_result [of C N False max_bytes MAX_HTTP_REDIRECTS current]
        run accept_upstream_fields [of C max_bytes]
      by (fastforce simp: MAX_HTTP_REDIRECTS_def split: sum.splits)
  qed
  ultimately show ?thesis by simp
qed

section \<open>Time\<close>

lemma query_upstream_Inr:
  assumes "query_upstream S addr = Inr est"
  obtains target rest datagram where "ns_lookup S addr = Some (target # rest)" "ns_recv S = Some (Some (datagram, target))"
    "48 \<le> length datagram" "hd datagram AND 7 = 4"
    "est = ns_received_at S + ntp_offset (ns_sent_at S) (read_timestamp (take 48 datagram) 32) (read_timestamp (take 48 datagram) 40)
       (ns_received_at S)"
proof -
  obtain target rest datagram sent where parts: "ns_lookup S addr = Some (target # rest)" "ns_recv S = Some (Some (datagram, target))"
    and len: "\<not> min NTP_PACKET_LEN (length datagram) < NTP_PACKET_LEN"
    and buf: "let buf = take (min NTP_PACKET_LEN (length datagram)) datagram @ replicate (NTP_PACKET_LEN - min NTP_PACKET_LEN (length datagram)) 0
      in hd buf AND 7 = 4 \<and> est = ns_received_at S + ntp_offset (ns_sent_at S) (read_timestamp buf 32) (read_timestamp buf 40) (ns_received_at S)"
    using assms by (auto simp: query_upstream_def Let_def split: if_splits list.splits prod.splits)
  moreover have "take (min NTP_PACKET_LEN (length datagram)) datagram @ replicate (NTP_PACKET_LEN - min NTP_PACKET_LEN (length datagram)) 0
      = take 48 datagram" "48 \<le> length datagram"
    using len by (simp_all add: NTP_PACKET_LEN_def)
  moreover from this have "hd (take 48 datagram) = hd datagram" by (cases datagram) simp_all
  ultimately show thesis using that by (simp add: Let_def)
qed

text \<open>
  The time taken from a real NTP server comes from the address that was asked, in a server packet, and
  is off by no more than half the difference between the two travel times, up to the rounding
  of the halving: with the server's clock \<open>\<theta>\<close> milliseconds ahead, \<open>there\<close> and \<open>back_again\<close> milliseconds
  on the way.
\<close>

theorem upstream_time_is_accurate:
  assumes "query_upstream S addr = Inr est" "ns_recv S = Some (Some (datagram, sender))"
    and "sint (read_timestamp (take 48 datagram) 32) = sint (ns_sent_at S) + \<theta> + there"
    and "sint (read_timestamp (take 48 datagram) 40) = sint (ns_received_at S) + \<theta> - back_again"
    and "\<bar>sint (ns_sent_at S)\<bar> < 2 ^ 60" "\<bar>sint (ns_received_at S)\<bar> < 2 ^ 60"
    and "\<bar>sint (read_timestamp (take 48 datagram) 32)\<bar> < 2 ^ 60" "\<bar>sint (read_timestamp (take 48 datagram) 40)\<bar> < 2 ^ 60"
  shows "(\<exists>rest. ns_lookup S addr = Some (sender # rest)) \<and> hd datagram AND 7 = 4 \<and>
    2 * \<bar>sint est - (sint (ns_received_at S) + \<theta>)\<bar> \<le> \<bar>there - back_again\<bar> + 1"
  using assms(1)
proof (rule query_upstream_Inr)
  fix target rest dg
  assume "ns_lookup S addr = Some (target # rest)" "ns_recv S = Some (Some (dg, target))" "hd dg AND 7 = 4"
    "est = ns_received_at S + ntp_offset (ns_sent_at S) (read_timestamp (take 48 dg) 32) (read_timestamp (take 48 dg) 40)
       (ns_received_at S)"
  then show ?thesis using ntp_estimate_error [OF assms(3,4,5,7,8,6)] assms(2) by simp
qed

section \<open>Instances\<close>

text \<open>Two query peers, 7 and 9, that answer alike.\<close>

definition gateway_sample_wire :: "byte gateway_wire" where
  "gateway_sample_wire = wire.extend sample_wire (gateway_wire.fields (\<lambda>_. Inr []) (\<lambda>_. Inr []))"

definition sample_page :: gateway_result where
  "sample_page = ResultHttp 200 (blake3_content_hash sample [1, 2, 3]) [1, 2, 3] None"

definition sample_answer :: "byte \<Rightarrow> gateway_response" where
  "sample_answer k = (case build_and_sign_gateway_response sample gateway_sample_wire k sample_page (replicate 32 4) 1000 FromOrigin of
     Inr r \<Rightarrow> r | Inl _ \<Rightarrow> undefined)"

definition sample_exchange :: "byte \<Rightarrow> peer_exchange" where
  "sample_exchange k = \<lparr>px_nonce = replicate 32 4, px_requested_at = 1000,
     px_post = (\<lambda>_ _. Some \<lparr>gy_success = True, gy_response = Some (sample_answer k)\<rparr>), px_rtt = 0, px_now = 1001\<rparr>"

definition sample_gateway :: "byte gateway_state" where
  "sample_gateway = \<lparr>gs_identity = 8, gs_config = gateway_config_default,
     gs_query_peers = [\<lparr>rp_address = ''a'', rp_peer_id = identity_peer_id sample 7\<rparr>, \<lparr>rp_address = ''b'', rp_peer_id = identity_peer_id sample 9\<rparr>],
     gs_relay_peers = [], gs_limiter = rate_limiter_default, gs_cache = Map.empty\<rparr>"

definition sample_queries :: "nat \<Rightarrow> peer_exchange" where
  "sample_queries i = sample_exchange (if i = 0 then 7 else 9)"

lemma gateway_sample_keys: "key_codec sample gateway_sample_wire"
  using sample_key_codec by (simp add: key_codec_def gateway_sample_wire_def wire.defs)

lemma sample_answer_accepted:
  "verify_gateway_response sample gateway_sample_wire (sample_answer k) (replicate 32 4) 1001 = Inr (identity_peer_id sample k)"
proof -
  have built: "build_and_sign_gateway_response sample gateway_sample_wire k sample_page (replicate 32 4) 1000 FromOrigin = Inr (sample_answer k)"
    by (simp add: sample_answer_def build_and_sign_gateway_response_def gateway_sample_wire_def wire.defs gateway_wire.defs Let_def)
  have "decode_hex_array sample 32 (gp_nonce (gp_unsigned (sample_answer k))) = Some (replicate 32 4)"
    using sample_codecs by (simp add: sample_answer_def build_and_sign_gateway_response_def gateway_sample_wire_def wire.defs
        gateway_wire.defs Let_def decode_encoded codecs_ok_def)
  then show ?thesis
    using built by (intro answer_claim.built_is_accepted [OF sample_codecs gateway_sample_keys,
        where x = "(sample_page, replicate 32 4, FromOrigin)" and t = 1000]) simp_all
qed

lemma sample_query:
  "query_peer sample gateway_sample_wire (sample_exchange k) 8 \<lparr>rp_address = a, rp_peer_id = identity_peer_id sample k\<rparr> service hops path
   = Inr sample_page"
proof -
  have "gp_result (gp_unsigned (sample_answer k)) = sample_page"
    by (simp add: sample_answer_def build_and_sign_gateway_response_def gateway_sample_wire_def wire.defs gateway_wire.defs Let_def)
  then show ?thesis
    using sample_answer_accepted [of k]
    by (simp add: query_peer_def sample_exchange_def build_and_sign_gateway_request_def Let_def gateway_sample_wire_def wire.defs
        gateway_wire.defs sample_page_def)
qed

lemma sample_fanout:
  "fanout_and_verify sample gateway_sample_wire id sample_queries sample_gateway (ServiceHttp ''u'') = Inr sample_page"
proof -
  have "fanout_outcomes sample gateway_sample_wire sample_queries sample_gateway (ServiceHttp ''u'') = [Inr sample_page, Inr sample_page]"
    by (simp add: fanout_outcomes_def fanout_peers_def sample_gateway_def gateway_config_default_def sample_queries_def sample_query)
  then show ?thesis
    by (simp add: fanout_and_verify_def aggregate_quorum_def map_filter_simps http_groups_def http_hash_def sample_page_def
        max_by_key_def sample_gateway_def gateway_config_default_def)
qed

lemma sample_gateway_quorum: "permutes_keys id" "0 < gc_quorum_min_agree (gs_config sample_gateway)"
  by (simp_all add: permutes_keys_def sample_gateway_def gateway_config_default_def)

theorem quorum_answers_are_backed_witness:
  "answers_service (ServiceHttp ''u'') sample_page \<and>
   (\<exists>v I. 2 \<le> card I \<and> I \<subseteq> {..<length (fanout_peers sample_gateway)} \<and>
      I \<subseteq> {i. \<exists>x. vouched_answer sample gateway_sample_wire (sample_queries i) (rp_peer_id (fanout_peers sample_gateway ! i)) x \<and>
           backs (gc_ntp_tolerance_ms (gs_config sample_gateway)) v sample_page x})"
proof -
  have "gc_quorum_min_agree (gs_config sample_gateway) = 2" by (simp add: sample_gateway_def gateway_config_default_def)
  with quorum_answers_are_backed [OF sample_gateway_quorum sample_fanout] show ?thesis
    unfolding sum.case by (auto simp: subset_eq)
qed

definition sample_url_web :: "string web" where
  "sample_url_web =
     \<lparr>web_parse = Some, web_scheme = (\<lambda>_. ''http''), web_host = (\<lambda>_. Some ''example.org''), web_port = (\<lambda>_. Some 80),
      web_join = (\<lambda>_ s. Some s), lookup_host = (\<lambda>_ _ p. Some [(V4 (93, 184, 216, 34), p)]), client_builds = (\<lambda>_ _. True),
      send_get = (\<lambda>_ _ _ u. Some \<lparr>hr_status = 200, hr_location = None, hr_content_type = Some ''text/html'', hr_cache_control = None,
        hr_content_length = None, hr_url = u, hr_chunks = [Some [1, 2], Some [3]]\<rparr>)\<rparr>"

definition sample_env :: "string gateway_env" where
  "sample_env = \<lparr>ge_now = 5, ge_stored = 6, ge_hash_order = id, ge_query = sample_queries, ge_relay = sample_queries,
     ge_ntp = (\<lambda>_. \<lparr>ns_bind = False, ns_lookup = (\<lambda>_. None), ns_send = (\<lambda>_ _. None), ns_recv = None, ns_sent_at = 0, ns_received_at = 0\<rparr>),
     ge_web = sample_url_web\<rparr>"


theorem outbound_requests_are_confined_witness:
  "\<exists>page conns r conns'. safe_fetch sample sample_url_web \<lparr>allow_private_networks = False, max_response_bytes = 10, user_agent = []\<rparr> ''u''
      = (Inr page, conns) \<and> page_body page = [1, 2, 3] \<and> length conns = 1 \<and>
    fetch_upstream_http sample sample_url_web ''u'' False 10 = (Inr r, conns') \<and> length conns' = 1 \<and>
    list_all confined (conns @ conns')"
proof -
  let ?config = "\<lparr>allow_private_networks = False, max_response_bytes = 10, user_agent = []\<rparr>"
  let ?conns = "[(''example.org'', [(V4 (93, 184, 216, 34), 80)])]"
  have ok: "\<not> is_blocked_ip (V4 (93, 184, 216, 34))" by (simp add: is_blocked_ip_def is_blocked_v4_def)
  have media: "media_type (Some ''text/html'') = ''text/html''" by code_simp
  have crawled: "safe_fetch sample sample_url_web ?config ''u'' = (Inr \<lparr>final_url = ''u'', content_type = ''text/html'',
      page_body = [1, 2, 3], page_hash = blake3_content_hash sample [1, 2, 3]\<rparr>, ?conns)"
    using ok media by (simp add: safe_fetch_def fetch_from.simps open_hop_def sample_url_web_def resolve_and_validate_def is_redirection_def
        accept_page_def error_status_def ALLOWED_CONTENT_TYPES_def Let_def)
  have fetched: "fetch_upstream_http sample sample_url_web ''u'' False 10 = (Inr sample_page, ?conns)"
    using ok by (simp add: fetch_upstream_http_def upstream_from.simps open_hop_def sample_url_web_def resolve_and_validate_def
        is_redirection_def accept_upstream_def prefer_ipv4_def sample_page_def)
  from outbound_requests_are_confined [OF _ crawled fetched] have "list_all confined (?conns @ ?conns)" by simp
  with crawled fetched show ?thesis by auto
qed

definition sample_datagram :: "byte list" where
  "sample_datagram = build_server_response 0 1700000000000"

definition sample_socket :: ntp_socket where
  "sample_socket = \<lparr>ns_bind = True, ns_lookup = (\<lambda>_. Some [(V4 (93, 184, 216, 34), 123)]), ns_send = (\<lambda>_ _. Some (Some ())),
     ns_recv = Some (Some (sample_datagram, (V4 (93, 184, 216, 34), 123))), ns_sent_at = 1699999999950,
     ns_received_at = 1700000000030\<rparr>"

theorem upstream_time_is_accurate_witness:
  "\<exists>est. query_upstream sample_socket ''t'' = Inr est \<and> 2 * \<bar>sint est - 1700000000030\<bar> \<le> 21"
proof -
  have len: "length sample_datagram = 48" "take 48 sample_datagram = sample_datagram" "hd sample_datagram AND 7 = 4"
    by (simp_all add: sample_datagram_def server_response_bytes(1,2))
  have times: "read_timestamp sample_datagram 32 = 1700000000000" "read_timestamp sample_datagram 40 = 1700000000000"
    by (simp_all add: sample_datagram_def server_response_bytes(4,5) sample_timestamps)
  have "query_upstream sample_socket ''t'' =
      Inr (1700000000030 + ntp_offset 1699999999950 1700000000000 1700000000000 1700000000030)"
    using len times by (simp add: query_upstream_def sample_socket_def NTP_PACKET_LEN_def Let_def)
  moreover from upstream_time_is_accurate [OF this, where \<theta> = 0 and there = 50 and back_again = 30 and datagram = sample_datagram]
  have "2 * \<bar>sint (1700000000030 + ntp_offset 1699999999950 1700000000000 1700000000000 1700000000030) - 1700000000030\<bar> \<le> 21"
    using len(2) times by (simp add: sample_socket_def)
  ultimately show ?thesis by blast
qed

end
