(* ===== verification/Traversal.thy ===== *)
theory Traversal
  imports Service Sample "HOL-Library.Multiset"
begin

text \<open>
  The reading side of the graph: the selecting statements of \<^verbatim>\<open>oag-storage\<close> (\<^verbatim>\<open>nodes.rs\<close>, \<^verbatim>\<open>edges.rs\<close>,
  \<^verbatim>\<open>assertions.rs\<close>, \<^verbatim>\<open>actors.rs\<close>) and the reads of \<^verbatim>\<open>oag-graph\<close> built on them (\<^verbatim>\<open>resolve.rs\<close>, \<^verbatim>\<open>sources.rs\<close>,
  \<^verbatim>\<open>subgraph.rs\<close>).  The breadth-first neighbourhood is compared with the balls of the undirected
  graph that the edges span.  A \<^verbatim>\<open>HashMap\<close> is the list of its entries as they were inserted; the order
  in which it is drained is an argument.
\<close>

section \<open>Selecting rows\<close>

definition row_to_node :: "node \<Rightarrow> node" where
  "row_to_node row = row\<lparr>node_type := node_type_new (node_type row)\<rparr>"

definition select_node :: "graph \<Rightarrow> node_id \<Rightarrow> node option" where
  "select_node g i = map_option row_to_node (lookup_by node_id (nodes g) i)"

definition get_by_canonical_identifier :: "graph \<Rightarrow> string \<Rightarrow> node option" where
  "get_by_canonical_identifier g identifier =
     map_option row_to_node (lookup_by node_canonical_identifier (nodes g) identifier)"

definition nodes_list_all :: "graph \<Rightarrow> node list" where
  "nodes_list_all g = map row_to_node (nodes g)"

definition row_to_alias :: "alias_row \<Rightarrow> storage_error + node_alias" where
  "row_to_alias row =
     res_bind (ok_or (UnknownEnumValue ''alias_type'' (ar_alias_type row)) (alias_type_parse (ar_alias_type row))) (\<lambda>kind.
       Inr \<lparr>alias_node_id = ar_node_id row, alias_text = ar_alias row, alias_kind = kind,
            alias_source_assertion = ar_source_assertion row\<rparr>)"

definition nodes_list_aliases :: "graph \<Rightarrow> node_id \<Rightarrow> storage_error + node_alias list" where
  "nodes_list_aliases g i = collect_results (map row_to_alias (filter (\<lambda>r. ar_node_id r = i) (node_aliases g)))"

definition row_to_edge :: "edge \<Rightarrow> edge" where
  "row_to_edge row = row\<lparr>edge_predicate := predicate_new (edge_predicate row)\<rparr>"

definition edges_get_by_id :: "graph \<Rightarrow> edge_id \<Rightarrow> edge option" where
  "edges_get_by_id g i = map_option row_to_edge (lookup_by edge_id (edges g) i)"

definition list_by_subject :: "graph \<Rightarrow> node_id \<Rightarrow> edge list" where
  "list_by_subject g i = map row_to_edge (filter (\<lambda>e. edge_subject e = i) (edges g))"

definition list_by_object :: "graph \<Rightarrow> node_id \<Rightarrow> edge list" where
  "list_by_object g i = map row_to_edge (filter (\<lambda>e. edge_object e = i) (edges g))"

definition list_by_predicate_and_object :: "graph \<Rightarrow> string \<Rightarrow> node_id \<Rightarrow> edge list" where
  "list_by_predicate_and_object g predicate i =
     map row_to_edge (filter (\<lambda>e. edge_predicate e = predicate \<and> edge_object e = i) (edges g))"

definition edges_list_all :: "graph \<Rightarrow> edge list" where
  "edges_list_all g = map row_to_edge (edges g)"

definition list_touching :: "graph \<Rightarrow> node_id \<Rightarrow> edge list" where
  "list_touching g i = map row_to_edge (filter (\<lambda>e. edge_subject e = i \<or> edge_object e = i) (edges g))"

definition list_by_edge :: "graph \<Rightarrow> edge_id \<Rightarrow> storage_error + assertion list" where
  "list_by_edge g i = collect_results (map row_to_assertion (filter (\<lambda>r. as_edge_id r = i) (assertions g)))"

definition row_to_evidence :: "evidence_row \<Rightarrow> storage_error + evidence" where
  "row_to_evidence row =
     res_bind (ok_or (UnknownEnumValue ''evidence_type'' (ev_evidence_type row)) (evidence_type_parse (ev_evidence_type row))) (\<lambda>t.
       Inr \<lparr>evidence_id = ev_id row, evidence_assertion_id = ev_assertion_id row, evidence_type = t,
            evidence_uri = ev_uri row, evidence_title = ev_title row, evidence_excerpt = ev_excerpt row,
            evidence_content_hash = ev_content_hash row, evidence_observed_at = ev_observed_at row,
            evidence_retrieved_at = ev_retrieved_at row, evidence_metadata = ev_metadata row\<rparr>)"

definition assertions_list_evidence :: "graph \<Rightarrow> assertion_id \<Rightarrow> storage_error + evidence list" where
  "assertions_list_evidence g i =
     collect_results (map row_to_evidence (filter (\<lambda>r. ev_assertion_id r = i) (evidences g)))"

definition assertions_list_observations :: "graph \<Rightarrow> assertion_id \<Rightarrow> observation list" where
  "assertions_list_observations g i = filter (\<lambda>r. ob_assertion_id r = i) (observations g)"

definition assertions_list_disputes :: "graph \<Rightarrow> assertion_id \<Rightarrow> dispute list" where
  "assertions_list_disputes g i = filter (\<lambda>r. dp_assertion_id r = i) (disputes g)"

definition assertions_list_retractions :: "graph \<Rightarrow> assertion_id \<Rightarrow> retraction list" where
  "assertions_list_retractions g i = filter (\<lambda>r. rt_assertion_id r = i) (retractions g)"

definition row_to_actor :: "actor_row \<Rightarrow> storage_error + actor" where
  "row_to_actor row =
     res_bind (ok_or (UnknownEnumValue ''actor_type'' (ac_actor_type row)) (actor_type_parse (ac_actor_type row))) (\<lambda>t.
       Inr \<lparr>actor_id = ac_id row, actor_type = t, actor_name = ac_name row, actor_public_key = ac_public_key row,
            actor_identity_uri = ac_identity_uri row, actor_metadata = ac_metadata row,
            actor_created_at = ac_created_at row\<rparr>)"

definition actors_get_by_id :: "graph \<Rightarrow> actor_id \<Rightarrow> storage_error + actor option" where
  "actors_get_by_id g i = transpose_opt (map_option row_to_actor (lookup_by ac_id (actors g) i))"

section \<open>Reads of the service\<close>

definition get_edges :: "graph \<Rightarrow> node_id \<Rightarrow> edge list" where
  "get_edges g node = list_touching g node"

definition list_aliases :: "graph \<Rightarrow> node_id \<Rightarrow> graph_error + node_alias list" where
  "list_aliases g i = res_map_err GStorage (nodes_list_aliases g i)"

definition list_assertions_for_node :: "graph \<Rightarrow> node_id \<Rightarrow> graph_error + assertion list" where
  "list_assertions_for_node g node =
     res_bind (collect_results (map (\<lambda>e. res_map_err GStorage (list_by_edge g (edge_id e))) (list_touching g node)))
       (\<lambda>as. Inr (concat as))"

fun sources_of :: "graph \<Rightarrow> assertion list \<Rightarrow> graph_error + evidence list" where
  "sources_of g [] = Inr []"
| "sources_of g (a # as) =
     res_bind (res_map_err GStorage (assertions_list_evidence g (assertion_id a))) (\<lambda>evs.
     res_bind (sources_of g as) (\<lambda>rest. Inr (evs @ rest)))"

fun sources_of_edges :: "graph \<Rightarrow> edge list \<Rightarrow> graph_error + evidence list" where
  "sources_of_edges g [] = Inr []"
| "sources_of_edges g (e # es) =
     res_bind (res_map_err GStorage (list_by_edge g (edge_id e))) (\<lambda>as.
     res_bind (sources_of g as) (\<lambda>evs.
     res_bind (sources_of_edges g es) (\<lambda>rest. Inr (evs @ rest))))"

definition find_sources :: "graph \<Rightarrow> node_id \<Rightarrow> graph_error + evidence list" where
  "find_sources g node = sources_of_edges g (list_touching g node)"

section \<open>The neighbourhood of a node (subgraph.rs)\<close>

record subgraph_node =
  sn_node :: node
  sn_distance :: nat

record subgraph =
  sg_nodes :: "subgraph_node list"
  sg_edges :: "edge list"
  sg_assertions :: "assertion list"

type_synonym visited = "(node_id \<times> node \<times> nat) list"

text \<open>\<^verbatim>\<open>HashMap::insert\<close>.\<close>

definition map_insert :: "'k \<Rightarrow> 'v \<Rightarrow> ('k \<times> 'v) list \<Rightarrow> ('k \<times> 'v) list" where
  "map_insert k v m = (if has_key fst m k then update_where (\<lambda>r. fst r = k) (\<lambda>_. (k, v)) m else m @ [(k, v)])"

definition visit_candidate :: "graph \<Rightarrow> nat \<Rightarrow> node_id \<Rightarrow> visited \<times> node_id list \<Rightarrow> visited \<times> node_id list" where
  "visit_candidate g hop candidate = (\<lambda>(visited_nodes, next_frontier).
     if has_key fst visited_nodes candidate then (visited_nodes, next_frontier)
     else case select_node g candidate of
       None \<Rightarrow> (visited_nodes, next_frontier)
     | Some node \<Rightarrow> (visited_nodes @ [(candidate, node, hop)], next_frontier @ [candidate]))"

fun visit_edges ::
  "graph \<Rightarrow> nat \<Rightarrow> nat \<Rightarrow> edge list \<Rightarrow> visited \<times> (edge_id \<times> edge) list \<times> node_id list
     \<Rightarrow> visited \<times> (edge_id \<times> edge) list \<times> node_id list" where
  "visit_edges g max_nodes hop [] st = st"
| "visit_edges g max_nodes hop (e # touching) (visited_nodes, visited_edges, next_frontier) =
     (if length visited_nodes \<ge> max_nodes then (visited_nodes, visited_edges, next_frontier)
      else let (vn, nf) = visit_candidate g hop (edge_object e)
                 (visit_candidate g hop (edge_subject e) (visited_nodes, next_frontier))
           in visit_edges g max_nodes hop touching (vn, map_insert (edge_id e) e visited_edges, nf))"

fun visit_frontier ::
  "graph \<Rightarrow> nat \<Rightarrow> nat \<Rightarrow> node_id list \<Rightarrow> visited \<times> (edge_id \<times> edge) list \<times> node_id list
     \<Rightarrow> visited \<times> (edge_id \<times> edge) list \<times> node_id list" where
  "visit_frontier g max_nodes hop [] st = st"
| "visit_frontier g max_nodes hop (i # frontier) st =
     visit_frontier g max_nodes hop frontier (visit_edges g max_nodes hop (list_touching g i) st)"

text \<open>The rounds \<open>hop\<close>, \<open>hop + 1\<close>, \dots of which \<open>k\<close> are left.\<close>

fun bfs_rounds ::
  "graph \<Rightarrow> nat \<Rightarrow> nat \<Rightarrow> nat \<Rightarrow> visited \<times> (edge_id \<times> edge) list \<times> node_id list
     \<Rightarrow> visited \<times> (edge_id \<times> edge) list \<times> node_id list" where
  "bfs_rounds g max_nodes hop 0 st = st"
| "bfs_rounds g max_nodes hop (Suc k) (visited_nodes, visited_edges, frontier) =
     (if length visited_nodes \<ge> max_nodes then (visited_nodes, visited_edges, frontier)
      else bfs_rounds g max_nodes (Suc hop) k
             (visit_frontier g max_nodes hop frontier (visited_nodes, visited_edges, [])))"

definition get_subgraph ::
  "('sk, 'vk, 'z) crypto_scheme \<Rightarrow> (visited \<Rightarrow> visited) \<Rightarrow> ((edge_id \<times> edge) list \<Rightarrow> (edge_id \<times> edge) list)
     \<Rightarrow> node_id \<Rightarrow> nat \<Rightarrow> nat \<Rightarrow> graph \<Rightarrow> graph_error + subgraph" where
  "get_subgraph C drain_nodes drain_edges root depth max_nodes g =
     res_bind (ok_or (GNotFound (''node '' @ hash32_to_hex C (node_hash root))) (select_node g root)) (\<lambda>root_node.
     let (visited_nodes, visited_edges, _) =
           bfs_rounds g max_nodes 1 depth ([(root, root_node, 0)], [], [root])
     in res_bind (collect_results (map (\<lambda>(i, _). res_map_err GStorage (list_by_edge g i)) (drain_edges visited_edges))) (\<lambda>as.
        Inr \<lparr>sg_nodes = map (\<lambda>(_, node, distance). \<lparr>sn_node = node, sn_distance = distance\<rparr>) (drain_nodes visited_nodes),
             sg_edges = map snd (drain_edges visited_edges), sg_assertions = concat as\<rparr>))"

section \<open>Balls\<close>

definition adjacent :: "graph \<Rightarrow> (node_id \<times> node_id) set" where
  "adjacent g = {(a, b). \<exists>e\<in>set (edges g). edge_subject e = a \<and> edge_object e = b \<or> edge_subject e = b \<and> edge_object e = a}"

text \<open>The length of a shortest walk along edges, in either direction.\<close>

definition hop_distance :: "graph \<Rightarrow> node_id \<Rightarrow> node_id \<Rightarrow> nat \<Rightarrow> bool" where
  "hop_distance g a b d \<longleftrightarrow> (a, b) \<in> adjacent g ^^ d \<and> (\<forall>k<d. (a, b) \<notin> adjacent g ^^ k)"

fun ball :: "graph \<Rightarrow> node_id \<Rightarrow> nat \<Rightarrow> node_id set" where
  "ball g r 0 = {r}"
| "ball g r (Suc d) = ball g r d \<union> adjacent g `` ball g r d"

lemma ball_iff: "n \<in> ball g r d \<longleftrightarrow> (\<exists>k\<le>d. (r, n) \<in> adjacent g ^^ k)"
proof (induction d arbitrary: n)
  case (Suc d)
  have "(\<exists>x\<in>ball g r d. (x, n) \<in> adjacent g) \<longleftrightarrow> (\<exists>k\<le>d. (r, n) \<in> adjacent g ^^ Suc k)"
    using Suc.IH by fastforce
  then have "n \<in> ball g r (Suc d) \<longleftrightarrow> (\<exists>k\<le>d. (r, n) \<in> adjacent g ^^ k) \<or> (\<exists>k\<le>d. (r, n) \<in> adjacent g ^^ Suc k)"
    by (simp add: Suc.IH Image_iff)
  also have "\<dots> \<longleftrightarrow> (\<exists>k\<le>Suc d. (r, n) \<in> adjacent g ^^ k)"
    by (metis Suc_le_mono le_SucI not0_implies_Suc zero_le)
  finally show ?case .
qed auto

lemma hop_distance_iff: "hop_distance g r n d \<longleftrightarrow> n \<in> ball g r d \<and> (\<forall>k<d. n \<notin> ball g r k)"
proof
  assume "hop_distance g r n d"
  then show "n \<in> ball g r d \<and> (\<forall>k<d. n \<notin> ball g r k)" by (auto simp: hop_distance_def ball_iff)
next
  assume *: "n \<in> ball g r d \<and> (\<forall>k<d. n \<notin> ball g r k)"
  then obtain k where k: "k \<le> d" "(r, n) \<in> adjacent g ^^ k" by (auto simp: ball_iff)
  with * have "k = d" by (metis ball_iff le_neq_implies_less order_refl)
  moreover have "\<forall>k<d. (r, n) \<notin> adjacent g ^^ k" using * by (metis ball_iff order_refl)
  ultimately show "hop_distance g r n d" using k by (simp add: hop_distance_def)
qed

lemma hop_distance_unique: "hop_distance g r n d \<Longrightarrow> hop_distance g r n d' \<Longrightarrow> d = d'"
  by (metis hop_distance_def linorder_neqE_nat)

lemma ball_mono: "d \<le> d' \<Longrightarrow> ball g r d \<subseteq> ball g r d'"
  by (rule lift_Suc_mono_le [where f = "ball g r"]) auto

lemma ball_distance: "n \<in> ball g r d \<longleftrightarrow> (\<exists>k\<le>d. hop_distance g r n k)"
proof
  assume "n \<in> ball g r d"
  then have least: "n \<in> ball g r (LEAST k. n \<in> ball g r k)" "(LEAST k. n \<in> ball g r k) \<le> d"
    by (auto intro: LeastI Least_le)
  then have "hop_distance g r n (LEAST k. n \<in> ball g r k)"
    by (auto simp: hop_distance_iff dest: not_less_Least)
  with least(2) show "\<exists>k\<le>d. hop_distance g r n k" by blast
next
  assume "\<exists>k\<le>d. hop_distance g r n k"
  then show "n \<in> ball g r d" by (auto simp: hop_distance_def ball_iff)
qed

lemma new_in_ball:
  "n \<in> ball g r (Suc h) \<Longrightarrow> n \<notin> ball g r h \<Longrightarrow> hop_distance g r n (Suc h)"
  using ball_mono [of _ h g r] by (fastforce simp: hop_distance_iff less_Suc_eq_le)

section \<open>One round\<close>

definition read_edges :: "graph \<Rightarrow> edge set" where
  "read_edges g = row_to_edge ` set (edges g)"

lemma row_to_edge_simps [simp]:
  "edge_id (row_to_edge e) = edge_id e" "edge_subject (row_to_edge e) = edge_subject e"
  "edge_object (row_to_edge e) = edge_object e"
  by (simp_all add: row_to_edge_def)

lemma set_list_touching: "set (list_touching g i) = {e \<in> read_edges g. edge_subject e = i \<or> edge_object e = i}"
  by (auto simp: list_touching_def read_edges_def)

lemma read_edges_adjacent:
  "e \<in> read_edges g \<Longrightarrow> (edge_subject e, edge_object e) \<in> adjacent g \<and> (edge_object e, edge_subject e) \<in> adjacent g"
  by (auto simp: read_edges_def adjacent_def)

lemma adjacent_touching:
  "(a, b) \<in> adjacent g \<Longrightarrow> \<exists>e\<in>set (list_touching g a). edge_subject e = b \<or> edge_object e = b"
  by (force simp: adjacent_def set_list_touching read_edges_def)

lemma read_edge_id_inj:
  assumes "graph_ok C g" "e \<in> read_edges g" "e' \<in> read_edges g" "edge_id e = edge_id e'"
  shows "e = e'"
  using assms unfolding read_edges_def graph_ok_def edges_ok_def by (auto simp: distinct_map dest: inj_onD)

lemma select_node_exists: "has_key node_id (nodes g) i \<Longrightarrow> \<exists>n. select_node g i = Some n"
  using lookup_by_None_iff [of node_id "nodes g" i] by (auto simp: select_node_def)

lemma read_edge_ends:
  assumes "graph_ok C g" "e \<in> read_edges g" "i = edge_subject e \<or> i = edge_object e"
  shows "\<exists>n. select_node g i = Some n"
  using assms by (intro select_node_exists) (auto simp: read_edges_def graph_ok_def edges_ok_def list_all_iff)

text \<open>
  In round \<open>Suc h\<close> every visited node is recorded with its distance, the ball of radius \<open>h\<close> has been
  visited, \<open>next_frontier\<close> are the others, and both ends of a visited edge have been visited.
\<close>

definition touches :: "edge \<Rightarrow> node_id set \<Rightarrow> bool" where
  "touches e N \<longleftrightarrow> edge_subject e \<in> N \<or> edge_object e \<in> N"

definition entry_ok :: "graph \<Rightarrow> node_id \<Rightarrow> nat \<Rightarrow> node_id \<times> node \<times> nat \<Rightarrow> bool" where
  "entry_ok g r depth = (\<lambda>(i, n, d). select_node g i = Some n \<and> hop_distance g r i d \<and> d \<le> depth)"

definition edge_entries_ok :: "graph \<Rightarrow> node_id set \<Rightarrow> (edge_id \<times> edge) list \<Rightarrow> bool" where
  "edge_entries_ok g N ve \<longleftrightarrow> distinct (map fst ve) \<and>
     (\<forall>(i, e)\<in>set ve. edge_id e = i \<and> e \<in> read_edges g \<and> edge_subject e \<in> N \<and> edge_object e \<in> N)"

definition round_inv :: "graph \<Rightarrow> node_id \<Rightarrow> nat \<Rightarrow> visited \<times> (edge_id \<times> edge) list \<times> node_id list \<Rightarrow> bool" where
  "round_inv g r h = (\<lambda>(vn, ve, nf).
     distinct (map fst vn) \<and> ball g r h \<subseteq> fst ` set vn \<and> list_all (entry_ok g r (Suc h)) vn \<and>
     set nf = fst ` set vn - ball g r h \<and> edge_entries_ok g (fst ` set vn) ve \<and>
     (\<forall>e\<in>snd ` set ve. touches e (ball g r h)))"

lemma entries_in_ball: "list_all (entry_ok g r d) vn \<Longrightarrow> fst ` set vn \<subseteq> ball g r d"
  by (fastforce simp: list_all_iff entry_ok_def ball_distance)

lemma entry_ok_mono: "list_all (entry_ok g r d) vn \<Longrightarrow> d \<le> d' \<Longrightarrow> list_all (entry_ok g r d') vn"
  by (fastforce simp: list_all_iff entry_ok_def)

text \<open>Looking at one end of an edge.\<close>

lemma visit_candidate_effect:
  assumes "visit_candidate g (Suc h) c (vn, nf) = (vn', nf')" "c \<in> ball g r (Suc h)" "\<exists>n. select_node g c = Some n"
    and "distinct (map fst vn)" "ball g r h \<subseteq> fst ` set vn" "list_all (entry_ok g r (Suc h)) vn"
      "set nf = fst ` set vn - ball g r h"
  shows "fst ` set vn' = insert c (fst ` set vn) \<and> length vn' = length vn + (if c \<in> fst ` set vn then 0 else 1) \<and>
    distinct (map fst vn') \<and> list_all (entry_ok g r (Suc h)) vn' \<and> set nf' = fst ` set vn' - ball g r h"
proof (cases "has_key fst vn c")
  case True
  then have "vn' = vn \<and> nf' = nf" using assms(1) by (simp add: visit_candidate_def)
  with True assms(4-) show ?thesis by (auto simp: has_key_def)
next
  case False
  then obtain n where n: "select_node g c = Some n" "vn' = vn @ [(c, n, Suc h)]" "nf' = nf @ [c]"
    using assms(1,3) by (auto simp: visit_candidate_def)
  from False have new: "c \<notin> fst ` set vn" by (simp add: has_key_def)
  then have far: "c \<notin> ball g r h" using assms(5) by blast
  then have "entry_ok g r (Suc h) (c, n, Suc h)"
    using n(1) assms(2) by (simp add: entry_ok_def new_in_ball)
  with new far n assms(4,6,7) show ?thesis by auto
qed

lemma map_insert_edges:
  assumes "graph_ok C g" "edge_entries_ok g N ve" "e \<in> read_edges g" "edge_subject e \<in> N" "edge_object e \<in> N"
  shows "edge_entries_ok g N (map_insert (edge_id e) e ve)" "snd ` set (map_insert (edge_id e) e ve) = insert e (snd ` set ve)"
proof -
  have "edge_entries_ok g N (map_insert (edge_id e) e ve) \<and>
        snd ` set (map_insert (edge_id e) e ve) = insert e (snd ` set ve)"
  proof (cases "has_key fst ve (edge_id e)")
    case True
    then obtain x where x: "(edge_id e, x) \<in> set ve" by (force simp: has_key_def)
    have same: "f = e" if "(edge_id e, f) \<in> set ve" for f
      using that assms(2,3) read_edge_id_inj [OF assms(1), of f e] by (auto simp: edge_entries_ok_def)
    have "update_where (\<lambda>r. fst r = edge_id e) (\<lambda>_. (edge_id e, e)) ve = ve"
      unfolding update_where_def by (intro map_idI) (auto dest: same)
    moreover have "e \<in> snd ` set ve" using x same [OF x] by force
    ultimately show ?thesis using True assms(2) by (auto simp: map_insert_def)
  next
    case False
    with assms show ?thesis by (auto simp: map_insert_def edge_entries_ok_def has_key_def)
  qed
  then show "edge_entries_ok g N (map_insert (edge_id e) e ve)"
    "snd ` set (map_insert (edge_id e) e ve) = insert e (snd ` set ve)" by auto
qed

lemma edge_entries_mono: "edge_entries_ok g N ve \<Longrightarrow> N \<subseteq> N' \<Longrightarrow> edge_entries_ok g N' ve"
  by (fastforce simp: edge_entries_ok_def)

definition visited_ids :: "visited \<times> (edge_id \<times> edge) list \<times> node_id list \<Rightarrow> node_id set" where
  "visited_ids st = fst ` set (fst st)"

definition seen_edges :: "visited \<times> (edge_id \<times> edge) list \<times> node_id list \<Rightarrow> edge set" where
  "seen_edges st = snd ` set (fst (snd st))"

lemma visit_edge_effect:
  assumes ok: "graph_ok C g" and inv: "round_inv g r h (vn, ve, nf)" and e: "e \<in> read_edges g" "touches e (ball g r h)"
    and step: "visit_candidate g (Suc h) (edge_object e) (visit_candidate g (Suc h) (edge_subject e) (vn, nf)) = (vn', nf')"
  shows "round_inv g r h (vn', map_insert (edge_id e) e ve, nf') \<and> length vn' \<le> Suc (length vn) \<and> length vn \<le> length vn' \<and>
    fst ` set vn \<subseteq> fst ` set vn' \<and> snd ` set (map_insert (edge_id e) e ve) = insert e (snd ` set ve)"
proof -
  note inv = inv [unfolded round_inv_def prod.case]
  have near: "edge_subject e \<in> ball g r (Suc h)" "edge_object e \<in> ball g r (Suc h)"
    using e(2) read_edges_adjacent [OF e(1)] by (auto simp: touches_def)
  obtain vn1 nf1 where one: "visit_candidate g (Suc h) (edge_subject e) (vn, nf) = (vn1, nf1)" by fastforce
  note eff1 = visit_candidate_effect [OF one near(1) read_edge_ends [OF ok e(1)], simplified]
  have first: "fst ` set vn1 = insert (edge_subject e) (fst ` set vn) \<and>
      length vn1 = length vn + (if edge_subject e \<in> fst ` set vn then 0 else 1) \<and> distinct (map fst vn1) \<and>
      list_all (entry_ok g r (Suc h)) vn1 \<and> set nf1 = fst ` set vn1 - ball g r h"
    using eff1 inv by simp
  have two: "visit_candidate g (Suc h) (edge_object e) (vn1, nf1) = (vn', nf')" using step one by simp
  have second: "fst ` set vn' = insert (edge_object e) (fst ` set vn1) \<and>
      length vn' = length vn1 + (if edge_object e \<in> fst ` set vn1 then 0 else 1) \<and> distinct (map fst vn') \<and>
      list_all (entry_ok g r (Suc h)) vn' \<and> set nf' = fst ` set vn' - ball g r h"
    by (rule visit_candidate_effect [OF two near(2) read_edge_ends [OF ok e(1)]]) (use first inv in auto)
  have ids: "fst ` set vn' = insert (edge_object e) (insert (edge_subject e) (fst ` set vn))"
    using first second by simp
  have one_new: "edge_subject e \<in> fst ` set vn \<or> edge_object e \<in> fst ` set vn"
    using e(2) inv by (auto simp: touches_def)
  have entries: "edge_entries_ok g (fst ` set vn') ve"
  proof (rule edge_entries_mono)
    show "edge_entries_ok g (fst ` set vn) ve" using inv by simp
    show "fst ` set vn \<subseteq> fst ` set vn'" unfolding ids by blast
  qed
  have ends: "edge_subject e \<in> fst ` set vn'" "edge_object e \<in> fst ` set vn'" unfolding ids by simp_all
  note ins = map_insert_edges [OF ok entries e(1) ends]
  have "round_inv g r h (vn', map_insert (edge_id e) e ve, nf')"
    unfolding round_inv_def prod.case
  proof (intro conjI)
    show "ball g r h \<subseteq> fst ` set vn'" using inv unfolding ids by blast
    show "\<forall>x\<in>snd ` set (map_insert (edge_id e) e ve). touches x (ball g r h)"
      using inv e(2) unfolding ins(2) by simp
  qed (use second ins(1) in simp_all)
  moreover have "length vn' \<le> Suc (length vn)" using first second one_new by simp blast
  moreover have "length vn \<le> length vn'" using first second by simp
  moreover have "fst ` set vn \<subseteq> fst ` set vn'" unfolding ids by blast
  ultimately show ?thesis using ins(2) by blast
qed

lemma visit_edges_effect:
  assumes "graph_ok C g" "round_inv g r h st" "set es \<subseteq> {e \<in> read_edges g. touches e (ball g r h)}"
  shows "round_inv g r h (visit_edges g m (Suc h) es st) \<and> visited_ids st \<subseteq> visited_ids (visit_edges g m (Suc h) es st) \<and>
    length (fst (visit_edges g m (Suc h) es st)) \<le> max m (length (fst st)) \<and>
    seen_edges st \<subseteq> seen_edges (visit_edges g m (Suc h) es st) \<and>
    seen_edges (visit_edges g m (Suc h) es st) \<subseteq> seen_edges st \<union> set es \<and>
    (length (fst (visit_edges g m (Suc h) es st)) < m \<longrightarrow> set es \<subseteq> seen_edges (visit_edges g m (Suc h) es st))"
  using assms(2,3)
proof (induction es arbitrary: st)
  case (Cons e es)
  obtain vn ve nf where st: "st = (vn, ve, nf)" by (cases st)
  show ?case
  proof (cases "length vn \<ge> m")
    case False
    obtain vn' nf' where step: "visit_candidate g (Suc h) (edge_object e)
        (visit_candidate g (Suc h) (edge_subject e) (vn, nf)) = (vn', nf')" by fastforce
    let ?st' = "(vn', map_insert (edge_id e) e ve, nf')"
    note one = visit_edge_effect [OF assms(1) Cons.prems(1) [unfolded st] _ _ step]
    have run: "visit_edges g m (Suc h) (e # es) st = visit_edges g m (Suc h) es ?st'"
      using False step by (simp add: st)
    have "round_inv g r h ?st'" "length vn' \<le> Suc (length vn)" "visited_ids st \<subseteq> visited_ids ?st'"
      "seen_edges ?st' = insert e (seen_edges st)"
      using one Cons.prems(2) by (auto simp: st visited_ids_def seen_edges_def)
    then show ?thesis using Cons.IH [of ?st'] Cons.prems(2) False unfolding run by (force simp: st)
  qed (use Cons.prems st in auto)
qed (auto simp: visited_ids_def)

lemma visit_edges_append: "visit_edges g m hop (xs @ ys) st = visit_edges g m hop ys (visit_edges g m hop xs st)"
proof (induction xs arbitrary: st)
  case (Cons e xs)
  obtain vn ve nf where st: "st = (vn, ve, nf)" by (cases st)
  have stop: "visit_edges g m hop ys (vn, ve, nf) = (vn, ve, nf)" if "length vn \<ge> m" using that by (cases ys) auto
  show ?case by (auto simp: st Cons.IH stop split: prod.splits)
qed simp

lemma visit_frontier_edges:
  "visit_frontier g m hop fr st = visit_edges g m hop (concat (map (list_touching g) fr)) st"
  by (induction fr arbitrary: st) (simp_all add: visit_edges_append)

section \<open>All rounds\<close>

definition inner :: "graph \<Rightarrow> node_id \<Rightarrow> nat \<Rightarrow> node_id set" where
  "inner g r depth = {n. \<exists>d<depth. hop_distance g r n d}"

lemma inner_simps [simp]: "inner g r 0 = {}" "inner g r (Suc h) = ball g r h"
  by (auto simp: inner_def ball_distance less_Suc_eq_le)

text \<open>Before round \<open>Suc h\<close>: the ball of radius \<open>h\<close> and the edges that touch its inside.\<close>

definition start_inv :: "graph \<Rightarrow> node_id \<Rightarrow> nat \<Rightarrow> visited \<times> (edge_id \<times> edge) list \<times> node_id list \<Rightarrow> bool" where
  "start_inv g r h = (\<lambda>(vn, ve, fr).
     distinct (map fst vn) \<and> fst ` set vn = ball g r h \<and> list_all (entry_ok g r h) vn \<and>
     set fr = ball g r h - inner g r h \<and> edge_entries_ok g (fst ` set vn) ve \<and>
     snd ` set ve = {e \<in> read_edges g. touches e (inner g r h)})"

definition bfs_sound :: "graph \<Rightarrow> node_id \<Rightarrow> nat \<Rightarrow> visited \<times> (edge_id \<times> edge) list \<times> node_id list \<Rightarrow> bool" where
  "bfs_sound g r depth = (\<lambda>(vn, ve, _).
     distinct (map fst vn) \<and> r \<in> fst ` set vn \<and> list_all (entry_ok g r depth) vn \<and> edge_entries_ok g (fst ` set vn) ve)"

definition bfs_complete :: "graph \<Rightarrow> node_id \<Rightarrow> nat \<Rightarrow> visited \<times> (edge_id \<times> edge) list \<times> node_id list \<Rightarrow> bool" where
  "bfs_complete g r depth st \<longleftrightarrow>
     visited_ids st = ball g r depth \<and> seen_edges st = {e \<in> read_edges g. touches e (inner g r depth)}"

lemma start_round: "start_inv g r h (vn, ve, fr) \<Longrightarrow> round_inv g r h (vn, ve, [])"
  using ball_mono [of "h - 1" h g r]
  by (cases h) (auto simp: start_inv_def round_inv_def touches_def elim!: entry_ok_mono)

lemma start_sound: "start_inv g r h st \<Longrightarrow> h \<le> depth \<Longrightarrow> bfs_sound g r depth st"
  using ball_mono [of 0 h g r] by (auto simp: start_inv_def bfs_sound_def elim!: entry_ok_mono)

lemma start_complete: "start_inv g r h st \<Longrightarrow> bfs_complete g r h st"
  by (cases st) (simp add: start_inv_def bfs_complete_def visited_ids_def seen_edges_def)

lemma round_sound: "round_inv g r h st \<Longrightarrow> h < depth \<Longrightarrow> bfs_sound g r depth st"
  using ball_mono [of 0 h g r] by (auto simp: round_inv_def bfs_sound_def elim!: entry_ok_mono)

lemma full_round:
  assumes ok: "graph_ok C g" and start: "start_inv g r h (vn, ve, fr)"
    and stay: "length (fst (visit_frontier g m (Suc h) fr (vn, ve, []))) < m"
  shows "start_inv g r (Suc h) (visit_frontier g m (Suc h) fr (vn, ve, []))"
proof -
  let ?es = "concat (map (list_touching g) fr)" and ?st = "visit_frontier g m (Suc h) fr (vn, ve, [])"
  have fr: "set fr = ball g r h - inner g r h" and ids: "fst ` set vn = ball g r h"
    and old: "snd ` set ve = {e \<in> read_edges g. touches e (inner g r h)}"
    using start by (auto simp: start_inv_def)
  have es: "set ?es = {e \<in> read_edges g. touches e (set fr)}" by (auto simp: set_list_touching touches_def)
  have inside: "inner g r h \<subseteq> ball g r h" using ball_mono [of "h - 1" h g r] by (cases h) auto
  then have split: "ball g r h = set fr \<union> inner g r h" unfolding fr by blast
  note eff = visit_edges_effect [OF ok start_round [OF start], of ?es m, folded visit_frontier_edges]
  have eff: "round_inv g r h ?st" "seen_edges ?st = {e \<in> read_edges g. touches e (ball g r h)}"
    using eff stay es old unfolding split by (auto simp: seen_edges_def touches_def)
  obtain vn' ve' nf' where st: "?st = (vn', ve', nf')" by (cases ?st)
  have "ball g r (Suc h) \<subseteq> fst ` set vn'"
  proof
    fix n assume "n \<in> ball g r (Suc h)"
    then consider "n \<in> ball g r h" | a where "a \<in> ball g r h" "(a, n) \<in> adjacent g" by auto
    then show "n \<in> fst ` set vn'"
    proof cases
      case 2
      obtain e where "e \<in> set (list_touching g a)" "n = edge_subject e \<or> n = edge_object e"
        using adjacent_touching [OF 2(2)] by auto
      then have "e \<in> seen_edges ?st" "n = edge_subject e \<or> n = edge_object e"
        using 2(1) unfolding eff(2) by (auto simp: set_list_touching touches_def)
      with eff(1) show ?thesis unfolding st by (auto simp: round_inv_def edge_entries_ok_def seen_edges_def)
    qed (use eff(1) st in \<open>auto simp: round_inv_def\<close>)
  qed
  with eff st show ?thesis
    using entries_in_ball [of g r "Suc h" vn'] by (auto simp: start_inv_def round_inv_def seen_edges_def simp del: ball.simps)
qed

lemma bfs_rounds_stop: "length (fst st) \<ge> m \<Longrightarrow> bfs_rounds g m hop k st = st"
  by (cases k; cases st) auto

theorem bfs_rounds_correct:
  assumes "graph_ok C g" "start_inv g r h st"
  shows "bfs_sound g r (h + k) (bfs_rounds g m (Suc h) k st) \<and>
    length (fst (bfs_rounds g m (Suc h) k st)) \<le> max m (length (fst st)) \<and>
    (length (fst (bfs_rounds g m (Suc h) k st)) < m \<longrightarrow> bfs_complete g r (h + k) (bfs_rounds g m (Suc h) k st))"
  using assms(2)
proof (induction k arbitrary: h st)
  case 0
  then show ?case using start_sound start_complete by simp
next
  case (Suc k)
  obtain vn ve fr where st: "st = (vn, ve, fr)" by (cases st)
  show ?case
  proof (cases "length vn \<ge> m")
    case True
    then show ?thesis using start_sound [OF Suc.prems, of "h + Suc k"] by (simp add: st)
  next
    case False
    let ?st' = "visit_frontier g m (Suc h) fr (vn, ve, [])"
    have run: "bfs_rounds g m (Suc h) (Suc k) st = bfs_rounds g m (Suc (Suc h)) k ?st'" using False by (simp add: st)
    have es: "set (concat (map (list_touching g) fr)) \<subseteq> {e \<in> read_edges g. touches e (ball g r h)}"
      using Suc.prems by (auto simp: st start_inv_def set_list_touching touches_def)
    note eff = visit_edges_effect [OF assms(1) start_round [OF Suc.prems [unfolded st]] es, of m, folded visit_frontier_edges]
    show ?thesis
    proof (cases "length (fst ?st') \<ge> m")
      case True
      then show ?thesis using eff round_sound [of g r h ?st' "h + Suc k"] unfolding run
        by (simp add: bfs_rounds_stop st)
    next
      case small: False
      then have "start_inv g r (Suc h) ?st'" using full_round [OF assms(1) Suc.prems [unfolded st]] by simp
      from Suc.IH [OF this] show ?thesis using small False unfolding run by (simp add: st)
    qed
  qed
qed

section \<open>The answer\<close>

definition permutes_entries :: "('a list \<Rightarrow> 'a list) \<Rightarrow> bool" where
  "permutes_entries drain \<longleftrightarrow> (\<forall>xs. mset (drain xs) = mset xs)"

lemma permutes_entriesD:
  assumes "permutes_entries drain"
  shows "set (drain xs) = set xs" "length (drain xs) = length xs" "distinct (map f (drain xs)) \<longleftrightarrow> distinct (map f xs)"
proof -
  have "mset (drain xs) = mset xs" using assms by (simp add: permutes_entries_def)
  then show "set (drain xs) = set xs" "length (drain xs) = length xs"
    by (auto dest: mset_eq_setD mset_eq_length)
  have "mset (map f (drain xs)) = mset (map f xs)" using \<open>mset (drain xs) = mset xs\<close> by simp
  then show "distinct (map f (drain xs)) \<longleftrightarrow> distinct (map f xs)" by (rule mset_eq_imp_distinct_iff)
qed

lemma row_to_assertion_ok:
  assumes "graph_ok C g" "row \<in> set (assertions g)"
  shows "\<exists>a. row_to_assertion row = Inr a"
  using assms by (auto simp: graph_ok_def assertions_ok_def list_all_iff row_to_assertion_def)

lemma list_by_edge_ok:
  assumes "graph_ok C g"
  shows "\<exists>as. list_by_edge g i = Inr as \<and>
    set as = {a. \<exists>row\<in>set (assertions g). as_edge_id row = i \<and> row_to_assertion row = Inr a}"
proof -
  let ?rows = "filter (\<lambda>r. as_edge_id r = i) (assertions g)"
  obtain f where f: "\<And>row. row \<in> set (assertions g) \<Longrightarrow> row_to_assertion row = Inr (f row)"
    using row_to_assertion_ok [OF assms] by metis
  then have "list_by_edge g i = Inr (map f ?rows)"
    unfolding list_by_edge_def by (intro collect_results_parse) simp
  moreover have "set (map f ?rows) = {a. \<exists>row\<in>set (assertions g). as_edge_id row = i \<and> row_to_assertion row = Inr a}"
    using f by force
  ultimately show ?thesis by blast
qed

lemma collect_assertions:
  assumes "graph_ok C g"
  shows "\<exists>as. collect_results (map (\<lambda>(i, _). res_map_err GStorage (list_by_edge g i)) ve) = Inr as \<and>
    set (concat as) = {a. \<exists>row\<in>set (assertions g). as_edge_id row \<in> fst ` set ve \<and> row_to_assertion row = Inr a}"
proof (induction ve)
  case (Cons x ve)
  obtain as1 where as1: "list_by_edge g (fst x) = Inr as1" "set as1 = {a. \<exists>row\<in>set (assertions g). as_edge_id row = fst x \<and> row_to_assertion row = Inr a}"
    using list_by_edge_ok [OF assms] by blast
  obtain as where as: "collect_results (map (\<lambda>(i, _). res_map_err GStorage (list_by_edge g i)) ve) = Inr as"
    "set (concat as) = {a. \<exists>row\<in>set (assertions g). as_edge_id row \<in> fst ` set ve \<and> row_to_assertion row = Inr a}"
    using Cons.IH by blast
  have "collect_results (map (\<lambda>(i, _). res_map_err GStorage (list_by_edge g i)) (x # ve)) = Inr (as1 # as)"
    using as1(1) as(1) by (simp add: case_prod_beta)
  moreover have "set (concat (as1 # as)) = {a. \<exists>row\<in>set (assertions g). as_edge_id row \<in> fst ` set (x # ve) \<and> row_to_assertion row = Inr a}"
    using as1(2) as(2) by auto
  ultimately show ?case by blast
qed simp

definition node_ids :: "subgraph \<Rightarrow> node_id set" where
  "node_ids sg = (\<lambda>x. node_id (sn_node x)) ` set (sg_nodes sg)"

text \<open>
  What the answer promises: distinct nodes within the depth, each with its distance from the root and
  as it is stored; edges between them; the assertions on those edges; and, unless the answer is full,
  the whole ball with every edge that touches its inside.
\<close>

definition neighbourhood :: "graph \<Rightarrow> node_id \<Rightarrow> nat \<Rightarrow> nat \<Rightarrow> subgraph \<Rightarrow> bool" where
  "neighbourhood g root depth max_nodes sg \<longleftrightarrow>
     distinct (map (\<lambda>x. node_id (sn_node x)) (sg_nodes sg)) \<and> length (sg_nodes sg) \<le> max max_nodes 1 \<and> root \<in> node_ids sg \<and>
     (\<forall>x\<in>set (sg_nodes sg). select_node g (node_id (sn_node x)) = Some (sn_node x) \<and>
        hop_distance g root (node_id (sn_node x)) (sn_distance x) \<and> sn_distance x \<le> depth) \<and>
     distinct (map edge_id (sg_edges sg)) \<and>
     (\<forall>e\<in>set (sg_edges sg). e \<in> read_edges g \<and> edge_subject e \<in> node_ids sg \<and> edge_object e \<in> node_ids sg) \<and>
     set (sg_assertions sg) = {a. \<exists>row\<in>set (assertions g). as_edge_id row \<in> edge_id ` set (sg_edges sg) \<and> row_to_assertion row = Inr a} \<and>
     (length (sg_nodes sg) < max_nodes \<longrightarrow>
        node_ids sg = {n. \<exists>d\<le>depth. hop_distance g root n d} \<and>
        set (sg_edges sg) = {e \<in> read_edges g. touches e {n. \<exists>d<depth. hop_distance g root n d}})"

lemma select_node_id: "select_node g i = Some n \<Longrightarrow> node_id n = i"
  by (auto simp: select_node_def row_to_node_def dest: lookup_by_SomeD)

lemma bfs_answer:
  assumes sound: "bfs_sound g root depth (vn, ve, fr)" and size: "length vn \<le> max m 1"
    and complete: "length vn < m \<longrightarrow> bfs_complete g root depth (vn, ve, fr)"
    and perm: "permutes_entries dn" "permutes_entries de"
    and as: "set as = {a. \<exists>row\<in>set (assertions g). as_edge_id row \<in> fst ` set (de ve) \<and> row_to_assertion row = Inr a}"
  shows "neighbourhood g root depth m
    \<lparr>sg_nodes = map (\<lambda>(_, node, distance). \<lparr>sn_node = node, sn_distance = distance\<rparr>) (dn vn),
     sg_edges = map snd (de ve), sg_assertions = as\<rparr>" (is "neighbourhood g root depth m ?sg")
proof -
  note pn = permutes_entriesD [OF perm(1)] and pe = permutes_entriesD [OF perm(2)]
  have entries: "\<And>i n d. (i, n, d) \<in> set vn \<Longrightarrow> select_node g i = Some n \<and> hop_distance g root i d \<and> d \<le> depth \<and> node_id n = i"
    using sound select_node_id by (fastforce simp: bfs_sound_def list_all_iff entry_ok_def)
  then have ids: "map (\<lambda>x. node_id (sn_node x)) (sg_nodes ?sg) = map fst (dn vn)" using pn(1) by auto
  then have node_ids: "node_ids ?sg = fst ` set vn" using pn(1) unfolding node_ids_def by (metis list.set_map)
  have edges: "\<And>i e. (i, e) \<in> set ve \<Longrightarrow> edge_id e = i \<and> e \<in> read_edges g \<and> edge_subject e \<in> fst ` set vn \<and> edge_object e \<in> fst ` set vn"
    using sound by (auto simp: bfs_sound_def edge_entries_ok_def)
  then have eids: "map edge_id (sg_edges ?sg) = map fst (de ve)" using pe(1) by auto
  then have eset: "edge_id ` set (sg_edges ?sg) = fst ` set (de ve)" by (metis list.set_map)
  show ?thesis
    unfolding neighbourhood_def ids eids eset
  proof (intro conjI impI)
    show "distinct (map fst (dn vn))" "distinct (map fst (de ve))"
      using sound pn(3) pe(3) by (auto simp: bfs_sound_def edge_entries_ok_def)
    show "length (sg_nodes ?sg) \<le> max m 1" using size pn(2) by simp
    show "root \<in> node_ids ?sg" using sound node_ids by (simp add: bfs_sound_def)
    show "\<forall>x\<in>set (sg_nodes ?sg). select_node g (node_id (sn_node x)) = Some (sn_node x) \<and>
        hop_distance g root (node_id (sn_node x)) (sn_distance x) \<and> sn_distance x \<le> depth"
      using entries pn(1) by fastforce
    show "\<forall>e\<in>set (sg_edges ?sg). e \<in> read_edges g \<and> edge_subject e \<in> node_ids ?sg \<and> edge_object e \<in> node_ids ?sg"
      using edges pe(1) unfolding node_ids by fastforce
    show "set (sg_assertions ?sg) = {a. \<exists>row\<in>set (assertions g). as_edge_id row \<in> fst ` set (de ve) \<and> row_to_assertion row = Inr a}"
      using as by simp
    assume "length (sg_nodes ?sg) < m"
    then have "bfs_complete g root depth (vn, ve, fr)" using complete pn(2) by simp
    moreover have "ball g root depth = {n. \<exists>d\<le>depth. hop_distance g root n d}" by (auto simp: ball_distance)
    ultimately show "node_ids ?sg = {n. \<exists>d\<le>depth. hop_distance g root n d}"
      "set (sg_edges ?sg) = {e \<in> read_edges g. touches e {n. \<exists>d<depth. hop_distance g root n d}}"
      using pe(1) [of ve] by (simp_all add: node_ids bfs_complete_def visited_ids_def seen_edges_def inner_def)
  qed
qed

text \<open>
  C26. Asking for the neighbourhood of a node answers, within the depth and the limit that were asked
  for, with nodes at their true distance from it, edges between them and all assertions on those
  edges, no node and no edge twice. Unless the limit was reached, the nodes are all those within the
  depth, and the edges all those that touch a node nearer than the depth; an edge between two nodes
  that both lie at the full depth is left out. For an unknown node the answer is that it was not found.
\<close>

theorem subgraph_is_the_neighbourhood:
  assumes "graph_ok C g" "permutes_entries drain_nodes" "permutes_entries drain_edges"
  shows "case get_subgraph C drain_nodes drain_edges root depth max_nodes g of
      Inl e \<Rightarrow> \<not> has_key node_id (nodes g) root \<and> e = GNotFound (''node '' @ hash32_to_hex C (node_hash root))
    | Inr sg \<Rightarrow> has_key node_id (nodes g) root \<and> neighbourhood g root depth max_nodes sg"
proof (cases "select_node g root")
  case None
  then have "\<not> has_key node_id (nodes g) root" using select_node_exists [of g root] by auto
  with None show ?thesis by (simp add: get_subgraph_def)
next
  case (Some root_node)
  let ?st = "bfs_rounds g max_nodes 1 depth ([(root, root_node, 0)], [], [root])"
  have "start_inv g root 0 ([(root, root_node, 0)], [], [root])"
    using Some by (simp add: start_inv_def entry_ok_def edge_entries_ok_def touches_def hop_distance_iff)
  note bfs = bfs_rounds_correct [OF assms(1) this, of depth max_nodes]
  obtain vn ve fr where st: "?st = (vn, ve, fr)" by (cases ?st)
  obtain as where as: "collect_results (map (\<lambda>(i, _). res_map_err GStorage (list_by_edge g i)) (drain_edges ve)) = Inr as"
    "set (concat as) = {a. \<exists>row\<in>set (assertions g). as_edge_id row \<in> fst ` set (drain_edges ve) \<and> row_to_assertion row = Inr a}"
    using collect_assertions [OF assms(1)] by blast
  have "has_key node_id (nodes g) root"
    using Some lookup_by_None_iff [of node_id "nodes g" root] by (auto simp: select_node_def)
  moreover have "neighbourhood g root depth max_nodes
    \<lparr>sg_nodes = map (\<lambda>(_, node, distance). \<lparr>sn_node = node, sn_distance = distance\<rparr>) (drain_nodes vn),
     sg_edges = map snd (drain_edges ve), sg_assertions = concat as\<rparr>"
    using bfs st assms(2,3) as(2) by (intro bfs_answer [where fr = fr]) (auto simp: max.commute)
  ultimately show ?thesis using Some st as(1) by (simp add: get_subgraph_def)
qed

text \<open>Three nodes in a row; the hash is the identity, which keeps the identifiers readable.\<close>

definition road_crypto :: "(byte, byte) codec" where
  "road_crypto = sample\<lparr>blake3 := id, hex_encode := \<lambda>_. []\<rparr>"

definition road_node :: "char \<Rightarrow> node" where
  "road_node c = node_new road_crypto ''concept'' [c] 0"

definition road_edge :: "char \<Rightarrow> string \<Rightarrow> char \<Rightarrow> edge" where
  "road_edge a p b = edge_new road_crypto (node_id (road_node a)) p (node_id (road_node b)) 0"

definition road_graph :: graph where
  "road_graph = empty_graph
     \<lparr>nodes := map road_node ''abc'', edges := [road_edge CHR ''b'' ''after'' CHR ''a'', road_edge CHR ''b'' ''before'' CHR ''c''],
      actors := [\<lparr>ac_id = ActorId [], ac_actor_type = ''agent'', ac_name = None, ac_public_key = None,
                  ac_identity_uri = None, ac_metadata = JNull, ac_created_at = 0\<rparr>],
      assertions := [\<lparr>as_id = EventId [], as_edge_id = edge_id (road_edge CHR ''b'' ''after'' CHR ''a''), as_actor_id = ActorId [],
                      as_confidence = None, as_observed_at = None, as_asserted_at = 0,
                      as_extraction_method = ''direct'', as_status = ''active''\<rparr>]\<rparr>"

lemma road_simps:
  "node_id (road_node c) = NodeId (str_bytes NODE_PREFIX @ [of_char c])"
  "node_canonical_identifier (road_node c) = [c]"
  "edge_id (road_edge a p b) = EdgeId (str_bytes (EDGE_PREFIX @ '':'' @ p @ '':''))"
  "edge_subject (road_edge a p b) = node_id (road_node a)" "edge_object (road_edge a p b) = node_id (road_node b)"
  "edge_predicate (road_edge a p b) = p"
  by (simp_all add: road_node_def road_edge_def node_new_def edge_new_def node_id_from_canonical_identifier_def
      edge_id_from_triple_def hash32_derive_def hash32_to_hex_def road_crypto_def)

lemma road_ids:
  "node_id (road_node c) = node_id (road_node c') \<longleftrightarrow> c = c'"
  "edge_id (road_edge a p b) = edge_id (road_edge a' p' b') \<longleftrightarrow> p = p'"
  by (simp add: road_simps of_char_word8_inj) (simp add: road_simps inj_str_bytes flip: append_assoc)

lemma road_parse:
  "assertion_status_parse ''active'' = Some Active" "extraction_method_parse ''direct'' = Some Direct"
  "actor_type_parse ''agent'' = Some Agent"
  by (simp_all add: assertion_status_parse_def extraction_method_parse_def actor_type_parse_def)

lemma road_graph_ok: "graph_ok road_crypto road_graph"
proof -
  have "node_id_from_canonical_identifier road_crypto [c] = node_id (road_node c)" for c
    by (simp add: road_node_def node_new_def)
  moreover have "edge_id_from_triple road_crypto (node_id (road_node a)) p (node_id (road_node b)) = edge_id (road_edge a p b)" for a p b
    by (simp add: road_edge_def edge_new_def)
  ultimately show ?thesis
    by (simp add: graph_ok_defs road_graph_def empty_graph_def has_key_def road_simps(2,4,5,6) road_ids road_parse)
qed

lemma permutes_id: "permutes_entries id"
  by (simp add: permutes_entries_def)

theorem subgraph_is_the_neighbourhood_witness:
  "case get_subgraph road_crypto id id (node_id (road_node CHR ''a'')) 1 10 road_graph of
      Inl e \<Rightarrow> False
    | Inr sg \<Rightarrow> map sn_distance (sg_nodes sg) = [0, 1] \<and> length (sg_assertions sg) = 1 \<and>
        neighbourhood road_graph (node_id (road_node CHR ''a'')) 1 10 sg"
  using subgraph_is_the_neighbourhood [OF road_graph_ok permutes_id permutes_id,
      of "node_id (road_node CHR ''a'')" 1 10]
  by (simp add: get_subgraph_def road_graph_def empty_graph_def list_touching_def select_node_def lookup_by_def
      visit_candidate_def map_insert_def has_key_def list_by_edge_def row_to_assertion_def road_simps(4,5) road_ids road_parse)

end
