(* ===== verification/Explain.thy ===== *)
theory Explain
  imports Traversal Network "HOL-Library.Product_Lexorder" "HOL-Library.List_Lexorder"
begin

text \<open>
  Where a claim comes from: the history of an object (\<^verbatim>\<open>history.rs\<close>, \<^verbatim>\<open>history_for\<close> of \<^verbatim>\<open>repo/events.rs\<close>)
  and the provenance of an event (\<^verbatim>\<open>provenance.rs\<close>), which checks the stored signature again.  The log of
  a reachable state is authentic: every event in it was signed with a key that hashes to its origin,
  so the check succeeds whenever the key is known.
\<close>

section \<open>History\<close>

definition VALID_OBJECT_TYPES :: "string list" where
  "VALID_OBJECT_TYPES = [''node'', ''edge'', ''assertion'']"

record history_entry =
  he_event_id :: event_id
  he_event_type :: string
  he_created_at :: int
  he_payload :: json

definition history_for :: "db \<Rightarrow> string \<Rightarrow> hash32 \<Rightarrow> event_row list" where
  "history_for d ref_type ref_id =
     sort_key (\<lambda>r. (er_origin r, sint (er_sequence r)))
       (filter (\<lambda>r. (er_event_id r, ref_type, ref_id) \<in> set (event_refs d)) (events d))"

text \<open>
  Parsing a payload as a JSON value is the argument \<open>parse_value\<close>.
\<close>

definition get_history ::
  "('sk, 'vk, 'z) codec_scheme \<Rightarrow> (byte list \<Rightarrow> json_error + json) \<Rightarrow> string \<Rightarrow> string \<Rightarrow> db \<Rightarrow> graph_error + history_entry list" where
  "get_history C parse_value object_type i d =
     (if object_type \<notin> set VALID_OBJECT_TYPES
      then Inl (InvalidInput (''unknown object_type '' @ [CHR 0x27] @ object_type @ [CHR 0x27] @
             '', expected one of ['' @ join_with '', '' (map (\<lambda>t. [CHR 0x22] @ t @ [CHR 0x22]) VALID_OBJECT_TYPES) @ '']'')) else
      res_bind (res_map_err (\<lambda>_. InvalidInput (''invalid id '' @ [CHR 0x27] @ i @ [CHR 0x27])) (hash32_from_str C i)) (\<lambda>hash.
        collect_results (map (\<lambda>row.
          res_bind (res_map_err (\<lambda>e. GEvents (Canonicalize e)) (parse_value (er_payload row))) (\<lambda>payload.
            Inr \<lparr>he_event_id = er_event_id row, he_event_type = er_event_type row, he_created_at = er_created_at row,
                 he_payload = payload\<rparr>)) (history_for d object_type hash))))"

section \<open>Provenance\<close>

record event_provenance =
  ep_event_id :: event_id
  ep_origin_peer :: string
  ep_event_type :: string
  ep_created_at :: int
  ep_signature_valid :: bool
  ep_origin_key_known :: bool

definition provenance_key ::
  "('sk, 'vk, 'z) codec_scheme \<Rightarrow> 'vk wire \<Rightarrow> 'sk \<Rightarrow> peer_id \<Rightarrow> db \<Rightarrow> graph_error + 'vk option" where
  "provenance_key C W identity origin_peer d =
     (if origin_peer = identity_peer_id C identity then Inr (Some (verifying_key C identity))
      else transpose_opt (map_option (\<lambda>info.
             ok_or (InvalidInput (''stored public key for '' @ peer_id_to_string C origin_peer @ '' is invalid''))
               (vk_from_bytes W (pe_public_key info))) (get_peer d origin_peer)))"

definition get_event_provenance ::
  "('sk, 'vk, 'z) codec_scheme \<Rightarrow> 'vk wire \<Rightarrow> 'sk \<Rightarrow> event_id \<Rightarrow> db \<Rightarrow> graph_error + event_provenance option" where
  "get_event_provenance C W identity i d =
     (case events_get_by_id d i of
        None \<Rightarrow> Inr None
      | Some row \<Rightarrow>
          res_bind (res_map_err (\<lambda>e. GEvents (Canonicalize e)) (parse_signed C (er_payload row))) (\<lambda>signed.
          res_bind (res_map_err (\<lambda>_. InvalidInput (''stored event '' @ event_id_to_hex C i @ '' has an unparseable origin_peer''))
                      (peer_id_from_str C (ue_origin_peer (se_unsigned signed)))) (\<lambda>origin_peer.
          res_bind (provenance_key C W identity origin_peer d) (\<lambda>verifying_key.
            let (signature_valid, origin_key_known) =
                  (case verifying_key of
                     Some key \<Rightarrow> (verify_and_derive_id C signed key = Inr i, True)
                   | None \<Rightarrow> (False, False))
            in Inr (Some \<lparr>ep_event_id = i, ep_origin_peer = peer_id_to_string C origin_peer, ep_event_type = er_event_type row,
                          ep_created_at = er_created_at row, ep_signature_valid = signature_valid,
                          ep_origin_key_known = origin_key_known\<rparr>)))))"

section \<open>The log is authentic\<close>

definition authored :: "('sk, 'vk, 'z) codec_scheme \<Rightarrow> signed_event set \<Rightarrow> event_row \<Rightarrow> bool" where
  "authored C S r \<longleftrightarrow> (\<exists>sev\<in>S. \<exists>vk. row_of C sev r \<and> verify_and_derive_id C sev vk = Inr (er_event_id r) \<and>
     er_origin r = peer_id_from_public_key C vk)"

definition authentic :: "('sk, 'vk, 'z) codec_scheme \<Rightarrow> signed_event set \<Rightarrow> db \<Rightarrow> bool" where
  "authentic C S d \<longleftrightarrow> (\<forall>r\<in>set (events d). authored C S r)"

lemma authentic_cong: "events d' = events d \<Longrightarrow> authentic C S d' \<longleftrightarrow> authentic C S d"
  by (simp add: authentic_def)

lemma check_origin_authored:
  "check_origin C vk sev = Inr (eid, p, prev) \<Longrightarrow> verify_and_derive_id C sev vk = Inr eid \<and> p = peer_id_from_public_key C vk"
  by (auto simp: check_origin_def Let_def split: if_splits)

lemma appends_authentic:
  assumes "authentic C S d" "appends C sev p prev eid g refs d d'" "sev \<in> S"
    and "verify_and_derive_id C sev vk = Inr eid" "p = peer_id_from_public_key C vk"
  shows "authentic C S d'"
proof -
  obtain r where r: "row_of C sev r" "er_origin r = p" "er_event_id r = eid" "events d' = events d @ [r]"
    using assms(2) by (auto simp: appends_def advance_origin_def Let_def)
  then have "authored C S r" using assms(3-5) by (auto simp: authored_def)
  with assms(1) r(4) show ?thesis by (simp add: authentic_def)
qed

lemma ingest_authentic:
  assumes "db_ok C S d" "length (events d) < 2 ^ 64 - 1" "collision_free C S" "sev \<in> S" "authentic C S d"
  shows "authentic C S (snd (ingest_remote_event C vk sev t d))"
proof (cases "check_origin C vk sev")
  case (Inl e)
  then have "ingest_remote_event C vk sev t d = (Inl e, d)"
    by (simp add: ingest_remote_event_def transaction_def ingest_body_def)
  with assms(5) show ?thesis by simp
next
  case (Inr x)
  then obtain eid p prev where origin: "check_origin C vk sev = Inr (eid, p, prev)" by (cases x) auto
  note vk = check_origin_authored [OF origin, THEN conjunct1] check_origin_authored [OF origin, THEN conjunct2]
  have ok: "log_ok d" "logged C S d" using assms(1) by (simp_all add: db_ok_def)
  show ?thesis
  proof (cases "chain_offer (chain_of d p) (ue_sequence (se_unsigned sev)) prev eid = Append")
    case True
    from append_remote_outcome [OF ok(1) assms(2,3) ok(2) assms(4) origin True, of t] show ?thesis
      using assms(5) by (auto split: sum.splits dest: appends_authentic [OF assms(5) _ assms(4) vk])
  next
    case False
    then have "same_log d (snd (ingest_remote_event C vk sev t d))"
      using ingest_not_appended [OF ok(1) assms(2) origin, of t]
      by (auto simp: same_log_peers split: chain_reply.splits sum.splits)
    then show ?thesis using assms(5) by (simp add: same_log_def authentic_def)
  qed
qed

lemma commit_authentic:
  assumes "db_ok C S d" "length (events d) < 2 ^ 64 - 1" "codecs_ok C" "collision_free C S"
    and next_pos: "next_position d (identity_peer_id C k) = (s, prev)"
    and S: "\<And>sev eid. build_and_sign C k s prev t pl = Inr (sev, eid) \<Longrightarrow> sev \<in> S" and "authentic C S d"
  shows "authentic C S (snd (commit_local_event C k pl t d))"
proof (cases "build_and_sign C k s prev t pl")
  case (Inl e)
  then have "commit_local_event C k pl t d = (Inl e, d)"
    by (simp add: commit_local_event_def transaction_def commit_body_def Let_def next_pos)
  with assms(7) show ?thesis by simp
next
  case (Inr x)
  then obtain sev eid where build: "build_and_sign C k s prev t pl = Inr (sev, eid)" by (cases x) auto
  have ok: "log_ok d" "logged C S d" using assms(1) by (simp_all add: db_ok_def)
  have "verify_and_derive_id C sev (verifying_key C k) = Inr eid"
    using build assms(3) by (intro build_and_sign_verifies) (auto simp: codecs_ok_def)
  with commit_outcome [OF assms(3) ok(1) assms(2,4) ok(2) S [OF build] refl next_pos build] assms(7) show ?thesis
    by (auto simp: identity_peer_id_def split: sum.splits dest: appends_authentic [OF assms(7) _ S [OF build]])
qed

lemma peer_step_authentic:
  assumes "peer_step C S d d'" "db_ok C S d" "length (events d) < 2 ^ 64 - 1" "codecs_ok C" "collision_free C S" "authentic C S d"
  shows "authentic C S d'"
  using assms(1)
proof cases
  case (commit k s prev t pl res)
  have "authentic C S (snd (commit_local_event C k pl t d))"
    by (rule commit_authentic [OF assms(2-5) commit(1) _ assms(6)]) (rule commit(2))
  with commit(3) show ?thesis by simp
next
  case (ingest sev vk t res)
  with ingest_authentic [OF assms(2,3,5) _ assms(6), of sev vk t] show ?thesis by simp
next
  case (redact auth i reason now res)
  then have "events d' = events d" using redaction_failed(1) redact_evidence_committed(5) by (cases res) fastforce+
  with assms(6) show ?thesis by (simp add: authentic_def)
next
  case (redact_actor auth a reason now res)
  then have "events d' = events d" using redaction_failed(2) redact_actor_committed(4) by (cases res) fastforce+
  with assms(6) show ?thesis by (simp add: authentic_def)
next
  case (rebuild res)
  with rebuild_projected [of C d] assms(2,6) show ?thesis by (simp add: db_ok_def authentic_def)
next
  case know_peer
  then show ?thesis using assms(6) same_log_peers(1) [of d] by (simp add: same_log_def authentic_def)
next
  case forget_peer
  then show ?thesis using assms(6) same_log_peers(2) [of d] by (simp add: same_log_def authentic_def)
next
  case know_address
  then show ?thesis using assms(6) same_log_peers(4) by (fastforce simp: same_log_def authentic_def)
qed

theorem reachable_authentic:
  assumes "(peer_step C S)\<^sup>*\<^sup>* empty_db d" "length (events d) < 2 ^ 64 - 1" "codecs_ok C" "collision_free C S" "readable C S"
  shows "authentic C S d"
  using assms(1,2)
proof (induction rule: rtranclp_induct)
  case base
  show ?case by (simp add: authentic_def empty_db_def)
next
  case (step d d')
  have small: "length (events d) < 2 ^ 64 - 1"
    using peer_step_prefix [OF step(2)] step.prems prefix_length_le order_le_less_trans by blast
  have "db_ok C S d" by (rule reachable_db_ok [OF step(1) small assms(3-5)])
  with step small assms show ?case by (blast intro: peer_step_authentic)
qed

section \<open>Provenance is truthful\<close>

text \<open>No two keys share a peer id: BLAKE3 has no collision on them.\<close>

definition ids_tell_keys :: "('sk, 'vk, 'z) crypto_scheme \<Rightarrow> bool" where
  "ids_tell_keys C \<longleftrightarrow> inj (peer_id_from_public_key C)"

text \<open>What is known of the key of an origin: it is this peer's own, there is none on file, or the
  bytes on file are no key, or they are a key, of the origin or of another peer.\<close>

datatype 'vk key_on_file = No_Key | Not_A_Key | Key 'vk

definition key_on_file :: "('sk, 'vk, 'z) codec_scheme \<Rightarrow> 'vk wire \<Rightarrow> 'sk \<Rightarrow> peer_id \<Rightarrow> db \<Rightarrow> 'vk key_on_file" where
  "key_on_file C W k p d =
     (if p = identity_peer_id C k then Key (verifying_key C k)
      else case get_peer d p of
             None \<Rightarrow> No_Key
           | Some info \<Rightarrow> (case vk_from_bytes W (pe_public_key info) of None \<Rightarrow> Not_A_Key | Some key \<Rightarrow> Key key))"

lemma provenance_key_on_file:
  "provenance_key C W k p d =
     (case key_on_file C W k p d of
        No_Key \<Rightarrow> Inr None
      | Not_A_Key \<Rightarrow> Inl (InvalidInput (''stored public key for '' @ peer_id_to_string C p @ '' is invalid''))
      | Key key \<Rightarrow> Inr (Some key))"
  by (simp add: provenance_key_def key_on_file_def split: option.split)

lemma key_on_file_own [simp]: "key_on_file C W k (identity_peer_id C k) d = Key (verifying_key C k)"
  by (simp add: key_on_file_def)

text \<open>
  C27. In every reachable state each logged event was signed with a key that hashes to its origin,
  and asking for the provenance of an event tells the truth about it. An event that is not logged
  has none. Otherwise the answer carries the origin, the type and the time of the logged event, and
  about the signature it depends on the key on file for the origin, the peer's own key for its own
  events: without one it reports the key as unknown and the signature as not valid; bytes that are
  no key are an error; a key that hashes to the origin is reported as known and the signature as
  valid; under any other key the signature is reported as valid exactly if the event verifies
  under that key.
\<close>

theorem provenance_is_truthful:
  assumes "(peer_step C S)\<^sup>*\<^sup>* empty_db d" and "length (events d) < 2 ^ 64 - 1"
    and "codecs_ok C" and "collision_free C S" and "reads_back C S" and "ids_tell_keys C"
  shows "case events_get_by_id d i of
      None \<Rightarrow> \<not> has_key er_event_id (events d) i \<and> get_event_provenance C W k i d = Inr None
    | Some r \<Rightarrow> r \<in> set (events d) \<and> er_event_id r = i \<and>
        (\<exists>sev\<in>S. \<exists>vk. row_of C sev r \<and> verify_and_derive_id C sev vk = Inr i \<and> peer_id_from_public_key C vk = er_origin r \<and>
          get_event_provenance C W k i d =
            (let answer = (\<lambda>valid known. Inr (Some \<lparr>ep_event_id = i, ep_origin_peer = peer_id_to_string C (er_origin r),
                   ep_event_type = er_event_type r, ep_created_at = er_created_at r,
                   ep_signature_valid = valid, ep_origin_key_known = known\<rparr>)) in
             case key_on_file C W k (er_origin r) d of
               No_Key \<Rightarrow> answer False False
             | Not_A_Key \<Rightarrow> Inl (InvalidInput (''stored public key for '' @ peer_id_to_string C (er_origin r) @ '' is invalid''))
             | Key key \<Rightarrow>
                 if peer_id_from_public_key C key = er_origin r then answer True True
                 else answer (verify_and_derive_id C sev key = Inr i) True))"
proof (cases "events_get_by_id d i")
  case None
  moreover have "\<not> has_key er_event_id (events d) i" using None by (simp add: events_get_by_id_def lookup_by_None_iff)
  ultimately show ?thesis by (simp add: get_event_provenance_def)
next
  case (Some r)
  then have r: "r \<in> set (events d)" "er_event_id r = i" by (auto simp: events_get_by_id_def dest: lookup_by_SomeD)
  have "authored C S r" using reachable_authentic [OF assms(1-4) reads_back_readable [OF assms(5)]] r(1)
    by (simp add: authentic_def)
  then obtain sev vk where sev: "sev \<in> S" "row_of C sev r" "verify_and_derive_id C sev vk = Inr i"
      "peer_id_from_public_key C vk = er_origin r"
    using r(2) by (auto simp: authored_def)
  have parsed: "parse_signed C (er_payload r) = Inr sev" "peer_id_from_str C (ue_origin_peer (se_unsigned sev)) = Inr (er_origin r)"
    using sev(1,2) assms(5) by (auto simp: reads_back_def row_of_def)
  have same: "key = vk" if "peer_id_from_public_key C key = er_origin r" for key
    using that sev(4) assms(6) by (simp add: ids_tell_keys_def inj_def)
  have answer: "get_event_provenance C W k i d =
      (let answer = (\<lambda>valid known. Inr (Some \<lparr>ep_event_id = i, ep_origin_peer = peer_id_to_string C (er_origin r),
             ep_event_type = er_event_type r, ep_created_at = er_created_at r,
             ep_signature_valid = valid, ep_origin_key_known = known\<rparr>)) in
       case key_on_file C W k (er_origin r) d of
         No_Key \<Rightarrow> answer False False
       | Not_A_Key \<Rightarrow> Inl (InvalidInput (''stored public key for '' @ peer_id_to_string C (er_origin r) @ '' is invalid''))
       | Key key \<Rightarrow>
           if peer_id_from_public_key C key = er_origin r then answer True True
           else answer (verify_and_derive_id C sev key = Inr i) True)"
    using Some parsed sev(3) same
    by (cases "key_on_file C W k (er_origin r) d") (auto simp: get_event_provenance_def provenance_key_on_file)
  show ?thesis
    unfolding Some option.case using answer r sev by blast
qed

lemma sample_ids_tell_keys: "ids_tell_keys sample"
  by (auto simp: ids_tell_keys_def inj_def peer_id_from_public_key_def sample_def sample_codec_def pad_to_def)

theorem provenance_is_truthful_witness:
  "\<exists>x y. get_event_provenance sample sample_wire 7 (sample_id sample_first) sample_db1 = Inr (Some x) \<and>
     ep_signature_valid x \<and> ep_origin_key_known x \<and>
     get_event_provenance sample sample_wire 8 (sample_id sample_first) sample_db1 = Inr (Some y) \<and>
     \<not> ep_signature_valid y \<and> \<not> ep_origin_key_known y"
proof -
  have small: "length (events sample_db1) < 2 ^ 64 - 1" using sample_small(2) by simp
  note truth = provenance_is_truthful [OF sample_reachable(2) small sample_codecs sample_collision_free sample_reads_back
      sample_ids_tell_keys, where i = "sample_id sample_first" and W = sample_wire]
  have "sample_id sample_first \<in> set (chain_of sample_db1 sample_peer)" using sample_first_applied by auto
  then obtain r where r: "r \<in> set (events sample_db1)" "er_event_id r = sample_id sample_first" "er_origin r = sample_peer"
    by (auto simp: chain_of_def origin_rows_def)
  have once: "distinct (map er_event_id (events sample_db1))" using sample_db_ok(2) by (simp add: db_ok_def log_ok_def)
  have "has_key er_event_id (events sample_db1) (sample_id sample_first)" using r(1,2) by (force simp: has_key_def)
  then obtain q where q: "events_get_by_id sample_db1 (sample_id sample_first) = Some q"
    using lookup_by_None_iff [of er_event_id "events sample_db1"] by (auto simp: events_get_by_id_def)
  then have "q \<in> set (events sample_db1)" "er_event_id q = er_event_id r"
    using r(2) by (auto simp: events_get_by_id_def dest: lookup_by_SomeD)
  then have row: "events_get_by_id sample_db1 (sample_id sample_first) = Some r"
    using q r(1) once by (simp add: distinct_map inj_on_def)
  have own: "identity_peer_id sample 7 = sample_peer" "peer_id_from_public_key sample (verifying_key sample 7) = sample_peer"
    by (simp_all add: sample_peer_def identity_peer_id_def)
  have other: "identity_peer_id sample 8 \<noteq> sample_peer"
    using sample_ids_tell_keys
    by (auto simp: sample_peer_def identity_peer_id_def ids_tell_keys_def inj_eq sample_def sample_codec_def)
  obtain out where "ingest_remote_event sample 7 sample_first 11 empty_db = (Inr (Applied (sample_id sample_first) out), sample_db1)"
    using sample_first_applied by blast
  moreover have "events sample_db1 \<noteq> events empty_db" using r(1) by (auto simp: empty_db_def)
  moreover have "events (mark_forked p (record_fork p s a b t j (upsert_peer p key nm t empty_db))) = events empty_db" for p s a b t j key nm
    by (simp add: mark_forked_def record_fork_def upsert_peer_def)
  ultimately have "peers sample_db1 = peers empty_db" by (metis ingest_effect)
  then have "peers sample_db1 = []" by (simp add: empty_db_def)
  then have "get_peer sample_db1 sample_peer = None" by (simp add: get_peer_def lookup_by_def)
  then have keys: "key_on_file sample sample_wire 7 sample_peer sample_db1 = Key (verifying_key sample 7)"
      "key_on_file sample sample_wire 8 sample_peer sample_db1 = No_Key"
    using own(1) other by (simp_all add: key_on_file_def)
  have "\<exists>x. get_event_provenance sample sample_wire 7 (sample_id sample_first) sample_db1 = Inr (Some x) \<and>
      ep_signature_valid x \<and> ep_origin_key_known x"
    using truth [of 7] own(2) by (simp only: row option.case r(3) keys key_on_file.case Let_def if_True simp_thms) (elim conjE bexE exE, simp)
  moreover have "\<exists>y. get_event_provenance sample sample_wire 8 (sample_id sample_first) sample_db1 = Inr (Some y) \<and>
      \<not> ep_signature_valid y \<and> \<not> ep_origin_key_known y"
    using truth [of 8] by (simp only: row option.case r(3) keys key_on_file.case Let_def) (elim conjE bexE exE, simp)
  ultimately show ?thesis by blast
qed

section \<open>History is exact\<close>

lemma origin_rows_sorted:
  assumes "log_ok d" "length (events d) < 2 ^ 61"
  shows "sorted (map (\<lambda>r. sint (er_sequence r)) (origin_rows d p))"
proof -
  have seq: "er_sequence (origin_rows d p ! i) = of_nat (Suc i)" if "i < length (origin_rows d p)" for i
    using assms(1) that by (auto simp: log_ok_def chain_linked_def)
  have "length (origin_rows d p) < 2 ^ 61" using assms(2) chain_of_le [of d p] length_chain_of [of d p] by linarith
  then have "sint (er_sequence (origin_rows d p ! i)) = int (Suc i)" if "i < length (origin_rows d p)" for i
    using seq [OF that] that sint_of_int_i64 [of "int (Suc i)"] by simp
  then show ?thesis by (simp add: sorted_iff_nth_mono)
qed

lemma history_exact:
  assumes "log_ok d" "length (events d) < 2 ^ 61"
  shows "distinct (map er_event_id (history_for d t h))"
    and "set (history_for d t h) = {r \<in> set (events d). (er_event_id r, t, h) \<in> set (event_refs d)}"
    and "filter (\<lambda>r. er_origin r = p) (history_for d t h) =
      filter (\<lambda>r. (er_event_id r, t, h) \<in> set (event_refs d)) (origin_rows d p)"
proof -
  let ?P = "\<lambda>r. (er_event_id r, t, h) \<in> set (event_refs d)" and ?key = "\<lambda>r. (er_origin r, sint (er_sequence r))"
  have "distinct (map er_event_id (events d))" using assms(1) by (simp add: log_ok_def)
  then have "distinct (map er_event_id (filter ?P (events d)))" by (rule distinct_map_filter)
  moreover have "mset (map er_event_id (history_for d t h)) = mset (map er_event_id (filter ?P (events d)))"
    by (simp add: history_for_def)
  ultimately show "distinct (map er_event_id (history_for d t h))" by (metis mset_eq_imp_distinct_iff)
  show "set (history_for d t h) = {r \<in> set (events d). ?P r}" by (auto simp: history_for_def)
  have rows: "filter (\<lambda>r. er_origin r = p) (filter ?P (events d)) = filter ?P (origin_rows d p)"
    by (simp add: origin_rows_def conj_commute)
  have "sorted (map (\<lambda>r. sint (er_sequence r)) (filter ?P (origin_rows d p)))"
    using origin_rows_sorted [OF assms] by (rule sorted_filter)
  moreover have "\<forall>r\<in>set (filter ?P (origin_rows d p)). er_origin r = p" by (auto simp: origin_rows_def)
  ultimately have "sorted (map ?key (filter ?P (origin_rows d p)))"
    unfolding sorted_map by (elim sorted_wrt_mono_rel [rotated]) (simp add: origin_rows_def)
  then show "filter (\<lambda>r. er_origin r = p) (history_for d t h) = filter ?P (origin_rows d p)"
    unfolding history_for_def filter_sort rows by (rule sort_key_id_if_sorted)
qed

text \<open>The order is by origin first, so that an older event of another peer may come later.\<close>

lemma history_is_not_by_age:
  assumes "er_event_id old = EventId [1]" "er_origin old = [2]" "er_event_id new = EventId [2]" "er_origin new = [1]"
    and "er_created_at old < er_created_at new"
  shows "history_for (empty_db\<lparr>events := [old, new], event_refs := [(EventId [1], ''node'', h), (EventId [2], ''node'', h)]\<rparr>) ''node'' h
     = [new, old]"
  using assms by (simp add: history_for_def empty_db_def)

end
