(* ===== verification/Corroboration.thy ===== *)
theory Corroboration
  imports Explain Robots "HOL-Library.Char_ord"
begin

text \<open>
  How well an edge is supported (\<^verbatim>\<open>oag-graph/src/corroboration.rs\<close>) and the list of roadmap proposals ranked
  by it (\<^verbatim>\<open>roadmap.rs\<close>).  Sources are grouped by who controls them, so that many claims of one publisher
  count once.  An \<^verbatim>\<open>f32\<close> is a rational number and \<open>rnd\<close> the rounding after every operation; \<open>rnd64\<close> is the
  rounding of \<^verbatim>\<open>f64\<close>, and \<open>pow2 x\<close> is \<^verbatim>\<open>2.0f64.powf(x) as f32\<close>, whose precision the standard library leaves
  open.  The \<^verbatim>\<open>url\<close> crate is the record \<open>url_view\<close>, and the order in which a \<^verbatim>\<open>HashMap\<close> yields its entries is
  the argument \<open>drain\<close>.
\<close>

section \<open>Control groups\<close>

record 'u url_view =
  uv_parse :: "string \<Rightarrow> 'u option"
  uv_host_str :: "'u \<Rightarrow> string option"
  uv_path_segments :: "'u \<Rightarrow> string list option"

definition MULTI_TENANT_HOSTS :: "string list" where
  "MULTI_TENANT_HOSTS =
     [''github.com'', ''www.github.com'', ''gist.github.com'', ''raw.githubusercontent.com'', ''gitlab.com'', ''bitbucket.org'',
      ''npmjs.com'', ''www.npmjs.com'', ''pypi.org'', ''crates.io'', ''huggingface.co'', ''sourceforge.net'']"

definition SECOND_LEVEL_SUFFIXES :: "string list" where
  "SECOND_LEVEL_SUFFIXES =
     [''co.uk'', ''org.uk'', ''gov.uk'', ''ac.uk'', ''me.uk'', ''net.uk'', ''co.jp'', ''ne.jp'', ''or.jp'', ''co.in'',
      ''co.nz'', ''org.nz'', ''net.nz'', ''com.au'', ''net.au'', ''org.au'', ''co.za'', ''com.br'', ''com.mx'',
      ''co.kr'', ''com.cn'', ''co.il'', ''co.id'', ''com.sg'', ''com.tw'', ''com.hk'', ''co.th'']"

definition registrable_domain :: "string \<Rightarrow> string" where
  "registrable_domain host =
     (let parts = split_on CHR ''.'' host; n = length parts in
      if n \<le> 2 then host
      else let last_two = parts ! (n - 2) @ ''.'' @ parts ! (n - 1) in
           if n \<ge> 3 \<and> last_two \<in> set SECOND_LEVEL_SUFFIXES then parts ! (n - 3) @ ''.'' @ last_two else last_two)"

definition control_group_for_uri :: "'u url_view \<Rightarrow> string \<Rightarrow> string option" where
  "control_group_for_uri U uri =
     Option.bind (uv_parse U uri) (\<lambda>parsed.
     Option.bind (uv_host_str U parsed) (\<lambda>host_str.
       let host = to_lowercase host_str in
       case find (\<lambda>h. h = host) MULTI_TENANT_HOSTS of
         Some canonical_host \<Rightarrow>
           Some (case Option.bind (uv_path_segments U parsed) (\<lambda>segments. case segments of [] \<Rightarrow> None | s # _ \<Rightarrow> Some s) of
                   Some owner \<Rightarrow> if owner \<noteq> [] then canonical_host @ ''/'' @ owner else canonical_host
                 | None \<Rightarrow> canonical_host)
       | None \<Rightarrow> Some (registrable_domain host)))"

section \<open>Weights\<close>

fun evidence_type_weight :: "(f32 \<Rightarrow> f32) \<Rightarrow> evidence_type \<Rightarrow> f32" where
  "evidence_type_weight rnd Specification = 1"
| "evidence_type_weight rnd SourceCode = rnd (85 / 100)"
| "evidence_type_weight rnd ApiResponse = rnd (85 / 100)"
| "evidence_type_weight rnd Repository = rnd (8 / 10)"
| "evidence_type_weight rnd Dataset = rnd (7 / 10)"
| "evidence_type_weight rnd Documentation = rnd (65 / 100)"
| "evidence_type_weight rnd Manual = rnd (45 / 100)"
| "evidence_type_weight rnd UserObservation = rnd (45 / 100)"
| "evidence_type_weight rnd File = rnd (45 / 100)"
| "evidence_type_weight rnd AgentObservation = rnd (35 / 100)"
| "evidence_type_weight rnd WebPage = rnd (3 / 10)"
| "evidence_type_weight rnd ServiceReceipt = rnd (85 / 100)"
| "evidence_type_weight rnd Other = rnd (15 / 100)"

definition verify_result_weight :: "(f32 \<Rightarrow> f32) \<Rightarrow> string \<Rightarrow> f32" where
  "verify_result_weight rnd result =
     (case verify_result_parse result of
        Some Confirmed \<Rightarrow> 1
      | Some Changed \<Rightarrow> rnd (3 / 10)
      | Some UnknownResult \<Rightarrow> 0
      | Some Unreachable \<Rightarrow> 0
      | Some NotConfirmed \<Rightarrow> - (1 / 2)
      | Some Contradicted \<Rightarrow> - 1
      | None \<Rightarrow> 0)"

definition identity_assurance_score :: "(f32 \<Rightarrow> f32) \<Rightarrow> actor \<Rightarrow> f32" where
  "identity_assurance_score rnd a =
     (case (actor_public_key a \<noteq> None, actor_identity_uri a \<noteq> None) of
        (True, True) \<Rightarrow> 1
      | (True, False) \<Rightarrow> rnd (7 / 10)
      | (False, True) \<Rightarrow> rnd (3 / 10)
      | (False, False) \<Rightarrow> 0)"

definition FRESHNESS_HALF_LIFE_SECONDS :: rat where "FRESHNESS_HALF_LIFE_SECONDS = 180 * 86400"

definition freshness_from_age :: "(rat \<Rightarrow> rat) \<Rightarrow> (rat \<Rightarrow> f32) \<Rightarrow> i64 \<Rightarrow> i64 \<Rightarrow> f32" where
  "freshness_from_age rnd64 pow2 now timestamp =
     (let age_seconds = rnd64 (of_int (sint (i64_max (now - timestamp) 0)))
      in pow2 (rnd64 (- age_seconds / FRESHNESS_HALF_LIFE_SECONDS)))"

section \<open>One edge\<close>

record edge_corroboration =
  ec_edge_id :: edge_id
  total_assertions :: nat
  active_assertions :: nat
  disputed_assertions :: nat
  distinct_actors :: nat
  source_groups :: "string list"
  agreement :: f32
  evidence_strength :: f32
  source_independence :: f32
  freshness :: f32
  identity_assurance :: f32

text \<open>\<^verbatim>\<open>entry(k).or_insert(v)\<close>, and raising the value to \<open>w\<close>.\<close>

definition or_insert :: "'k \<Rightarrow> 'v \<Rightarrow> ('k \<times> 'v) list \<Rightarrow> ('k \<times> 'v) list" where
  "or_insert k v m = (if has_key fst m k then m else m @ [(k, v)])"

definition raise_weight :: "string \<Rightarrow> f32 \<Rightarrow> (string \<times> f32) list \<Rightarrow> (string \<times> f32) list" where
  "raise_weight k w m = update_where (\<lambda>e. fst e = k \<and> w > snd e) (\<lambda>e. (fst e, w)) (or_insert k 0 m)"

definition actor_group :: "('sk, 'vk, 'z) crypto_scheme \<Rightarrow> assertion \<Rightarrow> string" where
  "actor_group C a = ''actor:'' @ hash32_to_hex C (actor_hash (assertion_actor_id a))"

definition group_of :: "('sk, 'vk, 'z) crypto_scheme \<Rightarrow> 'u url_view \<Rightarrow> assertion \<Rightarrow> evidence \<Rightarrow> string" where
  "group_of C U a item =
     (case Option.bind (evidence_uri item) (control_group_for_uri U) of Some grp \<Rightarrow> grp | None \<Rightarrow> actor_group C a)"

definition weigh_evidence ::
  "('sk, 'vk, 'z) crypto_scheme \<Rightarrow> 'u url_view \<Rightarrow> (f32 \<Rightarrow> f32) \<Rightarrow> assertion \<Rightarrow> evidence list
     \<Rightarrow> (string \<times> f32) list \<Rightarrow> (string \<times> f32) list" where
  "weigh_evidence C U rnd a items grps =
     (if items = [] then or_insert (actor_group C a) 0 grps
      else fold (\<lambda>item. raise_weight (group_of C U a item) (evidence_type_weight rnd (evidence_type item))) items grps)"

fun tally ::
  "('sk, 'vk, 'z) crypto_scheme \<Rightarrow> 'u url_view \<Rightarrow> (f32 \<Rightarrow> f32) \<Rightarrow> graph \<Rightarrow> assertion list
     \<Rightarrow> (string \<times> f32) list \<times> f32 list \<Rightarrow> graph_error + (string \<times> f32) list \<times> f32 list" where
  "tally C U rnd g [] st = Inr st"
| "tally C U rnd g (a # active) (grps, scores) =
     res_bind (res_map_err GStorage (assertions_list_evidence g (assertion_id a))) (\<lambda>items.
       tally C U rnd g active
         (weigh_evidence C U rnd a items grps,
          scores @ map (\<lambda>ob. verify_result_weight rnd (ob_result ob)) (assertions_list_observations g (assertion_id a))))"

text \<open>\<^verbatim>\<open>sum::<f32>()\<close>, and the average.\<close>

definition f32_sum :: "(f32 \<Rightarrow> f32) \<Rightarrow> f32 list \<Rightarrow> f32" where
  "f32_sum rnd xs = fold (\<lambda>x acc. rnd (acc + x)) xs 0"

definition f32_mean :: "(f32 \<Rightarrow> f32) \<Rightarrow> f32 list \<Rightarrow> f32" where
  "f32_mean rnd xs = rnd (f32_sum rnd xs / rnd (of_nat (length xs)))"

definition actor_scores :: "(f32 \<Rightarrow> f32) \<Rightarrow> graph \<Rightarrow> actor_id list \<Rightarrow> graph_error + f32 list" where
  "actor_scores rnd g actor_ids =
     collect_results (map (\<lambda>i. res_bind (res_map_err GStorage (actors_get_by_id g i)) (\<lambda>found.
       Inr (case found of Some a \<Rightarrow> identity_assurance_score rnd a | None \<Rightarrow> 0))) actor_ids)"

definition independence :: "(f32 \<Rightarrow> f32) \<Rightarrow> nat \<Rightarrow> f32" where
  "independence rnd distinct_source_groups = clamp01 (rnd (rnd (of_nat (distinct_source_groups - 1)) / 2))"

definition agreement_of :: "(f32 \<Rightarrow> f32) \<Rightarrow> nat \<Rightarrow> nat \<Rightarrow> f32 list \<Rightarrow> f32" where
  "agreement_of rnd active disputed observation_scores =
     (let base_agreement = (if active = 0 then 0 else rnd (rnd (of_nat active) / rnd (of_nat (active + disputed)))) in
      if observation_scores = [] then base_agreement
      else let mean_obs = f32_mean rnd observation_scores;
               obs_agreement = clamp01 (rnd (rnd (mean_obs + 1) / 2))
           in rnd (rnd (base_agreement + obs_agreement) / 2))"

definition get_edge_corroboration ::
  "('sk, 'vk, 'z) crypto_scheme \<Rightarrow> 'u url_view \<Rightarrow> (f32 \<Rightarrow> f32) \<Rightarrow> (rat \<Rightarrow> rat) \<Rightarrow> (rat \<Rightarrow> f32)
     \<Rightarrow> ((string \<times> f32) list \<Rightarrow> (string \<times> f32) list) \<Rightarrow> int \<Rightarrow> edge_id \<Rightarrow> graph \<Rightarrow> graph_error + edge_corroboration" where
  "get_edge_corroboration C U rnd rnd64 pow2 drain now i g =
     (if edges_get_by_id g i = None then Inl (GNotFound (''edge '' @ hash32_to_hex C (edge_hash i))) else
      res_bind (res_map_err GStorage (list_by_edge g i)) (\<lambda>all.
      let active = filter (\<lambda>a. assertion_status a = Active) all;
          disputed_count = length (filter (\<lambda>a. assertion_status a = Disputed) all);
          actor_ids = map ActorId (sort (remdups (map (\<lambda>a. actor_hash (assertion_actor_id a)) active)))
      in res_bind (tally C U rnd g active ([], [])) (\<lambda>(group_weights, observation_scores).
         let grps = sort (map fst group_weights);
             fresh = (if active = [] then 0
                      else freshness_from_age rnd64 pow2 (of_int now)
                             (of_int (Max (set (map (\<lambda>a. case assertion_observed_at a of Some t \<Rightarrow> t | None \<Rightarrow> assertion_asserted_at a) active)))))
         in res_bind (actor_scores rnd g actor_ids) (\<lambda>scores.
            Inr \<lparr>ec_edge_id = i, total_assertions = length all, active_assertions = length active,
                 disputed_assertions = disputed_count, distinct_actors = length actor_ids, source_groups = grps,
                 agreement = agreement_of rnd (length active) disputed_count observation_scores,
                 evidence_strength = (if group_weights = [] then 0 else f32_mean rnd (map snd (drain group_weights))),
                 source_independence = independence rnd (length grps), freshness = fresh,
                 identity_assurance = (if actor_ids = [] then 0 else f32_mean rnd scores)\<rparr>))))"

section \<open>The roadmap\<close>

definition ROADMAP_PROPOSAL_HUB :: string where "ROADMAP_PROPOSAL_HUB = ''concept:oag-roadmap-proposal''"
definition ROADMAP_PROPOSAL_PREDICATE :: string where "ROADMAP_PROPOSAL_PREDICATE = ''instance_of''"

record roadmap_proposal =
  rp_node :: node
  rp_corroboration :: edge_corroboration

fun proposals_of :: "(edge_id \<Rightarrow> graph_error + edge_corroboration) \<Rightarrow> graph \<Rightarrow> edge list \<Rightarrow> graph_error + roadmap_proposal list" where
  "proposals_of corroborate g [] = Inr []"
| "proposals_of corroborate g (e # es) =
     (case select_node g (edge_subject e) of
        None \<Rightarrow> proposals_of corroborate g es
      | Some node \<Rightarrow>
          res_bind (corroborate (edge_id e)) (\<lambda>corroboration.
          res_bind (proposals_of corroborate g es) (\<lambda>rest.
            Inr (\<lparr>rp_node = node, rp_corroboration = corroboration\<rparr> # rest))))"

text \<open>Descending in three keys, and stable.\<close>

definition rank_key :: "roadmap_proposal \<Rightarrow> int \<times> f32 \<times> f32" where
  "rank_key p = (let c = rp_corroboration p in (- int (active_assertions c), - source_independence c, - evidence_strength c))"

definition list_roadmap_proposals ::
  "('sk, 'vk, 'z) crypto_scheme \<Rightarrow> 'u url_view \<Rightarrow> (f32 \<Rightarrow> f32) \<Rightarrow> (rat \<Rightarrow> rat) \<Rightarrow> (rat \<Rightarrow> f32)
     \<Rightarrow> ((string \<times> f32) list \<Rightarrow> (string \<times> f32) list) \<Rightarrow> int \<Rightarrow> graph \<Rightarrow> graph_error + roadmap_proposal list" where
  "list_roadmap_proposals C U rnd rnd64 pow2 drain now g =
     (case get_by_canonical_identifier g ROADMAP_PROPOSAL_HUB of
        None \<Rightarrow> Inr []
      | Some hub \<Rightarrow>
          res_bind (proposals_of (\<lambda>i. get_edge_corroboration C U rnd rnd64 pow2 drain now i g) g
                      (list_by_predicate_and_object g ROADMAP_PROPOSAL_PREDICATE (node_id hub)))
            (\<lambda>proposals. Inr (sort_key rank_key proposals)))"

section \<open>Arithmetic\<close>

text \<open>Rounding to binary32 is monotone and exact on small multiples of small powers of one half.\<close>

definition f32_arith :: "(f32 \<Rightarrow> f32) \<Rightarrow> bool" where
  "f32_arith rnd \<longleftrightarrow> mono rnd \<and> (\<forall>m k. \<bar>m\<bar> \<le> 2 ^ 24 \<and> k \<le> 24 \<longrightarrow> rnd (of_int m / 2 ^ k) = of_int m / 2 ^ k)"

definition decay_ok :: "(rat \<Rightarrow> rat) \<Rightarrow> (rat \<Rightarrow> f32) \<Rightarrow> bool" where
  "decay_ok rnd64 pow2 \<longleftrightarrow> mono rnd64 \<and> rnd64 0 = 0 \<and> mono pow2 \<and> pow2 0 = 1 \<and> (\<forall>x. 0 \<le> pow2 x)"

definition unit_interval :: "f32 \<Rightarrow> bool" where
  "unit_interval x \<longleftrightarrow> 0 \<le> x \<and> x \<le> 1"

lemma f32_arithD:
  assumes "f32_arith rnd"
  shows "x \<le> y \<Longrightarrow> rnd x \<le> rnd y" "n \<le> 2 ^ 24 \<Longrightarrow> rnd (of_nat n) = of_nat n" "rnd 0 = 0" "rnd 1 = 1" "rnd 2 = 2" "rnd (1 / 2) = 1 / 2"
proof -
  have exact: "rnd (of_int m / 2 ^ k) = of_int m / 2 ^ k" if "\<bar>m\<bar> \<le> 2 ^ 24" "k \<le> 24" for m k
    using assms that by (simp add: f32_arith_def)
  show "x \<le> y \<Longrightarrow> rnd x \<le> rnd y" using assms by (simp add: f32_arith_def monoD)
  show "n \<le> 2 ^ 24 \<Longrightarrow> rnd (of_nat n) = of_nat n" using exact [of "int n" 0] by simp
  show "rnd 0 = 0" "rnd 1 = 1" "rnd 2 = 2" "rnd (1 / 2) = 1 / 2"
    using exact [of 0 0] exact [of 1 0] exact [of 2 0] exact [of 1 1] by simp_all
qed

lemma rnd_unit: "f32_arith rnd \<Longrightarrow> 0 \<le> x \<Longrightarrow> x \<le> 1 \<Longrightarrow> unit_interval (rnd x)"
  using f32_arithD(1) [of rnd 0 x] f32_arithD(1) [of rnd x 1] f32_arithD(3,4) [of rnd] by (simp add: unit_interval_def)

lemma f32_sum_bounds:
  assumes "f32_arith rnd" "list_all unit_interval xs" "0 \<le> acc" "acc \<le> of_nat n" "n + length xs \<le> 2 ^ 24"
  shows "0 \<le> fold (\<lambda>x acc. rnd (acc + x)) xs acc \<and> fold (\<lambda>x acc. rnd (acc + x)) xs acc \<le> of_nat (n + length xs)"
  using assms(2-)
proof (induction xs arbitrary: acc n)
  case (Cons x xs)
  have x: "0 \<le> x" "x \<le> 1" using Cons.prems(1) by (simp_all add: unit_interval_def)
  have "rnd 0 \<le> rnd (acc + x)" "rnd (acc + x) \<le> rnd (of_nat (Suc n))"
    using x Cons.prems(2,3) by (auto intro!: f32_arithD(1) [OF assms(1)])
  then have step: "0 \<le> rnd (acc + x)" "rnd (acc + x) \<le> of_nat (Suc n)"
    using f32_arithD(2) [OF assms(1), of "Suc n"] f32_arithD(3) [OF assms(1)] Cons.prems(4) by simp_all
  show ?case using Cons.IH [OF _ step] Cons.prems(1,4) by simp
qed simp

lemma f32_mean_unit:
  assumes "f32_arith rnd" "list_all unit_interval xs" "xs \<noteq> []" "length xs \<le> 2 ^ 24"
  shows "unit_interval (f32_mean rnd xs)"
proof -
  have "0 \<le> f32_sum rnd xs" "f32_sum rnd xs \<le> of_nat (length xs)"
    using f32_sum_bounds [OF assms(1,2), of 0 0] assms(4) by (simp_all add: f32_sum_def)
  then have "0 \<le> f32_sum rnd xs / of_nat (length xs)" "f32_sum rnd xs / of_nat (length xs) \<le> 1"
    using assms(3) by (simp_all add: divide_le_eq)
  then show ?thesis using rnd_unit [OF assms(1)] f32_arithD(2) [OF assms(1,4)] by (simp add: f32_mean_def)
qed

lemma clamp01_unit: "unit_interval (clamp01 x)"
  by (simp add: clamp01_def unit_interval_def)

lemma independence_values:
  assumes "f32_arith rnd"
  shows "independence rnd n = (if n \<le> 1 then 0 else if n = 2 then 1 / 2 else 1)"
proof -
  consider "n \<le> 1" | "n = 2" | "3 \<le> n" by linarith
  then show ?thesis
  proof cases
    case 3
    have "rnd 2 \<le> rnd (of_nat (n - 1))" by (rule f32_arithD(1) [OF assms]) (use 3 in \<open>simp add: of_nat_diff\<close>)
    then have "1 \<le> rnd (of_nat (n - 1)) / 2" using f32_arithD(5) [OF assms] by simp
    then have "rnd 1 \<le> rnd (rnd (of_nat (n - 1)) / 2)" by (rule f32_arithD(1) [OF assms])
    with 3 f32_arithD(4) [OF assms] show ?thesis by (simp add: independence_def clamp01_def)
  qed (use f32_arithD [OF assms] in \<open>auto simp: independence_def clamp01_def\<close>)
qed

lemma agreement_unit:
  assumes "f32_arith rnd" "active + disputed \<le> 2 ^ 24"
  shows "unit_interval (agreement_of rnd active disputed scores)"
proof -
  define base where "base = (if active = 0 then 0 else rnd (rnd (of_nat active) / rnd (of_nat (active + disputed))))"
  have base: "unit_interval base"
  proof (cases "active = 0")
    case False
    have "rnd (of_nat active) = of_nat active" "rnd (of_nat (active + disputed)) = of_nat (active + disputed)"
      using assms(2) by (intro f32_arithD(2) [OF assms(1)]; simp)+
    then show ?thesis using False by (auto simp: base_def divide_le_eq intro!: rnd_unit [OF assms(1)])
  qed (simp add: base_def unit_interval_def)
  have "unit_interval (rnd (rnd (base + x) / 2))" if "unit_interval x" for x
  proof (rule rnd_unit [OF assms(1)])
    have "rnd 0 \<le> rnd (base + x)" "rnd (base + x) \<le> rnd 2"
      using base that by (auto intro!: f32_arithD(1) [OF assms(1)] simp: unit_interval_def)
    then show "0 \<le> rnd (base + x) / 2" "rnd (base + x) / 2 \<le> 1" using f32_arithD(3,5) [OF assms(1)] by simp_all
  qed
  with base clamp01_unit show ?thesis by (simp add: agreement_of_def Let_def flip: base_def)
qed

lemma freshness_unit: "decay_ok rnd64 pow2 \<Longrightarrow> unit_interval (freshness_from_age rnd64 pow2 now t)"
proof -
  assume ok: "decay_ok rnd64 pow2"
  have "0 \<le> sint (i64_max (now - t) 0)" by (simp add: i64_max_def)
  then have "0 \<le> rnd64 (of_int (sint (i64_max (now - t) 0)))" using ok by (metis decay_ok_def monoD of_int_0_le_iff)
  then have "- rnd64 (of_int (sint (i64_max (now - t) 0))) / FRESHNESS_HALF_LIFE_SECONDS \<le> 0"
    by (simp add: FRESHNESS_HALF_LIFE_SECONDS_def)
  then have "rnd64 (- rnd64 (of_int (sint (i64_max (now - t) 0))) / FRESHNESS_HALF_LIFE_SECONDS) \<le> 0"
    using ok by (metis decay_ok_def monoD)
  then show ?thesis using ok by (metis decay_ok_def monoD freshness_from_age_def unit_interval_def)
qed

lemma weights_unit:
  assumes "f32_arith rnd"
  shows "unit_interval (evidence_type_weight rnd t)" "unit_interval (identity_assurance_score rnd a)"
proof -
  show "unit_interval (evidence_type_weight rnd t)" using rnd_unit [OF assms] by (cases t) (simp_all add: unit_interval_def)
  have "unit_interval (rnd (7 / 10))" "unit_interval (rnd (3 / 10))" using rnd_unit [OF assms] by simp_all
  then show "unit_interval (identity_assurance_score rnd a)"
    by (auto simp: identity_assurance_score_def unit_interval_def split: bool.splits)
qed

section \<open>Counting groups\<close>

text \<open>The groups an assertion draws on.\<close>

definition groups_of :: "('sk, 'vk, 'z) crypto_scheme \<Rightarrow> 'u url_view \<Rightarrow> graph \<Rightarrow> assertion \<Rightarrow> string set" where
  "groups_of C U g a =
     (let items = {e. \<exists>row\<in>set (evidences g). ev_assertion_id row = assertion_id a \<and> row_to_evidence row = Inr e}
      in if items = {} then {actor_group C a} else group_of C U a ` items)"

lemma or_insert_keys:
  "fst ` set (or_insert k v m) = insert k (fst ` set m)" "distinct (map fst m) \<Longrightarrow> distinct (map fst (or_insert k v m))"
  "(\<forall>x\<in>snd ` set m. P x) \<Longrightarrow> P v \<Longrightarrow> \<forall>x\<in>snd ` set (or_insert k v m). P x"
  by (auto simp: or_insert_def has_key_def)

lemma raise_weight_keys:
  "fst ` set (raise_weight k w m) = insert k (fst ` set m)" "distinct (map fst m) \<Longrightarrow> distinct (map fst (raise_weight k w m))"
  "(\<forall>x\<in>snd ` set m. P x) \<Longrightarrow> P 0 \<Longrightarrow> P w \<Longrightarrow> \<forall>x\<in>snd ` set (raise_weight k w m). P x"
proof -
  have keys: "map fst (raise_weight k w m) = map fst (or_insert k 0 m)"
    by (simp add: raise_weight_def update_where_def)
  then show "fst ` set (raise_weight k w m) = insert k (fst ` set m)" by (metis list.set_map or_insert_keys(1))
  show "distinct (map fst m) \<Longrightarrow> distinct (map fst (raise_weight k w m))" using keys or_insert_keys(2) by metis
  assume "\<forall>x\<in>snd ` set m. P x" "P 0" "P w"
  then have "\<forall>x\<in>snd ` set (or_insert k 0 m). P x" by (intro or_insert_keys(3))
  with \<open>P w\<close> show "\<forall>x\<in>snd ` set (raise_weight k w m). P x" by (simp add: raise_weight_def update_where_def) auto
qed

lemma weigh_evidence_keys:
  assumes "distinct (map fst m)" "\<forall>x\<in>snd ` set m. unit_interval x" "f32_arith rnd"
  shows "fst ` set (weigh_evidence C U rnd a items m) = fst ` set m \<union> (if items = [] then {actor_group C a} else group_of C U a ` set items) \<and>
    distinct (map fst (weigh_evidence C U rnd a items m)) \<and> (\<forall>x\<in>snd ` set (weigh_evidence C U rnd a items m). unit_interval x)"
proof -
  let ?f = "\<lambda>item. raise_weight (group_of C U a item) (evidence_type_weight rnd (evidence_type item))"
  have zero: "unit_interval 0" by (simp add: unit_interval_def)
  have "fst ` set (fold ?f items m) = fst ` set m \<union> group_of C U a ` set items \<and> distinct (map fst (fold ?f items m)) \<and>
      (\<forall>x\<in>snd ` set (fold ?f items m). unit_interval x)"
    using assms(1,2)
  proof (induction items arbitrary: m)
    case (Cons item items)
    note r = raise_weight_keys [where k = "group_of C U a item" and w = "evidence_type_weight rnd (evidence_type item)" and m = m]
    have "distinct (map fst (?f item m))" "\<forall>x\<in>snd ` set (?f item m). unit_interval x"
      using r(2,3) Cons.prems zero weights_unit(1) [OF assms(3)] by blast+
    from Cons.IH [OF this] r(1) show ?case by auto
  qed simp
  moreover have "\<forall>x\<in>snd ` set (or_insert (actor_group C a) 0 m). unit_interval x"
    using or_insert_keys(3) [of m unit_interval] assms(2) zero by blast
  ultimately show ?thesis using or_insert_keys(2) [OF assms(1)] by (auto simp: weigh_evidence_def or_insert_keys(1))
qed

lemma row_to_evidence_ok:
  "graph_ok C g \<Longrightarrow> row \<in> set (evidences g) \<Longrightarrow> \<exists>e. row_to_evidence row = Inr e"
  by (auto simp: graph_ok_def evidence_ok_def list_all_iff row_to_evidence_def)

lemma list_evidence_ok:
  assumes "graph_ok C g"
  shows "\<exists>items. assertions_list_evidence g i = Inr items \<and>
    set items = {e. \<exists>row\<in>set (evidences g). ev_assertion_id row = i \<and> row_to_evidence row = Inr e}"
proof -
  let ?rows = "filter (\<lambda>r. ev_assertion_id r = i) (evidences g)"
  obtain f where f: "\<And>row. row \<in> set (evidences g) \<Longrightarrow> row_to_evidence row = Inr (f row)"
    using row_to_evidence_ok [OF assms] by metis
  then have "assertions_list_evidence g i = Inr (map f ?rows)"
    unfolding assertions_list_evidence_def by (intro collect_results_parse) simp
  moreover have "set (map f ?rows) = {e. \<exists>row\<in>set (evidences g). ev_assertion_id row = i \<and> row_to_evidence row = Inr e}"
    using f by force
  ultimately show ?thesis by blast
qed

lemma tally_groups:
  assumes "graph_ok C g" "f32_arith rnd" "distinct (map fst m)" "\<forall>x\<in>snd ` set m. unit_interval x"
  shows "\<exists>m' s'. tally C U rnd g active (m, s) = Inr (m', s') \<and> fst ` set m' = fst ` set m \<union> (\<Union>a\<in>set active. groups_of C U g a) \<and>
    distinct (map fst m') \<and> (\<forall>x\<in>snd ` set m'. unit_interval x)"
  using assms(3,4)
proof (induction active arbitrary: m s)
  case (Cons a active)
  obtain items where items: "assertions_list_evidence g (assertion_id a) = Inr items"
    "set items = {e. \<exists>row\<in>set (evidences g). ev_assertion_id row = assertion_id a \<and> row_to_evidence row = Inr e}"
    using list_evidence_ok [OF assms(1)] by blast
  let ?m = "weigh_evidence C U rnd a items m"
  have m: "fst ` set ?m = fst ` set m \<union> groups_of C U g a" "distinct (map fst ?m)" "\<forall>x\<in>snd ` set ?m. unit_interval x"
    using weigh_evidence_keys [OF Cons.prems assms(2), of C U a items] by (simp_all add: groups_of_def Let_def flip: items(2))
  obtain m' s' where "tally C U rnd g active (?m, s @ map (\<lambda>ob. verify_result_weight rnd (ob_result ob))
        (assertions_list_observations g (assertion_id a))) = Inr (m', s')"
      "fst ` set m' = fst ` set ?m \<union> (\<Union>a\<in>set active. groups_of C U g a)" "distinct (map fst m')" "\<forall>x\<in>snd ` set m'. unit_interval x"
    using Cons.IH [OF m(2,3)] by blast
  then show ?case using m(1) items(1) by (intro exI [of _ m'] exI [of _ s']) auto
qed simp

lemma row_to_actor_ok:
  assumes "graph_ok C g"
  shows "\<exists>found. actors_get_by_id g i = Inr found"
proof (cases "lookup_by ac_id (actors g) i")
  case (Some row)
  then have "row \<in> set (actors g)" by (auto dest: lookup_by_SomeD)
  then have "actor_type_parse (ac_actor_type row) \<noteq> None" using assms by (auto simp: graph_ok_def actors_ok_def list_all_iff)
  with Some show ?thesis by (auto simp: actors_get_by_id_def row_to_actor_def)
qed (simp add: actors_get_by_id_def)

lemma actor_scores_ok:
  assumes "graph_ok C g" "f32_arith rnd"
  shows "\<exists>scores. actor_scores rnd g ids = Inr scores \<and> length scores = length ids \<and> list_all unit_interval scores"
proof -
  obtain f where f: "\<And>i. actors_get_by_id g i = Inr (f i)" using row_to_actor_ok [OF assms(1)] by metis
  let ?s = "\<lambda>i. case f i of Some a \<Rightarrow> identity_assurance_score rnd a | None \<Rightarrow> 0"
  have "actor_scores rnd g ids = Inr (map ?s ids)"
    unfolding actor_scores_def by (intro collect_results_parse) (simp add: f)
  moreover have "unit_interval (?s i)" for i
    using weights_unit(2) [OF assms(2)] by (cases "f i") (simp_all add: unit_interval_def)
  ultimately show ?thesis by (auto simp: list_all_iff)
qed

lemma groups_of_cover:
  "(\<Union>a\<in>A. groups_of C U g a) \<subseteq>
     actor_group C ` A \<union> (\<lambda>row. the (Option.bind (ev_uri row) (control_group_for_uri U))) ` set (evidences g)"
proof
  fix k assume "k \<in> (\<Union>a\<in>A. groups_of C U g a)"
  then obtain a where a: "a \<in> A" "k \<in> groups_of C U g a" by blast
  then consider "k = actor_group C a"
    | row e where "row \<in> set (evidences g)" "row_to_evidence row = Inr e" "k = group_of C U a e"
    by (auto simp: groups_of_def Let_def split: if_splits)
  then show "k \<in> actor_group C ` A \<union> (\<lambda>row. the (Option.bind (ev_uri row) (control_group_for_uri U))) ` set (evidences g)"
  proof cases
    case 2
    then have "evidence_uri e = ev_uri row" by (auto simp: row_to_evidence_def)
    with 2 a(1) show ?thesis
      by (cases "Option.bind (ev_uri row) (control_group_for_uri U)") (auto simp: group_of_def image_iff intro!: bexI [of _ row])
  qed (use a in auto)
qed

lemma groups_of_few:
  assumes "fst ` set m = (\<Union>a\<in>set active. groups_of C U g a)" "distinct (map fst m)"
  shows "length m \<le> length active + length (evidences g)"
proof -
  have "length m = card (fst ` set m)" using assms(2) by (metis distinct_card length_map list.set_map)
  also have "\<dots> \<le> card (actor_group C ` set active \<union> (\<lambda>row. the (Option.bind (ev_uri row) (control_group_for_uri U))) ` set (evidences g))"
    unfolding assms(1) by (intro card_mono groups_of_cover) simp
  also have "\<dots> \<le> card (set active) + card (set (evidences g))"
    by (intro order.trans [OF card_Un_le] add_mono card_image_le) simp_all
  also have "\<dots> \<le> length active + length (evidences g)" by (intro add_mono card_length)
  finally show ?thesis .
qed

text \<open>The assertions on an edge with a given status.\<close>

definition standing :: "graph \<Rightarrow> edge_id \<Rightarrow> assertion_status \<Rightarrow> assertion set" where
  "standing g i st = {a. \<exists>row\<in>set (assertions g). as_edge_id row = i \<and> row_to_assertion row = Inr a \<and> assertion_status a = st}"

lemma list_by_edge_size: "list_by_edge g i = Inr all \<Longrightarrow> length all \<le> length (assertions g)"
  unfolding list_by_edge_def using length_collect le_trans [OF _ length_filter_le] by fastforce

text \<open>The rows of an edge that have a given status.\<close>

definition status_rows :: "graph \<Rightarrow> edge_id \<Rightarrow> assertion_status \<Rightarrow> assertion_row list" where
  "status_rows g i st = filter (\<lambda>row. as_edge_id row = i \<and> assertion_status_parse (as_status row) = Some st) (assertions g)"

lemma list_by_edge_counts:
  assumes "list_by_edge g i = Inr all"
  shows "length all = length (filter (\<lambda>row. as_edge_id row = i) (assertions g))"
    and "length (filter (\<lambda>a. assertion_status a = st) all) = length (status_rows g i st)"
proof -
  have rows: "list_all2 (\<lambda>row a. row_to_assertion row = Inr a) (filter (\<lambda>row. as_edge_id row = i) (assertions g)) all"
    using assms by (simp add: list_by_edge_def collect_results_Inr_iff)
  then show "length all = length (filter (\<lambda>row. as_edge_id row = i) (assertions g))" by (simp add: list_all2_lengthD)
  have "length (filter (\<lambda>a. assertion_status a = st) all)
      = length (filter (\<lambda>row. assertion_status_parse (as_status row) = Some st) (filter (\<lambda>row. as_edge_id row = i) (assertions g)))"
    using rows
  proof (induction rule: list_all2_induct)
    case (Cons row rows a all)
    then have "assertion_status_parse (as_status row) = Some (assertion_status a)" by (auto simp: row_to_assertion_def)
    with Cons show ?case by simp
  qed simp
  then show "length (filter (\<lambda>a. assertion_status a = st) all) = length (status_rows g i st)"
    by (simp add: status_rows_def conj_commute)
qed

lemma corroboration_of_known_edge:
  assumes "graph_ok C g" and "f32_arith rnd" and "decay_ok rnd64 pow2" and "permutes_entries drain"
    and "length (assertions g) + length (evidences g) \<le> 2 ^ 24" and "has_key edge_id (edges g) i"
  shows "\<exists>c. get_edge_corroboration C U rnd rnd64 pow2 drain now i g = Inr c \<and>
    set (source_groups c) = (\<Union>a\<in>standing g i Active. groups_of C U g a) \<and> sorted (source_groups c) \<and> distinct (source_groups c) \<and>
    source_independence c = independence rnd (card (\<Union>a\<in>standing g i Active. groups_of C U g a)) \<and>
    ec_edge_id c = i \<and> total_assertions c = length (filter (\<lambda>row. as_edge_id row = i) (assertions g)) \<and>
    active_assertions c = length (status_rows g i Active) \<and> disputed_assertions c = length (status_rows g i Disputed) \<and>
    distinct_actors c = card (assertion_actor_id ` standing g i Active) \<and>
    unit_interval (agreement c) \<and> unit_interval (evidence_strength c) \<and> unit_interval (freshness c) \<and>
    unit_interval (identity_assurance c)"
proof -
  have some: "(edges_get_by_id g i = None) = False" using assms(6) by (simp add: edges_get_by_id_def lookup_by_None_iff)
  obtain all where all: "list_by_edge g i = Inr all"
      "set all = {a. \<exists>row\<in>set (assertions g). as_edge_id row = i \<and> row_to_assertion row = Inr a}"
    using list_by_edge_ok [OF assms(1)] by blast
  define active where "active = filter (\<lambda>a. assertion_status a = Active) all"
  define disputed where "disputed = length (filter (\<lambda>a. assertion_status a = Disputed) all)"
  define ids where "ids = map ActorId (sort (remdups (map (\<lambda>a. actor_hash (assertion_actor_id a)) active)))"
  have standing: "set active = standing g i Active" by (auto simp: active_def all(2) standing_def)
  have few: "length active + disputed \<le> length all"
    unfolding active_def disputed_def by (induction all) auto
  then have size: "length active + disputed \<le> 2 ^ 24" "length active + length (evidences g) \<le> 2 ^ 24"
    using list_by_edge_size [OF all(1)] assms(5) by linarith+
  have "length ids \<le> length active" unfolding ids_def by (simp add: length_remdups_leq [THEN le_trans])
  then have ids: "length ids \<le> 2 ^ 24" using size(1) by linarith
  obtain m s where m: "tally C U rnd g active ([], []) = Inr (m, s)" "fst ` set m = (\<Union>a\<in>set active. groups_of C U g a)"
      "distinct (map fst m)" "\<forall>x\<in>snd ` set m. unit_interval x"
    using tally_groups [OF assms(1,2), of "[]" U active "[]"] by auto
  have "length m \<le> 2 ^ 24" using groups_of_few [OF m(2,3)] size(2) by linarith
  moreover have "list_all unit_interval (map snd (drain m))" "length (drain m) = length m"
    using m(4) permutes_entriesD [OF assms(4)] by (auto simp: list_all_iff)
  ultimately have strength: "m \<noteq> [] \<Longrightarrow> unit_interval (f32_mean rnd (map snd (drain m)))"
    by (intro f32_mean_unit [OF assms(2)]) auto
  obtain scores where sc: "actor_scores rnd g ids = Inr scores" "length scores = length ids" "list_all unit_interval scores"
    using actor_scores_ok [OF assms(1,2)] by blast
  then have assurance: "ids \<noteq> [] \<Longrightarrow> unit_interval (f32_mean rnd scores)"
    using ids by (intro f32_mean_unit [OF assms(2)]) auto
  have "length m = card (fst ` set m)" using m(3) by (metis distinct_card length_map list.set_map)
  then have groups: "set (sort (map fst m)) = (\<Union>a\<in>standing g i Active. groups_of C U g a)" "sorted (sort (map fst m))"
      "distinct (sort (map fst m))" "length (sort (map fst m)) = card (\<Union>a\<in>standing g i Active. groups_of C U g a)"
    using m(2,3) standing by simp_all
  let ?fresh = "if active = [] then 0 else freshness_from_age rnd64 pow2 (of_int now)
      (of_int (Max (set (map (\<lambda>a. case assertion_observed_at a of Some t \<Rightarrow> t | None \<Rightarrow> assertion_asserted_at a) active))))"
  let ?c = "\<lparr>ec_edge_id = i, total_assertions = length all, active_assertions = length active, disputed_assertions = disputed,
      distinct_actors = length ids, source_groups = sort (map fst m), agreement = agreement_of rnd (length active) disputed s,
      evidence_strength = (if m = [] then 0 else f32_mean rnd (map snd (drain m))),
      source_independence = independence rnd (length (sort (map fst m))), freshness = ?fresh,
      identity_assurance = (if ids = [] then 0 else f32_mean rnd scores)\<rparr>"
  have "get_edge_corroboration C U rnd rnd64 pow2 drain now i g = Inr ?c"
    by (simp only: get_edge_corroboration_def some all(1) m(1) sc(1) Let_def if_False res_map_err_simps res_bind_simps prod.case
        flip: active_def disputed_def ids_def)
  moreover have "unit_interval 0" by (simp add: unit_interval_def)
  then have "unit_interval (evidence_strength ?c)" "unit_interval (freshness ?c)" "unit_interval (identity_assurance ?c)"
    using strength assurance freshness_unit [OF assms(3)] by simp_all
  moreover have "length ids = card (assertion_actor_id ` standing g i Active)"
  proof -
    have "inj_on actor_hash A" for A by (auto intro!: inj_onI simp: actor_id.expand)
    then have "card (actor_hash ` assertion_actor_id ` set active) = card (assertion_actor_id ` set active)" by (rule card_image)
    then show ?thesis by (simp add: ids_def length_remdups_card_conv standing image_image)
  qed
  then have "ec_edge_id ?c = i" "total_assertions ?c = length (filter (\<lambda>row. as_edge_id row = i) (assertions g))"
    "active_assertions ?c = length (status_rows g i Active)" "disputed_assertions ?c = length (status_rows g i Disputed)"
    "distinct_actors ?c = card (assertion_actor_id ` standing g i Active)"
    using list_by_edge_counts [OF all(1)] by (simp_all add: active_def disputed_def)
  moreover have "unit_interval (agreement ?c)" using agreement_unit [OF assms(2) size(1), of s] by simp
  moreover have "set (source_groups ?c) = (\<Union>a\<in>standing g i Active. groups_of C U g a)" "sorted (source_groups ?c)"
    "distinct (source_groups ?c)" "source_independence ?c = independence rnd (card (\<Union>a\<in>standing g i Active. groups_of C U g a))"
    using groups by simp_all
  ultimately show ?thesis by blast
qed

text \<open>
  C28. The corroboration of an edge counts what was asserted and who controls the sources.  In a well-formed graph with at
  most \<open>2 ^ 24\<close> assertions and evidence items together (where counts are exact in f32) only an unknown edge is an error.  The
  totals are the edge's rows, the rows with status active and those with status disputed, and the distinct actors of the
  active ones; the source groups are exactly those the active assertions draw on, each listed once, and the independence is 0
  for at most one group, one half for two, and 1 from three on.  Every other signal lies between 0 and 1.
\<close>

theorem corroboration_counts_control_groups:
  assumes "graph_ok C g" and "f32_arith rnd" and "decay_ok rnd64 pow2" and "permutes_entries drain"
    and "length (assertions g) + length (evidences g) \<le> 2 ^ 24"
  shows "case get_edge_corroboration C U rnd rnd64 pow2 drain now i g of
      Inl e \<Rightarrow> \<not> has_key edge_id (edges g) i \<and> e = GNotFound (''edge '' @ hash32_to_hex C (edge_hash i))
    | Inr c \<Rightarrow> has_key edge_id (edges g) i \<and> ec_edge_id c = i \<and>
        total_assertions c = length (filter (\<lambda>row. as_edge_id row = i) (assertions g)) \<and>
        active_assertions c = length (status_rows g i Active) \<and> disputed_assertions c = length (status_rows g i Disputed) \<and>
        distinct_actors c = card (assertion_actor_id ` standing g i Active) \<and>
        set (source_groups c) = (\<Union>a\<in>standing g i Active. groups_of C U g a) \<and>
        sorted (source_groups c) \<and> distinct (source_groups c) \<and>
        source_independence c = (let n = card (\<Union>a\<in>standing g i Active. groups_of C U g a) in
          if n \<le> 1 then 0 else if n = 2 then 1 / 2 else 1) \<and>
        unit_interval (agreement c) \<and> unit_interval (evidence_strength c) \<and> unit_interval (freshness c) \<and>
        unit_interval (identity_assurance c)"
proof (cases "has_key edge_id (edges g) i")
  case False
  then have "edges_get_by_id g i = None" by (simp add: edges_get_by_id_def lookup_by_None_iff)
  with False show ?thesis by (simp add: get_edge_corroboration_def)
next
  case True
  then show ?thesis
    using corroboration_of_known_edge [OF assms True, of U now] independence_values [OF assms(2)] by (auto simp: Let_def)
qed

lemma id_arith: "f32_arith id" "decay_ok id (\<lambda>_. 1)"
  by (simp_all add: f32_arith_def decay_ok_def mono_def)

definition no_urls :: "string url_view" where
  "no_urls = \<lparr>uv_parse = \<lambda>_. None, uv_host_str = \<lambda>_. None, uv_path_segments = \<lambda>_. None\<rparr>"

theorem corroboration_counts_control_groups_witness:
  "case get_edge_corroboration road_crypto no_urls id id (\<lambda>_. 1) id 9 (edge_id (road_edge CHR ''b'' ''after'' CHR ''a'')) road_graph of
     Inl e \<Rightarrow> False
   | Inr c \<Rightarrow> active_assertions c = 1 \<and> disputed_assertions c = 0 \<and> source_groups c = [''actor:''] \<and> source_independence c = 0 \<and> unit_interval (agreement c)"
proof -
  have "length (assertions road_graph) + length (evidences road_graph) \<le> 2 ^ 24" by (simp add: road_graph_def empty_graph_def)
  note counts = corroboration_counts_control_groups [OF road_graph_ok id_arith permutes_id this, where U = no_urls and now = 9 and
      i = "edge_id (road_edge CHR ''b'' ''after'' CHR ''a'')"]
  then have "case get_edge_corroboration road_crypto no_urls id id (\<lambda>_. 1) id 9 (edge_id (road_edge CHR ''b'' ''after'' CHR ''a'')) road_graph of
     Inl e \<Rightarrow> True | Inr c \<Rightarrow> unit_interval (agreement c)"
    by (auto split: sum.splits)
  then show ?thesis
    by (auto simp: get_edge_corroboration_def edges_get_by_id_def list_by_edge_def row_to_assertion_def road_parse
        assertions_list_evidence_def weigh_evidence_def or_insert_def actor_group_def hash32_to_hex_def independence_def clamp01_def
        road_graph_def empty_graph_def lookup_by_def actor_scores_def actors_get_by_id_def row_to_actor_def road_crypto_def)
qed

text \<open>
  A publisher with two of the listed hosts counts as two groups, and its name in another spelling as
  well, although the first path segment is meant to identify it.
\<close>

lemma hosts_split_a_publisher:
  assumes "uv_parse U a = Some ua" "uv_host_str U ua = Some ''github.com'' " "uv_path_segments U ua = Some [''acme'', ''x'']"
    and "uv_parse U b = Some ub" "uv_host_str U ub = Some ''www.github.com''" "uv_path_segments U ub = Some [''acme'', ''x'']"
  shows "control_group_for_uri U a = Some ''github.com/acme''" "control_group_for_uri U b = Some ''www.github.com/acme''"
  using assms by (simp_all add: control_group_for_uri_def MULTI_TENANT_HOSTS_def to_lowercase_def ascii_lower_def)

section \<open>The ranking\<close>

lemma proposals_of_all:
  assumes "\<And>e. e \<in> set es \<Longrightarrow> (\<exists>n. select_node g (edge_subject e) = Some n) \<and> (\<exists>c. corroborate (edge_id e) = Inr c)"
  shows "\<exists>qs. proposals_of corroborate g es = Inr qs \<and>
    list_all2 (\<lambda>e q. select_node g (edge_subject e) = Some (rp_node q) \<and> corroborate (edge_id e) = Inr (rp_corroboration q)) es qs"
  using assms
proof (induction es)
  case (Cons e es)
  obtain n c where e: "select_node g (edge_subject e) = Some n" "corroborate (edge_id e) = Inr c" using Cons.prems by fastforce
  obtain qs where "proposals_of corroborate g es = Inr qs"
      "list_all2 (\<lambda>e q. select_node g (edge_subject e) = Some (rp_node q) \<and> corroborate (edge_id e) = Inr (rp_corroboration q)) es qs"
    using Cons.IH Cons.prems by auto
  with e show ?case by (intro exI [of _ "\<lparr>rp_node = n, rp_corroboration = c\<rparr> # qs"]) simp
qed simp

text \<open>
  The roadmap lists one proposal for each edge to the hub, with its node and its corroboration,
  ranked by active assertions, then by independence, then by strength of evidence, all descending;
  proposals that tie stay in the order of their edges.  Without a hub the list is empty.
\<close>

theorem roadmap_is_ranked:
  assumes "graph_ok C g" and "f32_arith rnd" and "decay_ok rnd64 pow2" and "permutes_entries drain"
    and "length (assertions g) + length (evidences g) \<le> 2 ^ 24"
  shows "\<exists>ps. list_roadmap_proposals C U rnd rnd64 pow2 drain now g = Inr ps \<and>
    (case get_by_canonical_identifier g ROADMAP_PROPOSAL_HUB of
       None \<Rightarrow> ps = []
     | Some hub \<Rightarrow> \<exists>qs. list_all2 (\<lambda>e q. select_node g (edge_subject e) = Some (rp_node q) \<and>
             get_edge_corroboration C U rnd rnd64 pow2 drain now (edge_id e) g = Inr (rp_corroboration q))
           (list_by_predicate_and_object g ROADMAP_PROPOSAL_PREDICATE (node_id hub)) qs \<and>
         mset ps = mset qs \<and> sorted (map rank_key ps) \<and>
         (\<forall>k. filter (\<lambda>p. rank_key p = k) ps = filter (\<lambda>p. rank_key p = k) qs))"
proof (cases "get_by_canonical_identifier g ROADMAP_PROPOSAL_HUB")
  case (Some hub)
  let ?es = "list_by_predicate_and_object g ROADMAP_PROPOSAL_PREDICATE (node_id hub)"
  have each: "(\<exists>n. select_node g (edge_subject e) = Some n) \<and> (\<exists>c. get_edge_corroboration C U rnd rnd64 pow2 drain now (edge_id e) g = Inr c)"
    if "e \<in> set ?es" for e
  proof -
    have e: "e \<in> read_edges g" using that by (auto simp: list_by_predicate_and_object_def read_edges_def)
    then have "has_key edge_id (edges g) (edge_id e)" by (auto simp: read_edges_def has_key_def)
    with corroboration_of_known_edge [OF assms] read_edge_ends [OF assms(1) e] show ?thesis by blast
  qed
  obtain qs where qs: "proposals_of (\<lambda>i. get_edge_corroboration C U rnd rnd64 pow2 drain now i g) g ?es = Inr qs"
      "list_all2 (\<lambda>e q. select_node g (edge_subject e) = Some (rp_node q) \<and>
         get_edge_corroboration C U rnd rnd64 pow2 drain now (edge_id e) g = Inr (rp_corroboration q)) ?es qs"
    using proposals_of_all [of ?es g "\<lambda>i. get_edge_corroboration C U rnd rnd64 pow2 drain now i g", OF each] by blast
  have "list_roadmap_proposals C U rnd rnd64 pow2 drain now g = Inr (sort_key rank_key qs)"
    using Some qs(1) by (simp add: list_roadmap_proposals_def)
  moreover have "mset (sort_key rank_key qs) = mset qs \<and> sorted (map rank_key (sort_key rank_key qs)) \<and>
      (\<forall>k. filter (\<lambda>p. rank_key p = k) (sort_key rank_key qs) = filter (\<lambda>p. rank_key p = k) qs)"
    by (simp add: sort_key_stable)
  ultimately show ?thesis using Some qs(2) by (simp only: option.case) blast
qed (simp add: list_roadmap_proposals_def)

definition plan_hub :: node where
  "plan_hub = node_new road_crypto ''concept'' ROADMAP_PROPOSAL_HUB 0"

definition plan_graph :: graph where
  "plan_graph = empty_graph
     \<lparr>nodes := [road_node CHR ''a'', plan_hub],
      edges := [edge_new road_crypto (node_id (road_node CHR ''a'')) ROADMAP_PROPOSAL_PREDICATE (node_id plan_hub) 0]\<rparr>"

lemma plan_hub_simps:
  "node_id plan_hub = NodeId (str_bytes (NODE_PREFIX @ ROADMAP_PROPOSAL_HUB))"
  "node_canonical_identifier plan_hub = ROADMAP_PROPOSAL_HUB"
  by (simp_all add: plan_hub_def node_new_def node_id_from_canonical_identifier_def hash32_derive_def road_crypto_def)

lemma plan_hub_id: "node_id (road_node CHR ''a'') \<noteq> node_id plan_hub"
  by (simp add: plan_hub_simps road_simps ROADMAP_PROPOSAL_HUB_def)

lemma plan_graph_ok: "graph_ok road_crypto plan_graph"
proof -
  have "node_id_from_canonical_identifier road_crypto ''a'' = node_id (road_node CHR ''a'')"
    "node_id_from_canonical_identifier road_crypto ROADMAP_PROPOSAL_HUB = node_id plan_hub"
    by (simp_all add: road_node_def plan_hub_def node_new_def)
  then show ?thesis
    by (simp add: graph_ok_defs plan_graph_def empty_graph_def has_key_def road_simps(2) plan_hub_simps(2) plan_hub_id edge_new_def)
qed

theorem roadmap_is_ranked_witness:
  "\<exists>p. list_roadmap_proposals road_crypto no_urls id id (\<lambda>_. 1) id 9 plan_graph = Inr [p] \<and>
     node_canonical_identifier (rp_node p) = ''a''"
proof -
  have "length (assertions plan_graph) + length (evidences plan_graph) \<le> 2 ^ 24" by (simp add: plan_graph_def empty_graph_def)
  note ranked = roadmap_is_ranked [OF plan_graph_ok id_arith permutes_id this, of no_urls 9]
  have hub: "get_by_canonical_identifier plan_graph ROADMAP_PROPOSAL_HUB = Some (row_to_node plan_hub)"
    by (simp add: get_by_canonical_identifier_def plan_graph_def lookup_by_def road_simps(2) plan_hub_simps(2) ROADMAP_PROPOSAL_HUB_def)
  have edges: "list_by_predicate_and_object plan_graph ROADMAP_PROPOSAL_PREDICATE (node_id (row_to_node plan_hub))
      = [row_to_edge (edge_new road_crypto (node_id (road_node CHR ''a'')) ROADMAP_PROPOSAL_PREDICATE (node_id plan_hub) 0)]"
    by (simp add: list_by_predicate_and_object_def plan_graph_def row_to_node_def edge_new_def)
  have subject: "node_canonical_identifier n = ''a''" if "select_node plan_graph (node_id (road_node CHR ''a'')) = Some n" for n
    using that by (auto simp: select_node_def plan_graph_def lookup_by_def row_to_node_def road_simps(2))
  obtain ps qs where "list_roadmap_proposals road_crypto no_urls id id (\<lambda>_. 1) id 9 plan_graph = Inr ps" "mset ps = mset qs"
      "list_all2 (\<lambda>e q. select_node plan_graph (edge_subject e) = Some (rp_node q) \<and>
         get_edge_corroboration road_crypto no_urls id id (\<lambda>_. 1) id 9 (edge_id e) plan_graph = Inr (rp_corroboration q))
       [row_to_edge (edge_new road_crypto (node_id (road_node CHR ''a'')) ROADMAP_PROPOSAL_PREDICATE (node_id plan_hub) 0)] qs"
    using ranked unfolding hub option.case edges by blast
  then show ?thesis using subject by (auto simp: list_all2_Cons1 edge_new_def)
qed

end
