(* ===== verification/Memory.thy ===== *)
theory Memory
  imports Network Service Framing "HOL-Library.Char_ord" "HOL-Library.List_Lexorder"
begin

text \<open>
  What a peer keeps about itself: its tensor pad (\<^verbatim>\<open>oag-tensor\<close>, \<^verbatim>\<open>tensor_pads.rs\<close>, the observation after a sync
  in \<^verbatim>\<open>oag-sync/service.rs\<close>), its gravity level (\<^verbatim>\<open>node_gravity.rs\<close>, \<^verbatim>\<open>gravity.rs\<close>), its names
  (\<^verbatim>\<open>oag-petname\<close>) and the schema versions of stored rows (\<^verbatim>\<open>versioning.rs\<close>).  The bit pattern of an
  \<^verbatim>\<open>f32\<close>, the natural logarithm, the random generators and the dictionary are arguments.
\<close>

section \<open>Floats as bytes\<close>

record f32_format =
  to_bits :: "f32 \<Rightarrow> 32 word"
  from_bits :: "32 word \<Rightarrow> f32"

definition to_le_bytes :: "32 word \<Rightarrow> byte list" where
  "to_le_bytes w = rev (to_be_bytes w)"

definition from_le_bytes :: "byte list \<Rightarrow> 32 word" where
  "from_le_bytes bs = from_be_bytes (rev bs)"

fun as_chunks :: "byte list \<Rightarrow> byte list list" where
  "as_chunks (a # b # c # d # rest) = [a, b, c, d] # as_chunks rest"
| "as_chunks remainder = []"

definition encode_values :: "f32_format \<Rightarrow> f32 list \<Rightarrow> byte list" where
  "encode_values B values = concat (map (\<lambda>value. to_le_bytes (to_bits B value)) values)"

definition decode_values :: "f32_format \<Rightarrow> byte list \<Rightarrow> f32 list" where
  "decode_values B bytes = map (\<lambda>chunk. from_bits B (from_le_bytes chunk)) (as_chunks bytes)"

section \<open>The tensor pad\<close>

definition TENSOR_PAD_DIM :: nat where "TENSOR_PAD_DIM = 32"

record tensor_pad =
  pad_values :: "f32 list"

definition pad_default :: tensor_pad where
  "pad_default = \<lparr>pad_values = replicate TENSOR_PAD_DIM 0\<rparr>"

definition from_values :: "f32 list \<Rightarrow> tensor_pad" where
  "from_values vs = \<lparr>pad_values = take TENSOR_PAD_DIM vs @ replicate (TENSOR_PAD_DIM - length vs) 0\<rparr>"

definition pad_update :: "(f32 \<Rightarrow> f32) \<Rightarrow> f32 list \<Rightarrow> f32 \<Rightarrow> tensor_pad \<Rightarrow> tensor_pad" where
  "pad_update rnd signal learning_rate pad =
     \<lparr>pad_values = map (\<lambda>(i, slot).
        let s = (if i < length signal then signal ! i else 0)
        in rnd (rnd (rnd (1 - learning_rate) * slot) + rnd (learning_rate * s))) (enumerate 0 (pad_values pad))\<rparr>"

record tensor_pad_row =
  tp_peer_id :: "byte list"
  tp_values :: "byte list"
  tp_updated_at :: int

definition tensor_pads_get :: "f32_format \<Rightarrow> byte list \<Rightarrow> tensor_pad_row list \<Rightarrow> f32 list option" where
  "tensor_pads_get B p rows = map_option (\<lambda>r. decode_values B (tp_values r)) (lookup_by tp_peer_id rows p)"

definition tensor_pads_upsert :: "f32_format \<Rightarrow> byte list \<Rightarrow> f32 list \<Rightarrow> int \<Rightarrow> tensor_pad_row list \<Rightarrow> tensor_pad_row list" where
  "tensor_pads_upsert B p values updated_at rows =
     (let row = \<lparr>tp_peer_id = p, tp_values = encode_values B values, tp_updated_at = updated_at\<rparr>
      in if has_key tp_peer_id rows p then update_where (\<lambda>r. tp_peer_id r = p) (\<lambda>_. row) rows else rows @ [row])"

definition LEARNING_RATE :: "(f32 \<Rightarrow> f32) \<Rightarrow> f32" where "LEARNING_RATE rnd = rnd (1 / 10)"

definition sync_signal :: "(f32 \<Rightarrow> f32) \<Rightarrow> (f32 \<Rightarrow> f32) \<Rightarrow> sync_summary \<Rightarrow> f32 list" where
  "sync_signal rnd ln32 summary =
     map (\<lambda>n. ln32 (rnd (rnd (of_nat n) + 1)))
       [sy_applied summary, sy_already_known summary, sy_forks summary, length (sy_errors summary)]"

definition observe_sync_outcome ::
  "(f32 \<Rightarrow> f32) \<Rightarrow> (f32 \<Rightarrow> f32) \<Rightarrow> f32_format \<Rightarrow> byte list \<Rightarrow> int \<Rightarrow> sync_summary \<Rightarrow> tensor_pad_row list \<Rightarrow> tensor_pad_row list" where
  "observe_sync_outcome rnd ln32 B self_peer_id now summary rows =
     (let existing = tensor_pads_get B self_peer_id rows;
          pad = from_values (case existing of Some vs \<Rightarrow> vs | None \<Rightarrow> []);
          pad' = pad_update rnd (sync_signal rnd ln32 summary) (LEARNING_RATE rnd) pad
      in tensor_pads_upsert B self_peer_id (pad_values pad') now rows)"

section \<open>Gravity\<close>

definition MAX_DELAY_MICROS :: nat where "MAX_DELAY_MICROS = 500"

type_synonym gravity_rows = "(byte list \<times> f32 \<times> int) list"

definition gravity_get :: "(f32 \<Rightarrow> f32) \<Rightarrow> byte list \<Rightarrow> gravity_rows \<Rightarrow> f32 option" where
  "gravity_get rnd p rows = map_option (\<lambda>r. rnd (fst (snd r))) (lookup_by fst rows p)"

definition gravity_insert_if_missing :: "byte list \<Rightarrow> f32 \<Rightarrow> int \<Rightarrow> gravity_rows \<Rightarrow> gravity_rows" where
  "gravity_insert_if_missing p level generated_at rows =
     (if has_key fst rows p then rows else rows @ [(p, level, generated_at)])"

text \<open>The level that the operating system's generator would give is the argument \<open>rolled\<close>.\<close>

definition get_or_generate :: "(f32 \<Rightarrow> f32) \<Rightarrow> f32 \<Rightarrow> byte list \<Rightarrow> int \<Rightarrow> gravity_rows \<Rightarrow> f32 \<times> gravity_rows" where
  "get_or_generate rnd rolled p now rows =
     (case gravity_get rnd p rows of
        Some level \<Rightarrow> (level, rows)
      | None \<Rightarrow>
          let rows' = gravity_insert_if_missing p rolled now rows
          in (case gravity_get rnd p rows' of Some level \<Rightarrow> level | None \<Rightarrow> rolled, rows'))"

text \<open>\<^verbatim>\<open>as u64\<close> cuts off the fraction.  The answer is in microseconds.\<close>

definition delay_for :: "(f32 \<Rightarrow> f32) \<Rightarrow> f32 \<Rightarrow> nat" where
  "delay_for rnd gravity_level = nat \<lfloor>rnd (clamp01 gravity_level * rnd (of_nat MAX_DELAY_MICROS))\<rfloor>"

section \<open>Names\<close>

definition is_ascii_alphabetic :: "char \<Rightarrow> bool" where
  "is_ascii_alphabetic c \<longleftrightarrow> (let n = of_char c :: nat in (65 \<le> n \<and> n \<le> 90) \<or> (97 \<le> n \<and> n \<le> 122))"

definition WORD_COUNT :: nat where "WORD_COUNT = 128"
definition ADDRESS_WORD_COUNT :: nat where "ADDRESS_WORD_COUNT = 4"
definition ADDRESS_WORD_MAX_LEN :: nat where "ADDRESS_WORD_MAX_LEN = 12"

text \<open>The keys of the dictionary come in the order of a hash map.\<close>

definition wordlist :: "string list \<Rightarrow> string list" where
  "wordlist corpus_keys = remdups_adj (sort (filter (\<lambda>w. w \<noteq> [] \<and> list_all is_ascii_alphabetic w) corpus_keys))"

definition address_wordlist :: "string list \<Rightarrow> string list" where
  "address_wordlist corpus_keys = filter (\<lambda>w. length w \<le> ADDRESS_WORD_MAX_LEN) (wordlist corpus_keys)"

text \<open>The generator seeded by the peer id: \<open>draw seed k n\<close> is its \<open>k\<close>-th number below \<open>n\<close>.  An empty range panics (\<^const>\<open>None\<close>).\<close>

type_synonym generator = "byte list \<Rightarrow> nat \<Rightarrow> nat \<Rightarrow> nat"

definition draw_words :: "generator \<Rightarrow> byte list \<Rightarrow> nat \<Rightarrow> string list \<Rightarrow> string list option" where
  "draw_words draw p count words =
     (if words = [] \<and> 0 < count then None else Some (map (\<lambda>k. words ! draw p k (length words)) [0..<count]))"

definition address_label :: "generator \<Rightarrow> string list \<Rightarrow> byte list \<Rightarrow> string option" where
  "address_label draw corpus_keys p = map_option (join_with ''-'') (draw_words draw p ADDRESS_WORD_COUNT (address_wordlist corpus_keys))"

definition peer_name :: "generator \<Rightarrow> string list \<Rightarrow> byte list \<Rightarrow> string list option" where
  "peer_name draw corpus_keys p = draw_words draw p WORD_COUNT (wordlist corpus_keys)"

definition peer_name_string :: "generator \<Rightarrow> string list \<Rightarrow> byte list \<Rightarrow> string option" where
  "peer_name_string draw corpus_keys p = map_option (join_with ''-'') (peer_name draw corpus_keys p)"

section \<open>Schema versions\<close>

type_synonym 'r migration_step = "int \<times> ('r \<Rightarrow> 'r)"

partial_function (option) migrate_to_version ::
  "('r \<Rightarrow> int) \<Rightarrow> int \<Rightarrow> 'r migration_step list \<Rightarrow> 'r \<Rightarrow> 'r option" where
  "migrate_to_version schema_version target_version steps row =
     (let current = schema_version row in
      if current \<ge> target_version then Some row
      else case find (\<lambda>s. fst s = current) steps of
             Some s \<Rightarrow> migrate_to_version schema_version target_version steps (snd s row)
           | None \<Rightarrow> Some row)"

section \<open>A pad is always 32 wide\<close>

text \<open>A float that is one has a bit pattern of its own, and rounding gives floats.\<close>

definition f32_format_ok :: "(f32 \<Rightarrow> f32) \<Rightarrow> f32_format \<Rightarrow> bool" where
  "f32_format_ok rnd B \<longleftrightarrow> rnd 0 = 0 \<and> (\<forall>x. from_bits B (to_bits B (rnd x)) = rnd x)"

lemma from_to_le_bytes [simp]: "from_le_bytes (to_le_bytes w) = w"
  by (simp add: from_le_bytes_def to_le_bytes_def)

lemma as_chunks_append: "length c = 4 \<Longrightarrow> as_chunks (c @ rest) = c # as_chunks rest"
proof -
  assume "length c = 4"
  then obtain w x y z where "c = [w, x, y, z]" by (auto simp: numeral_eq_Suc length_Suc_conv)
  then show ?thesis by simp
qed

lemma decode_encode:
  "(\<And>v. v \<in> set vs \<Longrightarrow> from_bits B (to_bits B v) = v) \<Longrightarrow> decode_values B (encode_values B vs) = vs"
proof (induction vs)
  case (Cons v vs)
  have "as_chunks (to_le_bytes (to_bits B v) @ encode_values B vs) = to_le_bytes (to_bits B v) # as_chunks (encode_values B vs)"
    by (rule as_chunks_append) (simp add: to_le_bytes_def)
  with Cons show ?case by (simp add: decode_values_def encode_values_def)
qed (simp add: decode_values_def encode_values_def)

lemma length_encode_values [simp]: "length (encode_values B vs) = 4 * length vs"
  by (induction vs) (simp_all add: encode_values_def to_le_bytes_def)

lemma pad_widths [simp]:
  "length (pad_values pad_default) = TENSOR_PAD_DIM" "length (pad_values (from_values vs)) = TENSOR_PAD_DIM"
  "length (pad_values (pad_update rnd signal lr pad)) = length (pad_values pad)"
  by (auto simp: pad_default_def from_values_def pad_update_def)

lemma pad_update_nth:
  assumes "i < length (pad_values pad)"
  shows "pad_values (pad_update rnd signal lr pad) ! i
    = rnd (rnd (rnd (1 - lr) * pad_values pad ! i) + rnd (lr * (if i < length signal then signal ! i else 0)))"
  using assms by (simp add: pad_update_def nth_enumerate_eq Let_def)

lemma from_values_nth:
  "i < TENSOR_PAD_DIM \<Longrightarrow> pad_values (from_values vs) ! i = (if i < length vs then vs ! i else 0)"
  by (auto simp: from_values_def nth_append)

lemma lookup_by_replace:
  "key row = p \<Longrightarrow> lookup_by key (update_where (\<lambda>r. key r = p) (\<lambda>_. row) rows) q
    = (if q = p then if has_key key rows p then Some row else None else lookup_by key rows q)"
  unfolding lookup_by_def update_where_def by (induction rows) (auto simp: has_key_def)

lemma tensor_pads_get_upsert:
  assumes "\<And>v. v \<in> set vs \<Longrightarrow> from_bits B (to_bits B v) = v"
  shows "tensor_pads_get B q (tensor_pads_upsert B p vs t rows) = (if q = p then Some vs else tensor_pads_get B q rows)"
proof (cases "has_key tp_peer_id rows p")
  case True
  with assms show ?thesis by (auto simp: tensor_pads_get_def tensor_pads_upsert_def Let_def decode_encode lookup_by_replace)
next
  case False
  then have "lookup_by tp_peer_id rows p = None" by (simp add: lookup_by_None_iff)
  with False assms show ?thesis
    by (auto simp: tensor_pads_get_def tensor_pads_upsert_def Let_def lookup_by_append decode_encode split: option.splits)
qed

definition stored_slot :: "f32_format \<Rightarrow> byte list \<Rightarrow> tensor_pad_row list \<Rightarrow> nat \<Rightarrow> f32" where
  "stored_slot B p rows i = (case tensor_pads_get B p rows of Some vs \<Rightarrow> if i < length vs then vs ! i else 0 | None \<Rightarrow> 0)"

text \<open>
  C30. After every sync the peer's stored pad reads back, 32 values wide whatever width was stored before (missing
  slots count as zero): each of the 32 is the exponential moving average, with weight one tenth, of the old slot and the signal, which has the
  four logarithmic counts of the sync in the first four slots and zero in the others.  The pads of other peers are untouched.
\<close>

theorem stored_pad_is_32_wide:
  assumes "f32_format_ok rnd B"
  shows "\<exists>vs. tensor_pads_get B self (observe_sync_outcome rnd ln32 B self now summary rows) = Some vs \<and> length vs = 32 \<and>
      (\<forall>i<32. vs ! i = rnd (rnd (rnd (1 - rnd (1 / 10)) * stored_slot B self rows i) +
         rnd (rnd (1 / 10) * (if i < 4 then sync_signal rnd ln32 summary ! i else 0)))) \<and>
      (\<forall>q. q \<noteq> self \<longrightarrow> tensor_pads_get B q (observe_sync_outcome rnd ln32 B self now summary rows) = tensor_pads_get B q rows)"
proof -
  let ?pad = "from_values (case tensor_pads_get B self rows of Some vs \<Rightarrow> vs | None \<Rightarrow> [])"
  let ?vs = "pad_values (pad_update rnd (sync_signal rnd ln32 summary) (LEARNING_RATE rnd) ?pad)"
  have rnd: "rnd 0 = 0" "\<And>x. from_bits B (to_bits B (rnd x)) = rnd x" using assms(1) by (simp_all add: f32_format_ok_def)
  have "\<exists>x. v = rnd x" if "v \<in> set ?vs" for v using that by (auto simp: pad_update_def Let_def)
  then have bits: "from_bits B (to_bits B v) = v" if "v \<in> set ?vs" for v using that rnd(2) by metis
  have get: "tensor_pads_get B q (observe_sync_outcome rnd ln32 B self now summary rows)
      = (if q = self then Some ?vs else tensor_pads_get B q rows)" for q
    unfolding observe_sync_outcome_def Let_def by (rule tensor_pads_get_upsert) (rule bits)
  have old: "pad_values ?pad ! i = stored_slot B self rows i" if "i < 32" for i
    using that by (auto simp: stored_slot_def from_values_nth TENSOR_PAD_DIM_def split: option.splits)
  have len: "length ?vs = 32" "length (pad_values ?pad) = 32" by (simp_all add: TENSOR_PAD_DIM_def)
  have nth: "?vs ! i = rnd (rnd (rnd (1 - rnd (1 / 10)) * stored_slot B self rows i)
      + rnd (rnd (1 / 10) * (if i < 4 then sync_signal rnd ln32 summary ! i else 0)))" if "i < 32" for i
    using that len(2) by (simp add: pad_update_nth old LEARNING_RATE_def) (simp add: sync_signal_def)
  show ?thesis
    by (rule exI [of _ ?vs]) (use get len(1) nth rnd(1) in auto)
qed

definition tenths :: "f32 \<Rightarrow> f32" where
  "tenths x = of_int (max 0 (min 1000 \<lfloor>10 * x\<rfloor>)) / 10"

definition tenths_format :: f32_format where
  "tenths_format = \<lparr>to_bits = \<lambda>x. word_of_int \<lfloor>10 * x\<rfloor>, from_bits = \<lambda>w. of_int (uint w) / 10\<rparr>"

lemma tenths_format_ok: "f32_format_ok tenths tenths_format"
proof -
  have "from_bits tenths_format (to_bits tenths_format (of_int k / 10)) = of_int k / 10" if "0 \<le> k" "k \<le> 1000" for k
  proof -
    have u: "uint (word_of_int k :: 32 word) = k" using that by (simp add: uint_word_of_int_eq take_bit_int_eq_self)
    have "\<lfloor>10 * (of_int k / 10 :: rat)\<rfloor> = k" by simp
    then show ?thesis by (simp only: tenths_format_def f32_format.select_convs u)
  qed
  then show ?thesis by (simp add: f32_format_ok_def tenths_def)
qed

theorem stored_pad_is_32_wide_witness:
  "\<exists>vs. tensor_pads_get tenths_format [7] (observe_sync_outcome tenths id tenths_format [7] 0
       \<lparr>sy_applied = 30, sy_already_known = 0, sy_forks = 0, sy_errors = []\<rparr>
       [\<lparr>tp_peer_id = [7], tp_values = [232, 3, 0, 0], tp_updated_at = 0\<rparr>]) = Some vs \<and> length vs = 32 \<and> vs ! 0 = 931 / 10 \<and> vs ! 31 = 0"
proof -
  let ?rows = "[\<lparr>tp_peer_id = [7], tp_values = [232, 3, 0, 0], tp_updated_at = 0\<rparr>]"
  have "from_le_bytes [232, 3, 0, 0] = 1000" by (simp add: from_le_bytes_def from_be_bytes_def)
  then have slots: "stored_slot tenths_format [7] ?rows 0 = 100" "stored_slot tenths_format [7] ?rows 31 = 0"
    by (simp_all add: stored_slot_def tensor_pads_get_def lookup_by_def decode_values_def tenths_format_def)
  from stored_pad_is_32_wide [OF tenths_format_ok, of "[7]" id 0
      "\<lparr>sy_applied = 30, sy_already_known = 0, sy_forks = 0, sy_errors = []\<rparr>" ?rows]
  obtain vs where vs: "tensor_pads_get tenths_format [7] (observe_sync_outcome tenths id tenths_format [7] 0
       \<lparr>sy_applied = 30, sy_already_known = 0, sy_forks = 0, sy_errors = []\<rparr> ?rows) = Some vs" "length vs = 32"
    "\<forall>i<32. vs ! i = tenths (tenths (tenths (1 - tenths (1 / 10)) * stored_slot tenths_format [7] ?rows i)
       + tenths (tenths (1 / 10) * (if i < 4 then sync_signal tenths id \<lparr>sy_applied = 30, sy_already_known = 0, sy_forks = 0, sy_errors = []\<rparr> ! i else 0)))"
    by (elim exE conjE) (rule that)
  have "vs ! 0 = 931 / 10" using vs(3) [rule_format, of 0] slots(1) by (simp add: sync_signal_def tenths_def)
  moreover have "vs ! 31 = 0" using vs(3) [rule_format, of 31] slots(2) by (simp add: tenths_def)
  ultimately show ?thesis using vs(1,2) by blast
qed

section \<open>Racing tasks agree on the gravity\<close>

text \<open>Tasks that run \<^const>\<open>get_or_generate\<close> for one peer at the same time: each access to the table is one step.\<close>

datatype gravity_task = Started | Rolled f32 | Stored f32 | Returned f32

inductive gravity_step :: "(f32 \<Rightarrow> f32) \<Rightarrow> byte list \<Rightarrow> gravity_rows \<times> gravity_task list \<Rightarrow> gravity_rows \<times> gravity_task list \<Rightarrow> bool"
  for rnd :: "f32 \<Rightarrow> f32" and p :: "byte list" where
  hit: "i < length ts \<Longrightarrow> ts ! i = Started \<Longrightarrow> gravity_get rnd p rows = Some level
    \<Longrightarrow> gravity_step rnd p (rows, ts) (rows, ts[i := Returned level])"
| miss: "i < length ts \<Longrightarrow> ts ! i = Started \<Longrightarrow> gravity_get rnd p rows = None \<Longrightarrow> 0 \<le> r \<Longrightarrow> r < 1 \<Longrightarrow> rnd r = r
    \<Longrightarrow> gravity_step rnd p (rows, ts) (rows, ts[i := Rolled r])"
| insert: "i < length ts \<Longrightarrow> ts ! i = Rolled r
    \<Longrightarrow> gravity_step rnd p (rows, ts) (gravity_insert_if_missing p r now rows, ts[i := Stored r])"
| reread: "i < length ts \<Longrightarrow> ts ! i = Stored r
    \<Longrightarrow> gravity_step rnd p (rows, ts) (rows, ts[i := Returned (case gravity_get rnd p rows of Some level \<Rightarrow> level | None \<Rightarrow> r)])"

inductive_cases gravity_stepE: "gravity_step rnd p st st'"

text \<open>Alone, a task does what \<open>get_or_generate\<close> does.\<close>

lemma gravity_task_alone:
  assumes "get_or_generate rnd r p now rows = (level, rows')" "0 \<le> r" "r < 1" "rnd r = r"
  shows "(gravity_step rnd p)\<^sup>*\<^sup>* (rows, [Started]) (rows', [Returned level])"
proof (cases "gravity_get rnd p rows")
  case None
  let ?rows = "gravity_insert_if_missing p r now rows"
  have "gravity_step rnd p (rows, [Started]) (rows, [Rolled r])"
    using gravity_step.miss [of 0 "[Started]" rnd p rows r] None assms(2-4) by simp
  moreover have "gravity_step rnd p (rows, [Rolled r]) (?rows, [Stored r])"
    using gravity_step.insert [of 0 "[Rolled r]" r rnd p rows now] by simp
  moreover have "gravity_step rnd p (?rows, [Stored r]) (rows', [Returned level])"
    using gravity_step.reread [of 0 "[Stored r]" r rnd p ?rows] assms(1) None by (auto simp: get_or_generate_def Let_def)
  ultimately show ?thesis by (meson converse_rtranclp_into_rtranclp r_into_rtranclp)
next
  case (Some l)
  then show ?thesis
    using gravity_step.hit [of 0 "[Started]" rnd p rows l] assms(1) by (auto simp: get_or_generate_def)
qed

text \<open>What holds of the table and of each task between two steps.\<close>

fun task_ok :: "f32 option \<Rightarrow> (f32 \<Rightarrow> f32) \<Rightarrow> gravity_task \<Rightarrow> bool" where
  "task_ok level rnd Started \<longleftrightarrow> True"
| "task_ok level rnd (Rolled r) \<longleftrightarrow> 0 \<le> r \<and> r < 1 \<and> rnd r = r"
| "task_ok level rnd (Stored r) \<longleftrightarrow> level \<noteq> None"
| "task_ok level rnd (Returned r) \<longleftrightarrow> level = Some r"

definition gravity_inv :: "(f32 \<Rightarrow> f32) \<Rightarrow> byte list \<Rightarrow> gravity_rows \<times> gravity_task list \<Rightarrow> bool" where
  "gravity_inv rnd p = (\<lambda>(rows, ts). (\<forall>level. gravity_get rnd p rows = Some level \<longrightarrow> 0 \<le> level \<and> level < 1) \<and>
     list_all (task_ok (gravity_get rnd p rows) rnd) ts)"

lemma gravity_get_insert:
  "gravity_get rnd p (gravity_insert_if_missing p r now rows)
    = (case gravity_get rnd p rows of Some level \<Rightarrow> Some level | None \<Rightarrow> Some (rnd r))"
  using lookup_by_None_iff [of fst rows p]
  by (auto simp: gravity_get_def gravity_insert_if_missing_def lookup_by_append split: option.splits)

lemma list_all_upd: "list_all P xs \<Longrightarrow> P x \<Longrightarrow> list_all P (xs[i := x])"
  by (auto simp: list_all_iff dest: set_update_subset_insert [THEN subsetD])

lemma task_ok_persists: "task_ok level rnd t \<Longrightarrow> level = None \<or> level = level' \<Longrightarrow> task_ok level' rnd t"
  by (cases t) auto

lemma gravity_step_inv:
  assumes "gravity_step rnd p st st'" "gravity_inv rnd p st"
  shows "gravity_inv rnd p st'"
  using assms
proof cases
  case (insert i ts r rows now)
  have task: "task_ok (gravity_get rnd p rows) rnd (ts ! i)" and all: "list_all (task_ok (gravity_get rnd p rows) rnd) ts"
    and range: "\<forall>level. gravity_get rnd p rows = Some level \<longrightarrow> 0 \<le> level \<and> level < 1"
    using assms(2) insert by (auto simp: gravity_inv_def list_all_length)
  let ?get = "gravity_get rnd p (gravity_insert_if_missing p r now rows)"
  have "list_all (task_ok ?get rnd) ts"
    using all task_ok_persists [of "gravity_get rnd p rows" rnd _ ?get]
    by (auto simp: list_all_iff gravity_get_insert split: option.splits)
  then have "list_all (task_ok ?get rnd) (ts[i := Stored r])"
    by (rule list_all_upd) (simp add: gravity_get_insert split: option.splits)
  moreover have "0 \<le> r" "r < 1" "rnd r = r" using task insert by simp_all
  ultimately show ?thesis using range insert by (auto simp: gravity_inv_def gravity_get_insert split: option.splits)
next
  case (reread i ts r rows)
  then have "gravity_get rnd p rows \<noteq> None" using assms(2) by (auto simp: gravity_inv_def list_all_length)
  with reread assms(2) show ?thesis by (auto simp: gravity_inv_def intro!: list_all_upd)
qed (auto simp: gravity_inv_def intro!: list_all_upd)

text \<open>
  C31. However tasks that ask for a peer's gravity level interleave, from a table that has a level in range or none,
  all that return agree, on a level in [0,1) that the table holds and that every later call returns, leaving the table alone; the slowdown it causes is at most
  half a millisecond.
\<close>

theorem racing_tasks_agree:
  assumes "(gravity_step rnd p)\<^sup>*\<^sup>* (rows, replicate n Started) (rows', ts)"
    and "\<forall>level. gravity_get rnd p rows = Some level \<longrightarrow> 0 \<le> level \<and> level < 1"
    and "mono rnd" "rnd 500 = 500" "Returned a \<in> set ts"
  shows "0 \<le> a \<and> a < 1 \<and> (\<forall>b. Returned b \<in> set ts \<longrightarrow> b = a) \<and> get_or_generate rnd rolled p now rows' = (a, rows') \<and> delay_for rnd a \<le> 500"
proof -
  have "gravity_inv rnd p (rows, replicate n Started)" using assms(2) by (simp add: gravity_inv_def list_all_iff)
  with assms(1) have inv: "gravity_inv rnd p (rows', ts)"
    by (induction rule: rtranclp_induct) (blast intro: gravity_step_inv)+
  then have get: "gravity_get rnd p rows' = Some b" if "Returned b \<in> set ts" for b
    using that by (auto simp: gravity_inv_def list_all_iff)
  from inv get [OF assms(5)] have "0 \<le> a" "a < 1" by (auto simp: gravity_inv_def)
  moreover have "rnd (clamp01 a * rnd 500) \<le> rnd 500"
    using calculation assms(4) by (intro monoD [OF assms(3)]) (simp add: clamp01_def)
  then have "delay_for rnd a \<le> 500"
    using assms(4) by (simp add: delay_for_def MAX_DELAY_MICROS_def) linarith
  moreover have "b = a" if "Returned b \<in> set ts" for b using get [OF that] get [OF assms(5)] by simp
  ultimately show ?thesis using get [OF assms(5)] by (auto simp: get_or_generate_def)
qed

lemma race_example:
  "(gravity_step (\<lambda>x. x) [7])\<^sup>*\<^sup>* ([], replicate 2 Started) ([([7], 1 / 2, 0)], [Returned (1 / 2), Returned (1 / 2)])"
proof -
  let ?step = "gravity_step (\<lambda>x. x) [7]"
  have get: "gravity_get (\<lambda>x. x) [7] [] = None" "gravity_get (\<lambda>x. x) [7] [([7], 1 / 2, 0)] = Some (1 / 2)"
    by (simp_all add: gravity_get_def lookup_by_def)
  have ins: "gravity_insert_if_missing [7] (1 / 2) 0 [] = [([7], 1 / 2, 0)]"
    "gravity_insert_if_missing [7] (1 / 10) 0 [([7], 1 / 2, 0)] = [([7], 1 / 2, 0)]"
    by (simp_all add: gravity_insert_if_missing_def has_key_def)
  have s1: "?step ([], [Started, Started]) ([], [Rolled (1 / 10), Started])" using miss [of 0 "[Started, Started]" "\<lambda>x. x" "[7]" "[]" "1 / 10"] get by simp
  have s2: "?step ([], [Rolled (1 / 10), Started]) ([], [Rolled (1 / 10), Rolled (1 / 2)])"
    using miss [of 1 "[Rolled (1 / 10), Started]" "\<lambda>x. x" "[7]" "[]" "1 / 2"] get by simp
  have s3: "?step ([], [Rolled (1 / 10), Rolled (1 / 2)]) ([([7], 1 / 2, 0)], [Rolled (1 / 10), Stored (1 / 2)])"
    using insert [of 1 "[Rolled (1 / 10), Rolled (1 / 2)]" "1 / 2" "\<lambda>x. x" "[7]" "[]" 0] ins by simp
  have s4: "?step ([([7], 1 / 2, 0)], [Rolled (1 / 10), Stored (1 / 2)]) ([([7], 1 / 2, 0)], [Stored (1 / 10), Stored (1 / 2)])"
    using insert [of 0 "[Rolled (1 / 10), Stored (1 / 2)]" "1 / 10" "\<lambda>x. x" "[7]" "[([7], 1 / 2, 0)]" 0] ins by simp
  have s5: "?step ([([7], 1 / 2, 0)], [Stored (1 / 10), Stored (1 / 2)]) ([([7], 1 / 2, 0)], [Returned (1 / 2), Stored (1 / 2)])"
    using reread [of 0 "[Stored (1 / 10), Stored (1 / 2)]" "1 / 10" "\<lambda>x. x" "[7]" "[([7], 1 / 2, 0)]"] get by simp
  have s6: "?step ([([7], 1 / 2, 0)], [Returned (1 / 2), Stored (1 / 2)]) ([([7], 1 / 2, 0)], [Returned (1 / 2), Returned (1 / 2)])"
    using reread [of 1 "[Returned (1 / 2), Stored (1 / 2)]" "1 / 2" "\<lambda>x. x" "[7]" "[([7], 1 / 2, 0)]"] get by simp
  have two: "replicate 2 Started = [Started, Started]" by (simp add: numeral_eq_Suc)
  note step = converse_rtranclp_into_rtranclp [of ?step]
  show ?thesis
    unfolding two by (rule step [OF s1], rule step [OF s2], rule step [OF s3], rule step [OF s4], rule step [OF s5], rule r_into_rtranclp [of ?step, OF s6])
qed

theorem racing_tasks_agree_witness:
  "get_or_generate (\<lambda>x. x) (1 / 10) [7] 9 [([7], 1 / 2, 0)] = (1 / 2, [([7], 1 / 2, 0)]) \<and> delay_for (\<lambda>x. x) (1 / 2) \<le> 500"
  using racing_tasks_agree [OF race_example, of "1 / 2" "1 / 10" 9]
  by (simp add: gravity_get_def lookup_by_def monoI)

section \<open>Names\<close>

definition draws_in_range :: "generator \<Rightarrow> bool" where
  "draws_in_range draw \<longleftrightarrow> (\<forall>seed k n. 0 < n \<longrightarrow> draw seed k n < n)"

lemma set_wordlist: "set (wordlist keys) = {w \<in> set keys. w \<noteq> [] \<and> list_all is_ascii_alphabetic w}"
  by (auto simp: wordlist_def)

lemma wordlist_unordered:
  assumes "set keys = set keys'"
  shows "wordlist keys = wordlist keys'"
proof -
  have "distinct (remdups_adj xs)" if "sorted xs" for xs :: "string list"
    using that by (induction xs rule: remdups_adj.induct) auto
  then have "sorted (wordlist ks) \<and> distinct (wordlist ks)" for ks by (simp add: wordlist_def)
  moreover have "set (wordlist keys) = set (wordlist keys')" using assms by (simp add: set_wordlist)
  ultimately show ?thesis by (metis sorted_distinct_set_unique)
qed

lemma draw_words_Some:
  assumes "draws_in_range draw" "draw_words draw p count words = Some ws"
  shows "length ws = count" "set ws \<subseteq> set words"
proof -
  show "length ws = count" using assms(2) by (auto simp: draw_words_def split: if_splits)
  have "draw p k (length words) < length words" if "words \<noteq> []" for k using assms(1) that by (simp add: draws_in_range_def)
  then show "set ws \<subseteq> set words" using assms(2) by (auto simp: draw_words_def split: if_splits)
qed

lemma length_join_with:
  "list_all (\<lambda>w. length w \<le> m) ws \<Longrightarrow> length (join_with [c] ws) \<le> length ws * (m + 1) - 1"
  by (induction "[c]" ws rule: join_with.induct) auto

text \<open>A host name label of RFC 1123: letters, digits and inner hyphens, at most 63 of them.\<close>

definition dns_label :: "string \<Rightarrow> bool" where
  "dns_label s \<longleftrightarrow> s \<noteq> [] \<and> length s \<le> 63 \<and> list_all (\<lambda>c. is_ascii_alphanumeric c \<or> c = CHR ''-'') s \<and>
     is_ascii_alphanumeric (hd s) \<and> is_ascii_alphanumeric (last s)"

lemma join_words_label:
  assumes "ws \<noteq> []" "list_all (\<lambda>w. w \<noteq> [] \<and> list_all P w) ws"
  shows "join_with [c] ws \<noteq> [] \<and> list_all (\<lambda>x. P x \<or> x = c) (join_with [c] ws) \<and> P (hd (join_with [c] ws)) \<and> P (last (join_with [c] ws))"
  using assms
proof (induction "[c]" ws rule: join_with.induct)
  case (2 w)
  then show ?case by (cases w) (auto simp: list_all_iff)
next
  case (3 w y ws)
  then show ?case by (cases w) (auto simp: list_all_iff)
qed simp

text \<open>
  A dictionary with a short enough word gives every peer an address label that is a valid DNS label, of at most 51
  characters, and a display name of 128 dictionary words; both depend on the set of words only, not on the order in
  which the hash map yields them.  Without such a word the label panics.
\<close>

theorem address_labels_are_dns_labels:
  assumes "draws_in_range draw" "set keys = set keys'"
  shows "case address_label draw keys p of
      Some label \<Rightarrow> dns_label label \<and> length label \<le> 51 \<and> address_label draw keys' p = Some label \<and>
        (\<exists>ws. peer_name draw keys p = Some ws \<and> peer_name draw keys' p = Some ws \<and> length ws = 128 \<and> set ws \<subseteq> set keys)
    | None \<Rightarrow> \<not> (\<exists>w\<in>set keys. w \<noteq> [] \<and> list_all is_ascii_alphabetic w \<and> length w \<le> 12)"
proof (cases "address_label draw keys p")
  case None
  then have "address_wordlist keys = []" by (auto simp: address_label_def draw_words_def split: if_splits)
  then show ?thesis using None set_wordlist [of keys] by (auto simp: address_wordlist_def ADDRESS_WORD_MAX_LEN_def filter_empty_conv)
next
  case (Some label)
  then obtain ws where ws: "draw_words draw p ADDRESS_WORD_COUNT (address_wordlist keys) = Some ws" "label = join_with ''-'' ws"
    by (auto simp: address_label_def)
  note words = draw_words_Some [OF assms(1) ws(1)]
  have each: "w \<noteq> [] \<and> list_all is_ascii_alphabetic w \<and> length w \<le> 12" if "w \<in> set ws" for w
    using that words(2) set_wordlist [of keys] by (auto simp: address_wordlist_def ADDRESS_WORD_MAX_LEN_def)
  have len: "length ws = 4" using words(1) by (simp add: ADDRESS_WORD_COUNT_def)
  then have "length label \<le> 51" using length_join_with [of 12 ws "CHR ''-''"] each by (simp add: ws(2) list_all_iff)
  moreover have "list_all (\<lambda>x. is_ascii_alphabetic x \<or> x = CHR ''-'') label \<and> label \<noteq> [] \<and> is_ascii_alphabetic (hd label) \<and> is_ascii_alphabetic (last label)"
  proof -
    have "ws \<noteq> []" using len by auto
    moreover have "list_all (\<lambda>w. w \<noteq> [] \<and> list_all is_ascii_alphabetic w) ws" using each by (simp add: list_all_iff)
    ultimately show ?thesis using join_words_label [of ws is_ascii_alphabetic "CHR ''-''"] by (simp add: ws(2))
  qed
  moreover have "is_ascii_alphabetic c \<Longrightarrow> is_ascii_alphanumeric c" for c
    by (auto simp: is_ascii_alphabetic_def is_ascii_alphanumeric_def Let_def)
  ultimately have label: "dns_label label" "length label \<le> 51" by (auto simp: dns_label_def list_all_iff)
  have "address_wordlist keys \<noteq> []" using ws(1) by (auto simp: draw_words_def ADDRESS_WORD_COUNT_def split: if_splits)
  then have "wordlist keys \<noteq> []" by (auto simp: address_wordlist_def)
  then obtain name where name: "peer_name draw keys p = Some name" by (simp add: peer_name_def draw_words_def)
  have "length name = 128" "set name \<subseteq> set keys"
    using draw_words_Some [OF assms(1) name [unfolded peer_name_def]] set_wordlist [of keys] by (auto simp: WORD_COUNT_def)
  moreover have "peer_name draw keys' = peer_name draw keys" "address_label draw keys' = address_label draw keys"
    using wordlist_unordered [OF assms(2)] by (auto simp: peer_name_def address_label_def address_wordlist_def)
  ultimately show ?thesis using Some label name by auto
qed

theorem address_labels_are_dns_labels_witness:
  "address_label (\<lambda>_ k n. k mod n) [''elm'', ''oak'', ''x-ray'', ''elm''] [7] = Some ''elm-oak-elm-oak'' \<and> dns_label ''elm-oak-elm-oak''"
proof -
  have four: "[0..<4] = [0, 1, 2, 3 :: nat]" by (simp add: upt_rec)
  have mods: "2 mod Suc (Suc 0) = 0" "3 mod Suc (Suc 0) = 1" by code_simp+
  have "wordlist [''elm'', ''oak'', ''x-ray'', ''elm''] = [''elm'', ''oak'']" by code_simp
  then have "address_label (\<lambda>_ k n. k mod n) [''elm'', ''oak'', ''x-ray'', ''elm''] [7] = Some ''elm-oak-elm-oak''"
    using four mods by (simp add: address_label_def address_wordlist_def draw_words_def ADDRESS_WORD_MAX_LEN_def ADDRESS_WORD_COUNT_def del: upt_rec_numeral)
  moreover have "draws_in_range (\<lambda>_ k n. k mod n)" by (simp add: draws_in_range_def)
  ultimately show ?thesis
    using address_labels_are_dns_labels [of "\<lambda>_ k n. k mod n" "[''elm'', ''oak'', ''x-ray'', ''elm'']"
        "[''elm'', ''oak'', ''x-ray'', ''elm'']" "[7]"] by simp
qed

section \<open>Migrations end\<close>

text \<open>The chain of rows that the steps produce, each from the step registered for its version.\<close>

inductive migrates :: "('r \<Rightarrow> int) \<Rightarrow> int \<Rightarrow> 'r migration_step list \<Rightarrow> 'r \<Rightarrow> 'r \<Rightarrow> bool"
  for version :: "'r \<Rightarrow> int" and target :: int and steps :: "'r migration_step list" where
  settled: "target \<le> version row \<or> find (\<lambda>s. fst s = version row) steps = None \<Longrightarrow> migrates version target steps row row"
| stepped: "version row < target \<Longrightarrow> find (\<lambda>s. fst s = version row) steps = Some s \<Longrightarrow> migrates version target steps (snd s row) row'
    \<Longrightarrow> migrates version target steps row row'"

lemma migrates_computes: "migrates version target steps row row' \<Longrightarrow> migrate_to_version version target steps row = Some row'"
proof (induction rule: migrates.induct)
  case (settled row)
  then show ?case by (subst migrate_to_version.simps) (auto simp: Let_def)
next
  case (stepped row s row')
  then show ?case by (subst migrate_to_version.simps) (simp add: Let_def)
qed

text \<open>
  When every registered step raises the version of a row at its own version, the migration loop ends for every
  row: at the target version or beyond, or at a version without a step, which is then returned as it is; a row that is
  already current is untouched, and the result is the end of the chain of registered steps.
\<close>

theorem migration_terminates:
  assumes "\<forall>(v, step)\<in>set steps. \<forall>row. version row = v \<longrightarrow> v < version (step row)"
  shows "\<exists>row'. migrate_to_version version target steps row = Some row' \<and> migrates version target steps row row' \<and>
      (target \<le> version row' \<or> version row' \<notin> fst ` set steps) \<and> (target \<le> version row \<longrightarrow> row' = row)"
proof -
  have "\<exists>row'. migrates version target steps row row' \<and> (target \<le> version row' \<or> version row' \<notin> fst ` set steps)"
  proof (induction "nat (target - version row)" arbitrary: row rule: less_induct)
    case less
    show ?case
    proof (cases "target \<le> version row \<or> find (\<lambda>s. fst s = version row) steps = None")
      case True
      then have "target \<le> version row \<or> version row \<notin> fst ` set steps" by (auto simp: find_None_iff)
      with True show ?thesis by (blast intro: settled)
    next
      case False
      then obtain s where s: "find (\<lambda>s. fst s = version row) steps = Some s" by auto
      then have "s \<in> set steps \<and> fst s = version row" by (auto simp: find_Some_iff)
      with assms have "version row < version (snd s row)" by (cases s) auto
      then obtain row' where "migrates version target steps (snd s row) row'" "target \<le> version row' \<or> version row' \<notin> fst ` set steps"
        using less [of "snd s row"] False by auto
      with s False show ?thesis using stepped [of version row target steps s row'] by auto
    qed
  qed
  then obtain row' where row': "migrates version target steps row row'" "target \<le> version row' \<or> version row' \<notin> fst ` set steps" by blast
  have "row' = row" if "target \<le> version row" using row'(1) that by cases auto
  with row' migrates_computes [OF row'(1)] show ?thesis by (intro exI [of _ row'] conjI impI)
qed

theorem migration_terminates_witness:
  "\<exists>row'. migrate_to_version fst 3 [(1, \<lambda>(_, x). (2, x * 10)), (2, \<lambda>(_, x). (3, x + 1))] (1, 4 :: int) = Some row' \<and> row' = (3, 41)"
proof -
  let ?steps = "[(1, \<lambda>(_, x). (2, x * 10)), (2, \<lambda>(_, x). (3, x + 1))] :: (int \<times> int) migration_step list"
  have "\<exists>row'. migrate_to_version fst 3 ?steps (1, 4) = Some row' \<and> migrates fst 3 ?steps (1, 4) row' \<and>
      (3 \<le> fst row' \<or> fst row' \<notin> fst ` set ?steps) \<and> (3 \<le> fst (1 :: int, 4 :: int) \<longrightarrow> row' = (1, 4))"
    by (rule migration_terminates) auto
  then obtain row' where row': "migrate_to_version fst 3 ?steps (1, 4) = Some row'" by blast
  have "migrates fst 3 ?steps (1, 4) (3, 41)"
    by (rule stepped [where s = "(1, \<lambda>(_, x). (2, x * 10))"], simp, simp, rule stepped [where s = "(2, \<lambda>(_, x). (3, x + 1))"], simp, simp)
      (simp add: settled)
  with row' show ?thesis using migrates_computes [of fst 3 ?steps "(1, 4)"] by simp
qed

text \<open>A step that leaves the version alone would keep the loop running for ever.\<close>

lemma stuck_migration:
  assumes "version row < target" "find (\<lambda>s. fst s = version row) steps = Some (version row, \<lambda>r. r)"
  shows "migrate_to_version version target steps row = None"
proof -
  have "migrate_to_version version target steps row = Some row' \<Longrightarrow> migrates version target steps row row'" for row'
    by (erule migrate_to_version.raw_induct [rotated])
      (auto simp: Let_def intro: settled stepped split: if_splits option.splits)
  moreover have "migrates version target steps r row' \<Longrightarrow> r \<noteq> row" for r row'
    by (induction rule: migrates.induct) (use assms in auto)
  ultimately show ?thesis by (cases "migrate_to_version version target steps row") blast+
qed

end
