(* ===== verification/Ranking.thy ===== *)
theory Ranking
  imports Corroboration Memory
begin

text \<open>
  Finding nodes: text search with suppression (\<^verbatim>\<open>search.rs\<close>, \<^verbatim>\<open>resolve.rs\<close>, \<^verbatim>\<open>search_suppressions.rs\<close>), semantic
  search over embeddings (\<^verbatim>\<open>semantic_search.rs\<close>, \<^verbatim>\<open>oag-embeddings\<close>, \<^verbatim>\<open>node_embeddings.rs\<close>) and the authority of a
  node (\<^verbatim>\<open>authority.rs\<close>, \<^verbatim>\<open>node_authority.rs\<close>).  The full-text index of SQLite is the argument \<open>fts\<close>, which ranks
  the rows of a table that match a query; the embedding provider and the square root of \<^verbatim>\<open>f32\<close> are
  arguments too.  The tables here are written by this peer alone and are no part of the log.
\<close>

section \<open>Tables\<close>

record embedding_row =
  em_node_id :: node_id
  em_provider :: string
  em_model :: string
  em_dim :: nat
  em_embedding :: "byte list"
  em_computed_at :: int

record local_tables =
  search_suppressions :: "(node_id \<times> int) list"
  node_authority :: "(node_id \<times> f32 \<times> int) list"
  node_embeddings :: "embedding_row list"

definition suppress :: "node_id \<Rightarrow> int \<Rightarrow> local_tables \<Rightarrow> local_tables" where
  "suppress i t l = (if has_key fst (search_suppressions l) i then l
     else l\<lparr>search_suppressions := search_suppressions l @ [(i, t)]\<rparr>)"

definition unsuppress :: "node_id \<Rightarrow> local_tables \<Rightarrow> local_tables" where
  "unsuppress i l = l\<lparr>search_suppressions := filter (\<lambda>r. fst r \<noteq> i) (search_suppressions l)\<rparr>"

definition is_suppressed :: "local_tables \<Rightarrow> node_id \<Rightarrow> bool" where
  "is_suppressed l i = has_key fst (search_suppressions l) i"

definition suppress_node_from_search :: "auth_context \<Rightarrow> node_id \<Rightarrow> int \<Rightarrow> local_tables \<Rightarrow> (graph_error + unit) \<times> local_tables" where
  "suppress_node_from_search auth i now l =
     (case require auth Admin of Inl e \<Rightarrow> (Inl e, l) | Inr _ \<Rightarrow> (Inr (), suppress i now l))"

definition unsuppress_node_from_search :: "auth_context \<Rightarrow> node_id \<Rightarrow> local_tables \<Rightarrow> (graph_error + unit) \<times> local_tables" where
  "unsuppress_node_from_search auth i l =
     (case require auth Admin of Inl e \<Rightarrow> (Inl e, l) | Inr _ \<Rightarrow> (Inr (), unsuppress i l))"

definition list_suppressed_nodes :: "auth_context \<Rightarrow> local_tables \<Rightarrow> graph_error + (node_id \<times> int) list" where
  "list_suppressed_nodes auth l = res_bind (require auth Admin) (\<lambda>_. Inr (search_suppressions l))"

section \<open>Text search\<close>

definition MAX_SEARCH_LIMIT :: i64 where "MAX_SEARCH_LIMIT = 1000"

definition i64_clamp :: "i64 \<Rightarrow> i64 \<Rightarrow> i64 \<Rightarrow> i64" where
  "i64_clamp lo hi x = (if sint x < sint lo then lo else if sint hi < sint x then hi else x)"

text \<open>Letters and digits are those of ASCII.\<close>

definition sanitize_fts_query :: "string \<Rightarrow> string" where
  "sanitize_fts_query raw =
     (let cleaned = map (\<lambda>c. if is_ascii_alphanumeric c \<or> is_whitespace c then c else CHR '' '') raw
      in join_with '' '' (map (\<lambda>word. [CHR 0x22] @ word @ [CHR 0x22]) (split_whitespace cleaned)))"

text \<open>\<^verbatim>\<open>LIMIT\<close>: a negative limit is no limit.\<close>

definition sql_limit :: "i64 \<Rightarrow> 'a list \<Rightarrow> 'a list" where
  "sql_limit n rows = (if sint n < 0 then rows else take (nat (sint n)) rows)"

type_synonym fts = "node list \<Rightarrow> string \<Rightarrow> node list"

definition nodes_search :: "fts \<Rightarrow> string \<Rightarrow> i64 \<Rightarrow> local_tables \<Rightarrow> graph \<Rightarrow> node list" where
  "nodes_search fts query limit l g =
     map row_to_node (sql_limit limit (filter (\<lambda>n. node_id n \<notin> fst ` set (search_suppressions l)) (fts (nodes g) query)))"

definition search :: "fts \<Rightarrow> string \<Rightarrow> i64 \<Rightarrow> local_tables \<Rightarrow> graph \<Rightarrow> node list" where
  "search fts query limit l g =
     (let sanitized = sanitize_fts_query query in
      if sanitized = [] then [] else nodes_search fts sanitized (i64_clamp 0 MAX_SEARCH_LIMIT limit) l g)"

datatype resolve_outcome = Found node f32 | Candidates "node list" | ResolveNotFound

definition resolve ::
  "('sk, 'vk, 'u, 'z) service_scheme \<Rightarrow> fts \<Rightarrow> string \<Rightarrow> local_tables \<Rightarrow> graph \<Rightarrow> resolve_outcome" where
  "resolve C fts value l g =
     (let (identifier, kind) = canonicalize_value C value in
      case get_by_canonical_identifier g identifier of
        Some node \<Rightarrow> Found node 1
      | None \<Rightarrow>
          let sanitized = sanitize_fts_query value in
          if sanitized = [] then ResolveNotFound
          else let candidates = nodes_search fts sanitized 10 l g in
               if candidates = [] then ResolveNotFound else Candidates candidates)"

section \<open>Semantic search\<close>

definition MAX_SEMANTIC_SEARCH_LIMIT :: i64 where "MAX_SEMANTIC_SEARCH_LIMIT = 1000"

record embedding_provider =
  embed :: "string \<Rightarrow> embedding_error + f32 list"
  provider_name :: string
  model_name :: string

definition DisabledProvider :: embedding_provider where
  "DisabledProvider = \<lparr>embed = \<lambda>_. Inl EmbeddingDisabled, provider_name = ''disabled'', model_name = []\<rparr>"

definition cosine_similarity :: "(f32 \<Rightarrow> f32) \<Rightarrow> (f32 \<Rightarrow> f32) \<Rightarrow> f32 list \<Rightarrow> f32 list \<Rightarrow> f32" where
  "cosine_similarity rnd sqrt32 a b =
     (if length a \<noteq> length b \<or> a = [] then 0
      else let dot = f32_sum rnd (map (\<lambda>(x, y). rnd (x * y)) (zip a b));
               norm_a = sqrt32 (f32_sum rnd (map (\<lambda>x. rnd (x * x)) a));
               norm_b = sqrt32 (f32_sum rnd (map (\<lambda>x. rnd (x * x)) b))
           in if norm_a = 0 \<or> norm_b = 0 then 0 else rnd (dot / rnd (norm_a * norm_b)))"

definition rank :: "(f32 \<Rightarrow> f32) \<Rightarrow> (f32 \<Rightarrow> f32) \<Rightarrow> f32 list \<Rightarrow> ('a \<times> f32 list) list \<Rightarrow> nat \<Rightarrow> ('a \<times> f32) list" where
  "rank rnd sqrt32 query candidates limit =
     take limit (sort_key (\<lambda>r. - snd r) (map (\<lambda>(key, vector). (key, cosine_similarity rnd sqrt32 query vector)) candidates))"

definition embeddable_text :: "node \<Rightarrow> string" where
  "embeddable_text n =
     join_with '' '' (node_canonical_identifier n # List.map_filter id [node_name n, node_description n])"

definition encode_embedding :: "f32_format \<Rightarrow> f32 list \<Rightarrow> byte list" where
  "encode_embedding B vector = concat (map (\<lambda>value. to_le_bytes (to_bits B value)) vector)"

definition decode_embedding :: "f32_format \<Rightarrow> byte list \<Rightarrow> f32 list" where
  "decode_embedding B bytes = map (\<lambda>chunk. from_bits B (from_le_bytes chunk)) (as_chunks bytes)"

definition embeddings_upsert ::
  "f32_format \<Rightarrow> node_id \<Rightarrow> string \<Rightarrow> string \<Rightarrow> f32 list \<Rightarrow> int \<Rightarrow> local_tables \<Rightarrow> local_tables" where
  "embeddings_upsert B i provider model embedding computed_at l =
     (let row = \<lparr>em_node_id = i, em_provider = provider, em_model = model, em_dim = length embedding,
                 em_embedding = encode_embedding B embedding, em_computed_at = computed_at\<rparr>
      in if has_key em_node_id (node_embeddings l) i
         then l\<lparr>node_embeddings := update_where (\<lambda>r. em_node_id r = i) (\<lambda>_. row) (node_embeddings l)\<rparr>
         else l\<lparr>node_embeddings := node_embeddings l @ [row]\<rparr>)"

definition embeddings_get :: "f32_format \<Rightarrow> node_id \<Rightarrow> local_tables \<Rightarrow> f32 list option" where
  "embeddings_get B i l = map_option (\<lambda>r. decode_embedding B (em_embedding r)) (lookup_by em_node_id (node_embeddings l) i)"

definition embeddings_list_all :: "f32_format \<Rightarrow> local_tables \<Rightarrow> (node_id \<times> f32 list) list" where
  "embeddings_list_all B l = map (\<lambda>r. (em_node_id r, decode_embedding B (em_embedding r))) (node_embeddings l)"

definition embeddings_clear_all :: "local_tables \<Rightarrow> local_tables" where
  "embeddings_clear_all l = l\<lparr>node_embeddings := []\<rparr>"

record embedding_summary =
  nodes_embedded :: nat
  nodes_skipped :: nat

fun embed_nodes ::
  "f32_format \<Rightarrow> embedding_provider \<Rightarrow> int \<Rightarrow> node list \<Rightarrow> nat \<times> nat \<Rightarrow> local_tables \<Rightarrow> (graph_error + embedding_summary) \<times> local_tables" where
  "embed_nodes B provider now [] (embedded, skipped) l = (Inr \<lparr>nodes_embedded = embedded, nodes_skipped = skipped\<rparr>, l)"
| "embed_nodes B provider now (n # ns) (embedded, skipped) l =
     (let text = embeddable_text n in
      if trim text = [] then embed_nodes B provider now ns (embedded, skipped + 1) l
      else case embed provider text of
             Inl e \<Rightarrow> (Inl (GEmbedding e), l)
           | Inr embedding \<Rightarrow>
               embed_nodes B provider now ns (embedded + 1, skipped)
                 (embeddings_upsert B (node_id n) (provider_name provider) (model_name provider) embedding now l))"

definition recompute_embeddings ::
  "f32_format \<Rightarrow> embedding_provider \<Rightarrow> int \<Rightarrow> graph \<Rightarrow> local_tables \<Rightarrow> (graph_error + embedding_summary) \<times> local_tables" where
  "recompute_embeddings B provider now g l = embed_nodes B provider now (nodes_list_all g) (0, 0) (embeddings_clear_all l)"

definition semantic_search ::
  "(f32 \<Rightarrow> f32) \<Rightarrow> (f32 \<Rightarrow> f32) \<Rightarrow> f32_format \<Rightarrow> embedding_provider \<Rightarrow> string \<Rightarrow> i64 \<Rightarrow> local_tables \<Rightarrow> graph
     \<Rightarrow> graph_error + (node \<times> f32) list" where
  "semantic_search rnd sqrt32 B provider query limit l g =
     res_bind (res_map_err GEmbedding (embed provider query)) (\<lambda>query_embedding.
       let candidates = embeddings_list_all B l;
           ranked = rank rnd sqrt32 query_embedding candidates (nat (sint (i64_clamp 0 MAX_SEMANTIC_SEARCH_LIMIT limit)))
       in Inr (List.map_filter (\<lambda>(i, score). map_option (\<lambda>n. (n, score)) (select_node g i)) ranked))"

section \<open>Authority\<close>

definition DAMPING :: "(f32 \<Rightarrow> f32) \<Rightarrow> f32" where "DAMPING rnd = rnd (85 / 100)"
definition MAX_ITERATIONS :: nat where "MAX_ITERATIONS = 50"
definition CONVERGENCE_EPSILON :: "(f32 \<Rightarrow> f32) \<Rightarrow> f32" where "CONVERGENCE_EPSILON rnd = rnd (1 / 10 ^ 6)"

text \<open>The nodes, as a \<^verbatim>\<open>BTreeSet\<close> iterates over them, and the outgoing edges of each source.\<close>

definition rank_nodes :: "(node_id \<times> node_id) list \<Rightarrow> node_id list" where
  "rank_nodes es = map NodeId (sort (remdups (concat (map (\<lambda>(s, t). [node_hash s, node_hash t]) es))))"

definition push_target :: "node_id \<times> node_id \<Rightarrow> (node_id \<times> node_id list) list \<Rightarrow> (node_id \<times> node_id list) list" where
  "push_target = (\<lambda>(s, t) m. update_where (\<lambda>e. fst e = s) (\<lambda>e. (fst e, snd e @ [t])) (or_insert s [] m))"

definition out_edges :: "(node_id \<times> node_id) list \<Rightarrow> (node_id \<times> node_id list) list" where
  "out_edges es = fold push_target es []"

fun spread :: "(f32 \<Rightarrow> f32) \<Rightarrow> (node_id \<Rightarrow> f32) \<Rightarrow> (node_id \<times> node_id list) list \<Rightarrow> (node_id \<Rightarrow> f32) \<Rightarrow> node_id \<Rightarrow> f32" where
  "spread rnd scores [] new_scores = new_scores"
| "spread rnd scores ((source, targets) # rest) new_scores =
     (if targets = [] then spread rnd scores rest new_scores
      else let share = rnd (rnd (DAMPING rnd * scores source) / rnd (of_nat (length targets)))
           in spread rnd scores rest (fold (\<lambda>target new. new(target := rnd (new target + share))) targets new_scores))"

definition is_dangling :: "(node_id \<times> node_id list) list \<Rightarrow> node_id \<Rightarrow> bool" where
  "is_dangling out i = (case map_of out i of Some targets \<Rightarrow> targets = [] | None \<Rightarrow> True)"

definition iterate ::
  "(f32 \<Rightarrow> f32) \<Rightarrow> node_id list \<Rightarrow> (node_id \<times> node_id list) list \<Rightarrow> (node_id \<Rightarrow> f32) \<Rightarrow> node_id \<Rightarrow> f32" where
  "iterate rnd ns out scores =
     (let n = of_nat (length ns);
          dangling_mass = f32_sum rnd (map scores (filter (is_dangling out) ns));
          base = rnd (rnd (rnd (1 - DAMPING rnd) / rnd n) + rnd (rnd (DAMPING rnd * dangling_mass) / rnd n))
      in spread rnd scores out (\<lambda>_. base))"

text \<open>At most \<open>k\<close> more iterations; the number that were run.\<close>

fun power_iterations ::
  "(f32 \<Rightarrow> f32) \<Rightarrow> node_id list \<Rightarrow> (node_id \<times> node_id list) list \<Rightarrow> nat \<Rightarrow> nat \<Rightarrow> (node_id \<Rightarrow> f32) \<Rightarrow> (node_id \<Rightarrow> f32) \<times> nat" where
  "power_iterations rnd ns out 0 iterations_run scores = (scores, iterations_run)"
| "power_iterations rnd ns out (Suc k) iterations_run scores =
     (let new_scores = iterate rnd ns out scores;
          diff = f32_sum rnd (map (\<lambda>i. \<bar>rnd (new_scores i - scores i)\<bar>) ns)
      in if diff < CONVERGENCE_EPSILON rnd then (new_scores, iterations_run + 1)
         else power_iterations rnd ns out k (iterations_run + 1) new_scores)"

definition pagerank ::
  "(f32 \<Rightarrow> f32) \<Rightarrow> ((node_id \<times> node_id list) list \<Rightarrow> (node_id \<times> node_id list) list) \<Rightarrow> (node_id \<times> node_id) list
     \<Rightarrow> (node_id \<times> f32) list \<times> nat" where
  "pagerank rnd drain es =
     (let ns = rank_nodes es; n = length ns in
      if n = 0 then ([], 0)
      else let (scores, iterations_run) =
                 power_iterations rnd ns (drain (out_edges es)) MAX_ITERATIONS 0 (\<lambda>_. rnd (1 / rnd (of_nat n)))
           in (map (\<lambda>i. (i, scores i)) ns, iterations_run))"

definition authority_upsert :: "int \<Rightarrow> node_id \<times> f32 \<Rightarrow> local_tables \<Rightarrow> local_tables" where
  "authority_upsert computed_at = (\<lambda>(i, score) l.
     if has_key fst (node_authority l) i
     then l\<lparr>node_authority := update_where (\<lambda>r. fst r = i) (\<lambda>_. (i, score, computed_at)) (node_authority l)\<rparr>
     else l\<lparr>node_authority := node_authority l @ [(i, score, computed_at)]\<rparr>)"

record authority_summary =
  nodes_scored :: nat
  edges_considered :: nat
  iterations :: nat

definition recompute_authority ::
  "(f32 \<Rightarrow> f32) \<Rightarrow> ((node_id \<times> node_id list) list \<Rightarrow> (node_id \<times> node_id list) list)
     \<Rightarrow> ((node_id \<times> f32) list \<Rightarrow> (node_id \<times> f32) list) \<Rightarrow> int \<Rightarrow> graph \<Rightarrow> local_tables \<Rightarrow> authority_summary \<times> local_tables" where
  "recompute_authority rnd drain drain_scores now g l =
     (let all_edges = edges_list_all g;
          (scores, its) = pagerank rnd drain (map (\<lambda>e. (edge_subject e, edge_object e)) all_edges)
      in (\<lparr>nodes_scored = length scores, edges_considered = length all_edges, iterations = its\<rparr>,
          fold (authority_upsert now) (drain_scores scores) (l\<lparr>node_authority := []\<rparr>)))"

definition get_node_authority :: "local_tables \<Rightarrow> node_id \<Rightarrow> f32 option" where
  "get_node_authority l i = map_option (fst \<circ> snd) (lookup_by fst (node_authority l) i)"

section \<open>Authority is a distribution\<close>

lemma set_rank_nodes: "set (rank_nodes es) = fst ` set es \<union> snd ` set es"
proof -
  have "set (rank_nodes es) = NodeId ` node_hash ` (fst ` set es \<union> snd ` set es)"
    by (auto simp: rank_nodes_def case_prod_beta image_iff)
  also have "\<dots> = fst ` set es \<union> snd ` set es" by (simp add: image_image)
  finally show ?thesis .
qed

lemma distinct_rank_nodes: "distinct (rank_nodes es)"
  by (simp add: rank_nodes_def distinct_map inj_on_def)

text \<open>Every source has its targets, and no list of targets is empty.\<close>

definition out_ok :: "node_id set \<Rightarrow> (node_id \<times> node_id list) list \<Rightarrow> bool" where
  "out_ok N out \<longleftrightarrow> distinct (map fst out) \<and> (\<forall>(s, ts)\<in>set out. s \<in> N \<and> ts \<noteq> [] \<and> set ts \<subseteq> N)"

lemma out_ok_push:
  assumes "out_ok N m" "s \<in> N" "t \<in> N"
  shows "out_ok N (push_target (s, t) m)"
proof -
  have keys: "map fst (push_target (s, t) m) = map fst (or_insert s [] m)"
    by (simp add: push_target_def update_where_def)
  have "ts \<noteq> [] \<and> set ts \<subseteq> N \<and> x \<in> N" if "(x, ts) \<in> set (push_target (s, t) m)" for x ts
    using that assms by (fastforce simp: push_target_def update_where_def or_insert_def has_key_def out_ok_def split: if_splits)
  moreover have "distinct (map fst (or_insert s [] m))" using assms(1) by (intro or_insert_keys(2)) (simp add: out_ok_def)
  ultimately show ?thesis by (auto simp: out_ok_def keys)
qed

lemma out_edges_ok: "out_ok (set (rank_nodes es)) (out_edges es)"
proof -
  have "out_ok N (fold push_target es m)" if "out_ok N m" "fst ` set es \<union> snd ` set es \<subseteq> N" for N m
    using that
  proof (induction es arbitrary: m)
    case (Cons e es)
    then have "out_ok N (push_target e m)" using out_ok_push [of N m "fst e" "snd e"] by simp
    with Cons show ?case by simp
  qed simp
  then show ?thesis by (simp add: out_edges_def set_rank_nodes out_ok_def [of _ "[]"])
qed

lemma out_ok_drain: "out_ok N out \<Longrightarrow> permutes_entries drain \<Longrightarrow> out_ok N (drain out)"
  using permutes_entriesD(1) [of drain out] permutes_entriesD(3) [of drain fst out] by (simp add: out_ok_def)

lemma sum_fold_targets:
  assumes "finite N" "set ts \<subseteq> N"
  shows "(\<Sum>i\<in>N. fold (\<lambda>t new. new(t := new t + share)) ts f i) = (\<Sum>i\<in>N. f i) + of_nat (length ts) * (share :: rat)"
  using assms(2)
proof (induction ts arbitrary: f)
  case (Cons t ts)
  have "(\<Sum>i\<in>N. (f(t := f t + share)) i) = (\<Sum>i\<in>N. f i) + share"
    using assms(1) Cons.prems by (simp add: sum.remove [of N t])
  with Cons show ?case by (simp add: algebra_simps)
qed simp

lemma sum_spread:
  assumes "finite N" "\<forall>(s, ts)\<in>set out. ts \<noteq> [] \<and> set ts \<subseteq> N"
  shows "(\<Sum>i\<in>N. spread (\<lambda>x. x) scores out f i) = (\<Sum>i\<in>N. f i) + (\<Sum>x\<leftarrow>out. DAMPING (\<lambda>x. x) * scores (fst x))"
  using assms(2)
proof (induction out arbitrary: f)
  case (Cons x out)
  obtain s ts where x: "x = (s, ts)" by fastforce
  let ?f = "fold (\<lambda>t new. new(t := new t + DAMPING (\<lambda>x. x) * scores s / of_nat (length ts))) ts f"
  have "(\<Sum>i\<in>N. ?f i) = (\<Sum>i\<in>N. f i) + DAMPING (\<lambda>x. x) * scores s"
    using sum_fold_targets [OF assms(1), of ts "DAMPING (\<lambda>x. x) * scores s / of_nat (length ts)" f] Cons.prems x by simp
  moreover have "(\<Sum>i\<in>N. spread (\<lambda>x. x) scores out ?f i) = (\<Sum>i\<in>N. ?f i) + (\<Sum>x\<leftarrow>out. DAMPING (\<lambda>x. x) * scores (fst x))"
    using Cons.prems by (intro Cons.IH) simp
  ultimately show ?case using Cons.prems by (simp add: x)
qed simp

lemma fold_targets_ge: "0 \<le> share \<Longrightarrow> (f i :: rat) \<le> fold (\<lambda>t new. new(t := new t + share)) ts f i"
proof (induction ts arbitrary: f)
  case (Cons t ts)
  have "f i \<le> (f(t := f t + share)) i" using Cons.prems by simp
  also have "\<dots> \<le> fold (\<lambda>t new. new(t := new t + share)) ts (f(t := f t + share)) i" by (rule Cons.IH [OF Cons.prems])
  finally show ?case by (simp only: fold.simps o_apply)
qed simp

lemma spread_ge: "(\<And>i. 0 \<le> scores i) \<Longrightarrow> f i \<le> spread (\<lambda>x. x) scores out f i"
proof (induction out arbitrary: f)
  case (Cons x out)
  obtain s ts where x: "x = (s, ts)" by fastforce
  let ?share = "DAMPING (\<lambda>x. x) * scores s / of_nat (length ts)"
  have "0 \<le> ?share" using Cons.prems by (simp add: DAMPING_def)
  then have "f i \<le> fold (\<lambda>t new. new(t := new t + ?share)) ts f i" by (rule fold_targets_ge)
  also have "\<dots> \<le> spread (\<lambda>x. x) scores out (fold (\<lambda>t new. new(t := new t + ?share)) ts f) i" by (rule Cons.IH [OF Cons.prems])
  finally show ?case using Cons.IH [OF Cons.prems, of f] by (simp add: x)
qed simp

lemma f32_sum_id: "f32_sum (\<lambda>x. x) xs = sum_list xs"
proof -
  have "fold (\<lambda>x acc. acc + x) xs a = a + sum_list xs" for a :: rat by (induction xs arbitrary: a) simp_all
  then show ?thesis by (simp add: f32_sum_def)
qed

lemma dangling_split:
  assumes "out_ok (set ns) out" "distinct ns"
  shows "sum_list (map scores (filter (is_dangling out) ns)) + (\<Sum>x\<leftarrow>out. scores (fst x)) = (\<Sum>i\<in>set ns. scores i :: rat)"
proof -
  let ?K = "fst ` set out"
  have "is_dangling out i \<longleftrightarrow> i \<notin> ?K" for i
  proof (cases "map_of out i")
    case (Some ts)
    then have "(i, ts) \<in> set out" by (rule map_of_SomeD)
    with assms(1) Some show ?thesis by (force simp: is_dangling_def out_ok_def)
  next
    case None
    then have "i \<notin> ?K" by (simp only: map_of_eq_None_iff simp_thms)
    with None show ?thesis by (simp add: is_dangling_def)
  qed
  then have "sum_list (map scores (filter (is_dangling out) ns)) = (\<Sum>i\<in>set ns - ?K. scores i)"
    using assms(2) sum_list_distinct_conv_sum_set [of "filter (\<lambda>i. i \<notin> ?K) ns" scores]
    by (simp add: set_diff_eq cong: filter_cong)
  moreover have "(\<Sum>x\<leftarrow>out. scores (fst x)) = (\<Sum>i\<in>?K. scores i)"
    using assms(1) sum_list_distinct_conv_sum_set [of "map fst out" scores] by (simp add: out_ok_def comp_def)
  moreover have "?K \<subseteq> set ns" using assms(1) by (auto simp: out_ok_def)
  then have "(\<Sum>i\<in>set ns. scores i) = (\<Sum>i\<in>set ns - ?K. scores i) + (\<Sum>i\<in>?K. scores i)"
    by (rule sum.subset_diff) simp
  ultimately show ?thesis by simp
qed
text \<open>One step of the power iteration, in exact arithmetic, keeps a distribution a distribution: what the sinks
  hold is shared by all, what the others hold goes along their edges.\<close>

lemma iterate_distribution:
  assumes out: "out_ok (set ns) out" and ns: "distinct ns" "ns \<noteq> []"
    and scores: "(\<Sum>i\<in>set ns. scores i) = 1" "\<And>i. 0 \<le> scores i"
  shows "(\<Sum>i\<in>set ns. iterate (\<lambda>x. x) ns out scores i) = 1"
    and "3 / 20 / of_nat (length ns) \<le> iterate (\<lambda>x. x) ns out scores i"
proof -
  let ?n = "of_nat (length ns) :: rat"
  define mass where "mass = sum_list (map scores (filter (is_dangling out) ns))"
  define base where "base = 3 / 20 / ?n + 17 / 20 * mass / ?n"
  have n: "0 < ?n" using ns by simp
  have it: "iterate (\<lambda>x. x) ns out scores = spread (\<lambda>x. x) scores out (\<lambda>_. base)"
    by (simp add: iterate_def f32_sum_id base_def mass_def DAMPING_def Let_def)
  have out': "\<forall>(s, ts)\<in>set out. ts \<noteq> [] \<and> set ts \<subseteq> set ns" using out by (auto simp: out_ok_def)
  have mass: "mass + (\<Sum>x\<leftarrow>out. scores (fst x)) = 1" using dangling_split [OF out ns(1), of scores] scores(1) by (simp add: mass_def)
  have "(\<Sum>x\<leftarrow>out. DAMPING (\<lambda>x. x) * scores (fst x)) = 17 / 20 * (\<Sum>x\<leftarrow>out. scores (fst x))"
    by (simp add: DAMPING_def sum_list_const_mult [symmetric])
  moreover have "(\<Sum>i\<in>set ns. base) = 3 / 20 + 17 / 20 * mass"
    using n ns(1) by (simp add: distinct_card base_def field_simps)
  ultimately have "(\<Sum>i\<in>set ns. iterate (\<lambda>x. x) ns out scores i) = 3 / 20 + 17 / 20 * (mass + (\<Sum>x\<leftarrow>out. scores (fst x)))"
    using sum_spread [OF _ out', of scores "\<lambda>_. base"] by (simp add: it algebra_simps)
  then show "(\<Sum>i\<in>set ns. iterate (\<lambda>x. x) ns out scores i) = 1" by (simp add: mass)
  have "0 \<le> mass" unfolding mass_def using scores(2) by (intro sum_list_nonneg) auto
  then have "3 / 20 / ?n \<le> base" using n by (simp add: base_def)
  also have "base \<le> iterate (\<lambda>x. x) ns out scores i" unfolding it by (rule spread_ge) (rule scores(2))
  finally show "3 / 20 / ?n \<le> iterate (\<lambda>x. x) ns out scores i" .
qed

lemma power_iterations_distribution:
  assumes "out_ok (set ns) out" "distinct ns" "ns \<noteq> []"
    and "(\<Sum>i\<in>set ns. scores i) = 1" "\<And>i. 3 / 20 / of_nat (length ns) \<le> scores i"
    and "power_iterations (\<lambda>x. x) ns out k r scores = (scores', r')"
  shows "(\<Sum>i\<in>set ns. scores' i) = 1 \<and> (\<forall>i. 3 / 20 / of_nat (length ns) \<le> scores' i) \<and> r' \<le> r + k \<and> (0 < k \<longrightarrow> r < r')"
  using assms(4-6)
proof (induction k arbitrary: scores r)
  case (Suc k)
  let ?new = "iterate (\<lambda>x. x) ns out scores"
  have nonneg: "0 \<le> scores i" for i by (rule order_trans [OF _ Suc.prems(2)]) simp
  note new = iterate_distribution [OF assms(1-3) Suc.prems(1) nonneg]
  show ?case
  proof (cases "f32_sum (\<lambda>x. x) (map (\<lambda>i. \<bar>?new i - scores i\<bar>) ns) < CONVERGENCE_EPSILON (\<lambda>x. x)")
    case True
    then show ?thesis using Suc.prems(3) new by (auto simp: Let_def)
  next
    case False
    then have "power_iterations (\<lambda>x. x) ns out k (r + 1) ?new = (scores', r')" using Suc.prems(3) by (simp add: Let_def)
    then have step: "(\<Sum>i\<in>set ns. scores' i) = 1 \<and> (\<forall>i. 3 / 20 / of_nat (length ns) \<le> scores' i)
        \<and> r' \<le> r + 1 + k \<and> (0 < k \<longrightarrow> r + 1 < r')"
      by (rule Suc.IH [OF new])
    show ?thesis
    proof (cases k)
      case 0
      with \<open>power_iterations (\<lambda>x. x) ns out k (r + 1) ?new = (scores', r')\<close> step show ?thesis by auto
    qed (use step in auto)
  qed
qed simp

lemma pagerank_distribution:
  assumes "permutes_entries drain" "es \<noteq> []" "pagerank (\<lambda>x. x) drain es = (scores, its)"
  shows "map fst scores = rank_nodes es" "sum_list (map snd scores) = 1"
    "\<forall>(i, s)\<in>set scores. 3 / 20 / of_nat (length (rank_nodes es)) \<le> s" "1 \<le> its" "its \<le> MAX_ITERATIONS"
proof -
  let ?ns = "rank_nodes es"
  have ns: "?ns \<noteq> []" using assms(2) set_rank_nodes [of es] by (cases es) auto
  obtain sc where sc: "power_iterations (\<lambda>x. x) ?ns (drain (out_edges es)) MAX_ITERATIONS 0 (\<lambda>_. 1 / of_nat (length ?ns)) = (sc, its)"
    and scores: "scores = map (\<lambda>i. (i, sc i)) ?ns"
    using assms(3) ns by (auto simp: pagerank_def Let_def split: prod.splits)
  have start: "(\<Sum>i\<in>set ?ns. 1 / of_nat (length ?ns) :: rat) = 1"
    using ns by (simp add: distinct_card distinct_rank_nodes)
  have low: "3 / 20 / of_nat (length ?ns) \<le> (1 / of_nat (length ?ns) :: rat)" by (rule divide_right_mono) simp_all
  from power_iterations_distribution [OF out_ok_drain [OF out_edges_ok assms(1)] distinct_rank_nodes ns start low sc]
  have dist: "(\<Sum>i\<in>set ?ns. sc i) = 1" "\<forall>i. 3 / 20 / of_nat (length ?ns) \<le> sc i" and its: "its \<le> MAX_ITERATIONS" "1 \<le> its"
    by (simp_all add: MAX_ITERATIONS_def)
  show "map fst scores = ?ns" by (simp add: scores comp_def)
  show "sum_list (map snd scores) = 1"
    using dist(1) by (simp add: scores comp_def sum_list_distinct_conv_sum_set distinct_rank_nodes)
  show "\<forall>(i, s)\<in>set scores. 3 / 20 / of_nat (length ?ns) \<le> s" using dist(2) by (simp add: scores)
  show "1 \<le> its" "its \<le> MAX_ITERATIONS" by (fact its)+
qed

lemma fold_authority_upsert:
  assumes "distinct (map fst xs)" "fst ` set xs \<inter> fst ` set (node_authority l) = {}"
  shows "fold (authority_upsert now) xs l = l\<lparr>node_authority := node_authority l @ map (\<lambda>(i, s). (i, s, now)) xs\<rparr>"
  using assms
proof (induction xs arbitrary: l)
  case (Cons x xs)
  obtain i s where x: "x = (i, s)" by fastforce
  have "authority_upsert now x l = l\<lparr>node_authority := node_authority l @ [(i, s, now)]\<rparr>"
    using Cons.prems(2) by (auto simp: x authority_upsert_def has_key_def)
  with Cons.IH [of "l\<lparr>node_authority := node_authority l @ [(i, s, now)]\<rparr>"] Cons.prems show ?case by (auto simp: x)
qed simp

lemma get_node_authority_list:
  assumes "distinct (map fst xs)"
  shows "get_node_authority (l\<lparr>node_authority := map (\<lambda>(i, s). (i, s, now)) xs\<rparr>) i = Some s \<longleftrightarrow> (i, s) \<in> set xs"
proof -
  have "get_node_authority (l\<lparr>node_authority := map (\<lambda>(i, s). (i, s, now)) xs\<rparr>) i = map_of xs i"
    by (induction xs) (auto simp: get_node_authority_def lookup_by_def)
  with assms show ?thesis by simp
qed

text \<open>Reading the table after a recomputation gives exactly the scores of \<^const>\<open>pagerank\<close>.\<close>

lemma recomputed_scores:
  assumes "permutes_entries drain_scores" "distinct (map fst scores)"
    and "pagerank rnd drain (map (\<lambda>e. (edge_subject e, edge_object e)) (edges_list_all g)) = (scores, its)"
  shows "get_node_authority (snd (recompute_authority rnd drain drain_scores now g l)) i = Some s \<longleftrightarrow> (i, s) \<in> set scores"
    and "fst (recompute_authority rnd drain drain_scores now g l)
      = \<lparr>nodes_scored = length scores, edges_considered = length (edges g), iterations = its\<rparr>"
proof -
  have d: "distinct (map fst (drain_scores scores))" "set (drain_scores scores) = set scores"
    using assms(1,2) by (simp_all add: permutes_entriesD)
  have tables: "snd (recompute_authority rnd drain drain_scores now g l)
      = l\<lparr>node_authority := map (\<lambda>(i, s). (i, s, now)) (drain_scores scores)\<rparr>"
    using assms(3) fold_authority_upsert [OF d(1), of "l\<lparr>node_authority := []\<rparr>" now] by (simp add: recompute_authority_def)
  show "get_node_authority (snd (recompute_authority rnd drain drain_scores now g l)) i = Some s \<longleftrightarrow> (i, s) \<in> set scores"
    unfolding tables using get_node_authority_list [OF d(1)] d(2) by simp
qed (use assms(3) in \<open>simp add: recompute_authority_def edges_list_all_def\<close>)

definition endpoints :: "graph \<Rightarrow> node_id set" where
  "endpoints g = edge_subject ` set (edges g) \<union> edge_object ` set (edges g)"

text \<open>
  C29. In exact arithmetic a recomputation of authority gives a score to exactly the nodes that some edge
  touches, whatever the order of the hash maps; the scores are a probability distribution over them, none below the share
  of the random jump, and the iteration stops within its cap.  Without an edge nothing is scored.
\<close>

theorem authority_is_a_distribution:
  assumes "permutes_entries drain" "permutes_entries drain_scores"
  shows "case recompute_authority (\<lambda>x. x) drain drain_scores now g l of (summary, l') \<Rightarrow>
      (\<forall>i. get_node_authority l' i \<noteq> None \<longleftrightarrow> i \<in> endpoints g) \<and>
      nodes_scored summary = card (endpoints g) \<and> edges_considered summary = length (edges g) \<and>
      (if edges g = [] then iterations summary = 0
       else (\<Sum>i\<in>endpoints g. the (get_node_authority l' i)) = 1 \<and>
            (\<forall>i\<in>endpoints g. 3 / 20 / of_nat (card (endpoints g)) \<le> the (get_node_authority l' i)) \<and>
            1 \<le> iterations summary \<and> iterations summary \<le> 50)"
proof -
  let ?es = "map (\<lambda>e. (edge_subject e, edge_object e)) (edges_list_all g)"
  obtain scores its where pr: "pagerank (\<lambda>x. x) drain ?es = (scores, its)" by fastforce
  obtain summary l' where rec: "recompute_authority (\<lambda>x. x) drain drain_scores now g l = (summary, l')" by fastforce
  have ends: "set (rank_nodes ?es) = endpoints g"
    by (auto simp: set_rank_nodes endpoints_def edges_list_all_def image_image)
  have keys: "map fst scores = rank_nodes ?es"
    using pr pagerank_distribution(1) [OF assms(1) _ pr] by (cases "?es = []") (auto simp: pagerank_def rank_nodes_def)
  then have dist: "distinct (map fst scores)" by (simp add: distinct_rank_nodes)
  have get: "get_node_authority l' i = Some s \<longleftrightarrow> (i, s) \<in> set scores" for i s
    using recomputed_scores(1) [OF assms(2) dist pr, of now l] rec by simp
  have sum: "summary = \<lparr>nodes_scored = length scores, edges_considered = length (edges g), iterations = its\<rparr>"
    using recomputed_scores(2) [OF assms(2) dist pr, of now l] rec by simp
  have fsts: "fst ` set scores = endpoints g" using keys ends by (metis list.set_map)
  have card: "length scores = card (endpoints g)" using dist fsts distinct_card by fastforce
  have sum_get: "(\<Sum>i\<in>endpoints g. the (get_node_authority l' i)) = sum_list (map snd scores)"
  proof -
    have "(\<Sum>i\<in>endpoints g. the (get_node_authority l' i)) = sum_list (map (\<lambda>i. the (get_node_authority l' i)) (map fst scores))"
      using dist fsts sum_list_distinct_conv_sum_set [of "map fst scores" "\<lambda>i. the (get_node_authority l' i)"] by simp
    also have "map (\<lambda>i. the (get_node_authority l' i)) (map fst scores) = map snd scores"
      using get by (force simp: comp_def)
    finally show ?thesis .
  qed
  have all: "get_node_authority l' i \<noteq> None \<longleftrightarrow> i \<in> endpoints g" for i
    using get [of i] fsts by force
  show ?thesis
  proof (cases "edges g = []")
    case True
    with pr have "its = 0" by (simp add: edges_list_all_def pagerank_def rank_nodes_def)
    with True all show ?thesis by (simp add: rec sum card)
  next
    case False
    then have "?es \<noteq> []" by (simp add: edges_list_all_def)
    note pd = pagerank_distribution [OF assms(1) this pr]
    have "3 / 20 / of_nat (card (endpoints g)) \<le> the (get_node_authority l' i)" if "i \<in> endpoints g" for i
    proof -
      from that all obtain s where "get_node_authority l' i = Some s" by blast
      with get pd(3) have "3 / 20 / of_nat (length (rank_nodes ?es)) \<le> s" by blast
      with \<open>get_node_authority l' i = Some s\<close> keys card show ?thesis by (metis length_map option.sel)
    qed
    with False pd all show ?thesis by (simp add: rec sum card sum_get MAX_ITERATIONS_def)
  qed
qed

theorem authority_is_a_distribution_witness:
  "case recompute_authority (\<lambda>x. x) id rev 7 road_graph \<lparr>search_suppressions = [], node_authority = [], node_embeddings = []\<rparr> of
     (summary, l') \<Rightarrow>
       nodes_scored summary = 3 \<and> edges_considered summary = 2 \<and> iterations summary \<le> 50 \<and>
       (\<Sum>i\<in>node_id ` set (nodes road_graph). the (get_node_authority l' i)) = 1"
proof -
  have ends: "endpoints road_graph = node_id ` set (nodes road_graph)" "card (endpoints road_graph) = 3"
    by (simp_all add: endpoints_def road_graph_def empty_graph_def road_simps(1,4,5) insert_commute)
  have "permutes_entries rev" by (simp add: permutes_entries_def)
  from authority_is_a_distribution [OF permutes_id this, where now = 7 and g = road_graph and l =
      "\<lparr>search_suppressions = [], node_authority = [], node_embeddings = []\<rparr>"] ends
  show ?thesis by (simp add: road_graph_def empty_graph_def split: prod.splits)
qed

section \<open>Text search\<close>

text \<open>What is relied on of the full-text index: a query gives rows of the table, each once.\<close>

definition fts_ranks :: "fts \<Rightarrow> bool" where
  "fts_ranks fts \<longleftrightarrow> (\<forall>rows q. set (fts rows q) \<subseteq> set rows \<and> (distinct (map node_id rows) \<longrightarrow> distinct (map node_id (fts rows q))))"

text \<open>A query with no syntax: quoted words of letters and digits.\<close>

definition plain_query :: "string \<Rightarrow> bool" where
  "plain_query q \<longleftrightarrow> (\<exists>words. q = join_with '' '' (map (\<lambda>w. [CHR 0x22] @ w @ [CHR 0x22]) words) \<and>
     (\<forall>w\<in>set words. w \<noteq> [] \<and> list_all is_ascii_alphanumeric w))"

lemma split_whitespace_aux_words:
  assumes "\<forall>c\<in>set acc \<union> set s. P c \<or> is_whitespace c" "\<forall>c\<in>set acc. P c"
  shows "\<forall>w\<in>set (split_whitespace_aux acc s). w \<noteq> [] \<and> list_all P w"
  using assms by (induction acc s rule: split_whitespace_aux.induct) (auto simp: list_all_iff)

lemma sanitize_plain: "plain_query (sanitize_fts_query raw)"
proof -
  let ?cleaned = "map (\<lambda>c. if is_ascii_alphanumeric c \<or> is_whitespace c then c else CHR '' '') raw"
  have "is_whitespace CHR '' ''" by (simp add: is_whitespace_def)
  then have "\<forall>c\<in>set [] \<union> set ?cleaned. is_ascii_alphanumeric c \<or> is_whitespace c" by (auto split: if_splits)
  from split_whitespace_aux_words [OF this]
  have "\<forall>w\<in>set (split_whitespace ?cleaned). w \<noteq> [] \<and> list_all is_ascii_alphanumeric w"
    by (simp only: split_whitespace_def list.set ball_empty True_implies_equals)
  then show ?thesis unfolding plain_query_def sanitize_fts_query_def Let_def by blast
qed

lemma sql_limit_clamp: "sql_limit (i64_clamp 0 MAX_SEARCH_LIMIT limit) xs = take (nat (min 1000 (max 0 (sint limit)))) xs"
proof -
  have "sint (1000 :: i64) = 1000" "sint (0 :: i64) = 0" by simp_all
  then show ?thesis by (auto simp: sql_limit_def i64_clamp_def MAX_SEARCH_LIMIT_def min_def max_def)
qed

lemma lookup_by_distinct: "distinct (map key rows) \<Longrightarrow> r \<in> set rows \<Longrightarrow> lookup_by key rows (key r) = Some r"
  unfolding lookup_by_def by (induction rows) auto

lemma nodes_search_sound:
  assumes "graph_ok C g" "fts_ranks fts" "n \<in> set (nodes_search fts q limit l g)"
  shows "\<not> is_suppressed l (node_id n) \<and> select_node g (node_id n) = Some n"
proof -
  have sub: "x \<in> set (sql_limit limit xs) \<Longrightarrow> x \<in> set xs" for x and xs :: "node list"
    by (auto simp: sql_limit_def dest: in_set_takeD split: if_splits)
  from assms(3) obtain row where "row \<in> set (sql_limit limit (filter (\<lambda>n. node_id n \<notin> fst ` set (search_suppressions l)) (fts (nodes g) q)))"
    and n: "n = row_to_node row"
    unfolding nodes_search_def set_map by (elim imageE)
  from sub [OF this(1)] have row: "row \<in> set (fts (nodes g) q)" "node_id row \<notin> fst ` set (search_suppressions l)" by simp_all
  then have "row \<in> set (nodes g)" using assms(2) by (auto simp: fts_ranks_def)
  moreover have "distinct (map node_id (nodes g))" using assms(1) by (simp add: graph_ok_def nodes_ok_def)
  ultimately have "lookup_by node_id (nodes g) (node_id row) = Some row" by (simp add: lookup_by_distinct)
  with row n show ?thesis by (simp add: is_suppressed_def has_key_def select_node_def row_to_node_def)
qed

lemma nodes_search_distinct:
  assumes "graph_ok C g" "fts_ranks fts"
  shows "distinct (map node_id (nodes_search fts q limit l g))"
proof -
  have "distinct (map node_id (fts (nodes g) q))" using assms by (simp add: fts_ranks_def graph_ok_def nodes_ok_def)
  then have "distinct (map node_id (filter P (fts (nodes g) q)))" for P by (rule distinct_map_filter)
  then have "distinct (take k (map node_id (filter P (fts (nodes g) q))))" for k P by (rule distinct_take)
  then show ?thesis using \<open>\<And>P. distinct (map node_id (filter P (fts (nodes g) q)))\<close>
    by (simp add: nodes_search_def sql_limit_def take_map comp_def row_to_node_def)
qed

lemma suppression_reads [simp]:
  "is_suppressed (suppress i t l) j \<longleftrightarrow> j = i \<or> is_suppressed l j"
  "is_suppressed (unsuppress i l) j \<longleftrightarrow> j \<noteq> i \<and> is_suppressed l j"
  by (auto simp: is_suppressed_def suppress_def unsuppress_def has_key_def)

lemma unsuppress_suppress: "\<not> is_suppressed l i \<Longrightarrow> unsuppress i (suppress i t l) = l"
proof -
  assume "\<not> is_suppressed l i"
  then have "filter (\<lambda>r. fst r \<noteq> i) (search_suppressions l) = search_suppressions l"
    by (auto simp: is_suppressed_def has_key_def filter_id_conv)
  with \<open>\<not> is_suppressed l i\<close> show ?thesis by (simp add: is_suppressed_def suppress_def unsuppress_def)
qed

text \<open>
  A text search answers with stored nodes, each once, none of them suppressed, at most a thousand and at most
  the limit (none for a negative limit); the candidates of \<^const>\<open>resolve\<close> are at most ten and not suppressed
  either, and an exact answer carries the identifier asked for.  Whatever the user typed, the index only sees quoted words of letters
  and digits.  Suppressing takes the admin capability and hides the node from every such search; unsuppressing undoes it.
\<close>

theorem search_hides_the_suppressed:
  assumes "graph_ok C g" "fts_ranks fts"
  shows "length (search fts query limit l g) \<le> nat (min 1000 (max 0 (sint limit))) \<and>
      distinct (map node_id (search fts query limit l g)) \<and>
      (\<forall>n\<in>set (search fts query limit l g). \<not> is_suppressed l (node_id n) \<and> select_node g (node_id n) = Some n) \<and>
      (case resolve S fts query l g of
         Found n c \<Rightarrow> c = 1 \<and> node_canonical_identifier n = fst (canonicalize_value S query)
       | Candidates ns \<Rightarrow> ns \<noteq> [] \<and> length ns \<le> 10 \<and>
           (\<forall>n\<in>set ns. \<not> is_suppressed l (node_id n) \<and> select_node g (node_id n) = Some n)
       | ResolveNotFound \<Rightarrow> True) \<and>
      search (\<lambda>rows q. if plain_query q then fts rows q else []) query limit l g = search fts query limit l g \<and>
      (case suppress_node_from_search auth i t l of
         (Inl e, l') \<Rightarrow> Admin \<notin> set (auth_permissions auth) \<and> l' = l
       | (Inr _, l') \<Rightarrow> Admin \<in> set (auth_permissions auth) \<and> i \<notin> node_id ` set (search fts query limit l' g) \<and>
           (\<not> is_suppressed l i \<longrightarrow> unsuppress_node_from_search auth i l' = (Inr (), l)))"
proof -
  note sound = nodes_search_sound [OF assms]
  have hits: "\<forall>n\<in>set (search fts query limit l g). \<not> is_suppressed l (node_id n) \<and> select_node g (node_id n) = Some n" for l
    using sound by (auto simp: search_def Let_def)
  have len: "length (search fts query limit l g) \<le> nat (min 1000 (max 0 (sint limit)))"
    by (simp add: search_def Let_def nodes_search_def sql_limit_clamp)
  have dist: "distinct (map node_id (search fts query limit l g))"
    using nodes_search_distinct [OF assms] by (simp add: search_def Let_def)
  have ten: "length (nodes_search fts q 10 l g) \<le> 10" for q by (simp add: nodes_search_def sql_limit_def)
  have res: "case resolve S fts query l g of
      Found n c \<Rightarrow> c = 1 \<and> node_canonical_identifier n = fst (canonicalize_value S query)
    | Candidates ns \<Rightarrow> ns \<noteq> [] \<and> length ns \<le> 10 \<and>
        (\<forall>n\<in>set ns. \<not> is_suppressed l (node_id n) \<and> select_node g (node_id n) = Some n)
    | ResolveNotFound \<Rightarrow> True"
    using ten sound
    by (auto simp: resolve_def Let_def get_by_canonical_identifier_def row_to_node_def dest!: lookup_by_SomeD
        split: option.splits prod.splits)
  have safe: "search (\<lambda>rows q. if plain_query q then fts rows q else []) query limit l g = search fts query limit l g"
    by (simp add: search_def Let_def nodes_search_def sanitize_plain)
  have admin: "require auth Admin = Inr () \<longleftrightarrow> Admin \<in> set (auth_permissions auth)" by (simp add: require_def)
  have "case suppress_node_from_search auth i t l of
      (Inl e, l') \<Rightarrow> Admin \<notin> set (auth_permissions auth) \<and> l' = l
    | (Inr _, l') \<Rightarrow> Admin \<in> set (auth_permissions auth) \<and> i \<notin> node_id ` set (search fts query limit l' g) \<and>
        (\<not> is_suppressed l i \<longrightarrow> unsuppress_node_from_search auth i l' = (Inr (), l))"
    using hits [of "suppress i t l"] admin
    by (auto simp: suppress_node_from_search_def unsuppress_node_from_search_def unsuppress_suppress split: sum.splits)
  with len dist hits res safe show ?thesis by blast
qed

text \<open>An index that matches a query with the identifiers it quotes, for the three nodes of the sample graph.\<close>

definition road_fts :: fts where
  "road_fts rows q = filter (\<lambda>n. list_all (\<lambda>c. c \<in> set q) (node_canonical_identifier n)) rows"

lemma road_fts_ranks: "fts_ranks road_fts"
  by (auto simp: fts_ranks_def road_fts_def distinct_map_filter)

definition no_tables :: local_tables where
  "no_tables = \<lparr>search_suppressions = [], node_authority = [], node_embeddings = []\<rparr>"

theorem search_hides_the_suppressed_witness:
  "map node_canonical_identifier (search road_fts ''b* OR c'' (- 1) no_tables road_graph) = [] \<and>
   map node_canonical_identifier (search road_fts ''b* OR c'' 9 no_tables road_graph) = [''b'', ''c''] \<and>
   map node_canonical_identifier (search road_fts ''b* OR c'' 9 (suppress (node_id (road_node CHR ''b'')) 0 no_tables) road_graph) = [''c''] \<and>
   distinct (map node_id (search road_fts ''b* OR c'' 9 no_tables road_graph))"
proof -
  have q: "sanitize_fts_query ''b* OR c'' = [CHR 0x22] @ ''b'' @ [CHR 0x22] @ '' '' @ [CHR 0x22] @ ''OR'' @ [CHR 0x22] @ '' '' @ [CHR 0x22] @ ''c'' @ [CHR 0x22]"
    by code_simp
  have c: "sint (i64_clamp 0 MAX_SEARCH_LIMIT (- 1)) = 0" "sint (i64_clamp 0 MAX_SEARCH_LIMIT 9) = 9" by code_simp+
  show ?thesis
    using search_hides_the_suppressed [OF road_graph_ok road_fts_ranks, of "''b* OR c''" 9 no_tables]
    by (simp add: search_def q nodes_search_def sql_limit_def c road_fts_def no_tables_def suppress_def road_graph_def empty_graph_def
        row_to_node_def road_simps(1,2))
qed

section \<open>Semantic search is ranked\<close>

lemma length_map_filter: "length (List.map_filter f xs) \<le> length xs"
  by (simp add: List.map_filter_def)

lemma sorted_take_drop:
  assumes "sorted (map f xs)" "x \<in> set (take k xs)" "y \<in> set (drop k xs)"
  shows "f x \<le> f y"
proof -
  have "sorted (map f (take k xs) @ map f (drop k xs))"
    using assms(1) by (simp only: map_append [symmetric] append_take_drop_id)
  then show ?thesis using assms(2,3) by (auto simp: sorted_append)
qed

text \<open>
  With an embedding of the query, a semantic search answers with stored nodes and their similarity, the
  most similar first, at most a thousand and at most the limit; a stored node with an embedding that is
  not in the answer is no more similar than any that is.  With embeddings disabled it is a typed error.
\<close>

theorem semantic_search_is_ranked:
  assumes "embed provider query = Inr q"
  shows "\<exists>hits. semantic_search rnd sqrt32 B provider query limit l g = Inr hits \<and>
      length hits \<le> nat (min 1000 (max 0 (sint limit))) \<and> sorted (map (\<lambda>h. - snd h) hits) \<and>
      (\<forall>(n, s)\<in>set hits. \<exists>r\<in>set (node_embeddings l).
         select_node g (em_node_id r) = Some n \<and> s = cosine_similarity rnd sqrt32 q (decode_embedding B (em_embedding r))) \<and>
      (\<forall>r\<in>set (node_embeddings l). \<forall>n. select_node g (em_node_id r) = Some n \<longrightarrow>
         (let s = cosine_similarity rnd sqrt32 q (decode_embedding B (em_embedding r)) in (n, s) \<in> set hits \<or> (\<forall>(_, t)\<in>set hits. s \<le> t))) \<and>
      semantic_search rnd sqrt32 B DisabledProvider query limit l g = Inl (GEmbedding EmbeddingDisabled)"
proof -
  define scored where "scored = map (\<lambda>r. (em_node_id r, cosine_similarity rnd sqrt32 q (decode_embedding B (em_embedding r)))) (node_embeddings l)"
  define ordered where "ordered = sort_key (\<lambda>r. - snd r) scored"
  define k where "k = nat (min 1000 (max 0 (sint limit)))"
  define to_node where "to_node = (\<lambda>(i, score :: f32). map_option (\<lambda>n. (n, score)) (select_node g i))"
  have "sint (1000 :: i64) = 1000" "sint (0 :: i64) = 0" by simp_all
  then have k: "nat (sint (i64_clamp 0 MAX_SEMANTIC_SEARCH_LIMIT limit)) = k"
    by (auto simp: i64_clamp_def MAX_SEMANTIC_SEARCH_LIMIT_def k_def min_def max_def)
  let ?hits = "List.map_filter to_node (take k ordered)"
  have run: "semantic_search rnd sqrt32 B provider query limit l g = Inr ?hits"
    using assms by (simp add: semantic_search_def embeddings_list_all_def rank_def k ordered_def scored_def to_node_def comp_def Let_def)
  have sorted: "sorted (map (\<lambda>r. - snd r) ordered)" by (simp add: ordered_def)
  have "sorted (map (\<lambda>h. - snd h) (List.map_filter to_node xs))" if "sorted (map (\<lambda>r. - snd r) xs)" for xs
    using that by (induction xs) (auto simp: map_filter_simps to_node_def set_map_filter split: option.splits)
  then have ranked: "sorted (map (\<lambda>h. - snd h) ?hits)" using sorted by (simp add: sorted_wrt_take take_map [symmetric])
  have len: "length ?hits \<le> k" by (rule order_trans [OF length_map_filter]) simp
  have set_ordered: "set ordered = set scored" by (simp add: ordered_def)
  have sound: "\<exists>r\<in>set (node_embeddings l). select_node g (em_node_id r) = Some n \<and> s = cosine_similarity rnd sqrt32 q (decode_embedding B (em_embedding r))"
    if "(n, s) \<in> set ?hits" for n s
    using that set_ordered by (auto simp: set_map_filter to_node_def scored_def dest!: in_set_takeD)
  have top: "(n, s) \<in> set ?hits \<or> (\<forall>(_, t)\<in>set ?hits. s \<le> t)"
    if "(i, s) \<in> set scored" "select_node g i = Some n" for i n s
  proof (cases "(i, s) \<in> set (take k ordered)")
    case True
    with that(2) show ?thesis by (force simp: set_map_filter to_node_def)
  next
    case False
    moreover have "set ordered = set (take k ordered) \<union> set (drop k ordered)" by (metis append_take_drop_id set_append)
    ultimately have "(i, s) \<in> set (drop k ordered)" using that(1) set_ordered by blast
    then have "s \<le> snd x" if "x \<in> set (take k ordered)" for x
      using sorted_take_drop [OF sorted that, of "(i, s)"] by simp
    then show ?thesis by (fastforce simp: set_map_filter to_node_def)
  qed
  have "semantic_search rnd sqrt32 B DisabledProvider query limit l g = Inl (GEmbedding EmbeddingDisabled)"
    by (simp add: semantic_search_def DisabledProvider_def)
  moreover have "\<forall>r\<in>set (node_embeddings l). \<forall>n. select_node g (em_node_id r) = Some n \<longrightarrow>
      (let s = cosine_similarity rnd sqrt32 q (decode_embedding B (em_embedding r)) in (n, s) \<in> set ?hits \<or> (\<forall>(_, t)\<in>set ?hits. s \<le> t))"
    unfolding Let_def by (intro ballI allI impI top) (auto simp: scored_def)
  moreover have "\<forall>(n, s)\<in>set ?hits. \<exists>r\<in>set (node_embeddings l).
      select_node g (em_node_id r) = Some n \<and> s = cosine_similarity rnd sqrt32 q (decode_embedding B (em_embedding r))"
    using sound by blast
  ultimately show ?thesis using run len ranked unfolding k_def by blast
qed

definition road_provider :: embedding_provider where
  "road_provider = \<lparr>embed = \<lambda>s. Inr (if s = ''b'' then [1, 0] else [0, 1]), provider_name = ''sample'', model_name = []\<rparr>"

lemma decode_encode_embedding:
  "(\<And>v. v \<in> set vs \<Longrightarrow> from_bits B (to_bits B v) = v) \<Longrightarrow> decode_embedding B (encode_embedding B vs) = vs"
  using decode_encode [of vs B] by (simp add: decode_embedding_def encode_embedding_def decode_values_def encode_values_def)

lemma tenths_units: "decode_embedding tenths_format (encode_embedding tenths_format [0, 1]) = [0, 1]"
  "decode_embedding tenths_format (encode_embedding tenths_format [1, 0]) = [1, 0]"
  by (rule decode_encode_embedding, auto simp: tenths_format_def)+

lemma road_text: "node_name (road_node c) = None" "node_description (road_node c) = None" "node_canonical_identifier (road_node c) = [c]"
  by (simp_all add: road_node_def node_new_def)

theorem semantic_search_is_ranked_witness:
  "\<exists>hits. semantic_search tenths (\<lambda>x. x) tenths_format road_provider ''b'' 9 (snd (recompute_embeddings tenths_format road_provider 0 road_graph no_tables)) road_graph = Inr hits \<and>
     map (\<lambda>(n, s). (node_canonical_identifier n, s)) hits = [(''b'', 1), (''a'', 0), (''c'', 0)] \<and> sorted (map (\<lambda>h. - snd h) hits)"
proof -
  have c: "sint (i64_clamp 0 MAX_SEMANTIC_SEARCH_LIMIT 9) = 9" by code_simp
  have emb: "embed road_provider ''b'' = Inr [1, 0]" by (simp add: road_provider_def)
  note rows = road_graph_def empty_graph_def no_tables_def
  have table: "embeddings_list_all tenths_format (snd (recompute_embeddings tenths_format road_provider 0 road_graph no_tables))
      = [(node_id (road_node CHR ''a''), [0, 1]), (node_id (road_node CHR ''b''), [1, 0]), (node_id (road_node CHR ''c''), [0, 1])]"
    by (simp add: embeddings_list_all_def tenths_units recompute_embeddings_def embeddings_clear_all_def nodes_list_all_def rows embeddable_text_def road_text trim_def
        is_whitespace_def road_provider_def embeddings_upsert_def Let_def has_key_def road_simps(1) row_to_node_def map_filter_simps)
  have ranked: "rank tenths (\<lambda>x. x) [1, 0] (embeddings_list_all tenths_format (snd (recompute_embeddings tenths_format road_provider 0 road_graph no_tables))) 9
      = [(node_id (road_node CHR ''b''), 1), (node_id (road_node CHR ''a''), 0), (node_id (road_node CHR ''c''), 0)]"
    unfolding table by (simp add: rank_def cosine_similarity_def f32_sum_def tenths_def)
  have sel: "map_option node_canonical_identifier (select_node road_graph (node_id (road_node x))) = Some [x]" if "x \<in> set ''abc''" for x
    using that by (auto simp: select_node_def lookup_by_def rows road_simps(1,2) row_to_node_def)
  from sel [of "CHR ''a''"] sel [of "CHR ''b''"] sel [of "CHR ''c''"]
    semantic_search_is_ranked [OF emb, of tenths "\<lambda>x. x" tenths_format 9
      "snd (recompute_embeddings tenths_format road_provider 0 road_graph no_tables)" road_graph]
  show ?thesis by (auto simp: semantic_search_def c emb ranked map_filter_simps)
qed

text \<open>Suppression does not reach semantic search.\<close>

lemma semantic_search_sees_suppressed:
  "semantic_search rnd sqrt32 B provider query limit (suppress i t l) g = semantic_search rnd sqrt32 B provider query limit l g"
  by (simp add: semantic_search_def embeddings_list_all_def suppress_def)

end
