(* ===== verification/Api.thy ===== *)
theory Api
  imports Ranking Explain Access
begin

text \<open>
  The REST interface (\<^verbatim>\<open>oag-api\<close>: \<^verbatim>\<open>auth.rs\<close>, \<^verbatim>\<open>error.rs\<close>, \<^verbatim>\<open>dto.rs\<close>, \<^verbatim>\<open>handlers.rs\<close>, \<^verbatim>\<open>redaction.rs\<close> and the routes of
  \<^verbatim>\<open>lib.rs\<close>): every route as a handler over the peer's tables, and the status that an error becomes.  A JSON
  answer is a value of \<open>api_body\<close>, one constructor per shape; \<^verbatim>\<open>axum\<close> has decoded the request.  What the handlers use of
  third-party code is gathered in the record \<open>api_env\<close>.
\<close>

section \<open>State and environment\<close>

record app_tables =
  app_db :: db
  app_local :: local_tables

record ('sk, 'vk, 'u, 'w) api_env =
  svc :: "('sk, 'vk, 'u) service"
  identity :: 'sk
  uris :: "'w url_view"
  rnd :: "f32 \<Rightarrow> f32"
  rnd64 :: "rat \<Rightarrow> rat"
  pow2 :: "rat \<Rightarrow> f32"
  sqrt32 :: "f32 \<Rightarrow> f32"
  floats :: f32_format
  drain_groups :: "(string \<times> f32) list \<Rightarrow> (string \<times> f32) list"
  drain_nodes :: "visited \<Rightarrow> visited"
  drain_edges :: "(edge_id \<times> edge) list \<Rightarrow> (edge_id \<times> edge) list"
  fts_index :: fts
  provider :: embedding_provider
  parse_value :: "byte list \<Rightarrow> json_error + json"
  parse_rfc3339 :: "string \<Rightarrow> string + int"
  clock :: "nat \<Rightarrow> int"

type_synonym 'a handler = "app_tables \<Rightarrow> (graph_error + 'a) \<times> app_tables"

definition api_bind :: "'a handler \<Rightarrow> ('a \<Rightarrow> 'b handler) \<Rightarrow> 'b handler" where
  "api_bind m f s = (case m s of (Inl e, s') \<Rightarrow> (Inl e, s') | (Inr a, s') \<Rightarrow> f a s')"

text \<open>A result that does not depend on the tables, a read of them, and an operation of the graph service.\<close>

definition api_check :: "graph_error + 'a \<Rightarrow> 'a handler" where
  "api_check r s = (r, s)"

definition api_read :: "(app_tables \<Rightarrow> graph_error + 'a) \<Rightarrow> 'a handler" where
  "api_read f s = (f s, s)"

definition in_db :: "'a svc \<Rightarrow> 'a handler" where
  "in_db m s = (case m (app_db s) of (r, d) \<Rightarrow> (r, s\<lparr>app_db := d\<rparr>))"

definition in_local :: "(local_tables \<Rightarrow> (graph_error + 'a) \<times> local_tables) \<Rightarrow> 'a handler" where
  "in_local m s = (case m (app_local s) of (r, l) \<Rightarrow> (r, s\<lparr>app_local := l\<rparr>))"

section \<open>Authentication (auth.rs)\<close>

text \<open>The argument is the value of the \<^verbatim>\<open>Authorization\<close> header, if it is there and readable.\<close>

definition api_authenticate ::
  "('sk, 'vk, 'u, 'w, 'z) api_env_scheme \<Rightarrow> string option \<Rightarrow> auth_context handler" where
  "api_authenticate E header =
     api_bind (api_check (ok_or InvalidApiKey (Option.bind header (strip_prefix ''Bearer '')))) (\<lambda>raw.
     api_read (\<lambda>s. authenticate (svc E) raw (graph (app_db s))))"

definition authenticate_read ::
  "('sk, 'vk, 'u, 'w, 'z) api_env_scheme \<Rightarrow> string option \<Rightarrow> auth_context handler" where
  "authenticate_read E header =
     api_bind (api_authenticate E header) (\<lambda>auth.
     api_bind (api_check (require auth GraphRead)) (\<lambda>_. api_check (Inr auth)))"

section \<open>Requests (dto.rs)\<close>

definition quoted :: "string \<Rightarrow> string" where
  "quoted s = [CHR 0x27] @ s @ [CHR 0x27]"

definition parse_timestamp :: "('sk, 'vk, 'u, 'w, 'z) api_env_scheme \<Rightarrow> string \<Rightarrow> graph_error + int" where
  "parse_timestamp E s =
     res_map_err (\<lambda>e. InvalidInput (''invalid RFC3339 timestamp '' @ quoted s @ '': '' @ e)) (parse_rfc3339 E s)"

record evidence_request =
  er_type :: "string option"
  er_uri :: "string option"
  er_title :: "string option"
  er_excerpt :: "string option"
  er_content_hash :: "string option"
  er_observed_at :: "string option"
  er_retrieved_at :: "string option"
  er_pinned_cid :: "string option"
  er_metadata :: "json option"

definition evidence_into_input ::
  "('sk, 'vk, 'u, 'w, 'z) api_env_scheme \<Rightarrow> evidence_request \<Rightarrow> graph_error + evidence_input" where
  "evidence_into_input E r =
     res_bind (transpose_opt (map_option (parse_timestamp E) (er_observed_at r))) (\<lambda>observed_at.
     res_bind (transpose_opt (map_option (parse_timestamp E) (er_retrieved_at r))) (\<lambda>retrieved_at.
       Inr \<lparr>ei_evidence_type = er_type r, ei_uri = er_uri r, ei_title = er_title r, ei_excerpt = er_excerpt r,
            ei_content_hash = er_content_hash r, ei_observed_at = observed_at, ei_retrieved_at = retrieved_at,
            ei_pinned_cid = er_pinned_cid r, ei_metadata = er_metadata r\<rparr>))"

record assert_request =
  rq_subject :: string
  rq_subject_type :: "string option"
  rq_predicate :: string
  rq_object :: string
  rq_object_type :: "string option"
  rq_evidence :: "evidence_request list"
  rq_actor_confidence :: "32 word option"
  rq_observed_at :: "string option"

definition assert_into_input ::
  "('sk, 'vk, 'u, 'w, 'z) api_env_scheme \<Rightarrow> assert_request \<Rightarrow> graph_error + assert_input" where
  "assert_into_input E r =
     res_bind (collect_results (map (evidence_into_input E) (rq_evidence r))) (\<lambda>evidence.
     res_bind (transpose_opt (map_option (parse_timestamp E) (rq_observed_at r))) (\<lambda>observed_at.
       Inr \<lparr>in_subject = rq_subject r, in_subject_type = rq_subject_type r, in_predicate = rq_predicate r,
            in_object = rq_object r, in_object_type = rq_object_type r, in_evidence = evidence,
            in_actor_confidence = rq_actor_confidence r, in_observed_at = observed_at, in_extraction_method = None\<rparr>))"

definition now_or :: "('sk, 'vk, 'u, 'w, 'z) api_env_scheme \<Rightarrow> string option \<Rightarrow> graph_error + int" where
  "now_or E observed_at = (case observed_at of Some s \<Rightarrow> parse_timestamp E s | None \<Rightarrow> Inr (clock E 0))"

definition parse_id :: "string \<Rightarrow> ('e + 'i) \<Rightarrow> string \<Rightarrow> graph_error + 'i" where
  "parse_id kind parsed s = res_map_err (\<lambda>_. InvalidInput (''invalid '' @ kind @ '' id '' @ quoted s)) parsed"

definition parse_node_id :: "('sk, 'vk, 'u, 'w, 'z) api_env_scheme \<Rightarrow> string \<Rightarrow> graph_error + node_id" where
  "parse_node_id E s = parse_id ''node'' (node_id_from_str (svc E) s) s"

definition parse_actor_id :: "('sk, 'vk, 'u, 'w, 'z) api_env_scheme \<Rightarrow> string \<Rightarrow> graph_error + actor_id" where
  "parse_actor_id E s = parse_id ''actor'' (actor_id_from_str (svc E) s) s"

definition parse_assertion_id :: "('sk, 'vk, 'u, 'w, 'z) api_env_scheme \<Rightarrow> string \<Rightarrow> graph_error + assertion_id" where
  "parse_assertion_id E s = parse_id ''assertion'' (event_id_from_str (svc E) s) s"

definition parse_edge_id :: "('sk, 'vk, 'u, 'w, 'z) api_env_scheme \<Rightarrow> string \<Rightarrow> graph_error + edge_id" where
  "parse_edge_id E s = parse_id ''edge'' (res_bind (hash32_from_str (svc E) s) (\<lambda>h. Inr (EdgeId h))) s"

definition parse_event_id :: "('sk, 'vk, 'u, 'w, 'z) api_env_scheme \<Rightarrow> string \<Rightarrow> graph_error + event_id" where
  "parse_event_id E s = parse_id ''evidence'' (event_id_from_str (svc E) s) s"

section \<open>Handlers (handlers.rs)\<close>

datatype api_body =
    Results "node list"
  | RankedResults "(node \<times> f32) list"
  | ActorBody actor
  | NodeBody node "node_alias list" "f32 option"
  | EdgesBody "edge list"
  | AssertionsBody "assertion list"
  | SourcesBody "evidence list"
  | AssertionBody assertion "evidence list" "observation list" "dispute list" "retraction list"
  | EdgeBody edge
  | ProposalsBody "roadmap_proposal list"
  | CorroborationBody edge_corroboration
  | AssertionAccepted string
  | Accepted
  | ResolvedBody node_id "string option" string string f32
  | CandidatesBody "node list"
  | SubgraphBody subgraph
  | HistoryBody "history_entry list"
  | StatusBody string
  | RedactionsBody "redaction list" "(node_id \<times> int) list" "actor_redaction list"

definition reading ::
  "('sk, 'vk, 'u, 'w, 'z) api_env_scheme \<Rightarrow> string option \<Rightarrow> api_body handler \<Rightarrow> api_body handler" where
  "reading E header h = api_bind (authenticate_read E header) (\<lambda>_. h)"

definition in_graph :: "(graph \<Rightarrow> graph_error + 'a) \<Rightarrow> 'a handler" where
  "in_graph f = api_read (\<lambda>s. f (graph (app_db s)))"

definition found :: "string \<Rightarrow> string \<Rightarrow> 'a option \<Rightarrow> 'a handler" where
  "found kind i x = api_check (ok_or (GNotFound (kind @ '' '' @ i)) x)"

definition h_search ::
  "('sk, 'vk, 'u, 'w, 'z) api_env_scheme \<Rightarrow> string option \<Rightarrow> string \<Rightarrow> i64 option \<Rightarrow> bool option \<Rightarrow> api_body handler" where
  "h_search E header q limit semantic =
     reading E header (let n = (case limit of Some l \<Rightarrow> l | None \<Rightarrow> 20) in
       if semantic = Some True
       then api_bind (api_read (\<lambda>s. semantic_search (rnd E) (sqrt32 E) (floats E) (provider E) q n (app_local s) (graph (app_db s))))
              (\<lambda>ranked. api_check (Inr (RankedResults ranked)))
       else api_read (\<lambda>s. Inr (Results (search (fts_index E) q n (app_local s) (graph (app_db s))))))"

definition h_get_actor :: "('sk, 'vk, 'u, 'w, 'z) api_env_scheme \<Rightarrow> string option \<Rightarrow> string \<Rightarrow> api_body handler" where
  "h_get_actor E header i =
     reading E header (api_bind (api_check (parse_actor_id E i)) (\<lambda>actor_id.
       api_bind (in_graph (\<lambda>g. res_map_err GStorage (actors_get_by_id g actor_id))) (\<lambda>actor.
       api_bind (found ''actor'' i actor) (\<lambda>actor. api_check (Inr (ActorBody actor))))))"

definition h_get_node :: "('sk, 'vk, 'u, 'w, 'z) api_env_scheme \<Rightarrow> string option \<Rightarrow> string \<Rightarrow> api_body handler" where
  "h_get_node E header i =
     reading E header (api_bind (api_check (parse_node_id E i)) (\<lambda>nid.
       api_bind (in_graph (\<lambda>g. Inr (select_node g nid))) (\<lambda>node.
       api_bind (found ''node'' i node) (\<lambda>node.
       api_bind (in_graph (\<lambda>g. list_aliases g nid)) (\<lambda>aliases.
       api_read (\<lambda>s. Inr (NodeBody node aliases (get_node_authority (app_local s) nid))))))))"

definition h_get_node_edges :: "('sk, 'vk, 'u, 'w, 'z) api_env_scheme \<Rightarrow> string option \<Rightarrow> string \<Rightarrow> api_body handler" where
  "h_get_node_edges E header i =
     reading E header (api_bind (api_check (parse_node_id E i)) (\<lambda>nid. in_graph (\<lambda>g. Inr (EdgesBody (get_edges g nid)))))"

definition h_get_node_assertions :: "('sk, 'vk, 'u, 'w, 'z) api_env_scheme \<Rightarrow> string option \<Rightarrow> string \<Rightarrow> api_body handler" where
  "h_get_node_assertions E header i =
     reading E header (api_bind (api_check (parse_node_id E i)) (\<lambda>nid.
       api_bind (in_graph (\<lambda>g. list_assertions_for_node g nid)) (\<lambda>as. api_check (Inr (AssertionsBody as)))))"

definition h_get_node_sources :: "('sk, 'vk, 'u, 'w, 'z) api_env_scheme \<Rightarrow> string option \<Rightarrow> string \<Rightarrow> api_body handler" where
  "h_get_node_sources E header i =
     reading E header (api_bind (api_check (parse_node_id E i)) (\<lambda>nid.
       api_bind (in_graph (\<lambda>g. find_sources g nid)) (\<lambda>es. api_check (Inr (SourcesBody es)))))"

definition h_get_assertion :: "('sk, 'vk, 'u, 'w, 'z) api_env_scheme \<Rightarrow> string option \<Rightarrow> string \<Rightarrow> api_body handler" where
  "h_get_assertion E header i =
     reading E header (api_bind (api_check (parse_assertion_id E i)) (\<lambda>aid.
       api_bind (in_db (get_assertion aid)) (\<lambda>assertion.
       api_bind (found ''assertion'' i assertion) (\<lambda>assertion.
       api_bind (in_graph (\<lambda>g. res_map_err GStorage (assertions_list_evidence g aid))) (\<lambda>evidence.
       in_graph (\<lambda>g. Inr (AssertionBody assertion evidence (assertions_list_observations g aid)
         (assertions_list_disputes g aid) (assertions_list_retractions g aid))))))))"

definition h_get_edge :: "('sk, 'vk, 'u, 'w, 'z) api_env_scheme \<Rightarrow> string option \<Rightarrow> string \<Rightarrow> api_body handler" where
  "h_get_edge E header i =
     reading E header (api_bind (api_check (parse_edge_id E i)) (\<lambda>eid.
       api_bind (in_graph (\<lambda>g. Inr (edges_get_by_id g eid))) (\<lambda>edge.
       api_bind (found ''edge'' i edge) (\<lambda>edge. api_check (Inr (EdgeBody edge))))))"

definition h_list_roadmap_proposals :: "('sk, 'vk, 'u, 'w, 'z) api_env_scheme \<Rightarrow> string option \<Rightarrow> api_body handler" where
  "h_list_roadmap_proposals E header =
     reading E header (api_bind (in_graph (\<lambda>g. list_roadmap_proposals (svc E) (uris E) (rnd E) (rnd64 E) (pow2 E) (drain_groups E) (clock E 0) g))
       (\<lambda>ps. api_check (Inr (ProposalsBody ps))))"

definition h_get_edge_corroboration :: "('sk, 'vk, 'u, 'w, 'z) api_env_scheme \<Rightarrow> string option \<Rightarrow> string \<Rightarrow> api_body handler" where
  "h_get_edge_corroboration E header i =
     reading E header (api_bind (api_check (parse_edge_id E i)) (\<lambda>eid.
       api_bind (in_graph (\<lambda>g. get_edge_corroboration (svc E) (uris E) (rnd E) (rnd64 E) (pow2 E) (drain_groups E) (clock E 0) eid g))
         (\<lambda>c. api_check (Inr (CorroborationBody c)))))"

definition resolve_outcome_to_json :: "resolve_outcome \<Rightarrow> api_body" where
  "resolve_outcome_to_json outcome = (case outcome of
       Found n confidence \<Rightarrow>
         ResolvedBody (node_id n) (node_canonical_uri n) (node_canonical_identifier n) (node_type n) confidence
     | Candidates ns \<Rightarrow> CandidatesBody ns
     | ResolveNotFound \<Rightarrow> CandidatesBody [])"

definition h_resolve :: "('sk, 'vk, 'u, 'w, 'z) api_env_scheme \<Rightarrow> string option \<Rightarrow> string \<Rightarrow> api_body handler" where
  "h_resolve E header value =
     reading E header (api_read (\<lambda>s.
       Inr (resolve_outcome_to_json (resolve (svc E) (fts_index E) value (app_local s) (graph (app_db s))))))"

definition h_subgraph ::
  "('sk, 'vk, 'u, 'w, 'z) api_env_scheme \<Rightarrow> string option \<Rightarrow> string \<Rightarrow> nat option \<Rightarrow> nat option \<Rightarrow> api_body handler" where
  "h_subgraph E header i depth max_nodes =
     reading E header (api_bind (api_check (parse_node_id E i)) (\<lambda>nid.
       api_bind (in_graph (\<lambda>g. get_subgraph (svc E) (drain_nodes E) (drain_edges E) nid
            (case depth of Some d \<Rightarrow> d | None \<Rightarrow> 1) (case max_nodes of Some m \<Rightarrow> m | None \<Rightarrow> 200) g))
         (\<lambda>sg. api_check (Inr (SubgraphBody sg)))))"

definition h_history ::
  "('sk, 'vk, 'u, 'w, 'z) api_env_scheme \<Rightarrow> string option \<Rightarrow> string \<Rightarrow> string \<Rightarrow> api_body handler" where
  "h_history E header object_type i =
     reading E header (api_bind (api_read (\<lambda>s. get_history (svc E) (parse_value E) object_type i (app_db s)))
       (\<lambda>entries. api_check (Inr (HistoryBody entries))))"

definition h_status :: "('sk, 'vk, 'u, 'w, 'z) api_env_scheme \<Rightarrow> api_body handler" where
  "h_status E = api_check (Inr (StatusBody (peer_id_to_string (svc E) (identity_peer_id (svc E) (identity E)))))"

definition h_create_assertion ::
  "('sk, 'vk, 'u, 'w, 'z) api_env_scheme \<Rightarrow> string option \<Rightarrow> assert_request \<Rightarrow> api_body handler" where
  "h_create_assertion E header body =
     api_bind (api_authenticate E header) (\<lambda>auth.
     api_bind (api_check (assert_into_input E body)) (\<lambda>input.
     api_bind (in_db (assert_relation (svc E) (identity E) auth input (clock E))) (\<lambda>aid.
       api_check (Inr (AssertionAccepted (event_id_to_hex (svc E) aid))))))"

text \<open>The other writing handlers answer with \<^verbatim>\<open>{"status": "accepted"}\<close>.\<close>

definition accepting ::
  "('sk, 'vk, 'u, 'w, 'z) api_env_scheme \<Rightarrow> string option \<Rightarrow> graph_error + 'i \<Rightarrow> (auth_context \<Rightarrow> 'i \<Rightarrow> unit handler) \<Rightarrow> api_body handler" where
  "accepting E header parsed act =
     api_bind (api_authenticate E header) (\<lambda>auth.
     api_bind (api_check parsed) (\<lambda>i.
     api_bind (act auth i) (\<lambda>_. api_check (Inr Accepted))))"

definition h_add_evidence ::
  "('sk, 'vk, 'u, 'w, 'z) api_env_scheme \<Rightarrow> string option \<Rightarrow> string \<Rightarrow> evidence_request \<Rightarrow> api_body handler" where
  "h_add_evidence E header i body =
     accepting E header (parse_assertion_id E i) (\<lambda>auth aid.
       api_bind (api_check (evidence_into_input E body)) (\<lambda>input.
         in_db (add_evidence (svc E) (identity E) auth aid input (clock E 0))))"

definition h_verify_assertion ::
  "('sk, 'vk, 'u, 'w, 'z) api_env_scheme \<Rightarrow> string option \<Rightarrow> string \<Rightarrow> string \<Rightarrow> string option \<Rightarrow> api_body handler" where
  "h_verify_assertion E header i result observed_at =
     accepting E header (parse_assertion_id E i) (\<lambda>auth aid.
       api_bind (api_check (now_or E observed_at)) (\<lambda>time.
       api_bind (api_check (ok_or (InvalidInput (''unknown verify result '' @ quoted result @
           '', expected one of confirmed/not_confirmed/changed/contradicted/unreachable/unknown'')) (verify_result_parse result))) (\<lambda>r.
         in_db (verify_assertion (svc E) (identity E) auth aid r time (clock E 1)))))"

definition h_dispute_assertion ::
  "('sk, 'vk, 'u, 'w, 'z) api_env_scheme \<Rightarrow> string option \<Rightarrow> string \<Rightarrow> string option \<Rightarrow> api_body handler" where
  "h_dispute_assertion E header i reason =
     accepting E header (parse_assertion_id E i) (\<lambda>auth aid. in_db (dispute_assertion (svc E) (identity E) auth aid reason (clock E 0)))"

definition h_retract_assertion ::
  "('sk, 'vk, 'u, 'w, 'z) api_env_scheme \<Rightarrow> string option \<Rightarrow> string \<Rightarrow> string option \<Rightarrow> api_body handler" where
  "h_retract_assertion E header i reason =
     accepting E header (parse_assertion_id E i) (\<lambda>auth aid. in_db (retract_assertion (svc E) (identity E) auth aid reason (clock E 0)))"

definition h_supersede_assertion ::
  "('sk, 'vk, 'u, 'w, 'z) api_env_scheme \<Rightarrow> string option \<Rightarrow> string \<Rightarrow> string \<Rightarrow> api_body handler" where
  "h_supersede_assertion E header i new_assertion_id =
     accepting E header (parse_assertion_id E i) (\<lambda>auth old.
       api_bind (api_check (parse_assertion_id E new_assertion_id)) (\<lambda>new.
         in_db (supersede_assertion (svc E) (identity E) auth old new (clock E 0))))"

section \<open>Redaction routes (redaction.rs)\<close>

definition h_redact_evidence ::
  "('sk, 'vk, 'u, 'w, 'z) api_env_scheme \<Rightarrow> string option \<Rightarrow> string \<Rightarrow> string option \<Rightarrow> api_body handler" where
  "h_redact_evidence E header i reason =
     accepting E header (parse_event_id E i) (\<lambda>auth eid. in_db (redact_evidence (svc E) auth eid reason (clock E 0)))"

definition h_redact_actor_identity_uri ::
  "('sk, 'vk, 'u, 'w, 'z) api_env_scheme \<Rightarrow> string option \<Rightarrow> string \<Rightarrow> string option \<Rightarrow> api_body handler" where
  "h_redact_actor_identity_uri E header i reason =
     accepting E header (parse_actor_id E i) (\<lambda>auth aid. in_db (redact_actor_identity_uri (svc E) auth aid reason (clock E 0)))"

definition h_suppress_node :: "('sk, 'vk, 'u, 'w, 'z) api_env_scheme \<Rightarrow> string option \<Rightarrow> string \<Rightarrow> api_body handler" where
  "h_suppress_node E header i =
     accepting E header (parse_node_id E i) (\<lambda>auth nid. in_local (suppress_node_from_search auth nid (clock E 0)))"

definition h_unsuppress_node :: "('sk, 'vk, 'u, 'w, 'z) api_env_scheme \<Rightarrow> string option \<Rightarrow> string \<Rightarrow> api_body handler" where
  "h_unsuppress_node E header i =
     accepting E header (parse_node_id E i) (\<lambda>auth nid. in_local (unsuppress_node_from_search auth nid))"

definition list_redactions :: "auth_context \<Rightarrow> db \<Rightarrow> graph_error + redaction list" where
  "list_redactions auth d = res_bind (require auth Admin) (\<lambda>_. Inr (redactions d))"

definition list_actor_redactions :: "auth_context \<Rightarrow> db \<Rightarrow> graph_error + actor_redaction list" where
  "list_actor_redactions auth d = res_bind (require auth Admin) (\<lambda>_. Inr (actor_redactions d))"

definition h_list_redactions :: "('sk, 'vk, 'u, 'w, 'z) api_env_scheme \<Rightarrow> string option \<Rightarrow> api_body handler" where
  "h_list_redactions E header =
     api_bind (api_authenticate E header) (\<lambda>auth.
     api_bind (api_read (\<lambda>s. list_redactions auth (app_db s))) (\<lambda>redacted.
     api_bind (api_read (\<lambda>s. list_suppressed_nodes auth (app_local s))) (\<lambda>suppressed.
     api_bind (api_read (\<lambda>s. list_actor_redactions auth (app_db s))) (\<lambda>actor_redacted.
       api_check (Inr (RedactionsBody redacted suppressed actor_redacted))))))"

section \<open>Routes (lib.rs)\<close>

datatype api_request =
    GetSearch string "i64 option" "bool option"
  | GetNode string
  | GetActor string
  | GetNodeEdges string
  | GetNodeAssertions string
  | GetNodeSources string
  | GetAssertion string
  | GetEdge string
  | GetEdgeCorroboration string
  | GetRoadmap
  | PostResolve string
  | GetSubgraph string "nat option" "nat option"
  | GetHistory string string
  | GetStatus
  | GetRedactions
  | PostAssertion assert_request
  | PostEvidence string evidence_request
  | PostVerify string string "string option"
  | PostDispute string "string option"
  | PostRetract string "string option"
  | PostSupersede string string
  | PostRedactEvidence string "string option"
  | PostRedactIdentityUri string "string option"
  | PostSuppress string
  | PostUnsuppress string

fun handle :: "('sk, 'vk, 'u, 'w, 'z) api_env_scheme \<Rightarrow> string option \<Rightarrow> api_request \<Rightarrow> api_body handler" where
  "handle E header (GetSearch q limit semantic) = h_search E header q limit semantic"
| "handle E header (GetNode i) = h_get_node E header i"
| "handle E header (GetActor i) = h_get_actor E header i"
| "handle E header (GetNodeEdges i) = h_get_node_edges E header i"
| "handle E header (GetNodeAssertions i) = h_get_node_assertions E header i"
| "handle E header (GetNodeSources i) = h_get_node_sources E header i"
| "handle E header (GetAssertion i) = h_get_assertion E header i"
| "handle E header (GetEdge i) = h_get_edge E header i"
| "handle E header (GetEdgeCorroboration i) = h_get_edge_corroboration E header i"
| "handle E header GetRoadmap = h_list_roadmap_proposals E header"
| "handle E header (PostResolve value) = h_resolve E header value"
| "handle E header (GetSubgraph i depth max_nodes) = h_subgraph E header i depth max_nodes"
| "handle E header (GetHistory object_type i) = h_history E header object_type i"
| "handle E header GetStatus = h_status E"
| "handle E header GetRedactions = h_list_redactions E header"
| "handle E header (PostAssertion body) = h_create_assertion E header body"
| "handle E header (PostEvidence i body) = h_add_evidence E header i body"
| "handle E header (PostVerify i result observed_at) = h_verify_assertion E header i result observed_at"
| "handle E header (PostDispute i reason) = h_dispute_assertion E header i reason"
| "handle E header (PostRetract i reason) = h_retract_assertion E header i reason"
| "handle E header (PostSupersede i new) = h_supersede_assertion E header i new"
| "handle E header (PostRedactEvidence i reason) = h_redact_evidence E header i reason"
| "handle E header (PostRedactIdentityUri i reason) = h_redact_actor_identity_uri E header i reason"
| "handle E header (PostSuppress i) = h_suppress_node E header i"
| "handle E header (PostUnsuppress i) = h_unsuppress_node E header i"

section \<open>Responses (error.rs)\<close>

datatype api_response = Json_OK api_body | Json_Error nat string

text \<open>The client sees the messages of \<^verbatim>\<open>GraphError\<close>, but not those of internal errors.\<close>

fun error_response :: "('sk, 'vk, 'z) crypto_scheme \<Rightarrow> graph_error \<Rightarrow> api_response" where
  "error_response C InvalidApiKey = Json_Error 401 ''invalid api key''"
| "error_response C (PermissionDenied p) = Json_Error 403 (''permission denied: requires '' @ p)"
| "error_response C (GNotFound what) = Json_Error 404 (''not found: '' @ what)"
| "error_response C (InvalidInput what) = Json_Error 400 (''invalid input: '' @ what)"
| "error_response C (GEvents (NotFound what)) = Json_Error 404 (''referenced object not found: '' @ what)"
| "error_response C (GStorage _) = Json_Error 500 ''internal error''"
| "error_response C (GEvents _) = Json_Error 500 ''internal error''"
| "error_response C (GEmbedding EmbeddingDisabled) = Json_Error 400 ''embeddings are disabled''"
| "error_response C (GEmbedding _) = Json_Error 502 ''embedding provider error''"
| "error_response C (AlreadyRedacted i) = Json_Error 409 (''evidence '' @ event_id_to_hex C i @ '' has already been redacted'')"
| "error_response C (ActorAlreadyRedacted i) =
     Json_Error 409 (''actor '' @ hash32_to_hex C (actor_hash i) @ [CHR 0x27] @ ''s identity_uri has already been redacted'')"

definition serve_request ::
  "('sk, 'vk, 'u, 'w, 'z) api_env_scheme \<Rightarrow> string option \<Rightarrow> api_request \<Rightarrow> app_tables \<Rightarrow> api_response \<times> app_tables" where
  "serve_request E header request s = (case handle E header request s of
       (Inl e, s') \<Rightarrow> (error_response (svc E) e, s')
     | (Inr body, s') \<Rightarrow> (Json_OK body, s'))"

section \<open>What each route may do\<close>

text \<open>The permission that a route asks for, and the routes that only read.\<close>

fun required :: "api_request \<Rightarrow> permission" where
  "required (PostAssertion _) = GraphAssert"
| "required (PostEvidence _ _) = GraphAssert"
| "required (PostVerify _ _ _) = GraphVerify"
| "required (PostDispute _ _) = GraphAssert"
| "required (PostRetract _ _) = GraphRetractOwn"
| "required (PostSupersede _ _) = GraphAssert"
| "required (PostRedactEvidence _ _) = Admin"
| "required (PostRedactIdentityUri _ _) = Admin"
| "required (PostSuppress _) = Admin"
| "required (PostUnsuppress _) = Admin"
| "required GetRedactions = Admin"
| "required _ = GraphRead"

fun writes :: "api_request \<Rightarrow> bool" where
  "writes (PostAssertion _) \<longleftrightarrow> True"
| "writes (PostEvidence _ _) \<longleftrightarrow> True"
| "writes (PostVerify _ _ _) \<longleftrightarrow> True"
| "writes (PostDispute _ _) \<longleftrightarrow> True"
| "writes (PostRetract _ _) \<longleftrightarrow> True"
| "writes (PostSupersede _ _) \<longleftrightarrow> True"
| "writes (PostRedactEvidence _ _) \<longleftrightarrow> True"
| "writes (PostRedactIdentityUri _ _) \<longleftrightarrow> True"
| "writes (PostSuppress _) \<longleftrightarrow> True"
| "writes (PostUnsuppress _) \<longleftrightarrow> True"
| "writes _ \<longleftrightarrow> False"

text \<open>Whom the request's header names in the current tables.\<close>

definition caller :: "('sk, 'vk, 'u, 'w, 'z) api_env_scheme \<Rightarrow> string option \<Rightarrow> app_tables \<Rightarrow> auth_context option" where
  "caller E header s = (case Option.bind header (strip_prefix ''Bearer '') of
       None \<Rightarrow> None
     | Some raw \<Rightarrow> (case authenticate (svc E) raw (graph (app_db s)) of Inr auth \<Rightarrow> Some auth | Inl _ \<Rightarrow> None))"

definition allowed :: "auth_context \<Rightarrow> permission \<Rightarrow> bool" where
  "allowed auth p \<longleftrightarrow> p \<in> set (auth_permissions auth) \<or> Admin \<in> set (auth_permissions auth)"

section \<open>Every route is guarded\<close>

lemma api_authenticate_caller:
  "api_authenticate E header s = (case caller E header s of Some auth \<Rightarrow> (Inr auth, s) | None \<Rightarrow> (Inl InvalidApiKey, s))"
  by (simp add: api_authenticate_def caller_def api_bind_def api_check_def api_read_def authenticate_def split: option.splits)

lemma api_simps [simp]:
  "api_bind (api_check r) f s = (case r of Inl e \<Rightarrow> (Inl e, s) | Inr a \<Rightarrow> f a s)"
  "api_bind (api_read h) f s = (case h s of Inl e \<Rightarrow> (Inl e, s) | Inr a \<Rightarrow> f a s)"
  "api_check r s = (r, s)" "api_read h s = (h s, s)" "in_graph h' s = (h' (graph (app_db s)), s)"
  by (simp_all add: api_bind_def api_check_def api_read_def in_graph_def split: sum.splits)

lemma bind_in_graph [simp]:
  "api_bind (in_graph h) f s = (case h (graph (app_db s)) of Inl e \<Rightarrow> (Inl e, s) | Inr a \<Rightarrow> f a s)"
  by (simp add: in_graph_def)

lemma require_allowed [simp]:
  "require auth p = (if allowed auth p then Inr () else Inl (PermissionDenied (permission_as_str p)))"
  by (simp add: require_def allowed_def)

lemma reading_caller:
  "reading E header h s = (case caller E header s of
       None \<Rightarrow> (Inl InvalidApiKey, s)
     | Some auth \<Rightarrow> if allowed auth GraphRead then h s else (Inl (PermissionDenied (permission_as_str GraphRead)), s))"
  by (simp add: reading_def authenticate_read_def api_bind_def api_authenticate_caller split: option.splits)

lemma accepting_caller:
  "accepting E header parsed act s = (case caller E header s of
       None \<Rightarrow> (Inl InvalidApiKey, s)
     | Some auth \<Rightarrow> (case parsed of Inl e \<Rightarrow> (Inl e, s)
         | Inr i \<Rightarrow> api_bind (act auth i) (\<lambda>_. api_check (Inr Accepted)) s))"
  by (simp add: accepting_def api_bind_def api_authenticate_caller split: option.splits sum.splits)

lemma bind_in_db:
  "api_bind (in_db m) f s = (case m (app_db s) of (Inl e, d) \<Rightarrow> (Inl e, s\<lparr>app_db := d\<rparr>) | (Inr a, d) \<Rightarrow> f a (s\<lparr>app_db := d\<rparr>))"
  by (simp add: api_bind_def in_db_def split: prod.splits sum.splits)

text \<open>A request that only reads leaves the tables alone.\<close>

lemma reading_frame: "(\<And>s. snd (h s) = s) \<Longrightarrow> snd (reading E header h s) = s"
  by (simp add: reading_caller split: option.splits)

lemma get_assertion_frame: "get_assertion i d = (res_map_err GStorage (assertions_get_by_id (graph d) i), d)"
  by (simp add: get_assertion_def)

lemmas read_handler_defs = h_search_def h_get_actor_def h_get_node_def h_get_node_edges_def h_get_node_assertions_def
  h_get_node_sources_def h_get_assertion_def h_get_edge_def h_list_roadmap_proposals_def h_get_edge_corroboration_def
  h_resolve_def h_subgraph_def h_history_def

lemmas write_handler_defs = h_add_evidence_def h_verify_assertion_def h_dispute_assertion_def h_retract_assertion_def
  h_supersede_assertion_def h_redact_evidence_def h_redact_actor_identity_uri_def h_suppress_node_def h_unsuppress_node_def

lemma reads_frame: "\<not> writes request \<Longrightarrow> snd (handle E header request s) = s"
  by (cases request)
    (auto simp: read_handler_defs h_status_def h_list_redactions_def found_def bind_in_db get_assertion_frame api_bind_def [of "api_authenticate E header"]
      api_authenticate_caller Let_def intro!: reading_frame split: sum.splits option.splits)

text \<open>What a writing operation does for a caller without its permission.\<close>

lemma svc_denied: "\<not> allowed auth p \<Longrightarrow> svc_bind (svc_check (require auth p)) f d = (Inl (PermissionDenied (permission_as_str p)), d)"
  by (simp add: svc_bind_def svc_check_def)

lemma denied_operations:
  "\<not> allowed auth GraphAssert \<Longrightarrow> assert_relation C k auth input now d = (Inl (PermissionDenied (permission_as_str GraphAssert)), d)"
  "\<not> allowed auth GraphAssert \<Longrightarrow> add_evidence C k auth i ev t d = (Inl (PermissionDenied (permission_as_str GraphAssert)), d)"
  "\<not> allowed auth GraphVerify \<Longrightarrow> verify_assertion C k auth i r ob t d = (Inl (PermissionDenied (permission_as_str GraphVerify)), d)"
  "\<not> allowed auth GraphAssert \<Longrightarrow> dispute_assertion C k auth i reason t d = (Inl (PermissionDenied (permission_as_str GraphAssert)), d)"
  "\<not> allowed auth GraphRetractOwn \<Longrightarrow> retract_assertion C k auth i reason t d = (Inl (PermissionDenied (permission_as_str GraphRetractOwn)), d)"
  "\<not> allowed auth GraphAssert \<Longrightarrow> supersede_assertion C k auth i j t d = (Inl (PermissionDenied (permission_as_str GraphAssert)), d)"
  "\<not> allowed auth Admin \<Longrightarrow> redact_evidence C auth e reason t d = (Inl (PermissionDenied (permission_as_str Admin)), d)"
  "\<not> allowed auth Admin \<Longrightarrow> redact_actor_identity_uri C auth a reason t d = (Inl (PermissionDenied (permission_as_str Admin)), d)"
  "\<not> allowed auth Admin \<Longrightarrow> suppress_node_from_search auth n t l = (Inl (PermissionDenied (permission_as_str Admin)), l)"
  "\<not> allowed auth Admin \<Longrightarrow> unsuppress_node_from_search auth n l = (Inl (PermissionDenied (permission_as_str Admin)), l)"
  by (simp_all add: assert_relation_def add_evidence_def verify_assertion_def dispute_assertion_def retract_assertion_def
      supersede_assertion_def svc_denied redact_evidence_def redact_evidence_body_def redact_actor_identity_uri_def redact_actor_body_def
      transaction_def suppress_node_from_search_def unsuppress_node_from_search_def del: require_allowed)
    (simp_all)

lemma in_denied:
  "m (app_db s) = (Inl e, app_db s) \<Longrightarrow> api_bind (in_db m) f s = (Inl e, s)"
  "n (app_local s) = (Inl e, app_local s) \<Longrightarrow> api_bind (in_local n) f s = (Inl e, s)"
  by (simp_all add: api_bind_def in_db_def in_local_def)

text \<open>Whatever a parser of the request refuses is reported as invalid input.\<close>

definition only_invalid :: "graph_error + 'a \<Rightarrow> bool" where
  "only_invalid r \<longleftrightarrow> (\<forall>e. r = Inl e \<longrightarrow> (\<exists>w. e = InvalidInput w))"

lemma only_invalid_intros [intro]:
  "only_invalid (Inr a)"
  "only_invalid m \<Longrightarrow> (\<And>a. only_invalid (f a)) \<Longrightarrow> only_invalid (res_bind m f)"
  "(\<And>y. only_invalid (g y)) \<Longrightarrow> only_invalid (transpose_opt (map_option g x))"
  "only_invalid (ok_or (InvalidInput w) x)"
  by (auto simp: only_invalid_def res_bind_def transpose_opt_def ok_or_def split: sum.splits option.splits)

lemma only_invalid_collect: "(\<And>x. only_invalid (f x)) \<Longrightarrow> only_invalid (collect_results (map f xs))"
  by (induction xs) (auto intro!: only_invalid_intros)

lemma only_invalid_parsers [intro]:
  "only_invalid (parse_id kind parsed i)" "only_invalid (parse_timestamp E t)" "only_invalid (parse_node_id E i)"
  "only_invalid (parse_actor_id E i)" "only_invalid (parse_assertion_id E i)" "only_invalid (parse_edge_id E i)"
  "only_invalid (parse_event_id E i)" "only_invalid (now_or E ob)"
  by (auto simp: only_invalid_def parse_id_def parse_timestamp_def parse_node_id_def parse_actor_id_def parse_assertion_id_def
      parse_edge_id_def parse_event_id_def now_or_def res_map_err_def split: sum.splits option.splits)

lemma only_invalid_inputs [intro]:
  "only_invalid (evidence_into_input E body)" "only_invalid (assert_into_input E input)"
  unfolding evidence_into_input_def assert_into_input_def
  by (intro only_invalid_intros only_invalid_parsers only_invalid_collect)+

text \<open>A handler that stops before touching anything, for want of a permission or because of its input.\<close>

definition stopped :: "permission \<Rightarrow> (graph_error + 'a) \<times> app_tables \<Rightarrow> app_tables \<Rightarrow> bool" where
  "stopped p r s \<longleftrightarrow> snd r = s \<and> (\<exists>e. fst r = Inl e \<and> (e = PermissionDenied (permission_as_str p) \<or> (\<exists>w. e = InvalidInput w)))"

lemma stopped_check: "only_invalid r \<Longrightarrow> (\<And>a. stopped p (f a s) s) \<Longrightarrow> stopped p (api_bind (api_check r) f s) s"
  by (auto simp: stopped_def only_invalid_def split: sum.splits)

lemma stopped_bind: "stopped p (m s) s \<Longrightarrow> stopped p (api_bind m f s) s"
  by (cases "m s") (auto simp: stopped_def api_bind_def)

lemma stopped_in_db: "m (app_db s) = (Inl (PermissionDenied (permission_as_str p)), app_db s) \<Longrightarrow> stopped p (in_db m s) s"
  by (simp add: stopped_def in_db_def)

lemma stopped_in_local: "m (app_local s) = (Inl (PermissionDenied (permission_as_str p)), app_local s) \<Longrightarrow> stopped p (in_local m s) s"
  by (simp add: stopped_def in_local_def)

lemma stopped_accepting:
  assumes "caller E header s = Some auth" "only_invalid parsed" "\<And>i. stopped p (act auth i s) s"
  shows "stopped p (accepting E header parsed act s) s"
  using assms stopped_check [of parsed p "\<lambda>i. api_bind (act auth i) (\<lambda>_. api_check (Inr Accepted))" s]
  by (auto simp: accepting_caller only_invalid_def stopped_def [of p "(_, _)"] intro!: stopped_bind split: sum.splits)

lemma denied_writes:
  assumes "caller E header s = Some auth" "\<not> allowed auth (required request)" "writes request"
  shows "stopped (required request) (handle E header request s) s"
proof (cases request)
  case (PostAssertion body)
  have "stopped GraphAssert (api_bind (api_check (assert_into_input E body)) (\<lambda>input.
      api_bind (in_db (assert_relation (svc E) (identity E) auth input (clock E))) (\<lambda>aid.
      api_check (Inr (AssertionAccepted (event_id_to_hex (svc E) aid))))) s) s"
    using assms PostAssertion by (intro stopped_check stopped_bind stopped_in_db denied_operations only_invalid_inputs) simp
  then show ?thesis
    using PostAssertion assms(1) by (simp only: handle.simps required.simps h_create_assertion_def api_bind_def [of "api_authenticate E header"]
        api_authenticate_caller option.case prod.case sum.case)
qed (use assms in \<open>auto simp: write_handler_defs denied_operations
    intro!: stopped_accepting stopped_check stopped_in_db stopped_in_local simp del: api_simps\<close>)

lemma denied_reads:
  assumes "caller E header s = Some auth" "\<not> allowed auth (required request)" "\<not> writes request" "request \<noteq> GetStatus"
  shows "handle E header request s = (Inl (PermissionDenied (permission_as_str (required request))), s)"
  using assms
  by (cases request) (simp_all add: read_handler_defs reading_caller h_list_redactions_def api_bind_def [of "api_authenticate E header"]
      api_authenticate_caller list_redactions_def)

lemma strangers_are_refused:
  assumes "caller E header s = None" "request \<noteq> GetStatus"
  shows "handle E header request s = (Inl InvalidApiKey, s)"
  using assms
  by (cases request) (simp_all add: read_handler_defs write_handler_defs reading_caller accepting_caller h_list_redactions_def
      h_create_assertion_def api_bind_def [of "api_authenticate E header"] api_authenticate_caller)

text \<open>
  Every route of \<^verbatim>\<open>handlers.rs\<close> and \<^verbatim>\<open>redaction.rs\<close> but the status page is guarded.  Without the key
  of an active caller it answers 401; a caller without the permission of the route gets 403, on a writing route possibly
  400 for malformed input, and never an answer; in both cases nothing changes.  A reading route never changes anything.
\<close>

theorem routes_are_guarded:
  "(snd (serve_request E header request s) = s \<or>
     (\<exists>auth. caller E header s = Some auth \<and> allowed auth (required request) \<and> writes request)) \<and>
   (request = GetStatus \<or> (case caller E header s of
       None \<Rightarrow> serve_request E header request s = (Json_Error 401 ''invalid api key'', s)
     | Some auth \<Rightarrow> allowed auth (required request) \<or>
         (\<exists>code message. serve_request E header request s = (Json_Error code message, s) \<and> (code = 403 \<or> code = 400 \<and> writes request))))"
proof -
  have frame: "snd (serve_request E header request s) = s" if "\<not> writes request"
    using reads_frame [OF that, of E header s] by (auto simp: serve_request_def split: prod.splits sum.splits)
  have stranger: "serve_request E header request s = (Json_Error 401 ''invalid api key'', s)"
    if "caller E header s = None" "request \<noteq> GetStatus"
    using strangers_are_refused [OF that] by (simp add: serve_request_def)
  have denied: "\<exists>code message. serve_request E header request s = (Json_Error code message, s) \<and> (code = 403 \<or> code = 400 \<and> writes request)"
    if "caller E header s = Some auth" "\<not> allowed auth (required request)" "request \<noteq> GetStatus" for auth
  proof (cases "writes request")
    case True
    with denied_writes [OF that(1,2)] obtain e where "handle E header request s = (Inl e, s)"
        "e = PermissionDenied (permission_as_str (required request)) \<or> (\<exists>w. e = InvalidInput w)"
      by (cases "handle E header request s") (auto simp: stopped_def)
    with True show ?thesis by (auto simp: serve_request_def)
  qed (use denied_reads [OF that(1,2) _ that(3)] in \<open>simp add: serve_request_def\<close>)
  have "snd (serve_request E header request s) = s \<or>
      (\<exists>auth. caller E header s = Some auth \<and> allowed auth (required request) \<and> writes request)"
  proof (cases "caller E header s")
    case None
    then show ?thesis using stranger frame by (cases "request = GetStatus") auto
  next
    case (Some auth)
    show ?thesis
    proof (cases "request = GetStatus \<or> allowed auth (required request)")
      case True
      then show ?thesis using Some frame by (cases "writes request") auto
    next
      case False
      then show ?thesis using denied [OF Some] by fastforce
    qed
  qed
  with stranger denied show ?thesis by (auto split: option.splits)
qed

section \<open>Reads never fail inside\<close>

text \<open>An error that the response blames on the request, a missing object or the embedding provider.\<close>

fun presentable :: "graph_error \<Rightarrow> bool" where
  "presentable (GStorage _) \<longleftrightarrow> False"
| "presentable (GEvents (NotFound _)) \<longleftrightarrow> True"
| "presentable (GEvents _) \<longleftrightarrow> False"
| "presentable _ \<longleftrightarrow> True"

definition only :: "(graph_error \<Rightarrow> bool) \<Rightarrow> graph_error + 'a \<Rightarrow> bool" where
  "only P r \<longleftrightarrow> (\<forall>e. r = Inl e \<longrightarrow> P e)"

abbreviation sound :: "graph_error + 'a \<Rightarrow> bool" where
  "sound \<equiv> only presentable"

lemma sound_intros [intro, simp]:
  "only P (Inr a)" "P e \<Longrightarrow> only P (Inl e)"
  "only P (ok_or e x) \<longleftrightarrow> x \<noteq> None \<or> P e"
  by (auto simp: only_def ok_or_def split: option.splits)

lemma only_invalid_sound: "only_invalid r \<Longrightarrow> sound r"
  by (auto simp: only_invalid_def only_def)

lemma sound_bind [intro]: "only P m \<Longrightarrow> (\<And>a. only P (f a)) \<Longrightarrow> only P (res_bind m f)"
  by (auto simp: only_def res_bind_def split: sum.splits)

lemma sound_collect: "(\<And>x. x \<in> set xs \<Longrightarrow> only P (f x)) \<Longrightarrow> only P (collect_results (map f xs))"
  by (induction xs) auto

lemma presentable_response: "presentable e \<Longrightarrow> \<exists>code message. error_response C e = Json_Error code message \<and> code \<noteq> 500"
  by (induction C e rule: error_response.induct) auto

lemma sound_reads:
  assumes "graph_ok C g"
  shows "only P (res_map_err GStorage (list_by_edge g ei))" "only P (res_map_err GStorage (assertions_list_evidence g ai))"
    "only P (res_map_err GStorage (actors_get_by_id g xi))" "only P (list_aliases g ni)" "only P (list_assertions_for_node g ni)"
    "only P (find_sources g ni)" "only P (res_map_err GStorage (assertions_get_by_id g ai))"
proof -
  show edge: "only P (res_map_err GStorage (list_by_edge g ei))" for ei using list_by_edge_ok [OF assms, of ei] by auto
  show ev: "only P (res_map_err GStorage (assertions_list_evidence g ai))" for ai using list_evidence_ok [OF assms, of ai] by auto
  show "only P (res_map_err GStorage (actors_get_by_id g xi))" using row_to_actor_ok [OF assms, of xi] by auto
  show "only P (list_aliases g ni)"
  proof -
    have "\<exists>a. row_to_alias row = Inr a" if "row \<in> set (node_aliases g)" for row
      using assms that by (auto simp: graph_ok_def aliases_ok_def list_all_iff row_to_alias_def)
    then obtain f where "\<And>row. row \<in> set (node_aliases g) \<Longrightarrow> row_to_alias row = Inr (f row)" by metis
    then have "nodes_list_aliases g ni = Inr (map f (filter (\<lambda>r. ar_node_id r = ni) (node_aliases g)))"
      unfolding nodes_list_aliases_def by (intro collect_results_parse) simp
    then show ?thesis by (simp add: list_aliases_def)
  qed
  show "only P (list_assertions_for_node g ni)"
    unfolding list_assertions_for_node_def by (intro sound_bind sound_collect edge sound_intros)
  have "only P (sources_of g as)" for as by (induction as) (auto intro!: sound_bind ev)
  then have "only P (sources_of_edges g es)" for es by (induction es) (auto intro!: sound_bind edge)
  then show "only P (find_sources g ni)" by (simp add: find_sources_def)
  show "only P (res_map_err GStorage (assertions_get_by_id g ai))"
  proof (cases "lookup_by as_id (assertions g) ai")
    case (Some row)
    then have "row \<in> set (assertions g)" by (auto dest: lookup_by_SomeD)
    then obtain a where "row_to_assertion row = Inr a" using row_to_assertion_ok [OF assms] by blast
    with Some show ?thesis by (simp add: assertions_get_by_id_def)
  qed (simp add: assertions_get_by_id_def)
qed

lemma sound_known_edge:
  assumes "graph_ok C g" "edges_get_by_id g i \<noteq> None"
  shows "only P (get_edge_corroboration C U rn r64 p2 dr now i g)"
proof -
  have tally: "only P (tally C U rn g active (grps, scores))" for active grps scores
    by (induction active arbitrary: grps scores) (auto intro!: sound_bind sound_reads [OF assms(1)])
  have "only P (actor_scores rn g ids)" for ids
    unfolding actor_scores_def by (intro sound_collect sound_bind sound_reads [OF assms(1)] sound_intros)
  with tally assms(2) show ?thesis
    unfolding get_edge_corroboration_def Let_def
    by (auto intro!: sound_bind sound_reads [OF assms(1)] sound_intros(2) split: prod.splits)
qed

lemma sound_corroboration:
  assumes "graph_ok C g"
  shows "(\<And>w. P (GNotFound w)) \<Longrightarrow> only P (get_edge_corroboration C U rn r64 p2 dr now i g)"
    and "only P (list_roadmap_proposals C U rn r64 p2 dr now g)"
proof -
  show "only P (get_edge_corroboration C U rn r64 p2 dr now i g)" if "\<And>w. P (GNotFound w)"
  proof (cases "edges_get_by_id g i = None")
    case True
    then show ?thesis using that by (simp add: get_edge_corroboration_def only_def)
  qed (rule sound_known_edge [OF assms])
  have known: "edges_get_by_id g (edge_id e) \<noteq> None" if "e \<in> set (list_by_predicate_and_object g p n)" for e p n
    using that lookup_by_None_iff [of edge_id "edges g"]
    by (fastforce simp: list_by_predicate_and_object_def edges_get_by_id_def has_key_def row_to_edge_def)
  have "only P (proposals_of (\<lambda>i. get_edge_corroboration C U rn r64 p2 dr now i g) g es)"
    if "\<forall>e\<in>set es. edges_get_by_id g (edge_id e) \<noteq> None" for es
    using that by (induction es) (auto intro!: sound_bind sound_known_edge [OF assms] split: option.splits)
  with known show "only P (list_roadmap_proposals C U rn r64 p2 dr now g)"
    unfolding list_roadmap_proposals_def by (auto intro!: sound_bind split: option.splits)
qed

lemma sound_subgraph:
  assumes "graph_ok C g"
  shows "sound (get_subgraph C dn de start depth m g)"
proof -
  have "\<exists>as. collect_results (map (\<lambda>(i, _). res_map_err GStorage (list_by_edge g i)) ve) = Inr as" for ve :: "(edge_id \<times> edge) list"
    using collect_assertions [OF assms, of ve] by blast
  then have "sound (collect_results (map (\<lambda>(i, _). res_map_err GStorage (list_by_edge g i)) ve))" for ve :: "(edge_id \<times> edge) list"
    by (metis sound_intros(1))
  then show ?thesis unfolding get_subgraph_def Let_def by (auto intro!: sound_bind split: prod.splits)
qed

lemma sound_history:
  assumes "\<forall>row\<in>set (events d). \<exists>v. parse (er_payload row) = Inr v"
  shows "sound (get_history C parse t i d)"
proof -
  have "set (history_for d t h) \<subseteq> set (events d)" for h by (auto simp: history_for_def)
  then have rows: "\<exists>v. parse (er_payload row) = Inr v" if "row \<in> set (history_for d t h)" for row h using assms that by blast
  have "sound (collect_results (map (\<lambda>row. res_bind (res_map_err (\<lambda>e. GEvents (Canonicalize e)) (parse (er_payload row))) (\<lambda>payload.
      Inr \<lparr>he_event_id = er_event_id row, he_event_type = er_event_type row, he_created_at = er_created_at row, he_payload = payload\<rparr>))
      (history_for d t h)))" for h
  proof (rule sound_collect)
    fix row assume "row \<in> set (history_for d t h)"
    from rows [OF this] show "sound (res_bind (res_map_err (\<lambda>e. GEvents (Canonicalize e)) (parse (er_payload row))) (\<lambda>payload.
      Inr \<lparr>he_event_id = er_event_id row, he_event_type = er_event_type row, he_created_at = er_created_at row, he_payload = payload\<rparr>))"
      by auto
  qed
  moreover have "sound (res_map_err (\<lambda>_. InvalidInput w) (hash32_from_str C i))" for w
    by (auto simp: only_def res_map_err_def split: sum.splits)
  ultimately show ?thesis unfolding get_history_def by (auto intro!: sound_bind)
qed

lemma sound_semantic: "sound (semantic_search rn sq B pr q n l g)"
  unfolding semantic_search_def by (intro sound_bind) (auto simp: only_def res_map_err_def Let_def split: sum.splits)

text \<open>The same for handlers.\<close>

lemma sound_handler_bind:
  "sound (case r of Inl e \<Rightarrow> Inl e | Inr a \<Rightarrow> f a) \<longleftrightarrow> sound (res_bind r f)"
  by (simp add: res_bind_def)

lemma reading_sound: "sound (fst (h s)) \<Longrightarrow> sound (fst (reading E header h s))"
  by (auto simp: reading_caller split: option.splits)

lemma bind_sound:
  "sound r \<Longrightarrow> (\<And>a. r = Inr a \<Longrightarrow> sound (fst (f a s))) \<Longrightarrow> sound (fst (api_bind (api_check r) f s))"
  "sound (h s) \<Longrightarrow> (\<And>a. h s = Inr a \<Longrightarrow> sound (fst (f a s))) \<Longrightarrow> sound (fst (api_bind (api_read h) f s))"
  "sound (k (graph (app_db s))) \<Longrightarrow> (\<And>a. sound (fst (f a s))) \<Longrightarrow> sound (fst (api_bind (in_graph k) f s))"
  "sound (fst (m (app_db s))) \<Longrightarrow> snd (m (app_db s)) = app_db s \<Longrightarrow> (\<And>a. sound (fst (f a s))) \<Longrightarrow> sound (fst (api_bind (in_db m) f s))"
  by (auto simp: only_def bind_in_db split: sum.splits prod.splits)

lemma found_sound: "sound (fst (found kind i x s))" "(\<And>a. sound (fst (f a s))) \<Longrightarrow> sound (fst (api_bind (found kind i x) f s))"
  by (auto simp: found_def ok_or_def split: option.splits)

lemma reads_sound:
  assumes "graph_ok (svc E) (graph (app_db s))" "\<forall>row\<in>set (events (app_db s)). \<exists>v. parse_value E (er_payload row) = Inr v"
    and "\<not> writes request"
  shows "sound (fst (handle E header request s))"
proof -
  note rules = reading_sound bind_sound found_sound sound_reads [OF assms(1)] sound_corroboration [OF assms(1)] sound_subgraph [OF assms(1)]
    sound_history [OF assms(2)] sound_semantic only_invalid_parsers [THEN only_invalid_sound]
  show ?thesis using assms(3)
  proof (cases request)
    case GetRedactions
    then show ?thesis
      by (auto simp: h_list_redactions_def api_bind_def [of "api_authenticate E header"] api_authenticate_caller list_redactions_def
          list_suppressed_nodes_def list_actor_redactions_def split: option.splits)
  qed (auto simp: read_handler_defs h_status_def get_assertion_def Let_def intro!: rules simp del: api_simps(1,2) bind_in_graph)
qed

lemma error_response_codes:
  "\<exists>code message. error_response C e = Json_Error code message \<and>
     (if code = 500 then \<not> presentable e \<and> message = ''internal error'' else code \<in> {400, 401, 403, 404, 409, 502})"
  by (induction C e rule: error_response.induct) auto

text \<open>
  C33. On well-formed tables, of the 25 routes of \<^verbatim>\<open>handlers.rs\<close> and \<^verbatim>\<open>redaction.rs\<close> a reading one
  never fails inside: it answers, or blames the request, a missing object or the embedding provider.  A writing one may
  fail inside, and then shows the caller nothing but the words "internal error".  (The crawl, which has error replies of its
  own, is not one of these routes.)
\<close>

theorem reads_never_fail_internally:
  assumes "graph_ok (svc E) (graph (app_db s))" "\<forall>row\<in>set (events (app_db s)). \<exists>v. parse_value E (er_payload row) = Inr v"
  shows "case fst (serve_request E header request s) of
      Json_OK body \<Rightarrow> True
    | Json_Error code message \<Rightarrow> if code = 500 then writes request \<and> message = ''internal error'' else code \<in> {400, 401, 403, 404, 409, 502}"
proof -
  show ?thesis
  proof (cases "handle E header request s")
    case (Pair r s')
    show ?thesis
    proof (cases r)
      case (Inl e)
      from error_response_codes [of "svc E" e] obtain code message where resp: "error_response (svc E) e = Json_Error code message"
          "if code = 500 then \<not> presentable e \<and> message = ''internal error'' else code \<in> {400, 401, 403, 404, 409, 502}" by blast
      have "presentable e" if "\<not> writes request"
        using reads_sound [OF assms that, of header] Pair Inl by (simp add: only_def)
      with resp Pair Inl show ?thesis by (auto simp: serve_request_def split: if_splits)
    qed (use Pair in \<open>simp add: serve_request_def\<close>)
  qed
qed

definition sample_env :: "(byte, byte, string, string) api_env" where
  "sample_env =
     \<lparr>svc = Access.sample_service, identity = 7, uris = no_urls, rnd = id, rnd64 = id, pow2 = \<lambda>_. 1, sqrt32 = id, floats = tenths_format,
      drain_groups = id, drain_nodes = id, drain_edges = id, fts_index = road_fts, provider = DisabledProvider,
      parse_value = \<lambda>_. Inr JNull, parse_rfc3339 = \<lambda>_. Inr 0, clock = \<lambda>_. 0\<rparr>"

definition sample_tables :: app_tables where
  "sample_tables =
     \<lparr>app_db = empty_db\<lparr>graph := empty_graph
        \<lparr>actors := [\<lparr>ac_id = ActorId [], ac_actor_type = ''agent'', ac_name = None, ac_public_key = None,
                    ac_identity_uri = None, ac_metadata = JNull, ac_created_at = 0\<rparr>],
         actor_keys := [\<lparr>ak_key_hash = blake3 Access.sample_service (str_bytes ''k''), ak_actor_id = ActorId [],
                         ak_permissions = [''graph:read''], ak_created_at = 0, ak_revoked_at = None\<rparr>]\<rparr>\<rparr>,
      app_local = no_tables\<rparr>"

lemma sample_caller: "caller sample_env (Some ''Bearer k'') sample_tables = Some \<lparr>auth_actor_id = ActorId [], auth_permissions = [GraphRead]\<rparr>"
  by (simp add: caller_def strip_prefix_def authenticate_def find_active_key_def sample_env_def sample_tables_def permission_parse_def
      List.map_filter_simps)

theorem reads_never_fail_internally_witness:
  "\<exists>message. fst (serve_request sample_env (Some ''Bearer k'') (GetSearch ''road'' None (Some True)) sample_tables) = Json_Error 400 message \<and>
     message \<noteq> ''internal error''"
proof -
  have ok: "graph_ok (svc sample_env) (graph (app_db sample_tables))" "\<forall>row\<in>set (events (app_db sample_tables)). \<exists>v. parse_value sample_env (er_payload row) = Inr v"
    by (simp_all add: sample_env_def sample_tables_def graph_ok_defs empty_graph_def empty_db_def has_key_def actor_type_parse_def)
  have "provider sample_env = DisabledProvider" by (simp add: sample_env_def)
  then show ?thesis
    using reads_never_fail_internally [OF ok, where header = "Some ''Bearer k''" and request = "GetSearch ''road'' None (Some True)"]
    by (simp add: serve_request_def h_search_def reading_caller sample_caller allowed_def semantic_search_def DisabledProvider_def)
qed

end
