(* ===== verification/Journal.thy ===== *)
theory Journal
  imports Service
begin

text \<open>
  What the graph service writes (\<^verbatim>\<open>oag-graph\<close>), as a journal: a run of the peer's own commits and redactions.  A
  run lists the signed events it appended, every one with a payload of a given kind; all writing handlers are such
  runs, and the kind says on whose behalf they write.  The invariants of the database follow once for all runs.
\<close>

named_theorems journal_intros \<open>computations of the graph service that are runs of commits\<close>

section \<open>Runs\<close>

inductive service_run ::
  "('sk, 'vk, 'z) codec_scheme \<Rightarrow> 'sk \<Rightarrow> (event_payload \<Rightarrow> bool) \<Rightarrow> bool \<Rightarrow> db \<Rightarrow> signed_event list \<Rightarrow> db \<Rightarrow> bool"
  for C :: "('sk, 'vk, 'z) codec_scheme" and k :: 'sk and P :: "event_payload \<Rightarrow> bool" and Q :: bool where
  stop: "service_run C k P Q d [] d"
| commit: "next_position d (identity_peer_id C k) = (s, prev) \<Longrightarrow> build_and_sign C k s prev t pl = Inr (sev, eid) \<Longrightarrow> P pl \<Longrightarrow>
     commit_local_event C k pl t d = (Inr r, d1) \<Longrightarrow> service_run C k P Q d1 evs d' \<Longrightarrow> service_run C k P Q d (sev # evs) d'"
| redact: "Q \<Longrightarrow> redact_evidence C auth i reason now d = (Inr u, d1) \<Longrightarrow> service_run C k P Q d1 evs d' \<Longrightarrow> service_run C k P Q d evs d'"
| redact_actor: "Q \<Longrightarrow> redact_actor_identity_uri C auth a reason now d = (Inr u, d1) \<Longrightarrow> service_run C k P Q d1 evs d' \<Longrightarrow>
     service_run C k P Q d evs d'"

lemma service_run_append:
  "service_run C k P Q d evs d1 \<Longrightarrow> service_run C k P Q d1 evs' d' \<Longrightarrow> service_run C k P Q d (evs @ evs') d'"
  by (induction rule: service_run.induct) (auto intro: service_run.intros)

lemma service_run_mono:
  "service_run C k P Q d evs d' \<Longrightarrow> (\<And>pl. P pl \<Longrightarrow> P' pl) \<Longrightarrow> (Q \<Longrightarrow> Q') \<Longrightarrow> service_run C k P' Q' d evs d'"
  by (induction rule: service_run.induct) (auto intro: service_run.intros)

lemma service_run_payloads: "service_run C k P Q d evs d' \<Longrightarrow> \<forall>sev\<in>set evs. P (ue_payload (se_unsigned sev))"
  by (induction rule: service_run.induct) (auto elim!: build_and_sign_fields)

text \<open>A run appends one row of the peer's own chain per listed event.\<close>

lemma commit_appends_row:
  assumes "commit_local_event C k pl t d = (Inr r, d')"
  obtains row where "events d' = events d @ [row]" "er_origin row = identity_peer_id C k"
proof (cases rule: transaction_cases [of "commit_body C k pl t" d])
  case (committed a d1)
  with assms that show ?thesis
    by (auto simp: commit_local_event_def commit_body_def Let_def insert_event_def dest!: project_events
        split: prod.splits if_splits)
qed (use assms in \<open>simp add: commit_local_event_def\<close>)

lemma service_run_log:
  assumes "service_run C k P Q d evs d'"
  shows "\<exists>rows. events d' = events d @ rows \<and> length rows = length evs \<and> (\<forall>row\<in>set rows. er_origin row = identity_peer_id C k)"
  using assms
proof induction
  case (commit d s prev t pl sev eid r d1 evs d')
  from commit.hyps(4) obtain row where row: "events d1 = events d @ [row]" "er_origin row = identity_peer_id C k"
    by (rule commit_appends_row)
  from commit.IH obtain rows where "events d' = events d1 @ rows" "length rows = length evs"
      "\<forall>row\<in>set rows. er_origin row = identity_peer_id C k" by blast
  with row show ?case by (intro exI [of _ "row # rows"]) simp
qed (auto dest: redact_evidence_committed(5) redact_actor_committed(4))

lemma service_run_db_ok:
  assumes "service_run C k P Q d evs d'" "db_ok C S d" "set evs \<subseteq> S" "length (events d') < 2 ^ 64 - 1"
    and codec: "codecs_ok C" "collision_free C S" "readable C S"
  shows "db_ok C S d'"
  using assms(1-4)
proof induction
  case (commit d s prev t pl sev eid r d1 evs d')
  from commit.hyps(4) obtain row where "events d1 = events d @ [row]" by (rule commit_appends_row)
  moreover obtain rows where "events d' = events d1 @ rows" using service_run_log [OF commit.hyps(5)] by blast
  ultimately have "length (events d) < 2 ^ 64 - 1" using commit.prems(3) by simp
  then have "db_ok C S (snd (commit_local_event C k pl t d))"
    using commit.prems(1,2) commit.hyps(2) by (intro commit_db_ok [OF _ _ codec commit.hyps(1)]) auto
  with commit show ?case by simp
qed (auto dest: redact_db_ok)

section \<open>Journalled computations\<close>

definition journalled ::
  "('sk, 'vk, 'z) codec_scheme \<Rightarrow> 'sk \<Rightarrow> (event_payload \<Rightarrow> bool) \<Rightarrow> bool \<Rightarrow> 'a svc \<Rightarrow> bool" where
  "journalled C k P Q m \<longleftrightarrow> (\<forall>d. \<exists>evs. service_run C k P Q d evs (snd (m d)))"

lemma journalled_mono:
  "journalled C k P Q m \<Longrightarrow> (\<And>pl. P pl \<Longrightarrow> P' pl) \<Longrightarrow> (Q \<Longrightarrow> Q') \<Longrightarrow> journalled C k P' Q' m"
  unfolding journalled_def using service_run_mono by metis

lemma journalled_check [journal_intros]: "journalled C k P Q (svc_check r)"
  by (auto simp: journalled_def svc_check_def intro: service_run.stop)

lemma journalled_bind [journal_intros]:
  assumes "journalled C k P Q m" "\<And>a. journalled C k P Q (f a)"
  shows "journalled C k P Q (svc_bind m f)"
  unfolding journalled_def
proof
  fix d
  obtain r d1 where m: "m d = (r, d1)" by fastforce
  with assms(1) obtain evs where run: "service_run C k P Q d evs d1" unfolding journalled_def by (metis snd_conv)
  show "\<exists>evs. service_run C k P Q d evs (snd (svc_bind m f d))"
  proof (cases r)
    case (Inr a)
    obtain evs' where "service_run C k P Q d1 evs' (snd (f a d1))" using assms(2) unfolding journalled_def by blast
    with run m Inr show ?thesis by (auto simp: svc_bind_def intro: service_run_append)
  qed (use m run in \<open>auto simp: svc_bind_def\<close>)
qed

lemma journalled_query: "(\<And>d. snd (m d) = d) \<Longrightarrow> journalled C k P Q m"
  by (auto simp: journalled_def intro: service_run.stop)

lemma journalled_get_assertion [journal_intros]: "journalled C k P Q (get_assertion i)"
  by (rule journalled_query) (simp add: get_assertion_def)

lemma journalled_commit [journal_intros]:
  assumes "P pl"
  shows "journalled C k P Q (commit_event C k pl t)"
  unfolding journalled_def
proof
  fix d
  obtain r d1 where run: "commit_local_event C k pl t d = (r, d1)" by fastforce
  show "\<exists>evs. service_run C k P Q d evs (snd (commit_event C k pl t d))"
  proof (cases r)
    case (Inl e)
    with run have "d1 = d" using commit_event_InlD [of C k pl t d "GEvents e" d1] by (simp add: commit_event_def)
    with run Inl show ?thesis by (auto simp: commit_event_def intro: service_run.stop)
  next
    case (Inr a)
    obtain s prev where pos: "next_position d (identity_peer_id C k) = (s, prev)" by fastforce
    with run Inr obtain sev eid where "build_and_sign C k s prev t pl = Inr (sev, eid)"
      by (auto simp: commit_local_event_def transaction_def commit_body_def Let_def split: sum.splits prod.splits)
    with pos run Inr assms show ?thesis
      by (auto simp: commit_event_def intro!: service_run.commit service_run.stop)
  qed
qed

lemma journalled_redact [journal_intros]:
  "Q \<Longrightarrow> journalled C k P Q (redact_evidence C auth i reason now)"
  "Q \<Longrightarrow> journalled C k P Q (redact_actor_identity_uri C auth a reason now)"
  unfolding journalled_def
  by (metis redaction_failed service_run.stop service_run.redact service_run.redact_actor surjective_pairing old.sum.exhaust)+

section \<open>On whose behalf a handler writes\<close>

text \<open>The events that a request may write for an actor: claims in its own name, evidence and aliases.\<close>

fun attributed :: "('sk, 'vk, 'z) crypto_scheme \<Rightarrow> actor_id \<Rightarrow> event_payload \<Rightarrow> bool" where
  "attributed C a (AssertRelation p) \<longleftrightarrow> asr_actor_id p = hash32_to_hex C (actor_hash a)"
| "attributed C a (AddEvidence p) \<longleftrightarrow> True"
| "attributed C a (VerifyAssertion p) \<longleftrightarrow> vfy_observer_actor_id p = hash32_to_hex C (actor_hash a)"
| "attributed C a (DisputeAssertion p) \<longleftrightarrow> dsp_actor_id p = hash32_to_hex C (actor_hash a)"
| "attributed C a (RetractAssertion p) \<longleftrightarrow> ret_actor_id p = hash32_to_hex C (actor_hash a)"
| "attributed C a (SupersedeAssertion p) \<longleftrightarrow> sup_actor_id p = hash32_to_hex C (actor_hash a)"
| "attributed C a (ActorDeclare p) \<longleftrightarrow> False"
| "attributed C a (ActorKeyAdd p) \<longleftrightarrow> False"
| "attributed C a (ActorKeyRevoke p) \<longleftrightarrow> False"
| "attributed C a (NodeAlias p) \<longleftrightarrow> True"

text \<open>The payloads that the handlers write, for any kind of payload.\<close>

lemma journalled_evidence [journal_intros]:
  "(\<And>p. ade_uri p = ei_uri e \<Longrightarrow> ade_content_hash p = ei_content_hash e \<Longrightarrow> P (AddEvidence p)) \<Longrightarrow>
     journalled C k P Q (add_evidence_internal C k i e t)"
  unfolding add_evidence_internal_def by (intro journal_intros) simp

lemma journalled_evidence_each:
  assumes "\<And>e p. e \<in> set es \<Longrightarrow> ade_uri p = ei_uri e \<Longrightarrow> ade_content_hash p = ei_content_hash e \<Longrightarrow> P (AddEvidence p)"
  shows "journalled C k P Q (add_evidence_each C k i es now n)"
  using assms by (induction es arbitrary: n) (auto intro!: journalled_bind journalled_check journalled_evidence)

lemma journalled_assert:
  assumes "P (AssertRelation (assert_payload C auth input))"
    and "\<And>e p. e \<in> set (in_evidence input) \<Longrightarrow> ade_uri p = ei_uri e \<Longrightarrow> ade_content_hash p = ei_content_hash e \<Longrightarrow> P (AddEvidence p)"
  shows "journalled C k P Q (assert_relation C k auth input now)"
  using assms unfolding assert_relation_def
  by (auto intro!: journalled_bind journalled_check journalled_commit journalled_evidence_each split: prod.splits)

lemma journalled_alias:
  "(\<And>p. nal_alias_type p = alias_type_as_str ty \<Longrightarrow> P (NodeAlias p)) \<Longrightarrow> journalled C k P Q (declare_alias C k auth n alias ty t)"
  unfolding declare_alias_def by (auto intro!: journal_intros)

lemma journalled_declare:
  assumes "\<And>p. adc_actor_type p = actor_type_as_str ty \<Longrightarrow> adc_name p = name \<Longrightarrow> adc_identity_uri p = uri \<Longrightarrow>
    (pf = None \<Longrightarrow> adc_public_key p = None) \<Longrightarrow> P (ActorDeclare p)"
  shows "journalled C k P Q (declare_actor C k ty name uri pf t)"
proof -
  have key: "journalled C k P Q (svc_bind (svc_check (transpose_opt (map_option (check_key_proof C ty name uri) pf))) f)"
    if "\<And>key. (pf = None \<Longrightarrow> key = None) \<Longrightarrow> journalled C k P Q (f key)" for f :: "string option \<Rightarrow> actor_id option svc"
    using that journalled_check [of C k P Q]
    by (cases "transpose_opt (map_option (check_key_proof C ty name uri) pf)")
      (auto simp: journalled_def svc_bind_def svc_check_def transpose_opt_def split: option.splits sum.splits)
  show ?thesis
    unfolding declare_actor_def
    by (rule journalled_bind, rule journalled_check, rule journalled_bind, rule journalled_check, rule key)
      (auto intro!: journal_intros assms split: prod.splits)
qed

lemma declare_actor_total:
  assumes "declare_actor C k ty name uri pf t d = (Inr a, d')"
  shows "a \<noteq> None"
proof -
  obtain p eid out d1 where commit: "commit_local_event C k (ActorDeclare p) t d = (Inr (eid, out), d1)"
    and a: "a = (case out of ActorDeclared i \<Rightarrow> Some i | Unit \<Rightarrow> None)"
    using assms unfolding declare_actor_def by (auto elim!: svc_bind_InrE simp: commit_event_Inr svc_check_def)
  from commit obtain refs where "project_graph C eid t (ActorDeclare p) (graph d) = Inr (out, graph d1, refs)"
    by (rule commit_projects)
  then show ?thesis by (auto simp: a project_graph_def project_actor_declare_def Let_def split: option.splits)
qed

lemma journalled_handlers [journal_intros]:
  "journalled C k (attributed C (auth_actor_id auth)) Q (assert_relation C k auth input now)"
  "journalled C k (attributed C (auth_actor_id auth)) Q (declare_alias C k auth n alias ty t)"
  by (auto intro!: journalled_assert journalled_alias simp: assert_payload_def Let_def split: prod.splits)

lemma journalled_more_handlers [journal_intros]:
  "journalled C k (attributed C (auth_actor_id auth)) Q (add_evidence C k auth i e t)"
  "journalled C k (attributed C (auth_actor_id auth)) Q (verify_assertion C k auth i result observed t)"
  "journalled C k (attributed C (auth_actor_id auth)) Q (dispute_assertion C k auth i reason t)"
  "journalled C k (attributed C (auth_actor_id auth)) Q (retract_assertion C k auth i reason t)"
  "journalled C k (attributed C (auth_actor_id auth)) Q (supersede_assertion C k auth i new t)"
  by (auto simp: add_evidence_def verify_assertion_def dispute_assertion_def retract_assertion_def supersede_assertion_def
      intro!: journal_intros)

end
