(* ===== verification/Extract.thy ===== *)
theory Extract
  imports Robots
begin

text \<open>
  What the crawler reads out of a page (\<^verbatim>\<open>oag-crawler/src/extract\<close> and \<^verbatim>\<open>llm_extract.rs\<close>): facts and aliases from
  llms.txt, markdown, schema.org JSON-LD, ARD, agent cards and HTML metadata, and candidates of a language model.
  Outside code are the HTML parser with its selectors, \<^verbatim>\<open>serde_json\<close> and \<^verbatim>\<open>serde\<close>'s derived readers, and the URL
  crate's \<^verbatim>\<open>join\<close>.
\<close>

section \<open>Facts and aliases (mod.rs)\<close>

record extracted_fact =
  xf_subject :: string
  xf_subject_type :: "string option"
  xf_predicate :: string
  xf_object :: string
  xf_object_type :: "string option"

record extracted_alias =
  xa_node_identifier :: string
  xa_alias :: string
  xa_alias_type :: alias_type

record extracted_page =
  facts :: "extracted_fact list"
  aliases_found :: "extracted_alias list"

definition no_extract :: extracted_page where "no_extract = \<lparr>facts = [], aliases_found = []\<rparr>"

definition merge :: "extracted_page \<Rightarrow> extracted_page \<Rightarrow> extracted_page" where
  "merge page other = \<lparr>facts = facts page @ facts other, aliases_found = aliases_found page @ aliases_found other\<rparr>"

definition push_fact :: "extracted_fact \<Rightarrow> extracted_page \<Rightarrow> extracted_page" where
  "push_fact f page = page\<lparr>facts := facts page @ [f]\<rparr>"

definition push_name :: "string \<Rightarrow> string \<Rightarrow> extracted_page \<Rightarrow> extracted_page" where
  "push_name i name page = page\<lparr>aliases_found := aliases_found page @ [\<lparr>xa_node_identifier = i, xa_alias = name, xa_alias_type = Name\<rparr>]\<rparr>"

text \<open>\<^verbatim>\<open>Url::port\<close> is absent for a default port; the number is printed in decimal.\<close>

definition origin_of :: "('u, 'z) web_scheme \<Rightarrow> ('u \<Rightarrow> 16 word option) \<Rightarrow> 'u \<Rightarrow> string" where
  "origin_of N explicit_port url =
     (let host = (case web_host N url of Some h \<Rightarrow> h | None \<Rightarrow> []) in
      case explicit_port url of
        Some port \<Rightarrow> web_scheme N url @ ''://'' @ host @ '':'' @ nat_to_string (unat port)
      | None \<Rightarrow> web_scheme N url @ ''://'' @ host)"

text \<open>An element of a parsed page with what is below it.\<close>

datatype html = HtmlText string | HtmlElement string "(string \<times> string) list" "html list" | HtmlOther "html list"

fun html_text :: "html \<Rightarrow> string list" where
  "html_text (HtmlText t) = [t]"
| "html_text (HtmlElement name attrs kids) = concat (map html_text kids)"
| "html_text (HtmlOther kids) = concat (map html_text kids)"

fun visible_text :: "html \<Rightarrow> string list" where
  "visible_text (HtmlText t) = [t]"
| "visible_text (HtmlElement name attrs kids) =
     (if name = ''script'' \<or> name = ''style'' then [] else concat (map visible_text kids))"
| "visible_text (HtmlOther kids) = concat (map visible_text kids)"

fun html_attr :: "html \<Rightarrow> string \<Rightarrow> string option" where
  "html_attr (HtmlElement name attrs kids) key = map_of attrs key"
| "html_attr _ key = None"

type_synonym scraper = "string \<Rightarrow> string \<Rightarrow> html list"

definition body_text :: "scraper \<Rightarrow> string \<Rightarrow> nat \<Rightarrow> string" where
  "body_text select page max_chars =
     (let parts = (case select page ''body'' of [] \<Rightarrow> [] | body # _ \<Rightarrow> visible_text body)
      in take max_chars (join_with '' '' (split_whitespace (join_with '' '' parts))))"

section \<open>llms.txt (llms\_txt.rs)\<close>

definition str_find :: "char \<Rightarrow> string \<Rightarrow> nat option" where
  "str_find c s = (if c \<in> set s then Some (length (takeWhile (\<lambda>x. x \<noteq> c) s)) else None)"

text \<open>The slice \<^verbatim>\<open>s[a..b]\<close>.\<close>

definition slice :: "nat \<Rightarrow> nat \<Rightarrow> string \<Rightarrow> string" where
  "slice a b s = take (b - a) (drop a s)"

definition parse_markdown_link :: "string \<Rightarrow> (string \<times> string) option" where
  "parse_markdown_link s =
     Option.bind (str_find CHR ''['' s) (\<lambda>open_bracket.
     Option.bind (str_find CHR '']'' (drop open_bracket s)) (\<lambda>n.
     let close_bracket = open_bracket + n;
         text = slice (open_bracket + 1) close_bracket s;
         rest = drop (close_bracket + 1) s in
     Option.bind (str_find CHR ''('' rest) (\<lambda>open_paren.
     Option.bind (str_find CHR '')'' (drop open_paren rest)) (\<lambda>m.
     let close_paren = open_paren + m;
         url = slice (open_paren + 1) close_paren rest in
     if url = [] then None else Some (text, url)))))"

definition link_fact :: "string \<Rightarrow> string \<Rightarrow> extracted_fact" where
  "link_fact site_origin resolved =
     \<lparr>xf_subject = site_origin, xf_subject_type = None, xf_predicate = ''links_to'', xf_object = resolved, xf_object_type = None\<rparr>"

text \<open>One line: the title is taken once, a bullet with a link becomes a fact.\<close>

definition llms_line :: "(string \<Rightarrow> string option) \<Rightarrow> string \<Rightarrow> string \<Rightarrow> string option \<times> extracted_page \<Rightarrow> string option \<times> extracted_page" where
  "llms_line join site_origin raw_line st =
     (case st of (title, page) \<Rightarrow>
      let line = trim raw_line in
      case (if title = None then strip_prefix ''# '' line else None) of
        Some rest \<Rightarrow> (if trim rest \<noteq> [] then Some (trim rest) else title, page)
      | None \<Rightarrow>
          (case (case strip_prefix ''- '' line of Some rest \<Rightarrow> Some rest | None \<Rightarrow> strip_prefix ''* '' line) of
             None \<Rightarrow> (title, page)
           | Some rest \<Rightarrow>
               (case parse_markdown_link rest of
                  None \<Rightarrow> (title, page)
                | Some (link_text, url) \<Rightarrow>
                    (title, push_fact (link_fact site_origin (case join url of Some u \<Rightarrow> u | None \<Rightarrow> url)) page))))"

text \<open>\<open>join url\<close> is \<^verbatim>\<open>base_url.join(url)\<close> as a string.\<close>

definition llms_txt_parse :: "(string \<Rightarrow> string option) \<Rightarrow> string \<Rightarrow> string \<Rightarrow> extracted_page" where
  "llms_txt_parse join site_origin body =
     (case fold (llms_line join site_origin) (str_lines body) (None, no_extract) of
        (Some title, page) \<Rightarrow> push_name site_origin title page
      | (None, page) \<Rightarrow> page)"

section \<open>Markdown (markdown.rs)\<close>

definition trim_start :: "string \<Rightarrow> string" where
  "trim_start s = dropWhile is_whitespace s"

definition heading :: "string \<Rightarrow> string option" where
  "heading line =
     Option.bind (strip_prefix ''# '' (trim_start line)) (\<lambda>rest. if trim rest = [] then None else Some (trim rest))"

definition markdown_extract :: "string \<Rightarrow> string \<Rightarrow> extracted_page" where
  "markdown_extract markdown page_url =
     (case List.map_filter heading (str_lines markdown) of
        title # _ \<Rightarrow> push_name page_url title no_extract
      | [] \<Rightarrow> no_extract)"

section \<open>JSON-LD (json\_ld.rs)\<close>

fun as_str :: "json \<Rightarrow> string option" where
  "as_str (JString s) = Some s"
| "as_str _ = None"

definition get_str :: "(string \<rightharpoonup> json) \<Rightarrow> string \<Rightarrow> string option" where
  "get_str obj key = Option.bind (obj key) as_str"

definition node_types :: "(string \<rightharpoonup> json) \<Rightarrow> string list" where
  "node_types obj = (case obj ''@type'' of
       Some (JString s) \<Rightarrow> [to_lowercase s]
     | Some (JArray arr) \<Rightarrow> map to_lowercase (List.map_filter as_str arr)
     | _ \<Rightarrow> [])"

definition page_fact :: "string \<Rightarrow> string option \<Rightarrow> string \<Rightarrow> string \<Rightarrow> string option \<Rightarrow> extracted_fact" where
  "page_fact page_url subject_type predicate obj object_type =
     \<lparr>xf_subject = page_url, xf_subject_type = subject_type, xf_predicate = predicate, xf_object = obj, xf_object_type = object_type\<rparr>"

definition push_same_as :: "string \<Rightarrow> string \<Rightarrow> extracted_page \<Rightarrow> extracted_page" where
  "push_same_as page_url target = push_fact (page_fact page_url None ''related_to'' target None)"

definition push_trimmed_name :: "string \<Rightarrow> string option \<Rightarrow> extracted_page \<Rightarrow> extracted_page" where
  "push_trimmed_name i name page = (case name of
       Some n \<Rightarrow> if trim n \<noteq> [] then push_name i (trim n) page else page
     | None \<Rightarrow> page)"

definition process_node :: "(string \<rightharpoonup> json) \<Rightarrow> string \<Rightarrow> extracted_page \<Rightarrow> extracted_page" where
  "process_node obj page_url page =
     (let types = node_types obj;
          page = push_trimmed_name page_url (get_str obj ''name'') page;
          page = (if list_ex (\<lambda>t. t = ''softwareapplication'' \<or> t = ''softwaresourcecode'') types
                  then let page = push_fact (page_fact page_url (Some ''software'') ''instance_of'' ''concept:software'' (Some ''concept'')) page
                       in case get_str obj ''codeRepository'' of
                            Some repo \<Rightarrow> push_fact (page_fact page_url (Some ''software'') ''repository_at'' repo (Some ''repository'')) page
                          | None \<Rightarrow> page
                  else page);
          page = (if list_ex (\<lambda>t. t = ''organization'') types
                  then case get_str obj ''url'' of
                         Some org_url \<Rightarrow> push_fact (page_fact page_url None ''operated_by'' org_url (Some ''organization'')) page
                       | None \<Rightarrow> page
                  else page)
      in case obj ''sameAs'' of
           Some (JString s) \<Rightarrow> push_same_as page_url s page
         | Some (JArray arr) \<Rightarrow> fold (push_same_as page_url) (List.map_filter as_str arr) page
         | _ \<Rightarrow> page)"

text \<open>The items of \<^verbatim>\<open>@graph\<close> are processed like those of an array; \<open>processed\<close> holds the processing of every member.\<close>

definition process_object ::
  "(string \<rightharpoonup> json) \<Rightarrow> (string \<rightharpoonup> (string \<Rightarrow> extracted_page \<Rightarrow> extracted_page)) \<Rightarrow> string \<Rightarrow> extracted_page \<Rightarrow> extracted_page" where
  "process_object obj processed page_url page =
     (case (obj ''@graph'', processed ''@graph'') of
        (Some (JArray _), Some process) \<Rightarrow> process page_url page
      | _ \<Rightarrow> process_node obj page_url page)"

primrec process_document :: "json \<Rightarrow> string \<Rightarrow> extracted_page \<Rightarrow> extracted_page" where
  "process_document JNull = (\<lambda>page_url page. page)"
| "process_document (JBool b) = (\<lambda>page_url page. page)"
| "process_document (JNumber n) = (\<lambda>page_url page. page)"
| "process_document (JString s) = (\<lambda>page_url page. page)"
| "process_document (JArray items) = (\<lambda>page_url. fold (\<lambda>process. process page_url) (map process_document items))"
| "process_document (JObject obj) = process_object obj (map_option process_document \<circ> obj)"

definition extract_from_json :: "(string \<Rightarrow> json option) \<Rightarrow> string \<Rightarrow> string \<Rightarrow> extracted_page" where
  "extract_from_json read body page_url = (case read body of
       Some v \<Rightarrow> process_document v page_url no_extract
     | None \<Rightarrow> no_extract)"

definition LD_JSON_SELECTOR :: string where
  "LD_JSON_SELECTOR = ''script[type=\"application/ld+json\"]''"

definition extract_from_html :: "(string \<Rightarrow> json option) \<Rightarrow> scraper \<Rightarrow> string \<Rightarrow> string \<Rightarrow> extracted_page" where
  "extract_from_html read select page page_url =
     fold (\<lambda>el acc. case read (concat (html_text el)) of Some v \<Rightarrow> process_document v page_url acc | None \<Rightarrow> acc)
       (select page LD_JSON_SELECTOR) no_extract"

section \<open>HTML metadata (html\_meta.rs)\<close>

definition html_meta_extract :: "scraper \<Rightarrow> string \<Rightarrow> string \<Rightarrow> extracted_page" where
  "html_meta_extract select html page_url =
     (let title = (case select html ''title'' of [] \<Rightarrow> [] | el # _ \<Rightarrow> trim (concat (html_text el)));
          page = (if title \<noteq> [] then push_name page_url title no_extract else no_extract)
      in case select html ''meta[property=\"og:title\"]'' of
           [] \<Rightarrow> page
         | el # _ \<Rightarrow>
             (case html_attr el ''content'' of
                None \<Rightarrow> page
              | Some content \<Rightarrow>
                  if trim content \<noteq> [] \<and> trim content \<noteq> title then push_name page_url (trim content) page else page))"

section \<open>Agent cards and ARD (a2a.rs, ard.rs)\<close>

record agent_provider = pv_organization :: "string option"  pv_url :: "string option"
record agent_skill = sk_name :: "string option"  sk_id :: "string option"
record agent_card =
  card_name :: "string option"
  card_provider :: "agent_provider option"
  card_skills :: "agent_skill list"

definition or_else :: "'a option \<Rightarrow> 'a option \<Rightarrow> 'a option" where
  "or_else x y = (case x of Some a \<Rightarrow> Some a | None \<Rightarrow> y)"

definition push_opt :: "(string \<Rightarrow> extracted_fact) \<Rightarrow> string option \<Rightarrow> extracted_page \<Rightarrow> extracted_page" where
  "push_opt f x page = (case x of Some s \<Rightarrow> push_fact (f s) page | None \<Rightarrow> page)"

definition a2a_parse :: "(string \<Rightarrow> agent_card option) \<Rightarrow> string \<Rightarrow> string \<Rightarrow> extracted_page" where
  "a2a_parse read body agent_url = (case read body of
       None \<Rightarrow> no_extract
     | Some agent \<Rightarrow>
         let about = page_fact agent_url (Some ''agent'');
             page = push_fact (about ''instance_of'' ''concept:a2a-agent'' (Some ''concept'')) no_extract;
             page = push_trimmed_name agent_url (card_name agent) page;
             page = (case card_provider agent of
                       Some provider \<Rightarrow> push_opt (\<lambda>org. about ''operated_by'' org (Some ''organization''))
                                          (or_else (pv_url provider) (pv_organization provider)) page
                     | None \<Rightarrow> page)
         in fold (\<lambda>skill. push_opt (\<lambda>c. about ''provides_capability'' c (Some ''capability'')) (or_else (sk_name skill) (sk_id skill)))
              (card_skills agent) page)"

record ard_operator = op_name :: "string option"  op_url :: "string option"
record ard_resource =
  rs_name :: "string option"
  rs_type :: "string option"
  rs_url :: "string option"
  rs_capabilities :: "string list"
  rs_operator :: "ard_operator option"

definition ard_node_type :: "string option \<Rightarrow> string" where
  "ard_node_type resource_type = (case resource_type of
       Some t \<Rightarrow> if eq_ignore_ascii_case t ''mcp_server'' \<or> eq_ignore_ascii_case t ''mcp-server'' then ''mcp_server'' else ''agent''
     | None \<Rightarrow> ''agent'')"

definition ard_one :: "string \<Rightarrow> ard_resource \<Rightarrow> extracted_page \<Rightarrow> extracted_page" where
  "ard_one site_origin r page =
     (let resource_id = (case rs_url r of Some u \<Rightarrow> u | None \<Rightarrow> site_origin);
          node_type = ard_node_type (rs_type r);
          about = page_fact resource_id (Some node_type);
          page = push_fact (about ''instance_of'' (''concept:'' @ node_type) (Some ''concept'')) page;
          page = push_trimmed_name resource_id (rs_name r) page;
          page = (case rs_operator r of
                    Some operator \<Rightarrow> push_opt (\<lambda>org. about ''operated_by'' org (Some ''organization''))
                                       (or_else (op_url operator) (op_name operator)) page
                  | None \<Rightarrow> page)
      in fold (\<lambda>c. push_fact (about ''provides_capability'' c (Some ''capability''))) (rs_capabilities r) page)"

definition ard_parse :: "(string \<Rightarrow> ard_resource list option) \<Rightarrow> string \<Rightarrow> string \<Rightarrow> extracted_page" where
  "ard_parse read body site_origin = (case read body of
       None \<Rightarrow> no_extract
     | Some resources \<Rightarrow> fold (ard_one site_origin) resources no_extract)"

section \<open>Language model (llm\_extract.rs)\<close>

text \<open>A confidence is the bit pattern of an \<^verbatim>\<open>f32\<close>; \<^verbatim>\<open>clamp\<close> leaves a NaN alone.\<close>

record candidate =
  cd_subject :: string
  cd_predicate :: string
  cd_object :: string
  cd_confidence :: "32 word"

definition ONE_F32 :: "32 word" where "ONE_F32 = 0x3F800000"
definition INF_F32 :: "32 word" where "INF_F32 = 0x7F800000"
definition NEG_ZERO_F32 :: "32 word" where "NEG_ZERO_F32 = 0x80000000"
definition NEG_INF_F32 :: "32 word" where "NEG_INF_F32 = 0xFF800000"

definition clamp_unit :: "32 word \<Rightarrow> 32 word" where
  "clamp_unit b =
     (if NEG_ZERO_F32 < b \<and> b \<le> NEG_INF_F32 then 0
      else if ONE_F32 < b \<and> b \<le> INF_F32 then ONE_F32
      else b)"

lemma drop_prefix_shorter: "p \<noteq> [] \<Longrightarrow> take (length p) s = p \<Longrightarrow> length s - length p < length s"
  by (cases s) auto

function trim_start_matches :: "string \<Rightarrow> string \<Rightarrow> string" where
  "trim_start_matches p s =
     (if p \<noteq> [] \<and> take (length p) s = p then trim_start_matches p (drop (length p) s) else s)"
  by pat_completeness auto
termination
  by (relation "measure (\<lambda>(p, s). length s)") (auto intro: drop_prefix_shorter)

declare trim_start_matches.simps [simp del]

definition trim_end_matches :: "string \<Rightarrow> string \<Rightarrow> string" where
  "trim_end_matches p s = rev (trim_start_matches (rev p) (rev s))"

definition parse_candidates :: "(string \<Rightarrow> candidate list option) \<Rightarrow> string \<Rightarrow> candidate list" where
  "parse_candidates read content =
     (let trimmed = trim (trim_end_matches ''```'' (trim_start_matches ''```'' (trim_start_matches ''```json'' (trim content))))
      in case read trimmed of
           None \<Rightarrow> []
         | Some raw \<Rightarrow>
             map (\<lambda>c. c\<lparr>cd_confidence := clamp_unit (cd_confidence c)\<rparr>)
               (filter (\<lambda>c. trim (cd_subject c) \<noteq> [] \<and> trim (cd_predicate c) \<noteq> [] \<and> trim (cd_object c) \<noteq> []) raw))"

definition build_prompt :: "string \<Rightarrow> string \<Rightarrow> string" where
  "build_prompt page_text source_url =
     ''You extract factual subject-predicate-object relationships from web page content. The page is at '' @ source_url @ ''.'' @
     [CHR 0x0A, CHR 0x0A] @
     ''Respond with ONLY a JSON array (no markdown fences, no commentary). Each element must be an object with exactly these keys: '' @
     ''\"subject\" (string), \"predicate\" (a short snake_case verb phrase), \"object\" (string), and '' @
     ''\"confidence\" (a number from 0.0 to 1.0 reflecting how directly the text states this). '' @
     ''If nothing can be confidently extracted, respond with [].'' @ [CHR 0x0A, CHR 0x0A] @ ''Page content:'' @ [CHR 0x0A] @ page_text"

text \<open>
  \<open>extract\<close> gives \<open>None\<close> for an error, which the crawler ignores.  \<open>chat url prompt\<close> is the request to a chat server: the
  contents of its choices, or an error.
\<close>

record llm_extractor =
  llm_extract :: "string \<Rightarrow> string \<Rightarrow> candidate list option"
  llm_model_name :: string

definition DisabledExtractor :: llm_extractor where
  "DisabledExtractor = \<lparr>llm_extract = \<lambda>_ _. Some [], llm_model_name = []\<rparr>"

definition OpenAiCompatibleExtractor ::
  "(string \<Rightarrow> string \<Rightarrow> string list option) \<Rightarrow> (string \<Rightarrow> candidate list option) \<Rightarrow> string \<Rightarrow> string \<Rightarrow> llm_extractor" where
  "OpenAiCompatibleExtractor chat read base_url model =
     \<lparr>llm_extract = \<lambda>page_text source_url.
        map_option (\<lambda>choices. parse_candidates read (case choices of [] \<Rightarrow> [] | content # _ \<Rightarrow> content))
          (chat (trim_end_matches ''/'' base_url @ ''/chat/completions'') (build_prompt page_text source_url)),
      llm_model_name = model\<rparr>"

section \<open>What the extractors find\<close>

text \<open>A well-formed llms.txt: a title and a list of links.\<close>

definition render_bullet :: "string \<times> string \<Rightarrow> string" where
  "render_bullet l = ''- ['' @ fst l @ ''](''  @ snd l @ '')''"

definition render_llms :: "string \<Rightarrow> (string \<times> string) list \<Rightarrow> string" where
  "render_llms title links = concat (map (\<lambda>l. l @ [CHR 0x0A]) ((''# '' @ title) # map render_bullet links))"

definition plain_link :: "string \<times> string \<Rightarrow> bool" where
  "plain_link l \<longleftrightarrow> CHR '']'' \<notin> set (fst l) \<and> CHR 0x0A \<notin> set (fst l) \<and> snd l \<noteq> [] \<and> CHR '')'' \<notin> set (snd l) \<and> CHR 0x0A \<notin> set (snd l)"

lemma takeWhile_until: "c \<notin> set l \<Longrightarrow> takeWhile (\<lambda>x. x \<noteq> c) (l @ c # rest) = l"
  by (induction l) auto

lemma parse_rendered_link:
  assumes "plain_link l"
  shows "parse_markdown_link (CHR ''['' # fst l @ CHR '']'' # CHR ''('' # snd l @ '')'') = Some l"
  using assms
  by (simp add: parse_markdown_link_def str_find_def slice_def plain_link_def takeWhile_until)

lemma trim_bullet: "trim (render_bullet l) = render_bullet l"
  by (simp add: trim_id_iff render_bullet_def is_whitespace_def)

lemma llms_line_bullet:
  assumes "plain_link l" "title \<noteq> None"
  shows "llms_line join site (render_bullet l) (title, page) =
    (title, push_fact (link_fact site (case join (snd l) of Some u \<Rightarrow> u | None \<Rightarrow> snd l)) page)"
  using parse_rendered_link [OF assms(1)] assms(2)
  by (cases l) (auto simp: llms_line_def Let_def trim_bullet, auto simp: render_bullet_def strip_prefix_def split: option.splits)

lemma llms_fold_bullets:
  assumes "\<forall>l\<in>set links. plain_link l"
  shows "fold (llms_line join site) (map render_bullet links) (Some title, page) =
    (Some title, page\<lparr>facts := facts page @ map (\<lambda>l. link_fact site (case join (snd l) of Some u \<Rightarrow> u | None \<Rightarrow> snd l)) links\<rparr>)"
  using assms by (induction links arbitrary: page) (simp_all add: llms_line_bullet push_fact_def)

text \<open>
  C40. A well-formed llms.txt reads back: one \<^verbatim>\<open>links_to\<close> fact of the site per link, in order, with the link's target
  resolved against the file's address where that is possible, and the title as the only name of the site.
\<close>

theorem llms_txt_round_trip:
  assumes "title \<noteq> []" "trim title = title" "CHR 0x0A \<notin> set title" "\<forall>l\<in>set links. plain_link l"
  shows "llms_txt_parse join site (render_llms title links) =
    \<lparr>facts = map (\<lambda>l. link_fact site (case join (snd l) of Some u \<Rightarrow> u | None \<Rightarrow> snd l)) links,
     aliases_found = [\<lparr>xa_node_identifier = site, xa_alias = title, xa_alias_type = Name\<rparr>]\<rparr>"
proof -
  let ?lines = "(''# '' @ title) # map render_bullet links"
  have "\<forall>l\<in>set ?lines. CHR 0x0A \<notin> set l" using assms(3,4) by (auto simp: render_bullet_def plain_link_def)
  moreover have "strip_cr l = l" if "l \<in> set ?lines" for l
    using that assms(1,2) trim_id_iff [of title] by (auto simp: strip_cr_def render_bullet_def is_whitespace_def)
  ultimately have lines: "str_lines (render_llms title links) = ?lines"
    unfolding render_llms_def by (subst str_lines_rendered) (auto intro: map_idI)
  have "trim (''# '' @ title) = ''# '' @ title"
    using assms(1,2) trim_id_iff [of title] by (auto simp: trim_id_iff is_whitespace_def)
  then have "llms_line join site (''# '' @ title) (None, no_extract) = (Some title, no_extract)"
    using assms(1,2) by (simp add: llms_line_def strip_prefix_def)
  with llms_fold_bullets [OF assms(4)] show ?thesis
    by (simp add: llms_txt_parse_def lines push_name_def no_extract_def)
qed

theorem llms_txt_round_trip_witness:
  "llms_txt_parse (\<lambda>u. if u = ''/a'' then Some ''https://x.org/a'' else None) ''https://x.org'' (render_llms ''Docs'' [(''A'', ''/a''), (''[B'', ''b'')]) =
   \<lparr>facts = [link_fact ''https://x.org'' ''https://x.org/a'', link_fact ''https://x.org'' ''b''],
    aliases_found = [\<lparr>xa_node_identifier = ''https://x.org'', xa_alias = ''Docs'', xa_alias_type = Name\<rparr>]\<rparr>"
  by (subst llms_txt_round_trip) (auto simp: trim_def is_whitespace_def plain_link_def)

text \<open>
  The comment of \<^verbatim>\<open>parse_markdown_link\<close> speaks of \<^verbatim>\<open>[text](url)\<close> at the start of the line; brackets and parentheses
  anywhere after each other are enough.  And a file with a title and no link names a site about which it states no fact.
\<close>

lemma loose_link: "parse_markdown_link ''see [1] and (above)'' = Some (''1'', ''above'')"
  by (simp add: parse_markdown_link_def str_find_def slice_def)

lemma title_without_fact:
  "llms_txt_parse join site (render_llms ''Docs'' []) =
     \<lparr>facts = [], aliases_found = [\<lparr>xa_node_identifier = site, xa_alias = ''Docs'', xa_alias_type = Name\<rparr>]\<rparr>"
  by (simp add: llms_txt_parse_def render_llms_def str_lines_def strip_cr_def llms_line_def trim_def is_whitespace_def strip_prefix_def
      push_name_def no_extract_def)

text \<open>Everything an extractor finds is about given subjects, under one of six predicates, and every name has a text.\<close>

definition PREDICATES :: "string list" where
  "PREDICATES = [''links_to'', ''instance_of'', ''operated_by'', ''provides_capability'', ''repository_at'', ''related_to'']"

definition about :: "string set \<Rightarrow> extracted_page \<Rightarrow> bool" where
  "about subjects page \<longleftrightarrow>
     (\<forall>f\<in>set (facts page). xf_subject f \<in> subjects \<and> xf_predicate f \<in> set PREDICATES) \<and>
     (\<forall>a\<in>set (aliases_found page). xa_node_identifier a \<in> subjects \<and> xa_alias a \<noteq> [] \<and> xa_alias_type a = Name)"

named_theorems about_intros \<open>extraction steps that stay with their subjects\<close>

lemma about_no_extract [about_intros]: "about X no_extract"
  by (simp add: about_def no_extract_def)

lemma about_push [about_intros]:
  "about X page \<Longrightarrow> xf_subject f \<in> X \<Longrightarrow> xf_predicate f \<in> set PREDICATES \<Longrightarrow> about X (push_fact f page)"
  "about X page \<Longrightarrow> i \<in> X \<Longrightarrow> name \<noteq> [] \<Longrightarrow> about X (push_name i name page)"
  "about X page \<Longrightarrow> i \<in> X \<Longrightarrow> about X (push_trimmed_name i nm page)"
  by (auto simp: about_def push_fact_def push_name_def push_trimmed_name_def split: option.splits)

lemma about_push_opt [about_intros]:
  "about X page \<Longrightarrow> (\<And>s. xf_subject (f s) \<in> X \<and> xf_predicate (f s) \<in> set PREDICATES) \<Longrightarrow> about X (push_opt f x page)"
  by (auto simp: push_opt_def intro: about_push split: option.splits)

lemma about_fold: "about X page \<Longrightarrow> (\<And>x p. x \<in> set xs \<Longrightarrow> about X p \<Longrightarrow> about X (f x p)) \<Longrightarrow> about X (fold f xs page)"
  by (induction xs arbitrary: page) auto

lemma about_merge [about_intros]: "about X page \<Longrightarrow> about X other \<Longrightarrow> about X (merge page other)"
  by (auto simp: about_def merge_def)

lemma about_mono: "about X page \<Longrightarrow> X \<subseteq> Y \<Longrightarrow> about Y page"
  by (auto simp: about_def)

lemma page_fact_fields [simp]:
  "xf_subject (page_fact u st p obj ot) = u" "xf_predicate (page_fact u st p obj ot) = p"
  by (simp_all add: page_fact_def)

lemma about_process_node: "about {page_url} page \<Longrightarrow> about {page_url} (process_node obj page_url page)"
  by (auto simp: process_node_def push_same_as_def Let_def PREDICATES_def intro!: about_intros about_fold split: option.splits json.splits)

lemma about_process_document: "about {page_url} page \<Longrightarrow> about {page_url} (process_document v page_url page)"
proof (induction v arbitrary: page)
  case (JArray items)
  then show ?case by (auto simp: fold_map intro!: about_fold)
next
  case (JObject obj)
  have "about {page_url} (process_document v page_url page)" if "obj ''@graph'' = Some v" for v
    using that by (intro JObject.IH [of "Some v"] JObject.prems) (auto intro: range_eqI [of _ _ "''@graph''"])
  with about_process_node [OF JObject.prems] show ?case
    by (auto simp: process_object_def split: option.splits json.splits)
qed simp_all

lemma about_extractors [about_intros]:
  "about {site} (llms_txt_parse join site body)"
  "about {page_url} (markdown_extract markdown page_url)"
  "about {page_url} (extract_from_json read body page_url)"
  "about {page_url} (extract_from_html read select page page_url)"
  "about {page_url} (html_meta_extract select page page_url)"
  "about {agent_url} (a2a_parse read_card body agent_url)"
proof -
  have line: "about {site} (snd (llms_line join site l st)) \<and> fst (llms_line join site l st) \<noteq> Some []"
    if "about {site} (snd st)" "fst st \<noteq> Some []" for l st
    using that by (auto simp: llms_line_def Let_def link_fact_def PREDICATES_def intro!: about_push split: prod.splits option.splits)
  have "about {site} (snd (fold (llms_line join site) ls st)) \<and> fst (fold (llms_line join site) ls st) \<noteq> Some []"
    if "about {site} (snd st)" "fst st \<noteq> Some []" for ls st
    using that by (induction ls arbitrary: st) (use line in auto)
  from this [of "(None, no_extract)" "str_lines body"] show "about {site} (llms_txt_parse join site body)"
    by (auto simp: llms_txt_parse_def about_no_extract intro: about_push split: prod.splits option.splits)
  have "\<forall>t\<in>set (List.map_filter heading (str_lines markdown)). t \<noteq> []"
    by (auto simp: set_map_filter heading_def split: if_splits Option.bind_splits)
  then show "about {page_url} (markdown_extract markdown page_url)"
    by (auto simp: markdown_extract_def intro!: about_intros split: list.splits)
  show "about {page_url} (extract_from_json read body page_url)"
    by (auto simp: extract_from_json_def intro!: about_intros about_process_document split: option.splits)
  show "about {page_url} (extract_from_html read select page page_url)"
    by (auto simp: extract_from_html_def intro!: about_fold about_intros about_process_document split: option.splits)
  show "about {page_url} (html_meta_extract select page page_url)"
    by (auto simp: html_meta_extract_def Let_def intro!: about_intros split: list.splits option.splits)
  show "about {agent_url} (a2a_parse read_card body agent_url)"
    by (auto simp: a2a_parse_def Let_def PREDICATES_def intro!: about_fold about_intros split: option.splits)
qed

lemma about_ard:
  "about (insert site (\<Union>rs. {u. read body = Some rs \<and> (\<exists>r\<in>set rs. rs_url r = Some u)})) (ard_parse read body site)"
proof (cases "read body")
  case (Some rs)
  have "about X (ard_one site r page)" if "about X page" "(case rs_url r of Some u \<Rightarrow> u | None \<Rightarrow> site) \<in> X" for X r page
    using that by (auto simp: ard_one_def Let_def PREDICATES_def intro!: about_fold about_intros split: option.splits)
  with Some show ?thesis
    by (fastforce simp: ard_parse_def intro!: about_fold about_no_extract split: option.splits)
qed (simp add: ard_parse_def about_no_extract)

text \<open>A candidate has a subject, a predicate and an object, and its confidence is a number from 0 to 1.\<close>

definition unit_float :: "32 word \<Rightarrow> bool" where
  "unit_float b \<longleftrightarrow> b \<le> ONE_F32 \<or> b = NEG_ZERO_F32"

definition not_a_number :: "32 word \<Rightarrow> bool" where
  "not_a_number b \<longleftrightarrow> INF_F32 < b \<and> b < NEG_ZERO_F32 \<or> NEG_INF_F32 < b"

lemma clamp_unit_range: "\<not> not_a_number b \<Longrightarrow> unit_float (clamp_unit b)"
  unfolding clamp_unit_def unit_float_def not_a_number_def
  by (auto simp: ONE_F32_def INF_F32_def NEG_ZERO_F32_def NEG_INF_F32_def not_less not_le)

lemma parse_candidates_sound:
  assumes "\<And>t raw c. read t = Some raw \<Longrightarrow> c \<in> set raw \<Longrightarrow> \<not> not_a_number (cd_confidence c)"
  shows "\<forall>c\<in>set (parse_candidates read content).
    trim (cd_subject c) \<noteq> [] \<and> trim (cd_predicate c) \<noteq> [] \<and> trim (cd_object c) \<noteq> [] \<and> unit_float (cd_confidence c)"
  using assms by (auto simp: parse_candidates_def Let_def split: option.splits) (metis clamp_unit_range)

end
