(* ===== verification/Crawl.thy ===== *)
theory Crawl
  imports Journal Extract Api
begin

text \<open>
  The crawler service (\<^verbatim>\<open>oag-crawler/src/crawler.rs\<close>) and the endpoint that starts it (\<^verbatim>\<open>oag-api/src/crawl.rs\<close>): one
  crawl checks the crawl rules, fetches the page, asserts what the extractors found through the graph service, asks a
  language model, and looks for three well-known documents of the site.
\<close>

section \<open>State and environment\<close>

record crawl_summary =
  sum_page_url :: string
  facts_asserted :: nat
  facts_skipped :: nat
  aliases_declared :: nat
  llms_txt_found :: bool
  ard_found :: bool
  a2a_found :: bool
  llm_candidates_asserted :: nat

text \<open>
  What a crawl sends out: a connection of the fetcher, the content given to the pinning provider, and the text and address
  given to the language model. The last two have HTTP clients of their own, for the servers the operator configured.
\<close>

datatype outbound = To_Web connection | is_To_Pinning: To_Pinning "byte list" | is_To_Model: To_Model string string

text \<open>
  A crawl counts its calls of the graph service and its fetches, since clock and web may answer differently each time;
  it also keeps what it sent out.
\<close>

record crawl_state =
  cs_tables :: app_tables
  cs_summary :: crawl_summary
  cs_calls :: nat
  cs_fetches :: nat
  cs_connections :: "outbound list"

record ('sk, 'vk, 'u, 'w) crawl_env = "('sk, 'vk, 'u, 'w) api_env" +
  nets :: "nat \<Rightarrow> 'u web"
  explicit_port :: "'u \<Rightarrow> 16 word option"
  robots_txt_url :: "'u \<Rightarrow> 'u option"
  utf8_lossy :: "byte list \<Rightarrow> string"
  crawl_config :: crawler_config
  selecting :: scraper
  read_json :: "string \<Rightarrow> json option"
  read_card :: "string \<Rightarrow> agent_card option"
  read_ard :: "string \<Rightarrow> ard_resource list option"
  llm :: llm_extractor
  pin_content :: "byte list \<Rightarrow> string option"
  ticks :: "nat \<Rightarrow> nat \<Rightarrow> int"

type_synonym 'a crawling = "crawl_state \<Rightarrow> (crawl_error + 'a) \<times> crawl_state"

definition crawl_bind :: "'a crawling \<Rightarrow> ('a \<Rightarrow> 'b crawling) \<Rightarrow> 'b crawling" where
  "crawl_bind m f s = (case m s of (Inl e, s') \<Rightarrow> (Inl e, s') | (Inr a, s') \<Rightarrow> f a s')"

definition crawl_check :: "crawl_error + 'a \<Rightarrow> 'a crawling" where
  "crawl_check r s = (r, s)"

definition attempt :: "'a crawling \<Rightarrow> (crawl_error + 'a) crawling" where
  "attempt m s = (case m s of (r, s') \<Rightarrow> (Inr r, s'))"

definition summarize :: "(crawl_summary \<Rightarrow> crawl_summary) \<Rightarrow> unit crawling" where
  "summarize f s = (Inr (), s\<lparr>cs_summary := f (cs_summary s)\<rparr>)"

text \<open>A call of the graph service, and a fetch.\<close>

definition graph_call ::
  "('sk, 'vk, 'u, 'w, 'z) crawl_env_scheme \<Rightarrow> ((nat \<Rightarrow> int) \<Rightarrow> 'a svc) \<Rightarrow> 'a crawling" where
  "graph_call E m s = (case m (ticks E (cs_calls s)) (app_db (cs_tables s)) of
       (r, d) \<Rightarrow> (res_map_err CrawlGraph r,
                  s\<lparr>cs_tables := (cs_tables s)\<lparr>app_db := d\<rparr>, cs_calls := Suc (cs_calls s)\<rparr>))"

definition now_ts :: "('sk, 'vk, 'u, 'w, 'z) crawl_env_scheme \<Rightarrow> int crawling" where
  "now_ts E s = (Inr (ticks E (cs_calls s) 0), s\<lparr>cs_calls := Suc (cs_calls s)\<rparr>)"

definition fetching ::
  "('sk, 'vk, 'u, 'w, 'z) crawl_env_scheme \<Rightarrow> 'u \<Rightarrow> 'u fetched_page crawling" where
  "fetching E url s = (case safe_fetch (svc E) (nets E (cs_fetches s)) (crawl_config E) url of
       (r, conns) \<Rightarrow> (r, s\<lparr>cs_fetches := Suc (cs_fetches s), cs_connections := cs_connections s @ map To_Web conns\<rparr>))"

definition robots ::
  "('sk, 'vk, 'u, 'w, 'z) crawl_env_scheme \<Rightarrow> 'u \<Rightarrow> robots_rules crawling" where
  "robots E url s = (case check_robots (svc E) (nets E (cs_fetches s)) (robots_txt_url E) (utf8_lossy E) (crawl_config E) url of
       (rules, conns) \<Rightarrow> (Inr rules, s\<lparr>cs_fetches := Suc (cs_fetches s), cs_connections := cs_connections s @ map To_Web conns\<rparr>))"

text \<open>Content for the pinning provider, and a page for the language model; a failure is no answer.\<close>

definition pinning :: "('sk, 'vk, 'u, 'w, 'z) crawl_env_scheme \<Rightarrow> byte list \<Rightarrow> string option crawling" where
  "pinning E body s = (Inr (pin_content E body), s\<lparr>cs_connections := cs_connections s @ [To_Pinning body]\<rparr>)"

definition extracting :: "('sk, 'vk, 'u, 'w, 'z) crawl_env_scheme \<Rightarrow> string \<Rightarrow> string \<Rightarrow> candidate list option crawling" where
  "extracting E text final s = (Inr (llm_extract (llm E) text final), s\<lparr>cs_connections := cs_connections s @ [To_Model text final]\<rparr>)"

section \<open>Actors of the crawler\<close>

definition find_by_name_and_type :: "string \<Rightarrow> actor_type \<Rightarrow> graph \<Rightarrow> storage_error + actor option" where
  "find_by_name_and_type name ty g =
     transpose_opt (map_option row_to_actor
       (find (\<lambda>r. ac_name r = Some name \<and> ac_actor_type r = actor_type_as_str ty) (actors g)))"

definition find_actor_by_name :: "string \<Rightarrow> actor_type \<Rightarrow> actor option svc" where
  "find_actor_by_name name ty d = (res_map_err GStorage (find_by_name_and_type name ty (graph d)), d)"

definition CRAWLER_ACTOR_NAME :: string where "CRAWLER_ACTOR_NAME = ''crawler''"

text \<open>The actor of that name and type, declared if there is none; \<^verbatim>\<open>unreachable!\<close> of \<open>declare_actor\<close> is a panic.\<close>

definition stable_actor ::
  "('sk, 'vk, 'u, 'w, 'z) crawl_env_scheme \<Rightarrow> string \<Rightarrow> actor_type \<Rightarrow> auth_context crawling" where
  "stable_actor E name ty =
     crawl_bind (graph_call E (\<lambda>now. find_actor_by_name name ty)) (\<lambda>known.
     crawl_bind (case known of
         Some actor \<Rightarrow> crawl_check (Inr (actor_id actor))
       | None \<Rightarrow> crawl_bind (graph_call E (\<lambda>now. declare_actor (svc E) (identity E) ty (Some name) None None (now 0)))
                   (\<lambda>declared. crawl_check (ok_or CrawlPanic declared))) (\<lambda>i.
       crawl_check (Inr \<lparr>auth_actor_id = i, auth_permissions = [GraphAssert]\<rparr>)))"

definition crawler_auth :: "('sk, 'vk, 'u, 'w, 'z) crawl_env_scheme \<Rightarrow> auth_context crawling" where
  "crawler_auth E = stable_actor E CRAWLER_ACTOR_NAME Crawler"

definition llm_extractor_auth :: "('sk, 'vk, 'u, 'w, 'z) crawl_env_scheme \<Rightarrow> auth_context crawling" where
  "llm_extractor_auth E = stable_actor E (''llm-extractor:'' @ llm_model_name (llm E)) Model"

section \<open>Asserting what was found\<close>

definition LLM_EXTRACTION_MAX_CHARS :: nat where "LLM_EXTRACTION_MAX_CHARS = 8000"

text \<open>The bit patterns of 0.95, 0.7 and 0.5.\<close>

definition CONF_95 :: "32 word" where "CONF_95 = 0x3F733333"
definition CONF_70 :: "32 word" where "CONF_70 = 0x3F333333"
definition CONF_50 :: "32 word" where "CONF_50 = 0x3F000000"

definition document_evidence :: "string \<Rightarrow> string \<Rightarrow> string \<Rightarrow> int \<Rightarrow> string option \<Rightarrow> evidence_input" where
  "document_evidence kind uri content_hash retrieved_at pinned_cid =
     \<lparr>ei_evidence_type = Some kind, ei_uri = Some uri, ei_title = None, ei_excerpt = None, ei_content_hash = Some content_hash,
      ei_observed_at = None, ei_retrieved_at = Some retrieved_at, ei_pinned_cid = pinned_cid, ei_metadata = None\<rparr>"

definition fact_input :: "evidence_input \<Rightarrow> 32 word \<Rightarrow> extracted_fact \<Rightarrow> assert_input" where
  "fact_input evidence confidence f =
     \<lparr>in_subject = xf_subject f, in_subject_type = xf_subject_type f, in_predicate = xf_predicate f, in_object = xf_object f,
      in_object_type = xf_object_type f, in_evidence = [evidence], in_actor_confidence = Some confidence, in_observed_at = None,
      in_extraction_method = Some StructuredExtraction\<rparr>"

definition candidate_input :: "evidence_input \<Rightarrow> candidate \<Rightarrow> assert_input" where
  "candidate_input evidence c =
     \<lparr>in_subject = cd_subject c, in_subject_type = None, in_predicate = cd_predicate c, in_object = cd_object c, in_object_type = None,
      in_evidence = [evidence\<lparr>ei_evidence_type := Some ''agent_observation''\<rparr>], in_actor_confidence = Some (cd_confidence c),
      in_observed_at = None, in_extraction_method = Some LlmExtraction\<rparr>"

definition asserting ::
  "('sk, 'vk, 'u, 'w, 'z) crawl_env_scheme \<Rightarrow> auth_context \<Rightarrow> assert_input \<Rightarrow> assertion_id crawling" where
  "asserting E auth input = graph_call E (assert_relation (svc E) (identity E) auth input)"

text \<open>Asserts every input and counts the successes with \<open>good\<close>; a refused one is skipped.\<close>

fun assert_each ::
  "('sk, 'vk, 'u, 'w, 'z) crawl_env_scheme \<Rightarrow> auth_context \<Rightarrow> (crawl_summary \<Rightarrow> crawl_summary) \<Rightarrow> assert_input list \<Rightarrow> unit crawling" where
  "assert_each E auth good [] = crawl_check (Inr ())"
| "assert_each E auth good (i # is) =
     crawl_bind (attempt (asserting E auth i)) (\<lambda>result.
     crawl_bind (summarize (case result of Inr _ \<Rightarrow> good | Inl _ \<Rightarrow> facts_skipped_update Suc)) (\<lambda>_.
       assert_each E auth good is))"

definition resolve_node_id :: "('sk, 'vk, 'u, 'w, 'z) crawl_env_scheme \<Rightarrow> string \<Rightarrow> node_id crawling" where
  "resolve_node_id E i s =
     (case resolve (svc E) (fts_index E) i (app_local (cs_tables s)) (graph (app_db (cs_tables s))) of
        Found n confidence \<Rightarrow> (Inr (node_id n), s)
      | _ \<Rightarrow> (Inl (CrawlGraph (GNotFound (''node for '' @ i))), s))"

fun declare_each ::
  "('sk, 'vk, 'u, 'w, 'z) crawl_env_scheme \<Rightarrow> auth_context \<Rightarrow> extracted_alias list \<Rightarrow> unit crawling" where
  "declare_each E auth [] = crawl_check (Inr ())"
| "declare_each E auth (a # as) =
     crawl_bind (attempt (crawl_bind (resolve_node_id E (xa_node_identifier a)) (\<lambda>nid.
       graph_call E (\<lambda>now. declare_alias (svc E) (identity E) auth nid (xa_alias a) (xa_alias_type a) (now 0))))) (\<lambda>result.
     crawl_bind (case result of Inr _ \<Rightarrow> summarize (aliases_declared_update Suc) | Inl _ \<Rightarrow> crawl_check (Inr ())) (\<lambda>_.
       declare_each E auth as))"

definition assert_extracted ::
  "('sk, 'vk, 'u, 'w, 'z) crawl_env_scheme \<Rightarrow> auth_context \<Rightarrow> extracted_page \<Rightarrow> evidence_input \<Rightarrow> 32 word \<Rightarrow> unit crawling" where
  "assert_extracted E auth page evidence confidence =
     crawl_bind (assert_each E auth (facts_asserted_update Suc) (map (fact_input evidence confidence) (facts page))) (\<lambda>_.
       declare_each E auth (aliases_found page))"

section \<open>A crawl\<close>

definition is_html :: "string \<Rightarrow> bool" where
  "is_html mime \<longleftrightarrow> mime = ''text/html'' \<or> mime = ''application/xhtml+xml''"

definition baseline :: "string \<Rightarrow> bool \<Rightarrow> evidence_input \<Rightarrow> assert_input" where
  "baseline url html evidence =
     \<lparr>in_subject = url, in_subject_type = Some (if html then ''website'' else ''document''), in_predicate = ''instance_of'',
      in_object = (if html then ''concept:website'' else ''concept:document''), in_object_type = Some ''concept'',
      in_evidence = [evidence], in_actor_confidence = Some CONF_95, in_observed_at = None,
      in_extraction_method = Some StructuredExtraction\<rparr>"

definition extract_page ::
  "('sk, 'vk, 'u, 'w, 'z) crawl_env_scheme \<Rightarrow> string \<Rightarrow> string \<Rightarrow> string \<Rightarrow> extracted_page" where
  "extract_page E mime body_str final =
     (if is_html mime
      then merge (merge no_extract (html_meta_extract (selecting E) body_str final))
             (extract_from_html (read_json E) (selecting E) body_str final)
      else if mime = ''application/ld+json'' then merge no_extract (extract_from_json (read_json E) body_str final)
      else if mime = ''text/markdown'' then merge no_extract (markdown_extract body_str final)
      else no_extract)"

definition ask_model ::
  "('sk, 'vk, 'u, 'w, 'z) crawl_env_scheme \<Rightarrow> string \<Rightarrow> string \<Rightarrow> evidence_input \<Rightarrow> unit crawling" where
  "ask_model E body_str final page_evidence =
     (let text = body_text (selecting E) body_str LLM_EXTRACTION_MAX_CHARS in
      if trim text = [] then crawl_check (Inr ())
      else crawl_bind (extracting E text final) (\<lambda>answer.
           case answer of
             None \<Rightarrow> crawl_check (Inr ())
           | Some [] \<Rightarrow> crawl_check (Inr ())
           | Some candidates \<Rightarrow>
               crawl_bind (llm_extractor_auth E) (\<lambda>llm_auth.
                 assert_each E llm_auth (llm_candidates_asserted_update Suc) (map (candidate_input page_evidence) candidates))))"

text \<open>A well-known document: looked up below the crawled address, ignored when it cannot be fetched.\<close>

definition side_document ::
  "('sk, 'vk, 'u, 'w, 'z) crawl_env_scheme \<Rightarrow> auth_context \<Rightarrow> 'u \<Rightarrow> string \<Rightarrow> string \<Rightarrow> 32 word \<Rightarrow> ('u \<Rightarrow> string \<Rightarrow> extracted_page)
     \<Rightarrow> (crawl_summary \<Rightarrow> crawl_summary) \<Rightarrow> unit crawling" where
  "side_document E auth url path kind confidence parse mark =
     (case web_join (nets E 0) url path of
        None \<Rightarrow> crawl_check (Inr ())
      | Some side_url \<Rightarrow>
          crawl_bind (attempt (fetching E side_url)) (\<lambda>fetched.
          case fetched of
            Inl _ \<Rightarrow> crawl_check (Inr ())
          | Inr side \<Rightarrow>
              crawl_bind (now_ts E) (\<lambda>t.
              crawl_bind (assert_extracted E auth (parse side_url (utf8_lossy E (page_body side)))
                 (document_evidence kind (url_to_string (svc E) side_url) (page_hash side) t None) confidence) (\<lambda>_.
                summarize mark))))"

definition side_documents ::
  "('sk, 'vk, 'u, 'w, 'z) crawl_env_scheme \<Rightarrow> auth_context \<Rightarrow> 'u \<Rightarrow> string \<Rightarrow> unit crawling" where
  "side_documents E auth url final =
     crawl_bind (side_document E auth url ''/llms.txt'' ''documentation'' CONF_50
        (\<lambda>side_url body. llms_txt_parse (\<lambda>href. map_option (url_to_string (svc E)) (web_join (nets E 0) side_url href))
           (origin_of (nets E 0) (explicit_port E) side_url) body)
        (llms_txt_found_update (\<lambda>_. True))) (\<lambda>_.
     crawl_bind (side_document E auth url ''/.well-known/ard.json'' ''api_response'' CONF_70
        (\<lambda>_ body. ard_parse (read_ard E) body (origin_of (nets E 0) (explicit_port E) url)) (ard_found_update (\<lambda>_. True))) (\<lambda>_.
     side_document E auth url ''/.well-known/agent-card.json'' ''api_response'' CONF_70
        (\<lambda>_ body. a2a_parse (read_card E) body final) (a2a_found_update (\<lambda>_. True))))"

definition crawl_inner :: "('sk, 'vk, 'u, 'w, 'z) crawl_env_scheme \<Rightarrow> 'u \<Rightarrow> unit crawling" where
  "crawl_inner E url =
     crawl_bind (crawler_auth E) (\<lambda>auth.
     crawl_bind (summarize (sum_page_url_update (\<lambda>_. url_to_string (svc E) url))) (\<lambda>_.
     crawl_bind (robots E url) (\<lambda>rules.
     if \<not> is_allowed rules (url_path (svc E) url) then crawl_check (Inl RobotsDisallowed) else
     crawl_bind (fetching E url) (\<lambda>page.
     let final = url_to_string (svc E) (final_url page);
         html = is_html (content_type page);
         body_str = utf8_lossy E (page_body page) in
     crawl_bind (pinning E (page_body page)) (\<lambda>pinned_cid.
     crawl_bind (now_ts E) (\<lambda>t.
     let page_evidence = document_evidence ''web_page'' final (page_hash page) t pinned_cid in
     crawl_bind (asserting E auth (baseline final html page_evidence)) (\<lambda>_.
     crawl_bind (summarize (facts_asserted_update Suc)) (\<lambda>_.
     crawl_bind (assert_extracted E auth (extract_page E (content_type page) body_str final) page_evidence CONF_70) (\<lambda>_.
     crawl_bind (if html then ask_model E body_str final page_evidence else crawl_check (Inr ())) (\<lambda>_.
       side_documents E auth url final))))))))))"

definition empty_summary :: crawl_summary where
  "empty_summary = \<lparr>sum_page_url = [], facts_asserted = 0, facts_skipped = 0, aliases_declared = 0, llms_txt_found = False,
     ard_found = False, a2a_found = False, llm_candidates_asserted = 0\<rparr>"

definition start_crawl :: "app_tables \<Rightarrow> crawl_state" where
  "start_crawl tables = \<lparr>cs_tables = tables, cs_summary = empty_summary, cs_calls = 0, cs_fetches = 0, cs_connections = []\<rparr>"

text \<open>The service with its two counters.\<close>

record crawler_service =
  cr_tables :: app_tables
  crawls_total :: "64 word"
  crawls_failed :: "64 word"

definition crawl ::
  "('sk, 'vk, 'u, 'w, 'z) crawl_env_scheme \<Rightarrow> 'u \<Rightarrow> crawler_service \<Rightarrow> ((crawl_error + crawl_summary) \<times> outbound list) \<times> crawler_service" where
  "crawl E url S =
     (let S = S\<lparr>crawls_total := crawls_total S + 1\<rparr> in
      case crawl_inner E url (start_crawl (cr_tables S)) of
        (Inl e, s) \<Rightarrow> ((Inl e, cs_connections s), S\<lparr>cr_tables := cs_tables s, crawls_failed := crawls_failed S + 1\<rparr>)
      | (Inr _, s) \<Rightarrow> ((Inr (cs_summary s), cs_connections s), S\<lparr>cr_tables := cs_tables s\<rparr>))"

section \<open>What a crawl may do\<close>

text \<open>The events of a crawl: claims marked as extracted by machine, evidence with its source and hash, names, and the crawler's own actors.\<close>

fun crawled :: "event_payload \<Rightarrow> bool" where
  "crawled (AssertRelation p) \<longleftrightarrow> asr_extraction_method p \<in> {extraction_method_as_str StructuredExtraction, extraction_method_as_str LlmExtraction}"
| "crawled (AddEvidence p) \<longleftrightarrow> ade_uri p \<noteq> None \<and> ade_content_hash p \<noteq> None"
| "crawled (NodeAlias p) \<longleftrightarrow> nal_alias_type p = alias_type_as_str Name"
| "crawled (ActorDeclare p) \<longleftrightarrow> adc_actor_type p \<in> {actor_type_as_str Crawler, actor_type_as_str Model} \<and> adc_public_key p = None \<and> adc_identity_uri p = None"
| "crawled _ \<longleftrightarrow> False"

text \<open>
  What a crawl may send out is a budget of fetches, of at most six connections each, pinned contents and questions to the
  language model. Connections of the fetcher are confined to public addresses unless the operator allowed private networks,
  and a question carries no more than the permitted number of characters.
\<close>

datatype errand = A_Fetch | A_Pin | A_Question

definition web_connections :: "outbound list \<Rightarrow> connection list" where
  "web_connections tr = List.map_filter (\<lambda>x. case x of To_Web c \<Rightarrow> Some c | _ \<Rightarrow> None) tr"

definition within_budget :: "errand multiset \<Rightarrow> outbound list \<Rightarrow> bool" where
  "within_budget b tr \<longleftrightarrow> length (web_connections tr) \<le> 6 * count b A_Fetch \<and>
     length (filter is_To_Pinning tr) \<le> count b A_Pin \<and> length (filter is_To_Model tr) \<le> count b A_Question"

fun permitted :: "bool \<Rightarrow> outbound \<Rightarrow> bool" where
  "permitted private (To_Web c) \<longleftrightarrow> private \<or> confined c"
| "permitted private (To_Pinning body) \<longleftrightarrow> True"
| "permitted private (To_Model text url) \<longleftrightarrow> length text \<le> LLM_EXTRACTION_MAX_CHARS"

lemma web_connections_simps [simp]:
  "web_connections [] = []" "web_connections (a @ b) = web_connections a @ web_connections b"
  "web_connections (map To_Web conns) = conns"
  "web_connections (To_Pinning body # tr) = web_connections tr" "web_connections (To_Model text url # tr) = web_connections tr"
  by (induction conns) (simp_all add: web_connections_def map_filter_def)

lemma filter_web [simp]: "filter is_To_Pinning (map To_Web conns) = []" "filter is_To_Model (map To_Web conns) = []"
  by (simp_all add: filter_empty_conv image_iff)

lemma within_budget_append: "within_budget a tr \<Longrightarrow> within_budget b tr' \<Longrightarrow> within_budget (a + b) (tr @ tr')"
  by (simp add: within_budget_def)

lemma permitted_web: "list_all (permitted private) tr \<Longrightarrow> \<not> private \<Longrightarrow> list_all confined (web_connections tr)"
  by (auto simp: list_all_iff web_connections_def map_filter_def split: outbound.splits)

definition safe_step :: "('sk, 'vk, 'u, 'w, 'z) crawl_env_scheme \<Rightarrow> errand multiset \<Rightarrow> crawl_state \<Rightarrow> crawl_state \<Rightarrow> bool" where
  "safe_step E b s s' \<longleftrightarrow>
     (\<exists>evs. service_run (svc E) (identity E) crawled False (app_db (cs_tables s)) evs (app_db (cs_tables s'))) \<and>
     app_local (cs_tables s') = app_local (cs_tables s) \<and>
     (\<exists>tr. cs_connections s' = cs_connections s @ tr \<and> within_budget b tr \<and>
        list_all (permitted (allow_private_networks (crawl_config E))) tr)"

definition crawl_safe :: "('sk, 'vk, 'u, 'w, 'z) crawl_env_scheme \<Rightarrow> errand multiset \<Rightarrow> 'a crawling \<Rightarrow> bool" where
  "crawl_safe E b m \<longleftrightarrow> (\<forall>s. fst (m s) \<noteq> Inl CrawlPanic \<and> safe_step E b s (snd (m s)))"

named_theorems crawl_intros \<open>steps of a crawl that are safe\<close>

lemma safe_step_refl: "cs_tables s' = cs_tables s \<Longrightarrow> cs_connections s' = cs_connections s \<Longrightarrow> safe_step E b s s'"
  by (auto simp: safe_step_def within_budget_def intro: service_run.stop)

lemma safe_step_trans:
  assumes "safe_step E a s s1" "safe_step E b s1 s2"
  shows "safe_step E (a + b) s s2"
proof -
  from assms obtain evs evs' tr tr' where
    "service_run (svc E) (identity E) crawled False (app_db (cs_tables s)) evs (app_db (cs_tables s1))"
    "service_run (svc E) (identity E) crawled False (app_db (cs_tables s1)) evs' (app_db (cs_tables s2))"
    and tr: "cs_connections s1 = cs_connections s @ tr" "within_budget a tr"
    "list_all (permitted (allow_private_networks (crawl_config E))) tr"
    "cs_connections s2 = cs_connections s1 @ tr'" "within_budget b tr'"
    "list_all (permitted (allow_private_networks (crawl_config E))) tr'"
    unfolding safe_step_def by blast
  then have "service_run (svc E) (identity E) crawled False (app_db (cs_tables s)) (evs @ evs') (app_db (cs_tables s2))"
    by (blast intro: service_run_append)
  moreover have "app_local (cs_tables s2) = app_local (cs_tables s)" using assms by (simp add: safe_step_def)
  ultimately show ?thesis
    using tr within_budget_append unfolding safe_step_def by (auto intro!: exI [of _ "tr @ tr'"])
qed

lemma safe_bind:
  assumes "crawl_safe E n m" "\<And>a. crawl_safe E k (f a)"
  shows "crawl_safe E (n + k) (crawl_bind m f)"
  unfolding crawl_safe_def
proof
  fix s
  obtain r s1 where m: "m s = (r, s1)" by fastforce
  with assms(1) have first: "r \<noteq> Inl CrawlPanic" "safe_step E n s s1" unfolding crawl_safe_def by (metis fst_conv, metis snd_conv)
  have "safe_step E k s1 s1" by (simp add: safe_step_refl)
  with first assms(2) m show "fst (crawl_bind m f s) \<noteq> Inl CrawlPanic \<and> safe_step E (n + k) s (snd (crawl_bind m f s))"
    by (cases r) (auto simp: crawl_bind_def crawl_safe_def intro: safe_step_trans)
qed

lemma safe_simple [crawl_intros]:
  "r \<noteq> Inl CrawlPanic \<Longrightarrow> crawl_safe E {#} (crawl_check r)"
  "crawl_safe E {#} (summarize f)"
  "crawl_safe E {#} (now_ts E)"
  "crawl_safe E {#} (resolve_node_id E i)"
  by (auto simp: crawl_safe_def crawl_check_def summarize_def now_ts_def resolve_node_id_def intro!: safe_step_refl split: resolve_outcome.splits)

lemma safe_attempt [crawl_intros]: "crawl_safe E n m \<Longrightarrow> crawl_safe E n (attempt m)"
  by (simp add: crawl_safe_def attempt_def case_prod_beta)

lemma safe_graph_call:
  assumes "\<And>now. journalled (svc E) (identity E) crawled False (m now)"
  shows "crawl_safe E {#} (graph_call E m)"
  unfolding crawl_safe_def
proof
  fix s :: crawl_state
  let ?run = "m (ticks E (cs_calls s)) (app_db (cs_tables s))"
  have "fst (graph_call E m s) \<noteq> Inl CrawlPanic"
    by (cases "fst ?run") (auto simp: graph_call_def res_map_err_def case_prod_beta)
  moreover have "safe_step E {#} s (snd (graph_call E m s))"
    using assms unfolding journalled_def by (simp add: safe_step_def within_budget_def graph_call_def case_prod_beta)
  ultimately show "fst (graph_call E m s) \<noteq> Inl CrawlPanic \<and> safe_step E {#} s (snd (graph_call E m s))" ..
qed

text \<open>A fetch fails for reasons of its own.\<close>

fun fetch_error :: "crawl_error \<Rightarrow> bool" where
  "fetch_error RobotsDisallowed \<longleftrightarrow> False"
| "fetch_error (CrawlGraph e) \<longleftrightarrow> False"
| "fetch_error CrawlPanic \<longleftrightarrow> False"
| "fetch_error _ \<longleftrightarrow> True"

lemma read_body_error: "read_body limit body cs = Inl e \<Longrightarrow> fetch_error e"
  by (induction limit body cs rule: read_body.induct) (auto split: if_splits)

lemma fetch_from_error: "fst (fetch_from C N config left url) = Inl e \<Longrightarrow> fetch_error e"
proof (induction C N config left url rule: fetch_from.induct)
  case (1 C N config left current)
  have "fetch_error e" if "open_hop N (allow_private_networks config) id hop current = (Inl e, tr)" for e hop tr
    using that by (auto simp: open_hop_def resolve_and_validate_def ok_or_def Let_def split: if_splits option.splits sum.splits)
  moreover have "fetch_error e" if "accept_page C config response = Inl e" for response
    using that read_body_error by (auto simp: accept_page_def Let_def res_bind_def split: if_splits option.splits sum.splits)
  ultimately show ?case
    using 1 by (subst (asm) (2) fetch_from.simps) (auto split: prod.splits sum.splits if_splits option.splits)
qed

lemma fetch_safe:
  assumes "safe_fetch C N config url = (r, conns)"
  shows "length conns \<le> 6" "\<not> allow_private_networks config \<Longrightarrow> list_all confined conns" "r = Inl e \<Longrightarrow> fetch_error e"
  using crawl.loop_connections [of C N config MAX_REDIRECTS url] fetch_from_error [of C N config MAX_REDIRECTS url] assms
  by (auto simp: safe_fetch_def MAX_REDIRECTS_def)

lemma safe_fetching [crawl_intros]: "crawl_safe E {#A_Fetch#} (fetching E url)"
  unfolding crawl_safe_def
proof
  fix s :: crawl_state
  obtain r conns where fetch: "safe_fetch (svc E) (nets E (cs_fetches s)) (crawl_config E) url = (r, conns)" by fastforce
  then show "fst (fetching E url s) \<noteq> Inl CrawlPanic \<and> safe_step E {#A_Fetch#} s (snd (fetching E url s))"
    using fetch_safe [OF fetch]
    by (auto simp: fetching_def safe_step_def within_budget_def list_all_iff intro: service_run.stop)
qed

lemma safe_robots [crawl_intros]: "crawl_safe E {#A_Fetch#} (robots E url)"
  unfolding crawl_safe_def
proof
  fix s :: crawl_state
  obtain rules conns where check: "check_robots (svc E) (nets E (cs_fetches s)) (robots_txt_url E) (utf8_lossy E) (crawl_config E) url = (rules, conns)"
    by fastforce
  then have "length conns \<le> 6 \<and> (\<not> allow_private_networks (crawl_config E) \<longrightarrow> list_all confined conns)"
    using fetch_safe(1,2) by (fastforce simp: check_robots_def split: option.splits prod.splits sum.splits)
  with check show "fst (robots E url s) \<noteq> Inl CrawlPanic \<and> safe_step E {#A_Fetch#} s (snd (robots E url s))"
    by (auto simp: robots_def safe_step_def within_budget_def list_all_iff intro: service_run.stop)
qed

lemma within_budget_mono: "within_budget a tr \<Longrightarrow> a \<subseteq># b \<Longrightarrow> within_budget b tr"
  unfolding within_budget_def by (meson le_trans mult_le_mono2 mset_subset_eq_count)

lemma safe_mono: "crawl_safe E a m \<Longrightarrow> a \<subseteq># b \<Longrightarrow> crawl_safe E b m"
  unfolding crawl_safe_def safe_step_def by (meson within_budget_mono)

lemma safe_pinning: "crawl_safe E {#A_Pin#} (pinning E body)"
  by (auto simp: crawl_safe_def pinning_def safe_step_def within_budget_def intro: service_run.stop)

lemma safe_extracting: "length text \<le> LLM_EXTRACTION_MAX_CHARS \<Longrightarrow> crawl_safe E {#A_Question#} (extracting E text final)"
  by (auto simp: crawl_safe_def extracting_def safe_step_def within_budget_def intro: service_run.stop)

lemma safe_bind0 [crawl_intros]: "crawl_safe E {#} m \<Longrightarrow> (\<And>a. crawl_safe E n (f a)) \<Longrightarrow> crawl_safe E n (crawl_bind m f)"
  using safe_bind [of E "{#}" m n f] by simp

lemma safe_bind1: "crawl_safe E {#x#} m \<Longrightarrow> (\<And>a. crawl_safe E n (f a)) \<Longrightarrow> crawl_safe E (add_mset x n) (crawl_bind m f)"
  using safe_bind [of E "{#x#}" m n f] by simp

lemma safe_asserting [crawl_intros]:
  assumes "in_extraction_method input \<in> {Some StructuredExtraction, Some LlmExtraction}"
    and "\<And>e. e \<in> set (in_evidence input) \<Longrightarrow> ei_uri e \<noteq> None \<and> ei_content_hash e \<noteq> None"
  shows "crawl_safe E {#} (asserting E auth input)"
  unfolding asserting_def using assms
  by (intro safe_graph_call journalled_assert) (auto simp: assert_payload_def Let_def split: prod.splits)

lemma safe_stable_actor [crawl_intros]:
  assumes "ty \<in> {Crawler, Model}"
  shows "crawl_safe E {#} (stable_actor E name ty)"
proof -
  let ?declaring = "graph_call E (\<lambda>now. declare_actor (svc E) (identity E) ty (Some name) None None (now 0))"
  have find: "crawl_safe E {#} (graph_call E (\<lambda>now. find_actor_by_name name ty))"
    by (intro safe_graph_call journalled_query) (simp add: find_actor_by_name_def)
  have "crawl_safe E {#} ?declaring"
    using assms by (intro safe_graph_call journalled_declare) auto
  moreover have "a \<noteq> None" if "?declaring s = (Inr a, s')" for a s s'
    using that declare_actor_total by (fastforce simp: graph_call_def split: prod.splits)
  ultimately have "crawl_safe E {#} (crawl_bind ?declaring (\<lambda>declared. crawl_check (ok_or CrawlPanic declared)))"
    unfolding crawl_safe_def by (auto simp: crawl_bind_def crawl_check_def ok_or_def split: prod.splits sum.splits option.splits) (metis fst_conv snd_conv)+
  then show ?thesis
    unfolding stable_actor_def by (intro safe_bind0 find) (auto intro!: crawl_intros split: option.splits)
qed

lemma safe_assert_each:
  "\<forall>i\<in>set inputs. in_extraction_method i \<in> {Some StructuredExtraction, Some LlmExtraction} \<and>
     (\<forall>e\<in>set (in_evidence i). ei_uri e \<noteq> None \<and> ei_content_hash e \<noteq> None) \<Longrightarrow>
   crawl_safe E {#} (assert_each E auth good inputs)"
  by (induction inputs) (auto intro!: crawl_intros)

lemma safe_declare_each: "\<forall>a\<in>set as. xa_alias_type a = Name \<Longrightarrow> crawl_safe E {#} (declare_each E auth as)"
proof (induction "as")
  case (Cons a "as")
  have "crawl_safe E {#} (graph_call E (\<lambda>now. declare_alias (svc E) (identity E) auth nid (xa_alias a) (xa_alias_type a) (now 0)))" for nid
    using Cons.prems by (intro safe_graph_call journalled_alias) simp
  with Cons show ?case by (auto intro!: crawl_intros split: sum.splits)
qed (auto intro!: crawl_intros)

lemma safe_assert_extracted:
  assumes "about X page" "ei_uri evidence \<noteq> None" "ei_content_hash evidence \<noteq> None"
  shows "crawl_safe E {#} (assert_extracted E auth page evidence confidence)"
  using assms unfolding assert_extracted_def
  by (intro safe_bind0 safe_assert_each safe_declare_each) (auto simp: fact_input_def about_def)

lemma document_evidence_fields [simp]:
  "ei_uri (document_evidence kind uri h t cid) = Some uri" "ei_content_hash (document_evidence kind uri h t cid) = Some h"
  by (simp_all add: document_evidence_def)

lemma body_text_length: "length (body_text select page n) \<le> n"
  by (simp add: body_text_def Let_def)

lemma safe_nothing: "crawl_safe E b (crawl_check (Inr ()))"
  by (rule safe_mono [OF safe_simple(1)]) simp_all

lemma safe_ask_model: "crawl_safe E {#A_Question#} (ask_model E body_str final (document_evidence kind uri h t cid))"
proof -
  have "crawl_safe E {#} (case answer of None \<Rightarrow> crawl_check (Inr ()) | Some [] \<Rightarrow> crawl_check (Inr ())
      | Some candidates \<Rightarrow> crawl_bind (llm_extractor_auth E) (\<lambda>llm_auth.
          assert_each E llm_auth (llm_candidates_asserted_update Suc)
            (map (candidate_input (document_evidence kind uri h t cid)) candidates)))" for answer
    unfolding llm_extractor_auth_def
    by (auto intro!: crawl_intros safe_assert_each simp: candidate_input_def split: option.splits list.splits)
  then have "crawl_safe E {#A_Question#} (crawl_bind (extracting E (body_text (selecting E) body_str LLM_EXTRACTION_MAX_CHARS) final)
      (\<lambda>answer. case answer of None \<Rightarrow> crawl_check (Inr ()) | Some [] \<Rightarrow> crawl_check (Inr ())
        | Some candidates \<Rightarrow> crawl_bind (llm_extractor_auth E) (\<lambda>llm_auth.
            assert_each E llm_auth (llm_candidates_asserted_update Suc)
              (map (candidate_input (document_evidence kind uri h t cid)) candidates))))"
    by (intro safe_bind1 safe_extracting body_text_length)
  then show ?thesis unfolding ask_model_def Let_def by (simp only: safe_nothing split: if_split) simp
qed

lemma safe_side_document:
  assumes "\<And>u body. \<exists>X. about X (parse u body)"
  shows "crawl_safe E {#A_Fetch#} (side_document E auth url path kind confidence parse mark)"
proof (cases "web_join (nets E 0) url path")
  case None
  then show ?thesis by (simp add: side_document_def safe_mono [OF safe_simple(1)])
next
  case (Some side_url)
  have "crawl_safe E {#} (assert_extracted E auth (parse u body) (document_evidence kind uri h t None) confidence)" for u body uri h t
    using assms [of u body] by (auto intro: safe_assert_extracted)
  then show ?thesis
    unfolding side_document_def Some option.case
    by (intro safe_bind1 safe_attempt safe_fetching) (auto intro!: crawl_intros split: sum.splits)
qed

lemma about_page: "about {u} (extract_page E mime body u)"
  by (auto simp: extract_page_def intro!: about_intros)

lemma safe_side_documents: "crawl_safe E {#A_Fetch, A_Fetch, A_Fetch#} (side_documents E auth url final)"
  unfolding side_documents_def
  by (rule safe_bind1 [OF safe_side_document], rule exI, rule about_extractors(1),
      rule safe_bind1 [OF safe_side_document], rule exI, rule about_ard,
      rule safe_side_document, rule exI, rule about_extractors(6))

text \<open>The budget of a crawl: five fetches, one pinned content and one question.\<close>

definition crawl_budget :: "errand multiset" where
  "crawl_budget = {#A_Fetch, A_Fetch, A_Pin, A_Question, A_Fetch, A_Fetch, A_Fetch#}"

lemma safe_crawl_inner: "crawl_safe E crawl_budget (crawl_inner E url)"
proof -
  have model: "crawl_safe E {#A_Question#} (if html then ask_model E body_str final (document_evidence kind uri h t cid) else crawl_check (Inr ()))"
    for html body_str final kind uri h t cid
    by (simp add: safe_ask_model safe_nothing)
  have rest: "crawl_safe E {#A_Pin, A_Question, A_Fetch, A_Fetch, A_Fetch#} (crawl_bind (pinning E body) (\<lambda>cid. crawl_bind (now_ts E) (\<lambda>t.
     let page_evidence = document_evidence ''web_page'' final h t cid in
     crawl_bind (asserting E auth (baseline final html page_evidence)) (\<lambda>_.
     crawl_bind (summarize (facts_asserted_update Suc)) (\<lambda>_.
     crawl_bind (assert_extracted E auth (extract_page E mime body_str final) page_evidence CONF_70) (\<lambda>_.
     crawl_bind (if html then ask_model E body_str final page_evidence else crawl_check (Inr ())) (\<lambda>_.
       side_documents E auth url final)))))))" for body final h auth html mime body_str
    unfolding Let_def
    by (intro safe_bind1 [OF safe_pinning] safe_bind0 safe_bind1 [OF model] safe_side_documents safe_assert_extracted [OF about_page]
        safe_asserting safe_simple) (auto simp: baseline_def)
  have stop: "crawl_safe E (add_mset A_Fetch b) (crawl_check (Inl RobotsDisallowed))" for b
    by (rule safe_mono [OF safe_simple(1)]) auto
  show ?thesis
    unfolding crawl_inner_def crawler_auth_def crawl_budget_def Let_def
    by (intro safe_bind0 safe_stable_actor safe_simple(2) safe_bind1 [OF safe_robots])
      (auto intro!: stop safe_bind1 [OF safe_fetching] rest [unfolded Let_def])
qed

section \<open>The endpoint (crawl.rs)\<close>

text \<open>
  \<open>error_text\<close> is the text of an error and \<open>parse_error\<close> the reason why a text is not a URL.
\<close>

datatype crawl_reply = Crawl_OK crawl_summary | Crawl_Error nat string

definition graph_to_crawl_error :: "(graph_error \<Rightarrow> string) \<Rightarrow> graph_error \<Rightarrow> crawl_reply" where
  "graph_to_crawl_error error_text e = (case e of
       InvalidApiKey \<Rightarrow> Crawl_Error 401 (error_text e)
     | PermissionDenied _ \<Rightarrow> Crawl_Error 403 (error_text e)
     | _ \<Rightarrow> Crawl_Error 500 (error_text e))"

definition crawl_to_api_error :: "(crawl_error \<Rightarrow> string) \<Rightarrow> crawl_error \<Rightarrow> crawl_reply" where
  "crawl_to_api_error error_text e = (case e of
       UnsupportedScheme _ \<Rightarrow> Crawl_Error 400 (error_text e)
     | NoHost \<Rightarrow> Crawl_Error 400 (error_text e)
     | BlockedAddress _ \<Rightarrow> Crawl_Error 403 (error_text e)
     | RobotsDisallowed \<Rightarrow> Crawl_Error 403 (error_text e)
     | ClientBuild \<Rightarrow> Crawl_Error 500 ''internal error''
     | CrawlGraph _ \<Rightarrow> Crawl_Error 500 ''internal error''
     | CrawlPanic \<Rightarrow> Crawl_Error 500 ''internal error''
     | _ \<Rightarrow> Crawl_Error 502 (error_text e))"

definition post_crawl ::
  "('sk, 'vk, 'u, 'w, 'z) crawl_env_scheme \<Rightarrow> (graph_error \<Rightarrow> string) \<Rightarrow> (crawl_error \<Rightarrow> string) \<Rightarrow> (string \<Rightarrow> string) \<Rightarrow> string option
     \<Rightarrow> string \<Rightarrow> crawler_service \<Rightarrow> (crawl_reply \<times> outbound list) \<times> crawler_service" where
  "post_crawl E graph_text crawl_text parse_error header url S =
     (case fst (api_bind (api_authenticate E header) (\<lambda>auth. api_check (require auth GraphCrawl)) (cr_tables S)) of
        Inl e \<Rightarrow> ((graph_to_crawl_error graph_text e, []), S)
      | Inr _ \<Rightarrow>
          (case url_parse (svc E) url of
             None \<Rightarrow> ((Crawl_Error 400 (''invalid url '' @ quoted url @ '': '' @ parse_error url), []), S)
           | Some u \<Rightarrow>
               (case crawl E u S of
                  ((Inl e, conns), S') \<Rightarrow> ((crawl_to_api_error crawl_text e, conns), S')
                | ((Inr summary, conns), S') \<Rightarrow> ((Crawl_OK summary, conns), S'))))"

text \<open>
  C39. A crawl ends without a panic and with both counters right. Its fetcher opens at most thirty connections, each confined
  to public addresses unless the operator allowed private networks. Beside them it calls two services the operator
  configured, which have HTTP clients of their own that are not confined: the pinning provider at most once, and the language
  model at most once, with at most 8000 characters of text. And it writes nothing but claims marked as extracted by machine,
  evidence with its source and hash, names, and declarations of its own two kinds of actors: no key, no retraction, no dispute.
\<close>

theorem crawl_is_contained:
  assumes "crawl E url S = ((r, tr), S')"
  shows "r \<noteq> Inl CrawlPanic \<and>
    length (web_connections tr) \<le> 30 \<and> (\<not> allow_private_networks (crawl_config E) \<longrightarrow> list_all confined (web_connections tr)) \<and>
    length (filter is_To_Pinning tr) \<le> 1 \<and> length (filter is_To_Model tr) \<le> 1 \<and>
    (\<forall>text address. To_Model text address \<in> set tr \<longrightarrow> length text \<le> 8000) \<and>
    (\<exists>evs. service_run (svc E) (identity E) crawled False (app_db (cr_tables S)) evs (app_db (cr_tables S'))) \<and>
    app_local (cr_tables S') = app_local (cr_tables S) \<and>
    crawls_total S' = crawls_total S + 1 \<and> crawls_failed S' = crawls_failed S + (if isl r then 1 else 0)"
proof -
  obtain r0 s where run: "crawl_inner E url (start_crawl (cr_tables S)) = (r0, s)" by fastforce
  with safe_crawl_inner [of E url] have safe: "r0 \<noteq> Inl CrawlPanic"
      "safe_step E crawl_budget (start_crawl (cr_tables S)) s"
    unfolding crawl_safe_def by (metis fst_conv, metis snd_conv)
  have end_state: "cs_tables s = cr_tables S'" "tr = cs_connections s" "crawls_total S' = crawls_total S + 1"
      "crawls_failed S' = crawls_failed S + (if isl r then 1 else 0)" "r = Inl CrawlPanic \<Longrightarrow> r0 = Inl CrawlPanic"
    using assms run by (auto simp: crawl_def Let_def split: sum.splits)
  have sent: "within_budget crawl_budget tr"
      "list_all (permitted (allow_private_networks (crawl_config E))) tr"
    using safe(2) end_state(2) by (auto simp: safe_step_def start_crawl_def)
  have "length question \<le> 8000" if "To_Model question address \<in> set tr" for question address
    using sent(2) that by (auto simp: list_all_iff LLM_EXTRACTION_MAX_CHARS_def)
  moreover have "length (web_connections tr) \<le> 30" "length (filter is_To_Pinning tr) \<le> 1" "length (filter is_To_Model tr) \<le> 1"
    using sent(1) by (simp_all add: within_budget_def crawl_budget_def)
  ultimately show ?thesis
    using safe end_state permitted_web [OF sent(2)] by (auto simp: safe_step_def start_crawl_def)
qed

lemma stable_actor_declares:
  "\<exists>evs. service_run (svc E) (identity E) (\<lambda>pl. \<exists>p. pl = ActorDeclare p) False (app_db (cs_tables s)) evs
     (app_db (cs_tables (snd (stable_actor E name ty s)))) \<and>
   cs_fetches (snd (stable_actor E name ty s)) = cs_fetches s \<and> cs_connections (snd (stable_actor E name ty s)) = cs_connections s \<and>
   (\<forall>e. fst (stable_actor E name ty s) = Inl e \<longrightarrow> (\<exists>g. e = CrawlGraph g))"
proof -
  obtain known d where find: "find_actor_by_name name ty (app_db (cs_tables s)) = (known, d)" by fastforce
  then have d: "d = app_db (cs_tables s)" by (simp add: find_actor_by_name_def)
  show ?thesis
  proof (cases "known = Inr None")
    case True
    let ?t = "ticks E (Suc (cs_calls s)) 0"
    obtain r d1 where decl: "declare_actor (svc E) (identity E) ty (Some name) None None ?t d = (r, d1)" by fastforce
    have "journalled (svc E) (identity E) (\<lambda>pl. \<exists>p. pl = ActorDeclare p) False (declare_actor (svc E) (identity E) ty (Some name) None None ?t)"
      by (rule journalled_declare) simp
    with decl obtain evs where "service_run (svc E) (identity E) (\<lambda>pl. \<exists>p. pl = ActorDeclare p) False d evs d1"
      unfolding journalled_def by (metis snd_conv)
    with find decl True d declare_actor_total [of "svc E" "identity E" ty "Some name" None None ?t d] show ?thesis
      by (cases r) (auto simp: stable_actor_def crawl_bind_def graph_call_def crawl_check_def ok_or_def split: option.splits)
  next
    case False
    with find d show ?thesis
      by (cases known) (auto simp: stable_actor_def crawl_bind_def graph_call_def crawl_check_def intro: service_run.stop split: option.splits)
  qed
qed

text \<open>
  A crawl that the site's crawl rules forbid fetches nothing but these rules, asserts nothing and says so; only the
  crawler's own actor may have been declared.
\<close>

theorem crawl_obeys_robots:
  assumes "check_robots (svc E) (nets E 0) (robots_txt_url E) (utf8_lossy E) (crawl_config E) url = (rules, conns)"
    and "\<not> is_allowed rules (url_path (svc E) url)"
  shows "\<exists>r conns' S'. crawl E url S = ((Inl r, conns'), S') \<and> (r = RobotsDisallowed \<and> conns' = map To_Web conns \<or> (\<exists>e. r = CrawlGraph e \<and> conns' = [])) \<and>
    (\<exists>evs. service_run (svc E) (identity E) (\<lambda>pl. \<exists>p. pl = ActorDeclare p) False (app_db (cr_tables S)) evs (app_db (cr_tables S')))"
proof -
  let ?s = "start_crawl (cr_tables S)"
  obtain a s1 where auth: "crawler_auth E ?s = (a, s1)" by fastforce
  with stable_actor_declares [of E ?s CRAWLER_ACTOR_NAME Crawler] have step:
      "\<exists>evs. service_run (svc E) (identity E) (\<lambda>pl. \<exists>p. pl = ActorDeclare p) False (app_db (cr_tables S)) evs (app_db (cs_tables s1))"
      "cs_fetches s1 = 0" "cs_connections s1 = []" "\<And>e. a = Inl e \<Longrightarrow> \<exists>g. e = CrawlGraph g"
    by (auto simp: crawler_auth_def start_crawl_def)
  show ?thesis
  proof (cases a)
    case (Inl e)
    with auth step show ?thesis by (auto simp: crawl_def crawl_inner_def crawl_bind_def start_crawl_def)
  next
    case (Inr i)
    with auth step assms show ?thesis
      by (auto simp: crawl_def crawl_inner_def crawl_bind_def summarize_def robots_def crawl_check_def start_crawl_def)
  qed
qed

section \<open>A site that forbids crawling, and one that cannot be reached\<close>

definition rules_bytes :: "byte list" where
  "rules_bytes = str_bytes (''User-agent: *'' @ [CHR 0x0A] @ ''Disallow: /'' @ [CHR 0x0A])"

definition closed_web :: "string web" where
  "closed_web =
     \<lparr>web_parse = Some, web_scheme = (\<lambda>_. ''http''), web_host = (\<lambda>_. Some ''example.org''), web_port = (\<lambda>_. Some 80),
      web_join = (\<lambda>_ s. Some s), lookup_host = (\<lambda>_ _ p. Some [(V4 (93, 184, 216, 34), p)]), client_builds = (\<lambda>_ _. True),
      send_get = (\<lambda>_ _ _ u. Some \<lparr>hr_status = 200, hr_location = None, hr_content_type = Some ''text/plain'', hr_cache_control = None,
        hr_content_length = None, hr_url = u, hr_chunks = [Some rules_bytes]\<rparr>)\<rparr>"

definition dark_web :: "string web" where
  "dark_web = closed_web\<lparr>lookup_host := \<lambda>_ _ _. None\<rparr>"

definition sample_crawler :: "string web \<Rightarrow> (byte, byte, string, string) crawl_env" where
  "sample_crawler N = api_env.extend sample_env
     (crawl_env.fields (\<lambda>_. N) (\<lambda>_. None) (\<lambda>_. Some ''/robots.txt'') (map (\<lambda>w. char_of (unat w)))
        \<lparr>allow_private_networks = False, max_response_bytes = 100, user_agent = ''oag''\<rparr>
        (\<lambda>_ _. []) (\<lambda>_. None) (\<lambda>_. None) (\<lambda>_. None) DisabledExtractor (\<lambda>_. None) (\<lambda>_ _. 0))"

definition crawler_tables :: app_tables where
  "crawler_tables = sample_tables\<lparr>app_db := empty_db\<lparr>graph := empty_graph
     \<lparr>actors := [\<lparr>ac_id = ActorId [], ac_actor_type = ''crawler'', ac_name = Some ''crawler'', ac_public_key = None,
        ac_identity_uri = None, ac_metadata = JNull, ac_created_at = 0\<rparr>]\<rparr>\<rparr>\<rparr>"

definition idle_crawler :: crawler_service where
  "idle_crawler = \<lparr>cr_tables = crawler_tables, crawls_total = 0, crawls_failed = 0\<rparr>"

lemma sample_crawler_simps:
  "svc (sample_crawler N) = Access.sample_service" "identity (sample_crawler N) = 7" "nets (sample_crawler N) = (\<lambda>_. N)"
  "robots_txt_url (sample_crawler N) = (\<lambda>_. Some ''/robots.txt'')" "utf8_lossy (sample_crawler N) = map (\<lambda>w. char_of (unat w))"
  "crawl_config (sample_crawler N) = \<lparr>allow_private_networks = False, max_response_bytes = 100, user_agent = ''oag''\<rparr>"
  by (simp_all add: sample_crawler_def sample_env_def api_env.defs crawl_env.defs)

lemma rules_text: "map (\<lambda>w. char_of (unat w)) rules_bytes = ''User-agent: *'' @ [CHR 0x0A] @ ''Disallow: /'' @ [CHR 0x0A]"
  by code_simp

lemma rules_parse: "disallow (robots_parse (''User-agent: *'' @ [CHR 0x0A] @ ''Disallow: /'' @ [CHR 0x0A]) ''oag'') = [''/'']"
  by code_simp

lemma closed_rules:
  "check_robots Access.sample_service closed_web (\<lambda>_. Some ''/robots.txt'') (map (\<lambda>w. char_of (unat w)))
     \<lparr>allow_private_networks = False, max_response_bytes = 100, user_agent = ''oag''\<rparr> ''/page'' =
   (\<lparr>disallow = [''/'']\<rparr>, [(''example.org'', [(V4 (93, 184, 216, 34), 80)])])"
proof -
  have ok: "\<not> is_blocked_ip (V4 (93, 184, 216, 34))" by (simp add: is_blocked_ip_def is_blocked_v4_def)
  have media: "media_type (Some ''text/plain'') = ''text/plain''" by code_simp
  have "length rules_bytes \<le> 100" by (simp add: rules_bytes_def)
  with ok media rules_parse rules_text show ?thesis
    by (simp add: check_robots_def safe_fetch_def fetch_from.simps open_hop_def closed_web_def resolve_and_validate_def is_redirection_def
        accept_page_def error_status_def ALLOWED_CONTENT_TYPES_def Let_def robots_rules.defs)
qed

theorem crawl_obeys_robots_witness:
  "\<exists>r conns' S'. crawl (sample_crawler closed_web) ''/page'' idle_crawler = ((Inl r, conns'), S') \<and> length conns' \<le> 1"
  using crawl_obeys_robots [of "sample_crawler closed_web" "''/page''" _ _ idle_crawler] closed_rules
  by (fastforce simp: sample_crawler_simps is_allowed_def Access.sample_service_def codec.defs service.defs)

theorem crawl_is_contained_witness:
  "\<exists>r tr S'. crawl (sample_crawler dark_web) ''/page'' idle_crawler = ((r, tr), S') \<and> isl r \<and> length (filter is_To_Model tr) \<le> 1 \<and> crawls_failed S' = 1"
proof -
  have find: "find_actor_by_name ''crawler'' Crawler (app_db crawler_tables) =
      (Inr (Some \<lparr>actor_id = ActorId [], actor_type = Crawler, actor_name = Some ''crawler'', actor_public_key = None,
         actor_identity_uri = None, actor_metadata = JNull, actor_created_at = 0\<rparr>), app_db crawler_tables)"
    by (simp add: find_actor_by_name_def find_by_name_and_type_def crawler_tables_def row_to_actor_def actor_type_parse_def)
  have dark: "safe_fetch Access.sample_service dark_web c u = (Inl (DnsResolutionFailed ''example.org''), [])" for c u
    by (simp add: safe_fetch_def fetch_from.simps open_hop_def dark_web_def closed_web_def resolve_and_validate_def Let_def)
  obtain r tr S' where run: "crawl (sample_crawler dark_web) ''/page'' idle_crawler = ((r, tr), S')" by (metis surj_pair)
  moreover have "r = Inl (DnsResolutionFailed ''example.org'')"
    using run dark find
    by (auto simp: crawl_def crawl_inner_def crawler_auth_def stable_actor_def crawl_bind_def graph_call_def crawl_check_def summarize_def
        robots_def check_robots_def fetching_def sample_crawler_simps idle_crawler_def start_crawl_def CRAWLER_ACTOR_NAME_def
        allow_all_def is_allowed_def Let_def)
  ultimately show ?thesis using crawl_is_contained [OF run] by (simp add: idle_crawler_def)
qed

end
