(* ===== verification/Mcp.thy ===== *)
theory Mcp
  imports Crawl
begin

text \<open>
  The MCP server (\<^verbatim>\<open>oag-mcp/src/server.rs\<close>, \<^verbatim>\<open>params.rs\<close>): every tool as an adapter over the graph service, and how
  errors reach the client.  The tracing span around a tool (\<^verbatim>\<open>traced\<close>) has no effect on its result.  The theory ends
  with the relation between a tool and the HTTP route for the same operation.
\<close>

section \<open>Errors\<close>

datatype mcp_error = InvalidParams string | InternalError string

text \<open>\<open>text_of\<close> is the text of an error that the server passes on as it is.\<close>

definition map_err :: "(graph_error \<Rightarrow> string) \<Rightarrow> graph_error \<Rightarrow> mcp_error" where
  "map_err text_of e = (case e of
       InvalidApiKey \<Rightarrow> InvalidParams ''invalid API key''
     | PermissionDenied p \<Rightarrow> InvalidParams (''permission denied: requires '' @ p)
     | GNotFound what \<Rightarrow> InvalidParams (''not found: '' @ what)
     | InvalidInput msg \<Rightarrow> InvalidParams msg
     | GEmbedding EmbeddingDisabled \<Rightarrow> InvalidParams (text_of e)
     | _ \<Rightarrow> InternalError (text_of e))"

definition map_crawl_err :: "(graph_error \<Rightarrow> string) \<Rightarrow> (crawl_error \<Rightarrow> string) \<Rightarrow> crawl_error \<Rightarrow> mcp_error" where
  "map_crawl_err text_of crawl_text e = (case e of
       UnsupportedScheme _ \<Rightarrow> InvalidParams (crawl_text e)
     | NoHost \<Rightarrow> InvalidParams (crawl_text e)
     | BlockedAddress _ \<Rightarrow> InvalidParams (crawl_text e)
     | RobotsDisallowed \<Rightarrow> InvalidParams (crawl_text e)
     | CrawlGraph cause \<Rightarrow> map_err text_of cause
     | _ \<Rightarrow> InternalError (crawl_text e))"

section \<open>Tools\<close>

record ('sk, 'vk, 'u, 'w) mcp_env = "('sk, 'vk, 'u, 'w) crawl_env" +
  graph_text :: "graph_error \<Rightarrow> string"
  crawl_text :: "crawl_error \<Rightarrow> string"
  url_error :: "string \<Rightarrow> string"

type_synonym 'a tool = "app_tables \<Rightarrow> (mcp_error + 'a) \<times> app_tables"

definition tool_bind :: "'a tool \<Rightarrow> ('a \<Rightarrow> 'b tool) \<Rightarrow> 'b tool" where
  "tool_bind m f s = (case m s of (Inl e, s') \<Rightarrow> (Inl e, s') | (Inr a, s') \<Rightarrow> f a s')"

definition tool_check :: "mcp_error + 'a \<Rightarrow> 'a tool" where
  "tool_check r s = (r, s)"

text \<open>A call of the graph service, with \<^verbatim>\<open>.map_err(map_err)?\<close>.\<close>

definition calling :: "('sk, 'vk, 'u, 'w, 'z) mcp_env_scheme \<Rightarrow> 'a handler \<Rightarrow> 'a tool" where
  "calling E m s = (case m s of (r, s') \<Rightarrow> (res_map_err (map_err (graph_text E)) r, s'))"

definition extract_bearer :: "string option \<Rightarrow> mcp_error + string" where
  "extract_bearer header =
     ok_or (InvalidParams (''missing '' @ quoted ''Authorization: Bearer <key>'' @ '' header''))
       (Option.bind header (strip_prefix ''Bearer ''))"

definition mcp_authenticate :: "('sk, 'vk, 'u, 'w, 'z) mcp_env_scheme \<Rightarrow> string option \<Rightarrow> auth_context tool" where
  "mcp_authenticate E header =
     tool_bind (tool_check (extract_bearer header)) (\<lambda>raw.
       calling E (api_read (\<lambda>s. authenticate (svc E) raw (graph (app_db s)))))"

definition mcp_authenticate_read :: "('sk, 'vk, 'u, 'w, 'z) mcp_env_scheme \<Rightarrow> string option \<Rightarrow> auth_context tool" where
  "mcp_authenticate_read E header =
     tool_bind (mcp_authenticate E header) (\<lambda>auth.
     tool_bind (calling E (api_check (require auth GraphRead))) (\<lambda>_. tool_check (Inr auth)))"

datatype mcp_body =
    Same api_body
  | NodeOrNull "node option" "node_alias list" "f32 option"
  | ActorOrNull "actor option"
  | EdgeOrNull "edge option"
  | McpResolved node_id string string f32
  | CrawlBody crawl_summary

definition tool_reading ::
  "('sk, 'vk, 'u, 'w, 'z) mcp_env_scheme \<Rightarrow> string option \<Rightarrow> mcp_body tool \<Rightarrow> mcp_body tool" where
  "tool_reading E header t = tool_bind (mcp_authenticate_read E header) (\<lambda>_. t)"

definition param_id :: "string \<Rightarrow> ('e + 'i) \<Rightarrow> 'i tool" where
  "param_id name parsed = tool_check (res_map_err (\<lambda>_. InvalidParams (''invalid '' @ name)) parsed)"

abbreviation edge_id_from_str :: "('sk, 'vk, 'z) crypto_scheme \<Rightarrow> string \<Rightarrow> hash32_parse_error + edge_id" where
  "edge_id_from_str C s \<equiv> res_bind (hash32_from_str C s) (\<lambda>h. Inr (EdgeId h))"

definition graph_search ::
  "('sk, 'vk, 'u, 'w, 'z) mcp_env_scheme \<Rightarrow> string option \<Rightarrow> string \<Rightarrow> i64 option \<Rightarrow> bool option \<Rightarrow> mcp_body tool" where
  "graph_search E header query limit semantic =
     tool_reading E header (let n = (case limit of Some l \<Rightarrow> l | None \<Rightarrow> 20) in
       if semantic = Some True
       then tool_bind (calling E (api_read (\<lambda>s. semantic_search (rnd E) (sqrt32 E) (floats E) (provider E) query n (app_local s) (graph (app_db s)))))
              (\<lambda>ranked. tool_check (Inr (Same (RankedResults ranked))))
       else tool_bind (calling E (api_read (\<lambda>s. Inr (search (fts_index E) query n (app_local s) (graph (app_db s))))))
              (\<lambda>ns. tool_check (Inr (Same (Results ns)))))"

definition graph_resolve :: "('sk, 'vk, 'u, 'w, 'z) mcp_env_scheme \<Rightarrow> string option \<Rightarrow> string \<Rightarrow> mcp_body tool" where
  "graph_resolve E header value =
     tool_reading E header (tool_bind (calling E (api_read (\<lambda>s. Inr (resolve (svc E) (fts_index E) value (app_local s) (graph (app_db s)))))) (\<lambda>outcome.
       tool_check (Inr (case outcome of
           Found n confidence \<Rightarrow> McpResolved (node_id n) (node_canonical_identifier n) (node_type n) confidence
         | Candidates ns \<Rightarrow> Same (CandidatesBody ns)
         | ResolveNotFound \<Rightarrow> Same (CandidatesBody [])))))"

definition graph_get_node :: "('sk, 'vk, 'u, 'w, 'z) mcp_env_scheme \<Rightarrow> string option \<Rightarrow> string \<Rightarrow> mcp_body tool" where
  "graph_get_node E header i =
     tool_reading E header (tool_bind (param_id ''node_id'' (node_id_from_str (svc E) i)) (\<lambda>nid.
       tool_bind (calling E (in_graph (\<lambda>g. Inr (select_node g nid)))) (\<lambda>node.
       tool_bind (calling E (in_graph (\<lambda>g. list_aliases g nid))) (\<lambda>aliases.
       tool_bind (calling E (api_read (\<lambda>s. Inr (get_node_authority (app_local s) nid)))) (\<lambda>authority.
         tool_check (Inr (NodeOrNull node aliases authority)))))))"

definition graph_get_actor :: "('sk, 'vk, 'u, 'w, 'z) mcp_env_scheme \<Rightarrow> string option \<Rightarrow> string \<Rightarrow> mcp_body tool" where
  "graph_get_actor E header i =
     tool_reading E header (tool_bind (param_id ''actor_id'' (actor_id_from_str (svc E) i)) (\<lambda>aid.
       tool_bind (calling E (in_graph (\<lambda>g. res_map_err GStorage (actors_get_by_id g aid)))) (\<lambda>actor.
         tool_check (Inr (ActorOrNull actor)))))"

definition graph_get_edges :: "('sk, 'vk, 'u, 'w, 'z) mcp_env_scheme \<Rightarrow> string option \<Rightarrow> string \<Rightarrow> mcp_body tool" where
  "graph_get_edges E header i =
     tool_reading E header (tool_bind (param_id ''node_id'' (node_id_from_str (svc E) i)) (\<lambda>nid.
       tool_bind (calling E (in_graph (\<lambda>g. Inr (get_edges g nid)))) (\<lambda>es. tool_check (Inr (Same (EdgesBody es))))))"

definition graph_get_edge :: "('sk, 'vk, 'u, 'w, 'z) mcp_env_scheme \<Rightarrow> string option \<Rightarrow> string \<Rightarrow> mcp_body tool" where
  "graph_get_edge E header i =
     tool_reading E header (tool_bind (param_id ''edge_id'' (edge_id_from_str (svc E) i)) (\<lambda>eid.
       tool_bind (calling E (in_graph (\<lambda>g. Inr (edges_get_by_id g eid)))) (\<lambda>edge. tool_check (Inr (EdgeOrNull edge)))))"

definition graph_get_corroboration :: "('sk, 'vk, 'u, 'w, 'z) mcp_env_scheme \<Rightarrow> string option \<Rightarrow> string \<Rightarrow> mcp_body tool" where
  "graph_get_corroboration E header i =
     tool_reading E header (tool_bind (param_id ''edge_id'' (edge_id_from_str (svc E) i)) (\<lambda>eid.
       tool_bind (calling E (in_graph (\<lambda>g. get_edge_corroboration (svc E) (uris E) (rnd E) (rnd64 E) (pow2 E) (drain_groups E) (clock E 0) eid g)))
         (\<lambda>c. tool_check (Inr (Same (CorroborationBody c))))))"

definition graph_list_roadmap_proposals :: "('sk, 'vk, 'u, 'w, 'z) mcp_env_scheme \<Rightarrow> string option \<Rightarrow> mcp_body tool" where
  "graph_list_roadmap_proposals E header =
     tool_reading E header (tool_bind (calling E (in_graph (\<lambda>g.
         list_roadmap_proposals (svc E) (uris E) (rnd E) (rnd64 E) (pow2 E) (drain_groups E) (clock E 0) g)))
       (\<lambda>ps. tool_check (Inr (Same (ProposalsBody ps)))))"

definition graph_get_subgraph ::
  "('sk, 'vk, 'u, 'w, 'z) mcp_env_scheme \<Rightarrow> string option \<Rightarrow> string \<Rightarrow> nat option \<Rightarrow> nat option \<Rightarrow> mcp_body tool" where
  "graph_get_subgraph E header i depth max_nodes =
     tool_reading E header (tool_bind (param_id ''node_id'' (node_id_from_str (svc E) i)) (\<lambda>nid.
       tool_bind (calling E (in_graph (\<lambda>g. get_subgraph (svc E) (drain_nodes E) (drain_edges E) nid
            (case depth of Some d \<Rightarrow> d | None \<Rightarrow> 1) (case max_nodes of Some m \<Rightarrow> m | None \<Rightarrow> 200) g)))
         (\<lambda>sg. tool_check (Inr (Same (SubgraphBody sg))))))"

definition graph_find_sources :: "('sk, 'vk, 'u, 'w, 'z) mcp_env_scheme \<Rightarrow> string option \<Rightarrow> string \<Rightarrow> mcp_body tool" where
  "graph_find_sources E header i =
     tool_reading E header (tool_bind (param_id ''node_id'' (node_id_from_str (svc E) i)) (\<lambda>nid.
       tool_bind (calling E (in_graph (\<lambda>g. find_sources g nid))) (\<lambda>es. tool_check (Inr (Same (SourcesBody es))))))"

definition graph_get_assertion :: "('sk, 'vk, 'u, 'w, 'z) mcp_env_scheme \<Rightarrow> string option \<Rightarrow> string \<Rightarrow> mcp_body tool" where
  "graph_get_assertion E header i =
     tool_reading E header (tool_bind (param_id ''assertion_id'' (event_id_from_str (svc E) i)) (\<lambda>aid.
       tool_bind (calling E (in_db (get_assertion aid))) (\<lambda>assertion.
       tool_bind (tool_check (ok_or (InvalidParams (''not found: assertion '' @ i)) assertion)) (\<lambda>assertion.
       tool_bind (calling E (in_graph (\<lambda>g. res_map_err GStorage (assertions_list_evidence g aid)))) (\<lambda>evidence.
       tool_bind (calling E (in_graph (\<lambda>g. Inr (assertions_list_observations g aid)))) (\<lambda>observations.
       tool_bind (calling E (in_graph (\<lambda>g. Inr (assertions_list_disputes g aid)))) (\<lambda>disputes.
       tool_bind (calling E (in_graph (\<lambda>g. Inr (assertions_list_retractions g aid)))) (\<lambda>retractions.
         tool_check (Inr (Same (AssertionBody assertion evidence observations disputes retractions)))))))))))"

definition graph_get_node_assertions :: "('sk, 'vk, 'u, 'w, 'z) mcp_env_scheme \<Rightarrow> string option \<Rightarrow> string \<Rightarrow> mcp_body tool" where
  "graph_get_node_assertions E header i =
     tool_reading E header (tool_bind (param_id ''node_id'' (node_id_from_str (svc E) i)) (\<lambda>nid.
       tool_bind (calling E (in_graph (\<lambda>g. list_assertions_for_node g nid))) (\<lambda>as. tool_check (Inr (Same (AssertionsBody as))))))"

definition graph_get_history ::
  "('sk, 'vk, 'u, 'w, 'z) mcp_env_scheme \<Rightarrow> string option \<Rightarrow> string \<Rightarrow> string \<Rightarrow> mcp_body tool" where
  "graph_get_history E header object_type i =
     tool_reading E header (tool_bind (calling E (api_read (\<lambda>s. get_history (svc E) (parse_value E) object_type i (app_db s))))
       (\<lambda>entries. tool_check (Inr (Same (HistoryBody entries)))))"

section \<open>Writing tools\<close>

record evidence_param =
  ep_evidence_type :: "string option"
  ep_uri :: "string option"
  ep_title :: "string option"
  ep_excerpt :: "string option"
  ep_content_hash :: "string option"
  ep_pinned_cid :: "string option"

record assert_params =
  ap_subject :: string
  ap_subject_type :: "string option"
  ap_predicate :: string
  ap_object :: string
  ap_object_type :: "string option"
  ap_evidence :: "evidence_param list"
  ap_confidence :: "32 word option"

definition evidence_of_param :: "evidence_param \<Rightarrow> evidence_input" where
  "evidence_of_param p =
     \<lparr>ei_evidence_type = ep_evidence_type p, ei_uri = ep_uri p, ei_title = ep_title p, ei_excerpt = ep_excerpt p,
      ei_content_hash = ep_content_hash p, ei_observed_at = None, ei_retrieved_at = None, ei_pinned_cid = ep_pinned_cid p,
      ei_metadata = None\<rparr>"

definition assert_of_params :: "assert_params \<Rightarrow> assert_input" where
  "assert_of_params p =
     \<lparr>in_subject = ap_subject p, in_subject_type = ap_subject_type p, in_predicate = ap_predicate p, in_object = ap_object p,
      in_object_type = ap_object_type p, in_evidence = map evidence_of_param (ap_evidence p), in_actor_confidence = ap_confidence p,
      in_observed_at = None, in_extraction_method = None\<rparr>"

definition graph_assert :: "('sk, 'vk, 'u, 'w, 'z) mcp_env_scheme \<Rightarrow> string option \<Rightarrow> assert_params \<Rightarrow> mcp_body tool" where
  "graph_assert E header p =
     tool_bind (mcp_authenticate E header) (\<lambda>auth.
     tool_bind (calling E (in_db (assert_relation (svc E) (identity E) auth (assert_of_params p) (clock E)))) (\<lambda>aid.
       tool_check (Inr (Same (AssertionAccepted (event_id_to_hex (svc E) aid))))))"

text \<open>The tools that answer \<^verbatim>\<open>{"status": "accepted"}\<close>.\<close>

definition tool_accepting ::
  "('sk, 'vk, 'u, 'w, 'z) mcp_env_scheme \<Rightarrow> string option \<Rightarrow> 'i tool \<Rightarrow> (auth_context \<Rightarrow> 'i \<Rightarrow> unit handler) \<Rightarrow> mcp_body tool" where
  "tool_accepting E header parsed act =
     tool_bind (mcp_authenticate E header) (\<lambda>auth.
     tool_bind parsed (\<lambda>i.
     tool_bind (calling E (act auth i)) (\<lambda>_. tool_check (Inr (Same Accepted)))))"

definition graph_add_evidence ::
  "('sk, 'vk, 'u, 'w, 'z) mcp_env_scheme \<Rightarrow> string option \<Rightarrow> string \<Rightarrow> evidence_param \<Rightarrow> mcp_body tool" where
  "graph_add_evidence E header i p =
     tool_accepting E header (param_id ''assertion_id'' (event_id_from_str (svc E) i)) (\<lambda>auth aid.
       in_db (add_evidence (svc E) (identity E) auth aid (evidence_of_param p) (clock E 0)))"

definition graph_verify_assertion ::
  "('sk, 'vk, 'u, 'w, 'z) mcp_env_scheme \<Rightarrow> string option \<Rightarrow> string \<Rightarrow> string \<Rightarrow> mcp_body tool" where
  "graph_verify_assertion E header i result =
     tool_accepting E header
       (tool_bind (param_id ''assertion_id'' (event_id_from_str (svc E) i)) (\<lambda>aid.
        tool_bind (tool_check (ok_or (InvalidParams ''unknown verify result, expected one of confirmed/not_confirmed/changed/contradicted/unreachable/unknown'')
           (verify_result_parse result))) (\<lambda>r. tool_check (Inr (aid, r))))) (\<lambda>auth (aid, r).
       in_db (verify_assertion (svc E) (identity E) auth aid r (clock E 0) (clock E 1)))"

definition graph_dispute_assertion ::
  "('sk, 'vk, 'u, 'w, 'z) mcp_env_scheme \<Rightarrow> string option \<Rightarrow> string \<Rightarrow> string option \<Rightarrow> mcp_body tool" where
  "graph_dispute_assertion E header i reason =
     tool_accepting E header (param_id ''assertion_id'' (event_id_from_str (svc E) i)) (\<lambda>auth aid.
       in_db (dispute_assertion (svc E) (identity E) auth aid reason (clock E 0)))"

definition graph_retract_assertion ::
  "('sk, 'vk, 'u, 'w, 'z) mcp_env_scheme \<Rightarrow> string option \<Rightarrow> string \<Rightarrow> string option \<Rightarrow> mcp_body tool" where
  "graph_retract_assertion E header i reason =
     tool_accepting E header (param_id ''assertion_id'' (event_id_from_str (svc E) i)) (\<lambda>auth aid.
       in_db (retract_assertion (svc E) (identity E) auth aid reason (clock E 0)))"

definition graph_supersede_assertion ::
  "('sk, 'vk, 'u, 'w, 'z) mcp_env_scheme \<Rightarrow> string option \<Rightarrow> string \<Rightarrow> string \<Rightarrow> mcp_body tool" where
  "graph_supersede_assertion E header old new =
     tool_accepting E header
       (tool_bind (param_id ''old_assertion_id'' (event_id_from_str (svc E) old)) (\<lambda>old.
        tool_bind (param_id ''new_assertion_id'' (event_id_from_str (svc E) new)) (\<lambda>new. tool_check (Inr (old, new))))) (\<lambda>auth (old, new).
       in_db (supersede_assertion (svc E) (identity E) auth old new (clock E 0)))"

definition graph_redact_evidence ::
  "('sk, 'vk, 'u, 'w, 'z) mcp_env_scheme \<Rightarrow> string option \<Rightarrow> string \<Rightarrow> string option \<Rightarrow> mcp_body tool" where
  "graph_redact_evidence E header i reason =
     tool_accepting E header (param_id ''evidence_id'' (event_id_from_str (svc E) i)) (\<lambda>auth eid.
       in_db (redact_evidence (svc E) auth eid reason (clock E 0)))"

definition graph_redact_actor_identity_uri ::
  "('sk, 'vk, 'u, 'w, 'z) mcp_env_scheme \<Rightarrow> string option \<Rightarrow> string \<Rightarrow> string option \<Rightarrow> mcp_body tool" where
  "graph_redact_actor_identity_uri E header i reason =
     tool_accepting E header (param_id ''actor_id'' (actor_id_from_str (svc E) i)) (\<lambda>auth aid.
       in_db (redact_actor_identity_uri (svc E) auth aid reason (clock E 0)))"

definition graph_suppress_node :: "('sk, 'vk, 'u, 'w, 'z) mcp_env_scheme \<Rightarrow> string option \<Rightarrow> string \<Rightarrow> mcp_body tool" where
  "graph_suppress_node E header i =
     tool_accepting E header (param_id ''node_id'' (node_id_from_str (svc E) i)) (\<lambda>auth nid.
       in_local (suppress_node_from_search auth nid (clock E 0)))"

definition graph_unsuppress_node :: "('sk, 'vk, 'u, 'w, 'z) mcp_env_scheme \<Rightarrow> string option \<Rightarrow> string \<Rightarrow> mcp_body tool" where
  "graph_unsuppress_node E header i =
     tool_accepting E header (param_id ''node_id'' (node_id_from_str (svc E) i)) (\<lambda>auth nid.
       in_local (unsuppress_node_from_search auth nid))"

definition graph_list_redactions :: "('sk, 'vk, 'u, 'w, 'z) mcp_env_scheme \<Rightarrow> string option \<Rightarrow> mcp_body tool" where
  "graph_list_redactions E header =
     tool_bind (mcp_authenticate E header) (\<lambda>auth.
     tool_bind (calling E (api_read (\<lambda>s. list_redactions auth (app_db s)))) (\<lambda>redacted.
     tool_bind (calling E (api_read (\<lambda>s. list_suppressed_nodes auth (app_local s)))) (\<lambda>suppressed.
     tool_bind (calling E (api_read (\<lambda>s. list_actor_redactions auth (app_db s)))) (\<lambda>actor_redacted.
       tool_check (Inr (Same (RedactionsBody redacted suppressed actor_redacted)))))))"

definition graph_crawl ::
  "('sk, 'vk, 'u, 'w, 'z) mcp_env_scheme \<Rightarrow> string option \<Rightarrow> string \<Rightarrow> crawler_service
     \<Rightarrow> ((mcp_error + mcp_body) \<times> outbound list) \<times> crawler_service" where
  "graph_crawl E header url S =
     (case fst (tool_bind (mcp_authenticate E header) (\<lambda>auth. calling E (api_check (require auth GraphCrawl))) (cr_tables S)) of
        Inl e \<Rightarrow> ((Inl e, []), S)
      | Inr _ \<Rightarrow>
          (case url_parse (svc E) url of
             None \<Rightarrow> ((Inl (InvalidParams (''invalid url '' @ quoted url @ '': '' @ url_error E url)), []), S)
           | Some u \<Rightarrow>
               (case crawl E u S of
                  ((Inl e, conns), S') \<Rightarrow> ((Inl (map_crawl_err (graph_text E) (crawl_text E) e), conns), S')
                | ((Inr summary, conns), S') \<Rightarrow> ((Inr (CrawlBody summary), conns), S'))))"

section \<open>The tool router\<close>

datatype mcp_request =
    GraphSearch string "i64 option" "bool option"
  | GraphResolve string
  | GraphGetNode string
  | GraphGetActor string
  | GraphGetEdges string
  | GraphGetEdge string
  | GraphGetCorroboration string
  | GraphListRoadmapProposals
  | GraphGetSubgraph string "nat option" "nat option"
  | GraphFindSources string
  | GraphGetAssertion string
  | GraphGetNodeAssertions string
  | GraphAssertTool assert_params
  | GraphAddEvidence string evidence_param
  | GraphVerifyAssertion string string
  | GraphDisputeAssertion string "string option"
  | GraphRetractAssertion string "string option"
  | GraphSupersedeAssertion string string
  | GraphGetHistory string string
  | GraphRedactEvidence string "string option"
  | GraphListRedactions
  | GraphRedactActorIdentityUri string "string option"
  | GraphSuppressNode string
  | GraphUnsuppressNode string

fun call_tool :: "('sk, 'vk, 'u, 'w, 'z) mcp_env_scheme \<Rightarrow> string option \<Rightarrow> mcp_request \<Rightarrow> mcp_body tool" where
  "call_tool E header (GraphSearch q limit semantic) = graph_search E header q limit semantic"
| "call_tool E header (GraphResolve value) = graph_resolve E header value"
| "call_tool E header (GraphGetNode i) = graph_get_node E header i"
| "call_tool E header (GraphGetActor i) = graph_get_actor E header i"
| "call_tool E header (GraphGetEdges i) = graph_get_edges E header i"
| "call_tool E header (GraphGetEdge i) = graph_get_edge E header i"
| "call_tool E header (GraphGetCorroboration i) = graph_get_corroboration E header i"
| "call_tool E header GraphListRoadmapProposals = graph_list_roadmap_proposals E header"
| "call_tool E header (GraphGetSubgraph i depth max_nodes) = graph_get_subgraph E header i depth max_nodes"
| "call_tool E header (GraphFindSources i) = graph_find_sources E header i"
| "call_tool E header (GraphGetAssertion i) = graph_get_assertion E header i"
| "call_tool E header (GraphGetNodeAssertions i) = graph_get_node_assertions E header i"
| "call_tool E header (GraphAssertTool p) = graph_assert E header p"
| "call_tool E header (GraphAddEvidence i p) = graph_add_evidence E header i p"
| "call_tool E header (GraphVerifyAssertion i result) = graph_verify_assertion E header i result"
| "call_tool E header (GraphDisputeAssertion i reason) = graph_dispute_assertion E header i reason"
| "call_tool E header (GraphRetractAssertion i reason) = graph_retract_assertion E header i reason"
| "call_tool E header (GraphSupersedeAssertion old new) = graph_supersede_assertion E header old new"
| "call_tool E header (GraphGetHistory object_type i) = graph_get_history E header object_type i"
| "call_tool E header (GraphRedactEvidence i reason) = graph_redact_evidence E header i reason"
| "call_tool E header GraphListRedactions = graph_list_redactions E header"
| "call_tool E header (GraphRedactActorIdentityUri i reason) = graph_redact_actor_identity_uri E header i reason"
| "call_tool E header (GraphSuppressNode i) = graph_suppress_node E header i"
| "call_tool E header (GraphUnsuppressNode i) = graph_unsuppress_node E header i"

section \<open>Tools and routes\<close>

text \<open>The HTTP request for the same operation, with the fields that a tool does not offer left out.\<close>

definition rest_evidence :: "evidence_param \<Rightarrow> evidence_request" where
  "rest_evidence p =
     \<lparr>er_type = ep_evidence_type p, er_uri = ep_uri p, er_title = ep_title p, er_excerpt = ep_excerpt p,
      er_content_hash = ep_content_hash p, er_observed_at = None, er_retrieved_at = None, er_pinned_cid = ep_pinned_cid p,
      er_metadata = None\<rparr>"

definition rest_assert :: "assert_params \<Rightarrow> assert_request" where
  "rest_assert p =
     \<lparr>rq_subject = ap_subject p, rq_subject_type = ap_subject_type p, rq_predicate = ap_predicate p, rq_object = ap_object p,
      rq_object_type = ap_object_type p, rq_evidence = map rest_evidence (ap_evidence p), rq_actor_confidence = ap_confidence p,
      rq_observed_at = None\<rparr>"

fun rest_request :: "mcp_request \<Rightarrow> api_request" where
  "rest_request (GraphSearch q limit semantic) = GetSearch q limit semantic"
| "rest_request (GraphResolve value) = PostResolve value"
| "rest_request (GraphGetNode i) = GetNode i"
| "rest_request (GraphGetActor i) = GetActor i"
| "rest_request (GraphGetEdges i) = GetNodeEdges i"
| "rest_request (GraphGetEdge i) = GetEdge i"
| "rest_request (GraphGetCorroboration i) = GetEdgeCorroboration i"
| "rest_request GraphListRoadmapProposals = GetRoadmap"
| "rest_request (GraphGetSubgraph i depth max_nodes) = GetSubgraph i depth max_nodes"
| "rest_request (GraphFindSources i) = GetNodeSources i"
| "rest_request (GraphGetAssertion i) = GetAssertion i"
| "rest_request (GraphGetNodeAssertions i) = GetNodeAssertions i"
| "rest_request (GraphAssertTool p) = PostAssertion (rest_assert p)"
| "rest_request (GraphAddEvidence i p) = PostEvidence i (rest_evidence p)"
| "rest_request (GraphVerifyAssertion i result) = PostVerify i result None"
| "rest_request (GraphDisputeAssertion i reason) = PostDispute i reason"
| "rest_request (GraphRetractAssertion i reason) = PostRetract i reason"
| "rest_request (GraphSupersedeAssertion old new) = PostSupersede old new"
| "rest_request (GraphGetHistory object_type i) = GetHistory object_type i"
| "rest_request (GraphRedactEvidence i reason) = PostRedactEvidence i reason"
| "rest_request GraphListRedactions = GetRedactions"
| "rest_request (GraphRedactActorIdentityUri i reason) = PostRedactIdentityUri i reason"
| "rest_request (GraphSuppressNode i) = PostSuppress i"
| "rest_request (GraphUnsuppressNode i) = PostUnsuppress i"

text \<open>
  Both give the same body, or both an error; a tool answers null for a node, actor or edge that the route does not
  find, and its answer to a resolved value leaves out the URI.
\<close>

fun agrees :: "mcp_error + mcp_body \<Rightarrow> graph_error + api_body \<Rightarrow> bool" where
  "agrees (Inl e) (Inl e') \<longleftrightarrow> True"
| "agrees (Inr (Same b)) (Inr b') \<longleftrightarrow> b = b'"
| "agrees (Inr (NodeOrNull (Some n) as au)) (Inr b) \<longleftrightarrow> b = NodeBody n as au"
| "agrees (Inr (NodeOrNull None as au)) (Inl (GNotFound what)) \<longleftrightarrow> True"
| "agrees (Inr (ActorOrNull (Some a))) (Inr b) \<longleftrightarrow> b = ActorBody a"
| "agrees (Inr (ActorOrNull None)) (Inl (GNotFound what)) \<longleftrightarrow> True"
| "agrees (Inr (EdgeOrNull (Some e))) (Inr b) \<longleftrightarrow> b = EdgeBody e"
| "agrees (Inr (EdgeOrNull None)) (Inl (GNotFound what)) \<longleftrightarrow> True"
| "agrees (Inr (McpResolved i c t f)) (Inr b) \<longleftrightarrow> (\<exists>u. b = ResolvedBody i u c t f)"
| "agrees _ _ \<longleftrightarrow> False"

lemma tool_simps [simp]:
  "tool_bind (tool_check r) f s = (case r of Inl e \<Rightarrow> (Inl e, s) | Inr a \<Rightarrow> f a s)"
  "tool_bind (param_id name parsed) f s = (case parsed of Inl e \<Rightarrow> (Inl (InvalidParams (''invalid '' @ name)), s) | Inr a \<Rightarrow> f a s)"
  "tool_bind (calling E (api_read h)) f' s = (case h s of Inl e \<Rightarrow> (Inl (map_err (graph_text E) e), s) | Inr a \<Rightarrow> f' a s)"
  "tool_bind (calling E (in_graph h')) f'' s = (case h' (graph (app_db s)) of Inl e \<Rightarrow> (Inl (map_err (graph_text E) e), s) | Inr a \<Rightarrow> f'' a s)"
  "tool_check r s = (r, s)"
  "param_id name parsed s = (res_map_err (\<lambda>_. InvalidParams (''invalid '' @ name)) parsed, s)"
  by (simp_all add: tool_bind_def tool_check_def param_id_def calling_def res_map_err_def split: sum.splits)

lemma mcp_authenticate_caller:
  "case caller E header s of
     None \<Rightarrow> \<exists>e. mcp_authenticate E header s = (Inl e, s)
   | Some auth \<Rightarrow> mcp_authenticate E header s = (Inr auth, s)"
  by (auto simp: mcp_authenticate_def caller_def extract_bearer_def calling_def res_map_err_def ok_or_def authenticate_def
      split: option.splits sum.splits)

definition matches :: "mcp_body tool \<Rightarrow> api_body handler \<Rightarrow> app_tables \<Rightarrow> bool" where
  "matches t h s \<longleftrightarrow> snd (t s) = snd (h s) \<and> agrees (fst (t s)) (fst (h s))"

lemma matches_reading:
  assumes "matches t h s"
  shows "matches (tool_reading E header t) (reading E header h) s"
  using mcp_authenticate_caller [of E header s] assms
  by (auto simp: matches_def tool_reading_def mcp_authenticate_read_def reading_caller tool_bind_def calling_def res_map_err_def
      split: option.splits)

lemma matches_accepting:
  assumes "\<And>e. fst (parsed s) = Inl e \<Longrightarrow> (\<exists>e'. parsed' = Inl e') \<or> (\<exists>i. parsed' = Inr i \<and> (\<forall>auth. \<exists>e'. act' auth i s = (Inl e', s)))"
    and "\<And>i. fst (parsed s) = Inr i \<Longrightarrow> \<exists>i'. parsed' = Inr i' \<and> (\<forall>auth. act auth i s = act' auth i' s)"
    and "snd (parsed s) = s"
  shows "matches (tool_accepting E header parsed act) (accepting E header parsed' act') s"
proof -
  obtain p where p: "parsed s = (p, s)" using assms(3) by (metis prod.collapse)
  show ?thesis
  proof (cases "caller E header s")
    case None
    with mcp_authenticate_caller [of E header s] show ?thesis
      by (auto simp: matches_def tool_accepting_def accepting_caller tool_bind_def)
  next
    case (Some auth)
    with mcp_authenticate_caller [of E header s] have auth: "mcp_authenticate E header s = (Inr auth, s)" by simp
    show ?thesis
    proof (cases p)
      case (Inl e)
      with assms(1) p have "(\<exists>e'. parsed' = Inl e') \<or> (\<exists>i e'. parsed' = Inr i \<and> act' auth i s = (Inl e', s))"
        by (metis fst_conv)
      with p auth Some Inl show ?thesis
        by (auto simp: matches_def tool_accepting_def accepting_caller tool_bind_def api_bind_def)
    next
      case (Inr i)
      with assms(2) p obtain i' where "parsed' = Inr i'" "act auth i s = act' auth i' s" by auto
      with p auth Some Inr show ?thesis
        by (cases "act' auth i' s"; cases "fst (act' auth i' s)")
          (auto simp: matches_def tool_accepting_def accepting_caller tool_bind_def api_bind_def calling_def)
    qed
  qed
qed

lemmas tool_reads = graph_search_def graph_resolve_def graph_get_node_def graph_get_actor_def graph_get_edges_def graph_get_edge_def
  graph_get_corroboration_def graph_list_roadmap_proposals_def graph_get_subgraph_def graph_find_sources_def graph_get_assertion_def
  graph_get_node_assertions_def graph_get_history_def

lemmas tool_writes = graph_add_evidence_def graph_verify_assertion_def graph_dispute_assertion_def graph_retract_assertion_def
  graph_supersede_assertion_def graph_redact_evidence_def graph_redact_actor_identity_uri_def graph_suppress_node_def
  graph_unsuppress_node_def

lemmas id_parsers = parse_node_id_def parse_actor_id_def parse_assertion_id_def parse_edge_id_def parse_event_id_def parse_id_def

lemma rest_inputs [simp]:
  "evidence_into_input E (rest_evidence p) = Inr (evidence_of_param p)"
  "assert_into_input E (rest_assert q) = Inr (assert_of_params q)"
proof -
  show one: "evidence_into_input E (rest_evidence p) = Inr (evidence_of_param p)" for p
    by (simp add: evidence_into_input_def rest_evidence_def evidence_of_param_def)
  have "collect_results (map (evidence_into_input E) (map rest_evidence ps)) = Inr (map evidence_of_param ps)" for ps
    by (induction ps) (simp_all add: one)
  then show "assert_into_input E (rest_assert q) = Inr (assert_of_params q)"
    by (simp add: assert_into_input_def rest_assert_def assert_of_params_def)
qed

lemma get_assertion_reads:
  "in_db (get_assertion i) = in_graph (\<lambda>g. res_map_err GStorage (assertions_get_by_id g i))"
  by (rule ext) (simp add: in_db_def get_assertion_def)

lemma tool_matches_route: "matches (call_tool E header q) (handle E header (rest_request q)) s"
proof (cases q)
  case (GraphAssertTool p)
  show ?thesis
    using mcp_authenticate_caller [of E header s]
    by (cases "caller E header s")
      (auto simp: GraphAssertTool matches_def graph_assert_def h_create_assertion_def tool_bind_def api_bind_def api_authenticate_caller
        calling_def in_db_def api_check_def split: prod.splits sum.splits)
next
  case GraphListRedactions
  show ?thesis
    using mcp_authenticate_caller [of E header s]
    by (cases "caller E header s")
      (auto simp: GraphListRedactions matches_def graph_list_redactions_def h_list_redactions_def tool_bind_def [of "mcp_authenticate E header"]
        api_bind_def [of "api_authenticate E header"] api_authenticate_caller split: prod.splits sum.splits)
qed (simp only: call_tool.simps rest_request.simps handle.simps tool_reads read_handler_defs tool_writes write_handler_defs;
    (rule matches_reading | rule matches_accepting);
    auto simp: id_parsers matches_def Let_def resolve_outcome_to_json_def found_def now_or_def get_assertion_reads
      res_map_err_def ok_or_def split: sum.splits option.splits resolve_outcome.splits)+

lemma graph_crawl_matches:
  "snd (graph_crawl E header url S) = snd (post_crawl E gt ct pe header url S)"
  "snd (fst (graph_crawl E header url S)) = snd (fst (post_crawl E gt ct pe header url S))"
  "fst (fst (graph_crawl E header url S)) = Inr (CrawlBody summary) \<longleftrightarrow> fst (fst (post_crawl E gt ct pe header url S)) = Crawl_OK summary"
  "\<exists>b. fst (fst (graph_crawl E header url S)) \<in> {Inl b} \<union> Inr ` range CrawlBody"
proof -
  let ?tool = "fst (tool_bind (mcp_authenticate E header) (\<lambda>auth. calling E (api_check (require auth GraphCrawl))) (cr_tables S))"
  let ?route = "fst (api_bind (api_authenticate E header) (\<lambda>auth. api_check (require auth GraphCrawl)) (cr_tables S))"
  have "isl ?tool \<longleftrightarrow> isl ?route"
    using mcp_authenticate_caller [of E header "cr_tables S"]
    by (cases "caller E header (cr_tables S)") (auto simp: tool_bind_def api_bind_def api_authenticate_caller calling_def)
  moreover have "graph_to_crawl_error gt e \<noteq> Crawl_OK summary" "crawl_to_api_error ct e' \<noteq> Crawl_OK summary" for e e'
    by (auto simp: graph_to_crawl_error_def crawl_to_api_error_def split: graph_error.splits crawl_error.splits)
  ultimately show
    "snd (graph_crawl E header url S) = snd (post_crawl E gt ct pe header url S)"
    "snd (fst (graph_crawl E header url S)) = snd (fst (post_crawl E gt ct pe header url S))"
    "fst (fst (graph_crawl E header url S)) = Inr (CrawlBody summary) \<longleftrightarrow> fst (fst (post_crawl E gt ct pe header url S)) = Crawl_OK summary"
    "\<exists>b. fst (fst (graph_crawl E header url S)) \<in> {Inl b} \<union> Inr ` range CrawlBody"
    by (cases ?tool; cases ?route; auto simp: graph_crawl_def post_crawl_def split: option.splits prod.splits sum.splits)+
qed


end
