(* ===== verification/FrontEnds.thy ===== *)
theory FrontEnds
  imports Mcp
begin

text \<open>
  The peer's doors to the outside together: HTTP routes, MCP tools and crawls.  Each of them is a front end: a request
  that its caller may not make changes nothing, and one that he may make is a run of the graph service that writes in the
  caller's name.  What follows for a whole sequence of requests is proved once, in the locale \<open>front_end\<close>.
\<close>

section \<open>Handlers write in the name of their caller\<close>

definition handler_run ::
  "('sk, 'vk, 'u, 'w, 'z) api_env_scheme \<Rightarrow> (event_payload \<Rightarrow> bool) \<Rightarrow> bool \<Rightarrow> 'a handler \<Rightarrow> bool" where
  "handler_run E P Q h \<longleftrightarrow> (\<forall>s. \<exists>evs. service_run (svc E) (identity E) P Q (app_db s) evs (app_db (snd (h s))))"

named_theorems run_intros \<open>handlers that are runs of the graph service\<close>

lemma run_check [run_intros]: "handler_run E P Q (api_check r)" "handler_run E P Q (api_read h)" "handler_run E P Q (in_graph h')"
  by (auto simp: handler_run_def intro: service_run.stop)

lemma run_in_db [run_intros]: "journalled (svc E) (identity E) P Q m \<Longrightarrow> handler_run E P Q (in_db m)"
  by (simp add: handler_run_def journalled_def in_db_def case_prod_beta)

lemma run_in_local [run_intros]: "handler_run E P Q (in_local m)"
  by (auto simp: handler_run_def in_local_def case_prod_beta intro: service_run.stop)

lemma run_bind [run_intros]:
  assumes "handler_run E P Q m" "\<And>a. handler_run E P Q (f a)"
  shows "handler_run E P Q (api_bind m f)"
  unfolding handler_run_def
proof
  fix s
  obtain r s1 where m: "m s = (r, s1)" by fastforce
  with assms(1) obtain evs where run: "service_run (svc E) (identity E) P Q (app_db s) evs (app_db s1)"
    unfolding handler_run_def by (metis snd_conv)
  show "\<exists>evs. service_run (svc E) (identity E) P Q (app_db s) evs (app_db (snd (api_bind m f s)))"
  proof (cases r)
    case (Inr a)
    obtain evs' where "service_run (svc E) (identity E) P Q (app_db s1) evs' (app_db (snd (f a s1)))"
      using assms(2) unfolding handler_run_def by blast
    with run m Inr show ?thesis by (auto simp: api_bind_def intro: service_run_append)
  qed (use m run in \<open>auto simp: api_bind_def\<close>)
qed

lemma journalled_admin: "(Q \<Longrightarrow> journalled C k P Q m) \<Longrightarrow> (\<And>d. \<not> Q \<Longrightarrow> snd (m d) = d) \<Longrightarrow> journalled C k P Q m"
  by (cases Q) (auto intro: journalled_query)

lemma refused_redaction:
  assumes "\<not> allowed auth Admin"
  shows "snd (redact_evidence C auth i reason now d) = d" "snd (redact_actor_identity_uri C auth a reason now d) = d"
  using assms by (simp_all add: redact_evidence_def redact_actor_identity_uri_def transaction_def redact_evidence_body_def
      redact_actor_body_def require_def)

lemma journalled_admin_redact [run_intros]:
  "journalled C k P (allowed auth Admin) (redact_evidence C auth i reason now)"
  "journalled C k P (allowed auth Admin) (redact_actor_identity_uri C auth a reason now)"
  by (rule journalled_admin, erule journalled_redact, erule refused_redaction)+

text \<open>An accepted request runs its operation for the authenticated caller.\<close>

lemma accepting_run:
  assumes "caller E header s = Some auth" "\<And>i. handler_run E P Q (act auth i)"
  shows "\<exists>evs. service_run (svc E) (identity E) P Q (app_db s) evs (app_db (snd (accepting E header parsed act s)))"
proof (cases parsed)
  case (Inr i)
  have "handler_run E P Q (api_bind (act auth i) (\<lambda>_. api_check (Inr Accepted)))" by (intro run_intros assms)
  with assms(1) Inr show ?thesis unfolding handler_run_def by (simp add: accepting_caller)
qed (use assms(1) in \<open>auto simp: accepting_caller intro: service_run.stop\<close>)

lemma writes_attributed:
  assumes "caller E header s = Some auth" "writes request"
  shows "\<exists>evs. service_run (svc E) (identity E) (attributed (svc E) (auth_actor_id auth)) (allowed auth Admin) (app_db s) evs
    (app_db (snd (handle E header request s)))"
proof (cases request)
  case (PostAssertion body)
  have "handler_run E (attributed (svc E) (auth_actor_id auth)) (allowed auth Admin)
      (api_bind (api_check (assert_into_input E body)) (\<lambda>input.
      api_bind (in_db (assert_relation (svc E) (identity E) auth input (clock E))) (\<lambda>aid.
      api_check (Inr (AssertionAccepted (event_id_to_hex (svc E) aid))))))"
    by (intro run_intros journal_intros)
  then show ?thesis
    using assms(1) unfolding handler_run_def PostAssertion handle.simps h_create_assertion_def api_bind_def [of "api_authenticate E header"]
    by (simp only: api_authenticate_caller option.case prod.case sum.case)
qed (use assms in \<open>simp_all only: handle.simps write_handler_defs writes.simps\<close>,
  (rule accepting_run [OF assms(1)]; intro run_intros journal_intros)+)

section \<open>Front ends\<close>

text \<open>The events that requests commit leave the API keys alone.\<close>

lemma attributed_keyless: "attributed C a pl \<Longrightarrow> keyless pl"
  by (cases pl) auto

lemma crawled_keyless: "crawled pl \<Longrightarrow> keyless pl"
  by (cases pl) auto

lemma service_run_keys:
  assumes "service_run C k P Q d evs d'" "\<And>pl. P pl \<Longrightarrow> keyless pl"
  shows "actor_keys (graph d') = actor_keys (graph d)"
  using assms
proof induction
  case (commit d s prev t pl sev eid r d1 evs d')
  then obtain eid' out where "commit_local_event C k pl t d = (Inr (eid', out), d1)" by (cases r) auto
  then obtain refs where "project_graph C eid' t pl (graph d) = Inr (out, graph d1, refs)" by (rule commit_projects)
  from project_keyless [OF this] commit show ?case by simp
qed (auto dest!: redact_evidence_committed(5) redact_actor_committed(4) simp: redact_evidence_row_def redact_identity_uri_def)

text \<open>Nor does a run without redactions touch the tombstones.\<close>

lemma commit_redactions: "commit_local_event C k pl t d = (Inr r, d') \<Longrightarrow> redactions d' = redactions d"
  by (cases rule: transaction_cases [of "commit_body C k pl t" d])
    (auto simp: commit_local_event_def commit_body_def Let_def insert_event_def elim!: project_InrD split: prod.splits if_splits)

lemma service_run_redactions: "service_run C k P Q d evs d' \<Longrightarrow> Q \<or> redactions d' = redactions d"
  by (induction rule: service_run.induct) (auto dest: commit_redactions)

text \<open>
  A front end handles requests on a state that includes the peer's tables.  The provider promises that a request which is
  not permitted changes no table and that a permitted one is a run of the graph service that leaves the keys alone.
\<close>

locale front_end =
  fixes C :: "('sk, 'vk, 'z) codec_scheme" and k :: 'sk and tables :: "'s \<Rightarrow> app_tables" and step :: "'q \<Rightarrow> 's \<Rightarrow> 's"
    and permitted :: "'q \<Rightarrow> app_tables \<Rightarrow> bool"
  assumes refused: "\<not> permitted q (tables s) \<Longrightarrow> tables (step q s) = tables s"
    and written: "permitted q (tables s) \<Longrightarrow> \<exists>evs. service_run C k keyless True (app_db (tables s)) evs (app_db (tables (step q s)))"
begin

lemma session_run: "\<exists>evs. service_run C k keyless True (app_db (tables s)) evs (app_db (tables (fold step qs s)))"
proof (induction qs arbitrary: s)
  case (Cons q qs)
  have "\<exists>evs. service_run C k keyless True (app_db (tables s)) evs (app_db (tables (step q s)))"
    using refused written by (cases "permitted q (tables s)") (auto intro: service_run.stop)
  with Cons.IH [of "step q s"] show ?case by (auto intro: service_run_append)
qed (auto intro: service_run.stop)

lemma session_refused:
  assumes "\<forall>q\<in>set qs. \<not> permitted q (tables s)"
  shows "tables (fold step qs s) = tables s"
  using assms by (induction qs arbitrary: s) (auto simp: refused)

text \<open>No sequence of requests issues, changes or revokes an API key, so nobody gains a permission by making requests.\<close>

lemma session_keys:
  "actor_keys (graph (app_db (tables (fold step qs s)))) = actor_keys (graph (app_db (tables s)))"
proof -
  obtain evs where "service_run C k keyless True (app_db (tables s)) evs (app_db (tables (fold step qs s)))"
    using session_run by blast
  then show ?thesis by (rule service_run_keys)
qed

lemma session_authenticate:
  "authenticate C raw (graph (app_db (tables (fold step qs s)))) = authenticate C raw (graph (app_db (tables s)))"
  by (simp add: authenticate_def find_active_key_def session_keys)

text \<open>The log only grows, by events of the peer's own chain.\<close>

lemma session_log:
  "\<exists>rows. events (app_db (tables (fold step qs s))) = events (app_db (tables s)) @ rows \<and>
     list_all (\<lambda>row. er_origin row = identity_peer_id C k) rows"
proof -
  obtain evs where "service_run C k keyless True (app_db (tables s)) evs (app_db (tables (fold step qs s)))"
    using session_run by blast
  from service_run_log [OF this] show ?thesis by (auto simp: list_all_iff)
qed

end

text \<open>Two front ends on the same state make one.\<close>

lemma front_end_sum:
  assumes "front_end C k tables f p" "front_end C k tables g q"
  shows "front_end C k tables (case_sum f g) (case_sum p q)"
  using assms by (simp add: front_end_def split_sum_all)

section \<open>Routes, tools and crawls\<close>

text \<open>
  All of them on the state of the crawler service, which holds the tables.  A request comes with the value of its
  \<^verbatim>\<open>Authorization\<close> header.
\<close>

definition may :: "('sk, 'vk, 'u, 'w, 'z) api_env_scheme \<Rightarrow> permission \<Rightarrow> string option \<Rightarrow> app_tables \<Rightarrow> bool" where
  "may E p header s \<longleftrightarrow> (\<exists>auth. caller E header s = Some auth \<and> allowed auth p)"

definition rest_step ::
  "('sk, 'vk, 'u, 'w, 'z) api_env_scheme \<Rightarrow> string option \<times> api_request \<Rightarrow> crawler_service \<Rightarrow> crawler_service" where
  "rest_step E q S = S\<lparr>cr_tables := snd (serve_request E (fst q) (snd q) (cr_tables S))\<rparr>"

definition tool_step ::
  "('sk, 'vk, 'u, 'w, 'z) mcp_env_scheme \<Rightarrow> string option \<times> mcp_request \<Rightarrow> crawler_service \<Rightarrow> crawler_service" where
  "tool_step E q S = S\<lparr>cr_tables := snd (call_tool E (fst q) (snd q) (cr_tables S))\<rparr>"

definition crawl_step ::
  "('sk, 'vk, 'u, 'w, 'z) mcp_env_scheme \<Rightarrow> string option \<times> string \<Rightarrow> crawler_service \<Rightarrow> crawler_service" where
  "crawl_step E q S = snd (graph_crawl E (fst q) (snd q) S)"

lemma serve_request_tables: "snd (serve_request E header request s) = snd (handle E header request s)"
  by (simp add: serve_request_def split: prod.splits sum.splits)

lemma route_refused:
  assumes "\<not> (writes request \<and> may E (required request) header s)"
  shows "snd (handle E header request s) = s"
proof (cases "writes request")
  case True
  then have "request \<noteq> GetStatus" by auto
  with True assms show ?thesis
    using strangers_are_refused [of E header s request] denied_writes [of E header s _ request]
    by (cases "caller E header s") (auto simp: may_def stopped_def)
qed (rule reads_frame)

lemma route_written:
  assumes "writes request" "may E p header s"
  shows "\<exists>evs. service_run (svc E) (identity E) keyless True (app_db s) evs (app_db (snd (handle E header request s)))"
proof -
  obtain auth where "caller E header s = Some auth" using assms(2) by (auto simp: may_def)
  with writes_attributed [OF this assms(1)] show ?thesis by (blast intro: service_run_mono attributed_keyless)
qed

interpretation rest: front_end "svc E" "identity E" cr_tables "rest_step E" "\<lambda>q s. writes (snd q) \<and> may E (required (snd q)) (fst q) s"
  by unfold_locales (simp add: rest_step_def serve_request_tables route_refused, simp add: rest_step_def serve_request_tables, metis route_written)

lemma tool_tables: "snd (call_tool E header q s) = snd (handle E header (rest_request q) s)"
  using tool_matches_route [of E header q s] by (simp add: matches_def)

interpretation tools: front_end "svc E" "identity E" cr_tables "tool_step E"
  "\<lambda>q s. writes (rest_request (snd q)) \<and> may E (required (rest_request (snd q))) (fst q) s"
  by unfold_locales (simp add: tool_step_def tool_tables route_refused, simp add: tool_step_def tool_tables, metis route_written)

lemma crawl_written:
  "\<exists>evs. service_run (svc E) (identity E) crawled False (app_db (cr_tables S)) evs (app_db (cr_tables (snd (crawl E url S))))"
proof -
  obtain r s where run: "crawl_inner E url (start_crawl (cr_tables S)) = (r, s)" by fastforce
  with safe_crawl_inner [of E url] have "safe_step E crawl_budget (start_crawl (cr_tables S)) s"
    unfolding crawl_safe_def by (metis snd_conv)
  with run show ?thesis by (cases r) (auto simp: crawl_def Let_def safe_step_def start_crawl_def)
qed

lemma graph_crawl_refused: "\<not> may E GraphCrawl header (cr_tables S) \<Longrightarrow> snd (graph_crawl E header url S) = S"
  using mcp_authenticate_caller [of E header "cr_tables S"]
  by (cases "caller E header (cr_tables S)") (auto simp: graph_crawl_def may_def tool_bind_def calling_def api_check_def)

lemma graph_crawl_cases: "cr_tables (snd (graph_crawl E header url S)) \<in> {cr_tables S} \<union> range (\<lambda>u. cr_tables (snd (crawl E u S)))"
  by (auto simp: graph_crawl_def split: sum.splits option.splits prod.splits) (metis rangeI snd_conv)+

lemma graph_crawl_written:
  "\<exists>evs. service_run (svc E) (identity E) keyless True (app_db (cr_tables S)) evs (app_db (cr_tables (snd (graph_crawl E header url S))))"
proof (cases "cr_tables (snd (graph_crawl E header url S)) = cr_tables S")
  case False
  then obtain u where u: "cr_tables (snd (graph_crawl E header url S)) = cr_tables (snd (crawl E u S))"
    using graph_crawl_cases [of E header url S] by blast
  obtain evs where "service_run (svc E) (identity E) crawled False (app_db (cr_tables S)) evs (app_db (cr_tables (snd (crawl E u S))))"
    using crawl_written [of E S u] by blast
  then have "service_run (svc E) (identity E) keyless True (app_db (cr_tables S)) evs (app_db (cr_tables (snd (crawl E u S))))"
    by (rule service_run_mono) (simp_all add: crawled_keyless)
  with u show ?thesis by auto
qed (auto intro: service_run.stop)

interpretation crawls: front_end "svc E" "identity E" cr_tables "crawl_step E" "\<lambda>q. may E GraphCrawl (fst q)"
  by unfold_locales (simp_all add: crawl_step_def graph_crawl_refused graph_crawl_written)

text \<open>A request through any of the three.\<close>

type_synonym request = "(string option \<times> api_request) + (string option \<times> mcp_request) + (string option \<times> string)"

definition serve_any :: "('sk, 'vk, 'u, 'w, 'z) mcp_env_scheme \<Rightarrow> request \<Rightarrow> crawler_service \<Rightarrow> crawler_service" where
  "serve_any E = case_sum (rest_step E) (case_sum (tool_step E) (crawl_step E))"

definition permitted_any :: "('sk, 'vk, 'u, 'w, 'z) mcp_env_scheme \<Rightarrow> request \<Rightarrow> app_tables \<Rightarrow> bool" where
  "permitted_any E = case_sum (\<lambda>q s. writes (snd q) \<and> may E (required (snd q)) (fst q) s)
     (case_sum (\<lambda>q s. writes (rest_request (snd q)) \<and> may E (required (rest_request (snd q))) (fst q) s) (\<lambda>q. may E GraphCrawl (fst q)))"

interpretation anything: front_end "svc E" "identity E" cr_tables "serve_any E" "permitted_any E"
  unfolding serve_any_def permitted_any_def
  by (intro front_end_sum rest.front_end_axioms tools.front_end_axioms crawls.front_end_axioms)

text \<open>
  C36. Whatever requests arrive through the HTTP routes of \<^verbatim>\<open>/api/v1\<close>, the MCP tools and the crawl, and in whatever
  order: no API key is issued, changed or revoked, so every key keeps the actor and the permissions it had; and the event log only
  grows, by events of the peer's own chain.  (The replication routes are not among them: through them a remote key event may arrive.)
\<close>

theorem requests_leave_the_keys:
  "actor_keys (graph (app_db (cr_tables (fold (serve_any E) qs S)))) = actor_keys (graph (app_db (cr_tables S))) \<and>
   authenticate (svc E) raw (graph (app_db (cr_tables (fold (serve_any E) qs S)))) = authenticate (svc E) raw (graph (app_db (cr_tables S))) \<and>
   (\<exists>rows. events (app_db (cr_tables (fold (serve_any E) qs S))) = events (app_db (cr_tables S)) @ rows \<and>
      list_all (\<lambda>row. er_origin row = identity_peer_id (svc E) (identity E)) rows)"
  by (intro conjI anything.session_keys anything.session_authenticate anything.session_log)

text \<open>
  C37. A request to one of the 25 routes of \<^verbatim>\<open>handlers.rs\<close> and \<^verbatim>\<open>redaction.rs\<close> writes in the name of its
  caller: every event it appends that carries an actor carries the authenticated one, it declares no actor and issues no key,
  and only an administrator's request redacts.  (The crawl writes in the name of the crawler, and a transfer without a key;
  neither is one of these routes.)
\<close>

theorem requests_write_in_the_callers_name:
  "\<exists>evs. (case caller E header s of
      None \<Rightarrow> snd (serve_request E header q s) = s
    | Some auth \<Rightarrow> service_run (svc E) (identity E) (attributed (svc E) (auth_actor_id auth)) (allowed auth Admin)
          (app_db s) evs (app_db (snd (serve_request E header q s))) \<and>
        list_all (\<lambda>sev. attributed (svc E) (auth_actor_id auth) (ue_payload (se_unsigned sev))) evs \<and>
        (\<exists>rows. events (app_db (snd (serve_request E header q s))) = events (app_db s) @ rows \<and> length rows = length evs) \<and>
        (allowed auth Admin \<or> redactions (app_db (snd (serve_request E header q s))) = redactions (app_db s)))"
proof (cases "caller E header s")
  case None
  then show ?thesis using route_refused [of q E header s] by (simp add: serve_request_tables may_def)
next
  case (Some auth)
  obtain evs where run: "service_run (svc E) (identity E) (attributed (svc E) (auth_actor_id auth)) (allowed auth Admin)
      (app_db s) evs (app_db (snd (handle E header q s)))"
    using writes_attributed [OF Some] reads_frame [of q E header s] service_run.stop by (cases "writes q") force+
  with Some service_run_payloads [OF run] service_run_log [OF run] service_run_redactions [OF run] show ?thesis
    by (intro exI [of _ evs]) (auto simp: serve_request_tables list_all_iff)
qed

text \<open>
  C32. The whole of \<^verbatim>\<open>/api/v1\<close> is guarded: the 25 routes of \<^verbatim>\<open>handlers.rs\<close> and \<^verbatim>\<open>redaction.rs\<close>,
  and the crawl.  But for the status page, a request without the key of an active caller is answered 401; a caller without
  the permission of the route (or admin) gets 403, on a writing route of the former possibly 400 for malformed input, and
  never an answer; in both cases nothing changes and nothing is fetched.  Whatever the request, only a caller with the
  permission of the route changes the tables, and only on a writing route.
\<close>

theorem api_is_guarded:
  "(snd (serve_request E header request s) = s \<or>
     (\<exists>auth. caller E header s = Some auth \<and> allowed auth (required request) \<and> writes request)) \<and>
   (request = GetStatus \<or> (case caller E header s of
       None \<Rightarrow> serve_request E header request s = (Json_Error 401 ''invalid api key'', s)
     | Some auth \<Rightarrow> allowed auth (required request) \<or>
         (\<exists>code message. serve_request E header request s = (Json_Error code message, s) \<and> (code = 403 \<or> code = 400 \<and> writes request)))) \<and>
   (case caller F header (cr_tables S) of
       None \<Rightarrow> post_crawl F gt ct pe header url S = ((Crawl_Error 401 (gt InvalidApiKey), []), S)
     | Some auth \<Rightarrow> allowed auth GraphCrawl \<or>
         post_crawl F gt ct pe header url S =
           ((Crawl_Error 403 (gt (PermissionDenied (permission_as_str GraphCrawl))), []), S))"
  using routes_are_guarded [of E header request s]
  by (auto simp: post_crawl_def api_bind_def [of "api_authenticate F header"] api_authenticate_caller require_allowed
      graph_to_crawl_error_def split: option.split)

end
