(* ===== verification/Gossip.thy ===== *)
theory Gossip
  imports Network "HOL-Library.Char_ord" "HOL-Library.List_Lexorder"
begin

text \<open>
  The gossip loops of \<^verbatim>\<open>oag-sync/src/gossip.rs\<close>: rounds of \<open>sync_with_peer\<close> over the addresses on record, the standard
  loop over all of them and the cluster loop over those of the own cluster.  What the peers at the addresses answer is
  the record \<open>tick\<close>.  Rounds keep whatever ingestion and peer-table upkeep keep (the locale \<open>sync_invariant\<close>), every
  address is tried once a round whoever fails, and repeated rounds copy the chain of an honest peer.
\<close>

section \<open>The loops\<close>

text \<open>What is found at each address in a round: the peer there and the time of the call.\<close>

record tick =
  tk_remote :: "string \<Rightarrow> remote"
  tk_now :: "string \<Rightarrow> i64"

type_synonym sync_log = "(string \<times> (sync_error + sync_summary)) list"

text \<open>The database and the shared counter \<^verbatim>\<open>sync_errors\<close>, an \<^verbatim>\<open>AtomicU64\<close>.\<close>

type_synonym gossip_state = "sync_db \<times> u64"

definition record_sync_error :: "u64 \<Rightarrow> u64" where "record_sync_error errors = errors + 1"

definition sync_address ::
  "('sk, 'vk, 'z) codec_scheme \<Rightarrow> 'vk wire \<Rightarrow> (f32 \<Rightarrow> f32) \<Rightarrow> sync_service \<Rightarrow> tick \<Rightarrow> string \<Rightarrow> sync_log \<times> gossip_state
     \<Rightarrow> sync_log \<times> gossip_state" where
  "sync_address C W rnd sv tk addr st =
     (case st of (calls, n, errors) \<Rightarrow>
      case sync_with_peer C W rnd sv (tk_remote tk addr) (tk_now tk addr) addr n of
        (Inr summary, n') \<Rightarrow> (calls @ [(addr, Inr summary)], n', errors)
      | (Inl e, n') \<Rightarrow> (calls @ [(addr, Inl e)], n', record_sync_error errors))"

definition sync_round ::
  "('sk, 'vk, 'z) codec_scheme \<Rightarrow> 'vk wire \<Rightarrow> (f32 \<Rightarrow> f32) \<Rightarrow> sync_service \<Rightarrow> tick \<Rightarrow> string list \<Rightarrow> gossip_state
     \<Rightarrow> sync_log \<times> gossip_state" where
  "sync_round C W rnd sv tk addrs st = fold (sync_address C W rnd sv tk) addrs ([], st)"

text \<open>\<^verbatim>\<open>sort\<close> and \<^verbatim>\<open>dedup\<close>.\<close>

definition sort_dedup :: "string list \<Rightarrow> string list" where "sort_dedup addrs = remdups_adj (sort addrs)"

definition gossip_addrs :: "string list \<Rightarrow> sync_db \<Rightarrow> string list" where
  "gossip_addrs bootstrap n =
     sort_dedup (bootstrap @ concat (map (\<lambda>peer. list_addresses (store n) (pe_id peer)) (list_peers (store n))))"

definition cluster_peer_addrs :: "sync_service \<Rightarrow> sync_db \<Rightarrow> string list" where
  "cluster_peer_addrs sv n =
     (if ss_own_cluster sv = None then []
      else sort_dedup (concat (map (\<lambda>peer. list_addresses (store n) (pe_id peer))
             (filter (\<lambda>peer. same_cluster sv n (pe_id peer)) (list_peers (store n))))))"

text \<open>Which loop a round belongs to; the two run side by side, and their rounds may come in any order.\<close>

datatype gossip_loop = Standard | Cluster

fun round_addrs :: "sync_service \<Rightarrow> string list \<Rightarrow> gossip_loop \<Rightarrow> sync_db \<Rightarrow> string list" where
  "round_addrs sv bootstrap Standard n = gossip_addrs bootstrap n"
| "round_addrs sv bootstrap Cluster n = cluster_peer_addrs sv n"

fun run_gossip ::
  "('sk, 'vk, 'z) codec_scheme \<Rightarrow> 'vk wire \<Rightarrow> (f32 \<Rightarrow> f32) \<Rightarrow> sync_service \<Rightarrow> string list \<Rightarrow> (gossip_loop \<times> tick) list
     \<Rightarrow> gossip_state \<Rightarrow> sync_log list \<times> gossip_state" where
  "run_gossip C W rnd sv bootstrap [] st = ([], st)"
| "run_gossip C W rnd sv bootstrap ((loop, tk) # rounds) st =
     (let (calls, st1) = sync_round C W rnd sv tk (round_addrs sv bootstrap loop (fst st)) st;
          (logs, st2) = run_gossip C W rnd sv bootstrap rounds st1
      in (calls # logs, st2))"

section \<open>What rounds keep\<close>

text \<open>The events that the peers of a run can send.\<close>

definition tick_events :: "tick \<Rightarrow> signed_event set" where
  "tick_events tk = (\<Union>addr. remote_events (tk_remote tk addr))"

text \<open>
  A property of the database that ingesting one of the exchanged events, noting a peer and noting an address keep; and
  a pull, a round and a run keep it.
\<close>

locale sync_invariant =
  fixes C :: "('sk, 'vk, 'z) codec_scheme" and S :: "signed_event set" and P :: "db \<Rightarrow> bool"
  assumes ingest: "sev \<in> S \<Longrightarrow> P d \<Longrightarrow> P (snd (ingest_remote_event C vk sev t d))"
    and know_peer: "P d \<Longrightarrow> P (upsert_peer p key name t d)"
    and know_address: "P d \<Longrightarrow> add_address p addr d = Inr d' \<Longrightarrow> P d'"
begin

lemma batch: "set sevs \<subseteq> S \<Longrightarrow> P d \<Longrightarrow> P (snd (ingest_batch C vk o_hex t sevs sm d))"
proof (induction sevs arbitrary: sm d)
  case (Cons sev sevs)
  obtain r d' where ing: "ingest_remote_event C vk sev t d = (r, d')" by (cases "ingest_remote_event C vk sev t d")
  have "P d'" using ingest [of sev d vk t] Cons.prems ing by simp
  then show ?case using ing Cons by (auto split: sum.splits ingest_outcome.splits)
qed simp

lemma pull:
  assumes "remote_events rm \<subseteq> S" "P (store (snd st))"
  shows "P (store (snd (pull_origin C W rnd sv rm now p vk mine head st)))"
proof -
  obtain sm n o_hex seq where eqs: "st = (sm, n)" "head = (o_hex, seq)" by (metis prod.exhaust)
  have "set sevs \<subseteq> S" if "rm_events rm o_hex f t = Inr sevs" for f t sevs
    using assms that unfolding remote_events_def by blast
  then show ?thesis using assms(2) unfolding eqs
    by (cases rule: pull_origin_cases [of C W rnd sv rm now p vk mine o_hex seq sm n]) (simp_all add: batch)
qed

lemma pulls:
  "remote_events rm \<subseteq> S \<Longrightarrow> P (store (snd st)) \<Longrightarrow> P (store (snd (fold (pull_origin C W rnd sv rm now p vk mine) hs st)))"
  using pull by (intro fold_invariant [where P = "\<lambda>st. P (store (snd st))"]) auto

lemma discovery: "P d \<Longrightarrow> P (discover_peers C W self t response d)"
proof -
  have "P (try_add_address p a e)" if "P e" for p a e
    using that know_address by (auto simp: try_add_address_def split: sum.splits)
  then have "P (learn_peer p pk as t e)" if "P e" for p pk as e
    using that know_peer unfolding learn_peer_def by (intro fold_invariant [where P = P]) simp_all
  then have "P (discover_one C W self t rec e)" if "P e" for rec e
    using that by (simp add: discover_one_def split: sum.splits option.splits)
  then show "P d \<Longrightarrow> P (discover_peers C W self t response d)"
    unfolding discover_peers_def by (cases response) (auto intro!: fold_invariant [where P = P])
qed

lemma sync:
  assumes "remote_events rm \<subseteq> S" "P (store n)"
  shows "P (store (snd (sync_with_peer C W rnd sv rm now addr n)))"
proof (cases rule: sync_with_peer_cases [of C W rnd sv rm now addr n])
  case (pulled hr p pk vk d2 n3)
  have "P d2" using know_address [OF know_peer [OF assms(2)] pulled(3)] .
  then have "P (store (snd (summary_default, n3)))" by (simp add: pulled(4) discovery)
  from pulls [OF assms(1) this] show ?thesis by (simp add: pulled(5) case_prod_unfold)
qed (use assms(2) know_peer in simp_all)

lemma address:
  assumes "tick_events tk \<subseteq> S" "P (store (fst (snd st)))"
  shows "P (store (fst (snd (sync_address C W rnd sv tk addr st))))"
proof -
  have "remote_events (tk_remote tk addr) \<subseteq> S" using assms(1) by (auto simp: tick_events_def)
  from sync [OF this assms(2), of W rnd sv "tk_now tk addr" addr] show ?thesis
    by (auto simp: sync_address_def split: prod.splits sum.splits)
qed

lemma round:
  assumes "tick_events tk \<subseteq> S" "P (store (fst st))"
  shows "P (store (fst (snd (sync_round C W rnd sv tk addrs st))))"
  unfolding sync_round_def using assms address
  by (intro fold_invariant [where P = "\<lambda>st. P (store (fst (snd st)))"]) auto

lemma run:
  assumes "\<forall>r \<in> set rounds. tick_events (snd r) \<subseteq> S" "P (store (fst st))"
  shows "P (store (fst (snd (run_gossip C W rnd sv bootstrap rounds st))))"
  using assms
proof (induction rounds arbitrary: st)
  case (Cons r rounds)
  obtain loop tk where r: "r = (loop, tk)" by (cases r)
  obtain calls st1 where st1: "sync_round C W rnd sv tk (round_addrs sv bootstrap loop (fst st)) st = (calls, st1)"
    by (cases "sync_round C W rnd sv tk (round_addrs sv bootstrap loop (fst st)) st")
  have "P (store (fst st1))"
    using round [of tk st W rnd sv "round_addrs sv bootstrap loop (fst st)"] Cons.prems st1 r by simp
  then show ?case using Cons.IH [of st1] Cons.prems(1) by (simp add: r st1 Let_def case_prod_unfold)
qed simp

end

text \<open>Reachability is such a property, and so is that the log grew from a given one.\<close>

interpretation reached: sync_invariant C S "\<lambda>d. (peer_step C S)\<^sup>*\<^sup>* d0 d"
  for C :: "('sk, 'vk, 'z) codec_scheme" and S d0
proof
  show "(peer_step C S)\<^sup>*\<^sup>* d0 (snd (ingest_remote_event C vk sev t d))" if "sev \<in> S" "(peer_step C S)\<^sup>*\<^sup>* d0 d" for sev d vk t
    using that by (metis peer_step.ingest prod.collapse rtranclp.rtrancl_into_rtrancl)
qed (blast intro: rtranclp.rtrancl_into_rtrancl peer_step.know_peer peer_step.know_address)+

section \<open>Every address is tried\<close>

definition failures :: "sync_log \<Rightarrow> nat" where
  "failures calls = length (filter (\<lambda>call. isl (snd call)) calls)"

lemma failures_simps [simp]: "failures [] = 0" "failures (xs @ ys) = failures xs + failures ys"
  by (simp_all add: failures_def)

lemma sync_addresses:
  "\<exists>new n'. fold (sync_address C W rnd sv tk) addrs (calls, n, errors) = (calls @ new, n', errors + of_nat (failures new)) \<and>
     map fst new = addrs"
proof (induction addrs arbitrary: calls n errors)
  case (Cons addr addrs)
  obtain res n1 where res: "sync_with_peer C W rnd sv (tk_remote tk addr) (tk_now tk addr) addr n = (res, n1)"
    by (cases "sync_with_peer C W rnd sv (tk_remote tk addr) (tk_now tk addr) addr n")
  let ?e = "errors + of_nat (failures [(addr, res)])"
  have "sync_address C W rnd sv tk addr (calls, n, errors) = (calls @ [(addr, res)], n1, ?e)"
    by (cases res) (simp_all add: sync_address_def res record_sync_error_def failures_def)
  moreover obtain new n' where "fold (sync_address C W rnd sv tk) addrs (calls @ [(addr, res)], n1, ?e)
      = ((calls @ [(addr, res)]) @ new, n', ?e + of_nat (failures new))" "map fst new = addrs"
    using Cons.IH by blast
  ultimately show ?case
    by (intro exI [of _ "(addr, res) # new"] exI [of _ n']) (auto simp: failures_def)
qed simp

lemma sync_round_calls:
  assumes "sync_round C W rnd sv tk addrs (n, errors) = (calls, n', errors')"
  shows "map fst calls = addrs" "errors' = errors + of_nat (failures calls)"
  using sync_addresses [of C W rnd sv tk addrs "[]" n errors] assms by (auto simp: sync_round_def)

text \<open>A round of a run, with the database it starts from.\<close>

lemma run_gossip_Cons:
  assumes "run_gossip C W rnd sv bootstrap (r # rounds) (n, errors) = (logs, n', errors')"
  obtains calls n1 errors1 logs1 where
    "sync_round C W rnd sv (snd r) (round_addrs sv bootstrap (fst r) n) (n, errors) = (calls, n1, errors1)"
    "run_gossip C W rnd sv bootstrap rounds (n1, errors1) = (logs1, n', errors')" "logs = calls # logs1"
  using assms by (cases r) (auto simp: Let_def split: prod.splits)

lemma run_gossip_rounds:
  assumes "run_gossip C W rnd sv bootstrap rounds (n, errors) = (logs, n', errors')"
  shows "length logs = length rounds \<and> errors' = errors + of_nat (failures (concat logs)) \<and>
    (\<forall>i < length rounds. map fst (logs ! i) =
       round_addrs sv bootstrap (fst (rounds ! i)) (fst (snd (run_gossip C W rnd sv bootstrap (take i rounds) (n, errors)))))"
  using assms
proof (induction rounds arbitrary: n errors logs)
  case (Cons r rounds)
  obtain loop tk where r: "r = (loop, tk)" by (cases r)
  from Cons.prems obtain calls n1 errors1 logs1 where
    one: "sync_round C W rnd sv (snd r) (round_addrs sv bootstrap (fst r) n) (n, errors) = (calls, n1, errors1)"
    and rest: "run_gossip C W rnd sv bootstrap rounds (n1, errors1) = (logs1, n', errors')" "logs = calls # logs1"
    by (rule run_gossip_Cons)
  have "map fst ((calls # logs1) ! i) = round_addrs sv bootstrap (fst ((r # rounds) ! i))
      (fst (snd (run_gossip C W rnd sv bootstrap (take i (r # rounds)) (n, errors))))" if "i < length (r # rounds)" for i
    using that one Cons.IH [OF rest(1)] sync_round_calls(1) [OF one]
    by (cases i) (simp_all add: r Let_def case_prod_unfold)
  then show ?case
    using Cons.IH [OF rest(1)] sync_round_calls(2) [OF one] by (simp add: rest(2) add.assoc)
qed simp

lemma distinct_remdups_adj: "sorted (xs :: 'a :: linorder list) \<Longrightarrow> distinct (remdups_adj xs)"
  by (induction xs rule: remdups_adj.induct) (auto dest: order_antisym)

lemma sort_dedup [simp]: "set (sort_dedup addrs) = set addrs" "distinct (sort_dedup addrs)"
  by (simp_all add: sort_dedup_def distinct_remdups_adj)

definition known_address :: "sync_db \<Rightarrow> peer_id \<Rightarrow> string \<Rightarrow> bool" where
  "known_address n p addr \<longleftrightarrow> has_key pe_id (peers (store n)) p \<and> (p, addr) \<in> set (peer_addresses (store n))"

lemma set_round_addrs:
  "set (round_addrs sv bootstrap Standard n) = set bootstrap \<union> {addr. \<exists>p. known_address n p addr}"
  "set (round_addrs sv bootstrap Cluster n) = {addr. \<exists>p. same_cluster sv n p \<and> known_address n p addr}"
  by (force simp: gossip_addrs_def cluster_peer_addrs_def list_peers_def list_addresses_def known_address_def has_key_def
      same_cluster_def)+

lemma distinct_round_addrs: "distinct (round_addrs sv bootstrap loop n)"
  by (cases loop) (simp_all add: gossip_addrs_def cluster_peer_addrs_def)

section \<open>Copying the chain of an honest peer\<close>

text \<open>
  The owner of a key signs no second event for a position: whatever is exchanged and verifies for \<open>p\<close> is in its log.
\<close>

definition sole_author :: "('sk, 'vk, 'z) codec_scheme \<Rightarrow> signed_event set \<Rightarrow> db \<Rightarrow> peer_id \<Rightarrow> bool" where
  "sole_author C S R p \<longleftrightarrow>
     (\<forall>sev \<in> S. \<forall>vk eid prev. check_origin C vk sev = Inr (eid, p, prev) \<longrightarrow>
        (\<exists>r \<in> set (origin_rows R p). er_event_id r = eid \<and> er_sequence r = ue_sequence (se_unsigned sev)))"

text \<open>The local copy is a prefix of the owner's chain.\<close>

definition follows :: "('sk, 'vk, 'z) codec_scheme \<Rightarrow> signed_event set \<Rightarrow> db \<Rightarrow> peer_id \<Rightarrow> db \<Rightarrow> bool" where
  "follows C S R p d \<longleftrightarrow> db_ok C S d \<and> prefix (chain_of d p) (chain_of R p)"

lemma prefix_snoc_nth: "prefix xs ys \<Longrightarrow> length xs < length ys \<Longrightarrow> prefix (xs @ [ys ! length xs]) ys"
  by (auto simp: prefix_def neq_Nil_conv nth_append)

text \<open>A sound log has no more rows than there are events.\<close>

lemma log_card:
  assumes "db_ok C S d" "finite S" shows "length (events d) \<le> card S"
proof -
  have logged: "\<forall>r \<in> set (events d). \<exists>sev \<in> S. row_of C sev r" and ids: "distinct (map er_event_id (events d))"
    using assms(1) by (simp_all add: db_ok_def logged_def log_ok_def)
  then obtain f where f: "\<forall>r \<in> set (events d). f r \<in> S \<and> row_of C (f r) r" by metis
  have "inj_on f (set (events d))"
  proof (rule inj_onI)
    fix r r' assume r: "r \<in> set (events d)" "r' \<in> set (events d)" "f r = f r'"
    then have "row_of C (f r) r" "row_of C (f r) r'" using f by metis+
    then have "er_event_id r = er_event_id r'" by (simp add: row_of_def)
    then show "r = r'" using r(1,2) ids by (meson distinct_map inj_onD)
  qed
  moreover have "f ` set (events d) \<subseteq> S" using f by blast
  ultimately have "card (set (events d)) \<le> card S" using card_inj_on_le assms(2) by blast
  moreover have "card (set (events d)) = length (events d)" using ids by (simp add: distinct_card distinct_map)
  ultimately show ?thesis by simp
qed

definition small_world :: "signed_event set \<Rightarrow> bool" where
  "small_world S \<longleftrightarrow> finite S \<and> card S < 2 ^ 61"

lemma log_bounded: "db_ok C S d \<Longrightarrow> small_world S \<Longrightarrow> length (events d) < 2 ^ 61"
  using log_card [of C S d] by (simp add: small_world_def)

lemma follows_ingest:
  assumes "follows C S R p d" "small_world S" "collision_free C S" "readable C S" "sev \<in> S"
    and "db_ok C S R" "sole_author C S R p"
  shows "follows C S R p (snd (ingest_remote_event C vk sev t d))"
proof -
  have ok: "db_ok C S d" "prefix (chain_of d p) (chain_of R p)" using assms(1) by (simp_all add: follows_def)
  have sizes: "length (events d) < 2 ^ 61" "length (events R) < 2 ^ 61"
    using log_bounded [OF ok(1) assms(2)] log_bounded [OF assms(6,2)] by blast+
  then have small: "length (events d) < 2 ^ 64 - 1" by simp
  from ok have log: "log_ok d" "logged C S d" by (simp_all add: db_ok_def)
  have "prefix (chain_of (snd (ingest_remote_event C vk sev t d)) p) (chain_of R p)"
  proof (cases "check_origin C vk sev")
    case (Inl e)
    then have "ingest_remote_event C vk sev t d = (Inl e, d)"
      by (simp add: ingest_remote_event_def transaction_def ingest_body_def)
    with ok(2) show ?thesis by simp
  next
    case (Inr x)
    then obtain eid q prev where origin: "check_origin C vk sev = Inr (eid, q, prev)" by (cases x) auto
    show ?thesis
    proof (cases "chain_offer (chain_of d q) (ue_sequence (se_unsigned sev)) prev eid = Append")
      case True
      have seq: "ue_sequence (se_unsigned sev) = of_nat (Suc (length (chain_of d q)))"
        using append_remote_chain [OF log(1) small assms(3) log(2) assms(5) origin True] by metis
      have next_event: "prefix (chain_of d p @ [eid]) (chain_of R p)" if own: "q = p"
      proof -
        obtain r where r: "r \<in> set (origin_rows R p)" "er_event_id r = eid" "er_sequence r = of_nat (Suc (length (chain_of d p)))"
          using assms(7) [unfolded sole_author_def, rule_format, OF assms(5), of vk eid prev] origin seq own by auto
        then obtain i where i: "i < length (origin_rows R p)" "r = origin_rows R p ! i" by (metis in_set_conv_nth)
        have "er_sequence r = of_nat (Suc i)" using assms(6) i by (simp add: db_ok_def log_ok_def chain_linked_def)
        moreover have "Suc i < 2 ^ 64" "Suc (length (chain_of d p)) < 2 ^ 64"
          using i(1) sizes chain_of_le [of R p] chain_of_le [of d p] by (simp_all add: length_chain_of)
        ultimately have "Suc i = Suc (length (chain_of d p))"
          using r(3) by (metis of_nat_eq_iff_unat)
        then have "i = length (chain_of d p)" by simp
        then show ?thesis using prefix_snoc_nth [OF ok(2)] i r(2) by (simp add: chain_of_def)
      qed
      from append_remote_outcome [OF log(1) small assms(3) log(2) assms(5) origin True, of t] show ?thesis
        using ok(2) next_event by (auto split: sum.splits dest!: appends_effect(3))
    next
      case False
      then have "same_log d (snd (ingest_remote_event C vk sev t d))"
        using ingest_not_appended [OF log(1) small origin, of t]
        by (auto simp: same_log_peers split: chain_reply.splits sum.splits)
      then have "chain_of (snd (ingest_remote_event C vk sev t d)) = chain_of d"
        by (intro chain_of_cong) (simp add: same_log_def)
      with ok(2) show ?thesis by simp
    qed
  qed
  then show ?thesis using ingest_db_ok [OF ok(1) small assms(3-5)] by (simp add: follows_def)
qed

text \<open>Following the owner is kept by every exchange.\<close>

definition still_follows :: "('sk, 'vk, 'z) codec_scheme \<Rightarrow> signed_event set \<Rightarrow> db \<Rightarrow> peer_id \<Rightarrow> db \<Rightarrow> bool" where
  "still_follows C S R p d \<longleftrightarrow>
     (collision_free C S \<and> readable C S \<and> small_world S \<and> db_ok C S R \<and> sole_author C S R p \<longrightarrow>
      follows C S R p d)"

lemma follows_same_log: "same_log d d' \<Longrightarrow> follows C S R p d \<Longrightarrow> follows C S R p d'"
  using db_ok_same_log chain_of_cong [of d' d] by (fastforce simp: follows_def same_log_def)

lemma still_follows_same_log: "same_log d d' \<Longrightarrow> still_follows C S R p d \<Longrightarrow> still_follows C S R p d'"
  using follows_same_log [of d d' C S R p] by (auto simp: still_follows_def)

interpretation following: sync_invariant C S "still_follows C S R p"
  for C :: "('sk, 'vk, 'z) codec_scheme" and S R p
proof
  fix sev d vk t assume sev: "sev \<in> S" and ok: "still_follows C S R p d"
  then show "still_follows C S R p (snd (ingest_remote_event C vk sev t d))"
    by (auto simp: still_follows_def intro!: follows_ingest)
next
  show "still_follows C S R p (upsert_peer q key name t d)" if "still_follows C S R p d" for q key name t d
    using that by (rule still_follows_same_log [OF same_log_peers(1)])
next
  show "still_follows C S R p d'" if "still_follows C S R p d" "add_address q addr d = Inr d'" for d q addr d'
    using that by (metis still_follows_same_log same_log_peers(4))
qed

section \<open>A call to an honest peer\<close>

lemma map_of_first: "map_of xs k = Some v \<Longrightarrow> \<exists>us vs. xs = us @ (k, v) # vs \<and> k \<notin> fst ` set us"
proof (induction xs)
  case (Cons x xs)
  show ?case
  proof (cases "fst x = k")
    case True
    then show ?thesis using Cons.prems by (intro exI [of _ "[]"] exI [of _ xs]) (cases x, simp)
  next
    case False
    then obtain us vs where "xs = us @ (k, v) # vs" "k \<notin> fst ` set us" using Cons by (cases x) auto
    then show ?thesis using False by (intro exI [of _ "x # us"] exI [of _ vs]) auto
  qed
qed simp

lemma local_heads_split:
  assumes "hex_codec C" "log_ok R" "chain_of R p \<noteq> []"
  obtains us vs where "local_heads C R = us @ (hex_encode C p, of_nat (length (chain_of R p))) # vs"
    "\<forall>h \<in> set us. decode_hex32 C (fst h) \<noteq> Some p"
proof -
  have "origin_tracked R p" using assms(2) by (simp add: log_ok_def)
  then have "map_of (local_heads C R) (hex_encode C p) = Some (of_nat (length (chain_of R p)))"
    using assms(3) by (simp add: local_heads_lookup [OF assms(1)] origin_tracked_def)
  then obtain us vs where heads: "local_heads C R = us @ (hex_encode C p, of_nat (length (chain_of R p))) # vs"
    "hex_encode C p \<notin> fst ` set us"
    using map_of_first by metis
  have "decode_hex32 C (fst h) \<noteq> Some p" if "h \<in> set us" for h
  proof -
    have "h \<in> set (local_heads C R)" using heads(1) that by simp
    then obtain q where q: "fst h = hex_encode C q" by (auto simp: local_heads_def)
    then have "q \<noteq> p" using heads(2) that by force
    then show ?thesis
      using assms(1) by (auto simp: q decode_hex32_def decode_hex_array_def hex_codec_def split: if_splits)
  qed
  with heads(1) show thesis by (intro that) auto
qed

lemma honest_hello:
  assumes "codecs_ok C" "key_codec C W" "p = peer_id_from_public_key C vk"
  shows "check_hello C W (hello C p (key_bytes C vk) R) = Inr (p, key_bytes C vk, vk)" "length p = 32"
proof -
  show len: "length p = 32" using assms(1,3) by (simp add: peer_id_from_public_key_def codecs_ok_def blake3_digest_def)
  have "peer_id_from_str C (peer_id_to_string C p) = Inr p"
    using peer_id_round_trip [OF _ len, of C] assms(1) by (simp add: codecs_ok_def)
  moreover have "decode_hex32 C (hex_encode C (key_bytes C vk)) = Some (key_bytes C vk)"
    using assms(1,2) by (simp add: decode_hex32_def decode_hex_array_def hex_codec_def codecs_ok_def key_codec_def)
  ultimately show "check_hello C W (hello C p (key_bytes C vk) R) = Inr (p, key_bytes C vk, vk)"
    using assms(2,3) by (simp add: check_hello_def hello_def key_codec_def ok_or_def)
qed

lemma honest_remote_events:
  assumes "reads_back C S" "logged C S R"
  shows "remote_events (honest_remote C p key as_error R) \<subseteq> S"
proof -
  have "sev \<in> S" if got: "get_events C R o_hex f t = Inr sevs" "sev \<in> set sevs" for o_hex f t sevs sev
  proof -
    obtain origin where serve: "serve_range C R origin f t = Inr sevs"
      using got(1) by (auto simp: get_events_def split: if_splits)
    define rows where "rows = list_range R origin f (i64_min t (f + MAX_EVENTS_PER_FETCH - 1))"
    have "list_all2 (\<lambda>r x. parse_signed C (er_payload r) = Inr x) rows sevs"
      using serve by (simp add: serve_range_def Let_def collect_results_Inr_iff rows_def)
    then have "\<exists>r \<in> set rows. parse_signed C (er_payload r) = Inr sev"
      using got(2) by (induction rule: list_all2_induct) auto
    then obtain r where "r \<in> set rows" "parse_signed C (er_payload r) = Inr sev" ..
    moreover have "set rows \<subseteq> set (events R)" by (auto simp: rows_def list_range_def)
    ultimately show ?thesis using row_event [OF assms] by force
  qed
  then show ?thesis by (auto simp: remote_events_def honest_remote_def)
qed

text \<open>Admitted whatever the time and whatever is known about presence.\<close>

definition admitted :: "sync_service \<Rightarrow> sync_db \<Rightarrow> peer_id \<Rightarrow> bool" where
  "admitted sv n p \<longleftrightarrow> same_cluster sv n p \<or> allows (ss_federation sv) p \<and> ss_minimum_trust sv \<le> 0"

lemma admitted_allows: "admitted sv n p \<Longrightarrow> federation_allows rnd sv n now p"
  by (auto simp: admitted_def federation_allows_def)

lemma admitted_cong: "peer_cluster_claims m = peer_cluster_claims n \<Longrightarrow> admitted sv m p \<longleftrightarrow> admitted sv n p"
  unfolding admitted_def same_cluster_def cluster_get_def by (cases "ss_own_cluster sv") simp_all

lemma claims_note_heads [simp]: "peer_cluster_claims (note_heads C p now hs n) = peer_cluster_claims n"
  unfolding note_heads_def
  by (induction hs arbitrary: n) (auto simp: upsert_known_head_def split: option.splits)

lemma batch_errors:
  "ingest_batch C vk o_hex t sevs sm d = (sm', d') \<Longrightarrow> x \<in> set (sy_errors sm) \<Longrightarrow> x \<in> set (sy_errors sm')"
proof (induction sevs arbitrary: sm d)
  case (Cons sev sevs)
  obtain r d1 where ing: "ingest_remote_event C vk sev t d = (r, d1)" by (cases "ingest_remote_event C vk sev t d")
  show ?case
    using Cons.prems ing Cons.IH [of "sm\<lparr>sy_applied := sy_applied sm + 1\<rparr>" d1]
      Cons.IH [of "sm\<lparr>sy_already_known := sy_already_known sm + 1\<rparr>" d1]
    by (auto split: sum.splits ingest_outcome.splits)
qed simp

lemma pull_frame:
  assumes "pull_origin C W rnd sv rm now p vk mine (o_hex, seq) (sm, n) = (sm', n')"
  shows "peer_cluster_claims n' = peer_cluster_claims n" "set (sy_errors sm) \<subseteq> set (sy_errors sm')"
  using assms unfolding pull_origin_def Let_def
  by (auto split: option.splits sum.splits prod.splits if_splits dest: batch_errors)

lemma pulls_errors:
  "set (sy_errors (fst st)) \<subseteq> set (sy_errors (fst (fold (pull_origin C W rnd sv rm now p vk mine) hs st)))"
proof (induction hs arbitrary: st)
  case (Cons h hs)
  have "set (sy_errors (fst st)) \<subseteq> set (sy_errors (fst (pull_origin C W rnd sv rm now p vk mine h st)))"
    by (cases h; cases st; cases "pull_origin C W rnd sv rm now p vk mine h st") (auto dest!: pull_frame(2))
  then show ?case using Cons.IH [of "pull_origin C W rnd sv rm now p vk mine h st"] by auto
qed simp

text \<open>Pulling other origins leaves a chain alone, since every key on record is its peer's.\<close>

lemma pull_other_chain:
  assumes "keys_match C W (store (snd st))" "p = peer_id_from_public_key C vk" "decode_hex32 C (fst head) \<noteq> Some q"
  shows "chain_of (store (snd (pull_origin C W rnd sv rm now p vk mine head st))) q = chain_of (store (snd st)) q"
proof -
  obtain sm n o_hex seq where eqs: "st = (sm, n)" "head = (o_hex, seq)" by (metis prod.exhaust)
  show ?thesis unfolding eqs
  proof (cases rule: pull_origin_cases [of C W rnd sv rm now p vk mine o_hex seq sm n])
    case (pulled origin vk' sevs f)
    have "origin \<noteq> q" using pulled(1) assms(3) eqs by auto
    moreover have "peer_id_from_public_key C vk' = origin"
      using pulled(3) assms(1,2) known_key_match [of C W "store n"] eqs by (simp split: if_splits)
    ultimately show "chain_of (store (snd (pull_origin C W rnd sv rm now p vk mine (o_hex, seq) (sm, n)))) q
        = chain_of (store (snd (sm, n))) q"
      using pulled(5) by (simp add: batch_other_chain)
  qed simp
qed

lemma chain_prefix: "prefix (events d) (events d') \<Longrightarrow> prefix (chain_of d p) (chain_of d' p)"
  by (auto simp: prefix_def chain_of_def origin_rows_def)

text \<open>
  An honest owner of a key: a sound database in which its own chain is signed with that key, and which holds everything
  it ever signed.
\<close>

definition honest_owner :: "('sk, 'vk, 'z) codec_scheme \<Rightarrow> signed_event set \<Rightarrow> 'vk \<Rightarrow> db \<Rightarrow> peer_id \<Rightarrow> bool" where
  "honest_owner C S vk R p \<longleftrightarrow>
     p = peer_id_from_public_key C vk \<and> db_ok C S R \<and> signed_by C vk S R p \<and> sole_author C S R p"

text \<open>The summary names an event of \<open>p\<close>'s chain and why it does not project.\<close>

definition blocked :: "('sk, 'vk, 'z) codec_scheme \<Rightarrow> db \<Rightarrow> peer_id \<Rightarrow> sync_summary \<Rightarrow> bool" where
  "blocked C R p sm \<longleftrightarrow>
     (\<exists>j e g. j < length (chain_of R p) \<and> IngestFailed (hex_encode C p) (of_nat (Suc j)) e \<in> set (sy_errors sm) \<and>
        project_graph C (chain_of R p ! j) (er_created_at (origin_rows R p ! j))
          (ue_payload (se_unsigned (row_event C (origin_rows R p ! j)))) g = Inl e)"

lemma blocked_mono: "set (sy_errors sm) \<subseteq> set (sy_errors sm') \<Longrightarrow> blocked C R p sm \<Longrightarrow> blocked C R p sm'"
  unfolding blocked_def by blast

lemma caught_up_blocked:
  assumes "chain_linked (origin_rows R p)" "caught_up_to C p (take l (origin_rows R p)) k sm d" "\<not> blocked C R p sm"
  shows "length (chain_of d p) = min (length (chain_of R p)) l"
proof -
  let ?rows = "take l (origin_rows R p)"
  from assms(2) obtain j where j: "j \<le> length ?rows" "chain_of d p = map er_event_id (take j ?rows)"
    "j < length ?rows \<Longrightarrow> \<exists>e note. sy_errors sm = note @ [IngestFailed (hex_encode C p) (er_sequence (?rows ! j)) e] \<and>
       project_graph C (er_event_id (?rows ! j)) (er_created_at (?rows ! j))
         (ue_payload (se_unsigned (row_event C (?rows ! j)))) (graph d) = Inl e"
    unfolding caught_up_to_def by blast
  have "\<not> j < length ?rows"
  proof
    assume less: "j < length ?rows"
    then have "?rows ! j = origin_rows R p ! j" "er_sequence (origin_rows R p ! j) = of_nat (Suc j)"
      "er_event_id (origin_rows R p ! j) = chain_of R p ! j" "j < length (chain_of R p)"
      using assms(1) by (simp_all add: chain_linked_def chain_of_def)
    with j(3) [OF less] assms(3) show False unfolding blocked_def by (metis in_set_conv_decomp)
  qed
  then show ?thesis using j(1,2) by (auto simp: length_chain_of)
qed

lemma pull_own_chain:
  assumes "codecs_ok C" "key_codec C W" "collision_free C S" "reads_back C S" "honest_owner C S vk R p"
    and "db_ok C S (store n)" "small_world S" "prefix (chain_of (store n) p) (chain_of R p)" "admitted sv n p"
    and "log_ok d" "chain_of d p = chain_of (store n) p"
    and "pull_origin C W rnd sv (honest_remote C self key as_error R) now p vk (local_heads C d)
           (hex_encode C p, of_nat (length (chain_of R p))) (sm, n) = (sm', n')"
  shows "min (length (chain_of R p)) (length (chain_of (store n) p) + 1000) \<le> length (chain_of (store n') p) \<or>
    blocked C R p sm'"
proof (cases "length (chain_of (store n) p) < length (chain_of R p)")
  case True
  let ?k = "length (chain_of (store n) p)"
  have hex: "hex_codec C" and len: "length p = 32"
    using assms(5) honest_hello(2) [OF assms(1,2)] assms(1) by (simp_all add: codecs_ok_def honest_owner_def)
  have "log_ok (store n)" using assms(6) by (simp add: db_ok_def)
  then have mine: "(case map_of (local_heads C d) (hex_encode C p) of None \<Rightarrow> 0 | Some s \<Rightarrow> s)
      = (case map_of (local_heads C (store n)) (hex_encode C p) of None \<Rightarrow> 0 | Some s \<Rightarrow> s)"
    using local_seq_chain [OF hex, of _ p] assms(10,11) by simp
  have run: "pull_origin C W rnd sv (honest_remote C self key as_error R) now p vk (local_heads C (store n))
      (hex_encode C p, of_nat (length (chain_of R p))) (sm, n) = (sm', n')"
    using assms(12) unfolding pull_origin_def prod.case mine .
  have own: "db_ok C S R" "signed_by C vk S R p" using assms(5) unfolding honest_owner_def by blast+
  have sizes: "length (events (store n)) < 2 ^ 61" "length (events R) < 2 ^ 61"
    using log_bounded [OF assms(6,7)] log_bounded [OF own(1) assms(7)] by blast+
  have start: "chain_of (store n) p = take ?k (chain_of R p)" using assms(8) by (auto simp: prefix_def)
  have key: "(if p = p then Some vk else known_key C W (store n) p) = Some vk" by simp
  have "chain_linked (origin_rows R p)" using own(1) by (simp add: db_ok_def log_ok_def)
  from caught_up_blocked [OF this pull_from_honest [OF hex len assms(3,4,6) sizes(1) own(1) sizes(2) own(2) start True admitted_allows [OF assms(9)] key run]]
  show ?thesis by (auto simp: min.commute)
next
  case False
  have "codecs_ok C \<Longrightarrow> hex_codec C" by (simp add: codecs_ok_def)
  then have "(case map_of (local_heads C d) (hex_encode C p) of None \<Rightarrow> 0 | Some s \<Rightarrow> s) = of_nat (length (chain_of R p))"
    using local_seq_chain [OF _ assms(10), of C p] assms(1,8,11) False prefix_length_le [OF assms(8)] by simp
  then have "n' = n" using assms(12)
    by (auto simp: pull_origin_def Let_def split: option.splits if_splits)
  with False show ?thesis by simp
qed

lemma honest_call:
  assumes "codecs_ok C" "key_codec C W" "p = peer_id_from_public_key C vk"
  obtains d2 n3 where "add_address p addr (upsert_peer p (key_bytes C vk) None (sint now) (store n)) = Inr d2"
    "n3 = (note_heads C p now (local_heads C R) (n\<lparr>store := d2\<rparr>))
       \<lparr>store := discover_peers C W (ss_peer_id sv) (sint now) (Inr (peers_response C R)) d2\<rparr>"
    "sync_with_peer C W rnd sv (honest_remote C p (key_bytes C vk) as_error R) now addr n =
       (case fold (pull_origin C W rnd sv (honest_remote C p (key_bytes C vk) as_error R) now p vk (local_heads C (store n3)))
          (local_heads C R) (summary_default, n3) of (sm, n4) \<Rightarrow> (Inr sm, n4))"
proof -
  have "has_key pe_id (peers (upsert_peer p (key_bytes C vk) None (sint now) (store n))) p"
    by (simp add: upsert_peer_def)
  then obtain d2 where d2: "add_address p addr (upsert_peer p (key_bytes C vk) None (sint now) (store n)) = Inr d2"
    by (metis add_address_def)
  show thesis
    by (rule that [OF d2 refl])
      (simp add: sync_with_peer_def honest_remote_def honest_hello(1) [OF assms] d2 Let_def, simp add: hello_def)
qed

lemma sync_with_honest:
  assumes "codecs_ok C" "key_codec C W" "collision_free C S" "reads_back C S" "honest_owner C S vk R p"
    and "keys_match C W (store n)" "follows C S R p (store n)" "admitted sv n p"
    and rm: "rm = honest_remote C p (key_bytes C vk) as_error R"
    and call: "sync_with_peer C W rnd sv rm now addr n = (res, n')" and world: "small_world S"
  shows "\<exists>sm. res = Inr sm \<and>
    (min (length (chain_of R p)) (length (chain_of (store n) p) + 1000) \<le> length (chain_of (store n') p) \<or>
     blocked C R p sm)"
proof -
  have owner: "p = peer_id_from_public_key C vk" "log_ok R" "logged C S R" "db_ok C S R" "sole_author C S R p"
    using assms(5) unfolding honest_owner_def db_ok_def by blast+
  have sent: "remote_events rm \<subseteq> S" unfolding rm by (rule honest_remote_events [OF assms(4) owner(3)])
  obtain d2 n3 where d2: "add_address p addr (upsert_peer p (key_bytes C vk) None (sint now) (store n)) = Inr d2"
    and n3: "n3 = (note_heads C p now (local_heads C R) (n\<lparr>store := d2\<rparr>))
       \<lparr>store := discover_peers C W (ss_peer_id sv) (sint now) (Inr (peers_response C R)) d2\<rparr>"
    and run: "sync_with_peer C W rnd sv rm now addr n =
       (case fold (pull_origin C W rnd sv rm now p vk (local_heads C (store n3))) (local_heads C R) (summary_default, n3)
        of (sm, n4) \<Rightarrow> (Inr sm, n4))"
    unfolding rm using honest_call [OF assms(1,2) owner(1)] by metis
  let ?pull = "pull_origin C W rnd sv rm now p vk (local_heads C (store n3))"
  obtain sm where finished: "fold ?pull (local_heads C R) (summary_default, n3) = (sm, n')" "res = Inr sm"
    using run call by (auto split: prod.splits)
  have "vk_from_bytes W (key_bytes C vk) = Some vk" using assms(2) by (simp add: key_codec_def)
  then have "keys_match C W d2"
    using keys_match_upsert [OF assms(6) _ owner(1), of "key_bytes C vk"] keys_match_cong [OF add_address_frame(1) [OF d2], of C W] by simp
  then have keys: "keys_match C W (store n3)" by (simp add: n3 keys_match_discover)
  have chain: "chain_of (store n3) = chain_of (store n)"
    using add_address_frame(2) [OF d2] chain_of_cong [of "upsert_peer p (key_bytes C vk) None (sint now) (store n)" "store n"]
    by (simp add: n3)
  have follow: "still_follows C S R p (store n3)"
  proof -
    have "still_follows C S R p (store n)" using assms(7) by (simp add: still_follows_def)
    then have "still_follows C S R p d2" using following.know_peer following.know_address [OF _ d2] by metis
    then show ?thesis by (simp add: n3 following.discovery)
  qed
  show ?thesis
  proof (cases "chain_of R p = []")
    case False
    have "hex_codec C" using assms(1) by (simp add: codecs_ok_def)
    then obtain us vs where heads: "local_heads C R = us @ (hex_encode C p, of_nat (length (chain_of R p))) # vs"
      "\<forall>h \<in> set us. decode_hex32 C (fst h) \<noteq> Some p"
      by (rule local_heads_split [OF _ owner(2) False])
    let ?inv = "\<lambda>st :: sync_summary \<times> sync_db. keys_match C W (store (snd st)) \<and> still_follows C S R p (store (snd st)) \<and>
      peer_cluster_claims (snd st) = peer_cluster_claims n \<and> chain_of (store (snd st)) p = chain_of (store n) p"
    have "?inv (?pull h st)" if "h \<in> set us" "?inv st" for h st
    proof -
      have "peer_cluster_claims (snd (?pull h st)) = peer_cluster_claims (snd st)"
        by (cases h; cases st; cases "?pull h st") (auto dest: pull_frame(1))
      moreover have "keys_match C W (store (snd (?pull h st)))" using that(2) keys_match_pull [OF assms(2)] by blast
      moreover have "still_follows C S R p (store (snd (?pull h st)))" 
        by (rule following.pull [OF sent]) (use that(2) in blast)
      moreover have "chain_of (store (snd (?pull h st))) p = chain_of (store (snd st)) p"
        using that heads(2) pull_other_chain [OF _ owner(1)] by blast
      ultimately show ?thesis using that(2) by simp
    qed
    moreover have "?inv (summary_default, n3)" using keys follow chain by (simp add: n3)
    ultimately have mid: "?inv (fold ?pull us (summary_default, n3))" by (rule fold_invariant)
    obtain sm1 n1 where st1: "fold ?pull us (summary_default, n3) = (sm1, n1)" by (cases "fold ?pull us (summary_default, n3)")
    obtain sm2 n2 where st2: "?pull (hex_encode C p, of_nat (length (chain_of R p))) (sm1, n1) = (sm2, n2)"
      by (cases "?pull (hex_encode C p, of_nat (length (chain_of R p))) (sm1, n1)")
    have end_run: "fold ?pull vs (sm2, n2) = (sm, n')" using finished(1) by (simp add: heads(1) st1 st2)
    have grow: "prefix (events (store n2)) (events (store n'))"
      using reachable_prefix [OF reached.pulls [OF sent, where st = "(sm2, n2)" and ?d0.0 = "store n2"]] end_run
      by (metis rtranclp.rtrancl_refl snd_conv)
    have "follows C S R p (store n1)" "follows C S R p (store n3)"
      using mid st1 follow owner(4,5) world assms(3) reads_back_readable [OF assms(4)] by (simp_all add: still_follows_def)
    then have n1: "db_ok C S (store n1)" "prefix (chain_of (store n1) p) (chain_of R p)" "log_ok (store n3)"
      by (simp_all add: follows_def db_ok_def)
    have adm: "admitted sv n1 p" using assms(8) admitted_cong [of n1 n] mid st1 by simp
    have same: "chain_of (store n3) p = chain_of (store n1) p" using chain mid st1 by simp
    from pull_own_chain [OF assms(1-5) n1(1) world n1(2) adm n1(3) same st2 [unfolded rm]]
    have "min (length (chain_of R p)) (length (chain_of (store n) p) + 1000) \<le> length (chain_of (store n2) p) \<or>
      blocked C R p sm2"
      using mid st1 by simp
    moreover have "length (chain_of (store n2) p) \<le> length (chain_of (store n') p)"
      using chain_prefix [OF grow] by (rule prefix_length_le)
    moreover have "set (sy_errors sm2) \<subseteq> set (sy_errors sm)"
      using pulls_errors [of "(sm2, n2)"] end_run by (metis fst_conv)
    ultimately show ?thesis using finished(2) blocked_mono order_trans by blast
  qed (use finished in simp)
qed

section \<open>Rounds that reach an honest peer\<close>

lemma claims_sync: "peer_cluster_claims (snd (sync_with_peer C W rnd sv rm now addr n)) = peer_cluster_claims n"
proof (cases rule: sync_with_peer_cases [of C W rnd sv rm now addr n])
  case (pulled hr p pk vk d2 n3)
  let ?pull = "pull_origin C W rnd sv rm now p vk (local_heads C (store n3))"
  have "peer_cluster_claims (snd (?pull h st)) = peer_cluster_claims (snd st)" for h st
    by (cases h; cases st; cases "?pull h st") (auto dest: pull_frame(1))
  then have "peer_cluster_claims (snd (fold ?pull (hr_heads hr) (summary_default, n3))) = peer_cluster_claims n"
    by (intro fold_invariant [where P = "\<lambda>st. peer_cluster_claims (snd st) = peer_cluster_claims n"]) (simp_all add: pulled(4))
  then show ?thesis by (simp add: pulled(5) case_prod_unfold)
qed simp_all

text \<open>What the calls of a run keep of the state that matters for following the owner of a chain.\<close>

definition gossip_ok ::
  "('sk, 'vk, 'z) codec_scheme \<Rightarrow> 'vk wire \<Rightarrow> signed_event set \<Rightarrow> db \<Rightarrow> peer_id \<Rightarrow> sync_service \<Rightarrow> sync_db \<Rightarrow> bool" where
  "gossip_ok C W S R p sv n \<longleftrightarrow> keys_match C W (store n) \<and> still_follows C S R p (store n) \<and> admitted sv n p"

lemma gossip_ok_sync:
  assumes "key_codec C W" "remote_events rm \<subseteq> S" "gossip_ok C W S R p sv n"
  shows "gossip_ok C W S R p sv (snd (sync_with_peer C W rnd sv rm now addr n))"
proof -
  have "still_follows C S R p (store (snd (sync_with_peer C W rnd sv rm now addr n)))"
    by (rule following.sync [OF assms(2)]) (use assms(3) in \<open>simp add: gossip_ok_def\<close>)
  then show ?thesis
    using assms(3) keys_match_sync [OF assms(1)] by (auto simp: gossip_ok_def admitted_cong [OF claims_sync])
qed

lemma sync_address_call:
  "sync_address C W rnd sv tk addr (calls, n, errors) =
     (calls @ [(addr, fst (sync_with_peer C W rnd sv (tk_remote tk addr) (tk_now tk addr) addr n))],
      snd (sync_with_peer C W rnd sv (tk_remote tk addr) (tk_now tk addr) addr n),
      errors + of_nat (failures [(addr, fst (sync_with_peer C W rnd sv (tk_remote tk addr) (tk_now tk addr) addr n))]))"
  by (auto simp: sync_address_def record_sync_error_def failures_def split: prod.splits sum.splits)

lemma sync_addresses_keep:
  assumes "key_codec C W" "tick_events tk \<subseteq> S" "gossip_ok C W S R p sv n"
    and "fold (sync_address C W rnd sv tk) addrs (calls, n, errors) = (calls', n', errors')"
  shows "gossip_ok C W S R p sv n'" "prefix (events (store n)) (events (store n'))" "prefix calls calls'"
proof -
  have remotes: "remote_events (tk_remote tk a) \<subseteq> S" for a using assms(2) by (auto simp: tick_events_def)
  have "gossip_ok C W S R p sv n' \<and> (peer_step C S)\<^sup>*\<^sup>* (store n) (store n') \<and> prefix calls calls'"
    using assms(3,4)
  proof (induction addrs arbitrary: calls n errors)
    case (Cons a addrs)
    let ?call = "sync_with_peer C W rnd sv (tk_remote tk a) (tk_now tk a) a n"
    have "gossip_ok C W S R p sv n' \<and> (peer_step C S)\<^sup>*\<^sup>* (store (snd ?call)) (store n') \<and> prefix (calls @ [(a, fst ?call)]) calls'"
      using Cons.prems by (intro Cons.IH gossip_ok_sync [OF assms(1) remotes]) (auto simp: sync_address_call)
    then show ?case
      using sync_with_peer_steps [OF remotes] by (metis append_prefixD rtranclp_trans)
  qed simp
  then show "gossip_ok C W S R p sv n'" "prefix (events (store n)) (events (store n'))" "prefix calls calls'"
    using reachable_prefix by blast+
qed

text \<open>The round contains a report that an event of \<open>p\<close> does not project here.\<close>

definition reported :: "('sk, 'vk, 'z) codec_scheme \<Rightarrow> db \<Rightarrow> string \<Rightarrow> peer_id \<Rightarrow> sync_log \<Rightarrow> bool" where
  "reported C R addr p calls \<longleftrightarrow>
     (\<exists>sm. (addr, Inr sm) \<in> set calls \<and> blocked C R p sm)"

lemma round_progress:
  assumes hyps: "codecs_ok C" "key_codec C W" "collision_free C S" "reads_back C S" "honest_owner C S vk R p"
    and "tick_events tk \<subseteq> S" "gossip_ok C W S R p sv n" "addr \<in> set addrs"
    and "tk_remote tk addr = honest_remote C p (key_bytes C vk) as_error R"
    and run: "sync_round C W rnd sv tk addrs (n, errors) = (calls, n', errors')" and world: "small_world S"
  shows "min (length (chain_of R p)) (length (chain_of (store n) p) + 1000) \<le> length (chain_of (store n') p) \<or>
    reported C R addr p calls"
proof -
  obtain us vs where addrs: "addrs = us @ addr # vs" using assms(8) by (meson split_list)
  obtain calls1 n1 errors1 where one: "fold (sync_address C W rnd sv tk) us ([], n, errors) = (calls1, n1, errors1)"
    by (metis prod.exhaust)
  let ?call = "sync_with_peer C W rnd sv (tk_remote tk addr) (tk_now tk addr) addr n1"
  obtain res n2 where call: "?call = (res, n2)" by (cases ?call)
  obtain errors2 where rest: "fold (sync_address C W rnd sv tk) vs (calls1 @ [(addr, res)], n2, errors2) = (calls, n', errors')"
    using run call one by (simp add: sync_round_def addrs sync_address_call)
  note before = sync_addresses_keep [OF hyps(2) assms(6,7) one]
  have "remote_events (tk_remote tk addr) \<subseteq> S" using assms(6) by (auto simp: tick_events_def)
  then have ok2: "gossip_ok C W S R p sv n2" and grow: "prefix (events (store n1)) (events (store n2))"
    using gossip_ok_sync [OF hyps(2) _ before(1)] sync_with_peer_steps reachable_prefix call by (metis snd_conv)+
  note after = sync_addresses_keep [OF hyps(2) assms(6) ok2 rest]
  have owner: "db_ok C S R" "sole_author C S R p"
    using hyps(5) unfolding honest_owner_def by blast+
  have n1: "keys_match C W (store n1)" "follows C S R p (store n1)" "admitted sv n1 p"
    using before(1) world owner hyps(3) reads_back_readable [OF hyps(4)] by (simp_all add: gossip_ok_def still_follows_def)
  from sync_with_honest [OF hyps n1 assms(9) call world] obtain sm where sm: "res = Inr sm"
    "min (length (chain_of R p)) (length (chain_of (store n1) p) + 1000) \<le> length (chain_of (store n2) p) \<or>
     blocked C R p sm"
    by blast
  have "(addr, Inr sm) \<in> set calls" using set_mono_prefix [OF after(3)] sm(1) by auto
  moreover have "length (chain_of (store n) p) \<le> length (chain_of (store n1) p)"
    "length (chain_of (store n2) p) \<le> length (chain_of (store n') p)"
    using before(2) after(2) chain_prefix prefix_length_le by blast+
  ultimately show ?thesis using sm(2) by (auto simp: reported_def min_def split: if_splits)
qed

lemma run_gossip_keeps:
  assumes "key_codec C W" "\<forall>r \<in> set rounds. tick_events (snd r) \<subseteq> S" "gossip_ok C W S R p sv n"
    and "run_gossip C W rnd sv bootstrap rounds (n, errors) = (logs, n', errors')"
  shows "gossip_ok C W S R p sv n'" "prefix (events (store n)) (events (store n'))"
proof -
  have "gossip_ok C W S R p sv n' \<and> prefix (events (store n)) (events (store n'))"
    using assms(2-4)
  proof (induction rounds arbitrary: n errors logs)
    case (Cons r rounds)
    from Cons.prems(3) obtain calls n1 errors1 logs1 where
      one: "sync_round C W rnd sv (snd r) (round_addrs sv bootstrap (fst r) n) (n, errors) = (calls, n1, errors1)"
      and rest: "run_gossip C W rnd sv bootstrap rounds (n1, errors1) = (logs1, n', errors')"
      by (rule run_gossip_Cons)
    have "tick_events (snd r) \<subseteq> S" using Cons.prems(1) by simp
    note keep = sync_addresses_keep [OF assms(1) this Cons.prems(2) one [unfolded sync_round_def]]
    from Cons.IH [OF _ keep(1) rest] Cons.prems(1) keep(2) show ?case by (auto intro: prefix_order.trans)
  qed simp
  then show "gossip_ok C W S R p sv n'" "prefix (events (store n)) (events (store n'))" by blast+
qed

lemma run_gossip_keys_match:
  assumes "key_codec C W" "keys_match C W (store n)"
    and "run_gossip C W rnd sv bootstrap rounds (n, errors) = (logs, n', errors')"
  shows "keys_match C W (store n')"
  using assms(2,3)
proof (induction rounds arbitrary: n errors logs)
  case (Cons r rounds)
  from Cons.prems(2) obtain calls n1 errors1 logs1 where
    one: "sync_round C W rnd sv (snd r) (round_addrs sv bootstrap (fst r) n) (n, errors) = (calls, n1, errors1)"
    and rest: "run_gossip C W rnd sv bootstrap rounds (n1, errors1) = (logs1, n', errors')"
    by (rule run_gossip_Cons)
  have "keys_match C W (store (fst (snd (fold (sync_address C W rnd sv tk) addrs (calls, m, e)))))"
    if "keys_match C W (store m)" for tk addrs calls m e
    using that by (induction addrs arbitrary: calls m e) (auto simp: sync_address_call keys_match_sync [OF assms(1)])
  from this [OF Cons.prems(1), of "snd r" "round_addrs sv bootstrap (fst r) n" "[]" errors]
  have "keys_match C W (store n1)" using one by (simp add: sync_round_def)
  then show ?case using Cons.IH rest by blast
qed simp

text \<open>
  C20. The gossip loops are harmless and complete a round whatever happens in it.  Whoever answers at the addresses, in
  every round each address on record (the bootstrap addresses too in the standard loop; those of the own cluster in the
  cluster loop) is called exactly once, in order, whichever calls fail; the shared counter counts the failed calls; the
  database stays sound, the log only grows and keys on record stay their peers'.
\<close>

theorem gossip_rounds_are_complete:
  assumes "codecs_ok C" and "collision_free C S" and "readable C S" and "key_codec C W"
    and "\<forall>r \<in> set rounds. tick_events (snd r) \<subseteq> S"
    and "(peer_step C S)\<^sup>*\<^sup>* empty_db (store n)" and "keys_match C W (store n)"
    and "run_gossip C W rnd sv bootstrap rounds (n, errors) = (logs, n', errors')" and "length (events (store n')) < 2 ^ 64 - 1"
  shows "db_ok C S (store n') \<and> prefix (events (store n)) (events (store n')) \<and> keys_match C W (store n') \<and>
    length logs = length rounds \<and> errors' = errors + of_nat (failures (concat logs)) \<and>
    (\<forall>i < length rounds. let m = fst (snd (run_gossip C W rnd sv bootstrap (take i rounds) (n, errors))) in
       distinct (map fst (logs ! i)) \<and>
       fst ` set (logs ! i) = (case fst (rounds ! i) of
           Standard \<Rightarrow> set bootstrap \<union> {addr. \<exists>p. known_address m p addr}
         | Cluster \<Rightarrow> {addr. \<exists>p. same_cluster sv m p \<and> known_address m p addr}))"
proof -
  have reach: "(peer_step C S)\<^sup>*\<^sup>* (store n) (store n')"
    using reached.run [OF assms(5), of C "store n" "(n, errors)" W rnd sv bootstrap] assms(8) by simp
  have "keys_match C W (store n')" by (rule run_gossip_keys_match [OF assms(4,7,8)])
  moreover have "map fst calls = round_addrs sv bootstrap loop m \<Longrightarrow> distinct (map fst calls) \<and>
      fst ` set calls = (case loop of Standard \<Rightarrow> set bootstrap \<union> {addr. \<exists>p. known_address m p addr}
        | Cluster \<Rightarrow> {addr. \<exists>p. same_cluster sv m p \<and> known_address m p addr})" for calls :: sync_log and loop m
    using distinct_round_addrs [of sv bootstrap loop m] set_round_addrs [of sv bootstrap m]
    by (cases loop) (metis gossip_loop.case list.set_map)+
  ultimately show ?thesis
    using run_gossip_rounds [OF assms(8)] reachable_db_ok [OF rtranclp_trans [OF assms(6) reach] assms(9,1-3)]
      reachable_prefix [OF reach]
    unfolding Let_def by blast
qed

text \<open>One round over a dead bootstrap address.\<close>

theorem gossip_rounds_are_complete_witness:
  "let run = run_gossip sample sample_wire id sample_service [''a''] [(Standard, \<lparr>tk_remote = (\<lambda>_. dead_remote), tk_now = (\<lambda>_. 0)\<rparr>)] (empty_sync, 0)
   in db_ok sample (set sample_events) (store (fst (snd run))) \<and> fst ` set (fst run ! 0) = {''a''} \<and>
      snd (snd run) = of_nat (failures (concat (fst run)))"
proof -
  let ?rounds = "[(Standard, \<lparr>tk_remote = (\<lambda>_. dead_remote), tk_now = (\<lambda>_. 0)\<rparr>)]"
  let ?run = "run_gossip sample sample_wire id sample_service [''a''] ?rounds (empty_sync, 0)"
  have "\<forall>r \<in> set ?rounds. tick_events (snd r) \<subseteq> set sample_events"
    by (simp add: tick_events_def remote_events_def dead_remote_def)
  moreover have "(peer_step sample (set sample_events))\<^sup>*\<^sup>* empty_db (store empty_sync)" "keys_match sample sample_wire (store empty_sync)"
    by (simp_all add: empty_sync_def keys_match_def) (simp add: empty_db_def)
  moreover have "?run = (fst ?run, fst (snd ?run), snd (snd ?run))" by simp
  moreover have addrs: "gossip_addrs [''a''] empty_sync = [''a'']"
    by (simp add: gossip_addrs_def sort_dedup_def list_peers_def empty_sync_def empty_db_def)
  then have "length (events (store (fst (snd ?run)))) < 2 ^ 64 - 1"
    by (simp add: sync_round_def sync_address_call sync_with_peer_def dead_remote_def empty_sync_def empty_db_def)
  ultimately have "db_ok sample (set sample_events) (store (fst (snd ?run)))"
    "snd (snd ?run) = 0 + of_nat (failures (concat (fst ?run)))"
    "\<forall>i < length ?rounds. let m = fst (snd (run_gossip sample sample_wire id sample_service [''a''] (take i ?rounds) (empty_sync, 0))) in
       distinct (map fst (fst ?run ! i)) \<and>
       fst ` set (fst ?run ! i) = (case fst (?rounds ! i) of
           Standard \<Rightarrow> set [''a''] \<union> {addr. \<exists>p. known_address m p addr}
         | Cluster \<Rightarrow> {addr. \<exists>p. same_cluster sample_service m p \<and> known_address m p addr})"
    using gossip_rounds_are_complete [OF sample_codecs sample_collision_free sample_readable sample_key_codec] by blast+
  moreover have "\<not> known_address empty_sync p addr" for p addr
    by (simp add: known_address_def empty_sync_def empty_db_def)
  ultimately show ?thesis by (simp add: Let_def)
qed

text \<open>
  C19. Gossip copies the chain of an honest peer.  Let a bootstrap address lead to a peer that answers from its sound
  database, which holds every event it ever signed, let it be admitted, and let the local copy of its chain be a prefix of
  the chain.  Whatever the peers at the other addresses send, after any number of rounds the local copy is a longer prefix:
  the standard rounds advance it by 1000 events each up to the whole chain, unless one of them reports an event of this peer
  that does not project on the local graph.
\<close>

theorem gossip_catches_up:
  assumes "codecs_ok C" and "key_codec C W" and "collision_free C S" and "reads_back C S" and "honest_owner C S vk R p"
    and "\<forall>r \<in> set rounds. tick_events (snd r) \<subseteq> S \<and>
           tk_remote (snd r) addr = honest_remote C p (key_bytes C vk) as_error R"
    and "addr \<in> set bootstrap" and "keys_match C W (store n)" and "admitted sv n p"
    and "db_ok C S (store n)" and "prefix (chain_of (store n) p) (chain_of R p)"
    and "run_gossip C W rnd sv bootstrap rounds (n, errors) = (logs, n', errors')" and "small_world S"
  shows "prefix (chain_of (store n) p) (chain_of (store n') p) \<and> prefix (chain_of (store n') p) (chain_of R p) \<and>
    (min (length (chain_of R p)) (length (chain_of (store n) p) + 1000 * length (filter (\<lambda>r. fst r = Standard) rounds))
       \<le> length (chain_of (store n') p) \<or>
     (\<exists>calls \<in> set logs. reported C R addr p calls))"
proof -
  have owner: "db_ok C S R" "sole_author C S R p"
    using assms(5) unfolding honest_owner_def by blast+
  have start: "gossip_ok C W S R p sv n"
    using assms(8-11) by (simp add: gossip_ok_def still_follows_def follows_def)
  have ticks: "\<forall>r \<in> set rounds. tick_events (snd r) \<subseteq> S" using assms(6) by blast
  note keep = run_gossip_keeps [OF assms(2) ticks start assms(12)]
  have "follows C S R p (store n')"
    using keep(1) assms(3,13) owner reads_back_readable [OF assms(4)] by (simp add: gossip_ok_def still_follows_def)
  moreover have "min (length (chain_of R p)) (length (chain_of (store n) p) + 1000 * length (filter (\<lambda>r. fst r = Standard) rounds))
       \<le> length (chain_of (store n') p) \<or> (\<exists>calls \<in> set logs. reported C R addr p calls)"
    using assms(6,12) start
  proof (induction rounds arbitrary: n errors logs)
    case (Cons r rounds)
    from Cons.prems(2) obtain calls n1 errors1 logs1 where
      one: "sync_round C W rnd sv (snd r) (round_addrs sv bootstrap (fst r) n) (n, errors) = (calls, n1, errors1)"
      and rest: "run_gossip C W rnd sv bootstrap rounds (n1, errors1) = (logs1, n', errors')" and logs: "logs = calls # logs1"
      by (rule run_gossip_Cons)
    have r: "tick_events (snd r) \<subseteq> S" "tk_remote (snd r) addr = honest_remote C p (key_bytes C vk) as_error R"
      "\<forall>r \<in> set rounds. tick_events (snd r) \<subseteq> S" using Cons.prems(1) by auto
    note n1 = sync_addresses_keep [OF assms(2) r(1) Cons.prems(3) one [unfolded sync_round_def]]
    have grow: "length (chain_of (store n) p) \<le> length (chain_of (store n1) p)"
      using n1(2) chain_prefix prefix_length_le by blast
    have "min (length (chain_of R p)) (length (chain_of (store n) p) + 1000) \<le> length (chain_of (store n1) p) \<or>
      reported C R addr p calls" if standard: "fst r = Standard"
    proof -
      have "addr \<in> set (round_addrs sv bootstrap (fst r) n)"
        unfolding standard set_round_addrs(1) using assms(7) by blast
      then show ?thesis by (rule round_progress [OF assms(1-5) r(1) Cons.prems(3) _ r(2) one assms(13)])
    qed
    moreover have "min (length (chain_of R p)) (length (chain_of (store n1) p) + 1000 * length (filter (\<lambda>r. fst r = Standard) rounds))
       \<le> length (chain_of (store n') p) \<or> (\<exists>calls \<in> set logs1. reported C R addr p calls)"
      using Cons.IH [OF _ rest n1(1)] Cons.prems(1) by simp
    ultimately show ?case using grow by (auto simp: logs min_def split: if_splits)
  qed simp
  ultimately show ?thesis using chain_prefix [OF keep(2)] by (simp add: follows_def)
qed

text \<open>The sample peer, whose only event is its first.\<close>

lemma sample_owner: "honest_owner sample {sample_first} 7 sample_db1 sample_peer" "reads_back sample {sample_first}"
  "collision_free sample {sample_first}" "db_ok sample {sample_first} empty_db"
proof -
  show reads: "reads_back sample {sample_first}" and free: "collision_free sample {sample_first}"
    using sample_reads_back sample_collision_free sample_members(1) by (auto simp: reads_back_def collision_free_def)
  show start: "db_ok sample {sample_first} empty_db" by (rule db_ok_empty)
  obtain r where r: "origin_rows sample_db1 sample_peer = [r]" "er_event_id r = sample_id sample_first" "er_previous r = None"
    by (rule sample_row)
  have "db_ok sample {sample_first} sample_db1"
    unfolding sample_db1_def using start sample_small(1) free reads_back_readable [OF reads] by (intro ingest_db_ok) simp_all
  moreover have "signed_by sample 7 {sample_first} sample_db1 sample_peer"
    using sample_signed_by sample_members(1) by (simp add: signed_by_def)
  moreover have "sole_author sample {sample_first} sample_db1 sample_peer"
  proof -
    have "er_sequence r = 1"
      using r(1) sample_db_ok(2) by (metis chain_linked_def db_ok_def length_Cons log_ok_def nth_Cons_0 of_nat_1 One_nat_def lessI list.size(3))
    moreover have "check_origin sample vk sample_first = Inr (eid, sample_peer, prev) \<Longrightarrow> eid = sample_id sample_first" for vk eid prev
      by (erule check_origin_parts)
        (simp add: sample_fields sample_id_def event_id_derive_def hash32_derive_def, simp add: sample_def sample_codec_def)
    ultimately show ?thesis using r(1,2) by (auto simp: sole_author_def sample_sequence)
  qed
  moreover have "sample_peer = peer_id_from_public_key sample 7"
    by (simp add: sample_peer_def identity_peer_id_def sample_fields)
  ultimately show "honest_owner sample {sample_first} 7 sample_db1 sample_peer" by (simp add: honest_owner_def)
qed

theorem gossip_catches_up_witness:
  "chain_of (store (fst (snd (run_gossip sample sample_wire id sample_service [''a'']
     [(Standard, \<lparr>tk_remote = (\<lambda>_. honest_remote sample sample_peer (key_bytes sample 7) (\<lambda>_. Http ''failed'') sample_db1),
        tk_now = (\<lambda>_. 0)\<rparr>)] (empty_sync, 0))))) sample_peer = [sample_id sample_first]"
proof -
  let ?remote = "honest_remote sample sample_peer (key_bytes sample 7) (\<lambda>_. Http ''failed'') sample_db1"
  let ?rounds = "[(Standard, \<lparr>tk_remote = (\<lambda>_. ?remote), tk_now = (\<lambda>_. 0)\<rparr>)]"
  let ?run = "run_gossip sample sample_wire id sample_service [''a''] ?rounds (empty_sync, 0)"
  have "logged sample {sample_first} sample_db1" using sample_owner(1) by (simp add: honest_owner_def db_ok_def)
  then have "\<forall>r \<in> set ?rounds. tick_events (snd r) \<subseteq> {sample_first} \<and> tk_remote (snd r) ''a'' = ?remote"
    using honest_remote_events [OF sample_owner(2)] by (simp add: tick_events_def)
  moreover have "''a'' \<in> set [''a'']" "keys_match sample sample_wire (store empty_sync)" "admitted sample_service empty_sync sample_peer"
    "prefix (chain_of (store empty_sync) sample_peer) (chain_of sample_db1 sample_peer)" "small_world {sample_first}"
    by (simp_all add: empty_sync_def keys_match_def admitted_def allows_def sample_service_def chain_of_def origin_rows_def
        small_world_def empty_db_def)
  moreover have "db_ok sample {sample_first} (store empty_sync)" using sample_owner(4) by (simp add: empty_sync_def)
  moreover have "?run = (fst ?run, fst (snd ?run), snd (snd ?run))" by simp
  ultimately have out: "prefix (chain_of (store (fst (snd ?run))) sample_peer) (chain_of sample_db1 sample_peer)"
    "min (length (chain_of sample_db1 sample_peer)) (length (chain_of (store empty_sync) sample_peer) +
       1000 * length (filter (\<lambda>r. fst r = Standard) ?rounds)) \<le> length (chain_of (store (fst (snd ?run))) sample_peer) \<or>
     (\<exists>calls \<in> set (fst ?run). reported sample sample_db1 ''a'' sample_peer calls)"
    using gossip_catches_up [OF sample_codecs sample_key_codec sample_owner(3,2,1)] by blast+
  have "\<not> blocked sample sample_db1 sample_peer sm" for sm
  proof -
    obtain r where r: "origin_rows sample_db1 sample_peer = [r]" "\<forall>sev \<in> set sample_events. row_of sample sev r \<longrightarrow> sev = sample_first"
      by (rule sample_row)
    then have "r \<in> set (events sample_db1)" by (metis filter_is_subset list.set_intros(1) origin_rows_def subsetD)
    then have "row_event sample r = sample_first"
      using row_event [OF sample_owner(2) \<open>logged sample {sample_first} sample_db1\<close>] by blast
    moreover have "\<exists>y. project_graph sample eid t sample_declare g = Inr y" for eid t g using sample_projects by blast
    ultimately show ?thesis
      by (auto simp: blocked_def sample_chain r(1) sample_payload) (metis Inl_Inr_False)
  qed
  then have "1 \<le> length (chain_of (store (fst (snd ?run))) sample_peer)"
    using out(2) by (simp add: reported_def sample_chain)
  with out(1) show ?thesis by (auto simp: sample_chain prefix_Cons)
qed

end
