(* ===== verification/SitePage.thy ===== *)
theory SitePage
  imports SiteBundle Service "HOL-Library.Sublist"
begin

text \<open>
  The page that hands a browser a pinned site (\<^verbatim>\<open>oag-api/src/ipfs_site.rs\<close>), and what the browser makes of it: the inline
  script sets two globals, from which the bundle of \<open>SiteBundle\<close> starts.  serde's printing of a string and the browser's
  reading of a string literal are the record \<open>literals\<close>.
\<close>

section \<open>Replacing text\<close>

text \<open>\<^verbatim>\<open>str::replace\<close>: every occurrence of the pattern, from left to right.\<close>

function str_replace :: "string \<Rightarrow> string \<Rightarrow> string \<Rightarrow> string" where
  "str_replace p r [] = []"
| "str_replace p r (c # s) =
     (if p \<noteq> [] \<and> take (length p) (c # s) = p then r @ str_replace p r (drop (length p) (c # s))
      else c # str_replace p r s)"
  by pat_completeness auto
termination
  by (relation "measure (\<lambda>(p, r, s). length s)") (auto simp: neq_Nil_conv)

section \<open>The bootstrap page\<close>

record literals =
  json_string :: "string \<Rightarrow> string option"
  js_string :: "string \<Rightarrow> string option"

definition looks_like_a_cid :: "string \<Rightarrow> bool" where
  "looks_like_a_cid cid \<longleftrightarrow> cid \<noteq> [] \<and> length cid \<le> 100 \<and> list_all is_ascii_alphanumeric cid"

definition ESCAPED_CLOSE :: string where "ESCAPED_CLOSE = [CHR ''<'', CHR 0x5C, CHR ''/'']"

definition script_value :: "literals \<Rightarrow> string \<Rightarrow> string" where
  "script_value J s = str_replace ''</'' ESCAPED_CLOSE (case json_string J s of Some lit \<Rightarrow> lit | None \<Rightarrow> ''null'')"

definition nl :: string where "nl = [CHR 0x0A]"

definition page_html :: "string \<Rightarrow> string \<Rightarrow> string \<Rightarrow> string" where
  "page_html cid_js multiaddr_js cid =
     ''<!doctype html>'' @ nl @
     ''<html>'' @ nl @
     ''<head>'' @ nl @
     ''<meta charset=\"utf-8\">'' @ nl @
     ''<title>oag ipfs site</title>'' @ nl @
     ''<script>'' @ nl @
     ''  window.__OAG_IPFS_CID__ = '' @ cid_js @ '';'' @ nl @
     ''  window.__OAG_IPFS_MULTIADDR__ = '' @ multiaddr_js @ '';'' @ nl @
     ''</script>'' @ nl @
     ''</head>'' @ nl @
     ''<body>'' @ nl @
     ''<div id=\"oag-ipfs-root\">loading '' @ cid @ '' over ipfs...</div>'' @ nl @
     ''<script type=\"module\" src=\"/ipfs-site/_bundle.js\"></script>'' @ nl @
     ''</body>'' @ nl @
     ''</html>'' @ nl"

text \<open>Status and body; the address is the operator's \<^verbatim>\<open>ipfs_libp2p_ws_multiaddr\<close>.\<close>

definition bootstrap_page :: "literals \<Rightarrow> string option \<Rightarrow> string \<Rightarrow> nat \<times> string" where
  "bootstrap_page J multiaddr cid =
     (if \<not> looks_like_a_cid cid then (400, ''<p>not a valid CID</p>'')
      else (200, page_html (script_value J cid) (case multiaddr of Some m \<Rightarrow> script_value J m | None \<Rightarrow> ''null'') cid))"

section \<open>What the browser reads\<close>

fun split_on :: "string \<Rightarrow> string \<Rightarrow> (string \<times> string) option" where
  "split_on p [] = (if p = [] then Some ([], []) else None)"
| "split_on p (c # s) =
     (if take (length p) (c # s) = p then Some ([], drop (length p) (c # s))
      else map_option (apfst (Cons c)) (split_on p s))"

text \<open>
  The text of the first script element without attributes, as the HTML parser reads script data: \<^verbatim>\<open><!--\<close> enters the
  escaped state, where \<^verbatim>\<open><script\<close> enters the double escaped one; \<^verbatim>\<open></script\<close> ends the element, but in the
  double escaped state only returns to the escaped one; and \<^verbatim>\<open>-->\<close> leaves both. A tag name is read without regard to case
  and ends at white space, a slash or \<^verbatim>\<open>>\<close>. An element that does not end is no script.
\<close>

datatype script_mode = Script_Data | Escaped | Double_Escaped

definition tag_at :: "string \<Rightarrow> string \<Rightarrow> bool" where
  "tag_at p s \<longleftrightarrow> to_lowercase (take (length p) s) = p \<and>
     (case drop (length p) s of [] \<Rightarrow> False | c # _ \<Rightarrow> c \<in> {CHR 0x09, CHR 0x0A, CHR 0x0C, CHR '' '', CHR ''/'', CHR ''>''})"

definition next_mode :: "script_mode \<Rightarrow> string \<Rightarrow> script_mode" where
  "next_mode mode s = (case mode of
       Script_Data \<Rightarrow> if prefix ''<!--'' s then Escaped else Script_Data
     | Escaped \<Rightarrow> if prefix ''-->'' s then Script_Data else if tag_at ''<script'' s then Double_Escaped else Escaped
     | Double_Escaped \<Rightarrow> if prefix ''-->'' s then Script_Data else if tag_at ''</script'' s then Escaped else Double_Escaped)"

fun script_data :: "script_mode \<Rightarrow> string \<Rightarrow> string option" where
  "script_data mode [] = None"
| "script_data mode (c # s) =
     (if mode \<noteq> Double_Escaped \<and> tag_at ''</script'' (c # s) then Some []
      else map_option (Cons c) (script_data (next_mode mode (c # s)) s))"

definition inline_script :: "string \<Rightarrow> string option" where
  "inline_script html = Option.bind (split_on ''<script>'' html) (\<lambda>(_, rest). script_data Script_Data rest)"

text \<open>The statements \<^verbatim>\<open>window.NAME = LITERAL;\<close>, one per line.\<close>

definition assignment :: "string \<Rightarrow> (string \<times> string) option" where
  "assignment line =
     Option.bind (strip_prefix ''  window.'' line) (\<lambda>rest.
     Option.bind (split_on '' = '' rest) (\<lambda>(name, value).
       if value \<noteq> [] \<and> last value = CHR '';'' then Some (name, butlast value) else None))"

fun split_lines :: "string \<Rightarrow> string list" where
  "split_lines [] = [[]]"
| "split_lines (c # s) = (if c = CHR 0x0A then [] # split_lines s else (c # hd (split_lines s)) # tl (split_lines s))"

definition globals :: "string \<Rightarrow> (string \<times> string) list" where
  "globals script = List.map_filter assignment (split_lines script)"

text \<open>A global is undefined, null or a string; the first two are alike for the bundle.\<close>

definition global :: "literals \<Rightarrow> string \<Rightarrow> string \<Rightarrow> string option" where
  "global J script name = Option.bind (map_of (globals script) name) (js_string J)"

text \<open>Opening the page: its script, then the bundle.\<close>

definition open_page ::
  "nat \<Rightarrow> literals \<Rightarrow> ('h, 'ma, 'cid, 'sk) platform \<Rightarrow> string \<Rightarrow> 'ma page \<Rightarrow> ((js_error + unit) \<times> 'ma page) option" where
  "open_page fuel J P html pg =
     Option.bind (inline_script html) (\<lambda>script.
       bundle_main fuel P (global J script ''__OAG_IPFS_CID__'') (global J script ''__OAG_IPFS_MULTIADDR__'') pg)"

section \<open>The page carries the site\<close>

text \<open>
  What is relied on: serde prints every string as a literal without control characters that reads back, a string of letters and digits as itself in
  quotes; and in a literal \<^verbatim>\<open>\/\<close> stands for a slash.
\<close>

definition literal_codec :: "literals \<Rightarrow> bool" where
  "literal_codec J \<longleftrightarrow>
     (\<forall>s. \<exists>lit. json_string J s = Some lit \<and> list_all (\<lambda>c. 32 \<le> (of_char c :: nat)) lit \<and> js_string J lit = Some s) \<and>
     (\<forall>s. list_all is_ascii_alphanumeric s \<longrightarrow> json_string J s = Some (CHR 0x22 # s @ [CHR 0x22])) \<and>
     (\<forall>a b. js_string J (a @ ESCAPED_CLOSE @ b) = js_string J (a @ ''</'' @ b)) \<and>
     js_string J ''null'' = None"

text \<open>A character outside the tail of a pattern separates its occurrences.\<close>

lemma prefix_before: "prefix q (a @ c # b) \<Longrightarrow> c \<notin> set q \<Longrightarrow> prefix q a"
  by (induction a arbitrary: q) (case_tac q; auto)+

lemma sublist_separated:
  assumes "p \<noteq> []" "c \<notin> set (tl p)"
  shows "sublist p (a @ c # b) \<longleftrightarrow> sublist p a \<or> sublist p (c # b)"
proof (induction a)
  case (Cons x a)
  have "prefix p (x # a @ c # b) \<longleftrightarrow> prefix p (x # a)"
  proof
    assume pre: "prefix p (x # a @ c # b)"
    then show "prefix p (x # a)" using assms prefix_before by (cases p) auto
  next
    assume "prefix p (x # a)"
    then have "prefix p ((x # a) @ c # b)" by (rule prefix_prefix)
    then show "prefix p (x # a @ c # b)" by simp
  qed
  with Cons show ?case by (auto simp: sublist_Cons_right)
qed (use assms(1) in simp)

text \<open>Script data without a closing tag is read to the end of the element unless it opens a comment and, in it, a script.\<close>

definition plain_script :: "script_mode \<Rightarrow> string \<Rightarrow> bool" where
  "plain_script mode s \<longleftrightarrow> mode = Script_Data \<and> \<not> sublist ''<!--'' s \<or>
     mode \<noteq> Double_Escaped \<and> \<not> sublist ''<script'' (to_lowercase s)"

lemma sublist_tail: "\<not> sublist p (c # s) \<Longrightarrow> \<not> sublist p s"
  by (auto simp: sublist_Cons_right)

lemma prefix_across: "prefix p (a @ c # b) \<Longrightarrow> a \<noteq> [] \<Longrightarrow> c \<notin> set (tl p) \<Longrightarrow> prefix p a"
  using prefix_before by (cases a; cases p) auto

lemma ascii_lower_punctuation:
  "ascii_lower c = CHR ''<'' \<longleftrightarrow> c = CHR ''<''" "ascii_lower c = CHR ''/'' \<longleftrightarrow> c = CHR ''/''"
  by (auto simp: ascii_lower_def Let_def dest!: arg_cong [where f = "of_char :: char \<Rightarrow> nat"] split: if_splits)

lemma tag_at_prefix: "tag_at p s \<Longrightarrow> prefix p (to_lowercase s)"
  unfolding tag_at_def to_lowercase_def by (metis take_map take_is_prefix)

lemma not_tag_across:
  assumes "\<not> sublist p (to_lowercase (c # a))" "CHR ''<'' \<notin> set (tl p)"
  shows "\<not> tag_at p (c # a @ CHR ''<'' # z)"
proof
  assume "tag_at p (c # a @ CHR ''<'' # z)"
  then have "prefix p (to_lowercase (c # a @ CHR ''<'' # z))" by (rule tag_at_prefix)
  moreover have "to_lowercase (c # a @ CHR ''<'' # z) = to_lowercase (c # a) @ CHR ''<'' # to_lowercase z"
    by (simp add: to_lowercase_def ascii_lower_def)
  ultimately have across: "prefix p (to_lowercase (c # a) @ CHR ''<'' # to_lowercase z)" by (simp only:)
  have "to_lowercase (c # a) \<noteq> []" by (simp add: to_lowercase_def)
  from prefix_across [OF across this assms(2)] have "sublist p (to_lowercase (c # a))" by (rule prefix_imp_sublist)
  with assms(1) show False ..
qed

lemma sublist_close: "sublist ''</script'' (to_lowercase a) \<Longrightarrow> sublist ''</'' a"
proof (induction a)
  case (Cons c a)
  have "prefix ''</'' (c # a)" if "prefix ''</script'' (to_lowercase (c # a))"
    using that by (cases a) (auto simp: to_lowercase_def ascii_lower_punctuation prefix_def)
  with Cons show ?case by (auto simp: sublist_Cons_right to_lowercase_def)
qed (simp add: to_lowercase_def)

lemma plain_script_step:
  assumes "plain_script mode (c # a)"
  shows "plain_script (next_mode mode (c # a @ CHR ''<'' # z)) a"
proof (cases "\<not> sublist ''<script'' (to_lowercase (c # a)) \<and> mode \<noteq> Double_Escaped")
  case True
  then have "\<not> sublist ''<script'' (to_lowercase a)" by (auto simp: to_lowercase_def sublist_Cons_right)
  with True not_tag_across [of "''<script''" c a z] show ?thesis by (cases mode) (auto simp: plain_script_def next_mode_def)
next
  case False
  then have data: "mode = Script_Data" "\<not> sublist ''<!--'' (c # a)" using assms by (auto simp: plain_script_def)
  have "\<not> prefix ''<!--'' (c # a @ CHR ''<'' # z)"
    using prefix_across [of "''<!--''" "c # a" "CHR ''<''" z] data(2) by (auto simp: sublist_Cons_right)
  then have "next_mode mode (c # a @ CHR ''<'' # z) = Script_Data" by (simp only: data(1) next_mode_def script_mode.case if_False)
  with sublist_tail [OF data(2)] show ?thesis by (simp add: plain_script_def)
qed

lemma script_data_plain:
  assumes "\<not> sublist ''</'' a" "plain_script mode a"
  shows "script_data mode (a @ ''</script>'' @ b) = Some a"
  using assms
proof (induction a arbitrary: mode)
  case Nil
  then show ?case by (auto simp: plain_script_def tag_at_def to_lowercase_def ascii_lower_def)
next
  case (Cons c a)
  define z where "z = ''/script>'' @ b"
  have "\<not> tag_at ''</script'' (c # a @ CHR ''<'' # z)"
    using Cons.prems(1) sublist_close by (intro not_tag_across) auto
  moreover have "script_data (next_mode mode (c # a @ CHR ''<'' # z)) (a @ CHR ''<'' # z) = Some a"
    using Cons.IH [OF sublist_tail [OF Cons.prems(1)] plain_script_step [OF Cons.prems(2), of z]] by (simp add: z_def)
  ultimately show ?case using z_def by simp
qed

lemma split_lines_line: "CHR 0x0A \<notin> set a \<Longrightarrow> split_lines (a @ CHR 0x0A # b) = a # split_lines b"
  by (induction a) auto

lemma str_replace_head: "str_replace ''</'' ESCAPED_CLOSE s = CHR ''/'' # t \<Longrightarrow> \<exists>s'. s = CHR ''/'' # s'"
  by (cases s) (auto simp: ESCAPED_CLOSE_def split: if_splits)

text \<open>No value closes the script, whatever it prints as.\<close>

lemma replaced_is_closed: "\<not> sublist ''</'' (str_replace ''</'' ESCAPED_CLOSE s)"
proof (induction "''</''" ESCAPED_CLOSE s rule: str_replace.induct)
  case (2 c s)
  show ?case
  proof (cases "take 2 (c # s) = ''</''")
    case True
    with 2(1) show ?thesis by (simp add: sublist_Cons_right) (simp add: ESCAPED_CLOSE_def sublist_Cons_right)
  next
    case False
    have "\<not> prefix ''</'' (c # str_replace ''</'' ESCAPED_CLOSE s)"
    proof
      assume "prefix ''</'' (c # str_replace ''</'' ESCAPED_CLOSE s)"
      then obtain t where "c = CHR ''<''" "str_replace ''</'' ESCAPED_CLOSE s = CHR ''/'' # t" by (auto simp: prefix_def)
      with str_replace_head [of s t] False show False by auto
    qed
    with False 2(2) show ?thesis by (auto simp: sublist_Cons_right)
  qed
qed simp

lemma replaced_same: "CHR ''<'' \<notin> set s \<Longrightarrow> str_replace ''</'' r s = s"
  by (induction s) auto

lemma replaced_chars: "list_all P s \<Longrightarrow> list_all P ESCAPED_CLOSE \<Longrightarrow> list_all P (str_replace ''</'' ESCAPED_CLOSE s)"
  by (induction "''</''" ESCAPED_CLOSE s rule: str_replace.induct) (auto simp: list_all_iff dest: in_set_dropD)

lemma replaced_reads:
  assumes "\<And>a b. js_string J (a @ ESCAPED_CLOSE @ b) = js_string J (a @ ''</'' @ b)"
  shows "js_string J (a @ str_replace ''</'' ESCAPED_CLOSE s) = js_string J (a @ s)"
proof (induction "''</''" ESCAPED_CLOSE s arbitrary: a rule: str_replace.induct)
  case (2 c s)
  show ?case
  proof (cases "take 2 (c # s) = ''</''")
    case True
    then have s: "c # s = ''</'' @ drop 2 (c # s)" by (metis append_take_drop_id)
    have "js_string J (a @ str_replace ''</'' ESCAPED_CLOSE (c # s)) = js_string J (a @ ESCAPED_CLOSE @ str_replace ''</'' ESCAPED_CLOSE (drop 2 (c # s)))"
      using True by simp
    also have "\<dots> = js_string J ((a @ ''</'') @ str_replace ''</'' ESCAPED_CLOSE (drop 2 (c # s)))" using assms by simp
    also have "\<dots> = js_string J ((a @ ''</'') @ drop 2 (c # s))" using True 2(1) [of "a @ ''</''"] by simp
    also have "\<dots> = js_string J (a @ c # s)" using s by simp
    finally show ?thesis .
  next
    case False
    with 2(2) [of "a @ [c]"] show ?thesis by auto
  qed
qed simp

lemma script_value_literal:
  assumes "literal_codec J"
  shows "\<not> sublist ''</'' (script_value J s)" "CHR 0x0A \<notin> set (script_value J s)" "js_string J (script_value J s) = Some s"
proof -
  obtain lit where lit: "json_string J s = Some lit" "list_all (\<lambda>c. 32 \<le> (of_char c :: nat)) lit" "js_string J lit = Some s"
    using assms unfolding literal_codec_def by blast
  have "list_all (\<lambda>c. 32 \<le> (of_char c :: nat)) (script_value J s)"
    using lit replaced_chars by (simp add: script_value_def ESCAPED_CLOSE_def)
  then show "CHR 0x0A \<notin> set (script_value J s)" by (auto simp: list_all_iff)
  show "\<not> sublist ''</'' (script_value J s)" by (simp add: script_value_def replaced_is_closed)
  have "js_string J (a @ ESCAPED_CLOSE @ b) = js_string J (a @ ''</'' @ b)" for a b
    using assms by (simp add: literal_codec_def)
  from replaced_reads [of J "[]" lit, OF this] show "js_string J (script_value J s) = Some s"
    using lit by (simp add: script_value_def)
qed

definition script_of :: "string \<Rightarrow> string \<Rightarrow> string" where
  "script_of cid_js multiaddr_js =
     nl @ ''  window.__OAG_IPFS_CID__ = '' @ cid_js @ '';'' @ nl @ ''  window.__OAG_IPFS_MULTIADDR__ = '' @ multiaddr_js @ '';'' @ nl"

lemma script_lower:
  "to_lowercase (script_of a b) =
     nl @ ''  window.__oag_ipfs_cid__ = '' @ to_lowercase a @ '';'' @ nl @ ''  window.__oag_ipfs_multiaddr__ = '' @ to_lowercase b @ '';'' @ nl"
proof -
  have "map ascii_lower nl = nl" "map ascii_lower '';'' = '';''"
    "map ascii_lower ''  window.__OAG_IPFS_CID__ = '' = ''  window.__oag_ipfs_cid__ = ''"
    "map ascii_lower ''  window.__OAG_IPFS_MULTIADDR__ = '' = ''  window.__oag_ipfs_multiaddr__ = ''"
    by code_simp+
  then show ?thesis by (simp only: script_of_def to_lowercase_def map_append)
qed

lemma script_markup:
  "\<not> sublist ''</'' a \<Longrightarrow> \<not> sublist ''</'' b \<Longrightarrow> \<not> sublist ''</'' (script_of a b)"
  "\<not> sublist ''<!--'' a \<Longrightarrow> \<not> sublist ''<!--'' b \<Longrightarrow> \<not> sublist ''<!--'' (script_of a b)"
  "\<not> sublist ''<script'' (to_lowercase a) \<Longrightarrow> \<not> sublist ''<script'' (to_lowercase b) \<Longrightarrow>
   \<not> sublist ''<script'' (to_lowercase (script_of a b))"
  by (simp add: script_of_def nl_def sublist_separated sublist_Cons_right,
      simp add: script_of_def nl_def sublist_separated sublist_Cons_right,
      simp add: script_lower nl_def sublist_separated sublist_Cons_right)

lemma page_script:
  assumes "\<not> sublist ''</'' a" "\<not> sublist ''</'' b" "plain_script Script_Data (script_of a b)"
  shows "inline_script (page_html a b cid) = Some (script_of a b)"
proof -
  let ?tail = "nl @ ''</head>'' @ nl @ ''<body>'' @ nl @ ''<div id=\"oag-ipfs-root\">loading '' @ cid @ '' over ipfs...</div>'' @ nl @
     ''<script type=\"module\" src=\"/ipfs-site/_bundle.js\"></script>'' @ nl @ ''</body>'' @ nl @ ''</html>'' @ nl"
  have "\<exists>pre. split_on ''<script>'' (page_html a b cid) = Some (pre, script_of a b @ ''</script>'' @ ?tail)"
    by (simp add: page_html_def script_of_def nl_def)
  then obtain pre where pre: "split_on ''<script>'' (page_html a b cid) = Some (pre, script_of a b @ ''</script>'' @ ?tail)" ..
  have "script_data Script_Data (script_of a b @ ''</script>'' @ ?tail) = Some (script_of a b)"
    by (rule script_data_plain [OF script_markup(1) [OF assms(1,2)] assms(3)])
  then show ?thesis by (simp only: inline_script_def pre bind.bind_lunit prod.case)
qed

lemma script_globals:
  assumes "CHR 0x0A \<notin> set a" "CHR 0x0A \<notin> set b"
  shows "globals (script_of a b) = [(''__OAG_IPFS_CID__'', a), (''__OAG_IPFS_MULTIADDR__'', b)]"
proof -
  define l where "l = ''  window.__OAG_IPFS_CID__ = '' @ a @ '';''"
  define l' where "l' = ''  window.__OAG_IPFS_MULTIADDR__ = '' @ b @ '';''"
  have "script_of a b = CHR 0x0A # l @ CHR 0x0A # l' @ [CHR 0x0A]" by (simp add: script_of_def nl_def l_def l'_def)
  moreover have "CHR 0x0A \<notin> set l" "CHR 0x0A \<notin> set l'" using assms by (simp_all add: l_def l'_def)
  ultimately have "split_lines (script_of a b) = [[], l, l', []]" by (simp add: split_lines_line)
  moreover have "assignment l = Some (''__OAG_IPFS_CID__'', a)" "assignment l' = Some (''__OAG_IPFS_MULTIADDR__'', b)" "assignment [] = None"
    by (simp_all add: assignment_def strip_prefix_def l_def l'_def)
  ultimately show ?thesis by (simp add: globals_def List.map_filter_simps)
qed

text \<open>
  C35. The bootstrap page hands the browser exactly the pinned site: for a content identifier the page's script is read to its
  end, none of its values closes it early, and it starts the bundle with this identifier and the operator's address. The
  address may be any text, also one with closing tags, whose printed form does not contain both \<^verbatim>\<open><!--\<close> and, in
  upper or lower case, \<^verbatim>\<open><script\<close>: the guard of the page does not cover these, and then the script may not end.
\<close>

theorem page_hands_over_the_site:
  assumes "literal_codec J" "looks_like_a_cid cid"
    and "\<forall>m. multiaddr = Some m \<longrightarrow>
      \<not> sublist ''<!--'' (script_value J m) \<or> \<not> sublist ''<script'' (to_lowercase (script_value J m))"
  shows "\<exists>html script. bootstrap_page J multiaddr cid = (200, html) \<and> inline_script html = Some script \<and> \<not> sublist ''</'' script \<and>
    open_page fuel J P html pg = bundle_main fuel P (Some cid) multiaddr pg"
proof -
  let ?a = "script_value J cid" and ?b = "case multiaddr of Some m \<Rightarrow> script_value J m | None \<Rightarrow> ''null''"
  note cid = script_value_literal [OF assms(1), of cid]
  have b: "\<not> sublist ''</'' ?b" "CHR 0x0A \<notin> set ?b" "js_string J ?b = multiaddr"
      "\<not> sublist ''<!--'' ?b \<or> \<not> sublist ''<script'' (to_lowercase ?b)"
    using script_value_literal [OF assms(1)] assms(1,3)
    by (auto simp: literal_codec_def sublist_Cons_right split: option.splits)
  have plain: "list_all is_ascii_alphanumeric cid" using assms(2) by (simp add: looks_like_a_cid_def)
  then have "json_string J cid = Some (CHR 0x22 # cid @ [CHR 0x22])" using assms(1) by (simp add: literal_codec_def)
  moreover have "CHR ''<'' \<notin> set cid" using plain by (auto simp: list_all_iff is_ascii_alphanumeric_def Let_def)
  ultimately have no_lt: "CHR ''<'' \<notin> set ?a" by (simp add: script_value_def replaced_same)
  then have "CHR ''<'' \<notin> set (to_lowercase ?a)" using ascii_lower_punctuation(1) by (force simp: to_lowercase_def)
  with no_lt have "\<not> sublist ''<!--'' ?a" "\<not> sublist ''<script'' (to_lowercase ?a)" by (auto simp: sublist_def)
  with b(4) have plain: "plain_script Script_Data (script_of ?a ?b)"
    using script_markup(2,3) [of ?a ?b] by (auto simp: plain_script_def)
  let ?html = "page_html ?a ?b cid"
  have script: "inline_script ?html = Some (script_of ?a ?b)" by (rule page_script [OF cid(1) b(1) plain])
  have "global J (script_of ?a ?b) ''__OAG_IPFS_CID__'' = Some cid" "global J (script_of ?a ?b) ''__OAG_IPFS_MULTIADDR__'' = multiaddr"
    using script_globals [of ?a ?b] cid b by (simp_all add: global_def)
  then have "open_page fuel J P ?html pg = bundle_main fuel P (Some cid) multiaddr pg"
    by (simp add: open_page_def script)
  with script assms(2) b(1) cid(1) script_markup(1) show ?thesis by (auto simp: bootstrap_page_def)
qed

text \<open>A printer and a reader for the witness: control characters, quotes and backslashes are escaped.\<close>

definition escape_char :: "char \<Rightarrow> string" where
  "escape_char c =
     (if (of_char c :: nat) < 32 then [CHR 0x5C, char_of (of_char c + 128 :: nat)]
      else if c = CHR 0x5C \<or> c = CHR 0x22 then [CHR 0x5C, c] else [c])"

fun unescape :: "string \<Rightarrow> string" where
  "unescape (c # d # s) =
     (if c = CHR 0x5C then (if 128 \<le> (of_char d :: nat) \<and> (of_char d :: nat) < 160 then char_of (of_char d - 128 :: nat) else d) # unescape s
      else c # unescape (d # s))"
| "unescape s = s"

definition sample_literals :: literals where
  "sample_literals =
     \<lparr>json_string = (\<lambda>s. Some (CHR 0x22 # concat (map escape_char s) @ [CHR 0x22])),
      js_string = (\<lambda>lit. if 2 \<le> length lit \<and> hd lit = CHR 0x22 \<and> last lit = CHR 0x22 then Some (unescape (butlast (tl lit))) else None)\<rparr>"

lemma unescape_escape: "unescape (escape_char c @ s) = c # unescape s"
proof (cases "(of_char c :: nat) < 32")
  case True
  then have "(of_char (char_of (of_char c + 128 :: nat)) :: nat) = of_char c + 128" by simp
  with True show ?thesis by (simp add: escape_char_def)
next
  case False
  then show ?thesis by (cases s) (auto simp: escape_char_def)
qed

lemma unescape_close: "unescape (a @ ESCAPED_CLOSE @ b) = unescape (a @ ''</'' @ b)"
proof (induction a rule: unescape.induct)
  case (1 c d s)
  then show ?case by simp
qed (cases b; auto simp: ESCAPED_CLOSE_def)+

lemma sample_literal_codec: "literal_codec sample_literals"
  unfolding literal_codec_def
proof (intro conjI allI impI)
  fix s
  have "unescape (concat (map escape_char s)) = s" by (induction s) (simp_all add: unescape_escape)
  moreover have "list_all (\<lambda>c. 32 \<le> (of_char c :: nat)) (concat (map escape_char s))"
    by (induction s) (auto simp: escape_char_def list_all_iff)
  ultimately show "\<exists>lit. json_string sample_literals s = Some lit \<and> list_all (\<lambda>c. 32 \<le> (of_char c :: nat)) lit \<and> js_string sample_literals lit = Some s"
    by (simp add: sample_literals_def)
next
  fix s assume "list_all is_ascii_alphanumeric s"
  then have "concat (map escape_char s) = s"
    by (induction s) (auto simp: escape_char_def is_ascii_alphanumeric_def Let_def)
  then show "json_string sample_literals s = Some (CHR 0x22 # s @ [CHR 0x22])" by (simp add: sample_literals_def)
next
  fix a b
  show "js_string sample_literals (a @ ESCAPED_CLOSE @ b) = js_string sample_literals (a @ ''</'' @ b)"
    using unescape_close [of "tl a" "butlast b"]
    by (cases a; cases b rule: rev_cases) (auto simp: sample_literals_def ESCAPED_CLOSE_def butlast_append)
qed (simp add: sample_literals_def)

theorem page_hands_over_the_site_witness:
  "\<exists>html script. bootstrap_page sample_literals (Some ''/dns</SCRIPT>\"<!--'') ''bafy'' = (200, html) \<and> inline_script html = Some script \<and>
    \<not> sublist ''</'' script \<and>
    open_page 5 sample_literals demo_platform html demo_page =
      bundle_main 5 demo_platform (Some ''bafy'') (Some ''/dns</SCRIPT>\"<!--'') demo_page"
proof (rule page_hands_over_the_site [OF sample_literal_codec])
  show "looks_like_a_cid ''bafy''" by (simp add: looks_like_a_cid_def is_ascii_alphanumeric_def)
  have "\<not> sublist ''<script'' (to_lowercase (script_value sample_literals ''/dns</SCRIPT>\"<!--''))" by code_simp
  then show "\<forall>m. Some ''/dns</SCRIPT>\"<!--'' = Some m \<longrightarrow> \<not> sublist ''<!--'' (script_value sample_literals m) \<or>
      \<not> sublist ''<script'' (to_lowercase (script_value sample_literals m))" by simp
qed

text \<open>
  An address with both makes the parser pass over the closing tag of the page's own script, whatever follows: it goes on in
  the escaped state, with the rest of the document as script.
\<close>

lemma comment_and_script_pass_over_the_tag:
  "\<exists>passed. script_data Script_Data (script_value sample_literals ''<!--<script>'' @ '';'' @ nl @ ''</script>'' @ rest) =
     map_option (append passed) (script_data Escaped rest)"
proof -
  have printed: "script_value sample_literals ''<!--<script>'' = CHR 0x22 # ''<!--<script>'' @ [CHR 0x22]" by code_simp
  show ?thesis
    unfolding printed nl_def
    by (simp add: next_mode_def tag_at_def to_lowercase_def ascii_lower_def option.map_comp)
      (rule exI [of _ "CHR 0x22 # ''<!--<script>'' @ CHR 0x22 # '';'' @ CHR 0x0A # ''</script>''"], cases "script_data Escaped rest", simp_all)
qed

end
