(* ===== verification/HumanPages.thy ===== *)
theory HumanPages
  imports Api SitePage
begin

text \<open>
  The pages for people (\<^verbatim>\<open>oag-api/src/human.rs\<close>): search, roadmap, a node and an assertion, each as the data that its template
  gets, and the page of an error.  The template engine (\<^verbatim>\<open>askama\<close>), the two-digit rendering of a float and the text of an error are
  parameters of the record \<open>human_env\<close>.
\<close>

section \<open>Errors\<close>

record ('sk, 'vk, 'u, 'w) human_env = "('sk, 'vk, 'u, 'w) api_env" +
  key_wire :: "'vk wire"
  two_digits :: "f32 \<Rightarrow> string"
  error_text :: "graph_error \<Rightarrow> string"

datatype human_error = HumanError nat string

definition escape_html :: "string \<Rightarrow> string" where
  "escape_html s =
     str_replace [CHR 0x22] ''&quot;'' (str_replace ''>'' ''&gt;'' (str_replace ''<'' ''&lt;'' (str_replace ''&'' ''&amp;'' s)))"

definition human_of_graph :: "('sk, 'vk, 'u, 'w, 'z) human_env_scheme \<Rightarrow> graph_error \<Rightarrow> human_error" where
  "human_of_graph E e = (case e of
       InvalidApiKey \<Rightarrow> HumanError 401 ''invalid API key''
     | PermissionDenied p \<Rightarrow> HumanError 403 (''permission denied: requires '' @ p)
     | GNotFound what \<Rightarrow> HumanError 404 (''not found: '' @ what)
     | _ \<Rightarrow> HumanError 500 (error_text E e))"

fun error_page :: "human_error \<Rightarrow> nat \<times> string" where
  "error_page (HumanError code txt) = (code, ''<p>'' @ escape_html txt @ ''</p>'')"

definition authenticate_query ::
  "('sk, 'vk, 'u, 'w, 'z) human_env_scheme \<Rightarrow> string option \<Rightarrow> app_tables \<Rightarrow> human_error + unit" where
  "authenticate_query E key s =
     res_bind (ok_or (HumanError 401 ''missing ?key=<api-key>'') key) (\<lambda>key.
     res_map_err (human_of_graph E)
       (res_bind (authenticate (svc E) key (graph (app_db s))) (\<lambda>auth. require auth GraphRead)))"

section \<open>Views\<close>

record evidence_view =
  v_evidence_type :: string
  v_uri :: "string option"
  v_title :: "string option"
  v_excerpt :: "string option"
  v_content_hash :: "string option"

text \<open>Reason and time of a dispute or retraction, result and time of an observation.\<close>

type_synonym reason_view = "string option \<times> int"
type_synonym observation_view = "string \<times> int"

definition view_evidence :: "evidence \<Rightarrow> evidence_view" where
  "view_evidence e =
     \<lparr>v_evidence_type = evidence_type_as_str (evidence_type e), v_uri = evidence_uri e, v_title = evidence_title e,
      v_excerpt = evidence_excerpt e, v_content_hash = evidence_content_hash e\<rparr>"

definition view_dispute :: "dispute \<Rightarrow> reason_view" where "view_dispute d = (dp_reason d, dp_created_at d)"
definition view_retraction :: "retraction \<Rightarrow> reason_view" where "view_retraction r = (rt_reason r, rt_created_at r)"
definition view_observation :: "observation \<Rightarrow> observation_view" where "view_observation x = (ob_result x, ob_observed_at x)"

definition node_link :: "('sk, 'vk, 'z) crypto_scheme \<Rightarrow> node_id \<Rightarrow> string \<Rightarrow> string" where
  "node_link C i key = ''/ui/nodes/'' @ hash32_to_hex C (node_hash i) @ ''?key='' @ key"

definition assertion_link :: "('sk, 'vk, 'z) crypto_scheme \<Rightarrow> assertion_id \<Rightarrow> string \<Rightarrow> string" where
  "assertion_link C i key = ''/ui/assertions/'' @ event_id_to_hex C i @ ''?key='' @ key"

record search_result_view =
  sr_canonical_identifier :: string
  sr_name :: "string option"
  sr_link :: string

record roadmap_proposal_view =
  pv_link :: string
  pv_canonical_identifier :: string
  pv_name :: "string option"
  pv_description :: "string option"
  pv_active_assertions :: nat
  pv_distinct_actors :: nat
  pv_signals :: "string list"

record node_view =
  nv_id :: string
  nv_node_type :: string
  nv_canonical_identifier :: string
  nv_name :: "string option"

record relationship_view =
  rv_predicate :: string
  rv_other_node_identifier :: string
  rv_direction :: string
  rv_link :: string

record assertion_summary_view =
  av_link :: string
  av_subject_identifier :: string
  av_predicate :: string
  av_object_identifier :: string
  av_status :: string
  av_actor_confidence :: "32 word option"
  av_evidence :: "evidence_view list"
  av_disputes :: "reason_view list"
  av_retractions :: "reason_view list"
  av_last_observation :: "observation_view option"

record supersession_view =
  sv_new_assertion_id :: string
  sv_created_at :: int
  sv_link :: string

record assertion_template =
  at_key :: string
  at_assertion_id :: string
  at_subject_link :: string
  at_subject_identifier :: string
  at_predicate :: string
  at_object_link :: string
  at_object_identifier :: string
  at_actor_name :: "string option"
  at_actor_type :: string
  at_actor_id :: string
  at_provenance :: "event_provenance option"
  at_evidence :: "evidence_view list"
  at_created_at :: int
  at_observed_at :: "int option"
  at_observations :: "observation_view list"
  at_disputes :: "reason_view list"
  at_retractions :: "reason_view list"
  at_supersession :: "supersession_view option"
  at_status :: string

datatype human_page =
    SearchTemplate string string bool "search_result_view list"
  | RoadmapTemplate string "roadmap_proposal_view list"
  | NodeTemplate string node_view "(string \<times> string) list" "relationship_view list" "assertion_summary_view list"
      "(string \<times> string \<times> int) list"
  | AssertionTemplate assertion_template

section \<open>Pages\<close>

definition search_page ::
  "('sk, 'vk, 'u, 'w, 'z) human_env_scheme \<Rightarrow> string \<Rightarrow> string option \<Rightarrow> app_tables \<Rightarrow> graph_error + human_page" where
  "search_page E key q s =
     (let query = (case q of Some t \<Rightarrow> t | None \<Rightarrow> []);
          has_searched = (trim query \<noteq> []);
          results = (if has_searched
            then map (\<lambda>n. \<lparr>sr_canonical_identifier = node_canonical_identifier n, sr_name = node_name n,
                           sr_link = node_link (svc E) (node_id n) key\<rparr>)
                   (search (fts_index E) query 50 (app_local s) (graph (app_db s)))
            else [])
      in Inr (SearchTemplate key query has_searched results))"

definition roadmap_page ::
  "('sk, 'vk, 'u, 'w, 'z) human_env_scheme \<Rightarrow> string \<Rightarrow> app_tables \<Rightarrow> graph_error + human_page" where
  "roadmap_page E key s =
     res_bind (list_roadmap_proposals (svc E) (uris E) (rnd E) (rnd64 E) (pow2 E) (drain_groups E) (clock E 0) (graph (app_db s))) (\<lambda>ps.
       Inr (RoadmapTemplate key (map (\<lambda>p.
         let n = rp_node p; c = rp_corroboration p in
         \<lparr>pv_link = node_link (svc E) (node_id n) key, pv_canonical_identifier = node_canonical_identifier n,
          pv_name = node_name n, pv_description = node_description n, pv_active_assertions = active_assertions c,
          pv_distinct_actors = distinct_actors c,
          pv_signals = map (two_digits E) [source_independence c, evidence_strength c, agreement c, freshness c, identity_assurance c]\<rparr>) ps)))"

definition identifier_of :: "('sk, 'vk, 'z) crypto_scheme \<Rightarrow> graph \<Rightarrow> node_id \<Rightarrow> string" where
  "identifier_of C g i = (case select_node g i of Some n \<Rightarrow> node_canonical_identifier n | None \<Rightarrow> hash32_to_hex C (node_hash i))"

definition view_relationship ::
  "('sk, 'vk, 'z) crypto_scheme \<Rightarrow> string \<Rightarrow> graph \<Rightarrow> node_id \<Rightarrow> edge \<Rightarrow> relationship_view" where
  "view_relationship C key g nid e =
     (let (direction, other) = (if edge_subject e = nid then (''outgoing'', edge_object e) else (''incoming'', edge_subject e))
      in \<lparr>rv_predicate = edge_predicate e, rv_other_node_identifier = identifier_of C g other, rv_direction = direction,
          rv_link = node_link C other key\<rparr>)"

text \<open>\<^verbatim>\<open>max_by_key\<close> keeps the last of several greatest.\<close>

definition latest :: "observation list \<Rightarrow> observation option" where
  "latest os = fold (\<lambda>x best. case best of
       None \<Rightarrow> Some x
     | Some b \<Rightarrow> if ob_observed_at b \<le> ob_observed_at x then Some x else Some b) os None"

fun view_assertions ::
  "('sk, 'vk, 'z) crypto_scheme \<Rightarrow> string \<Rightarrow> graph \<Rightarrow> assertion list \<Rightarrow> graph_error + assertion_summary_view list" where
  "view_assertions C key g [] = Inr []"
| "view_assertions C key g (a # as) =
     (case edges_get_by_id g (assertion_edge_id a) of
        None \<Rightarrow> view_assertions C key g as
      | Some e \<Rightarrow>
          res_bind (res_map_err GStorage (assertions_list_evidence g (assertion_id a))) (\<lambda>evidence.
          res_bind (view_assertions C key g as) (\<lambda>views.
            Inr (\<lparr>av_link = assertion_link C (assertion_id a) key, av_subject_identifier = identifier_of C g (edge_subject e),
                  av_predicate = edge_predicate e, av_object_identifier = identifier_of C g (edge_object e),
                  av_status = assertion_status_as_str (assertion_status a), av_actor_confidence = assertion_confidence a,
                  av_evidence = map view_evidence evidence,
                  av_disputes = map view_dispute (assertions_list_disputes g (assertion_id a)),
                  av_retractions = map view_retraction (assertions_list_retractions g (assertion_id a)),
                  av_last_observation = map_option view_observation (latest (assertions_list_observations g (assertion_id a)))\<rparr> # views))))"

definition node_page ::
  "('sk, 'vk, 'u, 'w, 'z) human_env_scheme \<Rightarrow> string \<Rightarrow> string \<Rightarrow> app_tables \<Rightarrow> graph_error + human_page" where
  "node_page E key i s =
     (let g = graph (app_db s); C = svc E in
      res_bind (parse_node_id E i) (\<lambda>nid.
      res_bind (ok_or (GNotFound (''node '' @ i)) (select_node g nid)) (\<lambda>node.
      res_bind (list_aliases g nid) (\<lambda>aliases.
      let relationships = map (view_relationship C key g nid) (get_edges g nid) in
      res_bind (list_assertions_for_node g nid) (\<lambda>as.
      res_bind (view_assertions C key g as) (\<lambda>assertions.
      res_bind (get_history C (parse_value E) ''node'' i (app_db s)) (\<lambda>history.
        Inr (NodeTemplate key
          \<lparr>nv_id = hash32_to_hex C (node_hash (node_id node)), nv_node_type = node_type node,
           nv_canonical_identifier = node_canonical_identifier node, nv_name = node_name node\<rparr>
          (map (\<lambda>a. (alias_text a, alias_type_as_str (alias_kind a))) aliases) relationships assertions
          (map (\<lambda>h. (event_id_to_hex C (he_event_id h), he_event_type h, he_created_at h)) history)))))))))"

fun json_str_field :: "string \<Rightarrow> json \<Rightarrow> string option" where
  "json_str_field name (JObject m) = (case m name of Some (JString t) \<Rightarrow> Some t | _ \<Rightarrow> None)"
| "json_str_field name _ = None"

definition find_supersession ::
  "('sk, 'vk, 'z) crypto_scheme \<Rightarrow> string \<Rightarrow> history_entry list \<Rightarrow> supersession_view option" where
  "find_supersession C key history =
     Option.bind (find (\<lambda>h. he_event_type h = ''SUPERSEDE_ASSERTION'') history) (\<lambda>h.
     Option.bind (json_str_field ''new_assertion_id'' (he_payload h)) (\<lambda>new_id_str.
       case event_id_from_str C new_id_str of
         Inl _ \<Rightarrow> None
       | Inr new_id \<Rightarrow> Some \<lparr>sv_new_assertion_id = new_id_str, sv_created_at = he_created_at h, sv_link = assertion_link C new_id key\<rparr>))"

definition assertion_page ::
  "('sk, 'vk, 'u, 'w, 'z) human_env_scheme \<Rightarrow> string \<Rightarrow> string \<Rightarrow> app_tables \<Rightarrow> graph_error + human_page" where
  "assertion_page E key i s =
     (let g = graph (app_db s); C = svc E in
      res_bind (parse_assertion_id E i) (\<lambda>aid.
      res_bind (fst (get_assertion aid (app_db s))) (\<lambda>assertion.
      res_bind (ok_or (GNotFound (''assertion '' @ i)) assertion) (\<lambda>assertion.
      res_bind (ok_or (GNotFound (''edge for assertion '' @ i)) (edges_get_by_id g (assertion_edge_id assertion))) (\<lambda>edge.
      res_bind (res_map_err GStorage (actors_get_by_id g (assertion_actor_id assertion))) (\<lambda>actor.
      res_bind (get_event_provenance C (key_wire E) (identity E) aid (app_db s)) (\<lambda>provenance.
      res_bind (res_map_err GStorage (assertions_list_evidence g aid)) (\<lambda>evidence.
      res_bind (get_history C (parse_value E) ''assertion'' i (app_db s)) (\<lambda>history.
        Inr (AssertionTemplate
          \<lparr>at_key = key, at_assertion_id = i,
           at_subject_link = node_link C (edge_subject edge) key, at_subject_identifier = identifier_of C g (edge_subject edge),
           at_predicate = edge_predicate edge,
           at_object_link = node_link C (edge_object edge) key, at_object_identifier = identifier_of C g (edge_object edge),
           at_actor_name = Option.bind actor actor_name,
           at_actor_type = (case actor of Some a \<Rightarrow> actor_type_as_str (actor_type a) | None \<Rightarrow> ''unknown''),
           at_actor_id = hash32_to_hex C (actor_hash (case actor of Some a \<Rightarrow> actor_id a | None \<Rightarrow> assertion_actor_id assertion)),
           at_provenance = provenance, at_evidence = map view_evidence evidence,
           at_created_at = assertion_asserted_at assertion, at_observed_at = assertion_observed_at assertion,
           at_observations = map view_observation (assertions_list_observations g aid),
           at_disputes = map view_dispute (assertions_list_disputes g aid),
           at_retractions = map view_retraction (assertions_list_retractions g aid),
           at_supersession = find_supersession C key history,
           at_status = assertion_status_as_str (assertion_status assertion)\<rparr>))))))))))"

section \<open>Serving a page\<close>

datatype page_request =
    UiSearch "string option" "string option"
  | UiRoadmap "string option"
  | UiNode "string option" string
  | UiAssertion "string option" string

fun page_key :: "page_request \<Rightarrow> string option" where
  "page_key (UiSearch key _) = key"
| "page_key (UiRoadmap key) = key"
| "page_key (UiNode key _) = key"
| "page_key (UiAssertion key _) = key"

fun page_data :: "('sk, 'vk, 'u, 'w, 'z) human_env_scheme \<Rightarrow> page_request \<Rightarrow> app_tables \<Rightarrow> graph_error + human_page" where
  "page_data E (UiSearch key q) s = search_page E (case key of Some t \<Rightarrow> t | None \<Rightarrow> []) q s"
| "page_data E (UiRoadmap key) s = roadmap_page E (case key of Some t \<Rightarrow> t | None \<Rightarrow> []) s"
| "page_data E (UiNode key i) s = node_page E (case key of Some t \<Rightarrow> t | None \<Rightarrow> []) i s"
| "page_data E (UiAssertion key i) s = assertion_page E (case key of Some t \<Rightarrow> t | None \<Rightarrow> []) i s"

text \<open>\<open>render\<close> is the template engine; it gives the text of its error or the page.\<close>

definition serve_page ::
  "('sk, 'vk, 'u, 'w, 'z) human_env_scheme \<Rightarrow> (human_page \<Rightarrow> string + string) \<Rightarrow> page_request \<Rightarrow> app_tables \<Rightarrow> nat \<times> string" where
  "serve_page E render q s =
     (case res_bind (authenticate_query E (page_key q) s) (\<lambda>_.
             res_bind (res_map_err (human_of_graph E) (page_data E q s)) (\<lambda>page.
               res_map_err (HumanError 500) (render page))) of
        Inl e \<Rightarrow> error_page e
      | Inr html \<Rightarrow> (200, html))"

section \<open>Who sees a page, and when it fails\<close>

definition reader :: "('sk, 'vk, 'u, 'w, 'z) human_env_scheme \<Rightarrow> string option \<Rightarrow> app_tables \<Rightarrow> bool" where
  "reader E key s \<longleftrightarrow> (\<exists>raw auth. key = Some raw \<and> authenticate (svc E) raw (graph (app_db s)) = Inr auth \<and> allowed auth GraphRead)"

fun malformed :: "('sk, 'vk, 'u, 'w, 'z) human_env_scheme \<Rightarrow> page_request \<Rightarrow> bool" where
  "malformed E (UiNode key i) \<longleftrightarrow> isl (node_id_from_str (svc E) i)"
| "malformed E (UiAssertion key i) \<longleftrightarrow> isl (event_id_from_str (svc E) i)"
| "malformed E _ \<longleftrightarrow> False"

text \<open>What a page is about is on record; the search and the roadmap are about nothing in particular.\<close>

fun on_record :: "('sk, 'vk, 'u, 'w, 'z) human_env_scheme \<Rightarrow> page_request \<Rightarrow> app_tables \<Rightarrow> bool" where
  "on_record E (UiNode key i) s \<longleftrightarrow> (\<exists>nid. node_id_from_str (svc E) i = Inr nid \<and> has_key node_id (nodes (graph (app_db s))) nid)"
| "on_record E (UiAssertion key i) s \<longleftrightarrow> (\<exists>aid. event_id_from_str (svc E) i = Inr aid \<and> has_key as_id (assertions (graph (app_db s))) aid)"
| "on_record E _ s \<longleftrightarrow> True"

text \<open>The stored events and keys can be read: each event is JSON and a signed event with a readable origin, each key is a key.\<close>

definition rows_readable :: "('sk, 'vk, 'u, 'w, 'z) human_env_scheme \<Rightarrow> db \<Rightarrow> bool" where
  "rows_readable E d \<longleftrightarrow>
     (\<forall>row\<in>set (events d). (\<exists>v. parse_value E (er_payload row) = Inr v) \<and>
        (\<exists>sev p. parse_signed (svc E) (er_payload row) = Inr sev \<and> peer_id_from_str (svc E) (ue_origin_peer (se_unsigned sev)) = Inr p)) \<and>
     (\<forall>info\<in>set (peers d). vk_from_bytes (key_wire E) (pe_public_key info) \<noteq> None)"

lemma provenance_readable:
  assumes "rows_readable E d"
  shows "\<exists>x. get_event_provenance (svc E) (key_wire E) k i d = Inr x"
proof (cases "events_get_by_id d i")
  case (Some row)
  then have "row \<in> set (events d)" by (auto simp: events_get_by_id_def dest: lookup_by_SomeD)
  then obtain sev p where "parse_signed (svc E) (er_payload row) = Inr sev" "peer_id_from_str (svc E) (ue_origin_peer (se_unsigned sev)) = Inr p"
    using assms by (auto simp: rows_readable_def)
  moreover have "key_on_file (svc E) (key_wire E) k p d \<noteq> Not_A_Key"
    using assms by (auto simp: key_on_file_def rows_readable_def get_peer_def dest!: lookup_by_SomeD split: option.splits)
  then have "\<exists>key. provenance_key (svc E) (key_wire E) k p d = Inr key"
    by (simp add: provenance_key_on_file split: key_on_file.splits)
  ultimately show ?thesis using Some by (auto simp: get_event_provenance_def split: prod.split)
qed (simp add: get_event_provenance_def)

lemma authenticate_query_reader:
  "authenticate_query E key s = Inr u \<longleftrightarrow> reader E key s"
  "authenticate_query E key s = Inl e \<Longrightarrow>
     \<exists>txt. e = HumanError (if \<exists>raw auth. key = Some raw \<and> authenticate (svc E) raw (graph (app_db s)) = Inr auth then 403 else 401) txt"
proof -
  have auth: "authenticate (svc E) raw (graph (app_db s)) = Inl e' \<Longrightarrow> e' = InvalidApiKey" for raw e'
    by (auto simp: authenticate_def split: option.splits)
  show "authenticate_query E key s = Inr u \<longleftrightarrow> reader E key s"
    by (cases key) (auto simp: authenticate_query_def reader_def require_def allowed_def split: if_splits)
  show "authenticate_query E key s = Inl e \<Longrightarrow>
     \<exists>txt. e = HumanError (if \<exists>raw auth. key = Some raw \<and> authenticate (svc E) raw (graph (app_db s)) = Inr auth then 403 else 401) txt"
    by (cases key; cases "authenticate (svc E) (the key) (graph (app_db s))")
      (auto simp: authenticate_query_def human_of_graph_def require_def dest: auth split: if_splits)
qed

lemma str_replace_char: "str_replace [c] r s = concat (map (\<lambda>x. if x = c then r else [x]) s)"
  by (induction s) auto

lemma escape_html_plain: "set (escape_html s) \<inter> {CHR ''<'', CHR ''>'', CHR 0x22} = {}"
  by (auto simp: escape_html_def str_replace_char split: if_splits)

lemma history_missing:
  assumes "\<forall>row\<in>set (events d). \<exists>v. parse (er_payload row) = Inr v" "hash32_from_str C i = Inr h" "t \<in> set VALID_OBJECT_TYPES"
  shows "only P (get_history C parse t i d)"
proof -
  have "only P (collect_results (map (\<lambda>row. res_bind (res_map_err (\<lambda>e. GEvents (Canonicalize e)) (parse (er_payload row))) (\<lambda>payload.
      Inr \<lparr>he_event_id = er_event_id row, he_event_type = er_event_type row, he_created_at = er_created_at row, he_payload = payload\<rparr>))
      (history_for d t h)))"
  proof (rule sound_collect)
    fix row assume "row \<in> set (history_for d t h)"
    then have "\<exists>v. parse (er_payload row) = Inr v" using assms(1) by (auto simp: history_for_def)
    then show "only P (res_bind (res_map_err (\<lambda>e. GEvents (Canonicalize e)) (parse (er_payload row))) (\<lambda>payload.
      Inr \<lparr>he_event_id = er_event_id row, he_event_type = er_event_type row, he_created_at = er_created_at row, he_payload = payload\<rparr>))"
      by auto
  qed
  with assms(2,3) show ?thesis by (simp add: get_history_def)
qed

lemma view_assertions_missing: "graph_ok C g \<Longrightarrow> only P (view_assertions C' key g as)"
  by (induction as) (auto intro!: sound_bind sound_reads split: option.splits)

lemma assertion_has_edge:
  assumes "graph_ok C g" "assertions_get_by_id g i = Inr (Some a)"
  shows "\<exists>e. edges_get_by_id g (assertion_edge_id a) = Some e"
proof -
  obtain row where row: "lookup_by as_id (assertions g) i = Some row" "row_to_assertion row = Inr a"
    using assms(2) by (cases "lookup_by as_id (assertions g) i") (auto simp: assertions_get_by_id_def transpose_opt_def split: sum.splits)
  then have "has_key edge_id (edges g) (as_edge_id row)"
    using assms(1) lookup_by_SomeD [OF row(1)] by (auto simp: graph_ok_def assertions_ok_def list_all_iff)
  moreover have "assertion_edge_id a = as_edge_id row" using row(2) by (auto simp: row_to_assertion_def split: option.splits)
  ultimately show ?thesis using lookup_by_None_iff [of edge_id "edges g" "as_edge_id row"] by (auto simp: edges_get_by_id_def)
qed

lemma only_False: "only (\<lambda>_. False) r \<Longrightarrow> \<exists>x. r = Inr x"
  by (cases r) (auto simp: only_def)

lemma page_found:
  assumes "graph_ok (svc E) (graph (app_db s))" "rows_readable E (app_db s)" "on_record E q s"
  shows "\<exists>page. page_data E q s = Inr page"
proof (rule only_False)
  have json: "\<forall>row\<in>set (events (app_db s)). \<exists>v. parse_value E (er_payload row) = Inr v"
    using assms(2) by (auto simp: rows_readable_def)
  show "only (\<lambda>_. False) (page_data E q s)"
  proof (cases q)
    case (UiSearch key query)
    then show ?thesis by (simp add: search_page_def Let_def)
  next
    case (UiRoadmap key)
    then show ?thesis by (auto simp: roadmap_page_def intro!: sound_bind sound_corroboration [OF assms(1)])
  next
    case (UiNode key i)
    with assms(3) obtain nid where nid: "node_id_from_str (svc E) i = Inr nid" "has_key node_id (nodes (graph (app_db s))) nid" by auto
    then obtain h where "hash32_from_str (svc E) i = Inr h" by (cases "hash32_from_str (svc E) i") (auto simp: node_id_from_str_def)
    moreover obtain n where "select_node (graph (app_db s)) nid = Some n" using select_node_exists [OF nid(2)] by blast
    ultimately show ?thesis using UiNode nid
      by (auto simp: node_page_def parse_node_id_def parse_id_def Let_def VALID_OBJECT_TYPES_def
          intro!: sound_bind sound_reads [OF assms(1)] view_assertions_missing [OF assms(1)] history_missing [OF json])
  next
    case (UiAssertion key i)
    with assms(3) obtain aid where aid: "event_id_from_str (svc E) i = Inr aid" "has_key as_id (assertions (graph (app_db s))) aid" by auto
    then obtain h where "hash32_from_str (svc E) i = Inr h" by (cases "hash32_from_str (svc E) i") (auto simp: event_id_from_str_def)
    moreover obtain a where a: "assertions_get_by_id (graph (app_db s)) aid = Inr (Some a)"
      using assertions_get_by_id_total [OF assms(1), of aid] aid(2) by auto
    moreover obtain e where "edges_get_by_id (graph (app_db s)) (assertion_edge_id a) = Some e"
      using assertion_has_edge [OF assms(1) a] by blast
    moreover have "only P (get_event_provenance (svc E) (key_wire E) (identity E) j (app_db s))" for P j
      using provenance_readable [OF assms(2), of "identity E" j] by auto
    ultimately show ?thesis using UiAssertion aid
      by (auto simp: assertion_page_def parse_assertion_id_def parse_id_def Let_def VALID_OBJECT_TYPES_def get_assertion_def
          intro!: sound_bind sound_reads [OF assms(1)] history_missing [OF json])
  qed
qed

lemma page_not_found:
  assumes "graph_ok (svc E) (graph (app_db s))" "\<not> on_record E q s" "\<not> malformed E q"
  shows "\<exists>what. page_data E q s = Inl (GNotFound what)"
proof (cases q)
  case (UiNode key i)
  with assms(2,3) obtain nid where nid: "node_id_from_str (svc E) i = Inr nid" "\<not> has_key node_id (nodes (graph (app_db s))) nid"
    by (cases "node_id_from_str (svc E) i") auto
  then have "select_node (graph (app_db s)) nid = None" by (simp add: select_node_def lookup_by_None_iff)
  with UiNode nid(1) show ?thesis by (simp add: node_page_def parse_node_id_def parse_id_def Let_def)
next
  case (UiAssertion key i)
  with assms(2,3) obtain aid where aid: "event_id_from_str (svc E) i = Inr aid" "\<not> has_key as_id (assertions (graph (app_db s))) aid"
    by (cases "event_id_from_str (svc E) i") auto
  then have "assertions_get_by_id (graph (app_db s)) aid = Inr None"
    using assertions_get_by_id_total [OF assms(1), of aid] by auto
  with UiAssertion aid(1) show ?thesis by (simp add: assertion_page_def parse_assertion_id_def parse_id_def Let_def get_assertion_def)
qed (use assms(2) in simp_all)

lemma malformed_data: "malformed E q \<Longrightarrow> \<exists>w. page_data E q s = Inl (InvalidInput w)"
  by (cases q) (auto simp: node_page_def assertion_page_def parse_node_id_def parse_assertion_id_def parse_id_def Let_def isl_def)

text \<open>
  C34. A page is for readers: without a known key the answer is 401, with one that may not read the graph 403.  Let the tables
  be well-formed, and the stored events and keys readable.  Then a reader gets 500 if the identifier in the address is malformed,
  404 if it is that of no node, or assertion, on record, and otherwise, always for the search and the roadmap, the page as the
  template renders the data of the object, with 200, or 500 if the template fails.  The page of an error contains no markup but its
  paragraph, whatever the address said.
\<close>

theorem pages_are_for_readers:
  assumes "graph_ok (svc E) (graph (app_db s))" "rows_readable E (app_db s)"
    and "serve_page E render q s = (code, html)"
  shows "(if \<not> reader E (page_key q) s
      then code = (if \<exists>raw auth. page_key q = Some raw \<and> authenticate (svc E) raw (graph (app_db s)) = Inr auth then 403 else 401)
      else if malformed E q then code = 500
      else if \<not> on_record E q s then code = 404
      else \<exists>page. page_data E q s = Inr page \<and>
        (case render page of Inr rendered \<Rightarrow> code = 200 \<and> html = rendered | Inl _ \<Rightarrow> code = 500)) \<and>
    (code = 200 \<or> (\<exists>txt. html = ''<p>'' @ txt @ ''</p>'' \<and> set txt \<inter> {CHR ''<'', CHR ''>'', CHR 0x22} = {}))"
proof -
  have plain: "\<exists>txt. snd (error_page e) = ''<p>'' @ txt @ ''</p>'' \<and> set txt \<inter> {CHR ''<'', CHR ''>'', CHR 0x22} = {}" for e
    using escape_html_plain by (cases e) auto
  show ?thesis
  proof (cases "authenticate_query E (page_key q) s")
    case (Inl e)
    then have "\<not> reader E (page_key q) s" using authenticate_query_reader(1) [of E "page_key q" s "()"] by auto
    with Inl assms(3) plain [of e] authenticate_query_reader(2) [OF Inl] show ?thesis by (auto simp: serve_page_def)
  next
    case (Inr u)
    then have reader: "reader E (page_key q) s" using authenticate_query_reader(1) by blast
    consider (malformed) w where "malformed E q" "page_data E q s = Inl (InvalidInput w)"
      | (unknown) what where "\<not> malformed E q" "\<not> on_record E q s" "page_data E q s = Inl (GNotFound what)"
      | (known) page where "on_record E q s" "page_data E q s = Inr page"
      using malformed_data [of E q s] page_not_found [OF assms(1)] page_found [OF assms(1,2)] by blast
    then show ?thesis
    proof cases
      case malformed
      with reader Inr assms(3) plain [of "human_of_graph E (InvalidInput w)"] show ?thesis
        by (auto simp: serve_page_def human_of_graph_def)
    next
      case unknown
      with reader Inr assms(3) plain [of "human_of_graph E (GNotFound what)"] show ?thesis
        by (auto simp: serve_page_def human_of_graph_def)
    next
      case known
      then have "\<not> malformed E q" using malformed_data [of E q s] by auto
      with known reader Inr assms(3) plain [of "HumanError 500 _"] show ?thesis by (cases "render page") (auto simp: serve_page_def)
    qed
  qed
qed

text \<open>
  A supersession is recorded with both assertions, so the page of the new one finds it in its history as well, and says that the
  assertion is superseded by itself.
\<close>

lemma supersession_refers_to_both:
  assumes "project_supersede_assertion C eid t p g = Inr (g', refs)"
    and "event_id_from_str C (sup_old_assertion_id p) = Inr old" "event_id_from_str C (sup_new_assertion_id p) = Inr new"
  shows "refs = [(''assertion'', event_hash old), (''assertion'', event_hash new)]"
  using assms by (auto simp: project_supersede_assertion_def)

lemma superseded_by_itself:
  assumes "get_history (svc E) (parse_value E) ''assertion'' i (app_db s) = Inr [first, h]" "he_event_type first = ''ASSERT_RELATION''"
    and "he_event_type h = ''SUPERSEDE_ASSERTION''" "json_str_field ''new_assertion_id'' (he_payload h) = Some i"
    and "assertion_page E key i s = Inr (AssertionTemplate view)"
  shows "map_option sv_new_assertion_id (at_supersession view) = Some (at_assertion_id view)"
  using assms by (auto simp: assertion_page_def parse_assertion_id_def parse_id_def Let_def find_supersession_def)

section \<open>A page that is found and one that is refused\<close>

definition sample_human :: "(byte, byte, string, string) human_env" where
  "sample_human = api_env.extend sample_env (human_env.fields sample_wire (\<lambda>_. ''0.00'') (\<lambda>_. ''error''))"

definition unknown_id :: string where "unknown_id = hash32_to_hex Access.sample_service (replicate 32 1)"

lemma unknown_node: "node_id_from_str Access.sample_service unknown_id = Inr (NodeId (replicate 32 1))"
proof -
  have "hash32_from_str Access.sample_service unknown_id = hash32_from_str sample (hash32_to_hex sample (replicate 32 1))"
    by (simp add: unknown_id_def hash32_from_str_def hash32_to_hex_def Access.sample_service_def codec.defs service.defs)
  also have "\<dots> = Inr (replicate 32 1)"
    using hash32_round_trip [of sample "replicate 32 1"] sample_codecs by (simp add: codecs_ok_def)
  finally show ?thesis by (simp add: node_id_from_str_def)
qed

theorem pages_are_for_readers_witness:
  "fst (serve_page sample_human (\<lambda>_. Inr ''page'') (UiSearch None None) sample_tables) = 401 \<and>
   serve_page sample_human (\<lambda>_. Inr ''page'') (UiSearch (Some ''k'') None) sample_tables = (200, ''page'') \<and>
   fst (serve_page sample_human (\<lambda>_. Inr ''page'') (UiNode (Some ''k'') unknown_id) sample_tables) = 404"
proof -
  let ?render = "\<lambda>_ :: human_page. Inr ''page'' :: string + string"
  have E: "svc sample_human = Access.sample_service" "parse_value sample_human = (\<lambda>_. Inr JNull)"
    by (simp_all add: sample_human_def sample_env_def api_env.defs human_env.defs)
  have ok: "graph_ok (svc sample_human) (graph (app_db sample_tables))" "rows_readable sample_human (app_db sample_tables)"
    by (simp_all add: E rows_readable_def sample_tables_def graph_ok_defs empty_graph_def empty_db_def has_key_def actor_type_parse_def)
  have stranger: "\<not> reader sample_human None sample_tables" by (simp add: reader_def)
  have reader: "reader sample_human (Some ''k'') sample_tables"
    by (simp add: reader_def E authenticate_def find_active_key_def sample_tables_def permission_parse_def List.map_filter_simps allowed_def)
  have "node_id_from_str (svc sample_human) unknown_id = Inr (NodeId (replicate 32 1))"
    by (simp add: E unknown_node)
  then have node: "\<not> malformed sample_human (UiNode (Some ''k'') unknown_id)" "\<not> on_record sample_human (UiNode (Some ''k'') unknown_id) sample_tables"
    by (simp_all add: sample_tables_def empty_graph_def has_key_def)
  note page = pages_are_for_readers [OF ok, of ?render]
  obtain c1 h1 c2 h2 c3 h3 where runs: "serve_page sample_human ?render (UiSearch None None) sample_tables = (c1, h1)"
      "serve_page sample_human ?render (UiSearch (Some ''k'') None) sample_tables = (c2, h2)"
      "serve_page sample_human ?render (UiNode (Some ''k'') unknown_id) sample_tables = (c3, h3)"
    by (meson surj_pair)
  have "c1 = 401" using page [OF runs(1)] stranger by simp
  moreover have "c2 = 200 \<and> h2 = ''page''" using page [OF runs(2)] reader by simp
  moreover have "c3 = 404" using page [OF runs(3)] reader node by (simp del: malformed.simps on_record.simps)
  ultimately show ?thesis by (simp add: runs)
qed

end
