(* ===== verification/Spec2Isabelle.thy ===== *)
theory Spec2Isabelle
  imports SiteBundle Guarantees Access Network Robots Exchange Internet Traversal Explain Corroboration Memory Ranking Api FrontEnds Gossip HumanPages
begin

text \<open>
  Verification development of the Open Agent Graph peer (the Rust workspace under
  \<^verbatim>\<open>src/crates\<close> and the browser bundle \<^verbatim>\<open>src/crates/oag-api/assets/ipfs-site-bundle.src.js\<close>).

  \<^bold>\<open>The program.\<close>  A peer keeps an append-only log of signed events, one hash-linked chain per origin
  peer, and projects every event into a graph of nodes, edges, assertions and evidence.  Local
  writes go through the graph service, which authenticates an API key, checks a permission, and
  commits an event; events of other peers arrive over HTTP or a Reticulum link, are verified, and
  join the same log by the same projection.  Redactions blank projected rows without touching the
  log, and the projection can be rebuilt from the log at any time.  Peers announce themselves with
  signed heartbeats and cluster declarations, from which a peer computes whom to replicate from, and
  gossip loops call every address on record in rounds.
  They also hand each other pinned content, with a signed receipt that both sides record, and ask
  each other for the time and for web pages, believing an answer that a quorum of peers signed; what
  reaches the web goes through an address filter and a redirect loop.
  What the graph knows is read back through an HTTP interface: objects with their history, subgraphs,
  sources and signatures, text and semantic search, the independent sources behind an edge and the
  authority of a node, as JSON or as pages for a human reader.  The same operations are offered to
  agents as MCP tools.  A crawler, started
  through either, fetches a page and the documents its site publishes about itself, extracts claims from
  them, with the help of a language model if there is one, and asserts them like any other client.
  Independently, a bootstrap page hands a browser the identifier of a pinned site, and its script (the
  bundle) fetches that site from IPFS and renders it.

  \<^bold>\<open>The theories.\<close>
  \<^item> \<open>Prelude\<close>: results with errors (\<open>res_bind\<close>, \<open>ok_or\<close>, \<open>res_map_err\<close>), bytes, list lemmas.
  \<^item> \<open>SiteBundle\<close>: the whole of \<^verbatim>\<open>ipfs-site-bundle.src.js\<close>.  Helia, libp2p, UnixFS and the DOM are
    the record \<open>platform\<close>; the page is explicit state.  \<open>collectEntries\<close> has fuel, since a malicious
    peer could serve an endless tree; fuel above the height of the served tree is enough (C2), and
    the whole script ends, whatever is served, when the directories are at most as deep as the fuel
    (\<open>shallow\<close>, C3).  C1--C5: the site is served exactly, the walk ends, errors are shown and never
    escape, only pinned references are rewritten.
  \<^item> \<open>Core\<close>, \<open>Vocabulary\<close>: \<^verbatim>\<open>oag-core\<close> and \<^verbatim>\<open>oag-crypto\<close> -- 32-byte identifiers, peer ids, domain-separated
    signatures, the enumerations and their parsers, canonical identifiers.
  \<^item> \<open>Storage\<close>, \<open>EventLog\<close>: the tables of \<^verbatim>\<open>oag-storage\<close> as row lists, with their uniqueness and
    foreign-key constraints, and one definition per repository function (records \<open>graph\<close>, \<open>db\<close>).
  \<^item> \<open>Projector\<close>, \<open>Ingest\<close>: \<^verbatim>\<open>oag-events\<close> -- payloads, the projection of each, building and
    verifying events, \<open>commit_local_event\<close> and \<open>ingest_remote_event\<close> as transactions.
  \<^item> \<open>GraphInv\<close>, \<open>Chain\<close>, \<open>Redaction\<close>, \<open>PeerState\<close>: the invariants (\<open>graph_ok\<close>, \<open>log_ok\<close>, \<open>projected\<close>,
    together \<open>db_ok\<close>), the abstract chain of an origin (\<open>chain_of\<close>, \<open>chain_offer\<close>) with its refinement,
    redaction and rebuild, and the step relation \<open>peer_step\<close> of everything a peer does.
  \<^item> \<open>Service\<close>: the writing handlers of \<^verbatim>\<open>oag-graph\<close> with their limits, permissions and payloads.
  \<^item> \<open>Guarantees\<close> (C6--C11) and \<open>Access\<close> (C12, C13): chains are linked and tracked in every reachable
    state; ingestion refines the abstract chain; forks are contained; a commit extends the own chain by
    one event or fails for its payload and changes nothing; committed events replicate where they
    project; a rebuild reproduces the database; the life of an API key over any sequence of events, and
    who can issue one.  Their unnumbered theorems: applied events stay known, projection only
    appends, redaction is exact, handlers demand permission, an assertion reads back.
  \<^item> \<open>Framing\<close> (C14), \<open>Limiter\<close> (C15): the message framing of \<^verbatim>\<open>oag-reticulum\<close>, and the two
    fixed-window limiters, both instances of the locale \<open>window_limiter\<close>.
  \<^item> \<open>Peering\<close>: presence, clusters, trust and the federation decision of \<^verbatim>\<open>oag-sync\<close>; both kinds of
    signed claim are instances of the locale \<open>signed_claim\<close>.
  \<^item> \<open>Sync\<close>, \<open>Replicate\<close>, \<open>CatchUp\<close>: the replication endpoints, discovery and the pull of
    \<^verbatim>\<open>SyncService::sync_with_peer\<close>, with what they preserve and what they achieve.
  \<^item> \<open>Link\<close>: the Reticulum listener and client on top of \<open>Framing\<close>, \<open>Limiter\<close> and \<open>Sync\<close>.
  \<^item> \<open>Network\<close> (C16--C18): claims are authentic, hostile peers are harmless, refused origins stay
    out of any sequence of pulls and pushes; also that keys stay bound to peer ids, a pull from an honest peer catches up, trust is
    gradual, exchanges are bounded and a link delivers the handler's reply.
  \<^item> \<open>Gossip\<close> (C19, C20): the rounds of \<^verbatim>\<open>gossip.rs\<close>, standard and cluster loop.  Whatever ingestion and the
    upkeep of the peer table keep, rounds keep (the locale \<open>sync_invariant\<close>); every address is called once
    a round, and rounds copy the chain of an honest peer while others send what they like.
  \<^item> \<open>Transfers\<close>, \<open>Exchange\<close> (C21, C22): \<^verbatim>\<open>oag-api/src/transfer.rs\<close> -- requests, receipts, the server's
    handler with its rate limit and relay, the client's verification; content is vouched for, and
    both graphs say the same of a transfer.
  \<^item> \<open>Outbound\<close>, \<open>Robots\<close>: \<^verbatim>\<open>oag-crawler\<close>'s address filter, guarded fetch and crawl rules, and the
    gateway's fetch of a page.  The pinning provider and the language model have clients of their own, which
    the filter does not see; \<open>Crawl\<close> records the calls to them beside the connections.
  \<^item> \<open>NtpWire\<close>, \<open>Gateway\<close>, \<open>Internet\<close> (C23--C25): \<^verbatim>\<open>ntp_wire.rs\<close> and \<^verbatim>\<open>gateway.rs\<close> -- packets, the cache,
    quorum, relay and the two front ends; answers are backed by a quorum and no older than their
    time to live, connections stay off the local network, and the time of a server is accurate.
  \<^item> \<open>Traversal\<close> (C26), \<open>Explain\<close> (C27): the queries of \<^verbatim>\<open>oag-graph\<close> -- the breadth-first search behind a
    subgraph, whose hop counts are the distances in the graph; history, provenance of signatures by
    the key that is on file, and sources of a node.
  \<^item> \<open>Corroboration\<close> (C28), \<open>Ranking\<close> (C29): control groups behind an edge and its signals, the
    roadmap; search with suppression, resolving a value, embeddings and cosine ranking, authority by
    power iteration.
  \<^item> \<open>Memory\<close> (C30, C31): what a peer keeps about others -- tensor pads (\<^verbatim>\<open>oag-tensor\<close>) and their bytes,
    gravity levels under interleaved tasks, names (\<^verbatim>\<open>oag-petname\<close>), and versions of stored objects.
  \<^item> \<open>Api\<close> (C33): the 25 JSON routes of \<^verbatim>\<open>handlers.rs\<close> and \<^verbatim>\<open>redaction.rs\<close>, each a handler on the
    peer's tables, and the status of each error; reading routes do not fail inside.  The other routes of
    \<^verbatim>\<open>build_router\<close> are in \<open>Crawl\<close>, \<open>HumanPages\<close>, \<open>SitePage\<close>, \<open>Transfers\<close> and \<open>Gateway\<close>.
  \<^item> \<open>HumanPages\<close> (C34), \<open>SitePage\<close> (C35): the pages of \<^verbatim>\<open>human.rs\<close> with their data, links and errors, only
    for readers; the bootstrap page of \<^verbatim>\<open>ipfs_site.rs\<close>, which, read as the HTML parser reads script data, starts the
    bundle with the site it was asked for.
  \<^item> \<open>Journal\<close>: what the writing handlers of the graph service do, as runs of commits and redactions
    (\<open>service_run\<close>) whose payloads have a given kind; log and invariants follow for every run.
  \<^item> \<open>Extract\<close> (C40), \<open>Crawl\<close> (C39): the rest of \<^verbatim>\<open>oag-crawler\<close> -- the extractors for HTML, JSON-LD,
    markdown, llms.txt, ARD and agent cards, the language model's candidates, and the crawl itself with
    its actors and counters; a crawl is contained and obeys the site's rules, and llms.txt reads back.
  \<^item> \<open>Mcp\<close> (C38): every tool of \<^verbatim>\<open>oag-mcp\<close>; a tool does what the HTTP route for the same operation does.
  \<^item> \<open>FrontEnds\<close> (C32, C36, C37): routes, tools and crawls are instances of the locale \<open>front_end\<close>; no sequence of
    requests touches the API keys, the log only grows, and requests to the 25 routes write in their caller's
    name; all of \<^verbatim>\<open>/api/v1\<close>, the crawl included, is guarded by key and permission.
  \<^item> \<open>Sample\<close>: a concrete codec with two events of one peer, on which the witnesses are evaluated.

  \<^bold>\<open>Parameters and hypotheses.\<close>  Code that is not part of the repository is an argument: \<open>crypto\<close> and
  \<open>codec\<close> (ed25519, BLAKE3, hex, base32, serde_json, RFC 8785), \<open>wire\<close> (key parsing and canonical
  bytes of claims), \<open>remote\<close> (what another peer answers), \<open>transport\<close> (the link crate), \<open>platform\<close>
  (browser and Helia), \<open>exchange\<close> and \<open>gateway_wire\<close> (serde and canonical bytes of transfer and gateway
  messages), \<open>web\<close> (URL parsing, name resolution, HTTP), \<open>gateway_env\<close> with \<open>peer_exchange\<close> and
  \<open>ntp_socket\<close> (what peers and time servers answer, the iteration order of a hash map), \<open>rnd\<close>, \<open>rnd64\<close>,
  \<open>pow2\<close>, \<open>sqrt32\<close> and \<open>f32_format\<close> (rounding, elementary functions and bytes of floats), \<open>url_view\<close> (the \<^verbatim>\<open>url\<close>
  crate), \<open>fts\<close> (the full-text index), \<open>embedding_provider\<close>, and the drain orders of hash maps; \<open>api_env\<close>
  gathers those of the HTTP interface, \<open>crawl_env\<close> adds the web as each fetch finds it, the HTML parser
  (\<open>scraper\<close>), serde's reading of the published documents, the language model and the pinning provider,
  \<open>mcp_env\<close> and \<open>human_env\<close> the texts of errors and numbers, \<open>literals\<close> is serde's printing and the browser's
  reading of a string, and \<open>tick\<close> who answers at each address in a gossip round.  What is relied on is named:
  \<open>codecs_ok\<close> (decoding inverts encoding, a signature made with a key verifies, digests have 32
  bytes), \<open>collision_free\<close> (events of the considered set have distinct ids), \<open>readable\<close> and
  \<open>reads_back\<close> (a stored payload parses to the event it was printed from), \<open>key_codec\<close> (a key's bytes
  read back), \<open>f32_rounding\<close> (rounding is monotone and exact on 0 and 1), \<open>receipt_codec\<close> (a receipt's
  header reads back), \<open>permutes_keys\<close> and \<open>permutes_entries\<close> (a hash map iterates over its
  entries, each once), \<open>ids_tell_keys\<close> (the hash of a key names one key), \<open>keys_match\<close> (every key in the
  peer table hashes to the id it stands under: true of an empty table and kept by pulls and pushes over HTTP,
  but not by the discovery over Reticulum), \<open>rows_readable\<close> (stored events and keys can be read), \<open>f32_arith\<close> and
  \<open>decay_ok\<close> (rounded arithmetic and the decay stay in their ranges), \<open>fts_ranks\<close> (the index returns rows of its
  table, each once), \<open>f32_format_ok\<close> (four bytes read back to the float), \<open>draws_in_range\<close> (a random level is
  in [0,1)), \<open>literal_codec\<close> (a printed string reads back), \<open>sole_author\<close> (a peer's database holds whatever verifies
  under its key) and \<open>small_world\<close> (fewer than \<open>2 ^ 61\<close> events).  \<open>Sample\<close>, \<open>Network\<close>, \<open>Exchange\<close>, \<open>Internet\<close> and the theories of the witnesses give instances of
  all of them.

  \<^bold>\<open>Bounds.\<close>  Sequence numbers are \<open>64 word\<close>s; a log shorter than \<open>2 ^ 64 - 1\<close> events (\<open>2 ^ 61\<close> where
  the code casts to i64) cannot wrap them.  Request counters are \<open>32 word\<close>s, with fewer than \<open>2 ^ 32\<close>
  requests in the history considered.  Trust arithmetic is on i64 with times in \<open>in_range\<close>, where
  differences do not wrap; the clock check of claims is stated for every timestamp, wrapping
  included.  An NTP timestamp has 32 bits of seconds since 1900, so times are below 2085978496000
  milliseconds of the Unix epoch (the year 2036).

  \<^bold>\<open>Not modelled.\<close>  The rendering of the HTML templates, logging and metrics of the HTTP interface, the transport of MCP, CLI,
  the IPFS node and the brain service; the built bundle
  \<^verbatim>\<open>ipfs-site-bundle.js\<close> (generated).  Within the modelled parts: the ranking of the full-text index,
  failures of disk and connection pool, SQLite's internal concurrency (a transaction is one step), letter
  case and white space outside ASCII, the JSON text of requests and answers, the timers of the gossip,
  heartbeat and announce loops, and the interleaving of calls of the two gossip loops (a round is taken as a whole).
\<close>

end
